(* ===== verification/Prelude.thy ===== *)
theory Prelude
  imports Complex_Main "HOL-Library.AList"
begin

section \<open>Python values and the helpers the components share\<close>

text \<open>
  The daemon passes JSON documents around as Python dictionaries and inspects them with
  \<open>isinstance\<close>, \<open>dict.get\<close> and truthiness tests.  This theory fixes how those values are
  read in the model:

  \<^item> \<open>pyval\<close> is a Python value that occurs in a config, an event or a frame.  A \<open>dict\<close> is an
    association list in insertion order (Python dictionaries keep insertion order, and the
    code relies on it for fan-out order); a float carries its exact value and the text
    CPython prints for it; \<open>bytes\<close> occur as inline secrets of hand-built configs.
  \<^item> Python \<open>str\<close> and \<open>bytes\<close> are both \<open>string\<close>: a code point or a byte below 256 per char.
  \<^item> wall-clock and monotonic readings are exact rationals; an operation that reads the
    clock takes the reading as an argument.
  \<^item> an exception is a value of \<open>exn\<close>, and an operation that may raise returns \<open>'a res\<close>.

  The generic lemmas on dictionaries and lists below are used by all components.
\<close>

type_synonym bytes = string
type_synonym pytime = rat

datatype pyval =
    VNone
  | VBool bool
  | VInt int
  | VFloat rat string
  | VStr string
  | VBytes bytes
  | VList "pyval list"
  | VDict "(string \<times> pyval) list"

type_synonym dict = "(string \<times> pyval) list"
type_synonym cfg = dict

datatype exn =
    TypeError
  | KeyError string
  | IndexError
  | AttributeError
  | ValueError string
  | UnicodeDecodeError
  | OSError string
  | OtherError string

type_synonym 'a res = "exn + 'a"

named_theorems model_defs
  \<open>unfoldings of the small Python helpers\<close>

named_theorems store_simps
  \<open>what each store operation leaves of the store's fields\<close>

named_theorems router_simps
  \<open>what each router operation leaves of the router's fields\<close>

subsection \<open>Dictionaries\<close>

text \<open>\<open>d.get(k)\<close>; assignment \<open>d[k] = v\<close>; \<open>d.setdefault(k, v)\<close>; \<open>d.pop(k, None)\<close>.\<close>

abbreviation dget :: "('k \<times> 'v) list \<Rightarrow> 'k \<Rightarrow> 'v option" where
  "dget \<equiv> map_of"

abbreviation dset :: "'k \<Rightarrow> 'v \<Rightarrow> ('k \<times> 'v) list \<Rightarrow> ('k \<times> 'v) list" where
  "dset \<equiv> AList.update"

abbreviation dpop :: "'k \<Rightarrow> ('k \<times> 'v) list \<Rightarrow> ('k \<times> 'v) list" where
  "dpop \<equiv> AList.delete"

definition has_key :: "('k \<times> 'v) list \<Rightarrow> 'k \<Rightarrow> bool" where
  "has_key d k \<longleftrightarrow> dget d k \<noteq> None"

definition setdefault :: "'k \<Rightarrow> 'v \<Rightarrow> ('k \<times> 'v) list \<Rightarrow> ('k \<times> 'v) list" where
  "setdefault k v d = (if has_key d k then d else d @ [(k, v)])"

definition wf_dict :: "('k \<times> 'v) list \<Rightarrow> bool" where
  "wf_dict d \<longleftrightarrow> distinct (map fst d)"

lemma has_key_iff: "has_key d k \<longleftrightarrow> k \<in> fst ` set d"
  by (auto simp: has_key_def map_of_eq_None_iff)

lemma dget_setdefault:
  "dget (setdefault k v d) k' =
     (if k' = k then Some (case dget d k of None \<Rightarrow> v | Some w \<Rightarrow> w) else dget d k')"
  by (auto simp: setdefault_def has_key_def map_add_def split: option.splits)

lemma wf_dict_setdefault [simp]: "wf_dict d \<Longrightarrow> wf_dict (setdefault k v d)"
  by (auto simp: wf_dict_def setdefault_def has_key_def map_of_eq_None_iff)

lemma wf_dict_dset [simp]: "wf_dict d \<Longrightarrow> wf_dict (dset k v d)"
  by (simp add: wf_dict_def distinct_update)

lemma wf_dict_dpop [simp]: "wf_dict d \<Longrightarrow> wf_dict (dpop k d)"
  by (simp add: wf_dict_def distinct_delete)

lemma wf_dict_Nil [simp]: "wf_dict []"
  by (simp add: wf_dict_def)

lemma wf_dict_get: "wf_dict d \<Longrightarrow> dget d k = Some v \<longleftrightarrow> (k, v) \<in> set d"
  by (simp add: wf_dict_def map_of_eq_Some_iff)

lemma keys_dset: "fst ` set (dset k v d) = insert k (fst ` set d)"
  by (simp add: dom_update)

lemma keys_dpop: "fst ` set (dpop k d) = fst ` set d - {k}"
  using delete_keys [of k d] by (metis list.set_map set_removeAll)

lemma length_dset:
  "length (dset k v d) = (if has_key d k then length d else Suc (length d))"
  by (induction d) (auto simp: has_key_def)

lemma map_fst_dset:
  "map fst (dset k v d) = (if has_key d k then map fst d else map fst d @ [k])"
  by (induction d) (auto simp: has_key_def)

lemma dget_dset: "dget (dset k v d) k' = (if k' = k then Some v else dget d k')"
  by (simp add: update_conv)

lemma dget_dpop: "dget (dpop k d) k' = (if k' = k then None else dget d k')"
  by (simp add: delete_conv)

subsection \<open>Python's view of a value\<close>

text \<open>\<open>bool(v)\<close>, the test behind \<open>if v\<close>, \<open>not v\<close> and \<open>v or w\<close>.\<close>

fun truthy :: "pyval \<Rightarrow> bool" where
  "truthy VNone = False"
| "truthy (VBool b) = b"
| "truthy (VInt i) = (i \<noteq> 0)"
| "truthy (VFloat r _) = (r \<noteq> 0)"
| "truthy (VStr s) = (s \<noteq> [])"
| "truthy (VBytes s) = (s \<noteq> [])"
| "truthy (VList xs) = (xs \<noteq> [])"
| "truthy (VDict d) = (d \<noteq> [])"

definition truthy_opt :: "pyval option \<Rightarrow> bool" where
  "truthy_opt v = (case v of None \<Rightarrow> False | Some x \<Rightarrow> truthy x)"

text \<open>Numeric comparison: \<open>True == 1\<close> and \<open>1.0 == 1\<close> hold in Python.\<close>

fun py_num :: "pyval \<Rightarrow> rat option" where
  "py_num (VBool b) = Some (if b then 1 else 0)"
| "py_num (VInt i) = Some (of_int i)"
| "py_num (VFloat r _) = Some r"
| "py_num _ = None"

definition is_str :: "pyval option \<Rightarrow> bool" where
  "is_str v = (case v of Some (VStr _) \<Rightarrow> True | _ \<Rightarrow> False)"

definition str_of :: "pyval option \<Rightarrow> string option" where
  "str_of v = (case v of Some (VStr s) \<Rightarrow> Some s | _ \<Rightarrow> None)"

definition int_of :: "pyval option \<Rightarrow> int option" where
  "int_of v = (case v of Some (VInt i) \<Rightarrow> Some i | _ \<Rightarrow> None)"

definition dict_of :: "pyval option \<Rightarrow> dict option" where
  "dict_of v = (case v of Some (VDict d) \<Rightarrow> Some d | _ \<Rightarrow> None)"

text \<open>\<open>cfg.get(k) or {}\<close> where the table is an object when it is present.\<close>

definition table_of :: "pyval option \<Rightarrow> dict" where
  "table_of v = (case v of Some (VDict d) \<Rightarrow> d | _ \<Rightarrow> [])"

text \<open>A plain \<open>or\<close> between two optional values.\<close>

definition py_or :: "pyval option \<Rightarrow> pyval option \<Rightarrow> pyval option" where
  "py_or a b = (if truthy_opt a then a else b)"

text \<open>
  \<open>str(v)\<close>: decimal integers, \<open>None\<close>, \<open>True\<close>, \<open>False\<close>, the printed form of a float and the
  \<open>repr\<close> of a container.  A string is its own \<open>str\<close>.
\<close>

definition digit_char :: "nat \<Rightarrow> char" where
  "digit_char n = ''0123456789abcdef'' ! (n mod 16)"

fun nat_str :: "nat \<Rightarrow> string" where
  "nat_str n = (if n < 10 then [digit_char n] else nat_str (n div 10) @ [digit_char (n mod 10)])"

declare nat_str.simps [simp del]

definition int_str :: "int \<Rightarrow> string" where
  "int_str i = (if i < 0 then CHR ''-'' # nat_str (nat (- i)) else nat_str (nat i))"

definition byte_hex :: "char \<Rightarrow> string" where
  "byte_hex c = [digit_char (of_char c div 16), digit_char (of_char c mod 16)]"

definition repr_char :: "bool \<Rightarrow> char \<Rightarrow> char \<Rightarrow> string" where
  "repr_char ascii q c =
     (if c = q \<or> c = CHR 0x5C then [CHR 0x5C, c]
      else if c = CHR 0x0A then [CHR 0x5C, CHR ''n'']
      else if c = CHR 0x0D then [CHR 0x5C, CHR ''r'']
      else if c = CHR 0x09 then [CHR 0x5C, CHR ''t'']
      else let n = (of_char c :: nat) in
        if n < 32 \<or> (127 \<le> n \<and> (ascii \<or> n \<le> 160)) \<or> n = 173
        then [CHR 0x5C, CHR ''x''] @ byte_hex c else [c])"

definition repr_text :: "bool \<Rightarrow> string \<Rightarrow> string" where
  "repr_text ascii s =
     (let q = (if CHR 0x27 \<in> set s \<and> CHR 0x22 \<notin> set s then CHR 0x22 else CHR 0x27)
      in [q] @ concat (map (repr_char ascii q) s) @ [q])"

abbreviation repr_str :: "string \<Rightarrow> string" where
  "repr_str \<equiv> repr_text False"

fun join :: "string \<Rightarrow> string list \<Rightarrow> string" where
  "join sep [] = []"
| "join sep [x] = x"
| "join sep (x # y # ys) = x @ sep @ join sep (y # ys)"

fun py_repr :: "pyval \<Rightarrow> string" where
  "py_repr VNone = ''None''"
| "py_repr (VBool b) = (if b then ''True'' else ''False'')"
| "py_repr (VInt i) = int_str i"
| "py_repr (VFloat _ t) = t"
| "py_repr (VStr s) = repr_str s"
| "py_repr (VBytes s) = CHR ''b'' # repr_text True s"
| "py_repr (VList xs) = ''['' @ join '', '' (map py_repr xs) @ '']''"
| "py_repr (VDict d) =
     ''{'' @ join '', '' (map (\<lambda>p. repr_str (fst p) @ '': '' @ py_repr (snd p)) d) @ ''}''"

definition py_str :: "pyval \<Rightarrow> string" where
  "py_str v = (case v of VStr s \<Rightarrow> s | _ \<Rightarrow> py_repr v)"

text \<open>\<open>str(d.get(k, default))\<close>.\<close>

definition get_str :: "dict \<Rightarrow> string \<Rightarrow> string \<Rightarrow> string" where
  "get_str d k dflt = (case dget d k of None \<Rightarrow> dflt | Some v \<Rightarrow> py_str v)"

lemma py_str_VStr [simp]: "py_str (VStr s) = s"
  by (simp add: py_str_def)

lemmas py_access = is_str_def str_of_def int_of_def dict_of_def table_of_def truthy_opt_def

subsection \<open>First occurrences\<close>

text \<open>
  Keeping the first element of each key: what a loop of \<open>seen.setdefault(key(x), x)\<close> leaves
  in \<open>seen.values()\<close>.
\<close>

fun first_by :: "('a \<Rightarrow> 'k) \<Rightarrow> 'a list \<Rightarrow> 'a list" where
  "first_by f [] = []"
| "first_by f (x # xs) = x # filter (\<lambda>y. f y \<noteq> f x) (first_by f xs)"

lemma set_first_by_subset: "set (first_by f xs) \<subseteq> set xs"
  by (induction xs) auto

lemma keys_first_by [simp]: "f ` set (first_by f xs) = f ` set xs"
proof (induction xs)
  case (Cons a xs)
  have "f ` {y \<in> set (first_by f xs). f y \<noteq> f a} = f ` set (first_by f xs) - {f a}" by auto
  with Cons show ?case by auto
qed simp

lemma distinct_first_by [simp]: "distinct (map f (first_by f xs))"
  by (induction xs) (auto simp: distinct_map_filter)

lemma set_first_by_inj: "inj_on f (set xs) \<Longrightarrow> set (first_by f xs) = set xs"
proof
  assume inj: "inj_on f (set xs)"
  show "set (first_by f xs) \<subseteq> set xs" by (rule set_first_by_subset)
  show "set xs \<subseteq> set (first_by f xs)"
  proof
    fix x assume x: "x \<in> set xs"
    then have "f x \<in> f ` set (first_by f xs)" by simp
    then obtain y where y: "y \<in> set (first_by f xs)" "f y = f x" by (metis imageE)
    with set_first_by_subset [of f xs] have "y \<in> set xs" by blast
    with x y inj have "y = x" by (auto dest: inj_onD)
    with y show "x \<in> set (first_by f xs)" by simp
  qed
qed

lemma inj_on_subset_first_by:
  "inj_on f (set (first_by f xs))"
  using distinct_first_by [of f xs] by (simp add: distinct_map)

subsection \<open>Evicting the smallest\<close>

text \<open>
  \<open>DELETE ... WHERE id IN (SELECT id ... ORDER BY key LIMIT n)\<close>: with distinct identifiers the
  rows left are those after the first \<open>n\<close> of the sorted table.
\<close>

lemma evict_filter_sorted:
  assumes "distinct (map f ys)"
  shows "filter (\<lambda>x. f x \<notin> f ` set (take k ys)) ys = drop k ys"
proof -
  have d: "distinct (map f (take k ys) @ map f (drop k ys))"
    using assms by (simp flip: map_append)
  then have "filter (\<lambda>x. f x \<notin> f ` set (take k ys)) (take k ys @ drop k ys) = drop k ys"
    unfolding filter_append by (auto simp: filter_empty_conv intro!: filter_True)
  then show ?thesis by simp
qed

lemma evict_sort:
  assumes "distinct (map f xs)"
  shows "sort_key g (filter (\<lambda>x. f x \<notin> f ` set (take k (sort_key g xs))) xs) = drop k (sort_key g xs)"
proof -
  have "inj_on f (set xs)" "distinct xs" using assms by (auto simp: distinct_map)
  then have "distinct (map f (sort_key g xs))" by (simp add: distinct_map)
  then show ?thesis by (simp add: filter_sort [symmetric] evict_filter_sorted)
qed

lemma evict_length:
  "distinct (map f xs) \<Longrightarrow>
   length (filter (\<lambda>x. f x \<notin> f ` set (take k (sort_key g xs))) xs) = length xs - k"
  using arg_cong [OF evict_sort [of f xs g k], where f = length] by simp

lemma evict_set:
  "distinct (map f xs) \<Longrightarrow>
   set (filter (\<lambda>x. f x \<notin> f ` set (take k (sort_key g xs))) xs) = set (drop k (sort_key g xs))"
  using arg_cong [OF evict_sort [of f xs g k], where f = set] by simp

lemma sort_take_drop_le:
  assumes "x \<in> set (take k (sort_key g xs))" "y \<in> set (drop k (sort_key g xs))"
  shows "g x \<le> g y"
proof -
  have "sorted (map g (take k (sort_key g xs)) @ map g (drop k (sort_key g xs)))"
    by (simp flip: map_append)
  with assms show ?thesis by (auto simp: sorted_append)
qed

end
