(* ===== verification/Proto.thy ===== *)
theory Proto
  imports Prelude
begin

section \<open>The wire protocol between daemon and adapters (\<open>proto.py\<close>)\<close>

text \<open>
  Frames are JSON objects, one per line.  The validators return \<open>None\<close> for a sound frame and
  an error code otherwise.  \<open>json.dumps\<close> with the separators and the ASCII escaping the code
  asks for is \<open>dumps\<close>; \<open>asyncio\<close>'s \<open>readline\<close> is \<open>readline\<close>.  Parsing a line is a parameter of the
  components that do it.
\<close>

datatype code = bad_frame | version_unsupported | unexpected_type

definition KNOWN_TYPES :: "string list" where
  "KNOWN_TYPES = [''hello'', ''hello_ack'', ''wake'', ''ack'', ''nack'', ''reply'', ''reply_result'',
                  ''error'', ''ping'', ''pong'']"

definition MAX_FRAME_SIZE :: nat where
  "MAX_FRAME_SIZE = 1 * 1024 * 1024"

subsection \<open>Encoding\<close>

definition u_escape :: "char \<Rightarrow> string" where
  "u_escape c = [CHR 0x5C] @ ''u00'' @ byte_hex c"

definition json_char :: "char \<Rightarrow> string" where
  "json_char c =
     (if c = CHR 0x22 then [CHR 0x5C, CHR 0x22]
      else if c = CHR 0x5C then [CHR 0x5C, CHR 0x5C]
      else if c = CHR 0x0A then [CHR 0x5C, CHR ''n'']
      else if c = CHR 0x0D then [CHR 0x5C, CHR ''r'']
      else if c = CHR 0x09 then [CHR 0x5C, CHR ''t'']
      else if c = CHR 0x0C then [CHR 0x5C, CHR ''f'']
      else if c = CHR 0x08 then [CHR 0x5C, CHR ''b'']
      else if (of_char c :: nat) < 32 \<or> 126 < (of_char c :: nat) then u_escape c
      else [c])"

definition json_string :: "string \<Rightarrow> string" where
  "json_string s = [CHR 0x22] @ concat (map json_char s) @ [CHR 0x22]"

text \<open>\<open>json.dumps(v, separators=(",", ":"))\<close>; bytes are not serialisable.\<close>

fun serialisable :: "pyval \<Rightarrow> bool" where
  "serialisable (VBytes _) = False"
| "serialisable (VList xs) = (\<forall>x \<in> set xs. serialisable x)"
| "serialisable (VDict d) = (\<forall>p \<in> set d. serialisable (snd p))"
| "serialisable _ = True"

fun dumps_text :: "pyval \<Rightarrow> string" where
  "dumps_text VNone = ''null''"
| "dumps_text (VBool b) = (if b then ''true'' else ''false'')"
| "dumps_text (VInt i) = int_str i"
| "dumps_text (VFloat _ t) = t"
| "dumps_text (VStr s) = json_string s"
| "dumps_text (VBytes _) = []"
| "dumps_text (VList xs) = ''['' @ join '','' (map dumps_text xs) @ '']''"
| "dumps_text (VDict d) =
     ''{'' @ join '','' (map (\<lambda>p. json_string (fst p) @ '':'' @ dumps_text (snd p)) d) @ ''}''"

definition dumps :: "pyval \<Rightarrow> string res" where
  "dumps v = (if serialisable v then Inr (dumps_text v) else Inl TypeError)"

definition newline :: char where
  "newline = CHR 0x0A"

definition encode_frame :: "dict \<Rightarrow> bytes res" where
  "encode_frame frame =
     (case dumps (VDict frame) of Inl e \<Rightarrow> Inl e | Inr s \<Rightarrow> Inr (s @ [newline]))"

text \<open>\<open>StreamReader.readline\<close>: the bytes up to and including the first newline (everything at
  end of stream) and what stays in the buffer.\<close>

fun readline :: "bytes \<Rightarrow> bytes \<times> bytes" where
  "readline [] = ([], [])"
| "readline (c # cs) =
     (if c = newline then ([c], cs)
      else let (l, rest) = readline cs in (c # l, rest))"

lemma readline_length: "length (snd (readline bs)) \<le> length bs"
  by (induction bs) (simp_all add: case_prod_beta)

lemma readline_shrinks: "bs \<noteq> [] \<Longrightarrow> length (snd (readline bs)) < length bs"
  by (cases bs) (simp_all add: case_prod_beta less_Suc_eq_le readline_length)

function read_lines :: "bytes \<Rightarrow> bytes list" where
  "read_lines bs =
     (if bs = [] then [] else let (l, rest) = readline bs in l # read_lines rest)"
  by pat_completeness auto
termination
  by (relation "measure length") (simp_all, metis readline_shrinks snd_conv)

declare read_lines.simps [simp del]

subsection \<open>Validation\<close>

definition require_str :: "dict \<Rightarrow> string \<Rightarrow> code option" where
  "require_str frame key = (if is_str (dget frame key) then None else Some bad_frame)"

definition orelse :: "'e option \<Rightarrow> 'e option \<Rightarrow> 'e option" where
  "orelse a b = (case a of Some e \<Rightarrow> Some e | None \<Rightarrow> b)"

definition check :: "bool \<Rightarrow> 'e \<Rightarrow> 'e option" where
  "check b e = (if b then None else Some e)"

definition is_str_list :: "pyval \<Rightarrow> bool" where
  "is_str_list v = (case v of VList xs \<Rightarrow> (\<forall>x \<in> set xs. is_str (Some x)) | _ \<Rightarrow> False)"

definition is_list :: "pyval \<Rightarrow> bool" where
  "is_list v = (case v of VList _ \<Rightarrow> True | _ \<Rightarrow> False)"

text \<open>A key that is absent and a key whose value is \<open>None\<close> read the same with \<open>get\<close>.\<close>

definition get_some :: "dict \<Rightarrow> string \<Rightarrow> pyval option" where
  "get_some d k = (case dget d k of Some VNone \<Rightarrow> None | v \<Rightarrow> v)"

definition version_is_one :: "dict \<Rightarrow> bool" where
  "version_is_one frame = (case dget frame ''v'' of None \<Rightarrow> False | Some v \<Rightarrow> py_num v = Some 1)"

definition validate_hello :: "dict \<Rightarrow> code option" where
  "validate_hello frame =
     orelse (check (version_is_one frame) version_unsupported)
    (orelse (require_str frame ''adapter'')
    (orelse (require_str frame ''instance'')
       (case (case dget frame ''filters'' of None \<Rightarrow> VDict [] | Some f \<Rightarrow> f) of
          VDict filters \<Rightarrow>
            (let sources = get_some filters ''sources'';
                 destinations = get_some frame ''destinations''
             in if \<not> pred_option is_list sources then Some bad_frame
                else if \<not> pred_option is_str_list destinations then Some bad_frame
                else if sources = None \<and> destinations = None then Some bad_frame
                else None)
        | _ \<Rightarrow> Some bad_frame)))"

definition validate_hello_ack :: "dict \<Rightarrow> code option" where
  "validate_hello_ack frame =
     orelse (check (version_is_one frame) bad_frame)
    (orelse (require_str frame ''session_id'')
    (orelse (check (case dget frame ''accepted_sources'' of Some v \<Rightarrow> is_list v | None \<Rightarrow> False) bad_frame)
       (check (pred_option is_str_list (get_some frame ''accepted_destinations'')) bad_frame)))"

definition validate_wake :: "dict \<Rightarrow> code option" where
  "validate_wake frame =
     orelse (require_str frame ''ack_id'')
    (orelse (check (dict_of (dget frame ''event'') \<noteq> None) bad_frame)
       (case get_some frame ''destination'' of
          None \<Rightarrow> None
        | Some (VDict dest) \<Rightarrow> check (is_str (dget dest ''name'')) bad_frame
        | Some _ \<Rightarrow> Some bad_frame))"

definition validate_ack :: "dict \<Rightarrow> code option" where
  "validate_ack frame = require_str frame ''ack_id''"

definition validate_nack :: "dict \<Rightarrow> code option" where
  "validate_nack frame = orelse (require_str frame ''ack_id'') (require_str frame ''reason'')"

fun require_all :: "dict \<Rightarrow> string list \<Rightarrow> code option" where
  "require_all frame [] = None"
| "require_all frame (k # ks) = orelse (require_str frame k) (require_all frame ks)"

definition validate_reply :: "dict \<Rightarrow> code option" where
  "validate_reply frame =
     orelse (require_all frame [''reply_id'', ''source'', ''in_reply_to'', ''content''])
       (case get_some frame ''destination'' of
          None \<Rightarrow> None
        | Some v \<Rightarrow> check (is_str (Some v)) bad_frame)"

definition validate_reply_result :: "dict \<Rightarrow> code option" where
  "validate_reply_result frame =
     orelse (require_str frame ''reply_id'')
       (check (case dget frame ''status'' of
                 Some (VStr s) \<Rightarrow> s \<in> set [''delivered'', ''failed'', ''no_callback'']
               | _ \<Rightarrow> False) bad_frame)"

definition validate_error :: "dict \<Rightarrow> code option" where
  "validate_error frame = require_str frame ''code''"

definition validate_ping :: "dict \<Rightarrow> code option" where "validate_ping frame = None"
definition validate_pong :: "dict \<Rightarrow> code option" where "validate_pong frame = None"

definition VALIDATORS :: "(string \<times> (dict \<Rightarrow> code option)) list" where
  "VALIDATORS =
     [(''hello'', validate_hello), (''hello_ack'', validate_hello_ack), (''wake'', validate_wake),
      (''ack'', validate_ack), (''nack'', validate_nack), (''reply'', validate_reply),
      (''reply_result'', validate_reply_result), (''error'', validate_error),
      (''ping'', validate_ping), (''pong'', validate_pong)]"

definition validate_frame :: "pyval \<Rightarrow> string list option \<Rightarrow> code option" where
  "validate_frame v expected_types =
     (case v of
        VDict frame \<Rightarrow>
          (case str_of (dget frame ''type'') of
             None \<Rightarrow> Some bad_frame
           | Some ftype \<Rightarrow>
               (case expected_types of
                  Some ts \<Rightarrow>
                    if ftype \<notin> set ts then
                      (if ftype \<notin> set KNOWN_TYPES then None else Some unexpected_type)
                    else (case dget VALIDATORS ftype of None \<Rightarrow> None | Some f \<Rightarrow> f frame)
                | None \<Rightarrow> (case dget VALIDATORS ftype of None \<Rightarrow> None | Some f \<Rightarrow> f frame)))
      | _ \<Rightarrow> Some bad_frame)"

subsection \<open>Lemmas\<close>

lemma orelse_None [simp]: "orelse a b = None \<longleftrightarrow> a = None \<and> b = None"
  by (simp add: orelse_def split: option.splits)

lemma require_str_None [simp]: "require_str f k = None \<longleftrightarrow> (\<exists>s. dget f k = Some (VStr s))"
  by (auto simp: require_str_def is_str_def split: option.splits pyval.splits)

lemma check_None [simp]: "check b e = None \<longleftrightarrow> b"
  by (simp add: check_def)

lemma is_str_iff [simp]: "is_str (Some v) \<longleftrightarrow> (\<exists>s. v = VStr s)"
  by (cases v) (simp_all add: is_str_def)

lemma is_str_list_iff: "is_str_list v \<longleftrightarrow> (\<exists>ss. v = VList (map VStr ss))"
proof
  assume "is_str_list v"
  then obtain xs where v: "v = VList xs" and strs: "\<forall>x \<in> set xs. \<exists>s. x = VStr s"
    by (cases v) (simp_all add: is_str_list_def)
  from strs have "\<exists>ss. xs = map VStr ss"
    by (induction xs) (auto, metis list.simps(9))
  with v show "\<exists>ss. v = VList (map VStr ss)" by blast
qed (auto simp: is_str_list_def)

lemma VALIDATORS_known: "(dget VALIDATORS t \<noteq> None) = (t \<in> set KNOWN_TYPES)"
  by (simp add: VALIDATORS_def KNOWN_TYPES_def)

lemma no_newline_join:
  "newline \<notin> set sep \<Longrightarrow> \<forall>x \<in> set xs. newline \<notin> set x \<Longrightarrow> newline \<notin> set (join sep xs)"
  by (induction sep xs rule: join.induct) auto

lemma digit_char_not_newline: "digit_char n \<noteq> newline"
proof -
  have "\<forall>n \<in> set [0..<16]. digit_char n \<noteq> newline" by code_simp
  then have "digit_char (n mod 16) \<noteq> newline" by simp
  then show ?thesis by (simp add: digit_char_def)
qed

lemma no_newline_nat_str: "newline \<notin> set (nat_str n)"
proof (induction n rule: nat_str.induct)
  case (1 n)
  then show ?case by (simp add: nat_str.simps [of n] digit_char_not_newline [symmetric])
qed

lemma no_newline_int_str: "newline \<notin> set (int_str i)"
  using no_newline_nat_str by (simp add: int_str_def) (simp add: newline_def)

lemma no_newline_json_char: "newline \<notin> set (json_char c)"
proof (cases "c = newline")
  case True
  then show ?thesis by (simp add: json_char_def newline_def)
next
  case False
  then show ?thesis
    using digit_char_not_newline [THEN not_sym]
    by (simp add: json_char_def u_escape_def byte_hex_def) (simp add: newline_def)
qed

lemma no_newline_json_string: "newline \<notin> set (json_string s)"
  using no_newline_json_char by (simp add: json_string_def) (simp add: newline_def)

text \<open>The printed text of a float is one token.\<close>

fun float_texts_ok :: "pyval \<Rightarrow> bool" where
  "float_texts_ok (VFloat _ t) = (newline \<notin> set t)"
| "float_texts_ok (VList xs) = (\<forall>x \<in> set xs. float_texts_ok x)"
| "float_texts_ok (VDict d) = (\<forall>p \<in> set d. float_texts_ok (snd p))"
| "float_texts_ok _ = True"

lemma no_newline_dumps: "float_texts_ok v \<Longrightarrow> newline \<notin> set (dumps_text v)"
proof (induction v)
  case (VBool b)
  then show ?case by (simp add: newline_def)
next
  case (VInt i)
  then show ?case by (simp add: no_newline_int_str)
next
  case (VStr s)
  then show ?case by (simp add: no_newline_json_string)
next
  case (VList xs)
  then have "newline \<notin> set (join '','' (map dumps_text xs))"
    by (intro no_newline_join) (auto simp: newline_def)
  then show ?case by (simp add: newline_def)
next
  case (VDict d)
  then have "newline \<notin> set (join '','' (map (\<lambda>p. json_string (fst p) @ '':'' @ dumps_text (snd p)) d))"
    by (intro no_newline_join) (fastforce simp: newline_def no_newline_json_string [unfolded newline_def])+
  then show ?case by (simp add: newline_def)
qed (simp_all add: newline_def)

lemma readline_split: "newline \<notin> set l \<Longrightarrow> readline (l @ newline # rest) = (l @ [newline], rest)"
  by (induction l) auto

lemma read_lines_frames:
  "\<forall>l \<in> set ls. newline \<notin> set l \<Longrightarrow>
   read_lines (concat (map (\<lambda>l. l @ [newline]) ls)) = map (\<lambda>l. l @ [newline]) ls"
proof (induction ls)
  case (Cons l ls)
  then show ?case
    by (subst read_lines.simps) (simp add: readline_split)
qed (simp add: read_lines.simps)

lemma encode_frame_Inr:
  "encode_frame f = Inr l \<Longrightarrow> l = dumps_text (VDict f) @ [newline]"
  by (auto simp: encode_frame_def dumps_def split: sum.splits if_splits)

lemma get_some_iff: "get_some d k = Some v \<longleftrightarrow> dget d k = Some v \<and> v \<noteq> VNone"
  by (auto simp: get_some_def split: option.splits pyval.splits)

lemma get_some_None: "get_some d k = None \<longleftrightarrow> dget d k = None \<or> dget d k = Some VNone"
  by (auto simp: get_some_def split: option.splits pyval.splits)

subsection \<open>Properties\<close>

text \<open>Framing is unambiguous.  Whatever strings the frames carry, the bytes written
  for a sequence of frames split at newlines into exactly the lines that were written.\<close>

theorem frames_split_back:
  assumes "map encode_frame fs = map Inr ls"
    and "\<forall>f \<in> set fs. float_texts_ok (VDict f)"
  shows "read_lines (concat ls) = ls"
proof -
  have ls: "ls = map (\<lambda>l. l @ [newline]) (map (\<lambda>f. dumps_text (VDict f)) fs)"
    using assms(1)
  proof (induction fs arbitrary: ls)
    case (Cons f fs)
    then obtain l ls' where "ls = l # ls'" by (cases ls) auto
    with Cons show ?case by (auto dest: encode_frame_Inr)
  qed simp
  have "\<forall>l \<in> set (map (\<lambda>f. dumps_text (VDict f)) fs). newline \<notin> set l"
    using assms(2) no_newline_dumps by (auto simp del: dumps_text.simps float_texts_ok.simps)
  then show ?thesis by (subst ls, subst ls) (rule read_lines_frames)
qed

definition demo_frames :: "dict list" where
  "demo_frames = [[(''type'', VStr ''ping'')],
                  [(''type'', VStr ''ack''), (''ack_id'', VStr [CHR ''a'', CHR 0x0A])]]"

theorem frames_split_back_witness:
  "\<exists>ls. map encode_frame demo_frames = map Inr ls \<and> read_lines (concat ls) = ls \<and> length ls = 2"
proof -
  let ?ls = "map (\<lambda>f. dumps_text (VDict f) @ [newline]) demo_frames"
  have enc: "map encode_frame demo_frames = map Inr ?ls"
    by (simp add: demo_frames_def encode_frame_def dumps_def)
  have "\<forall>f \<in> set demo_frames. float_texts_ok (VDict f)" by (simp add: demo_frames_def)
  with enc have "read_lines (concat ?ls) = ?ls" by (rule frames_split_back)
  with enc show ?thesis by (intro exI [of _ ?ls]) (simp add: demo_frames_def)
qed

text \<open>The handshake can read what validation let through.  A \<open>hello\<close> is sound exactly
  when it has version 1, string \<open>adapter\<close> and \<open>instance\<close>, an object for \<open>filters\<close>, a list (or
  nothing) of sources, a list of strings (or nothing) for \<open>destinations\<close>, and claims at least
  one of the two.\<close>

theorem hello_sound_iff:
  assumes "dget frame ''type'' = Some (VStr ''hello'')"
  shows "validate_frame (VDict frame) None = None \<longleftrightarrow>
     version_is_one frame
     \<and> (\<exists>a i. dget frame ''adapter'' = Some (VStr a) \<and> dget frame ''instance'' = Some (VStr i))
     \<and> (\<exists>filters. (case dget frame ''filters'' of None \<Rightarrow> VDict [] | Some f \<Rightarrow> f) = VDict filters
          \<and> (get_some filters ''sources'' = None \<or> (\<exists>xs. get_some filters ''sources'' = Some (VList xs)))
          \<and> (get_some frame ''destinations'' = None
              \<or> (\<exists>ds. get_some frame ''destinations'' = Some (VList (map VStr ds))))
          \<and> \<not> (get_some filters ''sources'' = None \<and> get_some frame ''destinations'' = None))"
proof -
  have "validate_frame (VDict frame) None = validate_hello frame"
    using assms by (simp add: validate_frame_def str_of_def VALIDATORS_def)
  moreover have "pred_option is_list v \<longleftrightarrow> v = None \<or> (\<exists>xs. v = Some (VList xs))" for v
    by (cases v) (auto simp: is_list_def split: pyval.splits)
  moreover have "pred_option is_str_list v \<longleftrightarrow> v = None \<or> (\<exists>ds. v = Some (VList (map VStr ds)))" for v
    by (cases v) (auto simp: is_str_list_iff)
  ultimately show ?thesis
    by (auto simp: validate_hello_def Let_def split: option.splits pyval.splits)
qed

definition demo_hello :: dict where
  "demo_hello = [(''type'', VStr ''hello''), (''v'', VInt 1), (''adapter'', VStr ''claude''),
     (''instance'', VStr ''i1''), (''filters'', VDict [(''sources'', VList [VStr ''ci''])])]"

theorem hello_sound_iff_witness:
  "validate_frame (VDict demo_hello) None = None"
  by (subst hello_sound_iff)
    (simp_all add: demo_hello_def version_is_one_def get_some_def)

text \<open>Forward compatibility and authentication of the first frame: a frame of an
  unknown type passes, a known type that was not expected is reported as such, and only an
  expected type reaches its own validator.\<close>

theorem expected_types_gate:
  assumes "dget frame ''type'' = Some (VStr t)"
  shows "validate_frame (VDict frame) (Some ts) =
     (if t \<notin> set KNOWN_TYPES then None
      else if t \<notin> set ts then Some unexpected_type
      else validate_frame (VDict frame) None)"
proof -
  have "dget VALIDATORS t = None \<longleftrightarrow> t \<notin> set KNOWN_TYPES" using VALIDATORS_known by blast
  then show ?thesis using assms by (auto simp: validate_frame_def str_of_def)
qed

theorem expected_types_gate_witness:
  "validate_frame (VDict [(''type'', VStr ''ack'')]) (Some [''hello'']) = Some unexpected_type
   \<and> validate_frame (VDict [(''type'', VStr ''v9'')]) (Some [''hello'']) = None"
  by (simp add: expected_types_gate [where t = "''ack''"] expected_types_gate [where t = "''v9''"]
      KNOWN_TYPES_def)

end
