(* ===== verification/Addressing.thy ===== *)
theory Addressing
  imports Prelude
begin

section \<open>Senders, principals, destinations and routes (\<open>addressing.py\<close>)\<close>

text \<open>
  The addressing tables of a config, read in either vocabulary, and the resolution of the
  destinations an event addresses.  A config is a dictionary whose top-level tables are
  objects when they are present, which is what \<open>config.load_config\<close> checks; the attributes of
  a destination are strings or absent, as the annotations of the \<open>Destination\<close> dataclass say.
  Tables that already hold \<open>Destination\<close> or \<open>Route\<close> objects (no caller in the repository
  builds one) are not part of \<open>pyval\<close> and so have no branch.
\<close>

definition ORIGIN_LEGACY :: string where "ORIGIN_LEGACY = ''legacy''"
definition ORIGIN_CONFIG :: string where "ORIGIN_CONFIG = ''config''"

record destination =
  d_name :: string
  d_adapter :: "string option"
  d_session :: "string option"
  d_principal :: "string option"
  d_max_connections :: "int option"

definition session_scoped :: "destination \<Rightarrow> bool" where
  "session_scoped d \<longleftrightarrow> d_session d \<noteq> None"

definition accepts_adapter :: "destination \<Rightarrow> string \<Rightarrow> bool" where
  "accepts_adapter d adapter \<longleftrightarrow> d_adapter d = None \<or> d_adapter d = Some adapter"

definition opt_entry :: "string \<Rightarrow> string option \<Rightarrow> dict" where
  "opt_entry k v = (case v of None \<Rightarrow> [] | Some s \<Rightarrow> [(k, VStr s)])"

definition to_frame :: "destination \<Rightarrow> dict" where
  "to_frame d =
     [(''name'', VStr (d_name d))]
     @ opt_entry ''adapter'' (d_adapter d)
     @ opt_entry ''session'' (d_session d)
     @ opt_entry ''principal'' (d_principal d)"

record route =
  r_sender :: string
  r_principal :: "string option"
  r_destinations :: "string list"
  r_origin :: string

datatype addressing_error = destination_not_routed | principal_not_routed

subsection \<open>Derivation from the legacy vocabulary\<close>

record legacy_view =
  lv_senders :: dict
  lv_destinations :: dict
  lv_principals :: dict
  lv_routes :: "pyval list"

text \<open>One turn of the loop over \<open>sources.items()\<close>; a value that is not an object is skipped.\<close>

definition opt_val :: "pyval option \<Rightarrow> pyval" where
  "opt_val v = (case v of None \<Rightarrow> VNone | Some x \<Rightarrow> x)"

definition legacy_destination :: "dict \<Rightarrow> string \<Rightarrow> dict \<Rightarrow> pyval" where
  "legacy_destination routing name info =
     VDict [(''adapter'', (case dget routing name of
                 Some (VDict entry) \<Rightarrow> opt_val (dget entry ''adapter'')
               | _ \<Rightarrow> VNone)),
            (''session'', VNone),
            (''principal'', opt_val (dget info ''principal_id''))]"

definition legacy_route :: "string \<Rightarrow> dict \<Rightarrow> pyval" where
  "legacy_route name info =
     VDict [(''sender'', VStr name),
            (''principal'', opt_val (dget info ''principal_id'')),
            (''destinations'', VList [VStr name]),
            (''origin'', VStr ORIGIN_LEGACY)]"

fun legacy_sources :: "dict \<Rightarrow> dict" where
  "legacy_sources [] = []"
| "legacy_sources ((name, VDict info) # rest) = (name, VDict info) # legacy_sources rest"
| "legacy_sources (_ # rest) = legacy_sources rest"

definition legacy_info :: "pyval \<Rightarrow> dict" where
  "legacy_info v = (case v of VDict d \<Rightarrow> d | _ \<Rightarrow> [])"

text \<open>A principal named only by a destination is added with no channels.\<close>

definition no_channels_entry :: pyval where
  "no_channels_entry = VDict [(''channels'', VDict [])]"

fun add_principals :: "dict \<Rightarrow> dict \<Rightarrow> dict" where
  "add_principals ps [] = ps"
| "add_principals ps ((_, dest) # rest) =
     (case dget (legacy_info dest) ''principal'' of
        Some (VStr pid) \<Rightarrow>
          if pid \<noteq> [] \<and> \<not> has_key ps pid
          then add_principals (ps @ [(pid, no_channels_entry)]) rest
          else add_principals ps rest
      | _ \<Rightarrow> add_principals ps rest)"

definition derive_from_legacy :: "dict \<Rightarrow> dict \<Rightarrow> dict \<Rightarrow> legacy_view" where
  "derive_from_legacy sources routing delivery =
     (let srcs = legacy_sources sources;
          dests = map (\<lambda>(name, v). (name, legacy_destination routing name (legacy_info v))) srcs
      in \<lparr>lv_senders = srcs,
          lv_destinations = dests,
          lv_principals = add_principals
             (map (\<lambda>(pid, channels). (pid, VDict [(''channels'', channels)])) delivery) dests,
          lv_routes = map (\<lambda>(name, v). legacy_route name (legacy_info v)) srcs\<rparr>)"

definition legacy_view_of :: "cfg \<Rightarrow> legacy_view" where
  "legacy_view_of cfg =
     derive_from_legacy (table_of (dget cfg ''sources'')) (table_of (dget cfg ''routing''))
       (table_of (dget cfg ''delivery''))"

subsection \<open>Accessors\<close>

definition sender_table :: "cfg \<Rightarrow> dict" where
  "sender_table cfg =
     (case dget cfg ''senders'' of
        Some (VDict d) \<Rightarrow> d
      | _ \<Rightarrow> (case dget cfg ''sources'' of Some (VDict d) \<Rightarrow> d | _ \<Rightarrow> []))"

definition sender :: "cfg \<Rightarrow> string \<Rightarrow> dict option" where
  "sender cfg name = dict_of (dget (sender_table cfg) name)"

definition principal_table :: "cfg \<Rightarrow> dict" where
  "principal_table cfg =
     (case dget cfg ''principals'' of
        Some (VDict d) \<Rightarrow> d
      | _ \<Rightarrow> lv_principals (legacy_view_of cfg))"

definition principal_channels :: "cfg \<Rightarrow> string \<Rightarrow> dict option" where
  "principal_channels cfg pid =
     (case dget cfg ''principals'' of
        Some (VDict ps) \<Rightarrow>
          (case dget ps pid of
             Some (VDict entry) \<Rightarrow>
               (case dget entry ''channels'' of Some (VDict ch) \<Rightarrow> Some ch | _ \<Rightarrow> Some [])
           | _ \<Rightarrow> None)
      | _ \<Rightarrow>
          (case dget cfg ''delivery'' of
             Some (VDict legacy) \<Rightarrow> dict_of (dget legacy pid)
           | _ \<Rightarrow> None))"

definition mk_destination :: "string \<Rightarrow> dict \<Rightarrow> destination" where
  "mk_destination name info =
     \<lparr>d_name = name,
      d_adapter = str_of (dget info ''adapter''),
      d_session = str_of (dget info ''session''),
      d_principal = str_of (dget info ''principal''),
      d_max_connections = int_of (dget info ''max_connections'')\<rparr>"

definition raw_destinations :: "cfg \<Rightarrow> dict" where
  "raw_destinations cfg =
     (case dget cfg ''destinations'' of
        Some (VDict d) \<Rightarrow> d
      | _ \<Rightarrow> lv_destinations (legacy_view_of cfg))"

fun build_destinations :: "dict \<Rightarrow> (string \<times> destination) list" where
  "build_destinations [] = []"
| "build_destinations ((name, VDict info) # rest) =
     (name, mk_destination name info) # build_destinations rest"
| "build_destinations (_ # rest) = build_destinations rest"

definition destination_table :: "cfg \<Rightarrow> (string \<times> destination) list" where
  "destination_table cfg = build_destinations (raw_destinations cfg)"

definition destination_of :: "cfg \<Rightarrow> string \<Rightarrow> destination option" where
  "destination_of cfg name = dget (destination_table cfg) name"

definition dests_of :: "pyval option \<Rightarrow> string list" where
  "dests_of v =
     (case v of
        Some (VStr s) \<Rightarrow> (if s = [] then [] else [s])
      | Some (VList xs) \<Rightarrow> map py_str xs
      | Some (VDict d) \<Rightarrow> map fst d
      | _ \<Rightarrow> [])"

definition mk_route :: "dict \<Rightarrow> route" where
  "mk_route entry =
     \<lparr>r_sender = get_str entry ''sender'' [],
      r_principal = str_of (dget entry ''principal''),
      r_destinations = dests_of (dget entry ''destinations''),
      r_origin = get_str entry ''origin'' ORIGIN_CONFIG\<rparr>"

definition raw_routes :: "cfg \<Rightarrow> pyval list" where
  "raw_routes cfg =
     (case dget cfg ''routes'' of
        Some (VList rs) \<Rightarrow> rs
      | _ \<Rightarrow> lv_routes (legacy_view_of cfg))"

fun build_routes :: "pyval list \<Rightarrow> route list" where
  "build_routes [] = []"
| "build_routes (VDict entry # rest) = mk_route entry # build_routes rest"
| "build_routes (_ # rest) = build_routes rest"

definition route_table :: "cfg \<Rightarrow> route list" where
  "route_table cfg = build_routes (raw_routes cfg)"

subsection \<open>Resolution\<close>

definition expand :: "cfg \<Rightarrow> route \<Rightarrow> destination list" where
  "expand cfg route =
     (let table = destination_table cfg in
      if r_destinations route \<noteq> [] then
        List.map_filter (dget table) (r_destinations route)
      else
        (case r_principal route of
           Some pid \<Rightarrow>
             if pid \<noteq> [] then filter (\<lambda>d. d_principal d = Some pid) (map snd table) else []
         | None \<Rightarrow> []))"

fun add_dests ::
  "(string \<times> destination) list \<Rightarrow> destination list \<Rightarrow> (string \<times> destination) list" where
  "add_dests seen [] = seen"
| "add_dests seen (d # ds) = add_dests (setdefault (d_name d) d seen) ds"

definition route_matches :: "string \<Rightarrow> route \<Rightarrow> bool" where
  "route_matches sender_name r \<longleftrightarrow> r_sender r = sender_name \<or> r_sender r = ''*''"

fun collect_routes ::
  "cfg \<Rightarrow> string \<Rightarrow> (string \<times> destination) list \<Rightarrow> route list \<Rightarrow>
   (string \<times> destination) list" where
  "collect_routes cfg s seen [] = seen"
| "collect_routes cfg s seen (r # rs) =
     (if route_matches s r
      then collect_routes cfg s (add_dests seen (expand cfg r)) rs
      else collect_routes cfg s seen rs)"

definition routed_destinations :: "cfg \<Rightarrow> string \<Rightarrow> destination list" where
  "routed_destinations cfg s = map snd (collect_routes cfg s [] (route_table cfg))"

definition out_of_band_principals :: "cfg \<Rightarrow> string \<Rightarrow> string set option" where
  "out_of_band_principals cfg s =
     (let entry = (case sender cfg s of Some e \<Rightarrow> e | None \<Rightarrow> []) in
      case dget entry ''allowed_target_principals'' of
        Some (VList ps) \<Rightarrow> (if ps \<noteq> [] then Some (py_str ` set ps) else None)
      | _ \<Rightarrow> None)"

definition narrow ::
  "('a \<Rightarrow> destination \<Rightarrow> bool) \<Rightarrow> addressing_error \<Rightarrow> 'a option \<Rightarrow>
   destination list \<Rightarrow> addressing_error + destination list" where
  "narrow p code key allowed =
     (case key of
        None \<Rightarrow> Inr allowed
      | Some k \<Rightarrow>
          (let match = filter (p k) allowed in
           if match = [] then Inl code else Inr match))"

definition resolve ::
  "cfg \<Rightarrow> string \<Rightarrow> string option \<Rightarrow> string option \<Rightarrow>
   addressing_error + destination list" where
  "resolve cfg s destination_name principal_id =
     (case narrow (\<lambda>n d. d_name d = n) destination_not_routed destination_name
             (routed_destinations cfg s) of
        Inl e \<Rightarrow> Inl e
      | Inr allowed \<Rightarrow>
          narrow (\<lambda>p d. d_principal d = Some p) principal_not_routed principal_id allowed)"

definition trigger_identity_for :: "cfg \<Rightarrow> string \<Rightarrow> string option \<Rightarrow> string option" where
  "trigger_identity_for cfg s asserted =
     (if asserted \<noteq> None \<and> asserted \<noteq> Some [] then asserted
      else
        let entry = (case sender cfg s of Some e \<Rightarrow> e | None \<Rightarrow> []);
            identity = py_or (dget entry ''identity'') (dget entry ''principal_id'')
        in if truthy_opt identity then map_option py_str identity else None)"

subsection \<open>Destination table\<close>

lemma build_destinations_name: "(k, d) \<in> set (build_destinations t) \<Longrightarrow> d_name d = k"
  by (induction t rule: build_destinations.induct) (auto simp: mk_destination_def)

lemma destination_table_name: "dget (destination_table cfg) n = Some d \<Longrightarrow> d_name d = n"
  by (auto simp: destination_table_def dest: map_of_SomeD build_destinations_name)

lemma build_destinations_keys: "fst ` set (build_destinations t) \<subseteq> fst ` set t"
  by (induction t rule: build_destinations.induct) auto

lemma build_destinations_new:
  "k \<notin> fst ` set t \<Longrightarrow> k \<notin> fst ` set (build_destinations t)"
  using build_destinations_keys [of t] by blast

lemma wf_build_destinations: "wf_dict t \<Longrightarrow> wf_dict (build_destinations t)"
  by (induction t rule: build_destinations.induct)
    (simp_all add: wf_dict_def build_destinations_new)

lemma build_destinations_get:
  "wf_dict t \<Longrightarrow> dget (build_destinations t) n =
     (case dget t n of Some (VDict info) \<Rightarrow> Some (mk_destination n info) | _ \<Rightarrow> None)"
proof (induction t)
  case (Cons p t)
  obtain name v where p: "p = (name, v)" by (cases p)
  with Cons.prems have "name \<notin> fst ` set t" by (simp add: wf_dict_def)
  then have "dget (build_destinations t) name = None" "dget t name = None"
    by (simp_all add: map_of_eq_None_iff build_destinations_new)
  with Cons p show ?case by (cases v; cases "n = name") (simp_all add: wf_dict_def)
qed simp

lemma table_inj:
  assumes "wf_dict (raw_destinations cfg)"
  shows "inj_on d_name (snd ` set (destination_table cfg))"
proof (rule inj_onI)
  fix d d'
  assume "d \<in> snd ` set (destination_table cfg)" "d' \<in> snd ` set (destination_table cfg)"
    and eq: "d_name d = d_name d'"
  then obtain k k' where k: "(k, d) \<in> set (destination_table cfg)"
      "(k', d') \<in> set (destination_table cfg)" by auto
  then have "k = d_name d" "k' = d_name d'"
    by (auto simp: destination_table_def dest: build_destinations_name)
  moreover from assms have "wf_dict (destination_table cfg)"
    by (simp add: destination_table_def wf_build_destinations)
  ultimately show "d = d'" using k eq by (metis wf_dict_get option.inject)
qed

subsection \<open>Routed destinations\<close>

lemma expand_subset: "set (expand cfg r) \<subseteq> snd ` set (destination_table cfg)"
  by (auto simp: expand_def Let_def List.map_filter_def image_iff
      split: option.splits if_splits dest: map_of_SomeD)
    (metis map_of_SomeD snd_conv)

lemma add_dests_append: "add_dests seen (ds @ es) = add_dests (add_dests seen ds) es"
  by (induction ds arbitrary: seen) auto

lemma collect_routes_add_dests:
  "collect_routes cfg s seen rs =
     add_dests seen (concat (map (expand cfg) (filter (route_matches s) rs)))"
  by (induction rs arbitrary: seen) (simp_all add: add_dests_append)

lemma add_dests_first_by:
  "map snd (add_dests seen ds) =
     map snd seen @ filter (\<lambda>d. d_name d \<notin> fst ` set seen) (first_by d_name ds)"
proof (induction ds arbitrary: seen)
  case Nil
  then show ?case by simp
next
  case (Cons d ds)
  show ?case
  proof (cases "d_name d \<in> fst ` set seen")
    case True
    then have "filter (\<lambda>e. d_name e \<notin> fst ` set seen \<and> d_name e \<noteq> d_name d) xs
        = filter (\<lambda>e. d_name e \<notin> fst ` set seen) xs" for xs :: "destination list"
      by (intro filter_cong refl) metis
    with True show ?thesis
      by (simp add: Cons.IH setdefault_def has_key_iff conj_commute)
  next
    case False
    then show ?thesis
      by (simp add: Cons.IH setdefault_def has_key_iff conj_commute)
  qed
qed

definition routed_spec :: "cfg \<Rightarrow> string \<Rightarrow> destination list" where
  "routed_spec cfg s =
     first_by d_name (concat (map (expand cfg) (filter (route_matches s) (route_table cfg))))"

lemma routed_destinations_eq_spec: "routed_destinations cfg s = routed_spec cfg s"
  by (simp add: routed_destinations_def routed_spec_def collect_routes_add_dests
      add_dests_first_by)

lemma routed_destinations_sound:
  "d \<in> set (routed_destinations cfg s) \<Longrightarrow>
   \<exists>r \<in> set (route_table cfg). route_matches s r \<and> d \<in> set (expand cfg r)"
  unfolding routed_destinations_eq_spec routed_spec_def
  using set_first_by_subset by fastforce

lemma routed_destinations_set:
  assumes "wf_dict (raw_destinations cfg)"
  shows "set (routed_destinations cfg s) =
     (\<Union>r \<in> {r \<in> set (route_table cfg). route_matches s r}. set (expand cfg r))"
proof -
  let ?ds = "concat (map (expand cfg) (filter (route_matches s) (route_table cfg)))"
  have "set ?ds \<subseteq> snd ` set (destination_table cfg)" using expand_subset by fastforce
  then have "inj_on d_name (set ?ds)" using table_inj [OF assms] by (rule inj_on_subset [rotated])
  then have "set (first_by d_name ?ds) = set ?ds" by (rule set_first_by_inj)
  then show ?thesis by (simp add: routed_destinations_eq_spec routed_spec_def)
qed

lemma routed_destinations_distinct: "distinct (map d_name (routed_destinations cfg s))"
  by (simp add: routed_destinations_eq_spec routed_spec_def)

lemma routed_destinations_table:
  "d \<in> set (routed_destinations cfg s) \<Longrightarrow> d \<in> snd ` set (destination_table cfg)"
  using routed_destinations_sound expand_subset by blast

lemma routed_destinations_lookup:
  assumes "wf_dict (raw_destinations cfg)" "d \<in> set (routed_destinations cfg s)"
  shows "dget (destination_table cfg) (d_name d) = Some d"
proof -
  from assms(2) obtain k where k: "(k, d) \<in> set (destination_table cfg)"
    by (auto dest!: routed_destinations_table)
  then have "k = d_name d" by (auto simp: destination_table_def dest: build_destinations_name)
  moreover have "wf_dict (destination_table cfg)"
    using assms(1) by (simp add: destination_table_def wf_build_destinations)
  ultimately show ?thesis using k by (simp add: wf_dict_get)
qed

subsection \<open>Narrowing\<close>

lemma narrow_Inr:
  "narrow p code key allowed = Inr ds \<Longrightarrow>
     ds = filter (\<lambda>d. \<forall>k. key = Some k \<longrightarrow> p k d) allowed"
  by (auto simp: narrow_def Let_def split: option.splits if_splits)

lemma resolve_subset:
  "resolve cfg s dn pid = Inr ds \<Longrightarrow> set ds \<subseteq> set (routed_destinations cfg s)"
  by (auto simp: resolve_def split: sum.splits dest!: narrow_Inr)

lemma resolve_name:
  "resolve cfg s (Some n) pid = Inr ds \<Longrightarrow> d \<in> set ds \<Longrightarrow> d_name d = n"
  by (auto simp: resolve_def split: sum.splits dest!: narrow_Inr)

lemma resolve_none [simp]: "resolve cfg s None None = Inr (routed_destinations cfg s)"
  by (simp add: resolve_def narrow_def)

subsection \<open>The legacy vocabulary\<close>

text \<open>A config in the legacy vocabulary has none of the v2 tables.\<close>

definition legacy_cfg :: "cfg \<Rightarrow> bool" where
  "legacy_cfg cfg \<longleftrightarrow> dget cfg ''senders'' = None \<and> dget cfg ''destinations'' = None
     \<and> dget cfg ''routes'' = None"

text \<open>The destination a legacy source stands for, and the single route to it.\<close>

definition legacy_dest :: "dict \<Rightarrow> string \<Rightarrow> dict \<Rightarrow> destination" where
  "legacy_dest routing name info =
     \<lparr>d_name = name,
      d_adapter = (case dget routing name of Some (VDict e) \<Rightarrow> str_of (dget e ''adapter'') | _ \<Rightarrow> None),
      d_session = None,
      d_principal = str_of (dget info ''principal_id''),
      d_max_connections = None\<rparr>"

lemma str_of_opt_val [simp]: "str_of (Some (opt_val v)) = str_of v"
  by (auto simp: str_of_def opt_val_def split: option.splits)

lemma str_of_None [simp]: "str_of (Some VNone) = None" "str_of None = None"
  by (simp_all add: str_of_def)

lemma mk_destination_legacy:
  "legacy_destination routing name info = VDict d \<Longrightarrow>
     mk_destination name d = legacy_dest routing name info"
  by (auto simp: legacy_destination_def mk_destination_def legacy_dest_def int_of_def
      split: option.splits pyval.splits)

lemma build_legacy_destinations:
  "build_destinations (map (\<lambda>(name, v). (name, legacy_destination rt name (legacy_info v))) srcs) =
     map (\<lambda>(name, v). (name, legacy_dest rt name (legacy_info v))) srcs"
proof (induction srcs)
  case (Cons p srcs)
  obtain name v where p: "p = (name, v)" by (cases p)
  obtain d where "legacy_destination rt name (legacy_info v) = VDict d"
    by (simp add: legacy_destination_def)
  with Cons p show ?case by (simp add: mk_destination_legacy)
qed simp

lemma build_legacy_routes:
  "build_routes (map (\<lambda>(name, v). legacy_route name (legacy_info v)) srcs) =
     map (\<lambda>(name, v). \<lparr>r_sender = name, r_principal = str_of (dget (legacy_info v) ''principal_id''),
                       r_destinations = [name], r_origin = ORIGIN_LEGACY\<rparr>) srcs"
  by (induction srcs) (auto simp: legacy_route_def mk_route_def get_str_def dests_of_def)

lemma legacy_sources_keys: "fst ` set (legacy_sources t) \<subseteq> fst ` set t"
  by (induction t rule: legacy_sources.induct) auto

lemma legacy_sources_get:
  "wf_dict t \<Longrightarrow> dget (legacy_sources t) n =
     (case dget t n of Some (VDict info) \<Rightarrow> Some (VDict info) | _ \<Rightarrow> None)"
proof (induction t)
  case (Cons p t)
  obtain name v where p: "p = (name, v)" by (cases p)
  with Cons.prems have "name \<notin> fst ` set t" by (simp add: wf_dict_def)
  with legacy_sources_keys [of t]
  have "dget (legacy_sources t) name = None" "dget t name = None"
    by (auto simp: map_of_eq_None_iff)
  with Cons p show ?case by (cases v; cases "n = name") (simp_all add: wf_dict_def)
qed simp

lemma wf_legacy_sources: "wf_dict t \<Longrightarrow> wf_dict (legacy_sources t)"
proof (induction t rule: legacy_sources.induct)
  case (2 name info rest)
  with legacy_sources_keys [of rest] show ?case by (auto simp: wf_dict_def)
qed (auto simp: wf_dict_def)

lemma filter_key: "wf_dict t \<Longrightarrow> filter (\<lambda>p. fst p = n) t =
    (case dget t n of None \<Rightarrow> [] | Some v \<Rightarrow> [(n, v)])"
proof (induction t)
  case (Cons p t)
  obtain k v where p: "p = (k, v)" by (cases p)
  with Cons.prems have "dget t k = None" by (simp add: wf_dict_def map_of_eq_None_iff)
  with Cons p show ?case by (cases "k = n") (auto simp: wf_dict_def)
qed simp

lemma legacy_destination_table:
  "legacy_cfg cfg \<Longrightarrow> destination_table cfg =
     map (\<lambda>(name, v). (name, legacy_dest (table_of (dget cfg ''routing'')) name (legacy_info v)))
       (legacy_sources (table_of (dget cfg ''sources'')))"
  by (simp add: legacy_cfg_def destination_table_def raw_destinations_def legacy_view_of_def
      derive_from_legacy_def Let_def build_legacy_destinations)

lemma legacy_route_table:
  "legacy_cfg cfg \<Longrightarrow> route_table cfg =
     map (\<lambda>(name, v). \<lparr>r_sender = name, r_principal = str_of (dget (legacy_info v) ''principal_id''),
                       r_destinations = [name], r_origin = ORIGIN_LEGACY\<rparr>)
       (legacy_sources (table_of (dget cfg ''sources'')))"
  by (simp add: legacy_cfg_def route_table_def raw_routes_def legacy_view_of_def
      derive_from_legacy_def Let_def build_legacy_routes)

lemma dget_map_snd: "dget (map (\<lambda>(k, v). (k, f k v)) t) n = map_option (f n) (dget t n)"
  by (induction t) auto

lemma legacy_matching:
  assumes "''*'' \<notin> fst ` set t"
  shows "filter (route_matches s) (map (\<lambda>(name, v). \<lparr>r_sender = name, r_principal = g v,
            r_destinations = [name], r_origin = ORIGIN_LEGACY\<rparr>) t) =
         map (\<lambda>(name, v). \<lparr>r_sender = name, r_principal = g v,
            r_destinations = [name], r_origin = ORIGIN_LEGACY\<rparr>) (filter (\<lambda>p. fst p = s) t)"
  using assms by (induction t) (auto simp: route_matches_def)

subsection \<open>Properties\<close>

text \<open>The destinations a sender may reach are those its routes (and the wildcard
  routes) expand to, in config order, each destination name once.\<close>

theorem routed_in_config_order:
  "routed_destinations cfg s =
     first_by d_name (concat (map (expand cfg) (filter (route_matches s) (route_table cfg))))
   \<and> distinct (map d_name (routed_destinations cfg s))"
  using routed_destinations_eq_spec routed_destinations_distinct
  by (simp add: routed_spec_def)

text \<open>\<open>meta.destination\<close> and \<open>meta.principal\<close> only narrow the routed set: resolution
  answers with exactly the routed destinations that match both, and a narrowing that leaves
  nothing is refused with the code of the first key that failed.\<close>

theorem resolve_narrows:
  "resolve cfg s dn pid =
     (let routed = routed_destinations cfg s;
          named = filter (\<lambda>d. case dn of None \<Rightarrow> True | Some n \<Rightarrow> d_name d = n) routed;
          owned = filter (\<lambda>d. case pid of None \<Rightarrow> True | Some p \<Rightarrow> d_principal d = Some p) named
      in if dn \<noteq> None \<and> named = [] then Inl destination_not_routed
         else if pid \<noteq> None \<and> owned = [] then Inl principal_not_routed
         else Inr owned)"
  by (simp add: resolve_def narrow_def Let_def split: option.splits)

text \<open>Translating a legacy file keeps its meaning and mints no authority: a source
  reaches exactly one destination, the one of its own name with the adapter its \<open>routing\<close>
  entry names, and a name that is not a source reaches nothing.\<close>

theorem legacy_routes_preserved:
  assumes "legacy_cfg cfg" and "wf_dict (table_of (dget cfg ''sources''))"
    and "''*'' \<notin> fst ` set (table_of (dget cfg ''sources''))"
  shows "routed_destinations cfg s =
     (case dget (table_of (dget cfg ''sources'')) s of
        Some (VDict info) \<Rightarrow> [legacy_dest (table_of (dget cfg ''routing'')) s info]
      | _ \<Rightarrow> [])"
proof -
  let ?src = "table_of (dget cfg ''sources'')"
  let ?t = "legacy_sources ?src"
  have star: "''*'' \<notin> fst ` set ?t" using assms(3) legacy_sources_keys [of ?src] by blast
  have flt: "filter (\<lambda>p. fst p = s) ?t =
      (case dget ?src s of Some (VDict info) \<Rightarrow> [(s, VDict info)] | _ \<Rightarrow> [])"
    using filter_key [OF wf_legacy_sources [OF assms(2)], of s] legacy_sources_get [OF assms(2), of s]
    by (simp split: option.splits pyval.splits)
  show ?thesis
    unfolding routed_destinations_eq_spec routed_spec_def legacy_route_table [OF assms(1)]
      legacy_matching [OF star] flt
    using legacy_sources_get [OF assms(2), of s]
    by (auto simp: expand_def legacy_destination_table [OF assms(1)] dget_map_snd legacy_info_def
        map_filter_simps split: option.splits pyval.splits)
qed

definition demo_legacy_cfg :: cfg where
  "demo_legacy_cfg =
     [(''sources'', VDict [(''ci'', VDict [(''principal_id'', VStr ''human:ada'')]),
                           (''cron'', VDict [])]),
      (''routing'', VDict [(''ci'', VDict [(''adapter'', VStr ''claude'')])])]"

theorem legacy_routes_preserved_witness:
  "routed_destinations demo_legacy_cfg ''ci'' =
     [\<lparr>d_name = ''ci'', d_adapter = Some ''claude'', d_session = None,
       d_principal = Some ''human:ada'', d_max_connections = None\<rparr>]"
  by (subst legacy_routes_preserved)
    (simp_all add: demo_legacy_cfg_def legacy_cfg_def table_of_def wf_dict_def legacy_dest_def
      str_of_def)

text \<open>Egress is default-deny and independent of in-band routing: the principals a
  sender may reach out of band are those its own entry declares, whatever the routes,
  destinations and principals tables say.\<close>

theorem out_of_band_declared_only:
  "(out_of_band_principals cfg s = None \<longleftrightarrow>
      \<not> (\<exists>entry ps. sender cfg s = Some entry
            \<and> dget entry ''allowed_target_principals'' = Some (VList ps) \<and> ps \<noteq> []))
   \<and> out_of_band_principals (dset ''routes'' rs (dset ''destinations'' ds cfg)) s
        = out_of_band_principals cfg s"
proof -
  let ?cfg = "dset ''routes'' rs (dset ''destinations'' ds cfg)"
  have "dget ?cfg ''senders'' = dget cfg ''senders''" "dget ?cfg ''sources'' = dget cfg ''sources''"
    by (simp_all add: dget_dset)
  then have "sender ?cfg s = sender cfg s" by (simp only: sender_def sender_table_def)
  then show ?thesis
    by (auto simp: out_of_band_principals_def Let_def split: option.splits pyval.splits)
qed

end
