(* ===== verification/Interfaces.thy ===== *)
theory Interfaces
  imports Prelude
begin

section \<open>Contracts between the components\<close>

text \<open>
  The interfaces one component relies on and another provides, as locales.  Their parameters
  are the operations the client calls and their assumptions the laws the provider promises;
  each is interpreted on the model's own operations in the theory of the provider.
\<close>

subsection \<open>A queue whose entries leave only when they are deleted\<close>

text \<open>
  What the router relies on for at-least-once delivery: inserting appends at most one fresh
  identifier, claiming changes no identifier, deleting removes the one it names.
\<close>

locale id_queue =
  fixes ids :: "'q \<Rightarrow> nat list"
    and ins :: "'x \<Rightarrow> 'q \<Rightarrow> 'q"
    and claim :: "'c \<Rightarrow> 'q \<Rightarrow> 'q"
    and del :: "nat \<Rightarrow> 'q \<Rightarrow> 'q"
    and inv :: "'q \<Rightarrow> bool"
  assumes inv_ins: "inv q \<Longrightarrow> inv (ins x q)"
    and inv_claim: "inv q \<Longrightarrow> inv (claim c q)"
    and inv_del: "inv q \<Longrightarrow> inv (del n q)"
    and inv_distinct: "inv q \<Longrightarrow> distinct (ids q)"
    and ids_ins: "inv q \<Longrightarrow> ids (ins x q) = ids q \<or> (\<exists>n. n \<notin> set (ids q) \<and> ids (ins x q) = ids q @ [n])"
    and ids_claim: "inv q \<Longrightarrow> ids (claim c q) = ids q"
    and ids_del: "inv q \<Longrightarrow> ids (del n q) = removeAll n (ids q)"
begin

text \<open>The operations that cannot remove entry \<open>n\<close>.\<close>

definition spares :: "nat \<Rightarrow> ('q \<Rightarrow> 'q) \<Rightarrow> bool" where
  "spares n f \<longleftrightarrow> (\<exists>x. f = ins x) \<or> (\<exists>c. f = claim c) \<or> (\<exists>m. m \<noteq> n \<and> f = del m)"

lemma spares_intros [intro]:
  "spares n (ins x)" "spares n (claim c)" "m \<noteq> n \<Longrightarrow> spares n (del m)"
  by (auto simp: spares_def)

lemma spares_step:
  assumes "inv q" "spares n f" "n \<in> set (ids q)"
  shows "inv (f q) \<and> n \<in> set (ids (f q))"
proof -
  consider x where "f = ins x" | c where "f = claim c" | m where "m \<noteq> n" "f = del m"
    using assms(2) by (auto simp: spares_def)
  then show ?thesis
  proof cases
    case 1
    with assms ids_ins [OF assms(1), of x] inv_ins [OF assms(1)] show ?thesis by auto
  qed (use assms in \<open>auto simp: inv_claim ids_claim inv_del ids_del\<close>)
qed

lemma survives:
  assumes "inv q" "n \<in> set (ids q)" "\<forall>f \<in> set fs. spares n f"
  shows "n \<in> set (ids (fold (\<lambda>f. f) fs q))"
  using assms by (induction fs arbitrary: q) (auto dest: spares_step)

lemma deleted_once: "inv q \<Longrightarrow> n \<notin> set (ids (del n q))"
  by (simp add: ids_del)

end

subsection \<open>A replay window\<close>

text \<open>
  What ingest relies on for deduplication: the answer says whether the key was in the window,
  and a key that was not is in the window afterwards.  \<open>ok\<close> are the requests the provider can
  record (for the durable one, the clock has not gone back and the key is not \<open>NULL\<close>).
\<close>

locale replay_window =
  fixes check :: "'r \<Rightarrow> 's \<Rightarrow> bool \<times> 's"
    and key :: "'r \<Rightarrow> 'k"
    and seen :: "'k \<Rightarrow> 's \<Rightarrow> bool"
    and ok :: "'r \<Rightarrow> 's \<Rightarrow> bool"
    and inv :: "'s \<Rightarrow> bool"
  assumes inv_check: "inv s \<Longrightarrow> ok r s \<Longrightarrow> inv (snd (check r s))"
    and answer: "inv s \<Longrightarrow> ok r s \<Longrightarrow> fst (check r s) = seen (key r) s"
    and records: "inv s \<Longrightarrow> ok r s \<Longrightarrow> \<not> seen (key r) s \<Longrightarrow> seen (key r) (snd (check r s))"
begin

lemma admitted_once:
  assumes "inv s" "ok r s" "\<not> fst (check r s)"
    and "key r' = key r" "ok r' (snd (check r s))"
  shows "fst (check r' (snd (check r s)))"
  using assms by (metis answer inv_check records)

lemma fresh_admitted: "inv s \<Longrightarrow> ok r s \<Longrightarrow> \<not> seen (key r) s \<Longrightarrow> \<not> fst (check r s)"
  by (simp add: answer)

end

end
