(* ===== verification/Store.thy ===== *)
theory Store
  imports Interfaces "HOL-Library.Product_Lexorder"
begin

section \<open>The durable store (\<open>store.py\<close>)\<close>

text \<open>
  The SQLite file with its three tables: the dedupe window, the next-session queue and the
  dead-letter table.  A table is the list of its rows in \<open>rowid\<close> order, which is the order a
  scan without \<open>ORDER BY\<close> is taken to visit them (SQL leaves it open) and the order ties of an
  \<open>ORDER BY\<close> keep (the indices on \<open>seen_at\<close> and \<open>created_at\<close> are scanned in one direction).  A method is a
  function from the store before its transaction to its result and the store after it; the
  clock reading \<open>time.time()\<close> of the call is an argument, and \<open>ulid n\<close> is the \<open>n\<close>-th ULID
  drawn from the \<open>ulid\<close> package.  A row keeps the event itself where the column holds its
  JSON text.  SQL \<open>NULL\<close> is \<open>None\<close>.  Failures of SQLite itself (a locked or closed database)
  are inputs of the callers that handle them.
\<close>

definition SCHEMA_VERSION :: int where "SCHEMA_VERSION = 2"

definition DEFAULT_DEDUPE_TTL_SECONDS :: rat where "DEFAULT_DEDUPE_TTL_SECONDS = 7 * 24 * 3600"
definition DEFAULT_DEDUPE_MAX_ROWS :: int where "DEFAULT_DEDUPE_MAX_ROWS = 100000"
definition DEFAULT_PENDING_TTL_SECONDS :: rat where "DEFAULT_PENDING_TTL_SECONDS = 7 * 24 * 3600"
definition DEFAULT_PENDING_MAX_ROWS :: int where "DEFAULT_PENDING_MAX_ROWS = 10000"
definition DEFAULT_PENDING_MAX_ATTEMPTS :: int where "DEFAULT_PENDING_MAX_ATTEMPTS = 5"
definition DEFAULT_DEAD_LETTER_TTL_SECONDS :: rat where
  "DEFAULT_DEAD_LETTER_TTL_SECONDS = 30 * 24 * 3600"
definition DEFAULT_DEAD_LETTER_MAX_ROWS :: int where
  "DEFAULT_DEAD_LETTER_MAX_ROWS = 2 * DEFAULT_PENDING_MAX_ROWS"

definition PRUNE_INTERVAL :: nat where "PRUNE_INTERVAL = 256"

definition DEAD_LETTER_KINDS :: "string list" where
  "DEAD_LETTER_KINDS = [''reply'', ''next_session'', ''human_delivery'']"

record dedupe_row =
  dd_event_id :: "string option"
  dd_source :: string
  dd_seen_at :: pytime

record pending_row =
  p_id :: nat
  p_event_id :: string
  p_source :: string
  p_destination :: "string option"
  p_target :: "string option"
  p_event :: dict
  p_enqueued_at :: pytime
  p_expires_at :: pytime
  p_attempts :: int

record dead_row =
  dl_id :: string
  dl_kind :: string
  dl_source :: string
  dl_ref_id :: string
  dl_payload :: dict
  dl_error :: "string option"
  dl_attempts :: int
  dl_created_at :: pytime
  dl_redriven_at :: "pytime option"
  dl_redrive_status :: "string option"

record store =
  st_dedupe :: "dedupe_row list"
  st_pending :: "pending_row list"
  st_dead :: "dead_row list"
  st_seq :: nat
  st_ulids :: nat
  st_inserts :: nat
  dedupe_ttl :: rat
  dedupe_max_rows :: int
  pending_ttl :: rat
  pending_max_rows :: int
  pending_max_attempts :: int
  dead_letter_ttl :: rat
  dead_letter_max_rows :: int

text \<open>\<open>LIMIT n\<close>: a negative limit is no limit.\<close>

definition sql_limit :: "int \<Rightarrow> 'a list \<Rightarrow> 'a list" where
  "sql_limit n xs = (if n < 0 then xs else take (nat n) xs)"

subsection \<open>Dead letters\<close>

definition mk_dead ::
  "(nat \<Rightarrow> string) \<Rightarrow> pytime \<Rightarrow> string \<Rightarrow> string \<Rightarrow> string \<Rightarrow> dict \<Rightarrow> string option \<Rightarrow> int \<Rightarrow>
   store \<Rightarrow> dead_row" where
  "mk_dead ulid now kind source ref_id payload error attempts st =
     \<lparr>dl_id = ulid (st_ulids st), dl_kind = kind, dl_source = source, dl_ref_id = ref_id,
      dl_payload = payload, dl_error = error, dl_attempts = attempts, dl_created_at = now,
      dl_redriven_at = None, dl_redrive_status = None\<rparr>"

definition insert_dead ::
  "(nat \<Rightarrow> string) \<Rightarrow> pytime \<Rightarrow> string \<Rightarrow> string \<Rightarrow> string \<Rightarrow> dict \<Rightarrow> string option \<Rightarrow> int \<Rightarrow>
   store \<Rightarrow> store" where
  "insert_dead ulid now kind source ref_id payload error attempts st =
     st\<lparr>st_dead := st_dead st @ [mk_dead ulid now kind source ref_id payload error attempts st],
        st_ulids := Suc (st_ulids st)\<rparr>"

definition dead_letter ::
  "(nat \<Rightarrow> string) \<Rightarrow> pytime \<Rightarrow> string \<Rightarrow> string \<Rightarrow> string \<Rightarrow> dict \<Rightarrow> string option \<Rightarrow> int \<Rightarrow>
   store \<Rightarrow> (string \<times> store) res" where
  "dead_letter ulid now kind source ref_id payload error attempts st =
     (if kind \<notin> set DEAD_LETTER_KINDS then Inl (ValueError ''unknown dead-letter kind'')
      else Inr (ulid (st_ulids st),
                insert_dead ulid now kind source ref_id payload error attempts st))"

text \<open>\<open>redrive_status IS NULL OR redrive_status != 'ok'\<close>.\<close>

definition not_redriven :: "dead_row \<Rightarrow> bool" where
  "not_redriven r \<longleftrightarrow> dl_redrive_status r \<noteq> Some ''ok''"

definition list_dead_letters :: "string option \<Rightarrow> int \<Rightarrow> bool \<Rightarrow> store \<Rightarrow> dead_row list" where
  "list_dead_letters kind limit include_redriven st =
     sql_limit limit
       (rev (sort_key dl_created_at
          (filter (\<lambda>r. (kind = None \<or> kind = Some [] \<or> kind = Some (dl_kind r))
                       \<and> (include_redriven \<or> not_redriven r)) (st_dead st))))"

definition get_dead_letter :: "string \<Rightarrow> store \<Rightarrow> dead_row option" where
  "get_dead_letter i st = find (\<lambda>r. dl_id r = i) (st_dead st)"

definition mark_redriven ::
  "pytime \<Rightarrow> string \<Rightarrow> string \<Rightarrow> string option \<Rightarrow> store \<Rightarrow> store" where
  "mark_redriven now i status error st =
     st\<lparr>st_dead := map (\<lambda>r. if dl_id r = i
          then r\<lparr>dl_redriven_at := Some now, dl_redrive_status := Some status,
                 dl_error := (case error of None \<Rightarrow> dl_error r | Some e \<Rightarrow> Some e)\<rparr>
          else r) (st_dead st)\<rparr>"

definition dead_letter_count :: "bool \<Rightarrow> store \<Rightarrow> nat" where
  "dead_letter_count include_redriven st =
     length (filter (\<lambda>r. include_redriven \<or> not_redriven r) (st_dead st))"

definition purge_dead_letters :: "pytime \<Rightarrow> rat option \<Rightarrow> bool \<Rightarrow> store \<Rightarrow> nat \<times> store" where
  "purge_dead_letters now older_than redriven_only st =
     (let gone = (\<lambda>r. (case older_than of None \<Rightarrow> True | Some s \<Rightarrow> dl_created_at r < now - s)
                     \<and> (\<not> redriven_only \<or> dl_redrive_status r = Some ''ok''))
      in (length (filter gone (st_dead st)),
          st\<lparr>st_dead := filter (\<lambda>r. \<not> gone r) (st_dead st)\<rparr>))"

subsection \<open>Retention\<close>

text \<open>The dedupe sweeps: by age, then the oldest above the cap.\<close>

definition dedupe_sweep_ttl :: "pytime \<Rightarrow> store \<Rightarrow> dedupe_row list" where
  "dedupe_sweep_ttl now st = filter (\<lambda>r. \<not> dd_seen_at r < now - dedupe_ttl st) (st_dedupe st)"

definition dedupe_sweep_cap :: "int \<Rightarrow> dedupe_row list \<Rightarrow> dedupe_row list" where
  "dedupe_sweep_cap cap rows =
     (let overflow = int (length rows) - cap in
      if overflow > 0 then
        let oldest = map dd_event_id (take (nat overflow) (sort_key dd_seen_at rows))
        in filter (\<lambda>r. dd_event_id r = None \<or> dd_event_id r \<notin> set oldest) rows
      else rows)"

text \<open>
  The eviction order of the dead-letter cap.  \<open>(redrive_status = 'ok') DESC\<close> is three-valued in
  SQL: true first, then false, and \<open>NULL\<close> (never redriven) last.
\<close>

definition kind_rank :: "string \<Rightarrow> nat" where
  "kind_rank kind = (if kind = ''human_delivery'' then 2 else if kind = ''reply'' then 1 else 0)"

definition redrive_rank :: "string option \<Rightarrow> nat" where
  "redrive_rank status =
     (case status of None \<Rightarrow> 2 | Some s \<Rightarrow> if s = ''ok'' then 0 else 1)"

definition evict_key :: "dead_row \<Rightarrow> nat \<times> nat \<times> rat" where
  "evict_key r = (redrive_rank (dl_redrive_status r), kind_rank (dl_kind r), dl_created_at r)"

definition dead_sweep_ttl :: "pytime \<Rightarrow> store \<Rightarrow> dead_row list" where
  "dead_sweep_ttl now st = filter (\<lambda>r. \<not> dl_created_at r < now - dead_letter_ttl st) (st_dead st)"

definition dead_victims :: "int \<Rightarrow> dead_row list \<Rightarrow> dead_row list" where
  "dead_victims cap rows =
     (let overflow = int (length rows) - cap in
      if overflow > 0 then take (nat overflow) (sort_key evict_key rows) else [])"

definition dead_sweep_cap :: "int \<Rightarrow> dead_row list \<Rightarrow> dead_row list" where
  "dead_sweep_cap cap rows =
     filter (\<lambda>r. dl_id r \<notin> dl_id ` set (dead_victims cap rows)) rows"

definition pending_expired :: "pytime \<Rightarrow> store \<Rightarrow> pending_row list" where
  "pending_expired now st = filter (\<lambda>r. p_expires_at r \<le> now) (st_pending st)"

text \<open>\<open>f"{x:.0f}"\<close> rounds a half to the even neighbour.\<close>

definition round_even :: "rat \<Rightarrow> int" where
  "round_even x =
     (let n = \<lfloor>x\<rfloor>; d = x - of_int n in
      if d < 1 / 2 \<or> (d = 1 / 2 \<and> even n) then n else n + 1)"

definition expiry_error :: "store \<Rightarrow> pending_row \<Rightarrow> string" where
  "expiry_error st r =
     ''expired after '' @ int_str (round_even (pending_ttl st)) @ ''s with no session for source ''
     @ repr_str (p_source r)"

text \<open>Each expired row is dead-lettered with the event as payload.\<close>

fun promote ::
  "(nat \<Rightarrow> string) \<Rightarrow> pytime \<Rightarrow> pending_row list \<Rightarrow> store \<Rightarrow> store" where
  "promote ulid now [] st = st"
| "promote ulid now (r # rs) st =
     promote ulid now rs
       (insert_dead ulid now ''next_session'' (p_source r) (p_event_id r) (p_event r)
          (Some (expiry_error st r)) (p_attempts r) st)"

record prune_counts =
  n_dedupe_ttl :: nat
  n_dedupe_cap :: nat
  n_dead_ttl :: nat
  n_dead_cap :: nat
  n_pending_expired :: nat

definition prune_sweep :: "pytime \<Rightarrow> store \<Rightarrow> store" where
  "prune_sweep now st =
     st\<lparr>st_dedupe := dedupe_sweep_cap (dedupe_max_rows st) (dedupe_sweep_ttl now st),
        st_pending := filter (\<lambda>r. \<not> p_expires_at r \<le> now) (st_pending st),
        st_dead := dead_sweep_cap (dead_letter_max_rows st) (dead_sweep_ttl now st),
        st_inserts := 0\<rparr>"

definition prune :: "(nat \<Rightarrow> string) \<Rightarrow> pytime \<Rightarrow> store \<Rightarrow> prune_counts \<times> store" where
  "prune ulid now st =
     (let d1 = dedupe_sweep_ttl now st;
          d2 = dedupe_sweep_cap (dedupe_max_rows st) d1;
          x1 = dead_sweep_ttl now st;
          vs = dead_victims (dead_letter_max_rows st) x1;
          expired = pending_expired now st
      in (\<lparr>n_dedupe_ttl = length (st_dedupe st) - length d1,
           n_dedupe_cap = length d1 - length d2,
           n_dead_ttl = length (st_dead st) - length x1,
           n_dead_cap = length vs,
           n_pending_expired = length expired\<rparr>,
          promote ulid now expired (prune_sweep now st)))"

definition entries :: "nat \<Rightarrow> string" where
  "entries n = nat_str n @ (if n = 1 then '' entry'' else '' entries'')"

text \<open>The two warnings of a sweep: un-redriven rows lost to age and to the cap.\<close>

definition prune_warnings :: "pytime \<Rightarrow> store \<Rightarrow> nat \<times> nat" where
  "prune_warnings now st =
     (length (filter (\<lambda>r. dl_created_at r < now - dead_letter_ttl st \<and> not_redriven r) (st_dead st)),
      length (filter not_redriven (dead_victims (dead_letter_max_rows st) (dead_sweep_ttl now st))))"

subsection \<open>Dedupe\<close>

text \<open>
  \<open>INSERT OR IGNORE\<close> on the primary key; a \<open>NULL\<close> key never conflicts (SQLite allows \<open>NULL\<close> in a
  text primary key).  The sweep runs on every \<open>PRUNE_INTERVAL\<close>-th call.
\<close>

definition dedupe_known :: "string option \<Rightarrow> store \<Rightarrow> bool" where
  "dedupe_known eid st \<longleftrightarrow> eid \<noteq> None \<and> eid \<in> dd_event_id ` set (st_dedupe st)"

definition dedupe_insert :: "pytime \<Rightarrow> string option \<Rightarrow> string \<Rightarrow> store \<Rightarrow> store" where
  "dedupe_insert now eid source st =
     st\<lparr>st_dedupe := (if dedupe_known eid st then st_dedupe st
                      else st_dedupe st @ [\<lparr>dd_event_id = eid, dd_source = source, dd_seen_at = now\<rparr>]),
        st_inserts := Suc (st_inserts st)\<rparr>"

definition check_and_record_event ::
  "(nat \<Rightarrow> string) \<Rightarrow> pytime \<Rightarrow> string option \<Rightarrow> string \<Rightarrow> store \<Rightarrow> bool \<times> store" where
  "check_and_record_event ulid now eid source st =
     (let st' = dedupe_insert now eid source st;
          due = (PRUNE_INTERVAL \<le> st_inserts st')
      in (dedupe_known eid st, if due then snd (prune ulid now st') else st'))"

definition dedupe_count :: "store \<Rightarrow> nat" where
  "dedupe_count st = length (st_dedupe st)"

subsection \<open>The next-session queue\<close>

definition mk_pending :: "pytime \<Rightarrow> dict \<Rightarrow> string option \<Rightarrow> store \<Rightarrow> pending_row" where
  "mk_pending now event destination st =
     (let source = get_str event ''source'' [] in
      \<lparr>p_id = Suc (st_seq st),
       p_event_id = get_str event ''event_id'' [],
       p_source = source,
       p_destination = Some (case destination of Some d \<Rightarrow> d | None \<Rightarrow> source),
       p_target = (case dict_of (dget event ''meta'') of
                     None \<Rightarrow> None | Some meta \<Rightarrow> str_of (dget meta ''target'')),
       p_event = event,
       p_enqueued_at = now,
       p_expires_at = now + pending_ttl st,
       p_attempts = 0\<rparr>)"

definition enqueue_pending ::
  "pytime \<Rightarrow> dict \<Rightarrow> string option \<Rightarrow> store \<Rightarrow> bool \<times> store" where
  "enqueue_pending now event destination st =
     (let event_id = get_str event ''event_id'' [] in
      if event_id = [] then (False, st)
      else if pending_max_rows st \<le> int (length (st_pending st)) then (False, st)
      else if event_id \<in> p_event_id ` set (st_pending st) then (False, st)
      else (True, st\<lparr>st_pending := st_pending st @ [mk_pending now event destination st],
                    st_seq := Suc (st_seq st)\<rparr>))"

text \<open>A row is addressed to a destination by its own column, or by its source when the column
  is \<open>NULL\<close> (a row of an older build).\<close>

definition addressed_to :: "string \<Rightarrow> pending_row \<Rightarrow> bool" where
  "addressed_to d r \<longleftrightarrow>
     p_destination r = Some d \<or> (p_destination r = None \<and> p_source r = d)"

definition claimable :: "pytime \<Rightarrow> string \<Rightarrow> int \<Rightarrow> store \<Rightarrow> pending_row list" where
  "claimable now destination limit st =
     sql_limit limit (filter (\<lambda>r. addressed_to destination r \<and> now < p_expires_at r) (st_pending st))"

definition bump_attempts :: "nat set \<Rightarrow> pending_row list \<Rightarrow> pending_row list" where
  "bump_attempts ids rows =
     map (\<lambda>r. if p_id r \<in> ids then r\<lparr>p_attempts := p_attempts r + 1\<rparr> else r) rows"

definition claim_pending ::
  "pytime \<Rightarrow> string \<Rightarrow> int \<Rightarrow> store \<Rightarrow> pending_row list \<times> store" where
  "claim_pending now destination limit st =
     (let rows = claimable now destination limit st in
      (map (\<lambda>r. r\<lparr>p_attempts := p_attempts r + 1\<rparr>) rows,
       st\<lparr>st_pending := bump_attempts (p_id ` set rows) (st_pending st)\<rparr>))"

definition delete_pending :: "nat \<Rightarrow> store \<Rightarrow> store" where
  "delete_pending row_id st =
     st\<lparr>st_pending := filter (\<lambda>r. p_id r \<noteq> row_id) (st_pending st)\<rparr>"

definition list_pending ::
  "string option \<Rightarrow> int \<Rightarrow> string option \<Rightarrow> store \<Rightarrow> pending_row list" where
  "list_pending source limit destination st =
     sql_limit limit
       (case destination of
          Some (c # d) \<Rightarrow> filter (addressed_to (c # d)) (st_pending st)
        | _ \<Rightarrow>
            (case source of
               Some (c # s) \<Rightarrow> filter (\<lambda>r. p_source r = c # s) (st_pending st)
             | _ \<Rightarrow> st_pending st))"

definition pending_count :: "store \<Rightarrow> nat" where
  "pending_count st = length (st_pending st)"

subsection \<open>Opening a database\<close>

text \<open>
  The migration from schema 1 backfills the destination column from the source.  \<open>prior\<close> is the
  recorded schema version, \<open>None\<close> for a new file.
\<close>

definition backfill :: "pending_row \<Rightarrow> pending_row" where
  "backfill r =
     (case p_destination r of None \<Rightarrow> r\<lparr>p_destination := Some (p_source r)\<rparr> | Some _ \<Rightarrow> r)"

definition migrate :: "int option \<Rightarrow> store \<Rightarrow> store" where
  "migrate prior st =
     (case prior of
        None \<Rightarrow> st
      | Some v \<Rightarrow>
          if SCHEMA_VERSION \<le> v then st
          else st\<lparr>st_pending := map backfill (st_pending st)\<rparr>)"

definition state_num :: "dict \<Rightarrow> string \<Rightarrow> rat \<Rightarrow> rat" where
  "state_num d k dflt =
     (case dget d k of None \<Rightarrow> dflt | Some v \<Rightarrow> (case py_num v of None \<Rightarrow> dflt | Some n \<Rightarrow> n))"

definition state_int :: "dict \<Rightarrow> string \<Rightarrow> int \<Rightarrow> int" where
  "state_int d k dflt = (case int_of (dget d k) of None \<Rightarrow> dflt | Some i \<Rightarrow> i)"

text \<open>The tables on disk, with the limits of the config that opens them.\<close>

definition open_store ::
  "(nat \<Rightarrow> string) \<Rightarrow> pytime \<Rightarrow> cfg \<Rightarrow> int option \<Rightarrow> store \<Rightarrow> store" where
  "open_store ulid now cfg prior disk =
     (let s = table_of (dget cfg ''state'');
          st = migrate prior
            (disk\<lparr>st_inserts := 0,
                  dedupe_ttl := state_num s ''dedupe_ttl_seconds'' DEFAULT_DEDUPE_TTL_SECONDS,
                  dedupe_max_rows := state_int s ''dedupe_max_rows'' DEFAULT_DEDUPE_MAX_ROWS,
                  pending_ttl := state_num s ''pending_ttl_seconds'' DEFAULT_PENDING_TTL_SECONDS,
                  pending_max_rows := state_int s ''pending_max_rows'' DEFAULT_PENDING_MAX_ROWS,
                  pending_max_attempts := state_int s ''pending_max_attempts'' DEFAULT_PENDING_MAX_ATTEMPTS,
                  dead_letter_ttl := state_num s ''dead_letter_ttl_seconds'' DEFAULT_DEAD_LETTER_TTL_SECONDS,
                  dead_letter_max_rows := state_int s ''dead_letter_max_rows'' DEFAULT_DEAD_LETTER_MAX_ROWS\<rparr>)
      in snd (prune ulid now st))"

text \<open>\<open>resolve_state_path\<close>: environment, then config, then the default directory.\<close>

definition resolve_state_path :: "string option \<Rightarrow> cfg option \<Rightarrow> string \<Rightarrow> string" where
  "resolve_state_path env_dir cfg default_dir =
     (let db = (\<lambda>d. d @ ''/state.db'') in
      case env_dir of
        Some (c # d) \<Rightarrow> db (c # d)
      | _ \<Rightarrow>
          (case cfg of
             None \<Rightarrow> db default_dir
           | Some c \<Rightarrow>
               (case dget (table_of (dget c ''state'')) ''dir'' of
                  Some v \<Rightarrow> if truthy v then db (py_str v) else db default_dir
                | None \<Rightarrow> db default_dir)))"

subsection \<open>What each operation leaves of the fields\<close>

lemma insert_dead_fields [store_simps]:
  "st_dedupe (insert_dead u now k s r p e a st) = st_dedupe st"
  "st_pending (insert_dead u now k s r p e a st) = st_pending st"
  "st_seq (insert_dead u now k s r p e a st) = st_seq st"
  "st_dead (insert_dead u now k s r p e a st) = st_dead st @ [mk_dead u now k s r p e a st]"
  "st_ulids (insert_dead u now k s r p e a st) = Suc (st_ulids st)"
  "pending_ttl (insert_dead u now k s r p e a st) = pending_ttl st"
  "pending_max_rows (insert_dead u now k s r p e a st) = pending_max_rows st"
  "pending_max_attempts (insert_dead u now k s r p e a st) = pending_max_attempts st"
  "dedupe_ttl (insert_dead u now k s r p e a st) = dedupe_ttl st"
  "dedupe_max_rows (insert_dead u now k s r p e a st) = dedupe_max_rows st"
  "st_inserts (insert_dead u now k s r p e a st) = st_inserts st"
  by (simp_all add: insert_dead_def)

lemma promote_fields [store_simps]:
  "st_dedupe (promote u now rs st) = st_dedupe st"
  "st_pending (promote u now rs st) = st_pending st"
  "st_seq (promote u now rs st) = st_seq st"
  "pending_ttl (promote u now rs st) = pending_ttl st"
  "pending_max_rows (promote u now rs st) = pending_max_rows st"
  "pending_max_attempts (promote u now rs st) = pending_max_attempts st"
  "dedupe_ttl (promote u now rs st) = dedupe_ttl st"
  "dedupe_max_rows (promote u now rs st) = dedupe_max_rows st"
  "st_inserts (promote u now rs st) = st_inserts st"
  by (induction rs arbitrary: st) (simp_all add: store_simps)

lemma prune_fields [store_simps]:
  "st_dedupe (snd (prune u now st)) = dedupe_sweep_cap (dedupe_max_rows st) (dedupe_sweep_ttl now st)"
  "st_pending (snd (prune u now st)) = filter (\<lambda>r. \<not> p_expires_at r \<le> now) (st_pending st)"
  "st_seq (snd (prune u now st)) = st_seq st"
  "pending_ttl (snd (prune u now st)) = pending_ttl st"
  "pending_max_rows (snd (prune u now st)) = pending_max_rows st"
  "pending_max_attempts (snd (prune u now st)) = pending_max_attempts st"
  "dedupe_ttl (snd (prune u now st)) = dedupe_ttl st"
  "dedupe_max_rows (snd (prune u now st)) = dedupe_max_rows st"
  "st_inserts (snd (prune u now st)) = 0"
  by (simp_all add: prune_def prune_sweep_def Let_def store_simps)

text \<open>The dead-letter rows a sweep adds, one per expired event.\<close>

definition promoted_row :: "pytime \<Rightarrow> pending_row \<Rightarrow> dead_row \<Rightarrow> bool" where
  "promoted_row now p d \<longleftrightarrow> dl_kind d = ''next_session'' \<and> dl_source d = p_source p
     \<and> dl_ref_id d = p_event_id p \<and> dl_payload d = p_event p \<and> dl_attempts d = p_attempts p
     \<and> dl_created_at d = now \<and> dl_redrive_status d = None"

lemma promote_dead:
  "\<exists>ds. st_dead (promote u now rs st) = st_dead st @ ds \<and> list_all2 (promoted_row now) rs ds
      \<and> map dl_id ds = map u [st_ulids st..<st_ulids st + length rs]
      \<and> st_ulids (promote u now rs st) = st_ulids st + length rs"
proof (induction rs arbitrary: st)
  case (Cons r rs)
  let ?st = "insert_dead u now ''next_session'' (p_source r) (p_event_id r) (p_event r)
      (Some (expiry_error st r)) (p_attempts r) st"
  let ?d = "mk_dead u now ''next_session'' (p_source r) (p_event_id r) (p_event r)
      (Some (expiry_error st r)) (p_attempts r) st"
  from Cons.IH [of ?st] obtain ds where ds:
    "st_dead (promote u now rs ?st) = st_dead ?st @ ds" "list_all2 (promoted_row now) rs ds"
    "map dl_id ds = map u [st_ulids ?st..<st_ulids ?st + length rs]"
    "st_ulids (promote u now rs ?st) = st_ulids ?st + length rs" by blast
  have "promoted_row now r ?d" "dl_id ?d = u (st_ulids st)"
    by (simp_all add: promoted_row_def mk_dead_def)
  with ds show ?case
    by (intro exI [of _ "?d # ds"]) (simp add: store_simps upt_conv_Cons del: upt_Suc)
qed simp

lemma prune_dead:
  "\<exists>ds. st_dead (snd (prune u now st)) =
        dead_sweep_cap (dead_letter_max_rows st) (dead_sweep_ttl now st) @ ds
      \<and> list_all2 (promoted_row now) (pending_expired now st) ds
      \<and> map dl_id ds = map u [st_ulids st..<st_ulids st + length (pending_expired now st)]
      \<and> st_ulids (snd (prune u now st)) = st_ulids st + length (pending_expired now st)"
  using promote_dead [of u now "pending_expired now st" "prune_sweep now st"]
  by (simp add: prune_def Let_def prune_sweep_def)

subsection \<open>The invariant of the tables\<close>

definition wf_pending :: "store \<Rightarrow> bool" where
  "wf_pending st \<longleftrightarrow>
     sorted_wrt (<) (map p_id (st_pending st)) \<and> (\<forall>r \<in> set (st_pending st). p_id r \<le> st_seq st)
     \<and> distinct (map p_event_id (st_pending st)) \<and> [] \<notin> p_event_id ` set (st_pending st)"

definition wf_dedupe :: "store \<Rightarrow> bool" where
  "wf_dedupe st \<longleftrightarrow> distinct (filter (\<lambda>i. i \<noteq> None) (map dd_event_id (st_dedupe st)))"

definition wf_dead :: "(nat \<Rightarrow> string) \<Rightarrow> store \<Rightarrow> bool" where
  "wf_dead ulid st \<longleftrightarrow>
     distinct (map dl_id (st_dead st)) \<and> dl_id ` set (st_dead st) \<subseteq> ulid ` {..<st_ulids st}
     \<and> dl_kind ` set (st_dead st) \<subseteq> set DEAD_LETTER_KINDS"

definition wf_store :: "(nat \<Rightarrow> string) \<Rightarrow> store \<Rightarrow> bool" where
  "wf_store ulid st \<longleftrightarrow> wf_pending st \<and> wf_dedupe st \<and> wf_dead ulid st"

lemma wf_pending_distinct: "wf_pending st \<Longrightarrow> distinct (map p_id (st_pending st))"
  by (simp add: wf_pending_def strict_sorted_iff)

lemma wf_pending_filter:
  assumes "wf_pending st" "st_seq st' = st_seq st" "st_pending st' = filter P (st_pending st)"
  shows "wf_pending st'"
  using assms by (auto simp: wf_pending_def sorted_wrt_map sorted_wrt_filter distinct_map_filter)

lemma wf_pending_map:
  assumes "wf_pending st" "st_seq st' = st_seq st" "st_pending st' = map f (st_pending st)"
    and "\<And>r. p_id (f r) = p_id r" "\<And>r. p_event_id (f r) = p_event_id r"
  shows "wf_pending st'"
proof -
  have "p_id \<circ> f = p_id" "p_event_id \<circ> f = p_event_id" using assms(4,5) by auto
  then show ?thesis using assms by (simp add: wf_pending_def image_image)
qed

lemma wf_pending_same:
  "wf_pending st \<Longrightarrow> st_seq st' = st_seq st \<Longrightarrow> st_pending st' = st_pending st \<Longrightarrow> wf_pending st'"
  by (simp add: wf_pending_def)

lemma wf_dedupe_filter:
  assumes "wf_dedupe st" "st_dedupe st' = filter P (st_dedupe st)"
  shows "wf_dedupe st'"
proof -
  have "distinct (filter (\<lambda>i. i \<noteq> None) (map dd_event_id xs)) \<Longrightarrow>
        distinct (filter (\<lambda>i. i \<noteq> None) (map dd_event_id (filter P xs)))" for xs
    by (induction xs) (auto split: if_splits)
  with assms show ?thesis by (simp add: wf_dedupe_def)
qed

lemma wf_dedupe_cap: "\<exists>P. dedupe_sweep_cap cap rows = filter P rows"
  by (cases "int (length rows) - cap > 0")
    (auto simp: dedupe_sweep_cap_def Let_def intro: exI [of _ "\<lambda>_. True"])

lemma wf_dead_filter:
  assumes "wf_dead u st" "st_ulids st' = st_ulids st" "st_dead st' = filter P (st_dead st)"
  shows "wf_dead u st'"
  using assms by (auto simp: wf_dead_def distinct_map_filter)

lemma wf_dead_map:
  assumes "wf_dead u st" "st_ulids st' = st_ulids st" "st_dead st' = map f (st_dead st)"
    and "\<And>r. dl_id (f r) = dl_id r" "\<And>r. dl_kind (f r) = dl_kind r"
  shows "wf_dead u st'"
proof -
  have "dl_id \<circ> f = dl_id" "dl_kind \<circ> f = dl_kind" using assms(4,5) by auto
  then show ?thesis using assms by (simp add: wf_dead_def image_image)
qed

lemma wf_dead_append:
  assumes "inj u" "wf_dead u st" "st_dead st' = st_dead st @ ds"
    and "map dl_id ds = map u [st_ulids st..<st_ulids st + n]" "st_ulids st' = st_ulids st + n"
    and "dl_kind ` set ds \<subseteq> set DEAD_LETTER_KINDS"
  shows "wf_dead u st'"
proof -
  have ids: "dl_id ` set ds = u ` {st_ulids st..<st_ulids st + n}"
    using assms(4) by (metis list.set_map set_upt)
  have "distinct (map dl_id ds)" using assms(4) inj_on_subset [OF assms(1)] by (simp add: distinct_map)
  moreover have "dl_id ` set (st_dead st) \<inter> dl_id ` set ds = {}"
  proof -
    have "u ` {..<st_ulids st} \<inter> u ` {st_ulids st..<st_ulids st + n} = {}"
      using assms(1) by (auto simp: inj_eq)
    moreover have "dl_id ` set (st_dead st) \<subseteq> u ` {..<st_ulids st}"
      using assms(2) by (simp add: wf_dead_def)
    ultimately show ?thesis unfolding ids by blast
  qed
  moreover have "dl_id ` set (st_dead st') \<subseteq> u ` {..<st_ulids st'}"
  proof -
    have "u ` {..<st_ulids st} \<union> u ` {st_ulids st..<st_ulids st + n} \<subseteq> u ` {..<st_ulids st'}"
      using assms(5) by auto
    then show ?thesis using assms(2,3) ids by (simp add: wf_dead_def image_Un) blast
  qed
  ultimately show ?thesis using assms(2,3,6) by (simp add: wf_dead_def image_Un)
qed

lemma wf_insert_dead:
  assumes "inj u" "wf_store u st" "kind \<in> set DEAD_LETTER_KINDS"
  shows "wf_store u (insert_dead u now kind s r p e a st)"
proof -
  have "wf_dead u (insert_dead u now kind s r p e a st)"
    by (rule wf_dead_append [of u st _ "[mk_dead u now kind s r p e a st]" 1])
      (use assms in \<open>auto simp: wf_store_def store_simps mk_dead_def\<close>)
  with assms show ?thesis
    by (simp add: wf_store_def wf_pending_def wf_dedupe_def store_simps)
qed

lemma wf_prune:
  assumes "inj u" "wf_store u st"
  shows "wf_store u (snd (prune u now st))"
proof -
  let ?st = "snd (prune u now st)"
  have "wf_pending ?st"
    by (rule wf_pending_filter [of st])
      (use assms in \<open>auto simp: wf_store_def store_simps\<close>)
  moreover have "wf_dedupe ?st"
  proof -
    obtain P where P: "st_dedupe ?st = filter P (dedupe_sweep_ttl now st)"
      using wf_dedupe_cap by (auto simp: store_simps)
    show ?thesis by (rule wf_dedupe_filter [of st _ "\<lambda>r. P r \<and> \<not> dd_seen_at r < now - dedupe_ttl st"])
      (use assms P in \<open>auto simp: wf_store_def dedupe_sweep_ttl_def conj_commute\<close>)
  qed
  moreover have "wf_dead u ?st"
  proof -
    let ?rows = "dead_sweep_cap (dead_letter_max_rows st) (dead_sweep_ttl now st)"
    have mid: "wf_dead u (st\<lparr>st_dead := ?rows\<rparr>)"
      by (rule wf_dead_filter [of u st _
            "\<lambda>r. dl_id r \<notin> dl_id ` set (dead_victims (dead_letter_max_rows st) (dead_sweep_ttl now st))
                 \<and> \<not> dl_created_at r < now - dead_letter_ttl st"])
      (use assms in \<open>auto simp: wf_store_def dead_sweep_cap_def dead_sweep_ttl_def conj_commute\<close>)
    from prune_dead [of u now st] obtain ds where ds: "st_dead ?st = ?rows @ ds"
      "list_all2 (promoted_row now) (pending_expired now st) ds"
      "map dl_id ds = map u [st_ulids st..<st_ulids st + length (pending_expired now st)]"
      "st_ulids ?st = st_ulids st + length (pending_expired now st)" by blast
    have "dl_kind ` set ds \<subseteq> {''next_session''}"
      using ds(2) by (auto simp: list_all2_conv_all_nth in_set_conv_nth promoted_row_def)
    then have kinds: "dl_kind ` set ds \<subseteq> set DEAD_LETTER_KINDS"
      by (auto simp: DEAD_LETTER_KINDS_def)
    show ?thesis
      by (rule wf_dead_append [OF assms(1) mid, of _ ds]) (simp_all add: ds kinds)
  qed
  ultimately show ?thesis by (simp add: wf_store_def)
qed

lemma wf_dedupe_insert: "wf_store u st \<Longrightarrow> wf_store u (dedupe_insert now eid src st)"
  by (auto simp: wf_store_def wf_pending_def wf_dead_def wf_dedupe_def dedupe_insert_def
      dedupe_known_def)

lemma wf_check_and_record:
  "inj u \<Longrightarrow> wf_store u st \<Longrightarrow> wf_store u (snd (check_and_record_event u now eid src st))"
  by (simp add: check_and_record_event_def Let_def wf_prune wf_dedupe_insert)

lemma wf_enqueue: "wf_store u st \<Longrightarrow> wf_store u (snd (enqueue_pending now ev d st))"
  by (auto simp: wf_store_def wf_pending_def wf_dead_def wf_dedupe_def enqueue_pending_def Let_def
      mk_pending_def sorted_wrt_append less_Suc_eq_le le_Suc_eq)

lemma wf_claim: "wf_store u st \<Longrightarrow> wf_store u (snd (claim_pending now d l st))"
  using wf_pending_map [of st "snd (claim_pending now d l st)"
      "\<lambda>r. if p_id r \<in> p_id ` set (claimable now d l st) then r\<lparr>p_attempts := p_attempts r + 1\<rparr> else r"]
  by (simp add: wf_store_def wf_dead_def wf_dedupe_def claim_pending_def Let_def bump_attempts_def)

lemma wf_delete: "wf_store u st \<Longrightarrow> wf_store u (delete_pending n st)"
  using wf_pending_filter [of st "delete_pending n st"]
  by (simp add: wf_store_def wf_dead_def wf_dedupe_def delete_pending_def)

lemma wf_mark: "wf_store u st \<Longrightarrow> wf_store u (mark_redriven now i s e st)"
proof -
  assume wf: "wf_store u st"
  let ?f = "\<lambda>r. if dl_id r = i then r\<lparr>dl_redriven_at := Some now, dl_redrive_status := Some s,
      dl_error := (case e of None \<Rightarrow> dl_error r | Some e \<Rightarrow> Some e)\<rparr> else r"
  have "wf_dead u (mark_redriven now i s e st)"
    by (rule wf_dead_map [of u st _ ?f]) (use wf in \<open>auto simp: wf_store_def mark_redriven_def\<close>)
  with wf show ?thesis by (simp add: wf_store_def wf_pending_def wf_dedupe_def mark_redriven_def)
qed

lemma wf_purge: "wf_store u st \<Longrightarrow> wf_store u (snd (purge_dead_letters now o' ro st))"
  by (auto simp: wf_store_def wf_pending_def wf_dedupe_def purge_dead_letters_def wf_dead_def
      Let_def distinct_map_filter)

lemma wf_migrate: "wf_store u st \<Longrightarrow> wf_store u (migrate prior st)"
proof -
  assume wf: "wf_store u st"
  have "wf_pending (st\<lparr>st_pending := map backfill (st_pending st)\<rparr>)"
    by (rule wf_pending_map [of st _ backfill])
      (use wf in \<open>auto simp: wf_store_def backfill_def split: option.splits\<close>)
  with wf show ?thesis
    by (auto simp: migrate_def wf_store_def wf_dedupe_def wf_dead_def split: option.splits)
qed

lemma wf_limits:
  "wf_store u st \<Longrightarrow> wf_store u (st\<lparr>st_inserts := n, dedupe_ttl := a, dedupe_max_rows := b,
     pending_ttl := c, pending_max_rows := d, pending_max_attempts := e, dead_letter_ttl := f,
     dead_letter_max_rows := g\<rparr>)"
  by (simp add: wf_store_def wf_pending_def wf_dedupe_def wf_dead_def)

lemma wf_open: "inj u \<Longrightarrow> wf_store u disk \<Longrightarrow> wf_store u (open_store u now cfg prior disk)"
  by (simp add: open_store_def Let_def wf_prune wf_migrate wf_limits)

lemmas wf_store_ops = wf_insert_dead wf_prune wf_check_and_record wf_enqueue wf_claim wf_delete
  wf_mark wf_purge wf_open

end
