(* ===== verification/Store_Props.thy ===== *)
theory Store_Props
  imports Store
begin

section \<open>What the durable store promises\<close>

text \<open>
  The contracts the store provides (the queue the router drains and the replay window ingest
  asks), discharged on the model of \<open>WakeStore\<close>, and the properties of its operations: the
  invariant of the tables, the admission and claiming of queued events, and what the
  retention sweep may and may not lose.
\<close>

subsection \<open>The queue contract\<close>

interpretation pq: id_queue
  "\<lambda>st. map p_id (st_pending st)"
  "\<lambda>(now, ev, d) st. snd (enqueue_pending now ev d st)"
  "\<lambda>(now, d, l) st. snd (claim_pending now d l st)"
  delete_pending
  wf_pending
proof (unfold_locales, goal_cases)
  case (1 st x)
  obtain now ev d where x: "x = (now, ev, d)" by (cases x)
  show ?case using 1
    by (auto simp: x wf_pending_def enqueue_pending_def Let_def mk_pending_def sorted_wrt_append
        less_Suc_eq_le le_Suc_eq)
next
  case (2 st c)
  obtain now d l where c: "c = (now, d, l)" by (cases c)
  show ?case unfolding c case_prod_conv
    by (rule wf_pending_map [OF 2, where f = "\<lambda>r. if p_id r \<in> p_id ` set (claimable now d l st)
          then r\<lparr>p_attempts := p_attempts r + 1\<rparr> else r"])
      (simp_all add: claim_pending_def Let_def bump_attempts_def)
next
  case (3 st n)
  show ?case by (rule wf_pending_filter [OF 3]) (simp_all add: delete_pending_def)
next
  case (4 st)
  then show ?case by (rule wf_pending_distinct)
next
  case (5 st x)
  obtain now ev d where x: "x = (now, ev, d)" by (cases x)
  have "Suc (st_seq st) \<notin> set (map p_id (st_pending st))"
    using 5 by (auto simp: wf_pending_def)
  then show ?case by (auto simp: x enqueue_pending_def Let_def mk_pending_def)
next
  case (6 st c)
  then show ?case
    by (cases c) (simp add: claim_pending_def Let_def bump_attempts_def if_distrib comp_def cong: if_cong)
next
  case (7 st n)
  then show ?case by (simp add: delete_pending_def removeAll_filter_not_eq filter_map comp_def eq_commute)
qed

subsection \<open>The replay-window contract\<close>

lemma insort_key_snoc: "g a \<le> g x \<Longrightarrow> insort_key g a (ys @ [x]) = insort_key g a ys @ [x]"
  by (induction ys) auto

lemma sort_key_snoc_max: "\<forall>y \<in> set xs. g y \<le> g x \<Longrightarrow> sort_key g (xs @ [x]) = sort_key g xs @ [x]"
  by (induction xs) (simp_all add: insort_key_snoc)

text \<open>No clock reading of the table is later than the current one.\<close>

definition clock_ok :: "pytime \<Rightarrow> store \<Rightarrow> bool" where
  "clock_ok now st \<longleftrightarrow> (\<forall>r \<in> set (st_dedupe st). dd_seen_at r \<le> now)"

definition limits_ok :: "store \<Rightarrow> bool" where
  "limits_ok st \<longleftrightarrow> 0 \<le> dedupe_ttl st \<and> 1 \<le> dedupe_max_rows st"

lemma newest_survives_cap:
  assumes "1 \<le> cap" "\<forall>y \<in> set rows. dd_seen_at y \<le> dd_seen_at x" "dd_event_id x \<notin> dd_event_id ` set rows"
  shows "x \<in> set (dedupe_sweep_cap cap (rows @ [x]))"
proof -
  let ?k = "nat (int (Suc (length rows)) - cap)"
  have "?k \<le> length (sort_key dd_seen_at rows)" using assms(1) by simp
  then have "take ?k (sort_key dd_seen_at (rows @ [x])) = take ?k (sort_key dd_seen_at rows)"
    unfolding sort_key_snoc_max [OF assms(2)] by simp
  moreover have "set (take ?k (sort_key dd_seen_at rows)) \<subseteq> set rows"
    by (metis set_sort set_take_subset)
  ultimately have "dd_event_id x \<notin> dd_event_id ` set (take ?k (sort_key dd_seen_at (rows @ [x])))"
    using assms(3) by auto
  then show ?thesis by (simp add: dedupe_sweep_cap_def Let_def)
qed

lemma dedupe_known_iff:
  "dedupe_known eid st \<longleftrightarrow> (\<exists>r \<in> set (st_dedupe st). dd_event_id r = eid \<and> eid \<noteq> None)"
  by (auto simp: dedupe_known_def)

lemma admitted_row:
  assumes "limits_ok st" "clock_ok now st" "eid \<noteq> None" "\<not> dedupe_known eid st"
  shows "\<lparr>dd_event_id = eid, dd_source = src, dd_seen_at = now\<rparr>
    \<in> set (st_dedupe (snd (check_and_record_event u now eid src st)))"
proof -
  let ?x = "\<lparr>dd_event_id = eid, dd_source = src, dd_seen_at = now\<rparr>"
  let ?st = "dedupe_insert now eid src st"
  let ?old = "filter (\<lambda>r. \<not> dd_seen_at r < now - dedupe_ttl st) (st_dedupe st)"
  have rows: "st_dedupe ?st = st_dedupe st @ [?x]" using assms(4) by (simp add: dedupe_insert_def)
  have lim: "dedupe_ttl ?st = dedupe_ttl st" "dedupe_max_rows ?st = dedupe_max_rows st"
    by (simp_all add: dedupe_insert_def)
  have sweep: "dedupe_sweep_ttl now ?st = ?old @ [?x]"
    using assms(1) by (simp add: dedupe_sweep_ttl_def rows lim limits_ok_def)
  have "?x \<in> set (dedupe_sweep_cap (dedupe_max_rows st) (?old @ [?x]))"
    using assms by (intro newest_survives_cap) (auto simp: limits_ok_def clock_ok_def dedupe_known_def)
  then show ?thesis
    by (simp add: check_and_record_event_def Let_def prune_fields sweep lim rows)
qed

lemma admitted_is_known:
  assumes "limits_ok st" "clock_ok now st" "eid \<noteq> None" "\<not> dedupe_known eid st"
  shows "dedupe_known eid (snd (check_and_record_event u now eid src st))"
  using admitted_row [OF assms, of src u] assms(3) unfolding dedupe_known_iff by force

lemma limits_check [simp]:
  "dedupe_ttl (snd (check_and_record_event u now eid src st)) = dedupe_ttl st"
  "dedupe_max_rows (snd (check_and_record_event u now eid src st)) = dedupe_max_rows st"
  by (simp_all add: check_and_record_event_def Let_def store_simps dedupe_insert_def)

interpretation dw: replay_window
  "\<lambda>(now, eid, src) st. check_and_record_event u now eid src st"
  "\<lambda>(now, eid, src). eid"
  dedupe_known
  "\<lambda>(now, eid, src) st. eid \<noteq> None \<and> clock_ok now st"
  limits_ok
  for u
proof (unfold_locales, goal_cases)
  case (1 st r)
  then show ?case by (cases r) (simp add: limits_ok_def)
next
  case (2 st r)
  then show ?case by (cases r) (simp add: check_and_record_event_def Let_def)
next
  case (3 st r)
  then show ?case by (cases r) (simp add: admitted_is_known)
qed

subsection \<open>Histories of a database\<close>

text \<open>The mutating operations, with the arguments and the clock reading of one call.\<close>

datatype store_op =
    OpDedupe pytime "string option" string
  | OpEnqueue pytime dict "string option"
  | OpClaim pytime string int
  | OpDelete nat
  | OpDead pytime string string string dict "string option" int
  | OpMark pytime string string "string option"
  | OpPurge pytime "rat option" bool
  | OpPrune pytime
  | OpReopen pytime cfg "int option"

fun run_op :: "(nat \<Rightarrow> string) \<Rightarrow> store_op \<Rightarrow> store \<Rightarrow> store" where
  "run_op u (OpDedupe now eid src) st = snd (check_and_record_event u now eid src st)"
| "run_op u (OpEnqueue now ev d) st = snd (enqueue_pending now ev d st)"
| "run_op u (OpClaim now d l) st = snd (claim_pending now d l st)"
| "run_op u (OpDelete n) st = delete_pending n st"
| "run_op u (OpDead now k s r p e a) st =
     (case dead_letter u now k s r p e a st of Inl _ \<Rightarrow> st | Inr (_, st') \<Rightarrow> st')"
| "run_op u (OpMark now i s e) st = mark_redriven now i s e st"
| "run_op u (OpPurge now o' ro) st = snd (purge_dead_letters now o' ro st)"
| "run_op u (OpPrune now) st = snd (prune u now st)"
| "run_op u (OpReopen now cfg prior) st = open_store u now cfg prior st"

definition run_ops :: "(nat \<Rightarrow> string) \<Rightarrow> store_op list \<Rightarrow> store \<Rightarrow> store" where
  "run_ops u ops st = fold (run_op u) ops st"

definition new_store :: store where
  "new_store = \<lparr>st_dedupe = [], st_pending = [], st_dead = [], st_seq = 0, st_ulids = 0, st_inserts = 0,
     dedupe_ttl = DEFAULT_DEDUPE_TTL_SECONDS, dedupe_max_rows = DEFAULT_DEDUPE_MAX_ROWS,
     pending_ttl = DEFAULT_PENDING_TTL_SECONDS, pending_max_rows = DEFAULT_PENDING_MAX_ROWS,
     pending_max_attempts = DEFAULT_PENDING_MAX_ATTEMPTS,
     dead_letter_ttl = DEFAULT_DEAD_LETTER_TTL_SECONDS,
     dead_letter_max_rows = DEFAULT_DEAD_LETTER_MAX_ROWS\<rparr>"

lemma wf_new_store: "wf_store u new_store"
  by (simp add: wf_store_def wf_pending_def wf_dedupe_def wf_dead_def new_store_def)

lemma wf_run_op: "inj u \<Longrightarrow> wf_store u st \<Longrightarrow> wf_store u (run_op u op st)"
  by (cases op) (auto simp: wf_store_ops dead_letter_def)

lemma wf_run_ops: "inj u \<Longrightarrow> wf_store u st \<Longrightarrow> wf_store u (run_ops u ops st)"
  unfolding run_ops_def by (induction ops arbitrary: st) (auto simp: wf_run_op)

text \<open>Distinct identifiers for the witnesses: the \<open>n\<close>-th is \<open>n\<close> letters long.\<close>

definition demo_ulid :: "nat \<Rightarrow> string" where
  "demo_ulid n = replicate n CHR ''x''"

lemma inj_demo_ulid: "inj demo_ulid"
  by (auto simp: demo_ulid_def intro!: injI dest: arg_cong [where f = length])

text \<open>Every database that any sequence of store operations produces from a new file
  (restarts and migrations included) is well formed: row ids ascend and never exceed the
  sequence, queued event ids and dedupe ids are unique, dead-letter ids are unique and every
  dead-letter has a kind the operator tooling knows.\<close>

theorem store_histories_wf:
  assumes "inj u"
  shows "wf_store u (run_ops u ops new_store)"
  using assms wf_new_store by (rule wf_run_ops)

theorem store_histories_wf_witness:
  "inj demo_ulid \<and> wf_store demo_ulid (run_ops demo_ulid
     [OpEnqueue 0 [(''event_id'', VStr ''e'')] None, OpClaim 1 [] 5, OpPrune 10000000] new_store)"
  using inj_demo_ulid store_histories_wf [OF inj_demo_ulid] by blast

subsection \<open>Admission to the queue\<close>

text \<open>An event enters the next-session queue exactly when it has an id, the queue is
  below its cap and the id is not queued yet; it is then the last row, addressed to the given
  destination (its source by default) with no attempts, and a refusal changes nothing.  The
  cap is never exceeded.\<close>

theorem enqueue_admission:
  "(fst (enqueue_pending now ev d st) \<longleftrightarrow>
      get_str ev ''event_id'' [] \<noteq> [] \<and> int (length (st_pending st)) < pending_max_rows st
      \<and> get_str ev ''event_id'' [] \<notin> p_event_id ` set (st_pending st))
   \<and> st_pending (snd (enqueue_pending now ev d st)) =
      st_pending st @ (if fst (enqueue_pending now ev d st)
        then [\<lparr>p_id = Suc (st_seq st), p_event_id = get_str ev ''event_id'' [],
               p_source = get_str ev ''source'' [],
               p_destination = Some (case d of Some n \<Rightarrow> n | None \<Rightarrow> get_str ev ''source'' []),
               p_target = (case dict_of (dget ev ''meta'') of None \<Rightarrow> None | Some m \<Rightarrow> str_of (dget m ''target'')),
               p_event = ev, p_enqueued_at = now, p_expires_at = now + pending_ttl st, p_attempts = 0\<rparr>]
        else [])
   \<and> int (length (st_pending (snd (enqueue_pending now ev d st))))
       \<le> max (int (length (st_pending st))) (pending_max_rows st)"
  by (auto simp: enqueue_pending_def mk_pending_def Let_def)

subsection \<open>Claiming\<close>

lemma sql_limit_subset: "set (sql_limit n xs) \<subseteq> set xs"
  by (auto simp: sql_limit_def dest: in_set_takeD)

lemma claimable_subset:
  "r \<in> set (claimable now d l st) \<Longrightarrow> r \<in> set (st_pending st) \<and> addressed_to d r \<and> now < p_expires_at r"
  unfolding claimable_def using sql_limit_subset by fastforce

lemma claimable_ids:
  assumes "wf_pending st" "r \<in> set (st_pending st)"
  shows "p_id r \<in> p_id ` set (claimable now d l st) \<longleftrightarrow> r \<in> set (claimable now d l st)"
  using assms wf_pending_distinct [OF assms(1)] claimable_subset
  by (auto simp: distinct_map dest: inj_onD)

text \<open>Claiming for a destination returns the oldest unexpired rows addressed to it,
  in queue order and with their attempts counted up, and nothing else changes: no row leaves
  the queue and a row of another destination keeps its attempts.\<close>

theorem claim_exact:
  assumes "wf_pending st"
  shows "fst (claim_pending now d l st) =
      map (\<lambda>r. r\<lparr>p_attempts := p_attempts r + 1\<rparr>)
        (sql_limit l (filter (\<lambda>r. addressed_to d r \<and> now < p_expires_at r) (st_pending st)))
    \<and> st_pending (snd (claim_pending now d l st)) =
      map (\<lambda>r. if r \<in> set (claimable now d l st) then r\<lparr>p_attempts := p_attempts r + 1\<rparr> else r)
        (st_pending st)
    \<and> (\<forall>r \<in> set (st_pending st). \<not> addressed_to d r \<longrightarrow>
         r \<in> set (st_pending (snd (claim_pending now d l st))))"
proof -
  have rows: "st_pending (snd (claim_pending now d l st)) =
      map (\<lambda>r. if r \<in> set (claimable now d l st) then r\<lparr>p_attempts := p_attempts r + 1\<rparr> else r)
        (st_pending st)"
    using claimable_ids [OF assms] by (simp add: claim_pending_def Let_def bump_attempts_def)
  have "r \<in> set (st_pending (snd (claim_pending now d l st)))"
    if "r \<in> set (st_pending st)" "\<not> addressed_to d r" for r
    using that claimable_subset [of r now d l st] unfolding rows by (auto simp: image_iff)
  then show ?thesis using rows by (simp add: claim_pending_def claimable_def Let_def)
qed

definition demo_event :: dict where
  "demo_event = [(''event_id'', VStr ''e1''), (''source'', VStr ''ci'')]"

definition demo_store :: store where
  "demo_store = snd (enqueue_pending 0 demo_event (Some ''desk'') new_store)"

lemma wf_demo_store: "wf_store u demo_store"
  unfolding demo_store_def by (rule wf_enqueue [OF wf_new_store])

theorem claim_exact_witness:
  "wf_pending demo_store
   \<and> map (\<lambda>r. (p_event_id r, p_attempts r)) (fst (claim_pending 1 ''desk'' 100 demo_store)) = [(''e1'', 1)]
   \<and> fst (claim_pending 1 ''other'' 100 demo_store) = []"
proof -
  have wf: "wf_pending demo_store" using wf_demo_store by (simp add: wf_store_def)
  show ?thesis
    unfolding claim_exact [OF wf, THEN conjunct1]
    using wf by (simp add: demo_store_def demo_event_def new_store_def enqueue_pending_def mk_pending_def
        Let_def get_str_def dict_of_def addressed_to_def sql_limit_def DEFAULT_PENDING_TTL_SECONDS_def
        DEFAULT_PENDING_MAX_ROWS_def)
qed

subsection \<open>At-least-once\<close>

text \<open>The calls a daemon makes on the queue between two sweeps.\<close>

datatype queue_op = QEnqueue pytime dict "string option" | QClaim pytime string int | QDelete nat

fun queue_step :: "queue_op \<Rightarrow> store \<Rightarrow> store" where
  "queue_step (QEnqueue now ev d) st = snd (enqueue_pending now ev d st)"
| "queue_step (QClaim now d l) st = snd (claim_pending now d l st)"
| "queue_step (QDelete n) st = delete_pending n st"

lemma queue_step_spares: "op \<noteq> QDelete n \<Longrightarrow> pq.spares n (queue_step op)"
proof (cases op)
  case (QEnqueue now ev d)
  then have "queue_step op = (\<lambda>(now, ev, d) st. snd (enqueue_pending now ev d st)) (now, ev, d)"
    by auto
  then show ?thesis unfolding pq.spares_def by blast
next
  case (QClaim now d l)
  then have "queue_step op = (\<lambda>(now, d, l) st. snd (claim_pending now d l st)) (now, d, l)" by auto
  then show ?thesis unfolding pq.spares_def by blast
next
  case (QDelete m)
  moreover assume "op \<noteq> QDelete n"
  ultimately have "m \<noteq> n" "queue_step op = delete_pending m" by auto
  then show ?thesis unfolding pq.spares_def by blast
qed

lemma fold_queue_step: "fold queue_step ops st = fold (\<lambda>f. f) (map queue_step ops) st"
  by (induction ops arbitrary: st) auto

text \<open>At-least-once.  A queued row stays queued through any sequence of enqueues,
  claims and deletions of other rows; only its own deletion (the adapter's ack, or its
  dead-lettering) takes it off the queue.\<close>

theorem queued_until_deleted:
  assumes "wf_pending st" and "n \<in> set (map p_id (st_pending st))" and "QDelete n \<notin> set ops"
  shows "n \<in> set (map p_id (st_pending (fold queue_step ops st)))"
  unfolding fold_queue_step
  by (rule pq.survives [OF assms(1,2)]) (use assms(3) in \<open>auto intro!: queue_step_spares\<close>)

theorem queued_until_deleted_witness:
  "1 \<in> set (map p_id (st_pending
     (fold queue_step [QClaim 1 ''desk'' 100, QEnqueue 2 [(''event_id'', VStr ''e2'')] None, QDelete 7]
        demo_store)))"
proof (rule queued_until_deleted)
  show "wf_pending demo_store" using wf_demo_store by (simp add: wf_store_def)
  show "1 \<in> set (map p_id (st_pending demo_store))"
    by (simp add: demo_store_def demo_event_def new_store_def enqueue_pending_def mk_pending_def Let_def
        get_str_def DEFAULT_PENDING_MAX_ROWS_def)
qed simp

subsection \<open>Retention\<close>

text \<open>Claim C13: the sweep never drops a queued event.  Rows that have not expired stay as they
  are, and each expired row is matched, in order, by a new dead-letter that carries its event,
  its source and its attempts and has not been redriven.\<close>

theorem prune_promotes_expired:
  "st_pending (snd (prune u now st)) = filter (\<lambda>r. now < p_expires_at r) (st_pending st)
   \<and> (\<exists>kept ds. st_dead (snd (prune u now st)) = kept @ ds \<and> set kept \<subseteq> set (st_dead st)
        \<and> list_all2 (promoted_row now) (filter (\<lambda>r. p_expires_at r \<le> now) (st_pending st)) ds)"
proof -
  from prune_dead [of u now st] obtain ds where
    "st_dead (snd (prune u now st)) = dead_sweep_cap (dead_letter_max_rows st) (dead_sweep_ttl now st) @ ds"
    "list_all2 (promoted_row now) (pending_expired now st) ds" by blast
  moreover have "set (dead_sweep_cap (dead_letter_max_rows st) (dead_sweep_ttl now st)) \<subseteq> set (st_dead st)"
    by (auto simp: dead_sweep_cap_def dead_sweep_ttl_def)
  ultimately show ?thesis by (auto simp: prune_fields pending_expired_def not_le)
qed

lemma wf_dead_ttl: "wf_dead u st \<Longrightarrow> distinct (map dl_id (dead_sweep_ttl now st))"
  by (auto simp: wf_dead_def dead_sweep_ttl_def distinct_map_filter)

lemma dead_cap_split:
  fixes cap :: int and rows :: "dead_row list"
  assumes "distinct (map dl_id rows)"
  defines "k \<equiv> nat (int (length rows) - cap)"
  shows "dead_victims cap rows = take k (sort_key evict_key rows)"
    and "set (dead_sweep_cap cap rows) = set (drop k (sort_key evict_key rows))"
    and "length (dead_sweep_cap cap rows) = length rows - k"
proof -
  show v: "dead_victims cap rows = take k (sort_key evict_key rows)"
    by (auto simp: dead_victims_def k_def Let_def)
  show "set (dead_sweep_cap cap rows) = set (drop k (sort_key evict_key rows))"
    unfolding dead_sweep_cap_def v by (rule evict_set [OF assms(1)])
  show "length (dead_sweep_cap cap rows) = length rows - k"
    unfolding dead_sweep_cap_def v by (rule evict_length [OF assms(1)])
qed

text \<open>The dead-letter cap.  The sweep leaves at most the cap of old rows, keeps every
  row it creates itself, and what it evicts ranks no higher than anything it keeps.\<close>

theorem prune_dead_letter_cap:
  assumes "wf_dead u st" and "0 \<le> dead_letter_max_rows st"
  shows "\<exists>ds. st_dead (snd (prune u now st)) =
          dead_sweep_cap (dead_letter_max_rows st) (dead_sweep_ttl now st) @ ds
      \<and> length ds = length (pending_expired now st)
      \<and> int (length (dead_sweep_cap (dead_letter_max_rows st) (dead_sweep_ttl now st)))
          \<le> dead_letter_max_rows st
      \<and> (\<forall>x \<in> set (dead_victims (dead_letter_max_rows st) (dead_sweep_ttl now st)).
          \<forall>y \<in> set (dead_sweep_cap (dead_letter_max_rows st) (dead_sweep_ttl now st)).
            evict_key x \<le> evict_key y)"
proof -
  let ?cap = "dead_letter_max_rows st" and ?rows = "dead_sweep_ttl now st"
  from prune_dead [of u now st] obtain ds where ds:
    "st_dead (snd (prune u now st)) = dead_sweep_cap ?cap ?rows @ ds"
    "list_all2 (promoted_row now) (pending_expired now st) ds" by blast
  note split = dead_cap_split [OF wf_dead_ttl [OF assms(1), of now], of ?cap]
  have "int (length (dead_sweep_cap ?cap ?rows)) \<le> ?cap"
    using split(3) assms(2) by linarith
  moreover have "evict_key x \<le> evict_key y"
    if "x \<in> set (dead_victims ?cap ?rows)" "y \<in> set (dead_sweep_cap ?cap ?rows)" for x y
    using that unfolding split(1,2) by (rule sort_take_drop_le)
  ultimately show ?thesis using ds by (auto dest: list_all2_lengthD)
qed

definition dead_row_of :: "string \<Rightarrow> string \<Rightarrow> pytime \<Rightarrow> string option \<Rightarrow> dead_row" where
  "dead_row_of i kind t status =
     \<lparr>dl_id = i, dl_kind = kind, dl_source = ''s'', dl_ref_id = ''r'', dl_payload = [], dl_error = None,
      dl_attempts = 1, dl_created_at = t, dl_redriven_at = None, dl_redrive_status = status\<rparr>"

definition demo_dead_store :: store where
  "demo_dead_store = new_store\<lparr>st_ulids := 2, dead_letter_max_rows := 1,
     st_dead := [dead_row_of (demo_ulid 0) ''human_delivery'' 5 (Some ''failed''),
                 dead_row_of (demo_ulid 1) ''next_session'' 4 None]\<rparr>"

lemma wf_demo_dead: "wf_dead demo_ulid demo_dead_store"
  by (auto simp: wf_dead_def demo_dead_store_def dead_row_of_def demo_ulid_def DEAD_LETTER_KINDS_def
      lessThan_Suc numeral_2_eq_2)

theorem prune_dead_letter_cap_witness:
  "\<exists>ds. st_dead (snd (prune demo_ulid 6 demo_dead_store)) =
      dead_sweep_cap 1 (dead_sweep_ttl 6 demo_dead_store) @ ds
    \<and> length ds = 0
    \<and> int (length (dead_sweep_cap 1 (dead_sweep_ttl 6 demo_dead_store))) \<le> 1"
  using prune_dead_letter_cap [OF wf_demo_dead, of 6]
  by (auto simp: demo_dead_store_def pending_expired_def new_store_def)

text \<open>The order in which the cap evicts is not the documented one.  A row whose
  redrive was attempted and failed goes before every row that was never redriven, whatever
  their kinds: a human alert an operator tried and failed to redrive is lost before an
  untouched, re-queueable \<open>next_session\<close> entry.\<close>

theorem failed_redrive_evicted_first:
  assumes "distinct (map dl_id rows)"
    and "x \<in> set rows" and "dl_redrive_status x = Some s"
    and "y \<in> set (dead_victims cap rows)" and "dl_redrive_status y = None"
  shows "x \<in> set (dead_victims cap rows)"
proof (rule ccontr)
  let ?k = "nat (int (length rows) - cap)"
  note split = dead_cap_split [OF assms(1), of cap]
  assume "x \<notin> set (dead_victims cap rows)"
  moreover have "set (sort_key evict_key rows) = set (take ?k (sort_key evict_key rows)) \<union>
      set (drop ?k (sort_key evict_key rows))"
    by (metis append_take_drop_id set_append)
  ultimately have "x \<in> set (drop ?k (sort_key evict_key rows))"
    using assms(2) unfolding split(1) by auto
  with assms(4) have "evict_key y \<le> evict_key x"
    unfolding split(1) by (rule sort_take_drop_le)
  then show False using assms(3,5) by (auto simp: evict_key_def redrive_rank_def split: if_splits)
qed

theorem failed_redrive_evicted_first_witness:
  "let human = dead_row_of ''a'' ''human_delivery'' 5 (Some ''failed'');
       queued = dead_row_of ''b'' ''next_session'' 4 None
   in dead_victims 1 [human, queued] = [human] \<and> human \<in> set (dead_victims 0 [human, queued])"
proof -
  let ?h = "dead_row_of ''a'' ''human_delivery'' 5 (Some ''failed'')"
  let ?q = "dead_row_of ''b'' ''next_session'' 4 None"
  have "?h \<in> set (dead_victims 0 [?h, ?q])"
    by (rule failed_redrive_evicted_first [of "[?h, ?q]" ?h "''failed''" ?q])
      (simp_all add: dead_row_of_def dead_victims_def evict_key_def redrive_rank_def kind_rank_def)
  then show ?thesis
    by (simp add: Let_def dead_row_of_def dead_victims_def evict_key_def redrive_rank_def kind_rank_def)
qed

subsection \<open>The replay window across restarts\<close>

lemma migrate_dedupe [store_simps]:
  "st_dedupe (migrate prior st) = st_dedupe st"
  "dedupe_ttl (migrate prior st) = dedupe_ttl st"
  "dedupe_max_rows (migrate prior st) = dedupe_max_rows st"
  by (simp_all add: migrate_def split: option.splits)

lemma reopened_keeps_row:
  assumes "x \<in> set (st_dedupe st)"
    and "now - dedupe_ttl (open_store u now cfg prior st) \<le> dd_seen_at x"
    and "int (length (st_dedupe st)) \<le> dedupe_max_rows (open_store u now cfg prior st)"
  shows "x \<in> set (st_dedupe (open_store u now cfg prior st))"
proof -
  define st' where "st' = migrate prior (st\<lparr>st_inserts := 0,
      dedupe_ttl := state_num (table_of (dget cfg ''state'')) ''dedupe_ttl_seconds'' DEFAULT_DEDUPE_TTL_SECONDS,
      dedupe_max_rows := state_int (table_of (dget cfg ''state'')) ''dedupe_max_rows'' DEFAULT_DEDUPE_MAX_ROWS,
      pending_ttl := state_num (table_of (dget cfg ''state'')) ''pending_ttl_seconds'' DEFAULT_PENDING_TTL_SECONDS,
      pending_max_rows := state_int (table_of (dget cfg ''state'')) ''pending_max_rows'' DEFAULT_PENDING_MAX_ROWS,
      pending_max_attempts := state_int (table_of (dget cfg ''state'')) ''pending_max_attempts'' DEFAULT_PENDING_MAX_ATTEMPTS,
      dead_letter_ttl := state_num (table_of (dget cfg ''state'')) ''dead_letter_ttl_seconds'' DEFAULT_DEAD_LETTER_TTL_SECONDS,
      dead_letter_max_rows := state_int (table_of (dget cfg ''state'')) ''dead_letter_max_rows'' DEFAULT_DEAD_LETTER_MAX_ROWS\<rparr>)"
  have op: "open_store u now cfg prior st = snd (prune u now st')"
    by (simp add: open_store_def Let_def st'_def)
  have rows: "st_dedupe st' = st_dedupe st" by (simp add: st'_def store_simps)
  have x: "x \<in> set (dedupe_sweep_ttl now st')"
    using assms(1,2) unfolding op prune_fields by (simp add: dedupe_sweep_ttl_def rows)
  have "length (dedupe_sweep_ttl now st') \<le> length (st_dedupe st)"
    by (simp add: dedupe_sweep_ttl_def rows)
  with assms(3) have "\<not> int (length (dedupe_sweep_ttl now st')) - dedupe_max_rows st' > 0"
    unfolding op prune_fields by simp
  then have "dedupe_sweep_cap (dedupe_max_rows st') (dedupe_sweep_ttl now st') = dedupe_sweep_ttl now st'"
    by (simp add: dedupe_sweep_cap_def Let_def)
  with x show ?thesis unfolding op prune_fields by simp
qed

text \<open>Replay protection survives a restart.  An event id the store admitted is
  answered as already seen when it is asked again at once, and also after the database is
  reopened under any config whose window has neither aged the row out nor a cap below the
  number of rows.\<close>

theorem replay_rejected_after_restart:
  assumes "limits_ok st" and "clock_ok now st" and "eid \<noteq> None"
    and "check_and_record_event u now eid src st = (False, st1)"
    and "st2 = open_store u now' cfg prior st1"
    and "now' - dedupe_ttl st2 \<le> now" and "int (length (st_dedupe st1)) \<le> dedupe_max_rows st2"
  shows "fst (check_and_record_event u t eid src' st1) \<and> fst (check_and_record_event u t eid src' st2)"
proof -
  have answer: "fst (check_and_record_event u t eid src' st) = dedupe_known eid st" for t src' st
    by (simp add: check_and_record_event_def Let_def)
  from assms(4) have new: "\<not> dedupe_known eid st" using answer [of now src st] by simp
  have st1: "st1 = snd (check_and_record_event u now eid src st)" using assms(4) by simp
  have "dedupe_known eid st1"
    unfolding st1 using dw.records [of st "(now, eid, src)" u] assms(1-3) new by simp
  moreover have "dedupe_known eid st2"
    using reopened_keeps_row [OF admitted_row [OF assms(1-3) new, of src u], of now' u cfg prior] assms(3,5-7)
    unfolding dedupe_known_iff st1 by force
  ultimately show ?thesis by (simp add: answer)
qed

theorem replay_rejected_after_restart_witness:
  "let st1 = snd (check_and_record_event demo_ulid 10 (Some ''e1'') ''ci'' new_store)
   in fst (check_and_record_event demo_ulid 11 (Some ''e1'') ''ci'' (open_store demo_ulid 20 [] (Some 1) st1))"
proof -
  let ?c = "check_and_record_event demo_ulid 10 (Some ''e1'') ''ci'' new_store"
  let ?st2 = "open_store demo_ulid 20 [] (Some 1) (snd ?c)"
  have c: "?c = (False, snd ?c)"
    by (simp add: check_and_record_event_def Let_def dedupe_known_def new_store_def)
  have len: "length (st_dedupe (snd ?c)) = 1"
    by (simp add: check_and_record_event_def Let_def dedupe_insert_def dedupe_known_def new_store_def
        PRUNE_INTERVAL_def)
  have lim: "dedupe_ttl ?st2 = 604800" "dedupe_max_rows ?st2 = 100000"
    by (simp_all add: open_store_def Let_def store_simps table_of_def state_num_def state_int_def
        int_of_def DEFAULT_DEDUPE_TTL_SECONDS_def DEFAULT_DEDUPE_MAX_ROWS_def)
  have "limits_ok new_store" "clock_ok 10 new_store"
    by (simp_all add: limits_ok_def clock_ok_def new_store_def DEFAULT_DEDUPE_TTL_SECONDS_def
        DEFAULT_DEDUPE_MAX_ROWS_def)
  then show ?thesis
    using replay_rejected_after_restart [OF _ _ _ c refl, where now' = 20 and cfg = "[]" and prior = "Some 1"
        and t = 11 and src' = "''ci''"] lim len
    by (simp add: Let_def)
qed

text \<open>The migration from schema 1 leaves no row without a destination and changes no
  drain: every destination claims the same rows, by id and order, before and after.\<close>

theorem migration_preserves_drain:
  assumes "prior = Some 1"
  shows "(\<forall>r \<in> set (st_pending (migrate prior st)). p_destination r \<noteq> None)
    \<and> map p_id (claimable now d l (migrate prior st)) = map p_id (claimable now d l st)"
proof -
  have rows: "st_pending (migrate prior st) = map backfill (st_pending st)"
    by (simp add: assms migrate_def SCHEMA_VERSION_def)
  have f: "addressed_to d (backfill r) = addressed_to d r" "p_expires_at (backfill r) = p_expires_at r"
      "p_id (backfill r) = p_id r" "p_destination (backfill r) \<noteq> None" for r
    by (auto simp: addressed_to_def backfill_def split: option.splits)
  have "map p_id (sql_limit l (filter P (map backfill xs))) = map p_id (sql_limit l (filter (P \<circ> backfill) xs))"
    for P xs by (simp add: sql_limit_def filter_map take_map f(3) comp_def)
  then show ?thesis using f by (simp add: claimable_def rows comp_def)
qed

theorem migration_preserves_drain_witness:
  "map p_id (claimable 1 ''desk'' 10 (migrate (Some 1) demo_store)) = map p_id (claimable 1 ''desk'' 10 demo_store)"
  using migration_preserves_drain [OF refl, of demo_store 1 "''desk''" 10] by blast

end
