(* ===== verification/Router.thy ===== *)
theory Router
  imports Addressing Store_Props
begin

section \<open>Sender to destination routing (\<open>router.py\<close>)\<close>

text \<open>
  The router's state is the live config, the durable store (absent when it is disabled), the
  connected subscribers in connection order, the ack futures and the tasks that wait for them,
  and the counters behind the silent-accumulation warning.  \<open>r_frames\<close> is the list of wake frames
  written to the sockets so far, and \<open>r_closed\<close> the connections the router closed.

  \<open>link sid ack\<close> says whether writing the wake frame with that ack id to the connection of
  session \<open>sid\<close> succeeds; when it does not, \<open>send_frame\<close> raises \<open>OSError\<close>.  A handler runs to its
  end before the next one starts; acks, nacks and timeouts arrive as steps of their own.
\<close>

record subscriber =
  s_session :: string
  s_adapter :: string
  s_instance :: string
  s_sources :: "pyval list"
  s_destinations :: "string list"
  s_in_flight :: int
  s_connected_at :: pytime

text \<open>A background \<open>_wait_for_ack\<close> task; \<open>w_row\<close> is the queue row its callback settles.\<close>

record waiter =
  w_source :: string
  w_ack :: string
  w_session :: string
  w_row :: "pending_row option"

record router =
  r_config :: cfg
  r_store :: "store option"
  r_subs :: "(string \<times> subscriber) list"
  r_order :: "string list"
  r_acks :: "(string \<times> string option) list"
  r_waiters :: "waiter list"
  r_consec :: "(string \<times> int) list"
  r_ever :: "string set"
  r_ulids :: nat
  r_frames :: "(string \<times> destination \<times> dict) list"
  r_closed :: "string list"

datatype status = Queued | Queued_next_session | No_subscriber | Refused addressing_error

definition QUEUE_WARN_EVERY :: int where "QUEUE_WARN_EVERY = 3"
definition LIVE_ONLY :: string where "LIVE_ONLY = ''live_only''"
definition DURABLE_MODES :: "string list" where
  "DURABLE_MODES = [''next_session'', ''managed_session'']"
definition VALID_DELIVERY_MODES :: "string list" where
  "VALID_DELIVERY_MODES = LIVE_ONLY # DURABLE_MODES"

definition new_router :: "cfg \<Rightarrow> store option \<Rightarrow> router" where
  "new_router cfg st =
     \<lparr>r_config = cfg, r_store = st, r_subs = [], r_order = [], r_acks = [], r_waiters = [],
      r_consec = [], r_ever = {}, r_ulids = 0, r_frames = [], r_closed = []\<rparr>"

subsection \<open>Addressing\<close>

text \<open>The loop over the names of a hello; an unhashable name raises in \<open>table.get\<close>.\<close>

fun hello_names ::
  "(string \<times> destination) list \<Rightarrow> string \<Rightarrow> string list \<Rightarrow> pyval list \<Rightarrow> string list res" where
  "hello_names table adapter out [] = Inr out"
| "hello_names table adapter out (VStr name # names) =
     (case dget table name of
        None \<Rightarrow> hello_names table adapter out names
      | Some dest \<Rightarrow>
          if \<not> accepts_adapter dest adapter then hello_names table adapter out names
          else if name \<notin> set out then hello_names table adapter (out @ [name]) names
          else hello_names table adapter out names)"
| "hello_names table adapter out (VList _ # names) = Inl TypeError"
| "hello_names table adapter out (VDict _ # names) = Inl TypeError"
| "hello_names table adapter out (_ # names) = hello_names table adapter out names"

definition destinations_for_hello ::
  "router \<Rightarrow> string \<Rightarrow> pyval list \<Rightarrow> pyval list option \<Rightarrow> string list res" where
  "destinations_for_hello R adapter sources claimed =
     hello_names (destination_table (r_config R)) adapter []
       (case claimed of Some (c # cs) \<Rightarrow> c # cs | _ \<Rightarrow> sources)"

definition destination_load :: "router \<Rightarrow> string \<Rightarrow> string option \<Rightarrow> nat" where
  "destination_load R name exclude =
     length (filter (\<lambda>(sid, sub). Some sid \<noteq> exclude \<and> name \<in> set (s_destinations sub)) (r_subs R))"

definition requested :: "dict \<Rightarrow> string \<Rightarrow> string option" where
  "requested event k =
     (case dict_of (dget event ''meta'') of
        None \<Rightarrow> None
      | Some meta \<Rightarrow> (case dget meta k of Some (VStr (c # s)) \<Rightarrow> Some (c # s) | _ \<Rightarrow> None))"

definition resolve_addressing :: "router \<Rightarrow> dict \<Rightarrow> addressing_error + destination list" where
  "resolve_addressing R event =
     resolve (r_config R) (get_str event ''source'' []) (requested event ''destination'')
       (requested event ''principal'')"

definition serves :: "destination \<Rightarrow> subscriber \<Rightarrow> bool" where
  "serves dest sub \<longleftrightarrow> d_name dest \<in> set (s_destinations sub) \<and> accepts_adapter dest (s_adapter sub)"

fun first_serving :: "(string \<times> subscriber) list \<Rightarrow> destination \<Rightarrow> string list \<Rightarrow> subscriber option" where
  "first_serving subs dest [] = None"
| "first_serving subs dest (sid # sids) =
     (case dget subs sid of
        None \<Rightarrow> first_serving subs dest sids
      | Some sub \<Rightarrow> if serves dest sub then Some sub else first_serving subs dest sids)"

definition subscriber_for :: "router \<Rightarrow> destination \<Rightarrow> subscriber option" where
  "subscriber_for R dest = first_serving (r_subs R) dest (rev (r_order R))"

subsection \<open>Delivery mode and the accumulation warning\<close>

definition delivery_mode :: "cfg \<Rightarrow> dict \<Rightarrow> string" where
  "delivery_mode cfg event =
     (case (case dict_of (dget event ''meta'') of
              None \<Rightarrow> None | Some meta \<Rightarrow> str_of (dget meta ''delivery'')) of
        Some mode \<Rightarrow> if mode \<in> set VALID_DELIVERY_MODES then mode else LIVE_ONLY
      | None \<Rightarrow>
          (case dget (table_of (dget cfg ''state'')) ''default_delivery'' of
             Some (VStr mode) \<Rightarrow> if mode \<in> set VALID_DELIVERY_MODES then mode else LIVE_ONLY
           | _ \<Rightarrow> LIVE_ONLY))"

definition dest_key :: "string option \<Rightarrow> string" where
  "dest_key d = (case d of None \<Rightarrow> [] | Some n \<Rightarrow> n)"

definition queued_count :: "router \<Rightarrow> string \<Rightarrow> int" where
  "queued_count R key = (case dget (r_consec R) key of None \<Rightarrow> 0 | Some n \<Rightarrow> n)"

definition note_queued_without_delivery :: "string option \<Rightarrow> router \<Rightarrow> router" where
  "note_queued_without_delivery d R =
     R\<lparr>r_consec := dset (dest_key d) (queued_count R (dest_key d) + 1) (r_consec R)\<rparr>"

datatype warning = Quiet | Not_returned | Never_served

text \<open>The warning the call above logs, given the state it leaves.\<close>

definition queue_warning :: "string option \<Rightarrow> router \<Rightarrow> warning" where
  "queue_warning d R =
     (if queued_count R (dest_key d) mod QUEUE_WARN_EVERY \<noteq> 0 then Quiet
      else if dest_key d \<notin> r_ever R then Never_served else Not_returned)"

definition note_delivered :: "string option \<Rightarrow> router \<Rightarrow> router" where
  "note_delivered d R = R\<lparr>r_consec := dpop (dest_key d) (r_consec R)\<rparr>"

definition prune_warning_state :: "router \<Rightarrow> router" where
  "prune_warning_state R =
     (let current = fst ` set (destination_table (r_config R)) in
      R\<lparr>r_ever := r_ever R \<inter> current,
        r_consec := filter (\<lambda>(name, _). name = [] \<or> name \<in> current) (r_consec R)\<rparr>)"

fun pop_all :: "string list \<Rightarrow> (string \<times> int) list \<Rightarrow> (string \<times> int) list" where
  "pop_all [] m = m"
| "pop_all (n # ns) m = pop_all ns (dpop n m)"

definition note_subscribed :: "string list \<Rightarrow> router \<Rightarrow> router" where
  "note_subscribed names R =
     R\<lparr>r_ever := r_ever R \<union> set names, r_consec := pop_all names (r_consec R)\<rparr>"

definition undeliverable :: "pytime \<Rightarrow> dict \<Rightarrow> string option \<Rightarrow> router \<Rightarrow> status \<times> router" where
  "undeliverable now event destination R =
     (if delivery_mode (r_config R) event \<in> set DURABLE_MODES then
        (case r_store R of
           None \<Rightarrow> (No_subscriber, R)
         | Some st \<Rightarrow>
             (case enqueue_pending now event destination st of
                (True, st') \<Rightarrow>
                  (Queued_next_session, note_queued_without_delivery destination (R\<lparr>r_store := Some st'\<rparr>))
              | (False, st') \<Rightarrow> (Queued_next_session, R\<lparr>r_store := Some st'\<rparr>)))
      else (No_subscriber, R))"

subsection \<open>Subscribers\<close>

definition subscribe ::
  "pytime \<Rightarrow> string \<Rightarrow> string \<Rightarrow> string \<Rightarrow> pyval list \<Rightarrow> string list \<Rightarrow> router \<Rightarrow> router" where
  "subscribe now sid adapter inst sources destinations R =
     R\<lparr>r_subs := dset sid \<lparr>s_session = sid, s_adapter = adapter, s_instance = inst,
                        s_sources = sources, s_destinations = destinations, s_in_flight = 0,
                        s_connected_at = now\<rparr> (r_subs R),
       r_order := r_order R @ [sid]\<rparr>"

definition unsubscribe :: "string \<Rightarrow> router \<Rightarrow> router" where
  "unsubscribe sid R = R\<lparr>r_subs := dpop sid (r_subs R), r_order := remove1 sid (r_order R)\<rparr>"

definition evict :: "string \<Rightarrow> router \<Rightarrow> router" where
  "evict sid R =
     (let R' = unsubscribe sid R in
      if has_key (r_subs R) sid then R'\<lparr>r_closed := r_closed R @ [sid]\<rparr> else R')"

definition add_in_flight :: "string \<Rightarrow> int \<Rightarrow> router \<Rightarrow> router" where
  "add_in_flight sid n R =
     R\<lparr>r_subs := map (\<lambda>(k, sub). (k, if k = sid then sub\<lparr>s_in_flight := s_in_flight sub + n\<rparr> else sub))
        (r_subs R)\<rparr>"

definition in_flight_for :: "router \<Rightarrow> string \<Rightarrow> int" where
  "in_flight_for R sid = (case dget (r_subs R) sid of None \<Rightarrow> 0 | Some sub \<Rightarrow> s_in_flight sub)"

definition end_delivery :: "string \<Rightarrow> router \<Rightarrow> router" where
  "end_delivery sid R = (if 0 < in_flight_for R sid then add_in_flight sid (- 1) R else R)"

definition register_ack :: "string \<Rightarrow> router \<Rightarrow> router" where
  "register_ack ack R = R\<lparr>r_acks := dset ack None (r_acks R)\<rparr>"

definition forget_ack :: "string \<Rightarrow> router \<Rightarrow> router" where
  "forget_ack ack R = R\<lparr>r_acks := dpop ack (r_acks R)\<rparr>"

text \<open>\<open>resolve_ack\<close>: the first answer to a pending future wins.\<close>

definition resolve_ack :: "string \<Rightarrow> string \<Rightarrow> router \<Rightarrow> router" where
  "resolve_ack ack frame_type R =
     (case dget (r_acks R) ack of
        Some None \<Rightarrow> R\<lparr>r_acks := dset ack (Some frame_type) (r_acks R)\<rparr>
      | _ \<Rightarrow> R)"

subsection \<open>Sending\<close>

text \<open>
  What \<open>_send_to\<close> and \<open>_send_pending\<close> share: draw an ack id, register its future, write the
  frame; on an \<open>OSError\<close> forget the future and evict the subscriber, otherwise count the frame as
  in flight and start the waiter.
\<close>

definition send_wake ::
  "(nat \<Rightarrow> string) \<Rightarrow> (string \<Rightarrow> string \<Rightarrow> bool) \<Rightarrow> string \<Rightarrow> destination \<Rightarrow> dict \<Rightarrow> string \<Rightarrow>
   pending_row option \<Rightarrow> router \<Rightarrow> bool \<times> router" where
  "send_wake ulid link sid dest event source row R =
     (let ack = ulid (r_ulids R);
          R1 = register_ack ack (R\<lparr>r_ulids := Suc (r_ulids R)\<rparr>)
      in if link sid ack then
           (True, (add_in_flight sid 1 R1)
                    \<lparr>r_frames := r_frames R @ [(sid, dest, event)],
                     r_waiters := r_waiters R @
                       [\<lparr>w_source = source, w_ack = ack, w_session = sid, w_row = row\<rparr>]\<rparr>)
         else (False, evict sid (forget_ack ack R1)))"

definition send_to ::
  "(nat \<Rightarrow> string) \<Rightarrow> (string \<Rightarrow> string \<Rightarrow> bool) \<Rightarrow> subscriber \<Rightarrow> destination \<Rightarrow> dict \<Rightarrow> string \<Rightarrow>
   router \<Rightarrow> bool \<times> router" where
  "send_to ulid link sub dest event sender_name R =
     (case send_wake ulid link (s_session sub) dest event sender_name None R of
        (True, R') \<Rightarrow> (True, note_delivered (Some (d_name dest)) R')
      | (False, R') \<Rightarrow> (False, R'))"

fun deliver_loop ::
  "(nat \<Rightarrow> string) \<Rightarrow> (string \<Rightarrow> string \<Rightarrow> bool) \<Rightarrow> dict \<Rightarrow> string \<Rightarrow> destination list \<Rightarrow> router \<Rightarrow>
   nat \<times> string list \<times> router" where
  "deliver_loop ulid link event s [] R = (0, [], R)"
| "deliver_loop ulid link event s (d # ds) R =
     (case subscriber_for R d of
        None \<Rightarrow>
          (case deliver_loop ulid link event s ds R of
             (n, und, R') \<Rightarrow> (n, d_name d # und, R'))
      | Some sub \<Rightarrow>
          (case send_to ulid link sub d event s R of
             (True, R1) \<Rightarrow>
               (case deliver_loop ulid link event s ds R1 of (n, und, R') \<Rightarrow> (Suc n, und, R'))
           | (False, R1) \<Rightarrow>
               (case deliver_loop ulid link event s ds R1 of
                  (n, und, R') \<Rightarrow> (n, d_name d # und, R'))))"

fun undeliverable_all :: "pytime \<Rightarrow> dict \<Rightarrow> string list \<Rightarrow> router \<Rightarrow> status list \<times> router" where
  "undeliverable_all now event [] R = ([], R)"
| "undeliverable_all now event (n # ns) R =
     (case undeliverable now event (Some n) R of
        (s, R1) \<Rightarrow> (case undeliverable_all now event ns R1 of (ss, R2) \<Rightarrow> (s # ss, R2)))"

definition deliver ::
  "(nat \<Rightarrow> string) \<Rightarrow> (string \<Rightarrow> string \<Rightarrow> bool) \<Rightarrow> pytime \<Rightarrow> dict \<Rightarrow> router \<Rightarrow> status \<times> router" where
  "deliver ulid link now event R =
     (case resolve_addressing R event of
        Inl e \<Rightarrow> (Refused e, R)
      | Inr dests \<Rightarrow>
          if dests = [] then undeliverable now event None R
          else
            (case deliver_loop ulid link event (get_str event ''source'' []) dests R of
               (delivered, und, R1) \<Rightarrow>
                 (case undeliverable_all now event und R1 of
                    (statuses, R2) \<Rightarrow>
                      (if 0 < delivered then Queued
                       else if Queued_next_session \<in> set statuses then Queued_next_session
                       else No_subscriber, R2))))"

subsection \<open>Draining the queue\<close>

definition send_pending ::
  "(nat \<Rightarrow> string) \<Rightarrow> (string \<Rightarrow> string \<Rightarrow> bool) \<Rightarrow> pytime \<Rightarrow> string \<Rightarrow> destination \<Rightarrow> pending_row \<Rightarrow>
   store \<Rightarrow> router \<Rightarrow> bool \<times> router" where
  "send_pending ulid link now sid dest row st R =
     (if pending_max_attempts st < p_attempts row then
        (case dead_letter ulid now ''next_session'' (p_source row) (p_event_id row) (p_event row)
                (Some (''no ack after '' @ int_str (p_attempts row - 1)
                       @ '' next-session delivery attempt(s)''))
                (p_attempts row - 1) st of
           Inl _ \<Rightarrow> (False, R)
         | Inr (_, st') \<Rightarrow> (False, R\<lparr>r_store := Some (delete_pending (p_id row) st')\<rparr>))
      else send_wake ulid link sid dest (p_event row) (p_source row) (Some row) R)"

fun send_rows ::
  "(nat \<Rightarrow> string) \<Rightarrow> (string \<Rightarrow> string \<Rightarrow> bool) \<Rightarrow> pytime \<Rightarrow> string \<Rightarrow> destination \<Rightarrow> pending_row list \<Rightarrow>
   router \<Rightarrow> nat \<times> router" where
  "send_rows ulid link now sid dest [] R = (0, R)"
| "send_rows ulid link now sid dest (row # rows) R =
     (case r_store R of
        None \<Rightarrow> (0, R)
      | Some st \<Rightarrow>
          (case send_pending ulid link now sid dest row st R of
             (ok, R1) \<Rightarrow>
               (case send_rows ulid link now sid dest rows R1 of
                  (n, R2) \<Rightarrow> (if ok then Suc n else n, R2))))"

fun drain_loop ::
  "(nat \<Rightarrow> string) \<Rightarrow> (string \<Rightarrow> string \<Rightarrow> bool) \<Rightarrow> pytime \<Rightarrow> string \<Rightarrow> string list \<Rightarrow> router \<Rightarrow>
   nat \<times> router" where
  "drain_loop ulid link now sid [] R = (0, R)"
| "drain_loop ulid link now sid (name # names) R =
     (case (dget (destination_table (r_config R)) name, r_store R) of
        (Some dest, Some st) \<Rightarrow>
          if map_option s_session (subscriber_for R dest) \<noteq> Some sid
          then drain_loop ulid link now sid names R
          else
            (case claim_pending now name 100 st of
               (rows, st1) \<Rightarrow>
                 (case send_rows ulid link now sid dest rows (R\<lparr>r_store := Some st1\<rparr>) of
                    (n, R1) \<Rightarrow>
                      (case drain_loop ulid link now sid names R1 of (m, R2) \<Rightarrow> (n + m, R2))))
      | _ \<Rightarrow> drain_loop ulid link now sid names R)"

definition drain_pending ::
  "(nat \<Rightarrow> string) \<Rightarrow> (string \<Rightarrow> string \<Rightarrow> bool) \<Rightarrow> pytime \<Rightarrow> string \<Rightarrow> router \<Rightarrow> nat \<times> router" where
  "drain_pending ulid link now sid R =
     (case (r_store R, dget (r_subs R) sid) of
        (Some _, Some sub) \<Rightarrow> drain_loop ulid link now sid (s_destinations sub) R
      | _ \<Rightarrow> (0, R))"

subsection \<open>Acks\<close>

definition settle_pending :: "pending_row \<Rightarrow> string option \<Rightarrow> router \<Rightarrow> router" where
  "settle_pending row result R =
     (case r_store R of
        None \<Rightarrow> R
      | Some st \<Rightarrow>
          if result = Some ''ack'' then R\<lparr>r_store := Some (delete_pending (p_id row) st)\<rparr> else R)"

text \<open>
  The end of a \<open>_wait_for_ack\<close> task with its outcome (\<open>None\<close> on timeout or cancellation): the
  \<open>finally\<close> block.
\<close>

definition finish_wait :: "waiter \<Rightarrow> string option \<Rightarrow> router \<Rightarrow> router" where
  "finish_wait w outcome R =
     (let R1 = (forget_ack (w_ack w) R)\<lparr>r_waiters := remove1 w (r_waiters R)\<rparr>;
          R2 = (if outcome \<noteq> None then end_delivery (w_session w) R1 else R1)
      in case w_row w of None \<Rightarrow> R2 | Some row \<Rightarrow> settle_pending row outcome R2)"

text \<open>\<open>shutdown\<close> cancels every waiter and clears the futures.\<close>

definition shutdown_router :: "router \<Rightarrow> router" where
  "shutdown_router R =
     (fold (\<lambda>w R. finish_wait w None R) (r_waiters R) R)\<lparr>r_acks := [], r_waiters := []\<rparr>"

subsection \<open>What a hello is told, and health\<close>

fun accepted_names ::
  "(string \<times> destination) list \<Rightarrow> string \<Rightarrow> pyval list \<Rightarrow> string list res" where
  "accepted_names table adapter [] = Inr []"
| "accepted_names table adapter (VStr name # names) =
     (case accepted_names table adapter names of
        Inl e \<Rightarrow> Inl e
      | Inr acc \<Rightarrow>
          (case dget table name of
             None \<Rightarrow> Inr acc
           | Some dest \<Rightarrow> if accepts_adapter dest adapter then Inr (name # acc) else Inr acc))"
| "accepted_names table adapter (VList _ # names) = Inl TypeError"
| "accepted_names table adapter (VDict _ # names) = Inl TypeError"
| "accepted_names table adapter (_ # names) = accepted_names table adapter names"

definition accepted_sources_for :: "router \<Rightarrow> string \<Rightarrow> pyval list \<Rightarrow> string list res" where
  "accepted_sources_for R adapter requested_names =
     accepted_names (destination_table (r_config R)) adapter requested_names"

definition subscribers_for_source :: "router \<Rightarrow> string \<Rightarrow> subscriber list" where
  "subscribers_for_source R source =
     first_by s_session
       (List.map_filter (subscriber_for R) (routed_destinations (r_config R) source))"

definition default_delivery :: "cfg \<Rightarrow> string" where
  "default_delivery cfg =
     (case dget (table_of (dget cfg ''state'')) ''default_delivery'' of
        Some v \<Rightarrow> py_str v | None \<Rightarrow> LIVE_ONLY)"

definition live_only_without_subscribers :: "router \<Rightarrow> string set" where
  "live_only_without_subscribers R =
     (if default_delivery (r_config R) = LIVE_ONLY
      then {s \<in> fst ` set (sender_table (r_config R)). subscribers_for_source R s = []} else {})"

end
