(* ===== verification/Router_Invariant.thy ===== *)
theory Router_Invariant
  imports Router
begin

section \<open>The router's invariant\<close>

text \<open>
  What each operation of the router leaves of its fields, the invariant between subscribers,
  connection order, ack futures, waiters and in-flight counts, and the histories of a router as
  a step relation that keeps it.
\<close>

subsection \<open>Fields the operations leave alone\<close>

lemma small_ops_fields [router_simps]:
  "r_config (note_queued_without_delivery d R) = r_config R"
  "r_store (note_queued_without_delivery d R) = r_store R"
  "r_subs (note_queued_without_delivery d R) = r_subs R"
  "r_order (note_queued_without_delivery d R) = r_order R"
  "r_frames (note_queued_without_delivery d R) = r_frames R"
  "r_config (note_delivered d R) = r_config R"
  "r_store (note_delivered d R) = r_store R"
  "r_subs (note_delivered d R) = r_subs R"
  "r_order (note_delivered d R) = r_order R"
  "r_frames (note_delivered d R) = r_frames R"
  "r_waiters (note_delivered d R) = r_waiters R"
  "r_config (unsubscribe sid R) = r_config R"
  "r_store (unsubscribe sid R) = r_store R"
  "r_frames (unsubscribe sid R) = r_frames R"
  "r_waiters (unsubscribe sid R) = r_waiters R"
  "r_config (evict sid R) = r_config R"
  "r_store (evict sid R) = r_store R"
  "r_frames (evict sid R) = r_frames R"
  "r_waiters (evict sid R) = r_waiters R"
  "r_subs (evict sid R) = dpop sid (r_subs R)"
  "r_order (evict sid R) = remove1 sid (r_order R)"
  "r_acks (evict sid R) = r_acks R"
  "r_ulids (evict sid R) = r_ulids R"
  by (simp_all add: note_queued_without_delivery_def note_delivered_def unsubscribe_def evict_def
      Let_def)

lemma send_wake_fields [router_simps]:
  "r_config (snd (send_wake u link sid dest event src row R)) = r_config R"
  "r_store (snd (send_wake u link sid dest event src row R)) = r_store R"
  "r_consec (snd (send_wake u link sid dest event src row R)) = r_consec R"
  "r_ever (snd (send_wake u link sid dest event src row R)) = r_ever R"
  "r_frames (snd (send_wake u link sid dest event src row R)) =
     r_frames R @ (if fst (send_wake u link sid dest event src row R) then [(sid, dest, event)] else [])"
  "fst (send_wake u link sid dest event src row R) = link sid (u (r_ulids R))"
  by (simp_all add: send_wake_def Let_def add_in_flight_def register_ack_def forget_ack_def
      evict_def unsubscribe_def)

lemma send_to_fields [router_simps]:
  "r_config (snd (send_to u link sub dest event src R)) = r_config R"
  "r_store (snd (send_to u link sub dest event src R)) = r_store R"
  "r_frames (snd (send_to u link sub dest event src R)) =
     r_frames R @ (if fst (send_to u link sub dest event src R) then [(s_session sub, dest, event)] else [])"
  "fst (send_to u link sub dest event src R) = link (s_session sub) (u (r_ulids R))"
  using send_wake_fields [of u link "s_session sub" dest event src None R]
  by (cases "send_wake u link (s_session sub) dest event src None R";
      cases "fst (send_wake u link (s_session sub) dest event src None R)";
      simp add: send_to_def router_simps)+

lemma undeliverable_fields [router_simps]:
  "r_config (snd (undeliverable now event d R)) = r_config R"
  "r_subs (snd (undeliverable now event d R)) = r_subs R"
  "r_order (snd (undeliverable now event d R)) = r_order R"
  "r_frames (snd (undeliverable now event d R)) = r_frames R"
  "r_acks (snd (undeliverable now event d R)) = r_acks R"
  "r_waiters (snd (undeliverable now event d R)) = r_waiters R"
  "r_ulids (snd (undeliverable now event d R)) = r_ulids R"
  by (simp_all add: undeliverable_def note_queued_without_delivery_def split: option.splits prod.splits bool.splits)

lemma undeliverable_all_fields [router_simps]:
  "r_config (snd (undeliverable_all now event ns R)) = r_config R"
  "r_subs (snd (undeliverable_all now event ns R)) = r_subs R"
  "r_order (snd (undeliverable_all now event ns R)) = r_order R"
  "r_frames (snd (undeliverable_all now event ns R)) = r_frames R"
  "r_acks (snd (undeliverable_all now event ns R)) = r_acks R"
  "r_waiters (snd (undeliverable_all now event ns R)) = r_waiters R"
  "r_ulids (snd (undeliverable_all now event ns R)) = r_ulids R"
  by (induction ns arbitrary: R; simp add: case_prod_beta router_simps)+

subsection \<open>The invariant\<close>

definition waiting :: "router \<Rightarrow> string \<Rightarrow> nat" where
  "waiting R sid = length (filter (\<lambda>w. w_session w = sid) (r_waiters R))"

definition wf_subs :: "router \<Rightarrow> bool" where
  "wf_subs R \<longleftrightarrow> wf_dict (r_subs R) \<and> distinct (r_order R)
     \<and> set (r_order R) = fst ` set (r_subs R)
     \<and> (\<forall>(k, sub) \<in> set (r_subs R). s_session sub = k)"

definition wf_acks :: "(nat \<Rightarrow> string) \<Rightarrow> router \<Rightarrow> bool" where
  "wf_acks u R \<longleftrightarrow> wf_dict (r_acks R) \<and> distinct (map w_ack (r_waiters R))
     \<and> set (map w_ack (r_waiters R)) = fst ` set (r_acks R)
     \<and> fst ` set (r_acks R) \<subseteq> u ` {..<r_ulids R}"

definition wf_flight :: "router \<Rightarrow> bool" where
  "wf_flight R \<longleftrightarrow> (\<forall>(k, sub) \<in> set (r_subs R). int (waiting R k) \<le> s_in_flight sub)"

definition wf_router :: "(nat \<Rightarrow> string) \<Rightarrow> router \<Rightarrow> bool" where
  "wf_router u R \<longleftrightarrow> wf_subs R \<and> wf_acks u R \<and> wf_flight R"

lemmas wf_router_defs = wf_router_def wf_subs_def wf_acks_def wf_flight_def

lemma wf_router_cong:
  "wf_router u R \<Longrightarrow> r_subs R' = r_subs R \<Longrightarrow> r_order R' = r_order R \<Longrightarrow> r_acks R' = r_acks R \<Longrightarrow>
   r_waiters R' = r_waiters R \<Longrightarrow> r_ulids R' = r_ulids R \<Longrightarrow> wf_router u R'"
  by (simp add: wf_router_defs waiting_def)

lemma wf_new_router: "wf_router u (new_router cfg st)"
  by (simp add: wf_router_defs new_router_def)

lemma dset_new: "\<not> has_key d k \<Longrightarrow> dset k v d = d @ [(k, v)]"
  by (induction d) (auto simp: has_key_def)

lemma dpop_filter: "dpop k d = filter (\<lambda>p. fst p \<noteq> k) d"
  by (induction d) auto

lemma wf_subscribe:
  assumes "wf_router u R" "\<not> has_key (r_subs R) sid" "waiting R sid = 0"
  shows "wf_router u (subscribe now sid a i srcs ds R)"
  using assms
  by (auto simp: wf_router_defs subscribe_def waiting_def dset_new has_key_iff wf_dict_def)

lemma wf_remove_sub:
  assumes "wf_router u R" "r_subs R' = dpop sid (r_subs R)" "r_order R' = remove1 sid (r_order R)"
    "r_acks R' = r_acks R" "r_waiters R' = r_waiters R" "r_ulids R' = r_ulids R"
  shows "wf_router u R'"
proof -
  have "set (remove1 sid (r_order R)) = set (r_order R) - {sid}"
    using assms(1) by (simp add: wf_router_defs set_remove1_eq)
  with assms show ?thesis
    by (auto simp: wf_router_defs waiting_def wf_dict_dpop keys_dpop) (auto simp: dpop_filter)
qed

lemma wf_unsubscribe: "wf_router u R \<Longrightarrow> wf_router u (unsubscribe sid R)"
  by (erule wf_remove_sub) (simp_all add: unsubscribe_def)

lemma wf_evict: "wf_router u R \<Longrightarrow> wf_router u (evict sid R)"
  by (erule wf_remove_sub) (simp_all add: router_simps)

lemma dpop_dset_new: "\<not> has_key d k \<Longrightarrow> dpop k (dset k v d) = d"
  by (simp add: dset_new dpop_filter has_key_iff filter_id_conv) (auto simp: image_iff)

lemma fresh_ack: "inj u \<Longrightarrow> wf_router u R \<Longrightarrow> \<not> has_key (r_acks R) (u (r_ulids R))"
  by (auto simp: wf_router_defs has_key_iff dest: injD)

lemma wf_subs_map:
  assumes "wf_subs R" "r_subs R' = map (\<lambda>(k, sub). (k, f k sub)) (r_subs R)" "r_order R' = r_order R"
    and "\<And>k sub. s_session (f k sub) = s_session sub"
  shows "wf_subs R'"
proof -
  have keys: "map fst (r_subs R') = map fst (r_subs R)" by (simp add: assms(2) comp_def split_beta)
  then have "fst ` set (r_subs R') = fst ` set (r_subs R)" by (metis list.set_map)
  moreover have "\<forall>(k, sub) \<in> set (r_subs R'). s_session sub = k"
    using assms(1,4) by (auto simp: assms(2) wf_subs_def)
  ultimately show ?thesis using assms(1,3) keys by (simp add: wf_subs_def wf_dict_def)
qed

lemma wf_subs_add_in_flight: "wf_subs R \<Longrightarrow> wf_subs (add_in_flight sid n R)"
  by (erule wf_subs_map [where f = "\<lambda>k sub. if k = sid then sub\<lparr>s_in_flight := s_in_flight sub + n\<rparr> else sub"])
    (simp_all add: add_in_flight_def)

lemma wf_subs_cong: "wf_subs R \<Longrightarrow> r_subs R' = r_subs R \<Longrightarrow> r_order R' = r_order R \<Longrightarrow> wf_subs R'"
  by (simp add: wf_subs_def)

lemma wf_add_waiter:
  assumes "wf_router u R" "inj u" "ack = u (r_ulids R)"
  shows "wf_router u ((add_in_flight sid 1 (register_ack ack (R\<lparr>r_ulids := Suc (r_ulids R)\<rparr>)))
    \<lparr>r_frames := fs, r_waiters := r_waiters R @ [\<lparr>w_source = src, w_ack = ack, w_session = sid, w_row = row\<rparr>]\<rparr>)"
    (is "wf_router u ?R")
proof -
  let ?R1 = "register_ack ack (R\<lparr>r_ulids := Suc (r_ulids R)\<rparr>)"
  have fresh: "\<not> has_key (r_acks R) ack" using fresh_ack assms by simp
  have "wf_subs ?R1"
    by (rule wf_subs_cong [of R]) (use assms in \<open>simp_all add: wf_router_def register_ack_def\<close>)
  then have "wf_subs ?R" by (rule wf_subs_cong [OF wf_subs_add_in_flight]) simp_all
  moreover have "wf_acks u ?R"
    using assms(1,3) fresh
    by (auto simp: wf_router_def wf_acks_def add_in_flight_def register_ack_def keys_dset has_key_iff lessThan_Suc)
  moreover have "wf_flight ?R"
    using assms(1) by (auto simp: wf_router_def wf_flight_def waiting_def add_in_flight_def register_ack_def)
  ultimately show ?thesis by (simp add: wf_router_def)
qed

lemma wf_send_wake:
  assumes "wf_router u R" "inj u"
  shows "wf_router u (snd (send_wake u link sid dest event src row R))"
proof (cases "link sid (u (r_ulids R))")
  case True
  with wf_add_waiter [OF assms refl] show ?thesis by (simp add: send_wake_def Let_def)
next
  case False
  have "forget_ack (u (r_ulids R)) (register_ack (u (r_ulids R)) (R\<lparr>r_ulids := Suc (r_ulids R)\<rparr>))
      = R\<lparr>r_ulids := Suc (r_ulids R)\<rparr>"
    using fresh_ack [OF assms(2,1)] by (simp add: forget_ack_def register_ack_def dpop_dset_new)
  moreover have "wf_router u (R\<lparr>r_ulids := Suc (r_ulids R)\<rparr>)"
    using assms(1) by (auto simp: wf_router_defs waiting_def lessThan_Suc)
  ultimately show ?thesis using False by (simp add: send_wake_def Let_def wf_evict)
qed

lemma wf_send_to: "wf_router u R \<Longrightarrow> inj u \<Longrightarrow> wf_router u (snd (send_to u link sub dest event src R))"
  using wf_send_wake [of u R link "s_session sub" dest event src None]
  by (cases "send_wake u link (s_session sub) dest event src None R";
      cases "fst (send_wake u link (s_session sub) dest event src None R)")
    (auto simp: send_to_def note_delivered_def intro: wf_router_cong)

lemma wf_undeliverable: "wf_router u R \<Longrightarrow> wf_router u (snd (undeliverable now event d R))"
  by (erule wf_router_cong) (simp_all add: router_simps)

lemma wf_undeliverable_all: "wf_router u R \<Longrightarrow> wf_router u (snd (undeliverable_all now event ns R))"
  by (erule wf_router_cong) (simp_all add: router_simps)

lemma wf_deliver_loop:
  "inj u \<Longrightarrow> wf_router u R \<Longrightarrow> wf_router u (snd (snd (deliver_loop u link event s ds R)))"
proof (induction ds arbitrary: R)
  case (Cons d ds)
  then show ?case
    using wf_send_to [OF Cons.prems(2,1), of link _ d event s]
    by (auto simp: case_prod_beta split: option.splits bool.splits)
qed simp

lemma wf_deliver: "inj u \<Longrightarrow> wf_router u R \<Longrightarrow> wf_router u (snd (deliver u link now event R))"
  by (auto simp: deliver_def Let_def case_prod_beta wf_undeliverable wf_undeliverable_all wf_deliver_loop
      split: sum.splits)

lemma wf_send_pending:
  assumes "inj u" "wf_router u R"
  shows "wf_router u (snd (send_pending u link now sid dest row st R))"
  using assms wf_send_wake
  by (auto simp: send_pending_def split: sum.splits prod.splits intro: wf_router_cong)

lemma wf_send_rows:
  "inj u \<Longrightarrow> wf_router u R \<Longrightarrow> wf_router u (snd (send_rows u link now sid dest rows R))"
  by (induction rows arbitrary: R) (simp_all add: case_prod_beta wf_send_pending split: option.splits)

lemma wf_drain_loop:
  "inj u \<Longrightarrow> wf_router u R \<Longrightarrow> wf_router u (snd (drain_loop u link now sid names R))"
proof (induction names arbitrary: R)
  case (Cons n names)
  have "wf_router u (R\<lparr>r_store := x\<rparr>)" for x by (rule wf_router_cong [OF Cons.prems(2)]) simp_all
  with Cons show ?case
    by (simp add: case_prod_beta wf_send_rows split: option.splits)
qed simp

lemma wf_drain: "inj u \<Longrightarrow> wf_router u R \<Longrightarrow> wf_router u (snd (drain_pending u link now sid R))"
  by (simp add: drain_pending_def wf_drain_loop split: option.splits)

lemma wf_resolve_ack: "wf_router u R \<Longrightarrow> wf_router u (resolve_ack a t R)"
proof -
  assume wf: "wf_router u R"
  have "fst ` set (dset a (Some t) (r_acks R)) = fst ` set (r_acks R)" if "dget (r_acks R) a = Some None"
    using map_of_SomeD [OF that] by (force simp: keys_dset insert_absorb)
  then show ?thesis using wf
    by (auto simp: resolve_ack_def wf_router_defs waiting_def split: option.splits)
qed

lemma waiting_remove1:
  "w \<in> set ws \<Longrightarrow> length (filter P (remove1 w ws)) = length (filter P ws) - (if P w then 1 else 0)"
  by (simp add: filter_remove1 length_remove1)

lemma wf_end_delivery_subs: "wf_subs R \<Longrightarrow> wf_subs (end_delivery sid R)"
  by (simp add: end_delivery_def wf_subs_add_in_flight)

lemma wf_remove_waiter:
  assumes wf: "wf_router u R" and w: "w \<in> set (r_waiters R)"
  shows "wf_router u ((forget_ack (w_ack w) R)\<lparr>r_waiters := remove1 w (r_waiters R)\<rparr>)"
    (is "wf_router u ?R")
proof -
  have d: "distinct (map w_ack (r_waiters R))" using wf by (simp add: wf_router_defs)
  then have "set (remove1 w (r_waiters R)) = set (r_waiters R) - {w}"
    by (simp add: distinct_map set_remove1_eq)
  moreover have "w_ack ` (set (r_waiters R) - {w}) = w_ack ` set (r_waiters R) - {w_ack w}"
    using d w by (auto simp: distinct_map inj_on_def)
  moreover have "distinct (map w_ack (remove1 w (r_waiters R)))"
    using d by (auto simp: distinct_map inj_on_def dest: notin_set_remove1)
  ultimately have "wf_acks u ?R"
    using wf by (auto simp: wf_router_def wf_acks_def forget_ack_def keys_dpop)
  moreover have "wf_subs ?R" by (rule wf_subs_cong [of R]) (use wf in \<open>simp_all add: wf_router_def forget_ack_def\<close>)
  moreover have "wf_flight ?R"
    using wf w by (fastforce simp: wf_router_def wf_flight_def waiting_def forget_ack_def waiting_remove1)
  ultimately show ?thesis by (simp add: wf_router_def)
qed

lemma wf_end_delivery:
  assumes wf: "wf_router u R" and w: "w \<in> set (r_waiters R)"
  shows "wf_router u (end_delivery (w_session w) ((forget_ack (w_ack w) R)\<lparr>r_waiters := remove1 w (r_waiters R)\<rparr>))"
    (is "wf_router u (end_delivery _ ?R)")
proof -
  note R = wf_remove_waiter [OF assms]
  have "wf_flight (end_delivery (w_session w) ?R)"
  proof -
    have "int (waiting ?R k) \<le> s_in_flight sub - (if k = w_session w then 1 else 0)"
      if "(k, sub) \<in> set (r_subs R)" for k sub
    proof -
      have "int (waiting R k) \<le> s_in_flight sub" using wf that by (auto simp: wf_router_defs)
      moreover have "w_session w = k \<Longrightarrow> 0 < waiting R k"
        using w by (auto simp: waiting_def length_greater_0_conv filter_empty_conv)
      moreover have "waiting ?R k = waiting R k - (if w_session w = k then 1 else 0)"
        using w by (simp add: waiting_def waiting_remove1)
      ultimately show ?thesis by (auto simp: of_nat_diff Suc_le_eq simp del: length_greater_0_conv)
    qed
    then have le: "\<forall>(k, sub) \<in> set (r_subs ?R).
        int (waiting ?R k) \<le> s_in_flight sub - (if k = w_session w then 1 else 0)"
      by (auto simp: forget_ack_def)
    have "waiting (add_in_flight sid n ?R) k = waiting ?R k" for sid n k
      by (simp add: waiting_def add_in_flight_def)
    moreover have "wf_flight ?R"
      using R by (simp add: wf_router_def)
    moreover have "wf_flight (add_in_flight (w_session w) (- 1) ?R)"
    proof -
      have "int (waiting ?R k) \<le> s_in_flight (if k = w_session w then sub\<lparr>s_in_flight := s_in_flight sub + - 1\<rparr> else sub)"
        if "(k, sub) \<in> set (r_subs ?R)" for k sub
        using le that by auto
      then show ?thesis
        using \<open>\<And>sid n k. waiting (add_in_flight sid n ?R) k = waiting ?R k\<close>
        by (simp add: wf_flight_def) (simp add: add_in_flight_def split_beta forget_ack_def)
    qed
    ultimately show ?thesis unfolding end_delivery_def by presburger
  qed
  moreover have "wf_acks u (end_delivery (w_session w) ?R)"
    using R by (simp add: wf_router_def wf_acks_def end_delivery_def add_in_flight_def)
  ultimately show ?thesis using R by (simp add: wf_router_def wf_end_delivery_subs)
qed

lemma wf_settle: "wf_router u R \<Longrightarrow> wf_router u (settle_pending row o' R)"
  by (erule wf_router_cong) (simp_all add: settle_pending_def split: option.splits)

lemma wf_finish_wait: "wf_router u R \<Longrightarrow> w \<in> set (r_waiters R) \<Longrightarrow> wf_router u (finish_wait w o' R)"
  by (auto simp: finish_wait_def Let_def wf_settle wf_end_delivery wf_remove_waiter split: option.splits)

subsection \<open>Histories of the router\<close>

text \<open>
  One step is one handler: an ingested event, a subscription (\<open>hello\<close>: the session id is fresh),
  a drain, a disconnect, an ack or nack frame, the end of a waiter (with the answer its future
  holds, or without one on timeout), a config reload, an operation of another component on the
  shared store.
\<close>

inductive router_step ::
  "(nat \<Rightarrow> string) \<Rightarrow> (string \<Rightarrow> string \<Rightarrow> bool) \<Rightarrow> router \<Rightarrow> router \<Rightarrow> bool" for u link where
  Deliver: "router_step u link R (snd (deliver u link now event R))"
| Subscribe: "\<not> has_key (r_subs R) sid \<Longrightarrow> waiting R sid = 0 \<Longrightarrow>
    router_step u link R (note_subscribed ds (subscribe now sid a i srcs ds R))"
| Drain: "router_step u link R (snd (drain_pending u link now sid R))"
| Unsubscribe: "router_step u link R (unsubscribe sid R)"
| Answer: "router_step u link R (resolve_ack ack t R)"
| Settle: "w \<in> set (r_waiters R) \<Longrightarrow> o' = None \<or> dget (r_acks R) (w_ack w) = Some o' \<Longrightarrow>
    router_step u link R (finish_wait w o' R)"
| Reload: "router_step u link R (prune_warning_state (R\<lparr>r_config := cfg\<rparr>))"
| Store_call: "r_store R = Some st \<Longrightarrow> router_step u link R (R\<lparr>r_store := Some (run_op u op st)\<rparr>)"

inductive reachable :: "(nat \<Rightarrow> string) \<Rightarrow> (string \<Rightarrow> string \<Rightarrow> bool) \<Rightarrow> router \<Rightarrow> router \<Rightarrow> bool" for u link where
  refl: "reachable u link R R"
| step: "reachable u link R R' \<Longrightarrow> router_step u link R' R'' \<Longrightarrow> reachable u link R R''"

definition store_ok :: "(nat \<Rightarrow> string) \<Rightarrow> router \<Rightarrow> bool" where
  "store_ok u R \<longleftrightarrow> (case r_store R of None \<Rightarrow> True | Some st \<Rightarrow> wf_store u st)"

lemma store_ok_undeliverable: "store_ok u R \<Longrightarrow> store_ok u (snd (undeliverable now event d R))"
  using wf_enqueue
  by (auto simp: store_ok_def undeliverable_def note_queued_without_delivery_def
      split: option.splits prod.splits bool.splits) (metis snd_conv)+

lemma store_ok_undeliverable_all: "store_ok u R \<Longrightarrow> store_ok u (snd (undeliverable_all now event ns R))"
  by (induction ns arbitrary: R) (simp_all add: case_prod_beta store_ok_undeliverable)

lemma deliver_loop_fields [router_simps]:
  "r_config (snd (snd (deliver_loop u link event s ds R))) = r_config R"
  "r_store (snd (snd (deliver_loop u link event s ds R))) = r_store R"
  by (induction ds arbitrary: R)
    (auto simp: case_prod_beta router_simps split: option.splits bool.splits prod.splits)

lemma store_ok_same: "store_ok u R \<Longrightarrow> r_store R' = r_store R \<Longrightarrow> store_ok u R'"
  by (simp add: store_ok_def)

lemma store_ok_deliver: "store_ok u R \<Longrightarrow> store_ok u (snd (deliver u link now event R))"
proof -
  assume ok: "store_ok u R"
  have "store_ok u (snd (snd (deliver_loop u link event s ds R)))" for s ds
    by (rule store_ok_same [OF ok]) (simp add: router_simps)
  then show ?thesis using ok
    by (auto simp: deliver_def Let_def case_prod_beta store_ok_undeliverable store_ok_undeliverable_all
        split: sum.splits)
qed

lemma store_ok_send_pending:
  assumes "inj u" "store_ok u R" "r_store R = Some st"
  shows "store_ok u (snd (send_pending u link now sid dest row st R))"
  using assms
  by (auto simp: send_pending_def store_ok_def router_simps dead_letter_def wf_delete wf_insert_dead
      split: sum.splits)

lemma store_ok_send_rows:
  "inj u \<Longrightarrow> store_ok u R \<Longrightarrow> store_ok u (snd (send_rows u link now sid dest rows R))"
  by (induction rows arbitrary: R) (simp_all add: case_prod_beta store_ok_send_pending split: option.splits)

lemma store_ok_drain_loop:
  "inj u \<Longrightarrow> store_ok u R \<Longrightarrow> store_ok u (snd (drain_loop u link now sid names R))"
proof (induction names arbitrary: R)
  case (Cons n names)
  have "store_ok u (R\<lparr>r_store := Some (snd (claim_pending now n l st))\<rparr>)" if "r_store R = Some st" for l st
    using Cons.prems(2) that wf_claim by (simp add: store_ok_def)
  with Cons show ?case
    by (simp add: case_prod_beta store_ok_send_rows split: option.splits)
qed simp

lemma store_ok_drain: "inj u \<Longrightarrow> store_ok u R \<Longrightarrow> store_ok u (snd (drain_pending u link now sid R))"
  by (simp add: drain_pending_def store_ok_drain_loop split: option.splits)

lemma finish_wait_store [router_simps]:
  "r_store (finish_wait w o' R) =
     (case w_row w of None \<Rightarrow> r_store R
      | Some row \<Rightarrow> if o' = Some ''ack'' then map_option (delete_pending (p_id row)) (r_store R)
                    else r_store R)"
  by (simp add: finish_wait_def Let_def settle_pending_def forget_ack_def end_delivery_def add_in_flight_def
      split: option.splits)

lemma store_ok_finish_wait: "store_ok u R \<Longrightarrow> store_ok u (finish_wait w o' R)"
  by (simp add: store_ok_def router_simps wf_delete split: option.splits)

lemma step_wf:
  assumes "inj u" "router_step u link R R'" "wf_router u R" "store_ok u R"
  shows "wf_router u R' \<and> store_ok u R'"
  using assms(2)
proof cases
  case (Deliver now event)
  with assms show ?thesis by (simp add: wf_deliver store_ok_deliver)
next
  case (Subscribe sid ds now a i srcs)
  let ?R = "subscribe now sid a i srcs ds R"
  have "wf_router u (note_subscribed ds ?R)"
    by (rule wf_router_cong [OF wf_subscribe [OF assms(3) Subscribe(2,3)]]) (simp_all add: note_subscribed_def)
  with assms(4) Subscribe show ?thesis by (simp add: store_ok_def note_subscribed_def subscribe_def)
next
  case (Drain now sid)
  with assms show ?thesis by (simp add: wf_drain store_ok_drain)
next
  case (Unsubscribe sid)
  with assms show ?thesis by (simp add: wf_unsubscribe store_ok_def router_simps)
next
  case (Answer ack t)
  have "r_store (resolve_ack ack t R) = r_store R" by (simp add: resolve_ack_def split: option.splits)
  with assms Answer show ?thesis by (simp add: wf_resolve_ack store_ok_def)
next
  case (Settle w o')
  with assms show ?thesis by (simp add: wf_finish_wait store_ok_finish_wait)
next
  case (Reload cfg)
  have "wf_router u R'"
    by (rule wf_router_cong [OF assms(3)]) (simp_all add: Reload prune_warning_state_def Let_def)
  with assms(4) Reload show ?thesis by (simp add: store_ok_def prune_warning_state_def Let_def)
next
  case (Store_call st op)
  have "wf_router u R'" by (rule wf_router_cong [OF assms(3)]) (simp_all add: Store_call)
  with assms Store_call show ?thesis by (simp add: store_ok_def wf_run_op)
qed

lemma reachable_wf:
  assumes "inj u" "reachable u link R0 R" "wf_router u R0" "store_ok u R0"
  shows "wf_router u R \<and> store_ok u R"
  using assms(2-) by induction (use step_wf [OF assms(1)] in blast)+

end
