(* ===== verification/Router_Props.thy ===== *)
theory Router_Props
  imports Router_Invariant "HOL-Library.Sublist"
begin

section \<open>What the router promises\<close>

text \<open>
  Which frames a delivery or a drain may write and to whom, the outcome reported to ingest, how
  queue rows are settled, and the cases in which the outcome promises more than was stored.
\<close>

subsection \<open>Who is addressed\<close>

text \<open>Session \<open>sid\<close> is connected, claims \<open>d\<close> and has the adapter \<open>d\<close> is configured for.\<close>

definition served_by :: "router \<Rightarrow> string \<Rightarrow> destination \<Rightarrow> bool" where
  "served_by R sid d \<longleftrightarrow> (case dget (r_subs R) sid of None \<Rightarrow> False | Some sub \<Rightarrow> serves d sub)"

lemma first_serving_Some:
  "first_serving subs d sids = Some sub \<Longrightarrow> \<exists>sid \<in> set sids. dget subs sid = Some sub \<and> serves d sub"
  by (induction sids) (auto split: option.splits if_splits)

lemma subscriber_for_served:
  assumes "wf_subs R" "subscriber_for R d = Some sub"
  shows "served_by R (s_session sub) d"
proof -
  from assms(2) obtain sid where sid: "dget (r_subs R) sid = Some sub" "serves d sub"
    unfolding subscriber_for_def by (blast dest: first_serving_Some)
  then have "(sid, sub) \<in> set (r_subs R)" by (simp add: map_of_SomeD)
  with assms(1) have "s_session sub = sid" by (auto simp: wf_subs_def)
  with sid show ?thesis by (simp add: served_by_def)
qed

lemma dget_add_in_flight:
  "dget (r_subs (add_in_flight sid n R)) k =
     map_option (\<lambda>sub. if k = sid then sub\<lparr>s_in_flight := s_in_flight sub + n\<rparr> else sub) (dget (r_subs R) k)"
  by (simp add: add_in_flight_def dget_map_snd)

lemma serves_in_flight [simp]: "serves d (sub\<lparr>s_in_flight := n\<rparr>) = serves d sub"
  by (simp add: serves_def)

lemma served_by_send_wake:
  "served_by (snd (send_wake u link sid dest event src row R)) k d \<Longrightarrow> served_by R k d"
  by (auto simp: served_by_def send_wake_def Let_def register_ack_def forget_ack_def dget_add_in_flight
      router_simps dget_dpop split: option.splits if_splits)

lemma served_by_send_to:
  "served_by (snd (send_to u link sub dest event src R)) k d \<Longrightarrow> served_by R k d"
  using served_by_send_wake [of u link "s_session sub" dest event src None R]
  by (cases "send_wake u link (s_session sub) dest event src None R";
      cases "fst (send_wake u link (s_session sub) dest event src None R)")
    (auto simp: send_to_def note_delivered_def served_by_def)

lemma deliver_loop_frames:
  assumes "inj u"
  shows "wf_router u R \<Longrightarrow> deliver_loop u link event s ds R = (n, und, R') \<Longrightarrow>
    \<exists>fs. r_frames R' = r_frames R @ fs \<and> length fs = n \<and> length und = length ds - n
      \<and> subseq (map (fst \<circ> snd) fs) ds \<and> (\<forall>(sid, d, e) \<in> set fs. e = event \<and> served_by R sid d)"
proof (induction ds arbitrary: R n und)
  case (Cons d ds)
  show ?case
  proof (cases "subscriber_for R d")
    case None
    with Cons.prems(2) obtain und' where und':
      "deliver_loop u link event s ds R = (n, und', R')" "und = d_name d # und'"
      by (auto split: prod.splits)
    from Cons.IH [OF Cons.prems(1) und'(1)] obtain fs where fs:
      "r_frames R' = r_frames R @ fs" "length fs = n" "length und' = length ds - n"
      "subseq (map (fst \<circ> snd) fs) ds" "\<forall>(sid, d, e) \<in> set fs. e = event \<and> served_by R sid d" by blast
    have "n \<le> length ds" using fs(2,4) by (metis length_map list_emb_length)
    with fs und'(2) show ?thesis by (intro exI [of _ fs]) (auto simp: Suc_diff_le comp_def intro: list_emb_Cons)
  next
    case (Some sub)
    note R = Cons.prems(1)
    let ?p = "send_to u link sub d event s R"
    from Cons.prems(2) Some obtain m und' where loop:
      "deliver_loop u link event s ds (snd ?p) = (m, und', R')"
      "n = (if fst ?p then Suc m else m)" "und = (if fst ?p then und' else d_name d # und')"
      by (cases ?p) (auto split: prod.splits bool.splits)
    from Cons.IH [OF wf_send_to [OF R assms] loop(1)] obtain fs where fs:
      "r_frames R' = r_frames (snd ?p) @ fs" "length fs = m" "length und' = length ds - m"
      "subseq (map (fst \<circ> snd) fs) ds" "\<forall>(sid, d, e) \<in> set fs. e = event \<and> served_by (snd ?p) sid d"
      by blast
    have le: "m \<le> length ds" using fs(2,4) by (metis length_map list_emb_length)
    have served: "served_by R (s_session sub) d"
      using R Some by (simp add: wf_router_def subscriber_for_served)
    show ?thesis
      using fs loop(2,3) le served served_by_send_to [of u link sub d event s R]
      by (intro exI [of _ "(if fst ?p then [(s_session sub, d, event)] else []) @ fs"])
        (auto simp: router_simps Suc_diff_le comp_def intro: list_emb_Cons)
  qed
qed auto

subsection \<open>The invariant of a running daemon\<close>

text \<open>Claim C6: in every state a running router reaches, each connected session owes at least
  as many frames as ack waiters are open for it (so the heartbeat never sees an idle count
  while a delivery is pending), the connection order lists exactly the connected sessions, each
  once, every open waiter has its own ack future, and the store is well formed.\<close>

theorem router_invariant:
  assumes "inj u" and "reachable u link (new_router cfg st0) R"
    and "\<And>st. st0 = Some st \<Longrightarrow> wf_store u st"
  shows "(\<forall>sid. has_key (r_subs R) sid \<longrightarrow> int (waiting R sid) \<le> in_flight_for R sid)
    \<and> distinct (r_order R) \<and> set (r_order R) = fst ` set (r_subs R)
    \<and> distinct (map w_ack (r_waiters R)) \<and> set (map w_ack (r_waiters R)) = fst ` set (r_acks R)
    \<and> (case r_store R of None \<Rightarrow> True | Some st \<Rightarrow> wf_store u st)"
proof -
  have "wf_router u R \<and> store_ok u R"
    by (rule reachable_wf [OF assms(1,2) wf_new_router])
      (use assms(3) in \<open>simp add: store_ok_def new_router_def split: option.splits\<close>)
  moreover from this have "int (waiting R sid) \<le> in_flight_for R sid" if "has_key (r_subs R) sid" for sid
  proof -
    from that obtain sub where sub: "dget (r_subs R) sid = Some sub" by (auto simp: has_key_def)
    then have "(sid, sub) \<in> set (r_subs R)" by (rule map_of_SomeD)
    with \<open>wf_router u R \<and> store_ok u R\<close> sub show ?thesis
      by (fastforce simp: wf_router_def wf_flight_def in_flight_for_def)
  qed
  ultimately show ?thesis by (auto simp: wf_router_defs store_ok_def)
qed

definition demo_cfg :: cfg where
  "demo_cfg =
     [(''senders'', VDict [(''ci'', VDict []), (''ops'', VDict [])]),
      (''destinations'', VDict [(''desk'', VDict [(''adapter'', VStr ''claude'')]),
                               (''lab'', VDict [(''adapter'', VStr ''claude'')]),
                               (''ops'', VDict [(''adapter'', VStr ''claude'')])]),
      (''routes'', VList [VDict [(''sender'', VStr ''ci''), (''destinations'', VList [VStr ''desk'', VStr ''lab''])]])]"

definition demo_wake :: dict where
  "demo_wake = [(''event_id'', VStr ''e1''), (''source'', VStr ''ci''),
     (''meta'', VDict [(''delivery'', VStr ''next_session'')])]"

definition demo_link :: "string \<Rightarrow> string \<Rightarrow> bool" where "demo_link sid ack = True"

definition demo_router :: router where
  "demo_router = subscribe 0 ''s1'' ''claude'' ''i'' [] [''desk''] (new_router demo_cfg (Some new_store))"

lemma wf_demo_router: "wf_router demo_ulid demo_router"
  by (simp add: demo_router_def wf_router_defs subscribe_def new_router_def waiting_def wf_dict_def)

lemma demo_router_fields: "r_config demo_router = demo_cfg" "r_store demo_router = Some new_store"
  by (simp_all add: demo_router_def subscribe_def new_router_def)

lemma reach_demo_router:
  "reachable demo_ulid demo_link (new_router demo_cfg (Some new_store)) (note_subscribed [''desk''] demo_router)"
  unfolding demo_router_def
  by (rule step [OF refl], rule Subscribe) (simp_all add: new_router_def has_key_def waiting_def)

theorem router_invariant_witness:
  "int (waiting (note_subscribed [''desk''] demo_router) ''s1'') \<le> in_flight_for (note_subscribed [''desk''] demo_router) ''s1''"
proof -
  have "has_key (r_subs (note_subscribed [''desk''] demo_router)) ''s1''"
    by (simp add: has_key_def note_subscribed_def demo_router_def subscribe_def dget_dset)
  then show ?thesis
    using router_invariant [OF inj_demo_ulid reach_demo_router] wf_new_store by blast
qed

subsection \<open>Delivery\<close>

lemma deliver_frames:
  assumes "inj u" and "wf_router u R"
  shows "\<exists>fs. r_frames (snd (deliver u link now event R)) = r_frames R @ fs
    \<and> subseq (map (fst \<circ> snd) fs) (case resolve_addressing R event of Inl e \<Rightarrow> [] | Inr ds \<Rightarrow> ds)
    \<and> (\<forall>(sid, d, e) \<in> set fs. e = event \<and> served_by R sid d)"
proof (cases "resolve_addressing R event")
  case (Inr ds)
  obtain n und R1 where loop: "deliver_loop u link event (get_str event ''source'' []) ds R = (n, und, R1)"
    by (metis prod_cases3)
  have "r_frames (snd (deliver u link now event R)) = (if ds = [] then r_frames R else r_frames R1)"
    using Inr loop by (simp add: deliver_def Let_def case_prod_beta router_simps)
  with deliver_loop_frames [OF assms loop] Inr show ?thesis by auto
qed (simp add: deliver_def)

text \<open>Claim C8: A delivery writes the event only to sessions that serve a destination the sender
  is routed to (within the narrowing it asked for): the frames it adds go, in the order of the
  resolved destinations and at most one each, to connected sessions that claim the destination
  and have the adapter it is configured for.  A refused event writes nothing.\<close>

theorem deliver_only_routed:
  assumes "inj u" and "wf_router u R"
  shows "\<exists>fs. r_frames (snd (deliver u link now event R)) = r_frames R @ fs
    \<and> subseq (map (fst \<circ> snd) fs) (case resolve_addressing R event of Inl e \<Rightarrow> [] | Inr ds \<Rightarrow> ds)
    \<and> (\<forall>(sid, d, e) \<in> set fs. e = event \<and> served_by R sid d)"
  by (rule deliver_frames [OF assms])

theorem deliver_only_routed_witness:
  "\<exists>fs. r_frames (snd (deliver demo_ulid demo_link 1 demo_wake demo_router)) = r_frames demo_router @ fs
    \<and> (\<forall>(sid, d, e) \<in> set fs. e = demo_wake \<and> served_by demo_router sid d)"
  using deliver_only_routed [OF inj_demo_ulid wf_demo_router, of demo_link 1 demo_wake] by blast

lemma undeliverable_status:
  "fst (undeliverable now event d R) =
     (if delivery_mode (r_config R) event \<in> set DURABLE_MODES \<and> r_store R \<noteq> None
      then Queued_next_session else No_subscriber)"
  by (simp add: undeliverable_def split: option.splits prod.splits bool.splits)

lemma undeliverable_keeps_store: "(r_store (snd (undeliverable now event d R)) = None) = (r_store R = None)"
  by (simp add: undeliverable_def note_queued_without_delivery_def split: option.splits prod.splits bool.splits)

lemma undeliverable_all_status:
  "Queued_next_session \<in> set (fst (undeliverable_all now event ns R)) \<longleftrightarrow>
     ns \<noteq> [] \<and> delivery_mode (r_config R) event \<in> set DURABLE_MODES \<and> r_store R \<noteq> None"
  by (induction ns arbitrary: R)
    (auto simp: case_prod_beta undeliverable_status router_simps undeliverable_keeps_store
      simp del: not_None_eq)

text \<open>What the status reported to ingest means.  An addressing error is reported as
  such and leaves the router untouched; otherwise \<open>queued\<close> says that a live session took a copy,
  \<open>queued_next_session\<close> that none did but the event asked for durable delivery and a store is
  configured, \<open>no_subscriber\<close> that neither holds.\<close>

theorem deliver_status:
  assumes "inj u" and "wf_router u R"
  shows "fst (deliver u link now event R) =
      (case resolve_addressing R event of
         Inl e \<Rightarrow> Refused e
       | Inr ds \<Rightarrow>
           if r_frames (snd (deliver u link now event R)) \<noteq> r_frames R then Queued
           else if delivery_mode (r_config R) event \<in> set DURABLE_MODES \<and> r_store R \<noteq> None
           then Queued_next_session else No_subscriber)
    \<and> (fst (deliver u link now event R) = Refused e \<longrightarrow> snd (deliver u link now event R) = R)"
proof (cases "resolve_addressing R event")
  case (Inr ds)
  obtain n und R1 where loop: "deliver_loop u link event (get_str event ''source'' []) ds R = (n, und, R1)"
    by (metis prod_cases3)
  from deliver_loop_frames [OF assms loop] obtain fs where fs:
    "r_frames R1 = r_frames R @ fs" "length fs = n" "length und = length ds - n" by blast
  have same: "r_config R1 = r_config R" "r_store R1 = r_store R"
    using deliver_loop_fields [of u link event "get_str event ''source'' []" ds R] loop by simp_all
  have und: "und \<noteq> []" if "n = 0" "ds \<noteq> []" using fs(3) that by auto
  show ?thesis
    using Inr loop fs same und
    by (auto simp: deliver_def Let_def case_prod_beta undeliverable_status undeliverable_all_status router_simps)
qed (simp add: deliver_def)

theorem deliver_status_witness:
  "fst (deliver demo_ulid demo_link 1 demo_wake demo_router) =
     (case resolve_addressing demo_router demo_wake of
        Inl e \<Rightarrow> Refused e
      | Inr ds \<Rightarrow>
          if r_frames (snd (deliver demo_ulid demo_link 1 demo_wake demo_router)) \<noteq> r_frames demo_router then Queued
          else if delivery_mode (r_config demo_router) demo_wake \<in> set DURABLE_MODES \<and> r_store demo_router \<noteq> None
          then Queued_next_session else No_subscriber)"
  by (rule conjunct1 [OF deliver_status [OF inj_demo_ulid wf_demo_router, where e = destination_not_routed]])

subsection \<open>What a delivery stores\<close>

text \<open>\<open>st'\<close> is \<open>st\<close>, or \<open>st\<close> with the event queued last for destination \<open>d\<close>.\<close>

definition queued_at_most :: "pytime \<Rightarrow> dict \<Rightarrow> store \<Rightarrow> store \<Rightarrow> bool" where
  "queued_at_most now event st st' \<longleftrightarrow>
     st' = st \<or> (\<exists>d. st' = snd (enqueue_pending now event d st) \<and> fst (enqueue_pending now event d st))"

lemma undeliverable_store:
  "r_store R = Some st \<Longrightarrow>
   r_store (snd (undeliverable now event d R)) =
     (if delivery_mode (r_config R) event \<in> set DURABLE_MODES
      then Some (snd (enqueue_pending now event d st)) else Some st)"
  by (simp add: undeliverable_def note_queued_without_delivery_def split: prod.splits bool.splits)

lemma enqueue_twice:
  "fst (enqueue_pending now event d st) \<Longrightarrow>
   enqueue_pending now event d' (snd (enqueue_pending now event d st)) =
     (False, snd (enqueue_pending now event d st))"
  by (auto simp: enqueue_pending_def Let_def mk_pending_def split: if_splits)

lemma enqueue_refused: "\<not> fst (enqueue_pending now event d st) \<Longrightarrow> enqueue_pending now event d st = (False, st)"
  by (auto simp: enqueue_pending_def Let_def split: if_splits)

lemma queued_at_most_enqueue:
  assumes "queued_at_most now event st st'"
  shows "queued_at_most now event st (snd (enqueue_pending now event d st'))"
proof (cases "fst (enqueue_pending now event d st')")
  case True
  with assms enqueue_twice have "st' = st" unfolding queued_at_most_def by (metis fst_conv)
  with True show ?thesis by (auto simp: queued_at_most_def)
next
  case False
  with assms show ?thesis by (simp add: enqueue_refused)
qed

lemma undeliverable_all_store:
  "r_store R = Some st' \<Longrightarrow> queued_at_most now event st st' \<Longrightarrow>
   \<exists>st''. r_store (snd (undeliverable_all now event ns R)) = Some st'' \<and> queued_at_most now event st st''"
proof (induction ns arbitrary: R st')
  case (Cons n ns)
  have "\<exists>st1. r_store (snd (undeliverable now event (Some n) R)) = Some st1 \<and> queued_at_most now event st st1"
    using Cons.prems by (simp add: undeliverable_store queued_at_most_enqueue)
  with Cons.IH show ?case by (auto simp: case_prod_beta)
qed simp

text \<open>However many of its destinations have no live subscriber, one delivery adds at
  most one row to the durable queue: the first destination that needs it takes the row, and the
  event is not stored for the others.\<close>

theorem fanout_queues_one_row:
  assumes "r_store R = Some st"
  shows "\<exists>st'. r_store (snd (deliver u link now event R)) = Some st'
    \<and> queued_at_most now event st st' \<and> length (st_pending st') \<le> Suc (length (st_pending st))"
proof -
  have self: "queued_at_most now event st st" by (simp add: queued_at_most_def)
  have "\<exists>st'. r_store (snd (deliver u link now event R)) = Some st' \<and> queued_at_most now event st st'"
  proof (cases "resolve_addressing R event")
    case (Inr ds)
    let ?R = "snd (snd (deliver_loop u link event (get_str event ''source'' []) ds R))"
    have "r_store ?R = Some st" using assms by (simp add: router_simps)
    with undeliverable_all_store [OF _ self] Inr show ?thesis
      by (auto simp: deliver_def Let_def case_prod_beta undeliverable_store [OF assms] self queued_at_most_enqueue)
  qed (simp add: deliver_def assms self)
  moreover have "length (st_pending st') \<le> Suc (length (st_pending st))" if "queued_at_most now event st st'" for st'
    using that by (auto simp: queued_at_most_def enqueue_pending_def Let_def)
  ultimately show ?thesis by blast
qed

text \<open>Both destinations of the sender are offline and one of them is lost.\<close>

definition demo_offline :: router where "demo_offline = new_router demo_cfg (Some new_store)"

theorem fanout_queues_one_row_witness:
  "\<exists>st'. r_store (snd (deliver demo_ulid demo_link 1 demo_wake demo_offline)) = Some st'
    \<and> length (st_pending st') \<le> 1"
proof -
  have st: "r_store demo_offline = Some new_store" "st_pending new_store = []"
    by (simp_all add: demo_offline_def new_router_def new_store_def)
  show ?thesis using fanout_queues_one_row [OF st(1), of demo_ulid demo_link 1 demo_wake] st(2) by auto
qed

lemma first_serving_None:
  "first_serving subs d sids = None \<longleftrightarrow> (\<forall>sid \<in> set sids. \<forall>sub. dget subs sid = Some sub \<longrightarrow> \<not> serves d sub)"
  by (induction sids) (auto split: option.splits)

lemma deliver_loop_idle:
  "\<forall>d \<in> set ds. subscriber_for R d = None \<Longrightarrow> deliver_loop u link event s ds R = (0, map d_name ds, R)"
  by (induction ds) auto

lemma undeliverable_all_full:
  assumes "delivery_mode (r_config R) event \<in> set DURABLE_MODES" "r_store R = Some st"
    and "pending_max_rows st \<le> int (length (st_pending st))"
  shows "undeliverable_all now event ns R = (map (\<lambda>_. Queued_next_session) ns, R)"
proof -
  have "enqueue_pending now event d st = (False, st)" for d
    using assms(3) by (simp add: enqueue_pending_def Let_def)
  moreover have "R\<lparr>r_store := Some st\<rparr> = R" using assms(2) by simp
  ultimately have "undeliverable now event d R = (Queued_next_session, R)" for d
    using assms(1,2) by (simp add: undeliverable_def)
  then show ?thesis by (induction ns) simp_all
qed

text \<open>A full queue loses the event silently.  When no destination has a live
  subscriber and the queue is at its cap, the sender is told \<open>queued_next_session\<close> although
  neither a frame was written nor a row stored: the router is unchanged.\<close>

theorem full_queue_reports_queued:
  assumes "resolve_addressing R event = Inr ds" and "ds \<noteq> []"
    and "\<forall>d \<in> set ds. subscriber_for R d = None"
    and "delivery_mode (r_config R) event \<in> set DURABLE_MODES"
    and "r_store R = Some st" and "pending_max_rows st \<le> int (length (st_pending st))"
  shows "deliver u link now event R = (Queued_next_session, R)"
  using assms
  by (simp add: deliver_def deliver_loop_idle undeliverable_all_full [OF assms(4-6)] image_constant_conv)

definition demo_full :: router where
  "demo_full = new_router demo_cfg (Some (new_store\<lparr>pending_max_rows := 0\<rparr>))"

lemma demo_resolves:
  "case resolve_addressing demo_full demo_wake of Inr ds \<Rightarrow> map d_name ds = [''desk'', ''lab''] | Inl _ \<Rightarrow> False"
  by code_simp

lemma demo_durable: "delivery_mode demo_cfg demo_wake \<in> set DURABLE_MODES"
  by code_simp

theorem full_queue_reports_queued_witness:
  "deliver demo_ulid demo_link 1 demo_wake demo_full = (Queued_next_session, demo_full)"
proof -
  from demo_resolves obtain ds where ds: "resolve_addressing demo_full demo_wake = Inr ds" "ds \<noteq> []"
    by (auto split: sum.splits)
  have fields: "r_config demo_full = demo_cfg" "r_store demo_full = Some (new_store\<lparr>pending_max_rows := 0\<rparr>)"
    by (simp_all add: demo_full_def new_router_def)
  have "subscriber_for demo_full d = None" for d
    by (simp add: subscriber_for_def demo_full_def new_router_def)
  then show ?thesis
    by (intro full_queue_reports_queued [OF ds _ _ fields(2)]) (simp_all only: fields demo_durable, simp_all)
qed

text \<open>A durable event no route covers is queued for the destination that has its
  sender's own name, so the routes do not keep it from that destination: it is claimed by the
  next session that serves it.\<close>

theorem unrouted_event_reaches_namesake:
  assumes "resolve_addressing R event = Inr []"
    and "delivery_mode (r_config R) event \<in> set DURABLE_MODES" and "r_store R = Some st"
    and "fst (enqueue_pending now event None st)" and "now' < now + pending_ttl st" and "limit < 0"
  shows "fst (deliver u link now event R) = Queued_next_session
    \<and> (\<exists>st' row. r_store (snd (deliver u link now event R)) = Some st'
         \<and> row \<in> set (claimable now' (get_str event ''source'' []) limit st') \<and> p_event row = event)"
proof -
  have "st_pending (snd (enqueue_pending now event None st)) = st_pending st @ [mk_pending now event None st]"
    using assms(4) by (auto simp: enqueue_pending_def Let_def split: if_splits)
  then have "mk_pending now event None st
      \<in> set (claimable now' (get_str event ''source'' []) limit (snd (enqueue_pending now event None st)))"
    using assms(5,6) by (simp add: claimable_def sql_limit_def addressed_to_def mk_pending_def Let_def)
  moreover have "p_event (mk_pending now event None st) = event" by (simp add: mk_pending_def Let_def)
  ultimately show ?thesis
    using assms by (auto simp: deliver_def undeliverable_status undeliverable_store)
qed

definition demo_stray :: dict where
  "demo_stray = [(''event_id'', VStr ''e2''), (''source'', VStr ''ops''),
     (''meta'', VDict [(''delivery'', VStr ''next_session'')])]"

lemma demo_stray_facts:
  "resolve_addressing demo_offline demo_stray = Inr []"
  "delivery_mode demo_cfg demo_stray \<in> set DURABLE_MODES"
  "get_str demo_stray ''source'' [] = ''ops''"
  "get_str demo_stray ''event_id'' [] = ''e2''"
  by code_simp+

theorem unrouted_event_reaches_namesake_witness:
  "routed_destinations demo_cfg ''ops'' = [] \<and> has_key (destination_table demo_cfg) ''ops''
   \<and> (\<exists>st' row. r_store (snd (deliver demo_ulid demo_link 1 demo_stray demo_offline)) = Some st'
        \<and> row \<in> set (claimable 2 ''ops'' (- 1) st') \<and> p_event row = demo_stray)"
proof (intro conjI)
  have fields: "r_config demo_offline = demo_cfg" "r_store demo_offline = Some new_store"
    by (simp_all add: demo_offline_def new_router_def)
  have "fst (enqueue_pending 1 demo_stray None new_store)"
    by (simp add: enqueue_pending_def Let_def demo_stray_facts new_store_def DEFAULT_PENDING_MAX_ROWS_def)
  moreover have "(2::pytime) < 1 + pending_ttl new_store"
    by (simp add: new_store_def DEFAULT_PENDING_TTL_SECONDS_def)
  ultimately show "\<exists>st' row. r_store (snd (deliver demo_ulid demo_link 1 demo_stray demo_offline)) = Some st'
        \<and> row \<in> set (claimable 2 ''ops'' (- 1) st') \<and> p_event row = demo_stray"
    using unrouted_event_reaches_namesake [OF demo_stray_facts(1) _ fields(2), of 1 2 "- 1" demo_ulid demo_link]
      demo_stray_facts(2,3) by (simp add: fields(1))
qed (code_simp, code_simp)

end
