(* ===== verification/Drain_Props.thy ===== *)
theory Drain_Props
  imports Router_Props
begin

section \<open>Draining the queue and settling its rows\<close>

text \<open>
  Which queued events a drain writes and to whom, that it loses none, and how an ack, a nack or
  a timeout settles a row.
\<close>

subsection \<open>Where the rows come from\<close>

text \<open>\<open>r\<close> is a row of \<open>st0\<close> with at least as many (\<open>n\<close> more) attempts.\<close>

definition row_of :: "int \<Rightarrow> store \<Rightarrow> pending_row \<Rightarrow> bool" where
  "row_of n st0 r \<longleftrightarrow>
     (\<exists>r0 \<in> set (st_pending st0). \<exists>k \<ge> n. r = r0\<lparr>p_attempts := p_attempts r0 + k\<rparr>)"

definition kept_or_dead :: "store \<Rightarrow> pending_row \<Rightarrow> bool" where
  "kept_or_dead st r \<longleftrightarrow>
     (\<exists>r' \<in> set (st_pending st). p_id r' = p_id r \<and> p_event r' = p_event r)
   \<or> (\<exists>d \<in> set (st_dead st). dl_kind d = ''next_session'' \<and> dl_ref_id d = p_event_id r
        \<and> dl_payload d = p_event r \<and> pending_max_attempts st \<le> dl_attempts d)"

definition drain_inv :: "store \<Rightarrow> store \<Rightarrow> bool" where
  "drain_inv st0 st \<longleftrightarrow> (\<forall>r \<in> set (st_pending st). row_of 0 st0 r)
     \<and> (\<forall>r \<in> set (st_pending st0). kept_or_dead st r)
     \<and> pending_max_attempts st = pending_max_attempts st0"

lemma drain_inv_refl: "drain_inv st st"
proof -
  have "row_of 0 st r" if "r \<in> set (st_pending st)" for r
    unfolding row_of_def by (rule bexI [OF _ that], rule exI [of _ 0]) simp
  then show ?thesis by (auto simp: drain_inv_def kept_or_dead_def)
qed

lemma row_of_bump: "row_of n st0 r \<Longrightarrow> row_of (n + 1) st0 (r\<lparr>p_attempts := p_attempts r + 1\<rparr>)"
proof -
  assume "row_of n st0 r"
  then obtain r0 k where "r0 \<in> set (st_pending st0)" "n \<le> k" "r = r0\<lparr>p_attempts := p_attempts r0 + k\<rparr>"
    by (auto simp: row_of_def)
  then show ?thesis unfolding row_of_def
    by (intro bexI [of _ r0] exI [of _ "k + 1"]) simp_all
qed

lemma row_of_mono: "row_of n st0 r \<Longrightarrow> m \<le> n \<Longrightarrow> row_of m st0 r"
  unfolding row_of_def by (meson order_trans)

lemma claimed_rows:
  assumes "drain_inv st0 st" "r \<in> set (fst (claim_pending now name limit st))"
  shows "row_of 1 st0 r \<and> addressed_to name r \<and> now < p_expires_at r"
proof -
  from assms(2) sql_limit_subset [of limit] obtain r1 where
    "r1 \<in> set (st_pending st)" "r = r1\<lparr>p_attempts := p_attempts r1 + 1\<rparr>" "addressed_to name r1" "now < p_expires_at r1"
    by (fastforce simp: claim_pending_def Let_def claimable_def)
  with assms(1) row_of_bump [of 0 st0 r1] show ?thesis by (auto simp: drain_inv_def addressed_to_def)
qed

lemma drain_inv_claim:
  assumes "drain_inv st0 st"
  shows "drain_inv st0 (snd (claim_pending now name limit st))"
proof -
  let ?st = "snd (claim_pending now name limit st)"
  let ?f = "\<lambda>r. if p_id r \<in> p_id ` set (claimable now name limit st) then r\<lparr>p_attempts := p_attempts r + 1\<rparr> else r"
  have st: "st_pending ?st = map ?f (st_pending st)" "st_dead ?st = st_dead st"
    "pending_max_attempts ?st = pending_max_attempts st"
    by (simp_all add: claim_pending_def Let_def bump_attempts_def)
  have "row_of 0 st0 (?f r)" if "row_of 0 st0 r" for r
    using that row_of_mono [OF row_of_bump [OF that]] by simp
  moreover have "kept_or_dead ?st r" if "kept_or_dead st r" for r
  proof -
    have "\<exists>r' \<in> ?f ` set (st_pending st). p_id r' = p_id r \<and> p_event r' = p_event r"
      if "r' \<in> set (st_pending st)" "p_id r' = p_id r" "p_event r' = p_event r" for r'
      using that by (intro bexI [of _ "?f r'"]) auto
    with that show ?thesis unfolding kept_or_dead_def st set_map by blast
  qed
  ultimately show ?thesis using assms unfolding drain_inv_def st set_map by blast
qed

lemma drain_inv_exhausted:
  assumes "drain_inv st0 st" "wf_pending st0" "row_of n st0 row" "pending_max_attempts st < p_attempts row"
  shows "drain_inv st0 (delete_pending (p_id row)
    (insert_dead u now ''next_session'' (p_source row) (p_event_id row) (p_event row) err (p_attempts row - 1) st))"
    (is "drain_inv st0 ?st")
proof -
  let ?d = "mk_dead u now ''next_session'' (p_source row) (p_event_id row) (p_event row) err (p_attempts row - 1) st"
  have st: "st_pending ?st = filter (\<lambda>r. p_id r \<noteq> p_id row) (st_pending st)" "st_dead ?st = st_dead st @ [?d]"
    "pending_max_attempts ?st = pending_max_attempts st"
    by (simp_all add: delete_pending_def store_simps)
  have "kept_or_dead ?st r" if r: "r \<in> set (st_pending st0)" for r
  proof (cases "p_id r = p_id row")
    case True
    from assms(3) obtain r0 k where r0: "r0 \<in> set (st_pending st0)" "row = r0\<lparr>p_attempts := p_attempts r0 + k\<rparr>"
      by (auto simp: row_of_def)
    then have "p_id r0 = p_id row" by simp
    with True r r0(1) wf_pending_distinct [OF assms(2)] have "r = r0"
      by (metis distinct_map inj_onD)
    with r0(2) have "p_event_id row = p_event_id r" "p_event row = p_event r" by simp_all
    with assms(4) have "dl_kind ?d = ''next_session''" "dl_ref_id ?d = p_event_id r" "dl_payload ?d = p_event r"
      "pending_max_attempts ?st \<le> dl_attempts ?d" unfolding st by (simp_all add: mk_dead_def)
    then show ?thesis unfolding kept_or_dead_def st(2) by auto
  next
    case False
    with assms(1) r show ?thesis unfolding kept_or_dead_def drain_inv_def st by fastforce
  qed
  with assms(1) show ?thesis by (auto simp: drain_inv_def st)
qed

subsection \<open>One drain\<close>

text \<open>A frame a drain of session \<open>sid\<close> may write: the event of a queued row of \<open>st\<close> that has not
  expired, has attempts left and is addressed to the destination \<open>d\<close> that \<open>sid\<close> serves.\<close>

definition drained_frame :: "router \<Rightarrow> store \<Rightarrow> pytime \<Rightarrow> string \<Rightarrow> string \<times> destination \<times> dict \<Rightarrow> bool" where
  "drained_frame R st now sid f \<longleftrightarrow>
     (case f of (s, d, e) \<Rightarrow> s = sid \<and> served_by R sid d
        \<and> (\<exists>r \<in> set (st_pending st). e = p_event r \<and> addressed_to (d_name d) r \<and> now < p_expires_at r
             \<and> p_attempts r < pending_max_attempts st))"

lemma row_of_addressed: "row_of n st0 r \<Longrightarrow> \<exists>r0 \<in> set (st_pending st0). p_event r = p_event r0
    \<and> p_expires_at r = p_expires_at r0 \<and> (\<forall>d. addressed_to d r = addressed_to d r0) \<and> p_attempts r0 + n \<le> p_attempts r"
  by (force simp: row_of_def addressed_to_def)

lemma send_pending_drains:
  assumes "drain_inv st0 st" "wf_pending st0" "r_store R = Some st"
    and "row_of 1 st0 row" "addressed_to (d_name d) row" "now < p_expires_at row" "served_by R0 sid d"
  shows "\<exists>fs st'. r_frames (snd (send_pending u link now sid d row st R)) = r_frames R @ fs
    \<and> (\<forall>f \<in> set fs. drained_frame R0 st0 now sid f)
    \<and> r_store (snd (send_pending u link now sid d row st R)) = Some st' \<and> drain_inv st0 st'"
proof (cases "pending_max_attempts st < p_attempts row")
  case True
  then show ?thesis using drain_inv_exhausted [OF assms(1,2,4)] assms(3)
    by (auto simp: send_pending_def dead_letter_def DEAD_LETTER_KINDS_def)
next
  case False
  have max: "pending_max_attempts st = pending_max_attempts st0" using assms(1) by (simp add: drain_inv_def)
  have "drained_frame R0 st0 now sid (sid, d, p_event row)"
    using row_of_addressed [OF assms(4)] assms(5-7) False max by (fastforce simp: drained_frame_def)
  with False assms(1,3) show ?thesis
    by (simp add: send_pending_def router_simps)
qed

lemma send_rows_drains:
  assumes "wf_pending st0" "served_by R0 sid d"
  shows "r_store R = Some st \<Longrightarrow> drain_inv st0 st \<Longrightarrow>
    \<forall>row \<in> set rows. row_of 1 st0 row \<and> addressed_to (d_name d) row \<and> now < p_expires_at row \<Longrightarrow>
    \<exists>fs st'. r_frames (snd (send_rows u link now sid d rows R)) = r_frames R @ fs
    \<and> (\<forall>f \<in> set fs. drained_frame R0 st0 now sid f)
    \<and> r_store (snd (send_rows u link now sid d rows R)) = Some st' \<and> drain_inv st0 st'"
proof (induction rows arbitrary: R st)
  case Nil
  then show ?case by simp
next
  case (Cons row rows)
  let ?R = "snd (send_pending u link now sid d row st R)"
  have "\<exists>fs st'. r_frames ?R = r_frames R @ fs \<and> (\<forall>f \<in> set fs. drained_frame R0 st0 now sid f)
    \<and> r_store ?R = Some st' \<and> drain_inv st0 st'"
    using Cons.prems assms by (intro send_pending_drains) auto
  then obtain fs st1 where 1: "r_frames ?R = r_frames R @ fs" "\<forall>f \<in> set fs. drained_frame R0 st0 now sid f"
    "r_store ?R = Some st1" "drain_inv st0 st1" by blast
  from Cons.IH [OF 1(3,4)] Cons.prems(3) obtain gs st2 where
    "r_frames (snd (send_rows u link now sid d rows ?R)) = r_frames ?R @ gs"
    "\<forall>f \<in> set gs. drained_frame R0 st0 now sid f"
    "r_store (snd (send_rows u link now sid d rows ?R)) = Some st2" "drain_inv st0 st2" by auto
  with 1 Cons.prems(1) show ?case by (auto simp: case_prod_beta)
qed

lemma served_by_store [simp]: "served_by (R\<lparr>r_store := x\<rparr>) k d = served_by R k d"
  by (simp add: served_by_def)

lemma served_by_send_rows:
  "served_by (snd (send_rows u link now sid dest rows R)) k d \<Longrightarrow> served_by R k d"
proof (induction rows arbitrary: R)
  case (Cons row rows)
  have "served_by R k d" if *: "served_by (snd (send_pending u link now sid dest row st R)) k d" for st
  proof (cases "pending_max_attempts st < p_attempts row")
    case True
    with * show ?thesis by (simp add: send_pending_def dead_letter_def DEAD_LETTER_KINDS_def)
  next
    case False
    with * show ?thesis by (simp add: send_pending_def) (rule served_by_send_wake)
  qed
  with Cons show ?case by (auto simp: case_prod_beta split: option.splits)
qed simp

lemma drain_loop_drains:
  assumes "wf_pending st0" "inj u"
  shows "wf_router u R \<Longrightarrow> r_store R = Some st \<Longrightarrow> drain_inv st0 st \<Longrightarrow>
    \<forall>k d. served_by R k d \<longrightarrow> served_by R0 k d \<Longrightarrow>
    \<exists>fs st'. r_frames (snd (drain_loop u link now sid names R)) = r_frames R @ fs
    \<and> (\<forall>f \<in> set fs. drained_frame R0 st0 now sid f)
    \<and> r_store (snd (drain_loop u link now sid names R)) = Some st' \<and> drain_inv st0 st'"
proof (induction names arbitrary: R st)
  case Nil
  then show ?case by simp
next
  case (Cons name names)
  show ?case
  proof (cases "\<exists>dest. dget (destination_table (r_config R)) name = Some dest
      \<and> map_option s_session (subscriber_for R dest) = Some sid")
    case False
    then have "drain_loop u link now sid (name # names) R = drain_loop u link now sid names R"
      by (cases "dget (destination_table (r_config R)) name"; cases "r_store R") simp_all
    with Cons.IH [OF Cons.prems] show ?thesis by simp
  next
    case True
    then obtain dest sub where dest: "dget (destination_table (r_config R)) name = Some dest"
      "subscriber_for R dest = Some sub" "s_session sub = sid" by auto
    let ?rows = "fst (claim_pending now name 100 st)"
    let ?R = "R\<lparr>r_store := Some (snd (claim_pending now name 100 st))\<rparr>"
    let ?R1 = "snd (send_rows u link now sid dest ?rows ?R)"
    have name: "d_name dest = name" using dest(1) by (rule destination_table_name)
    have loop: "snd (drain_loop u link now sid (name # names) R) = snd (drain_loop u link now sid names ?R1)"
      using Cons.prems(2) dest by (simp add: case_prod_beta)
    have wf: "wf_router u ?R" by (rule wf_router_cong [OF Cons.prems(1)]) simp_all
    have served: "served_by R0 sid dest"
      using Cons.prems(1,4) dest(2,3) by (auto simp: wf_router_def dest: subscriber_for_served)
    have "\<exists>fs st'. r_frames ?R1 = r_frames ?R @ fs \<and> (\<forall>f \<in> set fs. drained_frame R0 st0 now sid f)
      \<and> r_store ?R1 = Some st' \<and> drain_inv st0 st'"
      using drain_inv_claim [OF Cons.prems(3)] claimed_rows [OF Cons.prems(3)] name
      by (intro send_rows_drains [OF assms(1) served]) simp_all
    then obtain fs st1 where 1: "r_frames ?R1 = r_frames R @ fs" "\<forall>f \<in> set fs. drained_frame R0 st0 now sid f"
      "r_store ?R1 = Some st1" "drain_inv st0 st1" by auto
    have "\<forall>k d. served_by ?R1 k d \<longrightarrow> served_by R0 k d"
      using Cons.prems(4) served_by_send_rows served_by_store by blast
    from Cons.IH [OF wf_send_rows [OF assms(2) wf] 1(3,4) this] 1(1,2) show ?thesis
      unfolding loop by auto
  qed
qed

text \<open>Claim C7: A drain never leaks and never loses.  The frames it adds go to the session that
  just subscribed, for destinations it serves, and carry events of queued rows addressed to
  those destinations that have neither expired nor used up their delivery attempts; and every
  row that was queued is still queued or has become a dead letter with its event after at
  least the configured number of attempts.\<close>

theorem drain_safe:
  assumes "inj u" and "wf_router u R" and "r_store R = Some st" and "wf_pending st"
  shows "\<exists>fs st'. r_frames (snd (drain_pending u link now sid R)) = r_frames R @ fs
    \<and> (\<forall>f \<in> set fs. drained_frame R st now sid f)
    \<and> r_store (snd (drain_pending u link now sid R)) = Some st'
    \<and> (\<forall>r \<in> set (st_pending st). kept_or_dead st' r)"
proof (cases "dget (r_subs R) sid")
  case None
  then show ?thesis using assms(3) drain_inv_refl [of st] by (simp add: drain_pending_def drain_inv_def)
next
  case (Some sub)
  have "\<exists>fs st'. r_frames (snd (drain_loop u link now sid (s_destinations sub) R)) = r_frames R @ fs
    \<and> (\<forall>f \<in> set fs. drained_frame R st now sid f)
    \<and> r_store (snd (drain_loop u link now sid (s_destinations sub) R)) = Some st' \<and> drain_inv st st'"
    by (rule drain_loop_drains [OF assms(4,1,2,3) drain_inv_refl]) blast
  then show ?thesis using assms(3) Some by (auto simp: drain_pending_def drain_inv_def)
qed

theorem drain_safe_witness:
  "\<exists>fs st'. r_frames (snd (drain_pending demo_ulid demo_link 1 ''s1'' (demo_router\<lparr>r_store := Some demo_store\<rparr>))) = fs
    \<and> (\<forall>f \<in> set fs. drained_frame (demo_router\<lparr>r_store := Some demo_store\<rparr>) demo_store 1 ''s1'' f)
    \<and> r_store (snd (drain_pending demo_ulid demo_link 1 ''s1'' (demo_router\<lparr>r_store := Some demo_store\<rparr>))) = Some st'
    \<and> (\<forall>r \<in> set (st_pending demo_store). kept_or_dead st' r)"
proof -
  let ?R = "demo_router\<lparr>r_store := Some demo_store\<rparr>"
  have "wf_router demo_ulid ?R" by (rule wf_router_cong [OF wf_demo_router]) simp_all
  moreover have "wf_pending demo_store" using wf_demo_store by (simp add: wf_store_def)
  moreover have "r_frames ?R = []" by (simp add: demo_router_def subscribe_def new_router_def)
  ultimately show ?thesis using drain_safe [OF inj_demo_ulid, of ?R demo_store demo_link 1 "''s1''"] by simp
qed

subsection \<open>Settling a row\<close>

text \<open>The first answer to a wake frame decides.  While the waiter of a queued row is
  open, later acks or nacks of the same frame are ignored, and when the waiter ends with the
  answer the row leaves the queue exactly if that answer was an ack; a timeout leaves it
  queued.  Nothing else of the queue changes.\<close>

theorem first_answer_settles:
  assumes "dget (r_acks R) (w_ack w) = Some None" and "w_row w = Some row" and "r_store R = Some st"
  shows "dget (r_acks (resolve_ack (w_ack w) later (resolve_ack (w_ack w) answer R))) (w_ack w) = Some (Some answer)
    \<and> r_store (finish_wait w (Some answer) (resolve_ack (w_ack w) later (resolve_ack (w_ack w) answer R))) =
        Some (if answer = ''ack'' then delete_pending (p_id row) st else st)
    \<and> r_store (finish_wait w None R) = Some st"
  using assms by (simp add: resolve_ack_def dget_dset router_simps)

definition demo_row :: pending_row where
  "demo_row = mk_pending 0 demo_wake (Some ''desk'') new_store"

definition demo_waiter :: waiter where
  "demo_waiter = \<lparr>w_source = ''ci'', w_ack = ''x'', w_session = ''s1'', w_row = Some demo_row\<rparr>"

theorem first_answer_settles_witness:
  "let R = register_ack ''x'' demo_router
   in r_store (finish_wait demo_waiter (Some ''nack'')
        (resolve_ack ''x'' ''ack'' (resolve_ack ''x'' ''nack'' R))) = Some new_store"
  using first_answer_settles [of "register_ack ''x'' demo_router" demo_waiter demo_row new_store "''ack''" "''nack''"]
  by (simp add: register_ack_def dget_dset demo_waiter_def demo_router_fields)

subsection \<open>Who serves a destination\<close>

lemma subscriber_for_None:
  assumes "wf_subs R"
  shows "subscriber_for R d = None \<longleftrightarrow> (\<forall>sid. \<not> served_by R sid d)"
proof
  assume none: "subscriber_for R d = None"
  show "\<forall>sid. \<not> served_by R sid d"
  proof (rule allI, rule notI)
    fix sid assume "served_by R sid d"
    then obtain sub where sub: "dget (r_subs R) sid = Some sub" "serves d sub"
      by (auto simp: served_by_def split: option.splits)
    then have "sid \<in> fst ` set (r_subs R)" by (force dest: map_of_SomeD)
    with assms have "sid \<in> set (rev (r_order R))" by (simp add: wf_subs_def)
    with none sub show False by (auto simp: subscriber_for_def first_serving_None)
  qed
next
  assume none: "\<forall>sid. \<not> served_by R sid d"
  have "\<not> serves d sub" if "dget (r_subs R) sid = Some sub" for sid sub
    using none [rule_format, of sid] that by (simp add: served_by_def)
  then show "subscriber_for R d = None" by (auto simp: subscriber_for_def first_serving_None)
qed

text \<open>A destination is served by the most recently connected session that may serve
  it: a session that connects with a claim to it takes over, a session that connects without
  one changes nothing, and no session is found only if none serves it.\<close>

theorem latest_session_serves:
  assumes "wf_subs R" and "\<not> has_key (r_subs R) sid"
  shows "subscriber_for (subscribe now sid a i srcs ds R) d =
      (if d_name d \<in> set ds \<and> accepts_adapter d a
       then Some \<lparr>s_session = sid, s_adapter = a, s_instance = i, s_sources = srcs, s_destinations = ds,
                  s_in_flight = 0, s_connected_at = now\<rparr>
       else subscriber_for R d)
    \<and> (subscriber_for R d = None \<longleftrightarrow> (\<forall>k. \<not> served_by R k d))"
proof -
  have "sid \<notin> set (r_order R)" using assms by (simp add: wf_subs_def has_key_iff)
  then have "first_serving (dset sid s (r_subs R)) d (rev (r_order R)) = first_serving (r_subs R) d (rev (r_order R))" for s
  proof -
    assume notin: "sid \<notin> set (r_order R)"
    have "sid \<notin> set sids \<Longrightarrow> first_serving (dset sid s (r_subs R)) d sids = first_serving (r_subs R) d sids" for sids
      by (induction sids) (auto simp: dget_dset split: option.splits)
    with notin show ?thesis by simp
  qed
  then show ?thesis
    using subscriber_for_None [OF assms(1)]
    by (simp add: subscriber_for_def subscribe_def dget_dset serves_def)
qed

definition demo_desk :: destination where
  "demo_desk = \<lparr>d_name = ''desk'', d_adapter = Some ''claude'', d_session = None, d_principal = None,
     d_max_connections = None\<rparr>"

theorem latest_session_serves_witness:
  "map_option s_session (subscriber_for (subscribe 1 ''s2'' ''claude'' ''i'' [] [''desk''] demo_router) demo_desk)
     = Some ''s2''"
  using latest_session_serves [of demo_router "''s2''" 1 "''claude''" "''i''" "[]" "[''desk'']" demo_desk] wf_demo_router
  by (simp add: wf_router_def has_key_def demo_router_def subscribe_def new_router_def demo_desk_def
      accepts_adapter_def)

subsection \<open>The silent-accumulation warning\<close>

lemma queued_count_iterate:
  "queued_count ((note_queued_without_delivery d ^^ n) R) (dest_key d) = queued_count R (dest_key d) + int n"
  by (induction n) (simp_all add: note_queued_without_delivery_def queued_count_def dget_dset)

lemma ever_iterate: "r_ever ((note_queued_without_delivery d ^^ n) R) = r_ever R"
  by (induction n) (simp_all add: note_queued_without_delivery_def)

lemma warning_iterate:
  assumes "queued_count R (dest_key d) = 0"
  shows "queue_warning d ((note_queued_without_delivery d ^^ m) R) =
    (if m mod 3 \<noteq> 0 then Quiet else if dest_key d \<notin> r_ever R then Never_served else Not_returned)"
proof -
  have "int m mod 3 = 0 \<longleftrightarrow> m mod 3 = 0" by presburger
  then show ?thesis
    by (simp add: queue_warning_def QUEUE_WARN_EVERY_def queued_count_iterate ever_iterate assms)
qed

text \<open>Counting from the last live delivery, exactly every third event queued for a
  destination warns, loudly when no session has served the destination since the daemon
  started; a session that subscribes to it starts the count again and takes the loud warning
  away.\<close>

theorem accumulation_warning:
  "queue_warning d ((note_queued_without_delivery d ^^ Suc n) (note_delivered d R)) =
      (if Suc n mod 3 \<noteq> 0 then Quiet else if dest_key d \<notin> r_ever R then Never_served else Not_returned)
   \<and> queue_warning (Some name) ((note_queued_without_delivery (Some name) ^^ Suc n) (note_subscribed [name] R)) =
      (if Suc n mod 3 \<noteq> 0 then Quiet else Not_returned)"
proof -
  have "queued_count (note_delivered d R) (dest_key d) = 0"
    "queued_count (note_subscribed [name] R) (dest_key (Some name)) = 0"
    "r_ever (note_delivered d R) = r_ever R" "dest_key (Some name) \<in> r_ever (note_subscribed [name] R)"
    by (simp_all add: queued_count_def note_delivered_def note_subscribed_def dest_key_def dget_dpop)
  then show ?thesis by (simp only: warning_iterate) simp
qed

end
