(* ===== verification/Gating.thy ===== *)
theory Gating
  imports Prelude
begin

section \<open>Authentication of inbound events (\<open>gating.py\<close>)\<close>

text \<open>
  The HMAC-SHA256 check of the \<open>X-AgentWake-Signature\<close> header and the trigger-identity
  allowlist.  \<open>hmac.new(secret, body, sha256).digest()\<close> is the parameter \<open>hmac\<close>; no theorem
  assumes anything of it, so they hold for every keyed digest.
\<close>

subsection \<open>Hexadecimal text\<close>

definition is_ascii_space :: "char \<Rightarrow> bool" where
  "is_ascii_space c \<longleftrightarrow> c \<in> set [CHR 0x20, CHR 0x09, CHR 0x0A, CHR 0x0B, CHR 0x0C, CHR 0x0D]"

text \<open>The white space \<open>str.strip\<close> removes, among the code points below 256.\<close>

definition is_space :: "char \<Rightarrow> bool" where
  "is_space c \<longleftrightarrow> is_ascii_space c
     \<or> c \<in> set [CHR 0x1C, CHR 0x1D, CHR 0x1E, CHR 0x1F, CHR 0x85, CHR 0xA0]"

definition strip :: "string \<Rightarrow> string" where
  "strip s = rev (dropWhile is_space (rev (dropWhile is_space s)))"

definition startswith :: "string \<Rightarrow> string \<Rightarrow> bool" where
  "startswith s p \<longleftrightarrow> take (length p) s = p"

definition hexval :: "char \<Rightarrow> nat option" where
  "hexval c =
     (let n = (of_char c :: nat) in
      if 48 \<le> n \<and> n \<le> 57 then Some (n - 48)
      else if 97 \<le> n \<and> n \<le> 102 then Some (n - 87)
      else if 65 \<le> n \<and> n \<le> 70 then Some (n - 55)
      else None)"

text \<open>\<open>bytes.fromhex\<close>: pairs of digits, ASCII white space between the pairs is skipped, and
  \<open>None\<close> stands for the \<open>ValueError\<close>.\<close>

fun fromhex :: "string \<Rightarrow> bytes option" where
  "fromhex [] = Some []"
| "fromhex [c] = (if is_ascii_space c then Some [] else None)"
| "fromhex (c # d # cs) =
     (if is_ascii_space c then fromhex (d # cs)
      else (case (hexval c, hexval d) of
              (Some a, Some b) \<Rightarrow> map_option (Cons (char_of (16 * a + b))) (fromhex cs)
            | _ \<Rightarrow> None))"

definition hexdigest :: "bytes \<Rightarrow> string" where
  "hexdigest bs = concat (map byte_hex bs)"

subsection \<open>Signatures\<close>

definition verify_signature ::
  "(bytes \<Rightarrow> bytes \<Rightarrow> bytes) \<Rightarrow> bytes \<Rightarrow> bytes \<Rightarrow> string \<Rightarrow> bool" where
  "verify_signature hmac body secret signature_header =
     (if signature_header = [] then False
      else
        let expected = strip signature_header in
        if \<not> startswith expected ''sha256='' then False
        else
          case fromhex (drop 7 expected) of
            None \<Rightarrow> False
          | Some expected_digest \<Rightarrow> hmac secret body = expected_digest)"

fun verify_signature_any ::
  "(bytes \<Rightarrow> bytes \<Rightarrow> bytes) \<Rightarrow> bytes \<Rightarrow> bytes list \<Rightarrow> string \<Rightarrow> bool" where
  "verify_signature_any hmac body [] signature_header = False"
| "verify_signature_any hmac body (secret # secrets) signature_header =
     (if verify_signature hmac body secret signature_header then True
      else verify_signature_any hmac body secrets signature_header)"

text \<open>The header a sender computes (and \<open>channels/webhook.py\<close> for the outbound direction).\<close>

definition signature_header :: "(bytes \<Rightarrow> bytes \<Rightarrow> bytes) \<Rightarrow> bytes \<Rightarrow> bytes \<Rightarrow> string" where
  "signature_header hmac secret body = ''sha256='' @ hexdigest (hmac secret body)"

subsection \<open>Trigger identities\<close>

datatype identity_error = identity_missing | identity_not_allowed

text \<open>\<open>header not in allowed\<close>: element of a list, key of an object; other shapes are not
  containers of strings and Python raises.\<close>

fun py_contains :: "pyval \<Rightarrow> string \<Rightarrow> bool res" where
  "py_contains (VList xs) h = Inr (VStr h \<in> set xs)"
| "py_contains (VDict d) h = Inr (has_key d h)"
| "py_contains _ h = Inl TypeError"

definition check_trigger_identity :: "dict \<Rightarrow> string option \<Rightarrow> identity_error option res" where
  "check_trigger_identity source_cfg header =
     (case dget source_cfg ''allowed_trigger_identities'' of
        None \<Rightarrow> Inr None
      | Some allowed \<Rightarrow>
          if \<not> truthy allowed then Inr None
          else
            (case allowed of
               VStr _ \<Rightarrow> Inr (Some identity_not_allowed)
             | _ \<Rightarrow>
                 (case header of
                    None \<Rightarrow> Inr (Some identity_missing)
                  | Some h \<Rightarrow>
                      if h = [] then Inr (Some identity_missing)
                      else (case py_contains allowed h of
                              Inl e \<Rightarrow> Inl e
                            | Inr True \<Rightarrow> Inr None
                            | Inr False \<Rightarrow> Inr (Some identity_not_allowed)))))"

subsection \<open>Lemmas\<close>

lemma digit_char_cases:
  "n < 16 \<Longrightarrow> hexval (digit_char n) = Some n \<and> \<not> is_space (digit_char n)"
proof -
  have "\<forall>n \<in> set [0..<16]. hexval (digit_char n) = Some n \<and> \<not> is_space (digit_char n)"
    by code_simp
  moreover assume "n < 16"
  ultimately show ?thesis by simp
qed

lemma fromhex_byte:
  "fromhex (byte_hex c @ cs) = map_option (Cons c) (fromhex cs)"
proof -
  have lt: "(of_char c :: nat) div 16 < 16" "(of_char c :: nat) mod 16 < 16"
    using of_char_mod_256 [of c, where ?'a = nat] by (simp_all add: nat_of_char_less_256 less_mult_imp_div_less)
  moreover have "16 * ((of_char c :: nat) div 16) + (of_char c) mod 16 = of_char c" by simp
  ultimately show ?thesis
    using digit_char_cases [OF lt(1)] digit_char_cases [OF lt(2)]
    by (simp add: byte_hex_def is_space_def)
qed

lemma fromhex_hexdigest [simp]: "fromhex (hexdigest bs) = Some bs"
  by (induction bs) (simp_all add: hexdigest_def fromhex_byte)

lemma strip_id:
  assumes "s \<noteq> []" "\<not> is_space (hd s)" "\<not> is_space (last s)"
  shows "strip s = s"
proof -
  have "dropWhile is_space s = s" using assms(2) by (simp add: dropWhile_eq_self_iff)
  moreover have "dropWhile is_space (rev s) = rev s"
    using assms(1,3) by (simp add: dropWhile_eq_self_iff hd_rev)
  ultimately show ?thesis by (simp add: strip_def)
qed

lemma hexdigest_no_space: "c \<in> set (hexdigest bs) \<Longrightarrow> \<not> is_space c"
proof -
  assume "c \<in> set (hexdigest bs)"
  then obtain b where "c \<in> set (byte_hex b)" by (auto simp: hexdigest_def)
  moreover have "(of_char b :: nat) div 16 < 16" "(of_char b :: nat) mod 16 < 16"
    by (simp_all add: less_mult_imp_div_less)
  ultimately show ?thesis using digit_char_cases by (fastforce simp: byte_hex_def)
qed

lemma strip_signature: "strip (signature_header hmac secret body) = signature_header hmac secret body"
proof (rule strip_id)
  show "\<not> is_space (last (signature_header hmac secret body))"
  proof (cases "hexdigest (hmac secret body) = []")
    case True
    then show ?thesis by (simp add: signature_header_def is_space_def is_ascii_space_def)
  next
    case False
    then show ?thesis
      using hexdigest_no_space [OF last_in_set] by (simp add: signature_header_def)
  qed
qed (simp_all add: signature_header_def is_space_def is_ascii_space_def)

lemma verify_signature_iff:
  "verify_signature hmac body secret h \<longleftrightarrow>
     h \<noteq> [] \<and> startswith (strip h) ''sha256=''
     \<and> fromhex (drop 7 (strip h)) = Some (hmac secret body)"
  by (auto simp: verify_signature_def Let_def split: option.splits)

lemma verify_own_signature [simp]:
  "verify_signature hmac body secret (signature_header hmac secret body)"
  by (simp add: verify_signature_iff strip_signature) (simp add: signature_header_def startswith_def)

lemma verify_signature_any_iff:
  "verify_signature_any hmac body secrets h \<longleftrightarrow> (\<exists>s \<in> set secrets. verify_signature hmac body s h)"
  by (induction secrets) auto

subsection \<open>Properties\<close>

text \<open>A signature made with any secret of the rotation window is accepted, and a
  header is accepted only when it spells, in hexadecimal after \<open>sha256=\<close>, the digest of
  exactly this body under one of the secrets.\<close>

theorem signature_accepted_iff:
  "(secret \<in> set secrets \<longrightarrow>
      verify_signature_any hmac body secrets (signature_header hmac secret body))
   \<and> (verify_signature_any hmac body secrets h \<longleftrightarrow>
      h \<noteq> [] \<and> startswith (strip h) ''sha256=''
      \<and> (\<exists>s \<in> set secrets. fromhex (drop 7 (strip h)) = Some (hmac s body)))"
  using verify_own_signature by (auto simp: verify_signature_any_iff verify_signature_iff)

definition demo_hmac :: "bytes \<Rightarrow> bytes \<Rightarrow> bytes" where
  "demo_hmac k b = k @ b"

theorem signature_accepted_iff_witness:
  "verify_signature_any demo_hmac ''body'' [''old'', ''new'']
     (signature_header demo_hmac ''new'' ''body'')"
  by (rule signature_accepted_iff [THEN conjunct1, rule_format]) simp

text \<open>An absent or empty allowlist admits every authenticated sender; a bare string
  is never read as a substring allowlist; a list admits exactly the identities it names, and
  a request without an identity header is refused.\<close>

theorem trigger_identity_gate:
  "(\<not> truthy_opt (dget src ''allowed_trigger_identities'') \<longrightarrow>
      check_trigger_identity src header = Inr None)
   \<and> (dget src ''allowed_trigger_identities'' = Some (VStr s) \<and> s \<noteq> [] \<longrightarrow>
      check_trigger_identity src header = Inr (Some identity_not_allowed))
   \<and> (dget src ''allowed_trigger_identities'' = Some (VList ids) \<and> ids \<noteq> [] \<longrightarrow>
      check_trigger_identity src header =
        Inr (case header of
               None \<Rightarrow> Some identity_missing
             | Some h \<Rightarrow> if h = [] then Some identity_missing
                         else if VStr h \<in> set ids then None else Some identity_not_allowed))"
  by (auto simp: check_trigger_identity_def truthy_opt_def split: option.splits bool.splits)

theorem trigger_identity_gate_witness:
  "check_trigger_identity [(''allowed_trigger_identities'', VStr ''alice'')] (Some ''ali'')
     = Inr (Some identity_not_allowed)
   \<and> check_trigger_identity [(''allowed_trigger_identities'', VList [VStr ''alice''])] (Some ''alice'')
     = Inr None
   \<and> check_trigger_identity [] None = Inr None"
  using trigger_identity_gate [of "[(''allowed_trigger_identities'', VStr ''alice'')]" "Some ''ali''" "''alice''"]
    trigger_identity_gate [of "[(''allowed_trigger_identities'', VList [VStr ''alice''])]" "Some ''alice''"
      "''alice''" "[VStr ''alice'']"]
    trigger_identity_gate [of "[]" None]
  by (simp add: truthy_opt_def)

end
