(* ===== verification/Pytext.thy ===== *)
theory Pytext
  imports Gating
begin

section \<open>Python strings\<close>

text \<open>
  The string methods several components use (\<open>split\<close>, \<open>partition\<close>, \<open>encode\<close>, \<open>int\<close>), on code
  points below 256, with the round trip of decimal numbers.
\<close>

subsection \<open>Strings\<close>

text \<open>\<open>s.split(c)\<close> and \<open>s.partition(c)\<close> for a one-character separator.\<close>

fun split_on :: "char \<Rightarrow> string \<Rightarrow> string list" where
  "split_on c [] = [[]]"
| "split_on c (x # xs) =
     (if x = c then [] # split_on c xs
      else (case split_on c xs of [] \<Rightarrow> [[x]] | w # ws \<Rightarrow> (x # w) # ws))"

definition partition_on :: "char \<Rightarrow> string \<Rightarrow> string \<times> bool \<times> string" where
  "partition_on c s = (takeWhile (\<lambda>x. x \<noteq> c) s, c \<in> set s, drop 1 (dropWhile (\<lambda>x. x \<noteq> c) s))"

text \<open>\<open>s.encode("utf-8")\<close> for code points below 256.\<close>

definition utf8_char :: "char \<Rightarrow> bytes" where
  "utf8_char c =
     (let n = (of_char c :: nat) in
      if n < 128 then [c] else [char_of (192 + n div 64), char_of (128 + n mod 64)])"

definition utf8 :: "string \<Rightarrow> bytes" where
  "utf8 s = concat (map utf8_char s)"

definition is_digit :: "char \<Rightarrow> bool" where
  "is_digit c \<longleftrightarrow> 48 \<le> (of_char c :: nat) \<and> (of_char c :: nat) \<le> 57"

definition is_ascii :: "string \<Rightarrow> bool" where
  "is_ascii s \<longleftrightarrow> (\<forall>c \<in> set s. (of_char c :: nat) < 128)"

text \<open>
  \<open>int(s)\<close>: surrounding white space, a sign, decimal digits with single underscores between
  them, at most 4300 digits; \<open>None\<close> is the \<open>ValueError\<close>.
\<close>

fun digits_value :: "nat \<Rightarrow> bool \<Rightarrow> string \<Rightarrow> nat option" where
  "digits_value acc prev [] = (if prev then Some acc else None)"
| "digits_value acc prev (c # cs) =
     (if is_digit c then digits_value (10 * acc + (of_char c - 48)) True cs
      else if c = CHR ''_'' \<and> prev then digits_value acc False cs else None)"

definition strip_by :: "(char \<Rightarrow> bool) \<Rightarrow> string \<Rightarrow> string" where
  "strip_by p s = rev (dropWhile p (rev (dropWhile p s)))"

definition parse_int :: "string \<Rightarrow> int option" where
  "parse_int s =
     (let t = strip_by (if is_ascii s then is_ascii_space else is_space) s in
      if 4300 < length (filter is_digit t) then None
      else
        (case t of
           c # cs \<Rightarrow>
             if c = CHR ''-'' then map_option (\<lambda>n. - int n) (digits_value 0 False cs)
             else if c = CHR ''+'' then map_option int (digits_value 0 False cs)
             else map_option int (digits_value 0 False t)
         | [] \<Rightarrow> None))"

subsection \<open>Lemmas\<close>

lemma digit_char_is_digit: "n < 10 \<Longrightarrow> is_digit (digit_char n) \<and> (of_char (digit_char n) :: nat) - 48 = n
    \<and> \<not> is_space (digit_char n) \<and> digit_char n \<notin> {CHR ''-'', CHR ''+'', CHR '','', CHR ''=''}
    \<and> (of_char (digit_char n) :: nat) < 128"
proof -
  have "\<forall>n \<in> set [0..<10]. is_digit (digit_char n) \<and> (of_char (digit_char n) :: nat) - 48 = n
    \<and> \<not> is_space (digit_char n) \<and> digit_char n \<notin> {CHR ''-'', CHR ''+'', CHR '','', CHR ''=''}
    \<and> (of_char (digit_char n) :: nat) < 128"
    by code_simp
  moreover assume "n < 10"
  ultimately show ?thesis by simp
qed

lemma nat_str_chars: "c \<in> set (nat_str n) \<Longrightarrow> \<exists>d < 10. c = digit_char d"
proof (induction n rule: nat_str.induct)
  case (1 n)
  show ?case
  proof (cases "n < 10")
    case True
    with 1 show ?thesis by (auto simp: nat_str.simps [of n])
  next
    case False
    with 1 show ?thesis by (auto simp: nat_str.simps [of n] intro: exI [of _ "n mod 10"])
  qed
qed

lemma nat_str_nonempty [simp]: "nat_str n \<noteq> []"
  by (simp add: nat_str.simps [of n])

lemma digits_value_all:
  "xs \<noteq> [] \<Longrightarrow> \<forall>c \<in> set xs. is_digit c \<Longrightarrow>
   digits_value acc prev xs = Some (foldl (\<lambda>a c. 10 * a + (of_char c - 48)) acc xs)"
proof (induction xs arbitrary: acc prev)
  case (Cons c xs)
  then show ?case
    using Cons.IH [of "10 * acc + (of_char c - 48)" True] by (cases "xs = []") simp_all
qed simp

lemma foldl_nat_str: "foldl (\<lambda>a c. 10 * a + (of_char c - 48)) 0 (nat_str n) = n"
proof (induction n rule: nat_str.induct)
  case (1 n)
  show ?case
  proof (cases "n < 10")
    case True
    then show ?thesis using digit_char_is_digit by (simp add: nat_str.simps [of n])
  next
    case False
    with 1 show ?thesis
      using digit_char_is_digit [of "n mod 10"] by (simp add: nat_str.simps [of n])
  qed
qed

lemma digits_value_nat_str: "digits_value 0 False (nat_str n) = Some n"
proof -
  have "\<forall>c \<in> set (nat_str n). is_digit c" using nat_str_chars digit_char_is_digit by blast
  then show ?thesis by (simp add: digits_value_all foldl_nat_str)
qed

lemma int_str_chars: "c \<in> set (int_str i) \<Longrightarrow>
    \<not> is_space c \<and> c \<noteq> CHR '','' \<and> c \<noteq> CHR ''='' \<and> (of_char c :: nat) < 128"
proof -
  assume "c \<in> set (int_str i)"
  then have "c = CHR ''-'' \<or> (\<exists>n. c \<in> set (nat_str n))" by (auto simp: int_str_def split: if_splits)
  then show ?thesis
  proof
    assume "\<exists>n. c \<in> set (nat_str n)"
    then obtain d where "d < 10" "c = digit_char d" using nat_str_chars by blast
    with digit_char_is_digit [of d] show ?thesis by auto
  qed (simp add: is_space_def is_ascii_space_def)
qed

lemma int_str_nonempty [simp]: "int_str i \<noteq> []"
  by (simp add: int_str_def)

lemma strip_by_id: "\<forall>c \<in> set s. \<not> p c \<Longrightarrow> strip_by p s = s"
proof -
  have keep: "dropWhile p xs = xs" if "\<forall>c \<in> set xs. \<not> p c" for xs
    using that by (cases xs) auto
  assume "\<forall>c \<in> set s. \<not> p c"
  then show ?thesis using keep [of s] keep [of "rev s"] by (simp add: strip_by_def)
qed

lemma hd_nat_str: "hd (nat_str n) \<notin> {CHR ''-'', CHR ''+''}"
proof -
  have "hd (nat_str n) \<in> set (nat_str n)" by (rule hd_in_set) simp
  then obtain d where "d < 10" "hd (nat_str n) = digit_char d" using nat_str_chars by blast
  with digit_char_is_digit [of d] show ?thesis by auto
qed

lemma parse_int_str:
  assumes "length (int_str t) \<le> 4300"
  shows "parse_int (int_str t) = Some t"
proof -
  have "is_ascii (int_str t)" using int_str_chars by (auto simp: is_ascii_def)
  moreover have "strip_by is_ascii_space (int_str t) = int_str t"
    using int_str_chars by (intro strip_by_id) (auto simp: is_space_def)
  moreover have "\<not> 4300 < length (filter is_digit (int_str t))"
    using assms le_trans [OF length_filter_le] by (simp add: not_less)
  ultimately have p: "parse_int (int_str t) =
      (case int_str t of
         c # cs \<Rightarrow>
           if c = CHR ''-'' then map_option (\<lambda>n. - int n) (digits_value 0 False cs)
           else if c = CHR ''+'' then map_option int (digits_value 0 False cs)
           else map_option int (digits_value 0 False (int_str t))
       | [] \<Rightarrow> None)" by (simp add: parse_int_def Let_def)
  show ?thesis
  proof (cases "t < 0")
    case True
    then show ?thesis unfolding p by (simp add: int_str_def digits_value_nat_str)
  next
    case False
    then obtain c cs where c: "int_str t = c # cs" "c \<notin> {CHR ''-'', CHR ''+''}" "int_str t = nat_str (nat t)"
      using hd_nat_str [of "nat t"] by (cases "nat_str (nat t)") (auto simp: int_str_def)
    then have "parse_int (int_str t) = map_option int (digits_value 0 False (nat_str (nat t)))"
      unfolding p by auto
    with False show ?thesis by (simp add: digits_value_nat_str)
  qed
qed

lemma split_on_none: "c \<notin> set a \<Longrightarrow> split_on c a = [a]"
  by (induction a) auto

lemma split_on_append: "c \<notin> set a \<Longrightarrow> split_on c (a @ c # b) = a # split_on c b"
  by (induction a) auto

lemma partition_on_append: "c \<notin> set a \<Longrightarrow> partition_on c (a @ c # b) = (a, True, b)"
  by (induction a) (auto simp: partition_on_def)

end
