(* ===== verification/Ipaddr.thy ===== *)
theory Ipaddr
  imports Pytext "HOL-Library.Word"
begin

unbundle bit_operations_syntax

section \<open>IP addresses as \<open>ipaddress\<close> reads and classifies them\<close>

text \<open>
  The part of Python's \<open>ipaddress\<close> module the daemon uses: \<open>ip_address\<close> on text, the
  \<open>is_...\<close> properties with the network tables of CPython 3.11.10, and \<open>ipv4_mapped\<close>.  An
  address is a word of 32 or 128 bits; an IPv6 address keeps its scope identifier.  The text of
  the errors is not modelled: \<open>None\<close> is the \<open>ValueError\<close>.
\<close>

datatype ip = V4 "32 word" | V6 "128 word" "string option"

subsection \<open>Reading an address\<close>

definition parse_octet :: "string \<Rightarrow> int option" where
  "parse_octet s =
     (if s = [] \<or> \<not> list_all is_digit s \<or> 3 < length s \<or> (s \<noteq> ''0'' \<and> hd s = CHR ''0'') then None
      else let n = foldl (\<lambda>a c. 10 * a + (of_char c - 48)) (0 :: int) s in if 255 < n then None else Some n)"

definition ipv4_word :: "int \<Rightarrow> int \<Rightarrow> int \<Rightarrow> int \<Rightarrow> 32 word" where
  "ipv4_word a b c d = word_of_int (((a * 256 + b) * 256 + c) * 256 + d)"

definition parse_ipv4 :: "string \<Rightarrow> 32 word option" where
  "parse_ipv4 s =
     (case map parse_octet (split_on (CHR ''.'') s) of
        [Some a, Some b, Some c, Some d] \<Rightarrow> Some (ipv4_word a b c d)
      | _ \<Rightarrow> None)"

definition parse_hextet :: "string \<Rightarrow> int option" where
  "parse_hextet s =
     (if s = [] \<or> 4 < length s \<or> (\<exists>c \<in> set s. hexval c = None) then None
      else Some (foldl (\<lambda>a c. 16 * a + int (the (hexval c))) 0 s))"

text \<open>\<open>'%x' % n\<close>.\<close>

fun hex_str :: "nat \<Rightarrow> string" where
  "hex_str n = (if n < 16 then [digit_char n] else hex_str (n div 16) @ [digit_char (n mod 16)])"

declare hex_str.simps [simp del]

text \<open>An IPv4 suffix becomes two groups of its own.\<close>

definition expand_ipv4 :: "string list \<Rightarrow> string list option" where
  "expand_ipv4 parts =
     (if CHR ''.'' \<in> set (last parts)
      then map_option (\<lambda>w. butlast parts @ [hex_str (unat (drop_bit 16 w AND 0xFFFF)), hex_str (unat (w AND 0xFFFF))])
             (parse_ipv4 (last parts))
      else Some parts)"

fun hextets :: "128 word \<Rightarrow> string list \<Rightarrow> 128 word option" where
  "hextets acc [] = Some acc"
| "hextets acc (p # ps) =
     (case parse_hextet p of
        None \<Rightarrow> None
      | Some n \<Rightarrow> hextets (push_bit 16 acc OR word_of_int n) ps)"

text \<open>The positions of the empty groups, the first and the last group aside.\<close>

definition empty_groups :: "string list \<Rightarrow> nat list" where
  "empty_groups parts = filter (\<lambda>i. parts ! i = []) [1..<length parts - 1]"

text \<open>How many leading and trailing groups are read, and how many are skipped between them.\<close>

definition ipv6_layout :: "string list \<Rightarrow> (nat \<times> nat \<times> nat) option" where
  "ipv6_layout parts =
     (case empty_groups parts of
        [] \<Rightarrow>
          if length parts \<noteq> 8 \<or> hd parts = [] \<or> last parts = [] then None else Some (8, 0, 0)
      | [i] \<Rightarrow>
          let hi = (if hd parts = [] then i - 1 else i);
              lo0 = length parts - i - 1;
              lo = (if last parts = [] then lo0 - 1 else lo0)
          in if (hd parts = [] \<and> 0 < hi) \<or> (last parts = [] \<and> 0 < lo) \<or> 8 \<le> hi + lo then None
             else Some (hi, lo, 8 - (hi + lo))
      | _ \<Rightarrow> None)"

definition parse_ipv6 :: "string \<Rightarrow> 128 word option" where
  "parse_ipv6 s =
     (let parts = split_on (CHR '':'') s in
      if length parts < 3 then None
      else
        (case expand_ipv4 parts of
           None \<Rightarrow> None
         | Some ps \<Rightarrow>
             if 9 < length ps then None
             else
               (case ipv6_layout ps of
                  None \<Rightarrow> None
                | Some (hi, lo, skipped) \<Rightarrow>
                    (case hextets 0 (take hi ps) of
                       None \<Rightarrow> None
                     | Some w \<Rightarrow> hextets (push_bit (16 * skipped) w) (drop (length ps - lo) ps)))))"

definition split_scope :: "string \<Rightarrow> (string \<times> string option) option" where
  "split_scope s =
     (case partition_on (CHR ''%'') s of
        (a, sep, scope) \<Rightarrow>
          if \<not> sep then Some (a, None)
          else if scope = [] \<or> CHR ''%'' \<in> set scope then None
          else Some (a, Some scope))"

definition ip_address :: "string \<Rightarrow> ip option" where
  "ip_address s =
     (if CHR ''/'' \<in> set s then None
      else
        (case parse_ipv4 s of
           Some w \<Rightarrow> Some (V4 w)
         | None \<Rightarrow>
             (case split_scope s of
                None \<Rightarrow> None
              | Some (a, scope) \<Rightarrow> map_option (\<lambda>w. V6 w scope) (parse_ipv6 a))))"

subsection \<open>Networks\<close>

text \<open>\<open>address in network\<close>: the bits above the host part agree.\<close>

definition in_net :: "'a::len word \<Rightarrow> 'a word \<times> nat \<Rightarrow> bool" where
  "in_net w n = (w AND NOT (mask (LENGTH('a) - snd n)) = fst n)"

definition v4_private :: "(32 word \<times> nat) list" where
  "v4_private =
     [(0x00000000, 8), (0x0A000000, 8), (0x7F000000, 8), (0xA9FE0000, 16), (0xAC100000, 12),
      (0xC0000000, 24), (0xC00000AA, 31), (0xC0000200, 24), (0xC0A80000, 16), (0xC6120000, 15),
      (0xC6336400, 24), (0xCB007100, 24), (0xF0000000, 4), (0xFFFFFFFF, 32)]"

definition v4_private_exceptions :: "(32 word \<times> nat) list" where
  "v4_private_exceptions = [(0xC0000009, 32), (0xC000000A, 32)]"

definition v6_private :: "(128 word \<times> nat) list" where
  "v6_private =
     [(1, 128), (0, 128), (push_bit 32 0xFFFF, 96), (push_bit 80 0x0064FF9B0001, 48),
      (push_bit 112 0x0100, 64), (push_bit 112 0x2001, 23), (push_bit 96 0x20010DB8, 32),
      (push_bit 112 0x2002, 16), (push_bit 112 0xFC00, 7), (push_bit 112 0xFE80, 10)]"

definition v6_private_exceptions :: "(128 word \<times> nat) list" where
  "v6_private_exceptions =
     [(push_bit 96 0x20010001 OR 1, 128), (push_bit 96 0x20010001 OR 2, 128),
      (push_bit 96 0x20010003, 32), (push_bit 80 0x200100040112, 48),
      (push_bit 96 0x20010020, 28), (push_bit 96 0x20010030, 28)]"

definition v6_reserved :: "(128 word \<times> nat) list" where
  "v6_reserved =
     map (\<lambda>(p, n). (push_bit 112 p, n))
       [(0x0000, 8), (0x0100, 8), (0x0200, 7), (0x0400, 6), (0x0800, 5), (0x1000, 4), (0x4000, 3),
        (0x6000, 3), (0x8000, 3), (0xA000, 3), (0xC000, 3), (0xE000, 4), (0xF000, 5), (0xF800, 6),
        (0xFE00, 9)]"

fun is_loopback :: "ip \<Rightarrow> bool" where
  "is_loopback (V4 w) = in_net w (0x7F000000, 8)"
| "is_loopback (V6 w _) = (w = 1)"

fun ipv4_mapped :: "ip \<Rightarrow> 32 word option" where
  "ipv4_mapped (V4 w) = None"
| "ipv4_mapped (V6 w _) = (if drop_bit 32 w = 0xFFFF then Some (ucast w) else None)"

definition v4_is_private :: "32 word \<Rightarrow> bool" where
  "v4_is_private w = (list_ex (in_net w) v4_private \<and> \<not> list_ex (in_net w) v4_private_exceptions)"

fun is_private :: "ip \<Rightarrow> bool" where
  "is_private (V4 w) = v4_is_private w"
| "is_private (V6 w sc) =
     (case ipv4_mapped (V6 w sc) of
        Some m \<Rightarrow> v4_is_private m
      | None \<Rightarrow> list_ex (in_net w) v6_private \<and> \<not> list_ex (in_net w) v6_private_exceptions)"

fun is_link_local :: "ip \<Rightarrow> bool" where
  "is_link_local (V4 w) = in_net w (0xA9FE0000, 16)"
| "is_link_local (V6 w _) = in_net w (push_bit 112 0xFE80, 10)"

fun is_multicast :: "ip \<Rightarrow> bool" where
  "is_multicast (V4 w) = in_net w (0xE0000000, 4)"
| "is_multicast (V6 w _) = in_net w (push_bit 112 0xFF00, 8)"

fun is_reserved :: "ip \<Rightarrow> bool" where
  "is_reserved (V4 w) = in_net w (0xF0000000, 4)"
| "is_reserved (V6 w _) = list_ex (in_net w) v6_reserved"

fun is_unspecified :: "ip \<Rightarrow> bool" where
  "is_unspecified (V4 w) = (w = 0)"
| "is_unspecified (V6 w _) = (w = 0)"

subsection \<open>Networks as intervals\<close>

lemma in_net_div:
  fixes w p :: "'a::len word"
  assumes "n \<le> LENGTH('a)" "take_bit (LENGTH('a) - n) p = 0"
  shows "in_net w (p, n) \<longleftrightarrow> uint w div 2 ^ (LENGTH('a) - n) = uint p div 2 ^ (LENGTH('a) - n)"
proof -
  let ?k = "LENGTH('a) - n"
  have take_bit_uint: "take_bit LENGTH('a) (uint v) = uint v" for v :: "'a word"
    by (simp add: take_bit_int_eq_self_iff)
  have split: "v AND NOT (mask ?k) = push_bit ?k (drop_bit ?k v)" for v :: "'a word"
    by (rule bit_word_eqI) (auto simp: bit_simps)
  have p: "p = push_bit ?k (drop_bit ?k p)"
    using bits_ident [of ?k p] assms(2) by simp
  have inj: "v = v'" if "push_bit ?k v = push_bit ?k v'" "v = drop_bit ?k u" "v' = drop_bit ?k u'"
    for v v' u u' :: "'a word"
  proof (rule bit_word_eqI)
    fix i assume i: "i < LENGTH('a)"
    show "bit v i = bit v' i"
    proof (cases "i + ?k < LENGTH('a)")
      case True
      have "bit (push_bit ?k v) (i + ?k) = bit (push_bit ?k v') (i + ?k)" using that by simp
      with True show ?thesis by (simp add: bit_simps)
    next
      case False
      then show ?thesis using that(2,3) by (auto simp: bit_simps dest: bit_imp_le_length)
    qed
  qed
  have "in_net w (p, n) \<longleftrightarrow> drop_bit ?k w = drop_bit ?k p"
    using inj [of "drop_bit ?k w" "drop_bit ?k p" w p] p by (auto simp: in_net_def split)
  also have "\<dots> \<longleftrightarrow> uint (drop_bit ?k w) = uint (drop_bit ?k p)" by (simp add: word_uint_eq_iff)
  also have "\<dots> \<longleftrightarrow> uint w div 2 ^ ?k = uint p div 2 ^ ?k"
    using drop_bit_eq_div [of ?k "uint w"] drop_bit_eq_div [of ?k "uint p"]
    by (simp add: unsigned_drop_bit_eq take_bit_uint)
  finally show ?thesis .
qed

lemma in_net_interval:
  fixes w p :: "'a::len word"
  assumes "n \<le> LENGTH('a)" "take_bit (LENGTH('a) - n) p = 0"
  shows "in_net w (p, n) \<longleftrightarrow> uint p \<le> uint w \<and> uint w < uint p + 2 ^ (LENGTH('a) - n)"
proof -
  let ?m = "2 ^ (LENGTH('a) - n) :: int"
  have pos: "0 < ?m" by simp
  have "uint (take_bit (LENGTH('a) - n) p) = uint p mod ?m"
    using take_bit_eq_mod [of "LENGTH('a) - n" "uint p"] by (simp add: unsigned_take_bit_eq)
  then have al: "uint p mod ?m = 0" using assms(2) by simp
  obtain q where q: "uint p = ?m * q" using mod_0_imp_dvd [OF al] by (auto elim: dvdE)
  have "uint w div ?m = q \<longleftrightarrow> ?m * q \<le> uint w \<and> uint w < ?m * q + ?m"
  proof
    assume q': "uint w div ?m = q"
    have "?m * q + uint w mod ?m = uint w" using mult_div_mod_eq [of ?m "uint w"] q' by simp
    then show "?m * q \<le> uint w \<and> uint w < ?m * q + ?m"
      using pos_mod_bound [OF pos, of "uint w"] pos_mod_sign [OF pos, of "uint w"] by linarith
  next
    assume "?m * q \<le> uint w \<and> uint w < ?m * q + ?m"
    then show "uint w div ?m = q"
      by (intro int_div_pos_eq [of _ _ _ "uint w - ?m * q"]) auto
  qed
  with q show ?thesis by (simp add: in_net_div [OF assms])
qed

subsection \<open>Spellings of one address\<close>

lemma hex_str_nonempty [simp]: "hex_str n \<noteq> []"
  by (simp add: hex_str.simps [of n])

lemma hex_str_chars: "c \<in> set (hex_str n) \<Longrightarrow> \<exists>d < 16. c = digit_char d"
proof (induction n rule: hex_str.induct)
  case (1 n)
  show ?case
  proof (cases "n < 16")
    case True
    with 1 show ?thesis by (auto simp: hex_str.simps [of n])
  next
    case False
    with 1 show ?thesis by (auto simp: hex_str.simps [of n] intro: exI [of _ "n mod 16"])
  qed
qed

lemma hex_str_plain: "c \<in> set (hex_str n) \<Longrightarrow> c \<notin> {CHR '':'', CHR ''.'', CHR ''%'', CHR ''/''}"
proof -
  have "\<forall>d \<in> set [0..<16]. digit_char d \<notin> {CHR '':'', CHR ''.'', CHR ''%'', CHR ''/''}" by code_simp
  moreover assume "c \<in> set (hex_str n)"
  then obtain d where "d < 16" "c = digit_char d" using hex_str_chars by blast
  ultimately show ?thesis by simp
qed

lemma hex_str_value: "foldl (\<lambda>a c. 16 * a + int (the (hexval c))) 0 (hex_str n) = int n"
proof (induction n rule: hex_str.induct)
  case (1 n)
  show ?case
  proof (cases "n < 16")
    case True
    then show ?thesis by (simp add: hex_str.simps [of n] digit_char_cases)
  next
    case False
    have "16 * int (n div 16) + int (n mod 16) = int n"
      by (metis mult_div_mod_eq of_nat_add of_nat_mult of_nat_numeral)
    with 1 False show ?thesis by (simp add: hex_str.simps [of n] digit_char_cases)
  qed
qed

lemma hex_str_length: "n < 16 ^ Suc k \<Longrightarrow> length (hex_str n) \<le> Suc k"
proof (induction k arbitrary: n)
  case 0
  then show ?case by (simp add: hex_str.simps [of n])
next
  case (Suc k)
  then have "n div 16 < 16 ^ Suc k" by (simp add: less_mult_imp_div_less)
  with Suc.IH [of "n div 16"] show ?case by (simp add: hex_str.simps [of n])
qed

lemma parse_hextet_hex_str: "n < 65536 \<Longrightarrow> parse_hextet (hex_str n) = Some (int n)"
proof -
  assume "n < 65536"
  then have "length (hex_str n) \<le> 4" using hex_str_length [of n 3] by simp
  moreover have "\<not> (\<exists>c \<in> set (hex_str n). hexval c = None)"
    using hex_str_chars digit_char_cases by fastforce
  ultimately show ?thesis by (simp add: parse_hextet_def hex_str_value)
qed

lemma parse_octet_chars: "parse_octet s = Some n \<Longrightarrow> c \<in> set s \<Longrightarrow> is_digit c"
  by (auto simp: parse_octet_def list_all_iff Let_def split: if_splits)

lemma join_split_on: "join [c] (split_on c s) = s"
proof (induction s)
  case (Cons x s)
  then show ?case by (cases "split_on c s" rule: list.exhaust; cases "tl (split_on c s)") auto
qed simp

lemma parse_ipv4_shape:
  assumes "parse_ipv4 s = Some w"
  shows "CHR ''.'' \<in> set s" "\<forall>c \<in> set s. c = CHR ''.'' \<or> is_digit c"
proof -
  obtain a b c d where sp: "split_on (CHR ''.'') s = [a, b, c, d]"
    and oc: "parse_octet a \<noteq> None" "parse_octet b \<noteq> None" "parse_octet c \<noteq> None" "parse_octet d \<noteq> None"
    using assms by (auto simp: parse_ipv4_def split: list.splits option.splits)
  have s: "s = a @ ''.'' @ b @ ''.'' @ c @ ''.'' @ d"
    using join_split_on [of "CHR ''.''" s] sp by simp
  then show "CHR ''.'' \<in> set s" by simp
  have "\<forall>x \<in> set a \<union> set b \<union> set c \<union> set d. is_digit x"
    using oc parse_octet_chars by auto
  with s show "\<forall>c \<in> set s. c = CHR ''.'' \<or> is_digit c" by auto
qed

lemma parse_ipv4_plain:
  assumes "parse_ipv4 s = Some w"
  shows "CHR '':'' \<notin> set s" "CHR ''%'' \<notin> set s" "CHR ''/'' \<notin> set s" "s \<noteq> []"
proof -
  have no: "x \<notin> set s" if "x \<noteq> CHR ''.''" "\<not> is_digit x" for x
    using bspec [OF parse_ipv4_shape(2) [OF assms], of x] that by argo
  show "CHR '':'' \<notin> set s" by (rule no) (simp_all add: is_digit_def)
  show "CHR ''%'' \<notin> set s" by (rule no) (simp_all add: is_digit_def)
  show "CHR ''/'' \<notin> set s" by (rule no) (simp_all add: is_digit_def)
  show "s \<noteq> []" using parse_ipv4_shape(1) [OF assms] by (cases s) simp_all
qed

end
