(* ===== verification/Url.thy ===== *)
theory Url
  imports Ipaddr
begin

section \<open>URLs as \<open>urllib.parse\<close> splits them\<close>

text \<open>
  \<open>urlparse\<close> on the URLs the daemon is configured with: callback URLs and secret URIs.  Leading
  control characters and spaces are dropped, tabs and line breaks removed; the text before the
  first colon is the scheme when it starts with a letter and holds only letters, digits, \<open>+\<close>,
  \<open>-\<close> and \<open>.\<close>, and is lowered.  An authority with one bracket but not the other raises
  \<open>ValueError\<close>, and so does a bracketed host that is neither an IPv6 address nor \<open>IPvFuture\<close>.
\<close>

record url =
  u_scheme :: string
  u_netloc :: string
  u_path :: string
  u_query :: string
  u_fragment :: string

definition is_alpha :: "char \<Rightarrow> bool" where
  "is_alpha c \<longleftrightarrow> (let n = (of_char c :: nat) in (65 \<le> n \<and> n \<le> 90) \<or> (97 \<le> n \<and> n \<le> 122))"

definition lower_char :: "char \<Rightarrow> char" where
  "lower_char c = (let n = (of_char c :: nat) in if 65 \<le> n \<and> n \<le> 90 then char_of (n + 32) else c)"

definition scheme_char :: "char \<Rightarrow> bool" where
  "scheme_char c \<longleftrightarrow> is_alpha c \<or> c \<in> set ''0123456789+-.''"

text \<open>\<open>s.split(c, 1)\<close>: what precedes the first \<open>c\<close>, and what follows it when there is one.\<close>

fun split_at :: "char \<Rightarrow> string \<Rightarrow> string \<times> string option" where
  "split_at c [] = ([], None)"
| "split_at c (d # ds) =
     (if d = c then ([], Some ds) else (let (a, b) = split_at c ds in (d # a, b)))"

definition clean_url :: "string \<Rightarrow> string" where
  "clean_url s =
     filter (\<lambda>c. c \<notin> set [CHR 0x09, CHR 0x0D, CHR 0x0A]) (dropWhile (\<lambda>c. (of_char c :: nat) \<le> 32) s)"

definition split_scheme :: "string \<Rightarrow> string \<times> string" where
  "split_scheme s =
     (case split_at (CHR '':'') s of
        (a, Some rest) \<Rightarrow>
          if a \<noteq> [] \<and> is_alpha (hd a) \<and> list_all scheme_char a then (map lower_char a, rest) else ([], s)
      | _ \<Rightarrow> ([], s))"

text \<open>\<open>_check_bracketed_host\<close>: the regular expression is \<open>v[a-fA-F0-9]+\..+\<close>.\<close>

definition ipvfuture :: "string \<Rightarrow> bool" where
  "ipvfuture h \<longleftrightarrow>
     (let digits = takeWhile (\<lambda>c. hexval c \<noteq> None) (drop 1 h); rest = drop (1 + length digits) h
      in digits \<noteq> [] \<and> 2 \<le> length rest \<and> hd rest = CHR ''.'')"

definition bracketed_host_ok :: "string \<Rightarrow> bool" where
  "bracketed_host_ok h \<longleftrightarrow>
     (if startswith h ''v'' then ipvfuture h
      else (case ip_address h of Some (V6 _ _) \<Rightarrow> True | _ \<Rightarrow> False))"

definition bracketed_part :: "string \<Rightarrow> string" where
  "bracketed_part net = (case partition_on (CHR ''['') net of
     (_, _, rest) \<Rightarrow> (case partition_on (CHR '']'') rest of (h, _, _) \<Rightarrow> h))"

definition urlparse :: "string \<Rightarrow> url res" where
  "urlparse s =
     (let (sch, rest) = split_scheme (clean_url s);
          net = (if startswith rest ''//'' then takeWhile (\<lambda>c. c \<notin> set ''/?#'') (drop 2 rest) else []);
          tail = (if startswith rest ''//'' then drop (2 + length net) rest else rest);
          (t, frag) = split_at (CHR ''#'') tail;
          (p, query) = split_at (CHR ''?'') t
      in if (CHR ''['' \<in> set net) \<noteq> (CHR '']'' \<in> set net) then Inl (ValueError ''Invalid IPv6 URL'')
         else if CHR ''['' \<in> set net \<and> \<not> bracketed_host_ok (bracketed_part net)
         then Inl (ValueError ''bracketed host'')
         else Inr \<lparr>u_scheme = sch, u_netloc = net, u_path = p,
                   u_query = (case query of None \<Rightarrow> [] | Some q \<Rightarrow> q),
                   u_fragment = (case frag of None \<Rightarrow> [] | Some f \<Rightarrow> f)\<rparr>)"

text \<open>
  \<open>ParseResult.hostname\<close>: the authority without user information and port, lowered up to a
  zone identifier; \<open>None\<close> when empty.
\<close>

definition str_lower :: "string \<Rightarrow> string" where
  "str_lower = map (\<lambda>c. let n = (of_char c :: nat) in
     if (65 \<le> n \<and> n \<le> 90) \<or> (192 \<le> n \<and> n \<le> 222 \<and> n \<noteq> 215) then char_of (n + 32) else c)"

definition rpartition_tail :: "char \<Rightarrow> string \<Rightarrow> string" where
  "rpartition_tail c s = rev (takeWhile (\<lambda>x. x \<noteq> c) (rev s))"

definition u_hostname :: "url \<Rightarrow> string option" where
  "u_hostname u =
     (let hostinfo = rpartition_tail (CHR ''@'') (u_netloc u);
          h = (if CHR ''['' \<in> set hostinfo then bracketed_part hostinfo
               else fst (partition_on (CHR '':'') hostinfo))
      in if h = [] then None
         else (case partition_on (CHR ''%'') h of
                 (a, sep, zone) \<Rightarrow> Some (str_lower a @ (if sep then ''%'' else []) @ zone)))"

end
