(* ===== verification/Wake_Hmac.thy ===== *)
theory Wake_Hmac
  imports Pytext
begin

section \<open>Signed callback bodies (\<open>wake_hmac.py\<close>)\<close>

text \<open>
  The \<open>X-Wake-Signature\<close> header of outbound callbacks: the keys of the rotation window, the
  header \<open>t=<unix time>,v1=<hex digest>\<close> over the time and the SHA-256 of the body, and its
  verification within a replay window.  \<open>sha\<close> is SHA-256 and \<open>hmac\<close> the keyed digest; no
  theorem assumes anything of them.
\<close>

definition REPLAY_WINDOW_SECONDS :: int where "REPLAY_WINDOW_SECONDS = 300"
definition SIGNATURE_HEADER :: string where "SIGNATURE_HEADER = ''X-Wake-Signature''"

subsection \<open>Keys\<close>

fun keep_keys :: "bytes list \<Rightarrow> string list \<Rightarrow> bytes list" where
  "keep_keys keys [] = keys"
| "keep_keys keys (v # vs) =
     (let key = utf8 (strip v) in
      if key \<noteq> [] \<and> key \<notin> set keys then keep_keys (keys @ [key]) vs else keep_keys keys vs)"

definition configured_keys :: "cfg \<Rightarrow> string list" where
  "configured_keys cfg =
     (case dict_of (dget cfg ''wake'') of
        None \<Rightarrow> []
      | Some wake \<Rightarrow>
          (case dget wake ''hmac_secret'' of
             Some (VStr s) \<Rightarrow> split_on (CHR '','') s
           | Some (VList vs) \<Rightarrow>
               concat (map (\<lambda>v. case v of VStr s \<Rightarrow> split_on (CHR '','') s | _ \<Rightarrow> []) vs)
           | _ \<Rightarrow> []))"

text \<open>\<open>env\<close> is the value of \<open>WAKE_HMAC_SECRET\<close> in the environment.\<close>

definition load_keys :: "cfg \<Rightarrow> string option \<Rightarrow> bytes list" where
  "load_keys cfg env =
     keep_keys []
       ((case env of Some (c # s) \<Rightarrow> split_on (CHR '','') (c # s) | _ \<Rightarrow> []) @ configured_keys cfg)"

subsection \<open>Signing and verifying\<close>

definition signing_input :: "(bytes \<Rightarrow> bytes) \<Rightarrow> int \<Rightarrow> bytes \<Rightarrow> bytes" where
  "signing_input sha t body = int_str t @ ''.'' @ hexdigest (sha body)"

definition sign_body ::
  "(bytes \<Rightarrow> bytes) \<Rightarrow> (bytes \<Rightarrow> bytes \<Rightarrow> bytes) \<Rightarrow> bytes \<Rightarrow> bytes list \<Rightarrow> int \<Rightarrow> string option" where
  "sign_body sha hmac body keys t =
     (case keys of
        [] \<Rightarrow> None
      | k # _ \<Rightarrow>
          Some (''t='' @ int_str t @ '',v1='' @ hexdigest (hmac k (signing_input sha t body))))"

fun header_fields :: "(string \<times> string) list \<Rightarrow> string list \<Rightarrow> (string \<times> string) list option" where
  "header_fields fields [] = Some fields"
| "header_fields fields (item # items) =
     (case partition_on (CHR ''='') (strip item) of
        (name, sep, value) \<Rightarrow>
          if \<not> sep \<or> name = [] \<or> value = [] \<or> has_key fields name then None
          else header_fields (dset name value fields) items)"

text \<open>\<open>hmac.compare_digest\<close> of two strings raises when one is not ASCII.\<close>

fun match_keys ::
  "(bytes \<Rightarrow> bytes \<Rightarrow> bytes) \<Rightarrow> bytes \<Rightarrow> string \<Rightarrow> bool \<Rightarrow> bytes list \<Rightarrow> bool res" where
  "match_keys hmac input supplied matched [] = Inr matched"
| "match_keys hmac input supplied matched (key # keys) =
     (if \<not> is_ascii supplied then Inl TypeError
      else match_keys hmac input supplied (matched \<or> hexdigest (hmac key input) = supplied) keys)"

definition verify_body ::
  "(bytes \<Rightarrow> bytes) \<Rightarrow> (bytes \<Rightarrow> bytes \<Rightarrow> bytes) \<Rightarrow> bytes \<Rightarrow> string option \<Rightarrow> bytes list \<Rightarrow> int \<Rightarrow> int \<Rightarrow>
   bool res" where
  "verify_body sha hmac body header keys now replay_window =
     (case header of
        None \<Rightarrow> Inr False
      | Some h \<Rightarrow>
          if h = [] \<or> keys = [] then Inr False
          else
            (case header_fields [] (split_on (CHR '','') h) of
               None \<Rightarrow> Inr False
             | Some fields \<Rightarrow>
                 (case (dget fields ''t'', dget fields ''v1'') of
                    (Some t, Some supplied) \<Rightarrow>
                      if length fields \<noteq> 2 then Inr False
                      else
                        (case parse_int t of
                           None \<Rightarrow> Inr False
                         | Some ts \<Rightarrow>
                             if replay_window < \<bar>now - ts\<bar> then Inr False
                             else match_keys hmac (signing_input sha ts body) supplied False keys)
                  | _ \<Rightarrow> Inr False)))"

subsection \<open>Lemmas\<close>

lemma hexdigest_chars: "c \<in> set (hexdigest bs) \<Longrightarrow> \<exists>d < 16. c = digit_char d"
proof -
  assume "c \<in> set (hexdigest bs)"
  then obtain b where "c \<in> set (byte_hex b)" by (auto simp: hexdigest_def)
  then have "c = digit_char (of_char b div 16) \<or> c = digit_char (of_char b mod 16)"
    by (simp add: byte_hex_def)
  moreover have "(of_char b :: nat) div 16 < 16" "(of_char b :: nat) mod 16 < 16"
    by (simp_all add: less_mult_imp_div_less)
  ultimately show ?thesis by metis
qed

lemma hexdigest_plain: "c \<in> set (hexdigest bs) \<Longrightarrow> c \<noteq> CHR '','' \<and> (of_char c :: nat) < 128"
proof -
  have "\<forall>d \<in> set [0..<16]. digit_char d \<noteq> CHR '','' \<and> (of_char (digit_char d) :: nat) < 128" by code_simp
  moreover assume "c \<in> set (hexdigest bs)"
  then obtain d where "d < 16" "c = digit_char d" using hexdigest_chars by blast
  ultimately show ?thesis by simp
qed

lemma hexdigest_inj [simp]: "hexdigest a = hexdigest b \<longleftrightarrow> a = b"
  using fromhex_hexdigest by (metis option.inject)

lemma hexdigest_Nil [simp]: "hexdigest a = [] \<longleftrightarrow> a = []"
  using hexdigest_inj [of a "[]"] by (simp add: hexdigest_def)

lemma match_keys_ascii:
  "is_ascii supplied \<Longrightarrow>
   match_keys hmac input supplied matched keys =
     Inr (matched \<or> (\<exists>k \<in> set keys. hexdigest (hmac k input) = supplied))"
  by (induction keys arbitrary: matched) auto

lemma match_keys_True:
  "match_keys hmac input supplied matched keys = Inr True \<Longrightarrow>
   matched \<or> (\<exists>k \<in> set keys. hexdigest (hmac k input) = supplied)"
  by (induction keys arbitrary: matched) (auto split: if_splits)

lemma keep_keys_first_by:
  "keep_keys keys vs = keys @ filter (\<lambda>k. k \<notin> set keys)
     (first_by id (filter (\<lambda>k. k \<noteq> []) (map (utf8 \<circ> strip) vs)))"
proof (induction vs arbitrary: keys)
  case (Cons v vs)
  let ?k = "utf8 (strip v)"
  show ?case
  proof (cases "?k \<noteq> [] \<and> ?k \<notin> set keys")
    case True
    then show ?thesis by (simp add: Cons.IH Let_def)
  next
    case False
    then show ?thesis by (auto simp: Cons.IH Let_def intro: filter_cong)
  qed
qed simp

lemma keep_keys_all:
  "keep_keys [] vs = first_by id (filter (\<lambda>k. k \<noteq> []) (map (utf8 \<circ> strip) vs))"
  by (simp add: keep_keys_first_by)

lemma signed_fields:
  assumes "digest \<noteq> []" "\<forall>c \<in> set digest. c \<noteq> CHR '','' \<and> \<not> is_space c"
  shows "header_fields [] (split_on (CHR '','') (''t='' @ int_str t @ '',v1='' @ digest)) =
    Some [(''t'', int_str t), (''v1'', digest)]"
proof -
  have "CHR '','' \<notin> set (''t='' @ int_str t)" using int_str_chars by auto
  then have "split_on (CHR '','') ((''t='' @ int_str t) @ CHR '','' # (''v1='' @ digest)) =
      (''t='' @ int_str t) # split_on (CHR '','') (''v1='' @ digest)" by (rule split_on_append)
  moreover have "split_on (CHR '','') (''v1='' @ digest) = [''v1='' @ digest]"
    using assms(2) by (intro split_on_none) auto
  moreover have "strip (''t='' @ int_str t) = ''t='' @ int_str t"
    using int_str_chars [OF last_in_set [OF int_str_nonempty]]
    by (intro strip_id) (simp_all add: is_space_def is_ascii_space_def)
  moreover have "strip (''v1='' @ digest) = ''v1='' @ digest"
    using assms last_in_set [OF assms(1)]
    by (intro strip_id) (simp_all add: is_space_def is_ascii_space_def)
  moreover have "partition_on (CHR ''='') (''t'' @ CHR ''='' # int_str t) = (''t'', True, int_str t)"
    "partition_on (CHR ''='') (''v1'' @ CHR ''='' # digest) = (''v1'', True, digest)"
    by (rule partition_on_append, simp)+
  ultimately show ?thesis using assms(1) by (simp add: has_key_def)
qed

subsection \<open>Properties\<close>

text \<open>Signing and verifying a callback body agree.  A header signed at \<open>t\<close> is accepted
  at \<open>now\<close> exactly when \<open>t\<close> is within the replay window and one of the receiver's rotation keys
  gives the same digest as the key it was signed with, in particular when it is that key.\<close>

theorem verify_signed_body:
  assumes "keys \<noteq> []" and "keys' \<noteq> []" and "\<And>k x. hmac k x \<noteq> []" and "length (int_str t) \<le> 4300"
  shows "verify_body sha hmac body (sign_body sha hmac body keys t) keys' now window =
    Inr (\<bar>now - t\<bar> \<le> window
      \<and> (\<exists>k \<in> set keys'. hmac k (signing_input sha t body) = hmac (hd keys) (signing_input sha t body)))"
proof -
  let ?d = "hexdigest (hmac (hd keys) (signing_input sha t body))"
  have sign: "sign_body sha hmac body keys t = Some (''t='' @ int_str t @ '',v1='' @ ?d)"
    using assms(1) by (cases keys) (simp_all add: sign_body_def)
  have "header_fields [] (split_on (CHR '','') (''t='' @ int_str t @ '',v1='' @ ?d)) =
      Some [(''t'', int_str t), (''v1'', ?d)]"
    by (rule signed_fields) (use assms(3) hexdigest_no_space hexdigest_plain in auto)
  moreover have "is_ascii ?d" using hexdigest_plain by (auto simp: is_ascii_def)
  ultimately show ?thesis
    using assms(2) parse_int_str [OF assms(4)]
    by (auto simp: sign verify_body_def match_keys_ascii)
qed

theorem verify_signed_body_witness:
  "let hmac = (\<lambda>k x. CHR ''d'' # k @ x) in
   verify_body id hmac ''body'' (sign_body id hmac ''body'' [''new'', ''old''] 1000) [''next'', ''new''] 1200 300 = Inr True
   \<and> verify_body id hmac ''body'' (sign_body id hmac ''body'' [''new'', ''old''] 1000) [''next'', ''new''] 1301 300 = Inr False"
proof -
  have "length (int_str 1000) \<le> 4300" by (simp add: int_str_def nat_str.simps)
  then show ?thesis
    using verify_signed_body [of "[''new'', ''old'']" "[''next'', ''new'']" "\<lambda>k x. CHR ''d'' # k @ x" 1000 id "''body''"]
    by (simp add: Let_def)
qed

text \<open>Claim C38: nothing else is accepted: an accepted header carries the hexadecimal digest, under
  one of the receiver's keys, of the time it states and of exactly this body, and that time is
  within the replay window.\<close>

theorem verify_accepts_only_signed:
  assumes "verify_body sha hmac body header keys now window = Inr True"
  shows "\<exists>h fields t ts k. header = Some h
    \<and> header_fields [] (split_on (CHR '','') h) = Some fields \<and> length fields = 2
    \<and> dget fields ''t'' = Some t \<and> parse_int t = Some ts \<and> \<bar>now - ts\<bar> \<le> window
    \<and> k \<in> set keys \<and> dget fields ''v1'' = Some (hexdigest (hmac k (signing_input sha ts body)))"
  using assms
  by (auto simp: verify_body_def not_less dest!: match_keys_True split: option.splits if_splits)

theorem verify_accepts_only_signed_witness:
  "\<exists>h. sign_body id (\<lambda>k x. CHR ''d'' # k @ x) ''body'' [''new''] 1000 = Some h
    \<and> (\<exists>fields. header_fields [] (split_on (CHR '','') h) = Some fields \<and> length fields = 2)"
proof -
  let ?h = "\<lambda>k x. CHR ''d'' # k @ x"
  have "length (int_str 1000) \<le> 4300" by (simp add: int_str_def nat_str.simps)
  from verify_accepts_only_signed
    [OF verify_signed_body [of "[''new'']" "[''new'']" ?h, OF _ _ _ this, of id "''body''" 1000 10, simplified]]
  show ?thesis by blast
qed

text \<open>The rotation keys are the non-empty comma-separated entries of the environment
  and then of the config, stripped, in that order and each once, so the environment's first
  entry signs.\<close>

theorem load_keys_rotation:
  "load_keys cfg env =
      first_by id (filter (\<lambda>k. k \<noteq> []) (map (utf8 \<circ> strip)
        ((case env of None \<Rightarrow> [] | Some e \<Rightarrow> if e = [] then [] else split_on (CHR '','') e) @ configured_keys cfg)))
   \<and> distinct (load_keys cfg env) \<and> [] \<notin> set (load_keys cfg env)"
proof -
  have eq: "load_keys cfg env =
      first_by id (filter (\<lambda>k. k \<noteq> []) (map (utf8 \<circ> strip)
        ((case env of None \<Rightarrow> [] | Some e \<Rightarrow> if e = [] then [] else split_on (CHR '','') e) @ configured_keys cfg)))"
    unfolding load_keys_def keep_keys_all by (auto split: option.splits list.splits)
  moreover have "distinct (first_by id xs)" for xs :: "bytes list"
    using distinct_first_by [of id xs] by simp
  moreover have "[] \<notin> set (first_by id (filter (\<lambda>k. k \<noteq> []) xs))" for xs :: "bytes list"
    using set_first_by_subset by fastforce
  ultimately show ?thesis by (metis (no_types, lifting))
qed

end
