(* ===== verification/Outbox.thy ===== *)
theory Outbox
  imports Url Wake_Hmac Proto Addressing Store_Props
begin

section \<open>Outbound reply delivery (\<open>outbox.py\<close>)\<close>

text \<open>
  A reply of an agent is posted to the callback URL of its source, with retries, and
  dead-lettered when they are exhausted.  \<open>post k\<close> is what the \<open>k\<close>-th POST gives: a response,
  or the exception \<open>aiohttp\<close> raises (its \<open>str\<close>, the name of its class, whether it is a
  timeout).  The URL, body and headers of the requests are part of the trace a delivery leaves,
  with the pauses between them.
\<close>

definition MAX_RETRIES :: int where "MAX_RETRIES = 3"
definition BACKOFF_DELAYS :: "rat list" where "BACKOFF_DELAYS = [1, 4, 16]"

datatype post_outcome = Response int | Raised string string bool

text \<open>A step of a delivery: a POST with its URL, body and headers, or a pause.\<close>

datatype outbox_step =
    Post string bytes "(string \<times> string) list"
  | Sleep rat

record outbox =
  ob_config :: cfg
  ob_started :: bool
  ob_max_retries :: int
  ob_backoff :: "rat list"

definition new_outbox :: "cfg \<Rightarrow> outbox" where
  "new_outbox cfg =
     \<lparr>ob_config = cfg, ob_started = False, ob_max_retries = MAX_RETRIES, ob_backoff = BACKOFF_DELAYS\<rparr>"

definition start_outbox :: "outbox \<Rightarrow> outbox" where
  "start_outbox ob = ob\<lparr>ob_started := True\<rparr>"

definition close_outbox :: "outbox \<Rightarrow> outbox" where
  "close_outbox ob = ob\<lparr>ob_started := False\<rparr>"

subsection \<open>The callback URL\<close>

definition url_scheme :: "string \<Rightarrow> string res" where
  "url_scheme url = (case urlparse url of Inl e \<Rightarrow> Inl e | Inr u \<Rightarrow> Inr (u_scheme u))"

text \<open>A value that is not a string has no scheme to decode.\<close>

definition validate_callback_url :: "pyval \<Rightarrow> string option res" where
  "validate_callback_url url =
     (case url of
        VStr u \<Rightarrow>
          (case url_scheme u of
             Inl e \<Rightarrow> Inl e
           | Inr scheme \<Rightarrow>
               Inr (if scheme \<notin> {''http'', ''https''} then Some (''disallowed scheme '' @ repr_str scheme)
                    else None))
      | VBytes u \<Rightarrow>
          (case url_scheme u of
             Inl e \<Rightarrow> Inl e
           | Inr scheme \<Rightarrow> Inr (Some (''disallowed scheme '' @ py_repr (VBytes scheme))))
      | _ \<Rightarrow> Inl AttributeError)"

subsection \<open>Payload\<close>

definition peer_identity :: "cfg \<Rightarrow> string option \<Rightarrow> dict" where
  "peer_identity cfg dest =
     (case dest of
        Some (c # d) \<Rightarrow>
          [(''destination'', VStr (c # d))]
          @ (case destination_of cfg (c # d) of
               None \<Rightarrow> []
             | Some D \<Rightarrow>
                 (case d_principal D of
                    Some (p # ps) \<Rightarrow> [(''principal'', VStr (p # ps))] | _ \<Rightarrow> []))
      | _ \<Rightarrow> [])"

text \<open>\<open>json.dumps(..., ensure_ascii=False)\<close> of the payload, which holds only strings, one integer
  and one object of strings.\<close>

definition json_char_u :: "char \<Rightarrow> string" where
  "json_char_u c = (if 127 \<le> (of_char c :: nat) then [c] else json_char c)"

definition json_string_u :: "string \<Rightarrow> string" where
  "json_string_u s = [CHR 0x22] @ concat (map json_char_u s) @ [CHR 0x22]"

fun dumps_u :: "pyval \<Rightarrow> string" where
  "dumps_u (VStr s) = json_string_u s"
| "dumps_u (VList xs) = ''['' @ join '','' (map dumps_u xs) @ '']''"
| "dumps_u (VDict d) =
     ''{'' @ join '','' (map (\<lambda>p. json_string_u (fst p) @ '':'' @ dumps_u (snd p)) d) @ ''}''"
| "dumps_u v = dumps_text v"

definition reply_body :: "cfg \<Rightarrow> string \<Rightarrow> string \<Rightarrow> string option \<Rightarrow> bytes" where
  "reply_body cfg in_reply_to content dest =
     utf8 (dumps_u (VDict
       [(''v'', VInt 0), (''in_reply_to'', VStr in_reply_to), (''content'', VStr content),
        (''meta'', VDict (peer_identity cfg dest))]))"

definition reply_headers ::
  "(bytes \<Rightarrow> bytes) \<Rightarrow> (bytes \<Rightarrow> bytes \<Rightarrow> bytes) \<Rightarrow> cfg \<Rightarrow> string option \<Rightarrow> int \<Rightarrow> string \<Rightarrow> bytes \<Rightarrow>
   (string \<times> string) list" where
  "reply_headers sha hmac cfg env t reply_id body =
     [(''Content-Type'', ''application/json''), (''Idempotency-Key'', reply_id)]
     @ (case sign_body sha hmac body (load_keys cfg env) t of
          None \<Rightarrow> [] | Some sig \<Rightarrow> [(SIGNATURE_HEADER, sig)])"

definition dead_letter_reply ::
  "(nat \<Rightarrow> string) \<Rightarrow> pytime \<Rightarrow> string \<Rightarrow> string \<Rightarrow> string \<Rightarrow> string \<Rightarrow> string option \<Rightarrow> int \<Rightarrow>
   string option \<Rightarrow> store option \<Rightarrow> string option \<times> store option" where
  "dead_letter_reply ulid now source reply_id in_reply_to content error attempts dest st =
     (case st of
        None \<Rightarrow> (None, None)
      | Some s \<Rightarrow>
          (case dead_letter ulid now ''reply'' source reply_id
                  ([(''source'', VStr source), (''reply_id'', VStr reply_id),
                    (''in_reply_to'', VStr in_reply_to), (''content'', VStr content)]
                   @ opt_entry ''destination'' dest) error attempts s of
             Inl _ \<Rightarrow> (None, Some s)
           | Inr (i, s') \<Rightarrow> (Some i, Some s')))"

subsection \<open>The retry loop\<close>

definition raised_text :: "string \<Rightarrow> string \<Rightarrow> bool \<Rightarrow> string" where
  "raised_text text cls timeout =
     (if timeout then ''callback timed out'' else if text \<noteq> [] then text else cls)"

text \<open>Where the loop stops: at a 2xx status, or after the last attempt with the last error and the
  last HTTP status seen, or in an \<open>IndexError\<close> when there are no delays to pause for.\<close>

datatype loop_end = Delivered int | Exhausted "string option" "int option" | Crashed exn

definition backoff_delay :: "rat list \<Rightarrow> int \<Rightarrow> rat option" where
  "backoff_delay delays attempt =
     (if delays = [] then None else Some (delays ! nat (min attempt (int (length delays) - 1))))"

text \<open>\<open>n\<close> attempts are left of \<open>max_retries\<close>, the next one is number \<open>attempt\<close>.\<close>

fun attempts ::
  "outbox \<Rightarrow> (nat \<Rightarrow> post_outcome) \<Rightarrow> outbox_step \<Rightarrow> nat \<Rightarrow> nat \<Rightarrow> string option \<Rightarrow> int option \<Rightarrow>
   loop_end \<times> outbox_step list" where
  "attempts ob post req attempt 0 err http = (Exhausted err http, [])"
| "attempts ob post req attempt (Suc n) err http =
     (let outcome = (if ob_started ob then post attempt
                     else Raised ''outbox not started'' ''RuntimeError'' False);
          sent = (if ob_started ob then [req] else []);
          (done, err', http') =
            (case outcome of
               Response status \<Rightarrow>
                 if 200 \<le> status \<and> status < 300 then (Some status, err, http)
                 else (None, Some (''HTTP '' @ int_str status), Some status)
             | Raised text cls timeout \<Rightarrow> (None, Some (raised_text text cls timeout), http))
      in case done of
           Some status \<Rightarrow> (Delivered status, sent)
         | None \<Rightarrow>
             if n = 0 then (Exhausted err' http', sent)
             else
               (case backoff_delay (ob_backoff ob) (int attempt) of
                  None \<Rightarrow> (Crashed IndexError, sent)
                | Some delay \<Rightarrow>
                    (case attempts ob post req (Suc attempt) n err' http' of
                       (r, steps) \<Rightarrow> (r, sent @ Sleep delay # steps))))"

definition opt_int :: "int option \<Rightarrow> pyval" where
  "opt_int v = (case v of None \<Rightarrow> VNone | Some i \<Rightarrow> VInt i)"

definition opt_str :: "string option \<Rightarrow> pyval" where
  "opt_str v = (case v of None \<Rightarrow> VNone | Some s \<Rightarrow> VStr s)"

definition mk_result :: "string \<Rightarrow> string \<Rightarrow> int option \<Rightarrow> string option \<Rightarrow> dict" where
  "mk_result reply_id status http err =
     [(''reply_id'', VStr reply_id), (''status'', VStr status), (''http_status'', opt_int http),
      (''error'', opt_str err)]"

text \<open>\<open>source_cfg.get("callback_url") or config.get("default_callback_url")\<close>.\<close>

definition callback_url :: "cfg \<Rightarrow> string \<Rightarrow> pyval option res" where
  "callback_url cfg source =
     (case (case dget (sender_table cfg) source of None \<Rightarrow> VDict [] | Some v \<Rightarrow> v) of
        VDict entry \<Rightarrow> Inr (py_or (dget entry ''callback_url'') (dget cfg ''default_callback_url''))
      | _ \<Rightarrow> Inl AttributeError)"

definition deliver_reply ::
  "(nat \<Rightarrow> string) \<Rightarrow> (bytes \<Rightarrow> bytes) \<Rightarrow> (bytes \<Rightarrow> bytes \<Rightarrow> bytes) \<Rightarrow> (nat \<Rightarrow> post_outcome) \<Rightarrow>
   outbox \<Rightarrow> string option \<Rightarrow> pytime \<Rightarrow> string \<Rightarrow> string \<Rightarrow> string \<Rightarrow> string \<Rightarrow> string option \<Rightarrow>
   store option \<Rightarrow> dict res \<times> outbox_step list \<times> store option" where
  "deliver_reply ulid sha hmac post ob env now source reply_id in_reply_to content dest st =
     (let cfg = ob_config ob in
      case callback_url cfg source of
        Inl e \<Rightarrow> (Inl e, [], st)
      | Inr url_value \<Rightarrow>
          if \<not> truthy_opt url_value
          then (Inr (mk_result reply_id ''no_callback'' None None), [], st)
          else
            (case validate_callback_url (the url_value) of
               Inl e \<Rightarrow> (Inl e, [], st)
             | Inr (Some url_err) \<Rightarrow>
                 (Inr (mk_result reply_id ''rejected'' None (Some url_err)), [],
                  snd (dead_letter_reply ulid now source reply_id in_reply_to content (Some url_err) 0 dest st))
             | Inr None \<Rightarrow>
                 (let body = reply_body cfg in_reply_to content dest;
                      headers = reply_headers sha hmac cfg env \<lfloor>now\<rfloor> reply_id body;
                      req = Post (py_str (the url_value)) body headers
                  in case attempts ob post req 0 (nat (ob_max_retries ob)) None None of
                       (Delivered status, steps) \<Rightarrow>
                         (Inr (mk_result reply_id ''delivered'' (Some status) None), steps, st)
                     | (Crashed e, steps) \<Rightarrow> (Inl e, steps, st)
                     | (Exhausted err http, steps) \<Rightarrow>
                         (case dead_letter_reply ulid now source reply_id in_reply_to content err
                                 (ob_max_retries ob) dest st of
                            (dl, st') \<Rightarrow>
                              (Inr (mk_result reply_id ''failed'' http err @ opt_entry ''dead_letter_id'' dl),
                               steps, st')))))"

end
