(* ===== verification/Outbox_Props.thy ===== *)
theory Outbox_Props
  imports Outbox
begin

section \<open>What reply delivery promises\<close>

text \<open>
  The retry loop against a reference description, the accounting of every reply, the result
  frames against the wire protocol, and the signature the requests carry.
\<close>

subsection \<open>The retry loop\<close>

definition succeeds :: "post_outcome \<Rightarrow> bool" where
  "succeeds o' \<longleftrightarrow> (case o' of Response s \<Rightarrow> 200 \<le> s \<and> s < 300 | _ \<Rightarrow> False)"

definition status_of :: "post_outcome \<Rightarrow> int option" where
  "status_of o' = (case o' of Response s \<Rightarrow> Some s | _ \<Rightarrow> None)"

definition error_of :: "post_outcome \<Rightarrow> string" where
  "error_of o' = (case o' of Response s \<Rightarrow> ''HTTP '' @ int_str s | Raised t c b \<Rightarrow> raised_text t c b)"

text \<open>\<open>m\<close> requests with the pauses the delays give after attempts \<open>a\<close>, \<open>a + 1\<close>, \dots between them.\<close>

fun requests :: "outbox \<Rightarrow> outbox_step \<Rightarrow> nat \<Rightarrow> nat \<Rightarrow> outbox_step list" where
  "requests ob req a 0 = []"
| "requests ob req a (Suc 0) = [req]"
| "requests ob req a (Suc (Suc m)) =
     req # Sleep (the (backoff_delay (ob_backoff ob) (int a))) # requests ob req (Suc a) (Suc m)"

definition last_some :: "'a option \<Rightarrow> 'a option \<Rightarrow> 'a option" where
  "last_some old new = (if new = None then old else new)"

text \<open>The reference: the first attempt that succeeds ends the delivery; without one the last
  error and the last HTTP status are reported.\<close>

definition attempts_spec ::
  "outbox \<Rightarrow> (nat \<Rightarrow> post_outcome) \<Rightarrow> outbox_step \<Rightarrow> nat \<Rightarrow> nat \<Rightarrow> string option \<Rightarrow> int option \<Rightarrow>
   loop_end \<times> outbox_step list" where
  "attempts_spec ob post req a n err http =
     (case find (\<lambda>k. succeeds (post k)) [a..<a + n] of
        Some k \<Rightarrow> (Delivered (the (status_of (post k))), requests ob req a (Suc (k - a)))
      | None \<Rightarrow>
          (Exhausted (if n = 0 then err else Some (error_of (post (a + n - 1))))
             (fold (\<lambda>k h. last_some h (status_of (post k))) [a..<a + n] http),
           requests ob req a n))"

lemma attempts_one:
  assumes "ob_started ob" "ob_backoff ob \<noteq> []"
  shows "attempts ob post req a (Suc n) err http =
    (if succeeds (post a) then (Delivered (the (status_of (post a))), [req])
     else if n = 0 then (Exhausted (Some (error_of (post a))) (last_some http (status_of (post a))), [req])
     else (case attempts ob post req (Suc a) n (Some (error_of (post a))) (last_some http (status_of (post a))) of
             (r, steps) \<Rightarrow> (r, req # Sleep (the (backoff_delay (ob_backoff ob) (int a))) # steps)))"
  using assms
  by (cases "post a") (auto simp: succeeds_def status_of_def error_of_def last_some_def Let_def
      backoff_delay_def)

lemma find_in_range: "find P [a..<b] = Some k \<Longrightarrow> a \<le> k \<and> k < b \<and> P k"
  by (auto simp: find_Some_iff)

lemma attempts_eq_spec:
  assumes "ob_started ob" "ob_backoff ob \<noteq> []"
  shows "attempts ob post req a n err http = attempts_spec ob post req a n err http"
proof (induction n arbitrary: a err http)
  case 0
  then show ?case by (simp add: attempts_spec_def)
next
  case (Suc n)
  have range: "[a..<a + Suc n] = a # [Suc a..<Suc a + n]" by (simp add: upt_conv_Cons)
  show ?case
  proof (cases "succeeds (post a)")
    case True
    then show ?thesis
      unfolding attempts_one [OF assms] attempts_spec_def range by simp
  next
    case False
    note step = attempts_one [OF assms, of post req a n err http]
    show ?thesis
    proof (cases n)
      case 0
      with False show ?thesis unfolding step attempts_spec_def range by simp
    next
      case (Suc m)
      show ?thesis
      proof (cases "find (\<lambda>k. succeeds (post k)) [Suc a..<Suc a + n]")
        case None
        with False Suc show ?thesis
          unfolding step Suc.IH attempts_spec_def range by simp
      next
        case (Some k)
        then have "Suc a \<le> k" using find_in_range by blast
        then have "Suc (k - a) = Suc (Suc (k - Suc a))" by simp
        with False Some Suc show ?thesis
          unfolding step Suc.IH attempts_spec_def range by simp
      qed
    qed
  qed
qed

text \<open>Claim C39: the retry loop is the reference.  A started outbox whose list of delays is not empty posts
  until the first 2xx response and at most as often as it has attempts, pausing by the configured
  delays (the last one repeated) between attempts and never after the last; when none succeeds it
  reports the last error and the last HTTP status it saw.\<close>

theorem retry_loop_is_reference:
  assumes "ob_started ob" and "ob_backoff ob \<noteq> []"
  shows "attempts ob post req 0 n None None =
    (case find (\<lambda>k. succeeds (post k)) [0..<n] of
       Some k \<Rightarrow> (Delivered (the (status_of (post k))), requests ob req 0 (Suc k))
     | None \<Rightarrow> (Exhausted (if n = 0 then None else Some (error_of (post (n - 1))))
                 (fold (\<lambda>k h. last_some h (status_of (post k))) [0..<n] None), requests ob req 0 n))"
  unfolding attempts_eq_spec [OF assms] attempts_spec_def add_0 diff_zero ..

definition demo_outbox :: outbox where
  "demo_outbox = start_outbox (new_outbox
     [(''senders'', VDict [(''ci'', VDict [(''callback_url'', VStr ''https://ci/cb'')]),
                          (''bad'', VDict [(''callback_url'', VStr ''file:///etc'')])]),
      (''wake'', VDict [(''hmac_secret'', VStr ''k1,k2'')])])"

lemma demo_outbox_fields: "ob_started demo_outbox" "ob_backoff demo_outbox = [1, 4, 16]" "ob_max_retries demo_outbox = 3"
  by (simp_all add: demo_outbox_def start_outbox_def new_outbox_def BACKOFF_DELAYS_def MAX_RETRIES_def)

theorem retry_loop_is_reference_witness:
  "attempts demo_outbox (\<lambda>k. if k < 2 then Response 503 else Response 200) (Sleep 0) 0 3 None None =
     (Delivered 200, [Sleep 0, Sleep 1, Sleep 0, Sleep 4, Sleep 0])"
proof -
  have "find (\<lambda>k. succeeds (if k < 2 then Response 503 else Response 200)) [0..<3] = Some 2"
    by (simp add: succeeds_def upt_rec numeral_eq_Suc)
  then show ?thesis
    using retry_loop_is_reference [of demo_outbox "\<lambda>k. if k < 2 then Response 503 else Response 200" "Sleep 0" 3]
    by (simp add: demo_outbox_fields status_of_def backoff_delay_def numeral_eq_Suc)
qed

subsection \<open>Every reply is accounted for\<close>

definition reply_status :: "dict \<Rightarrow> string" where
  "reply_status r = (case str_of (dget r ''status'') of None \<Rightarrow> [] | Some s \<Rightarrow> s)"

text \<open>\<open>st'\<close> has one more dead letter than \<open>st\<close>, with this reply as payload.\<close>

definition dead_lettered ::
  "string \<Rightarrow> string \<Rightarrow> string \<Rightarrow> string \<Rightarrow> store option \<Rightarrow> store option \<Rightarrow> bool" where
  "dead_lettered source reply_id in_reply_to content st st' \<longleftrightarrow>
     (case (st, st') of
        (Some s, Some s') \<Rightarrow>
          st_pending s' = st_pending s \<and> st_dedupe s' = st_dedupe s
          \<and> (\<exists>d. st_dead s' = st_dead s @ [d] \<and> dl_kind d = ''reply'' \<and> dl_source d = source
               \<and> dl_ref_id d = reply_id \<and> dl_redrive_status d = None
               \<and> dget (dl_payload d) ''content'' = Some (VStr content)
               \<and> dget (dl_payload d) ''in_reply_to'' = Some (VStr in_reply_to))
      | _ \<Rightarrow> False)"

lemma dead_letter_reply_accounts:
  "if st = None then snd (dead_letter_reply u now source reply_id in_reply_to content err n dest st) = None
   else dead_lettered source reply_id in_reply_to content st
     (snd (dead_letter_reply u now source reply_id in_reply_to content err n dest st))"
  by (simp add: dead_lettered_def dead_letter_reply_def dead_letter_def DEAD_LETTER_KINDS_def
      store_simps mk_dead_def split: option.splits)

lemma reply_status_mk [simp]: "reply_status (mk_result i s h e @ r) = s" "reply_status (mk_result i s h e) = s"
  by (simp_all add: reply_status_def mk_result_def str_of_def)

text \<open>The POSTs among the steps of a delivery.\<close>

definition posts_made :: "outbox_step list \<Rightarrow> nat" where
  "posts_made steps = length (filter (\<lambda>x. case x of Post _ _ _ \<Rightarrow> True | Sleep _ \<Rightarrow> False) steps)"

lemma posts_made_simps [simp]:
  "posts_made [] = 0" "posts_made (Post url body headers # steps) = Suc (posts_made steps)"
  "posts_made (Sleep d # steps) = posts_made steps"
  by (simp_all add: posts_made_def)

text \<open>The loop ends \<open>Delivered\<close> exactly at the first answer with a 2xx status, and \<open>Exhausted\<close> after all its
  attempts without one.\<close>

lemma attempts_end:
  assumes "attempts ob post (Post url body headers) a n err http = (out, steps)"
  shows "case out of
      Delivered status \<Rightarrow> 0 < posts_made steps \<and> post (a + posts_made steps - 1) = Response status \<and> 200 \<le> status
        \<and> status < 300 \<and> (\<forall>k < posts_made steps - 1. \<not> succeeds (post (a + k)))
    | Exhausted _ _ \<Rightarrow> posts_made steps = (if ob_started ob then n else 0)
        \<and> (\<forall>k < posts_made steps. \<not> succeeds (post (a + k)))
    | Crashed _ \<Rightarrow> True"
  using assms
proof (induction n arbitrary: a err http out steps)
  case 0
  then show ?case by auto
next
  case (Suc n)
  let ?req = "Post url body headers"
  show ?case
  proof (cases "ob_started ob \<and> succeeds (post a)")
    case True
    with Suc.prems show ?thesis
      by (cases "post a") (auto simp: succeeds_def Let_def)
  next
    case False
    let ?sent = "if ob_started ob then [?req] else []"
    have again: "(n = 0 \<and> (\<exists>e h. out = Exhausted e h) \<and> steps = ?sent) \<or> (\<exists>e. out = Crashed e)
        \<or> (n \<noteq> 0 \<and> (\<exists>d e h steps'. attempts ob post ?req (Suc a) n e h = (out, steps') \<and> steps = ?sent @ Sleep d # steps'))"
      using Suc.prems False
      by (cases "post a")
        (auto simp: succeeds_def Let_def case_prod_beta prod_eq_iff split: if_splits option.splits)
    have one: "\<not> succeeds (post (a + k))" if "ob_started ob" "k < Suc m" "\<forall>k < m. \<not> succeeds (post (Suc a + k))" for k m
      using that False by (cases k) auto
    from again show ?thesis
    proof (elim disjE exE conjE)
      fix d e h steps'
      assume "attempts ob post ?req (Suc a) n e h = (out, steps')" and steps: "steps = ?sent @ Sleep d # steps'"
      note IH = Suc.IH [OF this(1)]
      have stopped: "posts_made steps' = 0" if "\<not> ob_started ob"
        using \<open>attempts ob post ?req (Suc a) n e h = (out, steps')\<close> that
      proof (induction n arbitrary: a e h out steps')
        case (Suc m)
        then show ?case by (auto simp: Let_def case_prod_beta split: if_splits option.splits) (metis prod.collapse)
      qed auto
      have made: "posts_made steps = (if ob_started ob then Suc (posts_made steps') else posts_made steps')"
        by (simp add: steps)
      show ?thesis
      proof (cases out)
        case (Delivered status)
        then have "ob_started ob" using IH stopped by auto
        with Delivered IH one [of _ "posts_made steps' - 1"] made show ?thesis
          by (auto simp: less_Suc_eq_le Suc_pred)
      next
        case (Exhausted e' h')
        with IH one [of _ "posts_made steps'"] made show ?thesis by (auto simp: stopped)
      qed simp
    qed (use False in auto)
  qed
qed

lemma deliver_reply_outcome:
  assumes "deliver_reply u sha hmac post ob env now source reply_id in_reply_to content dest st = (Inr r, steps, st')"
  shows "reply_status r = ''delivered'' \<and> st' = st \<and> 0 < posts_made steps \<and> succeeds (post (posts_made steps - 1))
      \<and> (\<forall>k < posts_made steps - 1. \<not> succeeds (post k))
    \<or> reply_status r = ''no_callback'' \<and> st' = st \<and> steps = []
      \<and> (\<exists>v. callback_url (ob_config ob) source = Inr v \<and> \<not> truthy_opt v)
    \<or> (reply_status r = ''failed'' \<and> posts_made steps = (if ob_started ob then nat (ob_max_retries ob) else 0)
          \<and> (\<forall>k < posts_made steps. \<not> succeeds (post k))
        \<or> reply_status r = ''rejected'' \<and> steps = []
          \<and> (\<exists>v e. callback_url (ob_config ob) source = Inr (Some v) \<and> validate_callback_url v = Inr (Some e)))
      \<and> (if st = None then st' = None else dead_lettered source reply_id in_reply_to content st st')"
proof -
  note acc = dead_letter_reply_accounts [of st u now source reply_id in_reply_to content _ _ dest]
  let ?body = "reply_body (ob_config ob) in_reply_to content dest"
  let ?req = "\<lambda>v. Post (py_str v) ?body (reply_headers sha hmac (ob_config ob) env \<lfloor>now\<rfloor> reply_id ?body)"
  obtain c where c: "callback_url (ob_config ob) source = Inr c"
    using assms by (cases "callback_url (ob_config ob) source") (simp_all add: deliver_reply_def)
  show ?thesis
  proof (cases "truthy_opt c")
    case False
    with assms c show ?thesis by (auto simp: deliver_reply_def)
  next
    case True
    then obtain v where v: "c = Some v" by (auto simp: truthy_opt_def split: option.splits)
    obtain e where e: "validate_callback_url v = Inr e"
      using assms c True v by (cases "validate_callback_url v") (simp_all add: deliver_reply_def)
    show ?thesis
    proof (cases e)
      case (Some err)
      then show ?thesis using assms c True v e acc [of "Some err" 0] by (auto simp: deliver_reply_def)
    next
      case None
      obtain out steps0 where run: "attempts ob post (?req v) 0 (nat (ob_max_retries ob)) None None = (out, steps0)"
        by (metis surj_pair)
      note fin = attempts_end [OF run]
      note del = assms [unfolded deliver_reply_def c Let_def]
      show ?thesis
      proof (cases out)
        case (Delivered status)
        with del True v e None run fin show ?thesis by (auto simp: succeeds_def)
      next
        case (Exhausted err http)
        with del True v e None run fin acc [of err "ob_max_retries ob"] show ?thesis
          by (auto simp: case_prod_beta)
      next
        case (Crashed x)
        with del True v e None run show ?thesis by auto
      qed
    qed
  qed
qed


lemma demo_callbacks:
  "callback_url (ob_config demo_outbox) ''ci'' = Inr (Some (VStr ''https://ci/cb''))"
  "callback_url (ob_config demo_outbox) ''bad'' = Inr (Some (VStr ''file:///etc''))"
  "callback_url (ob_config demo_outbox) ''other'' = Inr None"
  "validate_callback_url (VStr ''https://ci/cb'') = Inr None"
  "case validate_callback_url (VStr ''file:///etc'') of Inr (Some e) \<Rightarrow> True | _ \<Rightarrow> False"
  by code_simp+


subsection \<open>Result frames\<close>

text \<open>The shape of a result.\<close>

definition is_result :: "string \<Rightarrow> dict \<Rightarrow> bool" where
  "is_result reply_id r \<longleftrightarrow> (\<exists>status http err dl. r = mk_result reply_id status http err @ opt_entry ''dead_letter_id'' dl
     \<and> status \<in> {''delivered'', ''no_callback'', ''failed'', ''rejected''})"

lemma is_result_intros:
  "status \<in> {''delivered'', ''no_callback'', ''failed'', ''rejected''} \<Longrightarrow>
     is_result i (mk_result i status http err @ opt_entry ''dead_letter_id'' dl)"
  "status \<in> {''delivered'', ''no_callback'', ''failed'', ''rejected''} \<Longrightarrow>
     is_result i (mk_result i status http err)"
  unfolding is_result_def by (blast, intro exI [of _ status] exI [of _ http] exI [of _ err] exI [of _ None])
    (simp add: opt_entry_def)

lemma deliver_reply_result:
  assumes "deliver_reply u sha hmac post ob env now source reply_id in_reply_to content dest st = (Inr r, steps, st')"
  shows "is_result reply_id r"
proof -
  note intros = is_result_intros [of "''delivered''"] is_result_intros [of "''no_callback''"]
    is_result_intros [of "''failed''"] is_result_intros [of "''rejected''"]
  show ?thesis using assms
    by (auto simp: deliver_reply_def Let_def intro: intros
        split: sum.splits if_splits option.splits prod.splits loop_end.splits)
qed

text \<open>The result frame of a reply the outbox rejects (a callback URL whose scheme is not
  allowed) is not a frame of the protocol: its status is none of the three the validator of
  \<open>reply_result\<close> admits, so an adapter that validates it sees \<open>bad_frame\<close>.  All other results
  are sound frames.\<close>

theorem reply_result_sound_iff:
  assumes "deliver_reply u sha hmac post ob env now source reply_id in_reply_to content dest st = (Inr r, steps, st')"
  shows "validate_frame (VDict ((''type'', VStr ''reply_result'') # r)) None =
    (if reply_status r = ''rejected'' then Some bad_frame else None)"
proof -
  from deliver_reply_result [OF assms] obtain status http err dl where
    r: "r = mk_result reply_id status http err @ opt_entry ''dead_letter_id'' dl"
    and s: "status \<in> {''delivered'', ''no_callback'', ''failed'', ''rejected''}"
    unfolding is_result_def by blast
  have "validate_frame (VDict ((''type'', VStr ''reply_result'') # r)) None =
      validate_reply_result ((''type'', VStr ''reply_result'') # r)" for r
    by (simp add: validate_frame_def str_of_def VALIDATORS_def)
  moreover have "validate_reply_result ((''type'', VStr ''reply_result'') # r) =
      (if status \<in> set [''delivered'', ''failed'', ''no_callback''] then None else Some bad_frame)"
    unfolding r validate_reply_result_def mk_result_def require_str_def is_str_def orelse_def Proto.check_def
    by simp
  ultimately have "validate_frame (VDict ((''type'', VStr ''reply_result'') # r)) None =
      (if status \<in> set [''delivered'', ''failed'', ''no_callback''] then None else Some bad_frame)"
    by (simp only:)
  then show ?thesis using s unfolding r reply_status_mk by auto
qed

theorem reply_result_sound_iff_witness:
  "\<exists>r st'. deliver_reply demo_ulid id demo_hmac (\<lambda>_. Response 200) demo_outbox None 100 ''bad'' ''r1'' ''e1'' ''hi'' None
      None = (Inr r, [], st')
    \<and> validate_frame (VDict ((''type'', VStr ''reply_result'') # r)) None = Some bad_frame"
proof -
  obtain e where "validate_callback_url (VStr ''file:///etc'') = Inr (Some e)"
    using demo_callbacks(5) by (auto split: sum.splits option.splits)
  then obtain r st' where r: "deliver_reply demo_ulid id demo_hmac (\<lambda>_. Response 200) demo_outbox None 100 ''bad'' ''r1'' ''e1'' ''hi''
      None None = (Inr r, [], st')" "reply_status r = ''rejected''"
    using demo_callbacks(2) by (simp add: deliver_reply_def Let_def truthy_opt_def)
  with reply_result_sound_iff [OF r(1)] show ?thesis by auto
qed

subsection \<open>Signatures\<close>

lemma attempts_posts:
  "set (snd (attempts ob post req a n err http)) \<subseteq> insert req (range Sleep)"
proof (induction n arbitrary: a err http)
  case (Suc n)
  have IH: "x = req \<or> x \<in> range Sleep" if "x \<in> set (snd (attempts ob post req a' n err' http'))" for x a' err' http'
    using that Suc.IH by blast
  show ?case
    by (auto simp: Let_def case_prod_beta split: option.splits dest!: IH)
qed simp

lemma deliver_reply_steps:
  "fst (snd (deliver_reply u sha hmac post ob env now source reply_id in_reply_to content dest st)) =
    (case callback_url (ob_config ob) source of
       Inr (Some v) \<Rightarrow>
         if truthy v \<and> validate_callback_url v = Inr None
         then snd (attempts ob post (Post (py_str v) (reply_body (ob_config ob) in_reply_to content dest)
                (reply_headers sha hmac (ob_config ob) env \<lfloor>now\<rfloor> reply_id
                   (reply_body (ob_config ob) in_reply_to content dest))) 0 (nat (ob_max_retries ob)) None None)
         else []
     | _ \<Rightarrow> [])"
proof (cases "callback_url (ob_config ob) source")
  case (Inr c)
  show ?thesis
  proof (cases c)
    case (Some v)
    with Inr show ?thesis
      by (cases "validate_callback_url v")
        (simp_all add: deliver_reply_def Let_def truthy_opt_def case_prod_beta split: option.split loop_end.split)
  qed (simp add: Inr deliver_reply_def truthy_opt_def)
qed (simp add: deliver_reply_def)

text \<open>Every request of a delivery goes to the callback URL of the source, with the body
  of this reply, and its signature header verifies under the configured keys at the time of
  signing, when there are keys; without keys no request verifies.\<close>

theorem requests_signed:
  assumes "deliver_reply u sha hmac post ob env now source reply_id in_reply_to content dest st = (res, steps, st')"
    and "Post url body headers \<in> set steps"
    and "\<And>k x. hmac k x \<noteq> []" and "length (int_str \<lfloor>now\<rfloor>) \<le> 4300" and "0 \<le> window"
  shows "(\<exists>v. callback_url (ob_config ob) source = Inr (Some v) \<and> url = py_str v)
    \<and> body = reply_body (ob_config ob) in_reply_to content dest
    \<and> verify_body sha hmac body (dget headers SIGNATURE_HEADER) (load_keys (ob_config ob) env) \<lfloor>now\<rfloor> window
        = Inr (load_keys (ob_config ob) env \<noteq> [])"
proof -
  let ?cfg = "ob_config ob" and ?keys = "load_keys (ob_config ob) env"
  let ?body = "reply_body ?cfg in_reply_to content dest"
  from assms(1,2) have "Post url body headers \<in>
      set (fst (snd (deliver_reply u sha hmac post ob env now source reply_id in_reply_to content dest st)))" by simp
  then obtain v where v: "callback_url ?cfg source = Inr (Some v)"
    and "Post url body headers \<in> set (snd (attempts ob post (Post (py_str v) ?body
           (reply_headers sha hmac ?cfg env \<lfloor>now\<rfloor> reply_id ?body)) 0 (nat (ob_max_retries ob)) None None))"
    unfolding deliver_reply_steps by (auto split: sum.splits option.splits if_splits) metis
  then have "Post url body headers \<in> insert (Post (py_str v) ?body
      (reply_headers sha hmac ?cfg env \<lfloor>now\<rfloor> reply_id ?body)) (range Sleep)" using attempts_posts by blast
  then have req: "url = py_str v" "body = ?body" "headers = reply_headers sha hmac ?cfg env \<lfloor>now\<rfloor> reply_id ?body"
    by auto
  have "dget headers SIGNATURE_HEADER = sign_body sha hmac ?body ?keys \<lfloor>now\<rfloor>"
    by (simp add: req(3) reply_headers_def SIGNATURE_HEADER_def split: option.splits)
  moreover have "verify_body sha hmac ?body (sign_body sha hmac ?body ?keys \<lfloor>now\<rfloor>) ?keys \<lfloor>now\<rfloor> window = Inr (?keys \<noteq> [])"
  proof (cases "?keys = []")
    case True
    then show ?thesis by (simp add: sign_body_def verify_body_def)
  next
    case False
    then have "hd ?keys \<in> set ?keys" by simp
    with verify_signed_body [OF False False assms(3,4)] False assms(5) show ?thesis by auto
  qed
  ultimately show ?thesis using v req by simp
qed

lemma demo_keys: "load_keys (ob_config demo_outbox) None = [''k1'', ''k2'']"
  by code_simp

theorem requests_signed_witness:
  "\<exists>body headers.
     fst (snd (deliver_reply demo_ulid id (\<lambda>k x. CHR ''d'' # k @ x) (\<lambda>_. Response 204) demo_outbox None 100 ''ci'' ''r1'' ''e1'' ''hi'' None None))
       = [Post ''https://ci/cb'' body headers]
     \<and> verify_body id (\<lambda>k x. CHR ''d'' # k @ x) body (dget headers SIGNATURE_HEADER) [''k1'', ''k2''] 100 300 = Inr True"
proof -
  let ?h = "\<lambda>k x. CHR ''d'' # k @ x"
  let ?run = "deliver_reply demo_ulid id ?h (\<lambda>_. Response 204) demo_outbox None 100 ''ci'' ''r1'' ''e1'' ''hi'' None None"
  obtain body headers where steps: "fst (snd ?run) = [Post ''https://ci/cb'' body headers]"
    unfolding deliver_reply_steps
    using demo_callbacks(1,4) by (simp add: demo_outbox_fields numeral_eq_Suc)
  obtain res st' where run: "?run = (res, [Post ''https://ci/cb'' body headers], st')"
    using steps by (metis prod.collapse)
  have len: "length (int_str \<lfloor>100 :: rat\<rfloor>) \<le> 4300" by (simp add: int_str_def nat_str.simps)
  have "verify_body id ?h body (dget headers SIGNATURE_HEADER) [''k1'', ''k2''] 100 300 = Inr True"
    using requests_signed [OF run _ _ len, of "''https://ci/cb''" body headers 300] by (auto simp: demo_keys)
  with steps show ?thesis by blast
qed

end
