(* ===== verification/Socket_Server.thy ===== *)
theory Socket_Server
  imports Drain_Props Outbox_Props
begin

section \<open>The socket server (\<open>socket_server.py\<close>)\<close>

text \<open>
  Adapters connect over a unix socket, say \<open>hello\<close>, and then exchange frames.  The server's state
  is the open connections in arrival order, the router and the outbox it calls, the frames it
  wrote itself, the steps of the reply deliveries and the connections whose writer it closed.

  \<open>loads\<close> is \<open>json.loads\<close> on one line; \<open>up\<close> says whether a write to the connection at hand
  succeeds (a failing write raises).  The handlers run one after the other.
\<close>

definition MAX_CONNECTIONS :: nat where "MAX_CONNECTIONS = 16"
definition MAX_BUSY_MISSED_PONGS :: int where "MAX_BUSY_MISSED_PONGS = 4"

record conn =
  c_adapter :: string
  c_instance :: string
  c_sources :: "pyval list"
  c_destinations :: "string list"
  c_pending_ping :: bool
  c_busy_missed :: int

record server =
  sv_router :: router
  sv_outbox :: "outbox option"
  sv_conns :: "(string \<times> conn) list"
  sv_sent :: "(string \<times> dict) list"
  sv_steps :: "outbox_step list"
  sv_closed :: "string set"

subsection \<open>Frames\<close>

datatype json_error = JSONDecodeError | Other_error exn

datatype read_error = Bad_frame | Frame_too_large | Peer_closed | Read_failed exn

definition read_frame :: "(bytes \<Rightarrow> json_error + pyval) \<Rightarrow> bytes \<Rightarrow> read_error + pyval" where
  "read_frame loads line =
     (if line = [] then Inl Peer_closed
      else if MAX_FRAME_SIZE < length line then Inl Frame_too_large
      else
        (case loads line of
           Inl JSONDecodeError \<Rightarrow> Inl Bad_frame
         | Inl (Other_error e) \<Rightarrow> Inl (Read_failed e)
         | Inr v \<Rightarrow> Inr v))"

definition code_text :: "code \<Rightarrow> string" where
  "code_text c = (case c of bad_frame \<Rightarrow> ''bad_frame'' | version_unsupported \<Rightarrow> ''version_unsupported''
     | unexpected_type \<Rightarrow> ''unexpected_type'')"

definition error_frame :: "string \<Rightarrow> string \<Rightarrow> bool \<Rightarrow> dict" where
  "error_frame code message fatal =
     [(''type'', VStr ''error''), (''code'', VStr code), (''message'', VStr message), (''fatal'', VBool fatal)]"

definition send_error :: "bool \<Rightarrow> string \<Rightarrow> string \<Rightarrow> string \<Rightarrow> bool \<Rightarrow> server \<Rightarrow> server" where
  "send_error up sid code message fatal S =
     (if up then S\<lparr>sv_sent := sv_sent S @ [(sid, error_frame code message fatal)]\<rparr> else S)"

definition close_conn :: "string \<Rightarrow> server \<Rightarrow> server" where
  "close_conn sid S = S\<lparr>sv_closed := insert sid (sv_closed S)\<rparr>"

subsection \<open>The handshake\<close>

fun destinations_over_cap :: "router \<Rightarrow> string list \<Rightarrow> (string \<times> int) list" where
  "destinations_over_cap R [] = []"
| "destinations_over_cap R (name # names) =
     (case dget (destination_table (r_config R)) name of
        None \<Rightarrow> destinations_over_cap R names
      | Some dest \<Rightarrow>
          (case d_max_connections dest of
             None \<Rightarrow> destinations_over_cap R names
           | Some cap \<Rightarrow>
               if cap \<le> int (destination_load R name None)
               then (name, cap) # destinations_over_cap R names
               else destinations_over_cap R names))"

definition cap_detail :: "(string \<times> int) list \<Rightarrow> string" where
  "cap_detail over = join '', '' (map (\<lambda>(name, cap). name @ '' (max '' @ int_str cap @ '')'') over)"

text \<open>\<open>frame.get("filters", {}).get("sources", []) or []\<close> of a validated hello.\<close>

definition hello_sources :: "dict \<Rightarrow> pyval list" where
  "hello_sources frame =
     (case dget (table_of (dget frame ''filters'')) ''sources'' of Some (VList xs) \<Rightarrow> xs | _ \<Rightarrow> [])"

definition hello_claimed :: "dict \<Rightarrow> pyval list option" where
  "hello_claimed frame = (case dget frame ''destinations'' of Some (VList xs) \<Rightarrow> Some xs | _ \<Rightarrow> None)"

datatype handshake_error = Hs_bad_frame | Hs_too_large | Hs_failed

text \<open>The registration of an admitted hello, in the order the code has it.\<close>

definition register_conn ::
  "pytime \<Rightarrow> string \<Rightarrow> string \<Rightarrow> string \<Rightarrow> pyval list \<Rightarrow> string list \<Rightarrow> server \<Rightarrow> server" where
  "register_conn now sid adapter inst sources dests S =
     S\<lparr>sv_conns := dset sid \<lparr>c_adapter = adapter, c_instance = inst, c_sources = sources,
                         c_destinations = dests, c_pending_ping = False, c_busy_missed = 0\<rparr> (sv_conns S),
       sv_router := subscribe now sid adapter inst sources dests (sv_router S)\<rparr>"

definition hello_ack_frame :: "string \<Rightarrow> string list \<Rightarrow> string list \<Rightarrow> dict" where
  "hello_ack_frame sid accepted dests =
     [(''type'', VStr ''hello_ack''), (''v'', VInt 1), (''session_id'', VStr sid),
      (''accepted_sources'', VList (map VStr accepted)),
      (''accepted_destinations'', VList (map VStr dests))]"

definition admit_hello ::
  "bool \<Rightarrow> pytime \<Rightarrow> string \<Rightarrow> dict \<Rightarrow> server \<Rightarrow> (handshake_error + unit) \<times> server" where
  "admit_hello up now sid frame S =
     (let adapter = get_str frame ''adapter'' [];
          inst = get_str frame ''instance'' [];
          sources = hello_sources frame;
          R = sv_router S
      in case destinations_for_hello R adapter sources (hello_claimed frame) of
           Inl _ \<Rightarrow> (Inl Hs_failed, S)
         | Inr dests \<Rightarrow>
             (case destinations_over_cap R dests of
                c # cs \<Rightarrow>
                  (Inl Hs_failed,
                   send_error up sid ''connection_limit''
                     (''destination connection cap reached: '' @ cap_detail (c # cs)) True S)
              | [] \<Rightarrow>
                  (let S1 = register_conn now sid adapter inst sources dests S in
                   case accepted_sources_for (sv_router S1) adapter sources of
                     Inl _ \<Rightarrow> (Inl Hs_failed, S1)
                   | Inr accepted \<Rightarrow>
                       (let S2 = S1\<lparr>sv_router := note_subscribed dests (sv_router S1)\<rparr> in
                        if up then
                          (Inr (), S2\<lparr>sv_sent := sv_sent S2 @ [(sid, hello_ack_frame sid accepted dests)]\<rparr>)
                        else (Inl Hs_failed, S2)))))"

definition handshake ::
  "(bytes \<Rightarrow> json_error + pyval) \<Rightarrow> bool \<Rightarrow> pytime \<Rightarrow> string \<Rightarrow> bytes \<Rightarrow> server \<Rightarrow>
   (handshake_error + unit) \<times> server" where
  "handshake loads up now sid line S =
     (case read_frame loads line of
        Inl Bad_frame \<Rightarrow> (Inl Hs_bad_frame, S)
      | Inl Frame_too_large \<Rightarrow> (Inl Hs_too_large, S)
      | Inl _ \<Rightarrow> (Inl Hs_failed, S)
      | Inr (VDict frame) \<Rightarrow>
          if dget frame ''type'' \<noteq> Some (VStr ''hello'') then
            (Inl Hs_failed, send_error up sid ''unauthenticated'' ''first frame must be hello'' True S)
          else
            (case validate_frame (VDict frame) None of
               Some err \<Rightarrow>
                 (Inl Hs_failed, send_error up sid (code_text err) (''invalid hello: '' @ code_text err) True S)
             | None \<Rightarrow>
                 if MAX_CONNECTIONS \<le> length (sv_conns S) then
                   (Inl Hs_failed, send_error up sid ''connection_limit'' ''max 16 connections'' True S)
                 else admit_hello up now sid frame S)
      | Inr _ \<Rightarrow> (Inl Hs_failed, S))"

text \<open>
  A new connection up to its frame loop: the handshake, whose failure answers and closes the
  writer, then the drain of the queue to the new session.
\<close>

definition open_connection ::
  "(nat \<Rightarrow> string) \<Rightarrow> (string \<Rightarrow> string \<Rightarrow> bool) \<Rightarrow> (bytes \<Rightarrow> json_error + pyval) \<Rightarrow> bool \<Rightarrow> pytime \<Rightarrow>
   string \<Rightarrow> bytes \<Rightarrow> server \<Rightarrow> server" where
  "open_connection ulid link loads up now sid line S =
     (case handshake loads up now sid line S of
        (Inl Hs_bad_frame, S1) \<Rightarrow> close_conn sid (send_error up sid ''bad_frame'' ''malformed JSON'' True S1)
      | (Inl Hs_too_large, S1) \<Rightarrow>
          close_conn sid (send_error up sid ''frame_too_large'' ''line exceeded 1 MiB'' True S1)
      | (Inl Hs_failed, S1) \<Rightarrow> close_conn sid S1
      | (Inr (), S1) \<Rightarrow>
          S1\<lparr>sv_router := snd (drain_pending ulid link now sid (sv_router S1))\<rparr>)"

text \<open>The \<open>finally\<close> block of a connection.\<close>

definition end_connection :: "string \<Rightarrow> server \<Rightarrow> server" where
  "end_connection sid S =
     close_conn sid
       (S\<lparr>sv_router := unsubscribe sid (sv_router S), sv_conns := dpop sid (sv_conns S)\<rparr>)"

subsection \<open>Replies\<close>

text \<open>
  What the handler needs from its surroundings to deliver a reply: the ULIDs, digests, the POST
  outcomes, the value of \<open>WAKE_HMAC_SECRET\<close>, and \<open>str\<close> of an exception.
\<close>

record reply_env =
  re_ulid :: "nat \<Rightarrow> string"
  re_sha :: "bytes \<Rightarrow> bytes"
  re_hmac :: "bytes \<Rightarrow> bytes \<Rightarrow> bytes"
  re_post :: "nat \<Rightarrow> post_outcome"
  re_env :: "string option"
  re_text :: "exn \<Rightarrow> string"

fun missing_field :: "dict \<Rightarrow> string list \<Rightarrow> string option" where
  "missing_field frame [] = None"
| "missing_field frame (k # ks) = (if has_key frame k then missing_field frame ks else Some k)"

definition deliver_and_answer ::
  "reply_env \<Rightarrow> bool \<Rightarrow> pytime \<Rightarrow> string \<Rightarrow> dict \<Rightarrow> outbox \<Rightarrow> string option \<Rightarrow> server \<Rightarrow> bool \<times> server" where
  "deliver_and_answer E up now sid frame ob dest S =
     (let reply_id = get_str frame ''reply_id'' [] in
      case deliver_reply (re_ulid E) (re_sha E) (re_hmac E) (re_post E) ob (re_env E) now
             (get_str frame ''source'' []) reply_id (get_str frame ''in_reply_to'' [])
             (get_str frame ''content'' []) dest (r_store (sv_router S)) of
        (res, steps, st) \<Rightarrow>
          let result = (case res of
                          Inl e \<Rightarrow> mk_result reply_id ''failed'' None (Some (re_text E e))
                        | Inr r \<Rightarrow> r);
              S1 = S\<lparr>sv_router := (sv_router S)\<lparr>r_store := st\<rparr>, sv_steps := sv_steps S @ steps\<rparr>
          in if up then (True, S1\<lparr>sv_sent := sv_sent S1 @ [(sid, (''type'', VStr ''reply_result'') # result)]\<rparr>)
             else (False, S1))"

text \<open>\<open>handle_reply\<close> gives False when writing the result raises, which ends the connection.\<close>

definition handle_reply ::
  "reply_env \<Rightarrow> bool \<Rightarrow> pytime \<Rightarrow> string \<Rightarrow> conn \<Rightarrow> dict \<Rightarrow> server \<Rightarrow> bool \<times> server" where
  "handle_reply E up now sid c frame S =
     (case sv_outbox S of
        None \<Rightarrow> (True, S)
      | Some ob \<Rightarrow>
          (case missing_field frame [''source'', ''reply_id'', ''in_reply_to'', ''content''] of
             Some k \<Rightarrow>
               (True, send_error up sid ''bad_frame'' (''reply missing field '' @ repr_str k) False S)
           | None \<Rightarrow>
               (let dest = str_of (dget frame ''destination'') in
                case dest of
                  Some d \<Rightarrow>
                    if d \<notin> set (c_destinations c) then
                      (True, send_error up sid ''unauthorized_destination''
                               (''this connection does not serve destination '' @ repr_str d) False S)
                    else deliver_and_answer E up now sid frame ob dest S
                | None \<Rightarrow> deliver_and_answer E up now sid frame ob dest S)))"

subsection \<open>The frame loop\<close>

text \<open>One turn of the loop; False ends the connection.\<close>

definition set_conn :: "string \<Rightarrow> (conn \<Rightarrow> conn) \<Rightarrow> server \<Rightarrow> server" where
  "set_conn sid f S = S\<lparr>sv_conns := map (\<lambda>(k, c). (k, if k = sid then f c else c)) (sv_conns S)\<rparr>"

definition frame_turn ::
  "reply_env \<Rightarrow> (bytes \<Rightarrow> json_error + pyval) \<Rightarrow> bool \<Rightarrow> pytime \<Rightarrow> string \<Rightarrow> conn \<Rightarrow> bytes \<Rightarrow> server \<Rightarrow>
   bool \<times> server" where
  "frame_turn E loads up now sid c line S =
     (case read_frame loads line of
        Inl Frame_too_large \<Rightarrow> (False, send_error up sid ''frame_too_large'' ''line exceeded 1 MiB'' True S)
      | Inl Bad_frame \<Rightarrow> (False, send_error up sid ''bad_frame'' ''malformed JSON'' True S)
      | Inl _ \<Rightarrow> (False, S)
      | Inr (VDict frame) \<Rightarrow>
          (case validate_frame (VDict frame) None of
             Some err \<Rightarrow>
               (False, send_error up sid (code_text err)
                  (''invalid '' @ (case dget frame ''type'' of None \<Rightarrow> ''None'' | Some t \<Rightarrow> py_str t)
                   @ '': '' @ code_text err) True S)
           | None \<Rightarrow>
               (let ftype = get_str frame ''type'' [] in
                if ftype = ''reply'' then handle_reply E up now sid c frame S
                else if ftype \<in> {''ack'', ''nack''} then
                  (True, S\<lparr>sv_router := resolve_ack (get_str frame ''ack_id'' []) ftype (sv_router S)\<rparr>)
                else if ftype = ''pong'' then
                  (True, set_conn sid (\<lambda>c. c\<lparr>c_pending_ping := False, c_busy_missed := 0\<rparr>) S)
                else (True, S)))
      | Inr _ \<Rightarrow> (False, S))"

definition on_line ::
  "reply_env \<Rightarrow> (bytes \<Rightarrow> json_error + pyval) \<Rightarrow> bool \<Rightarrow> pytime \<Rightarrow> string \<Rightarrow> bytes \<Rightarrow> server \<Rightarrow> server" where
  "on_line E loads up now sid line S =
     (case dget (sv_conns S) sid of
        None \<Rightarrow> S
      | Some c \<Rightarrow>
          (case frame_turn E loads up now sid c line S of
             (True, S') \<Rightarrow> S'
           | (False, S') \<Rightarrow> end_connection sid S'))"

subsection \<open>The heartbeat\<close>

text \<open>What one round decides for a connection: keep it as it is or with a counted miss, ping it,
  or close it.\<close>

datatype beat = Tolerate | Pinged | Stale

definition beat_of :: "router \<Rightarrow> bool \<Rightarrow> string \<Rightarrow> conn \<Rightarrow> beat" where
  "beat_of R up sid c =
     (if c_pending_ping c then
        (if in_flight_for R sid \<noteq> 0 \<and> c_busy_missed c < MAX_BUSY_MISSED_PONGS then Tolerate else Stale)
      else if up then Pinged else Stale)"

definition beat_conn :: "router \<Rightarrow> (string \<Rightarrow> bool) \<Rightarrow> string \<times> conn \<Rightarrow> string \<times> conn" where
  "beat_conn R up p =
     (case p of (sid, c) \<Rightarrow>
        (sid, case beat_of R (up sid) sid c of
                Tolerate \<Rightarrow> c\<lparr>c_busy_missed := c_busy_missed c + 1\<rparr>
              | Pinged \<Rightarrow> c\<lparr>c_pending_ping := True\<rparr>
              | Stale \<Rightarrow> c))"

definition heartbeat :: "(string \<Rightarrow> bool) \<Rightarrow> server \<Rightarrow> server" where
  "heartbeat up S =
     S\<lparr>sv_conns := map (beat_conn (sv_router S) up) (sv_conns S),
       sv_sent := sv_sent S @ map (\<lambda>(sid, c). (sid, [(''type'', VStr ''ping'')]))
         (filter (\<lambda>(sid, c). beat_of (sv_router S) (up sid) sid c = Pinged) (sv_conns S)),
       sv_closed := sv_closed S \<union> fst ` set
         (filter (\<lambda>(sid, c). beat_of (sv_router S) (up sid) sid c = Stale) (sv_conns S))\<rparr>"

definition close_server :: "server \<Rightarrow> server" where
  "close_server S = S\<lparr>sv_closed := sv_closed S \<union> fst ` set (sv_conns S), sv_conns := []\<rparr>"

end
