(* ===== verification/Socket_Props.thy ===== *)
theory Socket_Props
  imports Socket_Server
begin

section \<open>What the socket server promises\<close>

text \<open>
  The connection caps as invariants of every reachable server state, what a hello may claim,
  the bound on the heartbeat's patience, the attribution of replies, and the slot a failed
  handshake leaks.
\<close>

subsection \<open>Claims only shrink between handshakes\<close>

definition claims :: "router \<Rightarrow> (string \<times> string list) list" where
  "claims R = map (\<lambda>(sid, sub). (sid, s_destinations sub)) (r_subs R)"

lemma load_claims: "destination_load R n None = length (filter (\<lambda>(sid, ds). n \<in> set ds) (claims R))"
  by (simp add: destination_load_def claims_def filter_map comp_def case_prod_unfold)

lemma keys_claims: "fst ` set (r_subs R) = fst ` set (claims R)"
  by (force simp: claims_def)

text \<open>\<open>R'\<close> has the config of \<open>R\<close> and no claims \<open>R\<close> does not have.\<close>

definition shrinks :: "router \<Rightarrow> router \<Rightarrow> bool" where
  "shrinks R' R \<longleftrightarrow> subseq (claims R') (claims R) \<and> r_config R' = r_config R"

lemma shrinks_refl [simp]: "shrinks R R"
  by (simp add: shrinks_def)

lemma shrinks_trans: "shrinks R2 R1 \<Longrightarrow> shrinks R1 R \<Longrightarrow> shrinks R2 R"
  unfolding shrinks_def using subseq_order.order_trans by (metis (no_types))

lemma shrinks_same: "r_subs R' = r_subs R \<Longrightarrow> r_config R' = r_config R \<Longrightarrow> shrinks R' R"
  by (simp add: shrinks_def claims_def)

lemma shrinks_load: "shrinks R' R \<Longrightarrow> destination_load R' n None \<le> destination_load R n None"
  unfolding load_claims shrinks_def by (metis list_emb_length subseq_filter)

lemma shrinks_keys: "shrinks R' R \<Longrightarrow> fst ` set (r_subs R') \<subseteq> fst ` set (r_subs R)"
  unfolding keys_claims shrinks_def by (auto dest: list_emb_set)

lemma claims_dpop: "map (\<lambda>(sid, sub). (sid, s_destinations sub)) (dpop k xs) =
    filter (\<lambda>p. fst p \<noteq> k) (map (\<lambda>(sid, sub). (sid, s_destinations sub)) xs)"
  by (simp add: dpop_filter filter_map comp_def split_beta)

lemma shrinks_unsubscribe: "shrinks (unsubscribe sid R) R"
  by (simp add: shrinks_def unsubscribe_def claims_def claims_dpop)

lemma shrinks_evict: "shrinks (evict sid R) R"
  by (simp add: shrinks_def router_simps claims_def claims_dpop)

lemma claims_add_in_flight: "claims (add_in_flight sid n R) = claims R"
  by (simp add: claims_def add_in_flight_def comp_def split_beta)

lemma shrinks_send_wake: "shrinks (snd (send_wake u link sid dest event src row R)) R"
proof (cases "link sid (u (r_ulids R))")
  case True
  then have "r_subs (snd (send_wake u link sid dest event src row R)) = r_subs (add_in_flight sid 1 R)"
    by (simp add: send_wake_def Let_def add_in_flight_def register_ack_def)
  then have "claims (snd (send_wake u link sid dest event src row R)) = claims R"
    using claims_add_in_flight [of sid 1 R] by (simp add: claims_def)
  then show ?thesis by (simp add: shrinks_def router_simps)
next
  case False
  let ?R = "forget_ack (u (r_ulids R)) (register_ack (u (r_ulids R)) (R\<lparr>r_ulids := Suc (r_ulids R)\<rparr>))"
  have "shrinks ?R R" by (rule shrinks_same) (simp_all add: forget_ack_def register_ack_def)
  with False shrinks_trans [OF shrinks_evict] show ?thesis by (simp add: send_wake_def Let_def)
qed

lemma shrinks_send_to: "shrinks (snd (send_to u link sub dest event src R)) R"
proof -
  have "shrinks (snd (send_to u link sub dest event src R)) (snd (send_wake u link (s_session sub) dest event src None R))"
    by (cases "send_wake u link (s_session sub) dest event src None R";
        cases "fst (send_wake u link (s_session sub) dest event src None R)")
      (auto simp: send_to_def note_delivered_def intro: shrinks_same)
  then show ?thesis using shrinks_send_wake by (rule shrinks_trans)
qed

lemma shrinks_deliver_loop: "shrinks (snd (snd (deliver_loop u link event s ds R))) R"
proof (induction ds arbitrary: R)
  case (Cons d ds)
  show ?case
  proof (cases "subscriber_for R d")
    case None
    with Cons show ?thesis by (simp add: case_prod_beta)
  next
    case (Some sub)
    have "snd (snd (deliver_loop u link event s (d # ds) R)) =
        snd (snd (deliver_loop u link event s ds (snd (send_to u link sub d event s R))))"
      using Some by (simp add: case_prod_beta split: bool.split)
    with shrinks_trans [OF Cons shrinks_send_to] show ?thesis by simp
  qed
qed simp

lemma shrinks_deliver: "shrinks (snd (deliver u link now event R)) R"
proof (cases "resolve_addressing R event")
  case (Inr ds)
  let ?R = "snd (snd (deliver_loop u link event (get_str event ''source'' []) ds R))"
  have "shrinks (snd (undeliverable_all now event ns ?R)) R" for ns
    by (rule shrinks_trans [OF shrinks_same shrinks_deliver_loop]) (simp_all add: router_simps)
  moreover have "shrinks (snd (undeliverable now event None R)) R"
    by (rule shrinks_same) (simp_all add: router_simps)
  ultimately show ?thesis using Inr by (simp add: deliver_def Let_def case_prod_beta)
qed (simp add: deliver_def)

lemma shrinks_store [simp]: "shrinks (R\<lparr>r_store := st\<rparr>) R"
  by (rule shrinks_same) simp_all

lemma shrinks_send_pending: "shrinks (snd (send_pending u link now sid dest row st R)) R"
  using shrinks_send_wake
  by (auto simp: send_pending_def split: sum.splits)

lemma shrinks_send_rows: "shrinks (snd (send_rows u link now sid dest rows R)) R"
proof (induction rows arbitrary: R)
  case (Cons row rows)
  show ?case
  proof (cases "r_store R")
    case (Some st)
    with shrinks_trans [OF Cons shrinks_send_pending] show ?thesis by (simp add: case_prod_beta)
  qed simp
qed simp

lemma shrinks_drain_loop: "shrinks (snd (drain_loop u link now sid names R)) R"
proof (induction names arbitrary: R)
  case (Cons n names)
  have "shrinks (snd (drain_loop u link now sid names (snd (send_rows u link now sid dest rows (R\<lparr>r_store := st\<rparr>))))) R"
    for dest rows st
    by (rule shrinks_trans [OF Cons shrinks_trans [OF shrinks_send_rows shrinks_store]])
  with Cons show ?case by (simp add: case_prod_beta split: option.splits)
qed simp

lemma shrinks_drain: "shrinks (snd (drain_pending u link now sid R)) R"
  by (simp add: drain_pending_def shrinks_drain_loop split: option.splits)

lemma shrinks_finish_wait: "shrinks (finish_wait w o' R) R"
proof -
  have "r_config (finish_wait w o' R) = r_config R \<and> claims (finish_wait w o' R) = claims R"
    by (auto simp: finish_wait_def Let_def settle_pending_def forget_ack_def end_delivery_def add_in_flight_def
        claims_def comp_def split_beta split: option.splits)
  then show ?thesis by (simp add: shrinks_def)
qed

lemma shrinks_resolve_ack: "shrinks (resolve_ack a t R) R"
  by (rule shrinks_same) (simp_all add: resolve_ack_def split: option.splits)

lemmas shrinks_ops = shrinks_unsubscribe shrinks_deliver shrinks_drain shrinks_finish_wait shrinks_resolve_ack

subsection \<open>The server's invariant\<close>

text \<open>No destination has more sessions than its cap, or than \<open>base\<close> allows: the sessions that were
  there when the configuration was last read.\<close>

definition within_caps :: "(string \<Rightarrow> nat) \<Rightarrow> router \<Rightarrow> bool" where
  "within_caps base R \<longleftrightarrow> (\<forall>name dest cap. dget (destination_table (r_config R)) name = Some dest \<longrightarrow>
     d_max_connections dest = Some cap \<longrightarrow> int (destination_load R name None) \<le> max (int (base name)) cap)"

definition wf_server :: "(string \<Rightarrow> nat) \<Rightarrow> (nat \<Rightarrow> string) \<Rightarrow> server \<Rightarrow> bool" where
  "wf_server base u S \<longleftrightarrow> wf_router u (sv_router S) \<and> store_ok u (sv_router S) \<and> within_caps base (sv_router S)
     \<and> wf_dict (sv_conns S) \<and> length (sv_conns S) \<le> MAX_CONNECTIONS
     \<and> fst ` set (r_subs (sv_router S)) \<subseteq> fst ` set (sv_conns S)"

lemma within_caps_shrinks: "within_caps base R \<Longrightarrow> shrinks R' R \<Longrightarrow> within_caps base R'"
proof -
  assume caps: "within_caps base R" and sh: "shrinks R' R"
  have "int (destination_load R' n None) \<le> int (destination_load R n None)" for n
    using shrinks_load [OF sh] by simp
  with caps sh show ?thesis unfolding within_caps_def shrinks_def by (metis order_trans)
qed

lemma wf_server_router:
  assumes "wf_server base u S" "wf_router u R'" "store_ok u R'" "shrinks R' (sv_router S)"
  shows "wf_server base u (S\<lparr>sv_router := R'\<rparr>)"
proof -
  have "fst ` set (r_subs R') \<subseteq> fst ` set (sv_conns S)"
    using assms(1) by (intro order_trans [OF shrinks_keys [OF assms(4)]]) (simp add: wf_server_def)
  moreover have "within_caps base R'" using assms(1,4) by (auto simp: wf_server_def intro: within_caps_shrinks)
  ultimately show ?thesis using assms(1-3) by (simp add: wf_server_def)
qed

lemma wf_server_cong:
  "wf_server base u S \<Longrightarrow> sv_router S' = sv_router S \<Longrightarrow> map fst (sv_conns S') = map fst (sv_conns S) \<Longrightarrow> wf_server base u S'"
proof -
  assume a: "wf_server base u S" "sv_router S' = sv_router S" "map fst (sv_conns S') = map fst (sv_conns S)"
  have "length (sv_conns S') = length (sv_conns S)" using a(3) by (metis length_map)
  moreover have "fst ` set (sv_conns S') = fst ` set (sv_conns S)" using a(3) by (metis list.set_map)
  ultimately show ?thesis using a by (simp add: wf_server_def wf_dict_def)
qed

lemma send_error_fields [router_simps]:
  "sv_router (send_error up sid c m f S) = sv_router S" "sv_conns (send_error up sid c m f S) = sv_conns S"
  "sv_outbox (send_error up sid c m f S) = sv_outbox S" "sv_steps (send_error up sid c m f S) = sv_steps S"
  by (simp_all add: send_error_def)

lemma close_conn_fields [router_simps]:
  "sv_router (close_conn sid S) = sv_router S" "sv_conns (close_conn sid S) = sv_conns S"
  by (simp_all add: close_conn_def)

lemma over_cap_none:
  "destinations_over_cap R names = [] \<Longrightarrow> name \<in> set names \<Longrightarrow>
   dget (destination_table (r_config R)) name = Some dest \<Longrightarrow> d_max_connections dest = Some cap \<Longrightarrow>
   int (destination_load R name None) < cap"
  by (induction names) (auto split: option.splits if_splits)

lemma load_subscribe:
  assumes "\<not> has_key (r_subs R) sid"
  shows "destination_load (subscribe now sid a i srcs ds R) n None =
    destination_load R n None + (if n \<in> set ds then 1 else 0)"
  using assms by (simp add: destination_load_def subscribe_def dset_new)

lemma wf_register:
  assumes wf: "wf_server base u S" and fresh: "\<not> has_key (sv_conns S) sid" "waiting (sv_router S) sid = 0"
    and cap: "destinations_over_cap (sv_router S) dests = []" and room: "length (sv_conns S) < MAX_CONNECTIONS"
  shows "wf_server base u (register_conn now sid a i srcs dests S)"
proof -
  let ?R = "subscribe now sid a i srcs dests (sv_router S)"
  have new: "\<not> has_key (r_subs (sv_router S)) sid" using wf fresh(1) by (auto simp: wf_server_def has_key_iff)
  have "within_caps base ?R"
    unfolding within_caps_def
  proof (intro allI impI)
    fix n dest c assume d: "dget (destination_table (r_config ?R)) n = Some dest" "d_max_connections dest = Some c"
    then have d': "dget (destination_table (r_config (sv_router S))) n = Some dest" by (simp add: subscribe_def)
    show "int (destination_load ?R n None) \<le> max (int (base n)) c"
    proof (cases "n \<in> set dests")
      case True
      with over_cap_none [OF cap True d' d(2)] show ?thesis by (simp add: load_subscribe [OF new])
    next
      case False
      with wf d' d(2) show ?thesis by (simp add: load_subscribe [OF new] wf_server_def within_caps_def)
    qed
  qed
  moreover have "wf_router u ?R" using wf new fresh(2) by (simp add: wf_server_def wf_subscribe)
  moreover have "store_ok u ?R" using wf by (simp add: wf_server_def store_ok_def subscribe_def)
  moreover have "fst ` set (r_subs ?R) \<subseteq> insert sid (fst ` set (sv_conns S))"
    using wf by (auto simp: subscribe_def keys_dset wf_server_def)
  ultimately show ?thesis
    using wf room fresh(1) by (simp add: wf_server_def register_conn_def keys_dset length_dset)
qed

lemma wf_note_subscribed:
  assumes "wf_server base u S"
  shows "wf_server base u (S\<lparr>sv_router := note_subscribed ds (sv_router S)\<rparr>)"
proof (rule wf_server_router [OF assms])
  show "wf_router u (note_subscribed ds (sv_router S))"
    by (rule wf_router_cong [of u "sv_router S"]) (use assms in \<open>simp_all add: wf_server_def note_subscribed_def\<close>)
  show "store_ok u (note_subscribed ds (sv_router S))"
    by (rule store_ok_same [of u "sv_router S"]) (use assms in \<open>simp_all add: wf_server_def note_subscribed_def\<close>)
qed (rule shrinks_same; simp add: note_subscribed_def)

lemma wf_admit:
  assumes "wf_server base u S" "\<not> has_key (sv_conns S) sid" "waiting (sv_router S) sid = 0"
    and "length (sv_conns S) < MAX_CONNECTIONS"
  shows "wf_server base u (snd (admit_hello up now sid frame S))"
proof -
  have err: "wf_server base u (send_error up sid c m f S)" for c m f
    by (rule wf_server_cong [OF assms(1)]) (simp_all add: router_simps)
  show ?thesis
  proof (cases "destinations_for_hello (sv_router S) (get_str frame ''adapter'' []) (hello_sources frame) (hello_claimed frame)")
    case (Inr dests)
    show ?thesis
    proof (cases "destinations_over_cap (sv_router S) dests")
      case Nil
      let ?S1 = "register_conn now sid (get_str frame ''adapter'' []) (get_str frame ''instance'' [])
          (hello_sources frame) dests S"
      note S1 = wf_register [OF assms(1,2,3) Nil assms(4), of now "get_str frame ''adapter'' []"
          "get_str frame ''instance'' []" "hello_sources frame"]
      let ?S2 = "?S1\<lparr>sv_router := note_subscribed dests (sv_router ?S1)\<rparr>"
      have S2: "wf_server base u ?S2" using S1 by (rule wf_note_subscribed)
      have S3: "wf_server base u (?S2\<lparr>sv_sent := x\<rparr>)" for x by (rule wf_server_cong [OF S2]) simp_all
      show ?thesis using Inr Nil S1 S2 S3 by (simp add: admit_hello_def Let_def split: sum.split)
    qed (use Inr err in \<open>simp add: admit_hello_def Let_def\<close>)
  qed (use assms(1) in \<open>simp add: admit_hello_def Let_def\<close>)
qed

lemma wf_handshake:
  assumes "wf_server base u S" "\<not> has_key (sv_conns S) sid" "waiting (sv_router S) sid = 0"
  shows "wf_server base u (snd (handshake loads up now sid line S))"
proof -
  have err: "wf_server base u (send_error up sid c m f S)" for c m f
    by (rule wf_server_cong [OF assms(1)]) (simp_all add: router_simps)
  show ?thesis
    using assms wf_admit [OF assms] err
    by (simp add: handshake_def not_le split: sum.split read_error.split pyval.split option.split)
qed

lemma admit_config: "r_config (sv_router (snd (admit_hello up now sid frame S))) = r_config (sv_router S)"
  by (simp add: admit_hello_def Let_def router_simps register_conn_def subscribe_def note_subscribed_def
      split: sum.split list.split)

lemma handshake_config: "r_config (sv_router (snd (handshake loads up now sid line S))) = r_config (sv_router S)"
  by (simp add: handshake_def admit_config router_simps
      split: sum.split read_error.split pyval.split option.split)

lemma open_config: "r_config (sv_router (open_connection u link loads up now sid line S)) = r_config (sv_router S)"
proof -
  obtain r S1 where h: "handshake loads up now sid line S = (r, S1)" by (metis surj_pair)
  have "r_config (snd (drain_pending u link now sid R)) = r_config R" for R
    using shrinks_drain by (simp add: shrinks_def)
  with handshake_config [of loads up now sid line S] h show ?thesis
    by (simp add: open_connection_def router_simps split: sum.split handshake_error.split unit.split)
qed

lemma wf_close: "wf_server base u S \<Longrightarrow> wf_server base u (close_conn sid S)"
  by (erule wf_server_cong) (simp_all add: router_simps)

lemma wf_error: "wf_server base u S \<Longrightarrow> wf_server base u (send_error up sid c m f S)"
  by (erule wf_server_cong) (simp_all add: router_simps)

lemma wf_open_connection:
  assumes "inj u" "wf_server base u S" "\<not> has_key (sv_conns S) sid" "waiting (sv_router S) sid = 0"
  shows "wf_server base u (open_connection u link loads up now sid line S)"
proof -
  obtain r S1 where h: "handshake loads up now sid line S = (r, S1)" by (metis surj_pair)
  with wf_handshake [OF assms(2-4), of loads up now line] have S1: "wf_server base u S1" by simp
  have "wf_server base u (S1\<lparr>sv_router := snd (drain_pending u link now sid (sv_router S1))\<rparr>)"
    by (rule wf_server_router [OF S1 _ _ shrinks_drain])
      (use S1 assms(1) in \<open>auto simp: wf_server_def wf_drain store_ok_drain\<close>)
  with S1 show ?thesis
    by (simp add: open_connection_def h wf_close wf_error split: sum.split handshake_error.split unit.split)
qed

lemma wf_end:
  assumes "wf_server base u S"
  shows "wf_server base u (end_connection sid S)"
proof -
  let ?R = "unsubscribe sid (sv_router S)"
  have "wf_server base u (S\<lparr>sv_router := ?R\<rparr>)"
    by (rule wf_server_router [OF assms _ _ shrinks_unsubscribe])
      (use assms in \<open>auto simp: wf_server_def wf_unsubscribe store_ok_def router_simps\<close>)
  moreover have "fst ` set (r_subs ?R) = fst ` set (r_subs (sv_router S)) - {sid}"
    by (simp add: unsubscribe_def keys_dpop)
  moreover have "length (dpop sid (sv_conns S)) \<le> length (sv_conns S)" by (simp add: dpop_filter)
  ultimately have "wf_server base u (S\<lparr>sv_router := ?R, sv_conns := dpop sid (sv_conns S)\<rparr>)"
    using assms by (auto simp: wf_server_def keys_dpop)
  then show ?thesis by (simp add: end_connection_def wf_close)
qed

lemma deliver_reply_store_ok:
  assumes "inj u" "r_store R = st" "store_ok u R"
  shows "store_ok u (R\<lparr>r_store := snd (snd (deliver_reply u sha hmac post ob env now src i irt c d st))\<rparr>)"
proof -
  have dl: "store_ok u (R\<lparr>r_store := snd (dead_letter_reply u now src i irt c err n d st)\<rparr>)" for err n
    using assms by (auto simp: dead_letter_reply_def dead_letter_def store_ok_def DEAD_LETTER_KINDS_def
        wf_insert_dead split: option.splits)
  have same: "store_ok u (R\<lparr>r_store := st\<rparr>)" using assms(2,3) by (simp add: store_ok_def)
  show ?thesis
    using dl same
    by (simp add: deliver_reply_def Let_def case_prod_beta split: sum.split option.split loop_end.split)
qed

lemma wf_deliver_and_answer:
  assumes "inj (re_ulid E)" "wf_server base (re_ulid E) S"
  shows "wf_server base (re_ulid E) (snd (deliver_and_answer E up now sid frame ob d S))"
proof -
  let ?st = "snd (snd (deliver_reply (re_ulid E) (re_sha E) (re_hmac E) (re_post E) ob (re_env E) now
      (get_str frame ''source'' []) (get_str frame ''reply_id'' []) (get_str frame ''in_reply_to'' [])
      (get_str frame ''content'' []) d (r_store (sv_router S))))"
  let ?R = "(sv_router S)\<lparr>r_store := ?st\<rparr>"
  have "store_ok (re_ulid E) ?R"
    using assms by (intro deliver_reply_store_ok) (simp_all add: wf_server_def)
  moreover have "wf_router (re_ulid E) ?R"
    by (rule wf_router_cong [of _ "sv_router S"]) (use assms in \<open>simp_all add: wf_server_def\<close>)
  ultimately have R: "wf_server base (re_ulid E) (S\<lparr>sv_router := ?R\<rparr>)"
    by (intro wf_server_router [OF assms(2)]) simp_all
  have "wf_server base (re_ulid E) (S\<lparr>sv_router := ?R, sv_steps := x, sv_sent := y\<rparr>)"
    "wf_server base (re_ulid E) (S\<lparr>sv_router := ?R, sv_steps := x\<rparr>)" for x y
    by (rule wf_server_cong [OF R]; simp)+
  then show ?thesis by (simp add: deliver_and_answer_def Let_def case_prod_beta)
qed

lemma wf_set_conn: "wf_server base u S \<Longrightarrow> wf_server base u (set_conn sid f S)"
  by (erule wf_server_cong) (simp_all add: set_conn_def comp_def split_beta)

lemma wf_frame_turn:
  assumes "inj (re_ulid E)" "wf_server base (re_ulid E) S"
  shows "wf_server base (re_ulid E) (snd (frame_turn E loads up now sid c line S))"
proof -
  have reply: "wf_server base (re_ulid E) (snd (handle_reply E up now sid c frame S))" for frame
    using assms wf_deliver_and_answer wf_error
    by (simp add: handle_reply_def Let_def split: option.split)
  have ack: "wf_server base (re_ulid E) (S\<lparr>sv_router := resolve_ack a t (sv_router S)\<rparr>)" for a t
  proof (rule wf_server_router [OF assms(2) _ _ shrinks_resolve_ack])
    show "wf_router (re_ulid E) (resolve_ack a t (sv_router S))"
      using assms(2) by (simp add: wf_server_def wf_resolve_ack)
    have "r_store (resolve_ack a t (sv_router S)) = r_store (sv_router S)"
      by (simp add: resolve_ack_def split: option.split)
    with assms(2) show "store_ok (re_ulid E) (resolve_ack a t (sv_router S))"
      by (simp add: wf_server_def store_ok_def)
  qed
  show ?thesis
    using assms(2) reply ack
    by (simp add: frame_turn_def Let_def wf_error wf_set_conn
        split: sum.split read_error.split pyval.split option.split)
qed

lemma wf_on_line:
  "inj (re_ulid E) \<Longrightarrow> wf_server base (re_ulid E) S \<Longrightarrow> wf_server base (re_ulid E) (on_line E loads up now sid line S)"
  using wf_frame_turn [of E base S loads up now sid _ line]
  by (auto simp: on_line_def split: option.splits prod.splits bool.splits) (metis snd_conv wf_end)+

lemma wf_heartbeat: "wf_server base u S \<Longrightarrow> wf_server base u (heartbeat up S)"
  by (erule wf_server_cong) (simp_all add: heartbeat_def beat_conn_def comp_def split_beta)

subsection \<open>Reachable states\<close>

text \<open>
  One step of the daemon as the socket server sees it: a connection with a fresh session id, a
  line or the end of a connection, a heartbeat round, an ingested event, the end of an ack
  waiter.  The config stays the same.
\<close>

inductive server_step ::
  "reply_env \<Rightarrow> (bytes \<Rightarrow> json_error + pyval) \<Rightarrow> (string \<Rightarrow> string \<Rightarrow> bool) \<Rightarrow> server \<Rightarrow> server \<Rightarrow> bool"
  for E loads link where
  Open: "\<not> has_key (sv_conns S) sid \<Longrightarrow> waiting (sv_router S) sid = 0 \<Longrightarrow>
    server_step E loads link S (open_connection (re_ulid E) link loads up now sid line S)"
| Line: "server_step E loads link S (on_line E loads up now sid line S)"
| End: "server_step E loads link S (end_connection sid S)"
| Beat: "server_step E loads link S (heartbeat ups S)"
| Event: "server_step E loads link S (S\<lparr>sv_router := snd (deliver (re_ulid E) link now event (sv_router S))\<rparr>)"
| Settled: "w \<in> set (r_waiters (sv_router S)) \<Longrightarrow>
    server_step E loads link S (S\<lparr>sv_router := finish_wait w o' (sv_router S)\<rparr>)"

inductive server_reachable ::
  "reply_env \<Rightarrow> (bytes \<Rightarrow> json_error + pyval) \<Rightarrow> (string \<Rightarrow> string \<Rightarrow> bool) \<Rightarrow> server \<Rightarrow> server \<Rightarrow> bool"
  for E loads link where
  start: "server_reachable E loads link S S"
| next_step: "server_reachable E loads link S S' \<Longrightarrow> server_step E loads link S' S'' \<Longrightarrow>
    server_reachable E loads link S S''"

lemma server_step_wf:
  assumes "inj (re_ulid E)" "server_step E loads link S S'" "wf_server base (re_ulid E) S"
  shows "wf_server base (re_ulid E) S'"
  using assms(2)
proof cases
  case (Open sid up now line)
  with assms show ?thesis by (simp add: wf_open_connection)
next
  case (Line up now sid line)
  with assms show ?thesis by (simp add: wf_on_line)
next
  case (End sid)
  with assms show ?thesis by (simp add: wf_end)
next
  case (Beat ups)
  with assms show ?thesis by (simp add: wf_heartbeat)
next
  case (Event now event)
  show ?thesis unfolding Event
    by (rule wf_server_router [OF assms(3) _ _ shrinks_deliver])
      (use assms in \<open>auto simp: wf_server_def wf_deliver store_ok_deliver\<close>)
next
  case (Settled w o')
  show ?thesis unfolding Settled
    by (rule wf_server_router [OF assms(3) _ _ shrinks_finish_wait])
      (use assms Settled in \<open>auto simp: wf_server_def wf_finish_wait store_ok_finish_wait\<close>)
qed

lemma server_reachable_wf:
  assumes "inj (re_ulid E)" "server_reachable E loads link S S'" "wf_server base (re_ulid E) S"
  shows "wf_server base (re_ulid E) S'"
  using assms(2,3) by induction (use server_step_wf [OF assms(1)] in blast)+

definition new_server :: "cfg \<Rightarrow> store option \<Rightarrow> outbox option \<Rightarrow> server" where
  "new_server cfg st ob =
     \<lparr>sv_router = new_router cfg st, sv_outbox = ob, sv_conns = [], sv_sent = [], sv_steps = [], sv_closed = {}\<rparr>"

lemma wf_new_server:
  "(\<And>s. st = Some s \<Longrightarrow> wf_store u s) \<Longrightarrow> wf_server base u (new_server cfg st ob)"
proof -
  assume st: "\<And>s. st = Some s \<Longrightarrow> wf_store u s"
  have "store_ok u (new_router cfg st)" using st by (simp add: store_ok_def new_router_def split: option.splits)
  moreover have "within_caps base (new_router cfg st)"
    by (simp add: within_caps_def destination_load_def new_router_def le_max_iff_disj)
  ultimately show ?thesis
    using wf_new_router [of u cfg st] by (simp add: wf_server_def new_server_def) (simp add: new_router_def)
qed

text \<open>Claim C36: the connection caps hold in every state the socket server reaches with one configuration,
  that is as long as no reload changes it: at most \<open>MAX_CONNECTIONS\<close> connections, no session routed to that
  has no connection, and on every destination that sets \<open>max_connections\<close> at most so many sessions.  The first
  two do not depend on the configuration.\<close>

theorem connection_caps_hold:
  assumes "inj (re_ulid E)" and "server_reachable E loads link (new_server cfg st0 ob) S"
    and "\<And>st. st0 = Some st \<Longrightarrow> wf_store (re_ulid E) st"
  shows "length (sv_conns S) \<le> 16 \<and> fst ` set (r_subs (sv_router S)) \<subseteq> fst ` set (sv_conns S)
    \<and> (\<forall>name dest cap. dget (destination_table (r_config (sv_router S))) name = Some dest
         \<and> d_max_connections dest = Some cap \<longrightarrow> int (destination_load (sv_router S) name None) \<le> max 0 cap)"
proof -
  have "wf_server (\<lambda>_. 0) (re_ulid E) S"
    by (rule server_reachable_wf [OF assms(1,2) wf_new_server]) (rule assms(3))
  then show ?thesis by (simp add: wf_server_def MAX_CONNECTIONS_def within_caps_def)
qed

text \<open>A JSON reader for the witnesses: it knows one line.\<close>

definition demo_loads :: "bytes \<Rightarrow> pyval \<Rightarrow> bytes \<Rightarrow> json_error + pyval" where
  "demo_loads text v line = (if line = text then Inr v else Inl JSONDecodeError)"

definition demo_reply_env :: reply_env where
  "demo_reply_env = \<lparr>re_ulid = demo_ulid, re_sha = id, re_hmac = demo_hmac, re_post = (\<lambda>_. Response 200),
     re_env = None, re_text = (\<lambda>_. ''error'')\<rparr>"

definition capped_cfg :: cfg where
  "capped_cfg = [(''destinations'', VDict [(''desk'', VDict [(''adapter'', VStr ''claude''), (''max_connections'', VInt 1)])])]"

definition demo_hello_frame :: dict where
  "demo_hello_frame = [(''type'', VStr ''hello''), (''v'', VInt 1), (''adapter'', VStr ''claude''), (''instance'', VStr ''i''),
     (''destinations'', VList [VStr ''desk''])]"

definition demo_server :: server where
  "demo_server = open_connection demo_ulid demo_link (demo_loads ''h'' (VDict demo_hello_frame)) True 0 ''s1'' ''h''
     (new_server capped_cfg None None)"

theorem connection_caps_hold_witness:
  "length (sv_conns demo_server) \<le> 16 \<and> fst ` set (r_subs (sv_router demo_server)) \<subseteq> fst ` set (sv_conns demo_server)
   \<and> destination_load (sv_router demo_server) ''desk'' None \<le> 1"
proof -
  let ?loads = "demo_loads ''h'' (VDict demo_hello_frame)"
  have reach: "server_reachable demo_reply_env ?loads demo_link (new_server capped_cfg None None) demo_server"
  proof (rule next_step [OF start])
    have u: "re_ulid demo_reply_env = demo_ulid" by (simp add: demo_reply_env_def)
    have a: "\<not> has_key (sv_conns (new_server capped_cfg None None)) ''s1''"
      by (simp add: new_server_def has_key_def)
    have b: "waiting (sv_router (new_server capped_cfg None None)) ''s1'' = 0"
      by (simp add: new_server_def new_router_def waiting_def)
    show "server_step demo_reply_env ?loads demo_link (new_server capped_cfg None None) demo_server"
      using server_step.Open [OF a b, of demo_reply_env ?loads demo_link True 0 "''h''"]
      unfolding demo_server_def u .
  qed
  have cfg: "r_config (sv_router demo_server) = capped_cfg"
    unfolding demo_server_def open_config by (simp add: new_server_def new_router_def)
  have "case dget (destination_table capped_cfg) ''desk'' of Some d \<Rightarrow> d_max_connections d = Some 1 | None \<Rightarrow> False"
    by code_simp
  then have dest: "\<exists>d. dget (destination_table capped_cfg) ''desk'' = Some d \<and> d_max_connections d = Some 1"
    by (auto split: option.splits)
  show ?thesis
    using connection_caps_hold [OF _ reach] dest cfg inj_demo_ulid by (fastforce simp: demo_reply_env_def)
qed

subsection \<open>What a hello may claim\<close>

lemma hello_names_set:
  "hello_names table adapter out names = Inr res \<Longrightarrow> distinct out \<Longrightarrow>
   distinct res \<and> set res = set out \<union> {n. VStr n \<in> set names
     \<and> (\<exists>d. dget table n = Some d \<and> accepts_adapter d adapter)}"
proof (induction table adapter out names arbitrary: res rule: hello_names.induct)
  case (2 table adapter out name names)
  show ?case
  proof (cases "\<exists>d. dget table name = Some d \<and> accepts_adapter d adapter")
    case True
    then obtain d where d: "dget table name = Some d" "accepts_adapter d adapter" by blast
    show ?thesis
    proof (cases "name \<in> set out")
      case True
      with "2.IH"(4) [of d res] "2.prems" d have "distinct res \<and> set res = set out \<union> {n. VStr n \<in> set names
         \<and> (\<exists>d. dget table n = Some d \<and> accepts_adapter d adapter)}" by simp
      with d True show ?thesis by auto
    next
      case False
      with "2.IH"(3) [of d res] "2.prems" d have "distinct res \<and> set res = set (out @ [name]) \<union> {n. VStr n \<in> set names
         \<and> (\<exists>d. dget table n = Some d \<and> accepts_adapter d adapter)}" by simp
      with d show ?thesis by auto
    qed
  next
    case False
    have "distinct res \<and> set res = set out \<union> {n. VStr n \<in> set names
         \<and> (\<exists>d. dget table n = Some d \<and> accepts_adapter d adapter)}"
    proof (cases "dget table name")
      case None
      with "2.IH"(1) "2.prems" show ?thesis by simp
    next
      case (Some d)
      with "2.IH"(2) [of d] "2.prems" False show ?thesis by simp
    qed
    with False show ?thesis by auto
  qed
qed simp_all

text \<open>A connecting adapter is given exactly the destinations it names that exist and are
  configured for it (or for any adapter), each once: naming somebody else's destination gains
  nothing.  Without an explicit claim its source names are read as destination names.\<close>

theorem hello_claims_authorised:
  assumes "destinations_for_hello R adapter sources claimed = Inr names"
  shows "distinct names \<and> set names =
    {n. VStr n \<in> set (case claimed of Some (c # cs) \<Rightarrow> c # cs | _ \<Rightarrow> sources)
      \<and> (\<exists>d. dget (destination_table (r_config R)) n = Some d \<and> accepts_adapter d adapter)}"
  using hello_names_set [OF assms [unfolded destinations_for_hello_def]] by simp

theorem hello_claims_authorised_witness:
  "\<exists>names. destinations_for_hello (new_router demo_cfg None) ''opencode'' [] (Some [VStr ''desk'', VStr ''lab'']) = Inr names
    \<and> names = []"
proof -
  have "\<not> (case destinations_for_hello (new_router demo_cfg None) ''opencode'' [] (Some [VStr ''desk'', VStr ''lab'']) of
      Inl _ \<Rightarrow> True | Inr ns \<Rightarrow> ns \<noteq> [])" by code_simp
  then obtain names where names: "destinations_for_hello (new_router demo_cfg None) ''opencode'' []
      (Some [VStr ''desk'', VStr ''lab'']) = Inr names" "names = []" by (auto split: sum.splits)
  from hello_claims_authorised [OF names(1)] names show ?thesis by blast
qed

subsection \<open>The patience of the heartbeat\<close>

lemma heartbeat_conn:
  "dget (sv_conns (heartbeat up S)) sid =
     map_option (\<lambda>c. snd (beat_conn (sv_router S) up (sid, c))) (dget (sv_conns S) sid)"
proof -
  have "beat_conn R up = (\<lambda>(k, c). (k, snd (beat_conn R up (k, c))))" for R
    by (auto simp: beat_conn_def fun_eq_iff)
  then have "sv_conns (heartbeat up S) = map (\<lambda>(k, c). (k, snd (beat_conn (sv_router S) up (k, c)))) (sv_conns S)"
    by (simp add: heartbeat_def)
  then show ?thesis by (simp add: dget_map_snd)
qed

lemma heartbeat_closes:
  assumes "wf_dict (sv_conns S)" "dget (sv_conns S) sid = Some c"
  shows "sid \<in> sv_closed (heartbeat up S) \<longleftrightarrow>
    sid \<in> sv_closed S \<or> beat_of (sv_router S) (up sid) sid c = Stale"
proof -
  have "(sid, c') \<in> set (sv_conns S) \<longleftrightarrow> c' = c" for c'
    using assms wf_dict_get by (metis option.inject)
  then show ?thesis by (force simp: heartbeat_def)
qed

lemma heartbeat_fields: "sv_router (heartbeat up S) = sv_router S"
  "wf_dict (sv_conns S) \<Longrightarrow> wf_dict (sv_conns (heartbeat up S))"
  by (simp_all add: heartbeat_def wf_dict_def comp_def beat_conn_def split_beta)

lemma heartbeat_iterate:
  assumes "wf_dict (sv_conns S)" "dget (sv_conns S) sid = Some c" "\<not> c_pending_ping c" "c_busy_missed c = 0" "up sid"
  defines "tol \<equiv> if in_flight_for (sv_router S) sid = 0 then 0 else 4"
  shows "sv_router ((heartbeat up ^^ k) S) = sv_router S \<and> wf_dict (sv_conns ((heartbeat up ^^ k) S))
    \<and> dget (sv_conns ((heartbeat up ^^ k) S)) sid =
        Some (c\<lparr>c_pending_ping := 0 < k, c_busy_missed := int (min (k - 1) tol)\<rparr>)
    \<and> (sid \<in> sv_closed ((heartbeat up ^^ k) S) \<longleftrightarrow> sid \<in> sv_closed S \<or> tol + 2 \<le> k)"
proof (induction k)
  case 0
  have "c\<lparr>c_pending_ping := False, c_busy_missed := 0\<rparr> = c" using assms(3,4) by simp
  with assms show ?case by simp
next
  case (Suc k)
  let ?S = "(heartbeat up ^^ k) S"
  let ?c = "c\<lparr>c_pending_ping := 0 < k, c_busy_missed := int (min (k - 1) tol)\<rparr>"
  from Suc have R: "sv_router ?S = sv_router S" and wf: "wf_dict (sv_conns ?S)"
    and c: "dget (sv_conns ?S) sid = Some ?c"
    and cl: "sid \<in> sv_closed ?S \<longleftrightarrow> sid \<in> sv_closed S \<or> tol + 2 \<le> k" by auto
  have beat: "beat_of (sv_router S) (up sid) sid ?c =
      (if k = 0 then Pinged else if k - 1 < tol then Tolerate else Stale)"
    using assms(5) by (auto simp: beat_of_def tol_def MAX_BUSY_MISSED_PONGS_def)
  have "snd (beat_conn (sv_router S) up (sid, ?c)) =
      c\<lparr>c_pending_ping := 0 < Suc k, c_busy_missed := int (min (Suc k - 1) tol)\<rparr>"
    unfolding beat_conn_def case_prod_conv beat by auto
  moreover have "beat_of (sv_router S) (up sid) sid ?c = Stale \<longleftrightarrow> tol + 1 \<le> k" unfolding beat by auto
  ultimately show ?case
    using heartbeat_closes [OF wf c, of up] heartbeat_fields(1) [of up ?S] heartbeat_fields(2) [of ?S up] wf cl
    by (auto simp: heartbeat_conn R c)
qed

text \<open>Claim C12: the heartbeat's patience is bounded and exact.  An open connection with no ping outstanding
  that can be written to, after rounds between which nothing else happens (no frame of its session, no
  delivery begun or ended), is closed from the second round on when no delivery to its session is in
  flight, from the sixth on (four forgiven misses) when one is, and never earlier.\<close>

theorem heartbeat_patience:
  assumes "wf_dict (sv_conns S)" and "dget (sv_conns S) sid = Some c"
    and "\<not> c_pending_ping c" and "c_busy_missed c = 0" and "up sid" and "sid \<notin> sv_closed S"
  shows "sid \<in> sv_closed ((heartbeat up ^^ k) S) \<longleftrightarrow>
    (if in_flight_for (sv_router S) sid = 0 then 2 \<le> k else 6 \<le> k)"
  using heartbeat_iterate [of S sid c up k, OF assms(1-5)] assms(6) by (auto simp: numeral_2_eq_2)

definition beating_server :: server where
  "beating_server = (new_server capped_cfg None None)\<lparr>sv_conns := [(''s1'',
     \<lparr>c_adapter = ''claude'', c_instance = ''i'', c_sources = [], c_destinations = [''desk''],
      c_pending_ping = False, c_busy_missed = 0\<rparr>)]\<rparr>"

text \<open>The same connection while a delivery to it is in flight.\<close>

definition busy_server :: server where
  "busy_server = beating_server\<lparr>sv_router := (sv_router beating_server)\<lparr>r_subs := [(''s1'',
     \<lparr>s_session = ''s1'', s_adapter = ''claude'', s_instance = ''i'', s_sources = [], s_destinations = [''desk''],
      s_in_flight = 1, s_connected_at = 0\<rparr>)]\<rparr>\<rparr>"

theorem heartbeat_patience_witness:
  "''s1'' \<notin> sv_closed ((heartbeat (\<lambda>_. True) ^^ 1) beating_server)
   \<and> ''s1'' \<in> sv_closed ((heartbeat (\<lambda>_. True) ^^ 2) beating_server)
   \<and> ''s1'' \<notin> sv_closed ((heartbeat (\<lambda>_. True) ^^ 5) busy_server)
   \<and> ''s1'' \<in> sv_closed ((heartbeat (\<lambda>_. True) ^^ 6) busy_server)"
proof -
  obtain c where c: "dget (sv_conns beating_server) ''s1'' = Some c" "\<not> c_pending_ping c" "c_busy_missed c = 0"
    by (simp add: beating_server_def)
  have wf: "wf_dict (sv_conns beating_server)"
    "sv_conns busy_server = sv_conns beating_server" "sv_closed busy_server = sv_closed beating_server"
    by (simp_all add: busy_server_def beating_server_def wf_dict_def)
  have "''s1'' \<notin> sv_closed beating_server" by (simp add: beating_server_def new_server_def)
  then have closed: "''s1'' \<in> sv_closed ((heartbeat (\<lambda>_. True) ^^ k) S)
      \<longleftrightarrow> (if in_flight_for (sv_router S) ''s1'' = 0 then 2 \<le> k else 6 \<le> k)"
    if "sv_conns S = sv_conns beating_server" "sv_closed S = sv_closed beating_server" for S k
    by (intro heartbeat_patience [of _ _ c]) (use that c wf(1) in simp_all)
  have "in_flight_for (sv_router beating_server) ''s1'' = 0" "in_flight_for (sv_router busy_server) ''s1'' = 1"
    by (simp_all add: busy_server_def beating_server_def new_server_def new_router_def in_flight_for_def)
  then show ?thesis by (simp add: closed wf(2,3) del: funpow.simps One_nat_def)
qed

subsection \<open>Attribution of replies\<close>

lemma deliver_reply_posts:
  assumes "Post url body headers \<in> set (fst (snd (deliver_reply u sha hmac post ob env now src i irt content d st)))"
  shows "body = reply_body (ob_config ob) irt content d"
proof -
  from assms obtain v where "Post url body headers \<in> set (snd (attempts ob post (Post (py_str v)
      (reply_body (ob_config ob) irt content d) (reply_headers sha hmac (ob_config ob) env \<lfloor>now\<rfloor> i
         (reply_body (ob_config ob) irt content d))) 0 (nat (ob_max_retries ob)) None None))"
    unfolding deliver_reply_steps by (auto split: sum.splits option.splits if_splits)
  with attempts_posts show ?thesis by blast
qed

text \<open>A reply is attributed only to a destination its connection serves.  Every request
  a reply frame causes carries the identity of the destination the frame names, which is one of
  the connection's own, or no destination; a frame that names another one causes no request and
  changes nothing but the error sent back.\<close>

theorem reply_attribution:
  assumes "handle_reply E up now sid c frame S = (ok, S')"
  shows "\<exists>steps. sv_steps S' = sv_steps S @ steps
    \<and> (case str_of (dget frame ''destination'') of
         Some d \<Rightarrow> if d \<in> set (c_destinations c) then True
                  else steps = [] \<and> sv_router S' = sv_router S \<and> sv_conns S' = sv_conns S
       | None \<Rightarrow> True)
    \<and> (\<forall>url body headers. Post url body headers \<in> set steps \<longrightarrow>
         (\<exists>ob. sv_outbox S = Some ob \<and> body = reply_body (ob_config ob) (get_str frame ''in_reply_to'' [])
            (get_str frame ''content'' []) (str_of (dget frame ''destination''))))"
proof -
  have answer: "\<exists>steps. sv_steps (snd (deliver_and_answer E up now sid frame ob d S)) = sv_steps S @ steps
    \<and> (\<forall>url body headers. Post url body headers \<in> set steps \<longrightarrow>
         body = reply_body (ob_config ob) (get_str frame ''in_reply_to'' []) (get_str frame ''content'' []) d)" for ob d
    by (auto simp: deliver_and_answer_def Let_def case_prod_beta dest!: deliver_reply_posts)
  have S': "S' = snd (handle_reply E up now sid c frame S)" using assms by simp
  show ?thesis
  proof (cases "sv_outbox S")
    case None
    then show ?thesis unfolding S' by (simp add: handle_reply_def split: option.split)
  next
    case (Some ob)
    show ?thesis
    proof (cases "missing_field frame [''source'', ''reply_id'', ''in_reply_to'', ''content'']")
      case None
      then show ?thesis unfolding S' using Some answer [of ob "str_of (dget frame ''destination'')"]
        by (cases "str_of (dget frame ''destination'')")
          (auto simp: handle_reply_def router_simps simp del: missing_field.simps)
    next
      case (Some k)
      with \<open>sv_outbox S = Some ob\<close> show ?thesis unfolding S'
        by (simp add: handle_reply_def router_simps del: missing_field.simps split: option.split)
    qed
  qed
qed

definition desk_conn :: conn where
  "desk_conn = \<lparr>c_adapter = ''claude'', c_instance = ''i'', c_sources = [], c_destinations = [''desk''],
     c_pending_ping = False, c_busy_missed = 0\<rparr>"

definition forged_reply :: dict where
  "forged_reply = [(''type'', VStr ''reply''), (''source'', VStr ''ci''), (''reply_id'', VStr ''r''),
     (''in_reply_to'', VStr ''e''), (''content'', VStr ''hi''), (''destination'', VStr ''lab'')]"

theorem reply_attribution_witness:
  "sv_steps (snd (handle_reply demo_reply_env True 0 ''s1'' desk_conn forged_reply
     (new_server demo_cfg None (Some demo_outbox)))) = []"
proof -
  let ?S = "new_server demo_cfg None (Some demo_outbox)"
  let ?h = "handle_reply demo_reply_env True 0 ''s1'' desk_conn forged_reply ?S"
  have "str_of (dget forged_reply ''destination'') = Some ''lab''" "''lab'' \<notin> set (c_destinations desk_conn)"
    by (simp_all add: forged_reply_def str_of_def desk_conn_def)
  moreover have "sv_steps ?S = []" by (simp add: new_server_def)
  ultimately show ?thesis
    using reply_attribution [of demo_reply_env True 0 "''s1''" desk_conn forged_reply ?S "fst ?h" "snd ?h"] by auto
qed

subsection \<open>A slot a failed handshake leaks\<close>

text \<open>A handshake that fails after its registration (the write of \<open>hello_ack\<close> fails, or
  a source name of an explicit claim is unhashable) leaves its session registered: the
  connection is closed, but it still counts against the caps and the router still routes to it.
  Nothing in the handler removes it again.\<close>

theorem failed_handshake_leaks:
  assumes "read_frame loads line = Inr (VDict frame)" and "dget frame ''type'' = Some (VStr ''hello'')"
    and "validate_frame (VDict frame) None = None" and "length (sv_conns S) < MAX_CONNECTIONS"
    and "destinations_for_hello (sv_router S) (get_str frame ''adapter'' []) (hello_sources frame) (hello_claimed frame) = Inr dests"
    and "destinations_over_cap (sv_router S) dests = []"
    and "\<not> up \<or> accepted_sources_for (sv_router S) (get_str frame ''adapter'' []) (hello_sources frame) = Inl e"
  shows "let S' = open_connection u link loads up now sid line S in
    has_key (sv_conns S') sid \<and> has_key (r_subs (sv_router S')) sid \<and> sid \<in> sv_closed S' \<and> sv_sent S' = sv_sent S"
proof -
  let ?S1 = "register_conn now sid (get_str frame ''adapter'' []) (get_str frame ''instance'' []) (hello_sources frame) dests S"
  have reg: "has_key (sv_conns ?S1) sid" "has_key (r_subs (sv_router ?S1)) sid" "sv_sent ?S1 = sv_sent S"
    by (simp_all add: register_conn_def subscribe_def has_key_def dget_dset)
  have acc: "accepted_sources_for (sv_router ?S1) = accepted_sources_for (sv_router S)"
    by (simp add: accepted_sources_for_def register_conn_def subscribe_def fun_eq_iff)
  have "handshake loads up now sid line S = admit_hello up now sid frame S"
    using assms(1-4) by (simp add: handshake_def)
  moreover have "admit_hello up now sid frame S = (Inl Hs_failed, snd (admit_hello up now sid frame S))
    \<and> has_key (sv_conns (snd (admit_hello up now sid frame S))) sid
    \<and> has_key (r_subs (sv_router (snd (admit_hello up now sid frame S)))) sid
    \<and> sv_sent (snd (admit_hello up now sid frame S)) = sv_sent S"
    using assms(5-7) reg
    by (auto simp: admit_hello_def Let_def acc note_subscribed_def split: sum.split)
  ultimately obtain S2 where S2: "handshake loads up now sid line S = (Inl Hs_failed, S2)"
    "has_key (sv_conns S2) sid" "has_key (r_subs (sv_router S2)) sid" "sv_sent S2 = sv_sent S"
    by metis
  then show ?thesis by (simp add: open_connection_def close_conn_def Let_def)
qed

theorem failed_handshake_leaks_witness:
  "has_key (sv_conns (open_connection demo_ulid demo_link (demo_loads ''h'' (VDict demo_hello_frame)) False 0 ''s1'' ''h''
     (new_server capped_cfg None None))) ''s1''"
proof -
  let ?S = "new_server capped_cfg None None" and ?loads = "demo_loads ''h'' (VDict demo_hello_frame)"
  have 1: "read_frame ?loads ''h'' = Inr (VDict demo_hello_frame)"
    by (simp add: read_frame_def demo_loads_def MAX_FRAME_SIZE_def)
  have 2: "dget demo_hello_frame ''type'' = Some (VStr ''hello'')" by (simp add: demo_hello_frame_def)
  have 3: "validate_frame (VDict demo_hello_frame) None = None"
    by (code_simp, simp add: is_str_list_def)
  have 4: "length (sv_conns ?S) < MAX_CONNECTIONS" by (simp add: new_server_def MAX_CONNECTIONS_def)
  have "destinations_for_hello (sv_router ?S) (get_str demo_hello_frame ''adapter'' []) (hello_sources demo_hello_frame)
      (hello_claimed demo_hello_frame) = Inr [''desk'']" by code_simp
  moreover have "destinations_over_cap (sv_router ?S) [''desk''] = []" by code_simp
  ultimately show ?thesis
    using failed_handshake_leaks [OF 1 2 3 4, of "[''desk'']" False undefined demo_ulid demo_link 0 "''s1''"]
    by (simp add: Let_def)
qed

end
