(* ===== verification/Delivery.thy ===== *)
theory Delivery
  imports Addressing Store_Props
begin

section \<open>Human-directed delivery (\<open>delivery.py\<close>)\<close>

text \<open>
  An event whose \<open>meta.target\<close> names a principal is sent out of band through the principal's
  channels.  The channels are handed to \<open>HumanDelivery\<close> by kind: \<open>chan kind\<close> is the registered
  adapter, a function of the event and the channel's config to what awaiting it gives (a result
  dictionary, an exception with its \<open>str\<close>, or the cancellation of the task).  \<open>db\<close> says whether
  the store accepts the dead-letter write.  \<open>hd_calls\<close> lists the channels that were called.
\<close>

datatype chan_outcome = Result dict | Chan_raised string | Cancelled

type_synonym channels = "(string \<times> (dict \<Rightarrow> pyval \<Rightarrow> chan_outcome)) list"

record health =
  h_failures :: "((string \<times> string) \<times> pyval) list"
  h_unknown :: "string set"
  h_delivered :: int
  h_lost :: int
  h_last_lost :: "string option"

definition new_health :: health where
  "new_health = \<lparr>h_failures = [], h_unknown = {}, h_delivered = 0, h_lost = 0, h_last_lost = None\<rparr>"

definition record_success :: "string \<Rightarrow> string \<Rightarrow> health \<Rightarrow> health" where
  "record_success ch pid h =
     h\<lparr>h_failures := dpop (ch, pid) (h_failures h), h_delivered := h_delivered h + 1\<rparr>"

definition record_failure :: "string \<Rightarrow> string \<Rightarrow> pyval \<Rightarrow> health \<Rightarrow> health" where
  "record_failure ch pid err h = h\<lparr>h_failures := dset (ch, pid) err (h_failures h)\<rparr>"

definition record_unknown_principal :: "string \<Rightarrow> health \<Rightarrow> health" where
  "record_unknown_principal pid h = h\<lparr>h_unknown := insert pid (h_unknown h)\<rparr>"

definition record_lost_alert :: "string \<Rightarrow> health \<Rightarrow> health" where
  "record_lost_alert ref h = h\<lparr>h_lost := h_lost h + 1, h_last_lost := Some ref\<rparr>"

definition has_failures :: "health \<Rightarrow> bool" where
  "has_failures h \<longleftrightarrow> h_failures h \<noteq> [] \<or> h_unknown h \<noteq> {} \<or> h_lost h \<noteq> 0"

record human =
  hd_config :: cfg
  hd_health :: health
  hd_store :: "store option"
  hd_calls :: "string list"

text \<open>\<open>{**d, **e}\<close>.\<close>

definition dict_merge :: "dict \<Rightarrow> dict \<Rightarrow> dict" where
  "dict_merge d e = fold (\<lambda>(k, v). dset k v) e d"

definition status_is :: "string \<Rightarrow> dict \<Rightarrow> bool" where
  "status_is s r \<longleftrightarrow> dget r ''status'' = Some (VStr s)"

definition channels_with :: "dict list \<Rightarrow> string \<Rightarrow> string list" where
  "channels_with results status =
     map (\<lambda>r. get_str r ''channel'' ''?'') (filter (status_is status) results)"

definition dead_letter_human ::
  "(nat \<Rightarrow> string) \<Rightarrow> bool \<Rightarrow> pytime \<Rightarrow> dict \<Rightarrow> string \<Rightarrow> string \<Rightarrow> string list \<Rightarrow> human \<Rightarrow> human" where
  "dead_letter_human ulid db now event pid err delivered H =
     (case hd_store H of
        None \<Rightarrow> H
      | Some st \<Rightarrow>
          (let source = get_str event ''source'' []; ref_id = get_str event ''event_id'' [];
               lost = H\<lparr>hd_health := record_lost_alert (source @ ''/'' @ ref_id) (hd_health H)\<rparr>
           in if \<not> db then lost
              else
                (case dead_letter ulid now ''human_delivery'' source ref_id
                        [(''event'', VDict event), (''principal_id'', VStr pid),
                         (''delivered_channels'', VList (map VStr delivered))] (Some err) 1 st of
                   Inl _ \<Rightarrow> lost
                 | Inr (_, st') \<Rightarrow> H\<lparr>hd_store := Some st'\<rparr>)))"

definition resolve_principal :: "cfg \<Rightarrow> string \<Rightarrow> dict option" where
  "resolve_principal cfg pid =
     (case dget cfg ''delivery'' of
        Some (VDict principals) \<Rightarrow> dict_of (dget principals pid)
      | _ \<Rightarrow> None)"

text \<open>What the \<open>try\<close> around the awaited channel leaves: a result, or nothing on cancellation.\<close>

definition called :: "chan_outcome \<Rightarrow> dict option" where
  "called outcome =
     (case outcome of
        Result r \<Rightarrow> Some r
      | Chan_raised text \<Rightarrow> Some [(''status'', VStr ''failed''), (''error'', VStr text)]
      | Cancelled \<Rightarrow> None)"

text \<open>
  The loop over the channels, with its flags \<open>any_delivered\<close> and \<open>any_failed\<close>; the first result
  is False when the task was cancelled.
\<close>

fun channel_loop ::
  "channels \<Rightarrow> dict \<Rightarrow> string \<Rightarrow> string list \<Rightarrow> dict \<Rightarrow> bool \<Rightarrow> bool \<Rightarrow> dict list \<Rightarrow> human \<Rightarrow>
   bool \<times> bool \<times> bool \<times> dict list \<times> human" where
  "channel_loop chan event pid skip [] any_del any_fail results H = (True, any_del, any_fail, results, H)"
| "channel_loop chan event pid skip ((kind, cfg) # rest) any_del any_fail results H =
     (if kind \<in> set skip then
        channel_loop chan event pid skip rest any_del any_fail
          (results @ [[(''channel'', VStr kind), (''status'', VStr ''skipped'')]]) H
      else
        (case dget chan kind of
           None \<Rightarrow>
             channel_loop chan event pid skip rest any_del True
               (results @ [[(''channel'', VStr kind), (''status'', VStr ''failed''),
                            (''error'', VStr ''no adapter'')]])
               (H\<lparr>hd_health := record_failure kind pid (VStr ''no adapter'') (hd_health H)\<rparr>)
         | Some deliver_on \<Rightarrow>
             (let H1 = H\<lparr>hd_calls := hd_calls H @ [kind]\<rparr> in
              case called (deliver_on event cfg) of
                None \<Rightarrow> (False, any_del, any_fail, results, H1)
              | Some result \<Rightarrow>
                  (let status = (case dget result ''status'' of None \<Rightarrow> VStr ''unknown'' | Some s \<Rightarrow> s);
                       results' = results @ [dict_merge [(''channel'', VStr kind)] result]
                   in if status = VStr ''delivered'' then
                        channel_loop chan event pid skip rest True any_fail results'
                          (H1\<lparr>hd_health := record_success kind pid (hd_health H1)\<rparr>)
                      else
                        channel_loop chan event pid skip rest any_del True results'
                          (H1\<lparr>hd_health := record_failure kind pid
                             (case dget result ''error'' of None \<Rightarrow> status | Some e \<Rightarrow> e) (hd_health H1)\<rparr>)))))"

definition overall_status :: "bool \<Rightarrow> bool \<Rightarrow> dict list \<Rightarrow> string" where
  "overall_status any_del any_fail results =
     (if filter (\<lambda>r. \<not> status_is ''skipped'' r) results = [] then ''delivered''
      else if any_del \<and> \<not> any_fail then ''delivered''
      else if any_del \<and> any_fail then ''partial'' else ''failed'')"

text \<open>\<open>Gone\<close>: the cancellation is raised again after the dead-letter write.\<close>

datatype delivery_result =
    No_target | Unknown_principal string | No_channels string
  | Done string "dict list" | Gone

definition deliver_human ::
  "(nat \<Rightarrow> string) \<Rightarrow> bool \<Rightarrow> pytime \<Rightarrow> channels \<Rightarrow> dict \<Rightarrow> string list \<Rightarrow> human \<Rightarrow>
   delivery_result \<times> human" where
  "deliver_human ulid db now chan event skip H =
     (case (case dget event ''meta'' of None \<Rightarrow> VDict [] | Some m \<Rightarrow> m) of
        VDict meta \<Rightarrow>
          if \<not> truthy_opt (dget meta ''target'') then (No_target, H)
          else
            (let pid = get_str meta ''target'' [] in
             case resolve_principal (hd_config H) pid of
               None \<Rightarrow>
                 (Unknown_principal pid, H\<lparr>hd_health := record_unknown_principal pid (hd_health H)\<rparr>)
             | Some [] \<Rightarrow>
                 (No_channels pid,
                  dead_letter_human ulid db now event pid ''principal has no delivery channels configured'' [] H)
             | Some (c # cs) \<Rightarrow>
                 (case channel_loop chan event pid skip (c # cs) False False [] H of
                    (False, _, _, results, H1) \<Rightarrow>
                      (let delivered = channels_with results ''delivered'' @ skip in
                       (Gone,
                        dead_letter_human ulid db now event pid
                          (''human delivery cancelled mid-flight (daemon shutdown); delivered channels=''
                           @ py_repr (VList (map VStr delivered))) delivered H1))
                  | (True, any_del, any_fail, results, H1) \<Rightarrow>
                      (let overall = overall_status any_del any_fail results in
                       (Done overall results,
                        if overall = ''delivered'' then H1
                        else
                          dead_letter_human ulid db now event pid
                            (''human delivery '' @ overall @ '': failed channels=''
                             @ py_repr (VList (map (\<lambda>r. case dget r ''channel'' of None \<Rightarrow> VStr ''?'' | Some v \<Rightarrow> v)
                                 (filter (\<lambda>r. \<not> status_is ''skipped'' r \<and> \<not> status_is ''delivered'' r) results))))
                            (channels_with results ''delivered'' @ skip) H1)))
             )
      | _ \<Rightarrow> (No_target, H))"

end
