(* ===== verification/Delivery_Props.thy ===== *)
theory Delivery_Props
  imports Delivery
begin

section \<open>What human delivery promises\<close>

text \<open>
  Every alert addressed to a principal with channels is delivered, dead-lettered or counted as
  lost, also when the task is cancelled, and a redrive never repeats a channel that landed.
\<close>

text \<open>Calling channel \<open>k\<close> with config \<open>c\<close> reports \<open>delivered\<close>.\<close>

definition landed :: "channels \<Rightarrow> dict \<Rightarrow> string \<Rightarrow> pyval \<Rightarrow> bool" where
  "landed chan event k c \<longleftrightarrow>
     (case dget chan k of
        None \<Rightarrow> False
      | Some f \<Rightarrow> (case called (f event c) of None \<Rightarrow> False | Some r \<Rightarrow> status_is ''delivered'' r))"

text \<open>The contract of a channel adapter: its result does not name a channel and is never
  \<open>skipped\<close>, which are the dispatcher's own.\<close>

definition channel_contract :: "channels \<Rightarrow> bool" where
  "channel_contract chan \<longleftrightarrow> (\<forall>k f event c r. dget chan k = Some f \<longrightarrow> called (f event c) = Some r \<longrightarrow>
     wf_dict r \<and> \<not> has_key r ''channel'' \<and> \<not> status_is ''skipped'' r)"

lemma dget_dict_merge: "dget (dict_merge d e) k = (case dget (rev e) k of None \<Rightarrow> dget d k | Some v \<Rightarrow> Some v)"
  unfolding dict_merge_def
  by (induction e arbitrary: d) (auto simp: dget_dset map_add_def split: option.splits)

lemma dget_rev_wf: "wf_dict e \<Longrightarrow> dget (rev e) k = dget e k"
proof -
  assume e: "wf_dict e"
  then have "wf_dict (rev e)" by (simp add: wf_dict_def flip: rev_map)
  with e have "dget (rev e) k = Some v \<longleftrightarrow> dget e k = Some v" for v by (simp add: wf_dict_get)
  then show ?thesis by (metis not_None_eq)
qed

lemma merged_result:
  assumes "channel_contract chan" "dget chan k = Some f" "called (f event c) = Some r"
  shows "dget (dict_merge [(''channel'', VStr k)] r) ''channel'' = Some (VStr k)"
    and "status_is s (dict_merge [(''channel'', VStr k)] r) = status_is s r"
    and "\<not> status_is ''skipped'' r"
proof -
  have r: "wf_dict r" "dget r ''channel'' = None" "\<not> status_is ''skipped'' r"
    using assms by (auto simp: channel_contract_def has_key_def)
  show "dget (dict_merge [(''channel'', VStr k)] r) ''channel'' = Some (VStr k)"
    using r by (simp add: dget_dict_merge dget_rev_wf)
  show "status_is s (dict_merge [(''channel'', VStr k)] r) = status_is s r"
    using r by (simp add: status_is_def dget_dict_merge dget_rev_wf split: option.split)
  show "\<not> status_is ''skipped'' r" by (rule r(3))
qed

lemma channels_with_append: "channels_with (xs @ ys) s = channels_with xs s @ channels_with ys s"
  by (simp add: channels_with_def)

text \<open>What the loop does to its state, for a loop that starts with \<open>results\<close> and ends with
  \<open>results'\<close>: the calls it adds, all outside \<open>skip\<close>, with those that landed recorded.\<close>

definition loop_ok ::
  "channels \<Rightarrow> dict \<Rightarrow> string list \<Rightarrow> dict \<Rightarrow> bool \<Rightarrow> dict list \<Rightarrow> human \<Rightarrow> bool \<times> bool \<times> bool \<times> dict list \<times> human \<Rightarrow> bool" where
  "loop_ok chan event skip cs af results H out \<longleftrightarrow>
     (case out of (fin, ad', af', results', H') \<Rightarrow>
        hd_store H' = hd_store H \<and> hd_config H' = hd_config H \<and> h_lost (hd_health H') = h_lost (hd_health H)
        \<and> (\<exists>rs. results' = results @ rs) \<and> (af \<longrightarrow> af')
        \<and> (\<exists>ps. hd_calls H' = hd_calls H @ map fst ps \<and> set ps \<subseteq> set cs \<and> fst ` set ps \<inter> set skip = {}
              \<and> (\<forall>(k, c) \<in> set ps. landed chan event k c \<longrightarrow> k \<in> set (channels_with results' ''delivered'')))
        \<and> (fin \<and> (\<not> af' \<or> filter (\<lambda>r. \<not> status_is ''skipped'' r) results' = []) \<longrightarrow>
             (\<forall>(k, c) \<in> set cs. k \<in> set skip \<or> landed chan event k c)))"

lemma loop_ok_Nil: "loop_ok chan event skip [] af results H (True, ad, af, results, H)"
  by (simp add: loop_ok_def)

lemma loop_ok_skip:
  assumes "loop_ok chan event skip cs af (results @ [r]) H out" "k \<in> set skip"
  shows "loop_ok chan event skip ((k, c) # cs) af results H out"
  using assms by (cases out) (fastforce simp: loop_ok_def)

lemma loop_ok_uncalled:
  assumes "loop_ok chan event skip cs True (results @ [r]) (H\<lparr>hd_health := h\<rparr>) out"
    and "\<not> status_is ''skipped'' r" "h_lost h = h_lost (hd_health H)"
  shows "loop_ok chan event skip ((k, c) # cs) af results H out"
  using assms by (cases out) (fastforce simp: loop_ok_def)

lemma loop_ok_called:
  assumes "loop_ok chan event skip cs af1 (results @ [r]) (H\<lparr>hd_calls := hd_calls H @ [k], hd_health := h\<rparr>) out"
    and "\<not> status_is ''skipped'' r" "h_lost h = h_lost (hd_health H)" "k \<notin> set skip"
    and "af \<longrightarrow> af1" "landed chan event k c \<longleftrightarrow> status_is ''delivered'' r"
    and "status_is ''delivered'' r \<Longrightarrow> dget r ''channel'' = Some (VStr k)" "\<not> status_is ''delivered'' r \<Longrightarrow> af1"
  shows "loop_ok chan event skip ((k, c) # cs) af results H out"
proof -
  obtain fin ad' af' results' H' where out: "out = (fin, ad', af', results', H')" by (metis prod_cases5)
  from assms(1) obtain ps rs where H': "hd_store H' = hd_store H" "hd_config H' = hd_config H"
    "h_lost (hd_health H') = h_lost (hd_health H)" "results' = results @ r # rs" "af1 \<longrightarrow> af'"
    "hd_calls H' = hd_calls H @ k # map fst ps" "set ps \<subseteq> set cs" "fst ` set ps \<inter> set skip = {}"
    "\<forall>(k, c) \<in> set ps. landed chan event k c \<longrightarrow> k \<in> set (channels_with results' ''delivered'')"
    "fin \<and> (\<not> af' \<or> filter (\<lambda>r. \<not> status_is ''skipped'' r) results' = []) \<longrightarrow>
       (\<forall>(k, c) \<in> set cs. k \<in> set skip \<or> landed chan event k c)"
    using assms(3) by (auto simp: loop_ok_def out)
  have k: "landed chan event k c \<longrightarrow> k \<in> set (channels_with results' ''delivered'')"
    using assms(6,7) H'(4) by (auto simp: channels_with_def get_str_def)
  have last: "fin \<and> (\<not> af' \<or> filter (\<lambda>r. \<not> status_is ''skipped'' r) results' = []) \<longrightarrow> landed chan event k c"
    using assms(2,5,6,8) H'(4,5) by auto
  show ?thesis
    unfolding loop_ok_def out case_prod_conv
    using H' k last assms(4,5)
    by (intro conjI exI [of _ "(k, c) # ps"]) auto
qed

lemma channel_loop_ok:
  assumes "channel_contract chan"
  shows "loop_ok chan event skip cs af results H (channel_loop chan event pid skip cs ad af results H)"
proof (induction cs arbitrary: ad af results H)
  case (Cons kc cs)
  obtain k c where kc: "kc = (k, c)" by (cases kc)
  show ?case
  proof (cases "k \<in> set skip")
    case True
    then show ?thesis unfolding kc by (simp add: loop_ok_skip [OF Cons])
  next
    case out: False
    show ?thesis
    proof (cases "dget chan k")
      case None
      with out show ?thesis unfolding kc
        by (simp add: loop_ok_uncalled [OF Cons] status_is_def record_failure_def)
    next
      case (Some f)
      show ?thesis
      proof (cases "called (f event c)")
        case None
        have "\<not> landed chan event k c" using None Some by (simp add: landed_def)
        then have "loop_ok chan event skip ((k, c) # cs) af results H
            (False, ad, af, results, H\<lparr>hd_calls := hd_calls H @ [k]\<rparr>)"
          unfolding loop_ok_def case_prod_conv using out
          by (intro conjI exI [of _ "[(k, c)]"] exI [of _ "[]"]) simp_all
        with out None Some show ?thesis unfolding kc by (simp add: Let_def)
      next
        case (Some r)
        note m = merged_result [OF assms \<open>dget chan k = Some f\<close> Some]
        have landed: "landed chan event k c \<longleftrightarrow> status_is ''delivered'' r"
          using Some \<open>dget chan k = Some f\<close> by (simp add: landed_def)
        show ?thesis
        proof (cases "status_is ''delivered'' r")
          case True
          let ?h = "record_success k pid (hd_health H)"
          have "loop_ok chan event skip ((k, c) # cs) af results H
              (channel_loop chan event pid skip cs True af (results @ [dict_merge [(''channel'', VStr k)] r])
                 (H\<lparr>hd_calls := hd_calls H @ [k], hd_health := ?h\<rparr>))"
            by (rule loop_ok_called [OF Cons]) (use m landed True out in \<open>simp_all add: record_success_def\<close>)
          with out Some \<open>dget chan k = Some f\<close> True show ?thesis
            unfolding kc by (simp add: Let_def status_is_def)
        next
          case False
          let ?h = "record_failure k pid (case dget r ''error'' of
              None \<Rightarrow> (case dget r ''status'' of None \<Rightarrow> VStr ''unknown'' | Some s \<Rightarrow> s) | Some e \<Rightarrow> e) (hd_health H)"
          have "loop_ok chan event skip ((k, c) # cs) af results H
              (channel_loop chan event pid skip cs ad True (results @ [dict_merge [(''channel'', VStr k)] r])
                 (H\<lparr>hd_calls := hd_calls H @ [k], hd_health := ?h\<rparr>))"
            by (rule loop_ok_called [OF Cons]) (use m landed False out in \<open>simp_all add: record_failure_def\<close>)
          with out Some \<open>dget chan k = Some f\<close> False show ?thesis
            unfolding kc by (simp add: Let_def status_is_def split: option.splits)
        qed
      qed
    qed
  qed
qed (simp add: loop_ok_Nil)

text \<open>A store with one more dead letter, for the alert \<open>event\<close> of principal \<open>pid\<close>.\<close>

definition alert_kept :: "dict \<Rightarrow> string \<Rightarrow> string list \<Rightarrow> human \<Rightarrow> human \<Rightarrow> bool" where
  "alert_kept event pid ds H H' \<longleftrightarrow>
     (case (hd_store H, hd_store H') of
        (Some st, Some st') \<Rightarrow>
          (\<exists>d. st_dead st' = st_dead st @ [d] \<and> dl_kind d = ''human_delivery'' \<and> dl_redrive_status d = None
             \<and> dl_payload d = [(''event'', VDict event), (''principal_id'', VStr pid),
                                (''delivered_channels'', VList (map VStr ds))])
      | _ \<Rightarrow> False)"

lemma dead_letter_human_cases:
  "hd_calls (dead_letter_human u db now event pid err ds H) = hd_calls H
     \<and> hd_config (dead_letter_human u db now event pid err ds H) = hd_config H"
  "hd_store H \<noteq> None \<Longrightarrow> db \<Longrightarrow> alert_kept event pid ds H (dead_letter_human u db now event pid err ds H)"
  "hd_store H \<noteq> None \<Longrightarrow> \<not> db \<Longrightarrow>
     h_lost (hd_health (dead_letter_human u db now event pid err ds H)) = h_lost (hd_health H) + 1"
  by (auto simp: dead_letter_human_def dead_letter_def DEAD_LETTER_KINDS_def alert_kept_def record_lost_alert_def
      mk_dead_def store_simps Let_def split: option.splits)

lemma alert_kept_inj: "alert_kept event pid ds H H' \<Longrightarrow> alert_kept event pid ds2 H H' \<Longrightarrow> ds2 = ds"
  by (auto simp: alert_kept_def inj_map_eq_map inj_def split: option.splits)

lemma alert_not_kept: "hd_store H' = hd_store H \<Longrightarrow> \<not> alert_kept event pid ds H H'"
  by (simp add: alert_kept_def split: option.split)

lemma dead_letter_human_down: "\<not> db \<or> hd_store H = None \<Longrightarrow>
    hd_store (dead_letter_human u db now event pid err ds H) = hd_store H"
  by (auto simp: dead_letter_human_def Let_def split: option.split)

lemma alert_kept_cong: "hd_store H1 = hd_store H \<Longrightarrow> alert_kept event pid ds H1 H' = alert_kept event pid ds H H'"
  by (simp add: alert_kept_def)

text \<open>What a delivery to a known principal with channels \<open>cs\<close> leaves, from the loop's contract.\<close>

lemma deliver_human_outcome:
  assumes "channel_contract chan" and "dget event ''meta'' = Some (VDict meta)" and "truthy_opt (dget meta ''target'')"
    and "resolve_principal (hd_config H) (get_str meta ''target'' []) = Some cs" and "cs \<noteq> []"
    and "deliver_human u db now chan event skip H = (res, H')"
  shows "\<exists>ps ds. hd_config H' = hd_config H \<and> hd_calls H' = hd_calls H @ map fst ps
    \<and> set ps \<subseteq> set cs \<and> fst ` set ps \<inter> set skip = {}
    \<and> set skip \<subseteq> set ds \<and> (\<forall>(k, c) \<in> set ps. landed chan event k c \<longrightarrow> k \<in> set ds)
    \<and> (if \<exists>results. res = Done ''delivered'' results
        then (\<forall>(k, c) \<in> set cs. k \<in> set skip \<or> landed chan event k c)
        else hd_store H \<noteq> None \<longrightarrow>
               (if db then alert_kept event (get_str meta ''target'' []) ds H H'
                else h_lost (hd_health H') = h_lost (hd_health H) + 1))
    \<and> (\<forall>ds2. alert_kept event (get_str meta ''target'' []) ds2 H H' \<longrightarrow> ds2 = ds)"
proof -
  let ?pid = "get_str meta ''target'' []"
  obtain fin ad af results H1 where loop:
    "channel_loop chan event ?pid skip cs False False [] H = (fin, ad, af, results, H1)"
    by (metis prod_cases5)
  from channel_loop_ok [OF assms(1), of event skip cs False "[]" H ?pid False] loop obtain ps where ps:
    "hd_store H1 = hd_store H" "h_lost (hd_health H1) = h_lost (hd_health H)" "hd_config H1 = hd_config H"
    "hd_calls H1 = hd_calls H @ map fst ps" "set ps \<subseteq> set cs" "fst ` set ps \<inter> set skip = {}"
    "\<forall>(k, c) \<in> set ps. landed chan event k c \<longrightarrow> k \<in> set (channels_with results ''delivered'')"
    "fin \<and> (\<not> af \<or> filter (\<lambda>r. \<not> status_is ''skipped'' r) results = []) \<longrightarrow>
       (\<forall>(k, c) \<in> set cs. k \<in> set skip \<or> landed chan event k c)"
    by (auto simp: loop_ok_def)
  let ?ds = "channels_with results ''delivered'' @ skip"
  obtain c cs' where cs: "cs = c # cs'" using assms(5) by (cases cs) auto
  note run = assms(6) [unfolded deliver_human_def assms(2) option.case pyval.case]
  have kept: "hd_store H \<noteq> None \<longrightarrow>
      (if db then alert_kept event ?pid ?ds H (dead_letter_human u db now event ?pid err ?ds H1)
       else h_lost (hd_health (dead_letter_human u db now event ?pid err ?ds H1)) = h_lost (hd_health H) + 1)" for err
    using dead_letter_human_cases(2,3) [of H1] ps(1,2) alert_kept_cong [OF ps(1)] by simp
  have out: "(fin \<and> overall_status ad af results = ''delivered'' \<and> res = Done ''delivered'' results \<and> H' = H1)
      \<or> ((\<nexists>rs. res = Done ''delivered'' rs) \<and> (\<exists>err. H' = dead_letter_human u db now event ?pid err ?ds H1))"
  proof (cases fin)
    case True
    then show ?thesis using run assms(3,4) loop unfolding cs
      by (cases "overall_status ad af results = ''delivered''") (auto simp: Let_def)
  next
    case False
    then show ?thesis using run assms(3,4) loop unfolding cs by (auto simp: Let_def)
  qed
  have "overall_status ad af results = ''delivered'' \<Longrightarrow> \<not> af \<or> filter (\<lambda>r. \<not> status_is ''skipped'' r) results = []"
    by (auto simp: overall_status_def split: if_splits)
  moreover have "\<forall>ds2. alert_kept event ?pid ds2 H H' \<longrightarrow> ds2 = ?ds"
  proof (intro allI impI)
    fix ds2 assume k: "alert_kept event ?pid ds2 H H'"
    with alert_not_kept ps(1) out obtain err where H': "H' = dead_letter_human u db now event ?pid err ?ds H1"
      by blast
    with k alert_not_kept dead_letter_human_down [of db H1] ps(1) have "db" "hd_store H1 \<noteq> None" by metis+
    then have "alert_kept event ?pid ?ds H1 H'" unfolding H' by (intro dead_letter_human_cases(2))
    then have "alert_kept event ?pid ?ds H H'" unfolding alert_kept_cong [OF ps(1)] .
    then show "ds2 = ?ds" using k by (rule alert_kept_inj)
  qed
  moreover have "hd_config H' = hd_config H \<and> hd_calls H' = hd_calls H @ map fst ps"
    using out ps(3,4) dead_letter_human_cases(1) by auto
  ultimately show ?thesis using out ps kept
    by (intro exI [of _ ps] exI [of _ ?ds]) (auto simp del: channels_with_append)
qed

lemma deliver_human_config:
  assumes "channel_contract chan" "dget event ''meta'' = Some (VDict meta)" "truthy_opt (dget meta ''target'')"
    "resolve_principal (hd_config H) (get_str meta ''target'' []) = Some cs" "cs \<noteq> []"
    "deliver_human u db now chan event skip H = (res, H')"
  shows "hd_config H' = hd_config H"
  using deliver_human_outcome [OF assms] by (elim exE conjE)

lemma deliver_human_gone:
  assumes "channel_contract chan" "dget event ''meta'' = Some (VDict meta)" "truthy_opt (dget meta ''target'')"
    "resolve_principal (hd_config H) (get_str meta ''target'' []) = Some cs" "cs \<noteq> []"
    "deliver_human u True now chan event skip H = (Gone, H')" "hd_store H \<noteq> None"
  shows "\<exists>ds. alert_kept event (get_str meta ''target'' []) ds H H'"
  using deliver_human_outcome [OF assms(1-6)] assms(7) by auto

lemma channel_loop_store: "hd_store (snd (snd (snd (snd (channel_loop chan event pid skip cs ad af results H))))) = hd_store H"
proof (induction cs arbitrary: ad af results H)
  case (Cons c cs)
  then show ?case by (cases c) (simp add: Let_def split: option.split)
qed simp

text \<open>How a delivery ends: without a call, or after the loop over the channels, with or without a
  dead letter.\<close>

lemma deliver_human_cases:
  assumes "deliver_human u db now chan event skip H = (res, H')"
  shows "H' = H \<or> (\<exists>pid. H' = H\<lparr>hd_health := record_unknown_principal pid (hd_health H)\<rparr>)
    \<or> (\<exists>pid err ds. H' = dead_letter_human u db now event pid err ds H)
    \<or> (\<exists>pid cs fin ad af results H1. channel_loop chan event pid skip cs False False [] H = (fin, ad, af, results, H1)
         \<and> (H' = H1 \<or> (\<exists>pid err ds. H' = dead_letter_human u db now event pid err ds H1)))"
proof (cases "\<exists>meta. (case dget event ''meta'' of None \<Rightarrow> VDict [] | Some m \<Rightarrow> m) = VDict meta
    \<and> truthy_opt (dget meta ''target'')")
  case False
  then show ?thesis using assms by (auto simp: deliver_human_def split: pyval.splits if_splits)
next
  case True
  then obtain meta where m: "(case dget event ''meta'' of None \<Rightarrow> VDict [] | Some m \<Rightarrow> m) = VDict meta"
    "truthy_opt (dget meta ''target'')" by blast
  note run = assms [unfolded deliver_human_def m(1) pyval.case Let_def]
  show ?thesis
  proof (cases "resolve_principal (hd_config H) (get_str meta ''target'' [])")
    case None
    with run m(2) show ?thesis by auto
  next
    case (Some cs)
    obtain fin ad af results H1 where l: "channel_loop chan event (get_str meta ''target'' []) skip cs False False [] H
        = (fin, ad, af, results, H1)" by (metis prod_cases5)
    show ?thesis
    proof (cases cs)
      case Nil
      with run m(2) Some show ?thesis by auto
    next
      case (Cons c cs')
      have "H' = H1 \<or> (\<exists>pid err ds. H' = dead_letter_human u db now event pid err ds H1)"
        using run m(2) Some l unfolding Cons
        by (cases fin; cases "overall_status ad af results = ''delivered''") auto
      with l show ?thesis by blast
    qed
  qed
qed

lemma deliver_human_no_store:
  assumes "deliver_human u db now chan event skip H = (res, H')" "hd_store H = None"
  shows "hd_store H' = None"
proof -
  have "hd_store H1 = None" if "channel_loop chan event pid skip cs False False [] H = (fin, ad, af, results, H1)"
    for pid cs fin ad af results H1
    using channel_loop_store [of chan event pid skip cs False False "[]" H] that assms(2) by simp
  with deliver_human_cases [OF assms(1)] assms(2) show ?thesis
    by (elim disjE exE conjE) (simp_all add: dead_letter_human_down)
qed

text \<open>All a delivery does to the store is to add one dead letter, and with a store that takes it no
  alert is counted as lost.\<close>

definition dead_added :: "(nat \<Rightarrow> string) \<Rightarrow> bool \<Rightarrow> pytime \<Rightarrow> store \<Rightarrow> store option \<Rightarrow> bool" where
  "dead_added u db now st s' \<longleftrightarrow> s' = Some st
     \<or> db \<and> (\<exists>src ref pl err n. s' = Some (insert_dead u now ''human_delivery'' src ref pl err n st))"

lemma deliver_human_effect:
  assumes "channel_contract chan" "hd_store H = Some st" "deliver_human u db now chan event skip H = (res, H')"
  shows "dead_added u db now st (hd_store H') \<and> (db \<longrightarrow> h_lost (hd_health H') = h_lost (hd_health H))"
proof -
  have dl: "dead_added u db now st (hd_store (dead_letter_human u db now event pid err ds H1))
      \<and> (db \<longrightarrow> h_lost (hd_health (dead_letter_human u db now event pid err ds H1)) = h_lost (hd_health H1))"
    if "hd_store H1 = Some st" for pid err ds H1
    using that
    by (auto simp: dead_added_def dead_letter_human_def dead_letter_def DEAD_LETTER_KINDS_def record_lost_alert_def Let_def) blast
  have loop: "hd_store H1 = Some st \<and> h_lost (hd_health H1) = h_lost (hd_health H)"
    if "channel_loop chan event pid skip cs False False [] H = (fin, ad, af, results, H1)" for pid cs fin ad af results H1
    using channel_loop_ok [OF assms(1), of event skip cs False "[]" H pid False] that assms(2)
    by (simp add: loop_ok_def)
  from deliver_human_cases [OF assms(3)] show ?thesis
  proof (elim disjE exE conjE)
    fix pid err ds assume "H' = dead_letter_human u db now event pid err ds H"
    with dl [OF assms(2)] show ?thesis by simp
  next
    fix pid cs fin ad af results H1
    assume "channel_loop chan event pid skip cs False False [] H = (fin, ad, af, results, H1)" "H' = H1"
    with loop show ?thesis by (simp add: dead_added_def)
  next
    fix pid cs fin ad af results H1 pid' err ds
    assume "channel_loop chan event pid skip cs False False [] H = (fin, ad, af, results, H1)"
      and H': "H' = dead_letter_human u db now event pid' err ds H1"
    note l = loop [OF this(1)]
    from dl [OF l [THEN conjunct1], of pid' err ds] l show ?thesis unfolding H' by simp
  qed (use assms(2) in \<open>simp_all add: dead_added_def record_unknown_principal_def\<close>)
qed

text \<open>Without a store a delivery leaves no trace there, and counts no alert as lost.\<close>

lemma deliver_human_storeless:
  assumes "channel_contract chan" "hd_store H = None" "deliver_human u db now chan event skip H = (res, H')"
  shows "hd_store H' = None \<and> h_lost (hd_health H') = h_lost (hd_health H)"
proof -
  have dl: "dead_letter_human u db now event pid err ds H1 = H1" if "hd_store H1 = None" for pid err ds H1
    using that by (simp add: dead_letter_human_def)
  have loop: "hd_store H1 = None \<and> h_lost (hd_health H1) = h_lost (hd_health H)"
    if "channel_loop chan event pid skip cs False False [] H = (fin, ad, af, results, H1)" for pid cs fin ad af results H1
    using channel_loop_ok [OF assms(1), of event skip cs False "[]" H pid False] that assms(2)
    by (simp add: loop_ok_def)
  from deliver_human_cases [OF assms(3)] show ?thesis
    by (elim disjE exE conjE) (use assms(2) loop dl in \<open>simp_all add: record_unknown_principal_def\<close>)
qed


definition demo_alert :: dict where
  "demo_alert = [(''event_id'', VStr ''e1''), (''source'', VStr ''ci''),
     (''meta'', VDict [(''target'', VStr ''human:ann'')])]"

definition demo_human :: human where
  "demo_human = \<lparr>hd_config = [(''delivery'', VDict [(''human:ann'',
       VDict [(''webhook'', VDict []), (''email'', VDict [])])])],
     hd_health = new_health, hd_store = Some new_store, hd_calls = []\<rparr>"

text \<open>The webhook lands, then the mail is cancelled by a shutdown.\<close>

definition demo_chan :: channels where
  "demo_chan = [(''webhook'', \<lambda>_ _. Result [(''status'', VStr ''delivered'')]), (''email'', \<lambda>_ _. Cancelled)]"

lemma demo_contract: "channel_contract demo_chan"
  by (auto simp: channel_contract_def demo_chan_def called_def has_key_def status_is_def wf_dict_def
      split: if_splits)

lemma demo_alert_facts:
  "dget demo_alert ''meta'' = Some (VDict [(''target'', VStr ''human:ann'')])"
  "truthy_opt (dget [(''target'', VStr ''human:ann'')] ''target'')"
  "resolve_principal (hd_config demo_human) (get_str [(''target'', VStr ''human:ann'')] ''target'' [])
     = Some [(''webhook'', VDict []), (''email'', VDict [])]"
  by (simp_all add: demo_alert_def truthy_opt_def resolve_principal_def demo_human_def get_str_def dict_of_def)

lemma demo_gone: "fst (deliver_human demo_ulid True 9 demo_chan demo_alert [] demo_human) = Gone"
  by (simp add: deliver_human_def demo_alert_facts [unfolded truthy_opt_def] truthy_opt_def Let_def called_def
      demo_chan_def split: prod.split)


text \<open>Claim C37: A redrive never repeats a channel that landed.  A delivery that leaves a dead
  letter records in it every channel that landed, with those skipped before; a later delivery
  that skips the recorded channels calls none of them, and calls no channel outside the
  principal's.\<close>

theorem redrive_skips_landed:
  assumes "channel_contract chan" and "channel_contract chan2"
    and "dget event ''meta'' = Some (VDict meta)" and "truthy_opt (dget meta ''target'')"
    and "resolve_principal (hd_config H) (get_str meta ''target'' []) = Some cs" and "cs \<noteq> []"
    and "deliver_human u db now chan event skip H = (res, H')"
    and "alert_kept event (get_str meta ''target'' []) ds H H'"
    and "hd_config H2 = hd_config H" and "deliver_human u db2 now2 chan2 event ds H2 = (res2, H2')"
  shows "\<exists>ps ps2. hd_calls H' = hd_calls H @ map fst ps \<and> hd_calls H2' = hd_calls H2 @ map fst ps2
    \<and> set ps2 \<subseteq> set cs \<and> (\<forall>(k, c) \<in> set ps. landed chan event k c \<longrightarrow> k \<notin> fst ` set ps2)
    \<and> fst ` set ps2 \<inter> set skip = {}"
proof -
  obtain ps ds0 where first: "hd_calls H' = hd_calls H @ map fst ps" "set skip \<subseteq> set ds0"
    "\<forall>(k, c) \<in> set ps. landed chan event k c \<longrightarrow> k \<in> set ds0"
    "\<forall>ds2. alert_kept event (get_str meta ''target'' []) ds2 H H' \<longrightarrow> ds2 = ds0"
    using deliver_human_outcome [OF assms(1,3-7)] by (elim exE conjE) (rule that; assumption)
  have "ds = ds0" using first(4) assms(8) by simp
  obtain ps2 where second: "hd_calls H2' = hd_calls H2 @ map fst ps2" "set ps2 \<subseteq> set cs"
    "fst ` set ps2 \<inter> set ds = {}"
    using deliver_human_outcome [OF assms(2,3,4) assms(5) [folded assms(9)] assms(6,10)]
    by (elim exE conjE) (rule that; assumption)
  have "\<forall>(k, c) \<in> set ps. landed chan event k c \<longrightarrow> k \<notin> fst ` set ps2"
    using first(3) second(3) unfolding \<open>ds = ds0\<close> by blast
  moreover have "fst ` set ps2 \<inter> set skip = {}"
    using first(2) second(3) unfolding \<open>ds = ds0\<close> by blast
  ultimately show ?thesis using first(1) second(1,2) by (intro exI [of _ ps] exI [of _ ps2] conjI)
qed

theorem redrive_skips_landed_witness:
  "\<exists>ds H'. deliver_human demo_ulid True 9 demo_chan demo_alert [] demo_human = (Gone, H')
    \<and> alert_kept demo_alert ''human:ann'' ds demo_human H'
    \<and> (\<exists>ps2 :: (string \<times> pyval) list. hd_calls (snd (deliver_human demo_ulid True 10 demo_chan demo_alert ds H')) = hd_calls H' @ map fst ps2)"
proof -
  obtain H' where run: "deliver_human demo_ulid True 9 demo_chan demo_alert [] demo_human = (Gone, H')"
    using demo_gone by (metis prod.collapse)
  have pid: "get_str [(''target'', VStr ''human:ann'')] ''target'' [] = ''human:ann''" by (simp add: get_str_def)
  have store: "hd_store demo_human \<noteq> None" by (simp add: demo_human_def)
  obtain ds where ds: "alert_kept demo_alert ''human:ann'' ds demo_human H'"
    using deliver_human_gone [OF demo_contract demo_alert_facts list.distinct(2) run store] unfolding pid by (elim exE)
  have cfg: "hd_config H' = hd_config demo_human"
    by (rule deliver_human_config [OF demo_contract demo_alert_facts list.distinct(2) run])
  obtain res2 H2 where run2: "deliver_human demo_ulid True 10 demo_chan demo_alert ds H' = (res2, H2)"
    by (metis surj_pair)
  have "\<exists>ps2 :: (string \<times> pyval) list. hd_calls H2 = hd_calls H' @ map fst ps2"
    using redrive_skips_landed [OF demo_contract demo_contract demo_alert_facts list.distinct(2) run _ cfg run2, unfolded pid, OF ds]
    by (elim exE conjE) (rule exI, assumption)
  then show ?thesis using run ds run2 by (metis snd_conv)
qed

end
