(* ===== verification/Secrets.thy ===== *)
theory Secrets
  imports Url
begin

section \<open>Secret resolution (\<open>secrets/resolver.py\<close>, \<open>secrets/env.py\<close>)\<close>

text \<open>
  The resolver dispatches a secret URI to a backend and caches the bytes: for ever for
  \<open>env://\<close>, with a time to live for \<open>vault://\<close>.  What the process sees is \<open>world\<close>: its
  environment (already encoded), the Vault read (\<open>VaultBackend._sync_fetch\<close> on \<open>hvac\<close>; None when
  no vault is configured), the percent-decoding of a query value and the text of a float.
\<close>

record world =
  w_env :: "string \<Rightarrow> bytes option"
  w_vault :: "(string \<Rightarrow> bytes res) option"
  w_unquote :: "string \<Rightarrow> string"
  w_float :: "string \<Rightarrow> rat option"

subsection \<open>Query strings\<close>

fun fields_of :: "nat \<Rightarrow> string \<Rightarrow> string list" where
  "fields_of 0 s = []"
| "fields_of (Suc n) s =
     (case split_at (CHR ''&'') s of (a, None) \<Rightarrow> [a] | (a, Some rest) \<Rightarrow> a # fields_of n rest)"

text \<open>\<open>parse_qs(q).get(key, [])\<close>: a field without a value is dropped.\<close>

definition plus_space :: "string \<Rightarrow> string" where
  "plus_space s = map (\<lambda>c. if c = CHR ''+'' then CHR 0x20 else c) s"

definition query_values :: "world \<Rightarrow> string \<Rightarrow> string \<Rightarrow> string list" where
  "query_values W q key =
     concat (map (\<lambda>f. case split_at (CHR ''='') f of
                        (n, Some (c # v)) \<Rightarrow>
                          if w_unquote W (plus_space n) = key then [w_unquote W (plus_space (c # v))] else []
                      | _ \<Rightarrow> [])
       (fields_of (Suc (length q)) q))"

subsection \<open>Backends\<close>

definition var_name :: "string \<Rightarrow> string res" where
  "var_name uri =
     (case urlparse uri of
        Inl e \<Rightarrow> Inl e
      | Inr u \<Rightarrow>
          (let name = (if u_netloc u \<noteq> [] then u_netloc u else dropWhile (\<lambda>c. c = CHR ''/'') (u_path u)) in
           if name = [] then Inl (ValueError ''env:// URI has no variable name'') else Inr name))"

definition env_fetch :: "world \<Rightarrow> string \<Rightarrow> bytes res" where
  "env_fetch W uri =
     (case var_name uri of
        Inl e \<Rightarrow> Inl e
      | Inr name \<Rightarrow>
          (case w_env W name of
             None \<Rightarrow> Inl (OtherError ''RuntimeError'') | Some v \<Rightarrow> Inr v))"

definition backend_for :: "world \<Rightarrow> string \<Rightarrow> (string \<Rightarrow> bytes res) res" where
  "backend_for W uri =
     (case urlparse uri of
        Inl e \<Rightarrow> Inl e
      | Inr u \<Rightarrow>
          if u_scheme u = ''env'' then Inr (env_fetch W)
          else (case (w_vault W, u_scheme u = ''vault'') of
                  (Some f, True) \<Rightarrow> Inr f | _ \<Rightarrow> Inl (OtherError ''RuntimeError'')))"

definition DEFAULT_VAULT_TTL :: rat where "DEFAULT_VAULT_TTL = 15 * 60"

definition parse_duration :: "world \<Rightarrow> string \<Rightarrow> rat res" where
  "parse_duration W s0 =
     (let s = strip s0;
          scaled = (\<lambda>n. case w_float W (butlast s) of
                          None \<Rightarrow> Inl (ValueError ''could not convert string to float'') | Some r \<Rightarrow> Inr (r * n))
      in if s \<noteq> [] \<and> last s = CHR ''h'' then scaled 3600
         else if s \<noteq> [] \<and> last s = CHR ''m'' then scaled 60
         else if s \<noteq> [] \<and> last s = CHR ''s'' then scaled 1
         else Inl (ValueError ''Cannot parse duration''))"

text \<open>The expiry of an entry; None never expires.\<close>

definition ttl_for :: "world \<Rightarrow> pytime \<Rightarrow> string \<Rightarrow> pytime option res" where
  "ttl_for W clk uri =
     (case urlparse uri of
        Inl e \<Rightarrow> Inl e
      | Inr u \<Rightarrow>
          if u_scheme u = ''env'' then Inr None
          else
            (let q = query_values W (u_query u) ''ttl'';
                 vals = (if q = []
                         then (case split_at (CHR ''?'') (u_fragment u) of
                                 (_, Some fq) \<Rightarrow> query_values W fq ''ttl'' | _ \<Rightarrow> [])
                         else q)
             in case vals of
                  [] \<Rightarrow> Inr (Some (clk + DEFAULT_VAULT_TTL))
                | v # _ \<Rightarrow>
                    (case parse_duration W v of Inl e \<Rightarrow> Inl e | Inr d \<Rightarrow> Inr (Some (clk + d)))))"

subsection \<open>The cache\<close>

type_synonym secret_cache = "(string \<times> (bytes \<times> pytime option)) list"

definition fetch_and_cache :: "world \<Rightarrow> pytime \<Rightarrow> string \<Rightarrow> secret_cache \<Rightarrow> bytes res \<times> secret_cache" where
  "fetch_and_cache W clk uri C =
     (case backend_for W uri of
        Inl e \<Rightarrow> (Inl e, C)
      | Inr refresh \<Rightarrow>
          (case refresh uri of
             Inl e \<Rightarrow> (Inl e, C)
           | Inr value \<Rightarrow>
               (case ttl_for W clk uri of
                  Inl e \<Rightarrow> (Inl e, C)
                | Inr expires_at \<Rightarrow> (Inr value, dset uri (value, expires_at) C))))"

definition fresh :: "pytime \<Rightarrow> bytes \<times> pytime option \<Rightarrow> bool" where
  "fresh clk entry = (case snd entry of None \<Rightarrow> True | Some t \<Rightarrow> clk < t)"

definition resolve_secret :: "world \<Rightarrow> pytime \<Rightarrow> string \<Rightarrow> secret_cache \<Rightarrow> bytes res \<times> secret_cache" where
  "resolve_secret W clk uri C =
     (case dget C uri of
        Some entry \<Rightarrow> if fresh clk entry then (Inr (fst entry), C) else fetch_and_cache W clk uri C
      | None \<Rightarrow> fetch_and_cache W clk uri C)"

fun resolve_uris :: "world \<Rightarrow> pytime \<Rightarrow> pyval list \<Rightarrow> secret_cache \<Rightarrow> bytes list res \<times> secret_cache" where
  "resolve_uris W clk [] C = (Inr [], C)"
| "resolve_uris W clk (VStr uri # uris) C =
     (case resolve_secret W clk uri C of
        (Inl e, C1) \<Rightarrow> (Inl e, C1)
      | (Inr b, C1) \<Rightarrow>
          (case resolve_uris W clk uris C1 of
             (Inl e, C2) \<Rightarrow> (Inl e, C2) | (Inr bs, C2) \<Rightarrow> (Inr (b # bs), C2)))"
| "resolve_uris W clk (_ # uris) C = (Inl AttributeError, C)"

text \<open>What \<open>for uri in uris\<close> runs over.\<close>

fun py_iter :: "pyval \<Rightarrow> pyval list option" where
  "py_iter (VList vs) = Some vs"
| "py_iter (VDict d) = Some (map (\<lambda>p. VStr (fst p)) d)"
| "py_iter (VStr s) = Some (map (\<lambda>c. VStr [c]) s)"
| "py_iter (VBytes s) = Some (map (\<lambda>c. VInt (of_char c)) s)"
| "py_iter _ = None"

definition resolve_all :: "world \<Rightarrow> pytime \<Rightarrow> dict \<Rightarrow> secret_cache \<Rightarrow> bytes list res \<times> secret_cache" where
  "resolve_all W clk source_cfg C =
     (case dget source_cfg ''secret_uris'' of
        None \<Rightarrow> (Inr [], C)
      | Some uris \<Rightarrow>
          (case py_iter uris of None \<Rightarrow> (Inl TypeError, C) | Some vs \<Rightarrow> resolve_uris W clk vs C))"

fun refresh_uris :: "world \<Rightarrow> pytime \<Rightarrow> string list \<Rightarrow> secret_cache \<Rightarrow> secret_cache" where
  "refresh_uris W clk [] C = C"
| "refresh_uris W clk (uri # uris) C = refresh_uris W clk uris (snd (fetch_and_cache W clk uri C))"

definition refresh_all :: "world \<Rightarrow> pytime \<Rightarrow> secret_cache \<Rightarrow> secret_cache" where
  "refresh_all W clk C = refresh_uris W clk (map fst C) C"

subsection \<open>What the resolver promises\<close>

text \<open>What a backend gives for a URI, with the entry that is cached for it.\<close>

definition fetched :: "world \<Rightarrow> pytime \<Rightarrow> string \<Rightarrow> (bytes \<times> pytime option) res" where
  "fetched W clk uri =
     (case backend_for W uri of
        Inl e \<Rightarrow> Inl e
      | Inr f \<Rightarrow>
          (case f uri of
             Inl e \<Rightarrow> Inl e
           | Inr v \<Rightarrow> (case ttl_for W clk uri of Inl e \<Rightarrow> Inl e | Inr t \<Rightarrow> Inr (v, t))))"

lemma fetch_and_cache_eq:
  "fetch_and_cache W clk uri C =
     (case fetched W clk uri of Inl e \<Rightarrow> (Inl e, C) | Inr entry \<Rightarrow> (Inr (fst entry), dset uri entry C))"
  by (simp add: fetch_and_cache_def fetched_def split: sum.split)

text \<open>The value of one URI: the cached bytes while they are fresh, else what the backend gives.\<close>

definition current :: "world \<Rightarrow> pytime \<Rightarrow> secret_cache \<Rightarrow> string \<Rightarrow> bytes res" where
  "current W clk C uri =
     (case dget C uri of
        Some entry \<Rightarrow> if fresh clk entry then Inr (fst entry) else map_sum id fst (fetched W clk uri)
      | None \<Rightarrow> map_sum id fst (fetched W clk uri))"

lemma resolve_secret_current: "fst (resolve_secret W clk uri C) = current W clk C uri"
  by (auto simp: resolve_secret_def current_def fetch_and_cache_eq split: option.split sum.split)

lemma current_resolved: "current W clk (snd (resolve_secret W clk uri C)) uri' = current W clk C uri'"
  by (auto simp: resolve_secret_def current_def fetch_and_cache_eq dget_dset split: option.splits sum.splits)

text \<open>All values, or the first failure.\<close>

fun all_of :: "'a res list \<Rightarrow> 'a list res" where
  "all_of [] = Inr []"
| "all_of (Inl e # rs) = Inl e"
| "all_of (Inr v # rs) = map_sum id (Cons v) (all_of rs)"

lemma resolve_uris_current:
  "fst (resolve_uris W clk (map VStr uris) C) = all_of (map (current W clk C) uris)"
proof (induction uris arbitrary: C)
  case (Cons uri uris)
  obtain r C1 where r: "resolve_secret W clk uri C = (r, C1)" by (metis surj_pair)
  have "current W clk C uri = r" "current W clk C1 = current W clk C"
    using resolve_secret_current [of W clk uri C] current_resolved [of W clk uri C] r by auto
  then show ?case
    using Cons [of C1] r by (cases r) (auto simp: map_sum_def split: prod.split sum.splits)
qed simp

lemma refresh_uris_entry:
  "dget (refresh_uris W clk uris C) uri =
     (case fetched W clk uri of
        Inr entry \<Rightarrow> if uri \<in> set uris then Some entry else dget C uri
      | Inl _ \<Rightarrow> dget C uri)"
  by (induction uris arbitrary: C) (auto simp: fetch_and_cache_eq dget_dset split: sum.splits)

text \<open>The secrets of a source come back in the order its URIs are declared, each from a
  fresh cache entry or the backend, and the first failure fails the whole list.  A refresh keeps
  the set of cached URIs, replaces every entry whose backend answers (so a rotated secret is
  served from then on) and keeps the old entry when the backend fails.\<close>

theorem secrets_in_order_and_rotated:
  "fst (resolve_all W clk [(''secret_uris'', VList (map VStr uris))] C) = all_of (map (current W clk C) uris)
   \<and> dget (refresh_all W clk C) uri =
       (case dget C uri of
          None \<Rightarrow> None
        | Some old \<Rightarrow> Some (case fetched W clk uri of Inr entry \<Rightarrow> entry | Inl _ \<Rightarrow> old))"
proof
  show "fst (resolve_all W clk [(''secret_uris'', VList (map VStr uris))] C) = all_of (map (current W clk C) uris)"
    by (simp add: resolve_all_def resolve_uris_current)
  have "uri \<in> set (map fst C) \<longleftrightarrow> dget C uri \<noteq> None" by (simp add: map_of_eq_None_iff)
  then show "dget (refresh_all W clk C) uri =
       (case dget C uri of
          None \<Rightarrow> None
        | Some old \<Rightarrow> Some (case fetched W clk uri of Inr entry \<Rightarrow> entry | Inl _ \<Rightarrow> old))"
    unfolding refresh_all_def refresh_uris_entry by (auto split: sum.split option.split)
qed

end
