(* ===== verification/Ingest.thy ===== *)
theory Ingest
  imports Secrets Router Delivery
begin

section \<open>HTTP ingest of wake events (\<open>ingest.py\<close>)\<close>

text \<open>
  The state is what \<open>create_ingest_app\<close> closes over: the router (whose \<open>r_config\<close> is the live
  config and whose \<open>r_store\<close> is the store \<open>main\<close> hands to the router, to ingest and to human
  delivery alike), the rate limiter, the in-memory replay window, the secret resolver's cache
  (None without a resolver), the health of human delivery (None when it is off) and the
  deliveries in flight.  \<open>post_root\<close> is cut into its stages, each a function of its own.
\<close>

text \<open>
  What the handler sees of the outside: the keyed digest, \<open>json.loads\<close>, decoding with
  replacement, ULIDs, SQLite's text of a REAL, whether a frame can be written, and the world of
  the secret resolver.
\<close>

datatype loaded = Parsed pyval | Not_json | Undecodable

record ports =
  x_hmac :: "bytes \<Rightarrow> bytes \<Rightarrow> bytes"
  x_loads :: "bytes \<Rightarrow> loaded"
  x_utf8 :: "bytes \<Rightarrow> string"
  x_ulid :: "nat \<Rightarrow> string"
  x_sql_real :: "rat \<Rightarrow> string"
  x_link :: "string \<Rightarrow> string \<Rightarrow> bool"
  x_world :: world

text \<open>The clock readings of one request, in the order the handler takes them.\<close>

record clocks =
  t_peer :: pytime
  t_secret :: pytime
  t_source :: pytime
  t_dedupe :: pytime
  t_deliver :: pytime

record request =
  rq_body :: bytes
  rq_source :: string
  rq_signature :: string
  rq_event_id :: "string option"
  rq_identity :: "string option"
  rq_remote :: "string option"

record response =
  rs_status :: nat
  rs_body :: dict
  rs_retry_after :: "int option"

subsection \<open>The in-memory replay window\<close>

text \<open>Members of a Python set: numbers compare by value, lists and dictionaries are unhashable.\<close>

fun hashable :: "pyval \<Rightarrow> pyval res" where
  "hashable (VList _) = Inl TypeError"
| "hashable (VDict _) = Inl TypeError"
| "hashable v = Inr (case py_num v of Some r \<Rightarrow> VFloat r [] | None \<Rightarrow> v)"

record fifo =
  f_seen :: "pyval set"
  f_order :: "pyval list"
  f_max :: nat

definition DEDUPE_MAX :: nat where "DEDUPE_MAX = 4096"

definition new_fifo :: "nat \<Rightarrow> fifo" where
  "new_fifo n = \<lparr>f_seen = {}, f_order = [], f_max = n\<rparr>"

text \<open>\<open>deque(maxlen=n)\<close> drops its oldest element when a full deque is appended to.\<close>

definition deque_append :: "nat \<Rightarrow> 'a \<Rightarrow> 'a list \<Rightarrow> 'a list" where
  "deque_append n x xs = (if length xs < n then xs @ [x] else drop 1 (xs @ [x]))"

definition fifo_check :: "pyval \<Rightarrow> fifo \<Rightarrow> bool \<times> fifo" where
  "fifo_check e f =
     (if e \<in> f_seen f then (True, f)
      else
        (let seen = (if length (f_order f) = f_max f
                     then (case f_order f of [] \<Rightarrow> f_seen f | evicted # _ \<Rightarrow> f_seen f - {evicted})
                     else f_seen f)
         in (False, f\<lparr>f_order := deque_append (f_max f) e (f_order f), f_seen := insert e seen\<rparr>)))"

subsection \<open>Rate limiting\<close>

type_synonym buckets = "(string \<times> (rat \<times> pytime)) list"

definition bucket_tokens :: "rat \<Rightarrow> rat \<Rightarrow> pytime \<Rightarrow> string \<Rightarrow> buckets \<Rightarrow> rat" where
  "bucket_tokens rate burst now k B =
     (let (tokens, updated_at) = (case dget B k of Some b \<Rightarrow> b | None \<Rightarrow> (burst, now)) in
      min burst (tokens + max 0 (now - updated_at) * rate))"

definition allow :: "rat \<Rightarrow> rat \<Rightarrow> pytime \<Rightarrow> string \<Rightarrow> buckets \<Rightarrow> (bool \<times> rat) res \<times> buckets" where
  "allow rate burst now k B =
     (let tokens = bucket_tokens rate burst now k B in
      if 1 \<le> tokens then (Inr (True, 0), dset k (tokens - 1, now) B)
      else (if rate = 0 then Inl (OtherError ''ZeroDivisionError'') else Inr (False, (1 - tokens) / rate),
            dset k (tokens, now) B))"

record ingest =
  i_router :: router
  i_rate :: rat
  i_burst :: rat
  i_buckets :: buckets
  i_fifo :: fifo
  i_secrets :: "secret_cache option"
  i_health :: "health option"
  i_tasks :: "dict list"

text \<open>\<open>float(...)\<close> and \<open>int(...)\<close> of the limits; a text limit is refused by \<open>config.py\<close>.\<close>

definition create_ingest_app :: "router \<Rightarrow> secret_cache option \<Rightarrow> health option \<Rightarrow> ingest res" where
  "create_ingest_app R secrets health =
     (case (if truthy_opt (dget (r_config R) ''wake'') then dget (r_config R) ''wake'' else Some (VDict [])) of
        Some (VDict wake_cfg) \<Rightarrow>
          (case (py_num (case dget wake_cfg ''ingest_rate_limit'' of None \<Rightarrow> VFloat 10 ''10.0'' | Some v \<Rightarrow> v),
                 py_num (case dget wake_cfg ''ingest_rate_burst'' of None \<Rightarrow> VInt 20 | Some v \<Rightarrow> v)) of
             (Some rate, Some burst) \<Rightarrow>
               Inr \<lparr>i_router = R, i_rate = rate,
                    i_burst = of_int (if 0 \<le> burst then \<lfloor>burst\<rfloor> else \<lceil>burst\<rceil>),
                    i_buckets = [], i_fifo = new_fifo DEDUPE_MAX, i_secrets = secrets, i_health = health,
                    i_tasks = []\<rparr>
           | _ \<Rightarrow> Inl TypeError)
      | _ \<Rightarrow> Inl AttributeError)"

subsection \<open>Responses\<close>

definition json_response :: "nat \<Rightarrow> dict \<Rightarrow> response" where
  "json_response status payload = \<lparr>rs_status = status, rs_body = payload, rs_retry_after = None\<rparr>"

definition rate_limited :: "rat \<Rightarrow> response" where
  "rate_limited retry_after =
     (json_response 429 [(''error'', VStr ''rate limit exceeded'')])\<lparr>rs_retry_after := Some (max 1 \<lceil>retry_after\<rceil>)\<rparr>"

definition forbidden :: response where
  "forbidden = json_response 403 [(''error'', VStr ''unknown source or invalid signature'')]"

definition client_address :: "request \<Rightarrow> string" where
  "client_address rq = (case rq_remote rq of Some (c # cs) \<Rightarrow> c # cs | _ \<Rightarrow> ''unknown'')"

subsection \<open>The event of a body\<close>

datatype built = Event dict | Source_mismatch | Unsupported_version | Not_built exn

definition known_version :: "dict \<Rightarrow> bool" where
  "known_version payload = (dget payload ''v'' = None \<or> dget payload ''v'' = Some (VInt 0))"

definition source_claim_ok :: "string \<Rightarrow> dict \<Rightarrow> bool" where
  "source_claim_ok source payload \<longleftrightarrow> dget payload ''source'' \<in> {None, Some VNone, Some (VStr source)}"

definition build_wake_event :: "ports \<Rightarrow> nat \<Rightarrow> bytes \<Rightarrow> string \<Rightarrow> string option \<Rightarrow> built \<times> nat" where
  "build_wake_event P n body source event_id =
     (let (eid, n') = (case event_id of Some (c # cs) \<Rightarrow> (c # cs, n) | _ \<Rightarrow> (x_ulid P n, Suc n));
          wrapped = (Event [(''v'', VInt 0), (''event_id'', VStr eid), (''source'', VStr source),
                            (''kind'', VStr ''webhook''), (''content'', VStr (x_utf8 P body)),
                            (''meta'', VDict []), (''wake'', VBool True)], n')
      in case x_loads P body of
           Undecodable \<Rightarrow> (Not_built UnicodeDecodeError, n)
         | Parsed (VDict payload) \<Rightarrow>
             if \<not> known_version payload then (Unsupported_version, n)
             else if has_key payload ''event_id'' then
               if \<not> source_claim_ok source payload then (Source_mismatch, n)
               else
                 (Event (setdefault ''wake'' (VBool True)
                    (setdefault ''meta'' (VDict [])
                    (setdefault ''content'' (VStr [])
                    (setdefault ''kind'' (VStr ''webhook'')
                    (setdefault ''source'' (VStr source) payload))))), n)
             else wrapped
         | _ \<Rightarrow> wrapped)"

text \<open>\<open>event.setdefault("meta", {})["trigger_identity"] = trigger_identity\<close>.\<close>

definition stamp_identity :: "string option \<Rightarrow> dict \<Rightarrow> dict res" where
  "stamp_identity identity event =
     (case identity of
        Some (c # cs) \<Rightarrow>
          (case dget (setdefault ''meta'' (VDict []) event) ''meta'' of
             Some (VDict meta) \<Rightarrow>
               Inr (dset ''meta'' (VDict (dset ''trigger_identity'' (VStr (c # cs)) meta))
                      (setdefault ''meta'' (VDict []) event))
           | _ \<Rightarrow> Inl TypeError)
      | _ \<Rightarrow> Inr event)"

subsection \<open>Authentication\<close>

datatype auth = Verified | Not_verified | Unresolved | Auth_raised exn

text \<open>
  The inline secret of a hand-built config; a secret that is not bytes makes \<open>hmac.new\<close> raise,
  but only for a header that gets that far.
\<close>

definition inline_verify :: "ports \<Rightarrow> request \<Rightarrow> dict \<Rightarrow> auth" where
  "inline_verify P rq source_cfg =
     (case dget source_cfg ''secret'' of
        None \<Rightarrow> Auth_raised (KeyError ''secret'')
      | Some (VBytes s) \<Rightarrow>
          if verify_signature (x_hmac P) (rq_body rq) s (rq_signature rq) then Verified else Not_verified
      | Some _ \<Rightarrow>
          if startswith (strip (rq_signature rq)) ''sha256='' \<and> fromhex (drop 7 (strip (rq_signature rq))) \<noteq> None
          then Auth_raised TypeError else Not_verified)"

definition authenticate ::
  "ports \<Rightarrow> pytime \<Rightarrow> request \<Rightarrow> dict \<Rightarrow> secret_cache option \<Rightarrow> auth \<times> secret_cache option" where
  "authenticate P clk rq source_cfg resolver =
     (case (resolver, has_key source_cfg ''secret_uris'') of
        (Some C, True) \<Rightarrow>
          (case resolve_all (x_world P) clk source_cfg C of
             (Inl _, C1) \<Rightarrow> (Unresolved, Some C1)
           | (Inr secrets, C1) \<Rightarrow>
               (if verify_signature_any (x_hmac P) (rq_body rq) secrets (rq_signature rq)
                then Verified else Not_verified, Some C1))
      | _ \<Rightarrow> (inline_verify P rq source_cfg, resolver))"

text \<open>\<open>config.get("sources", {}).get(source)\<close>.\<close>

definition source_entry :: "cfg \<Rightarrow> string \<Rightarrow> pyval option res" where
  "source_entry cfg source =
     (case dget cfg ''sources'' of
        None \<Rightarrow> Inr None
      | Some (VDict sources) \<Rightarrow> Inr (dget sources source)
      | Some _ \<Rightarrow> Inl AttributeError)"

text \<open>How far a request gets before its body is read: a final answer, or the source's entry.\<close>

definition admit ::
  "ports \<Rightarrow> clocks \<Rightarrow> request \<Rightarrow> ingest \<Rightarrow> (response res + dict) \<times> ingest" where
  "admit P T rq I =
     (case allow (i_rate I) (i_burst I) (t_peer T) (client_address rq) (i_buckets I) of
        (Inl e, B) \<Rightarrow> (Inl (Inl e), I\<lparr>i_buckets := B\<rparr>)
      | (Inr (False, retry), B) \<Rightarrow> (Inl (Inr (rate_limited retry)), I\<lparr>i_buckets := B\<rparr>)
      | (Inr (True, _), B) \<Rightarrow>
          (let I1 = I\<lparr>i_buckets := B\<rparr> in
           case source_entry (r_config (i_router I)) (rq_source rq) of
             Inl e \<Rightarrow> (Inl (Inl e), I1)
           | Inr entry \<Rightarrow>
               if \<not> truthy_opt entry then (Inl (Inr forbidden), I1)
               else
                 (case entry of
                    Some (VDict source_cfg) \<Rightarrow>
                      (case authenticate P (t_secret T) rq source_cfg (i_secrets I) of
                         (Auth_raised e, S) \<Rightarrow> (Inl (Inl e), I1\<lparr>i_secrets := S\<rparr>)
                       | (Unresolved, S) \<Rightarrow>
                           (Inl (Inr (json_response 500 [(''error'', VStr ''internal error'')])), I1\<lparr>i_secrets := S\<rparr>)
                       | (Not_verified, S) \<Rightarrow> (Inl (Inr forbidden), I1\<lparr>i_secrets := S\<rparr>)
                       | (Verified, S) \<Rightarrow>
                           (case allow (i_rate I) (i_burst I) (t_source T) (rq_source rq) B of
                              (Inl e, B2) \<Rightarrow> (Inl (Inl e), I1\<lparr>i_secrets := S, i_buckets := B2\<rparr>)
                            | (Inr (False, retry), B2) \<Rightarrow>
                                (Inl (Inr (rate_limited retry)), I1\<lparr>i_secrets := S, i_buckets := B2\<rparr>)
                            | (Inr (True, _), B2) \<Rightarrow>
                                (Inr source_cfg, I1\<lparr>i_secrets := S, i_buckets := B2\<rparr>)))
                  | _ \<Rightarrow> (Inl (Inl TypeError), I1))))"

subsection \<open>Deduplication\<close>

text \<open>What SQLite stores for the \<open>event_id\<close> in its TEXT column; \<open>NULL\<close> for \<open>None\<close>.\<close>

definition sql_text :: "ports \<Rightarrow> pyval \<Rightarrow> string option res" where
  "sql_text P v =
     (case v of
        VNone \<Rightarrow> Inr None
      | VBool b \<Rightarrow> Inr (Some (if b then ''1'' else ''0''))
      | VInt i \<Rightarrow> if - (2 ^ 63) \<le> i \<and> i < 2 ^ 63 then Inr (Some (int_str i)) else Inl (OtherError ''OverflowError'')
      | VFloat r _ \<Rightarrow> Inr (Some (x_sql_real P r))
      | VStr s \<Rightarrow> Inr (Some s)
      | _ \<Rightarrow> Inl (OtherError ''InterfaceError''))"

definition dedupe_check :: "ports \<Rightarrow> pytime \<Rightarrow> pyval \<Rightarrow> string \<Rightarrow> ingest \<Rightarrow> bool res \<times> ingest" where
  "dedupe_check P now eid source I =
     (case r_store (i_router I) of
        Some st \<Rightarrow>
          (case sql_text P eid of
             Inl e \<Rightarrow> (Inl e, I)
           | Inr key \<Rightarrow>
               (case check_and_record_event (x_ulid P) now key source st of
                  (dup, st') \<Rightarrow> (Inr dup, I\<lparr>i_router := (i_router I)\<lparr>r_store := Some st'\<rparr>\<rparr>)))
      | None \<Rightarrow>
          (case hashable eid of
             Inl e \<Rightarrow> (Inl e, I)
           | Inr key \<Rightarrow> (case fifo_check key (i_fifo I) of (dup, f) \<Rightarrow> (Inr dup, I\<lparr>i_fifo := f\<rparr>))))"

subsection \<open>Out-of-band delivery\<close>

definition target_of :: "dict \<Rightarrow> string option" where
  "target_of event =
     (case (case dget event ''meta'' of None \<Rightarrow> VDict [] | Some m \<Rightarrow> m) of
        VDict meta \<Rightarrow> (if truthy_opt (dget meta ''target'') then Some (get_str meta ''target'' []) else None)
      | _ \<Rightarrow> None)"

text \<open>A refusal, or the \<open>delivery\<close> member of the answer (None without a target).\<close>

definition dispatch :: "dict \<Rightarrow> pyval \<Rightarrow> string \<Rightarrow> ingest \<Rightarrow> (response + dict option) \<times> ingest" where
  "dispatch event eid source I =
     (case (i_health I, target_of event) of
        (Some health, Some pid) \<Rightarrow>
          (case resolve_principal (r_config (i_router I)) pid of
             None \<Rightarrow>
               (Inl (json_response 422 [(''error'', VStr ''unknown principal''), (''principal_id'', VStr pid),
                  (''event_id'', eid)]),
                I\<lparr>i_health := Some (record_unknown_principal pid health)\<rparr>)
           | Some _ \<Rightarrow>
               if (case out_of_band_principals (r_config (i_router I)) source of
                     None \<Rightarrow> True | Some allowed \<Rightarrow> pid \<notin> allowed)
               then
                 (Inl (json_response 403
                    [(''error'', VStr ''source not authorized to deliver to principal''), (''source'', VStr source),
                     (''principal_id'', VStr pid), (''event_id'', eid)]), I)
               else
                 (Inr (Some [(''status'', VStr ''dispatched''), (''principal_id'', VStr pid)]),
                  I\<lparr>i_tasks := i_tasks I @ [event]\<rparr>))
      | _ \<Rightarrow> (Inr None, I))"

subsection \<open>The answer\<close>

definition refusal_text :: "addressing_error \<Rightarrow> string" where
  "refusal_text e =
     (case e of destination_not_routed \<Rightarrow> ''destination_not_routed'' | principal_not_routed \<Rightarrow> ''principal_not_routed'')"

definition with_delivery :: "dict option \<Rightarrow> dict \<Rightarrow> dict" where
  "with_delivery d body = (case d of None \<Rightarrow> body | Some r \<Rightarrow> dset ''delivery'' (VDict r) body)"

definition answer_for :: "status \<Rightarrow> pyval \<Rightarrow> dict option \<Rightarrow> response" where
  "answer_for result eid d =
     (case result of
        Refused e \<Rightarrow>
          json_response 403 (with_delivery d
            [(''error'', VStr ''sender not authorized for the addressed destination''),
             (''reason'', VStr (refusal_text e)), (''event_id'', eid)])
      | No_subscriber \<Rightarrow>
          json_response 202 (with_delivery d [(''status'', VStr ''no_subscriber''), (''event_id'', eid)])
      | Queued_next_session \<Rightarrow>
          json_response 202 (with_delivery d [(''status'', VStr ''queued_next_session''), (''event_id'', eid)])
      | Queued \<Rightarrow> json_response 202 (with_delivery d [(''status'', VStr ''queued''), (''event_id'', eid)]))"

text \<open>From the built event to the answer.\<close>

definition route_event ::
  "ports \<Rightarrow> clocks \<Rightarrow> request \<Rightarrow> dict \<Rightarrow> ingest \<Rightarrow> response res \<times> ingest" where
  "route_event P T rq event0 I =
     (let eid = (case dget event0 ''event_id'' of None \<Rightarrow> VNone | Some v \<Rightarrow> v) in
      case stamp_identity (trigger_identity_for (r_config (i_router I)) (rq_source rq) (rq_identity rq)) event0 of
        Inl e \<Rightarrow> (Inl e, I)
      | Inr event \<Rightarrow>
          (case dedupe_check P (t_dedupe T) eid (rq_source rq) I of
             (Inl e, I1) \<Rightarrow> (Inl e, I1)
           | (Inr True, I1) \<Rightarrow>
               (Inr (json_response 202 [(''status'', VStr ''duplicate''), (''event_id'', eid)]), I1)
           | (Inr False, I1) \<Rightarrow>
               (case dispatch event eid (rq_source rq) I1 of
                  (Inl refused, I2) \<Rightarrow> (Inr refused, I2)
                | (Inr d, I2) \<Rightarrow>
                    (case deliver (x_ulid P) (x_link P) (t_deliver T) event (i_router I2) of
                       (result, R) \<Rightarrow> (Inr (answer_for result eid d), I2\<lparr>i_router := R\<rparr>)))))"

definition post_root :: "ports \<Rightarrow> clocks \<Rightarrow> request \<Rightarrow> ingest \<Rightarrow> response res \<times> ingest" where
  "post_root P T rq I =
     (case admit P T rq I of
        (Inl answer, I1) \<Rightarrow> (answer, I1)
      | (Inr source_cfg, I1) \<Rightarrow>
          (case check_trigger_identity source_cfg (rq_identity rq) of
             Inl e \<Rightarrow> (Inl e, I1)
           | Inr (Some _) \<Rightarrow> (Inr forbidden, I1)
           | Inr None \<Rightarrow>
               (case build_wake_event P (r_ulids (i_router I1)) (rq_body rq) (rq_source rq) (rq_event_id rq) of
                  (built, n) \<Rightarrow>
                    (let I2 = I1\<lparr>i_router := (i_router I1)\<lparr>r_ulids := n\<rparr>\<rparr> in
                     case built of
                       Not_built e \<Rightarrow> (Inl e, I2)
                     | Source_mismatch \<Rightarrow> (Inr forbidden, I2)
                     | Unsupported_version \<Rightarrow>
                         (Inr (json_response 400 [(''error'', VStr ''unsupported wake event version'')]), I2)
                     | Event event \<Rightarrow> route_event P T rq event I2))))"

subsection \<open>The deliveries in flight\<close>

text \<open>
  A task of \<open>delivery_tasks\<close> runs to its end; \<open>chan\<close> says how each awaited channel answers it, a
  cancellation included.  \<open>force_drain_delivery_tasks\<close> cancels every task that is left and waits
  for them, at most \<open>FORCE_DRAIN_TIMEOUT\<close>: \<open>takes\<close> says how long a task needs to end after it was cancelled
  (\<open>None\<close> when it never does).  A task that does not end in time is left behind, still registered and with
  nothing of it recorded.  (Tasks with equal events take equally long.)
\<close>

definition finish_task ::
  "ports \<Rightarrow> bool \<Rightarrow> pytime \<Rightarrow> channels \<Rightarrow> dict \<Rightarrow> ingest \<Rightarrow> ingest" where
  "finish_task P db now chan event I =
     (case i_health I of
        None \<Rightarrow> I
      | Some h \<Rightarrow>
          (case deliver_human (x_ulid P) db now chan event []
                  \<lparr>hd_config = r_config (i_router I), hd_health = h, hd_store = r_store (i_router I), hd_calls = []\<rparr> of
             (_, H) \<Rightarrow>
               I\<lparr>i_health := Some (hd_health H), i_router := (i_router I)\<lparr>r_store := hd_store H\<rparr>,
                 i_tasks := remove1 event (i_tasks I)\<rparr>))"

definition FORCE_DRAIN_TIMEOUT :: pytime where "FORCE_DRAIN_TIMEOUT = 2"

definition ends_in_time :: "pytime option \<Rightarrow> bool" where
  "ends_in_time d = (case d of None \<Rightarrow> False | Some t \<Rightarrow> t \<le> FORCE_DRAIN_TIMEOUT)"

definition force_drain ::
  "ports \<Rightarrow> bool \<Rightarrow> pytime \<Rightarrow> (dict \<Rightarrow> channels) \<Rightarrow> (dict \<Rightarrow> pytime option) \<Rightarrow> ingest \<Rightarrow> nat \<times> ingest" where
  "force_drain P db now chan takes I =
     (let pending = i_tasks I;
          cancelled = filter (\<lambda>event. ends_in_time (takes event)) pending
      in (length pending, fold (\<lambda>event. finish_task P db now (chan event) event) cancelled I))"

end
