(* ===== verification/Ingest_Props.thy ===== *)
theory Ingest_Props
  imports Ingest Router_Props
begin

section \<open>What ingest promises\<close>

text \<open>
  The rate limiter's bound, the in-memory replay window as an instance of \<open>replay_window\<close>, and
  the gate: what an unsigned request may change, where a signed one may send, and that a replay
  goes nowhere.
\<close>

subsection \<open>The rate limiter\<close>

text \<open>The requests granted to key \<open>k\<close> in a run of requests.\<close>

definition granted :: "(bool \<times> rat) res \<Rightarrow> bool" where
  "granted r = (case r of Inr (True, _) \<Rightarrow> True | _ \<Rightarrow> False)"

fun admitted :: "rat \<Rightarrow> rat \<Rightarrow> string \<Rightarrow> (pytime \<times> string) list \<Rightarrow> buckets \<Rightarrow> nat" where
  "admitted rate burst k [] B = 0"
| "admitted rate burst k ((t, k') # rs) B =
     (case allow rate burst t k' B of
        (r, B1) \<Rightarrow> (if k' = k \<and> granted r then 1 else 0) + admitted rate burst k rs B1)"

definition nonneg_buckets :: "buckets \<Rightarrow> bool" where
  "nonneg_buckets B \<longleftrightarrow> (\<forall>k b. dget B k = Some b \<longrightarrow> 0 \<le> fst b)"

lemma bucket_tokens_le: "bucket_tokens rate burst t k B \<le> burst"
  by (simp add: bucket_tokens_def Let_def split: prod.split option.split)

lemma bucket_tokens_nonneg:
  "nonneg_buckets B \<Longrightarrow> 0 \<le> rate \<Longrightarrow> 0 \<le> burst \<Longrightarrow> 0 \<le> bucket_tokens rate burst t k B"
  by (cases "dget B k") (auto simp: bucket_tokens_def Let_def nonneg_buckets_def split: prod.split intro!: add_nonneg_nonneg)

lemma bucket_tokens_later:
  assumes "0 \<le> rate" "t0 \<le> t"
  shows "bucket_tokens rate burst t k B \<le> bucket_tokens rate burst t0 k B + rate * (t - t0)"
proof (cases "dget B k")
  case None
  with assms show ?thesis by (simp add: bucket_tokens_def Let_def)
next
  case (Some b)
  obtain x u where b: "b = (x, u)" by (cases b)
  have "max 0 (t - u) \<le> max 0 (t0 - u) + (t - t0)" using assms(2) by simp
  then have "max 0 (t - u) * rate \<le> (max 0 (t0 - u) + (t - t0)) * rate"
    using assms(1) by (rule mult_right_mono)
  moreover have "0 \<le> rate * (t - t0)" using assms by simp
  ultimately show ?thesis using Some b by (auto simp: bucket_tokens_def Let_def min_def algebra_simps)
qed

lemma allow_bucket:
  "snd (allow rate burst t k B) =
     dset k (if granted (fst (allow rate burst t k B)) then bucket_tokens rate burst t k B - 1
             else bucket_tokens rate burst t k B, t) B"
  "granted (fst (allow rate burst t k B)) \<longleftrightarrow> 1 \<le> bucket_tokens rate burst t k B"
  by (simp_all add: allow_def Let_def granted_def)

lemma bucket_tokens_dset:
  "x \<le> burst \<Longrightarrow> bucket_tokens rate burst t k (dset k (x, t) B) = x"
  "k' \<noteq> k \<Longrightarrow> bucket_tokens rate burst t k (dset k' b B) = bucket_tokens rate burst t k B"
  by (simp_all add: bucket_tokens_def Let_def dget_dset)

lemma nonneg_buckets_allow:
  assumes "nonneg_buckets B" "0 \<le> rate" "0 \<le> burst"
  shows "nonneg_buckets (snd (allow rate burst t k B))"
  using assms bucket_tokens_nonneg [OF assms, of t k]
  unfolding allow_bucket(1) by (auto simp: nonneg_buckets_def dget_dset allow_bucket(2))

lemma admitted_bound:
  assumes "0 \<le> rate" "0 \<le> burst"
  shows "nonneg_buckets B \<Longrightarrow> sorted (t0 # map fst rs @ [t1]) \<Longrightarrow>
    of_nat (admitted rate burst k rs B) \<le> bucket_tokens rate burst t0 k B + rate * (t1 - t0)"
proof (induction rs arbitrary: B t0)
  case Nil
  then show ?case using assms bucket_tokens_nonneg by simp
next
  case (Cons r rs)
  obtain t k' where r: "r = (t, k')" by (cases r)
  let ?B = "snd (allow rate burst t k' B)"
  have IH: "of_nat (admitted rate burst k rs ?B) \<le> bucket_tokens rate burst t k ?B + rate * (t1 - t)"
    using Cons.prems by (intro Cons.IH nonneg_buckets_allow [OF _ assms]) (simp_all add: r)
  have "t0 \<le> t" using Cons.prems by (simp add: r)
  note later = bucket_tokens_later [OF assms(1) this, of burst k B]
  define g where "g = (if k' = k \<and> granted (fst (allow rate burst t k' B)) then 1 else 0 :: nat)"
  have "bucket_tokens rate burst t k ?B + of_nat g = bucket_tokens rate burst t k B"
    using bucket_tokens_le [of rate burst t k B]
    by (cases "k' = k") (simp_all add: g_def allow_bucket(1) bucket_tokens_dset)
  moreover have "admitted rate burst k (r # rs) B = g + admitted rate burst k rs ?B"
    by (simp add: r case_prod_beta g_def)
  moreover have "rate * (t1 - t0) = rate * (t1 - t) + rate * (t - t0)" by (simp add: algebra_simps)
  ultimately show ?case using IH later unfolding of_nat_add by linarith
qed

text \<open>Claim C40: over any window, in any interleaving with other keys, a peer or source is granted
  at most \<open>burst + rate * window\<close> requests; and a refused one that waits for the time it was
  told to retry after is granted then.\<close>

theorem rate_limit_bound:
  assumes "0 < rate" and "1 \<le> burst" and "nonneg_buckets B" and "sorted (t0 # map fst rs @ [t1])"
  shows "of_nat (admitted rate burst k rs B) \<le> burst + rate * (t1 - t0)
    \<and> (fst (allow rate burst t k B) = Inr (False, retry) \<and> t + retry \<le> t' \<longrightarrow>
         fst (allow rate burst t' k (snd (allow rate burst t k B))) = Inr (True, 0))"
proof (intro conjI impI)
  show "of_nat (admitted rate burst k rs B) \<le> burst + rate * (t1 - t0)"
    using admitted_bound [OF _ _ assms(3,4), of rate burst k] bucket_tokens_le [of rate burst t0 k B] assms(1,2)
    by (simp add: order_trans)
next
  assume asm: "fst (allow rate burst t k B) = Inr (False, retry) \<and> t + retry \<le> t'"
  let ?x = "bucket_tokens rate burst t k B"
  from asm assms(1) have refused: "\<not> 1 \<le> ?x" "retry = (1 - ?x) / rate"
    by (auto simp: allow_def Let_def split: if_splits)
  have "(1 - ?x) / rate \<le> t' - t" using asm refused(2) by simp
  then have "1 - ?x \<le> (t' - t) * rate" using assms(1) by (simp add: pos_divide_le_eq)
  moreover from this refused(1) have "0 < (t' - t) * rate" by linarith
  then have "0 < t' - t" by (rule zero_less_mult_pos2 [OF _ assms(1)])
  ultimately have "1 \<le> bucket_tokens rate burst t' k (snd (allow rate burst t k B))"
    using refused(1) assms(2)
    by (simp add: allow_bucket bucket_tokens_def [of rate burst t'] dget_dset Let_def)
  then show "fst (allow rate burst t' k (snd (allow rate burst t k B))) = Inr (True, 0)"
    by (simp add: allow_def [of rate burst t'] Let_def)
qed

theorem rate_limit_bound_witness:
  "of_nat (admitted (1 / 2) 2 ''ci'' [(0, ''ci''), (0, ''ci''), (1, ''ci''), (1, ''x''), (2, ''ci'')] []) \<le> (2 + 1 / 2 * (2 - 0) :: rat)"
  by (rule rate_limit_bound [THEN conjunct1]) (simp_all add: nonneg_buckets_def)

subsection \<open>The in-memory replay window\<close>

definition wf_fifo :: "fifo \<Rightarrow> bool" where
  "wf_fifo f \<longleftrightarrow> f_seen f = set (f_order f) \<and> distinct (f_order f) \<and> length (f_order f) \<le> f_max f \<and> 0 < f_max f"

lemma fifo_check_new:
  assumes "wf_fifo f" "e \<notin> f_seen f"
  shows "fifo_check e f = (False, f\<lparr>f_order := deque_append (f_max f) e (f_order f),
      f_seen := set (deque_append (f_max f) e (f_order f))\<rparr>)"
  using assms by (auto simp: fifo_check_def wf_fifo_def deque_append_def Let_def split: list.split)

lemma wf_fifo_check: "wf_fifo f \<Longrightarrow> wf_fifo (snd (fifo_check e f))"
proof (cases "e \<in> f_seen f")
  case False
  assume wf: "wf_fifo f"
  then have "distinct (f_order f @ [e])" using False by (auto simp: wf_fifo_def)
  then have "distinct (drop 1 (f_order f @ [e]))" by (rule distinct_drop)
  then have "distinct (deque_append (f_max f) e (f_order f))"
    using \<open>distinct (f_order f @ [e])\<close> by (simp only: deque_append_def split: if_split) simp
  moreover have "length (deque_append (f_max f) e (f_order f)) \<le> f_max f"
    using wf by (auto simp: wf_fifo_def deque_append_def)
  ultimately show ?thesis using wf False
    by (simp add: fifo_check_new) (simp add: wf_fifo_def)
qed (simp add: fifo_check_def)

interpretation fw: replay_window fifo_check "\<lambda>e. e" "\<lambda>k f. k \<in> f_seen f" "\<lambda>_ _. True" wf_fifo
proof (unfold_locales, goal_cases)
  case (1 f e)
  then show ?case by (simp add: wf_fifo_check)
next
  case (2 f e)
  then show ?case by (simp add: fifo_check_def Let_def)
next
  case (3 f e)
  then show ?case by (auto simp: fifo_check_new deque_append_def wf_fifo_def split: list.split)
qed

text \<open>The ids a run of checks admits.\<close>

fun admitted_ids :: "pyval list \<Rightarrow> fifo \<Rightarrow> pyval list \<times> fifo" where
  "admitted_ids [] f = ([], f)"
| "admitted_ids (e # es) f =
     (case fifo_check e f of
        (dup, f1) \<Rightarrow> (case admitted_ids es f1 of (adm, f2) \<Rightarrow> (if dup then adm else e # adm, f2)))"

lemma deque_append_last: "deque_append n x (drop (length xs - n) xs) = drop (Suc (length xs) - n) (xs @ [x])"
  by (auto simp: deque_append_def Suc_diff_le not_less)

lemma admitted_ids_window:
  assumes "wf_fifo f" "f_order f = drop (length old - f_max f) old"
  shows "f_order (snd (admitted_ids es f)) =
      drop (length (old @ fst (admitted_ids es f)) - f_max f) (old @ fst (admitted_ids es f))
    \<and> wf_fifo (snd (admitted_ids es f)) \<and> f_max (snd (admitted_ids es f)) = f_max f"
  using assms
proof (induction es arbitrary: f old)
  case (Cons e es)
  show ?case
  proof (cases "e \<in> f_seen f")
    case True
    then have "fifo_check e f = (True, f)" by (simp add: fifo_check_def)
    with Cons.IH [OF Cons.prems] show ?thesis by (simp add: case_prod_beta)
  next
    case False
    let ?f = "snd (fifo_check e f)"
    have f: "fifo_check e f = (False, ?f)" "f_max ?f = f_max f"
      "f_order ?f = drop (length (old @ [e]) - f_max ?f) (old @ [e])"
      using fifo_check_new [OF Cons.prems(1) False] deque_append_last [of "f_max f" e old] Cons.prems(2) by simp_all
    from Cons.IH [OF wf_fifo_check [OF Cons.prems(1)] f(3)] f(2) show ?thesis
      using arg_cong [OF f(1), of fst] by (simp add: case_prod_beta)
  qed
qed simp

text \<open>Without a store the replay window holds exactly the last 4096 admitted ids: after
  any run of checks, an id is answered as a duplicate if and only if it is among them.\<close>

theorem fifo_window:
  "fst (fifo_check e (snd (admitted_ids es (new_fifo DEDUPE_MAX)))) \<longleftrightarrow>
     e \<in> set (drop (length (fst (admitted_ids es (new_fifo DEDUPE_MAX))) - 4096)
                (fst (admitted_ids es (new_fifo DEDUPE_MAX))))"
proof -
  have "wf_fifo (new_fifo DEDUPE_MAX)" by (simp add: wf_fifo_def new_fifo_def DEDUPE_MAX_def)
  from admitted_ids_window [OF this, of "[]" es]
  have "wf_fifo (snd (admitted_ids es (new_fifo DEDUPE_MAX)))"
    "f_order (snd (admitted_ids es (new_fifo DEDUPE_MAX))) =
       drop (length (fst (admitted_ids es (new_fifo DEDUPE_MAX))) - 4096) (fst (admitted_ids es (new_fifo DEDUPE_MAX)))"
    by (simp_all add: new_fifo_def DEDUPE_MAX_def)
  then show ?thesis using fw.answer by (simp add: wf_fifo_def)
qed

subsection \<open>The gate\<close>

text \<open>The secrets a request to this source may be signed with.\<close>

definition accepted_secrets :: "ports \<Rightarrow> pytime \<Rightarrow> dict \<Rightarrow> secret_cache option \<Rightarrow> bytes set" where
  "accepted_secrets P clk source_cfg resolver =
     (case (resolver, has_key source_cfg ''secret_uris'') of
        (Some C, True) \<Rightarrow>
          (case fst (resolve_all (x_world P) clk source_cfg C) of Inr l \<Rightarrow> set l | Inl _ \<Rightarrow> {})
      | _ \<Rightarrow> (case dget source_cfg ''secret'' of Some (VBytes s) \<Rightarrow> {s} | _ \<Rightarrow> {}))"

text \<open>The body carries a signature of the source named in the header, whose entry is \<open>source_cfg\<close>.\<close>

definition signed :: "ports \<Rightarrow> clocks \<Rightarrow> request \<Rightarrow> ingest \<Rightarrow> dict \<Rightarrow> bool" where
  "signed P T rq I source_cfg \<longleftrightarrow>
     source_entry (r_config (i_router I)) (rq_source rq) = Inr (Some (VDict source_cfg))
     \<and> (\<exists>s \<in> accepted_secrets P (t_secret T) source_cfg (i_secrets I).
           verify_signature (x_hmac P) (rq_body rq) s (rq_signature rq))"

lemma authenticate_verified:
  "fst (authenticate P clk rq source_cfg resolver) = Verified \<longleftrightarrow>
     (\<exists>s \<in> accepted_secrets P clk source_cfg resolver.
        verify_signature (x_hmac P) (rq_body rq) s (rq_signature rq))"
proof (cases "resolver \<noteq> None \<and> has_key source_cfg ''secret_uris''")
  case True
  then obtain C where C: "resolver = Some C" by auto
  obtain out C1 where "resolve_all (x_world P) clk source_cfg C = (out, C1)" by (metis surj_pair)
  with True C show ?thesis
    by (cases out) (simp_all add: authenticate_def accepted_secrets_def verify_signature_any_iff)
next
  case False
  then have "fst (authenticate P clk rq source_cfg resolver) = inline_verify P rq source_cfg"
    "accepted_secrets P clk source_cfg resolver =
       (case dget source_cfg ''secret'' of Some (VBytes s) \<Rightarrow> {s} | _ \<Rightarrow> {})"
    by (auto simp: authenticate_def accepted_secrets_def split: option.split)
  then show ?thesis
    by (simp add: inline_verify_def split: option.split pyval.split)
qed

text \<open>What the gate may change: buckets and the secret cache.\<close>

lemma allow_other: "k' \<noteq> k \<Longrightarrow> dget (snd (allow rate burst t k B)) k' = dget B k'"
  by (simp add: allow_bucket(1) dget_dset)

lemma gate_frame [intro]:
  "\<exists>B' S'. I\<lparr>i_secrets := S, i_buckets := B\<rparr> = I\<lparr>i_buckets := B', i_secrets := S'\<rparr>"
  "\<exists>B' S'. I\<lparr>i_buckets := B\<rparr> = I\<lparr>i_buckets := B', i_secrets := S'\<rparr>"
  by (rule exI [of _ B], rule exI [of _ S], simp) (rule exI [of _ B], rule exI [of _ "i_secrets I"], simp)

lemma admit_frame: "\<exists>B S. snd (admit P T rq I) = I\<lparr>i_buckets := B, i_secrets := S\<rparr>"
proof -
  obtain ans B where a: "allow (i_rate I) (i_burst I) (t_peer T) (client_address rq) (i_buckets I) = (ans, B)"
    by (metis surj_pair)
  show ?thesis
  proof (cases "\<exists>d retry. ans = Inr (True, retry) \<and> source_entry (r_config (i_router I)) (rq_source rq) = Inr (Some (VDict d)) \<and> d \<noteq> []")
    case True
    then obtain d retry where d: "ans = Inr (True, retry)"
      "source_entry (r_config (i_router I)) (rq_source rq) = Inr (Some (VDict d))" "d \<noteq> []" by blast
    obtain v S where v: "authenticate P (t_secret T) rq d (i_secrets I) = (v, S)" by (metis surj_pair)
    obtain ans2 B2 where a2: "allow (i_rate I) (i_burst I) (t_source T) (rq_source rq) B = (ans2, B2)"
      by (metis surj_pair)
    show ?thesis using a d v a2
      by (cases v; cases ans2) (auto simp: admit_def Let_def truthy_opt_def split: bool.split)
  next
    case False
    then show ?thesis using a
      by (auto simp: admit_def Let_def truthy_opt_def split: sum.split option.split pyval.split bool.split)
  qed
qed

lemma admit_signed:
  assumes "fst (admit P T rq I) = Inr source_cfg"
  shows "signed P T rq I source_cfg"
proof -
  obtain ans B where a: "allow (i_rate I) (i_burst I) (t_peer T) (client_address rq) (i_buckets I) = (ans, B)"
    by (metis surj_pair)
  from assms a obtain d where d: "source_entry (r_config (i_router I)) (rq_source rq) = Inr (Some (VDict d))"
    by (auto simp: admit_def Let_def split: sum.splits bool.splits if_splits option.splits pyval.splits)
  obtain v S where v: "authenticate P (t_secret T) rq d (i_secrets I) = (v, S)" by (metis surj_pair)
  obtain ans2 B2 where a2: "allow (i_rate I) (i_burst I) (t_source T) (rq_source rq) B = (ans2, B2)"
    by (metis surj_pair)
  have "v = Verified \<and> d = source_cfg"
    using assms a d v a2
    by (cases v; cases ans; cases ans2) (auto simp: admit_def Let_def split: bool.splits if_splits)
  with d v show ?thesis
    using authenticate_verified [of P "t_secret T" rq d "i_secrets I"] by (simp add: signed_def)
qed

lemma admit_unsigned:
  assumes "\<nexists>source_cfg. signed P T rq I source_cfg"
  shows "\<exists>a. fst (admit P T rq I) = Inl a \<and> (\<forall>r. a = Inr r \<longrightarrow> rs_status r \<in> {403, 429, 500})
    \<and> (\<forall>k. k \<noteq> client_address rq \<longrightarrow> dget (i_buckets (snd (admit P T rq I))) k = dget (i_buckets I) k)"
proof -
  obtain ans B where a: "allow (i_rate I) (i_burst I) (t_peer T) (client_address rq) (i_buckets I) = (ans, B)"
    by (metis surj_pair)
  with allow_other have B: "k \<noteq> client_address rq \<Longrightarrow> dget B k = dget (i_buckets I) k" for k by (metis snd_conv)
  note resp = json_response_def forbidden_def rate_limited_def
  show ?thesis
  proof (cases "\<exists>d. source_entry (r_config (i_router I)) (rq_source rq) = Inr (Some (VDict d))")
    case True
    then obtain d where d: "source_entry (r_config (i_router I)) (rq_source rq) = Inr (Some (VDict d))" by blast
    obtain v S where v: "authenticate P (t_secret T) rq d (i_secrets I) = (v, S)" by (metis surj_pair)
    have "v \<noteq> Verified"
      using assms d v authenticate_verified [of P "t_secret T" rq d "i_secrets I"] by (auto simp: signed_def)
    then show ?thesis using a d v B
      by (cases v; cases ans) (auto simp: admit_def Let_def resp split: bool.split)
  next
    case False
    then show ?thesis using a B
      by (auto simp: admit_def Let_def resp split: sum.split option.split pyval.split bool.split)
  qed
qed

text \<open>Claim C2: an unsigned request changes nothing but its own peer's rate bucket and the secret
  cache.  Without a signature of the named source over this body, the answer is 403, 429 or 500
  (or an unhandled exception), no frame, queue row, replay entry, health counter or delivery task
  is touched, and no other bucket loses a token, the one of the source it names included.\<close>

theorem unsigned_no_effect:
  assumes "\<nexists>source_cfg. signed P T rq I source_cfg"
  shows "(\<forall>r. fst (post_root P T rq I) = Inr r \<longrightarrow> rs_status r \<in> {403, 429, 500})
    \<and> (\<exists>B S. snd (post_root P T rq I) = I\<lparr>i_buckets := B, i_secrets := S\<rparr>
         \<and> (\<forall>k. k \<noteq> client_address rq \<longrightarrow> dget B k = dget (i_buckets I) k))"
proof -
  from admit_unsigned [OF assms] obtain a where a: "fst (admit P T rq I) = Inl a"
    "\<forall>r. a = Inr r \<longrightarrow> rs_status r \<in> {403, 429, 500}"
    "\<forall>k. k \<noteq> client_address rq \<longrightarrow> dget (i_buckets (snd (admit P T rq I))) k = dget (i_buckets I) k" by blast
  then have post: "post_root P T rq I = (a, snd (admit P T rq I))"
    by (cases "admit P T rq I") (simp add: post_root_def)
  from admit_frame obtain B S where I: "snd (admit P T rq I) = I\<lparr>i_buckets := B, i_secrets := S\<rparr>" by blast
  with a(3) have "\<forall>k. k \<noteq> client_address rq \<longrightarrow> dget B k = dget (i_buckets I) k" by simp
  with post a(2) I show ?thesis by auto
qed

subsection \<open>Past the gate\<close>

text \<open>The state in which a signed request's event is built.\<close>

definition gated :: "buckets \<Rightarrow> secret_cache option \<Rightarrow> nat \<Rightarrow> ingest \<Rightarrow> ingest" where
  "gated B S n I = I\<lparr>i_buckets := B, i_secrets := S, i_router := (i_router I)\<lparr>r_ulids := n\<rparr>\<rparr>"

lemma gated_fields [simp]:
  "i_tasks (gated B S n I) = i_tasks I" "i_health (gated B S n I) = i_health I" "i_fifo (gated B S n I) = i_fifo I"
  "r_frames (i_router (gated B S n I)) = r_frames (i_router I)"
  "r_config (i_router (gated B S n I)) = r_config (i_router I)"
  "r_store (i_router (gated B S n I)) = r_store (i_router I)"
  "r_subs (i_router (gated B S n I)) = r_subs (i_router I)"
  "r_ulids (i_router (gated B S n I)) = n"
  by (simp_all add: gated_def)

lemma gated_same: "I\<lparr>i_buckets := B, i_secrets := S\<rparr> = gated B S (r_ulids (i_router I)) I"
  by (simp add: gated_def)

text \<open>A request is turned away with its state only \<open>gated\<close>, or its event goes on to \<open>route_event\<close>.\<close>

definition passes :: "ports \<Rightarrow> clocks \<Rightarrow> request \<Rightarrow> ingest \<Rightarrow> dict \<Rightarrow> dict \<Rightarrow> ingest \<Rightarrow> bool" where
  "passes P T rq I source_cfg event I2 \<longleftrightarrow>
     signed P T rq I source_cfg \<and> check_trigger_identity source_cfg (rq_identity rq) = Inr None
     \<and> (\<exists>B S n. I2 = gated B S n I \<and> r_ulids (i_router I) \<le> n
          \<and> build_wake_event P (r_ulids (i_router I)) (rq_body rq) (rq_source rq) (rq_event_id rq) = (Event event, n))"

lemma build_ulids: "build_wake_event P n body source eid = (built, n') \<Longrightarrow> n \<le> n'"
  by (auto simp: build_wake_event_def Let_def split: loaded.splits pyval.splits if_splits option.splits list.splits)

lemma post_root_cases:
  assumes "post_root P T rq I = (a, I')"
  obtains (turned_away) B S n where "I' = gated B S n I" "r_ulids (i_router I) \<le> n"
      "\<And>r. a = Inr r \<Longrightarrow> rs_status r \<noteq> 202"
    | (routed) source_cfg event I2 where "passes P T rq I source_cfg event I2" "route_event P T rq event I2 = (a, I')"
proof -
  note resp = json_response_def forbidden_def rate_limited_def
  obtain out I1 where admit: "admit P T rq I = (out, I1)" by (metis surj_pair)
  with admit_frame obtain B S where I1: "I1 = I\<lparr>i_buckets := B, i_secrets := S\<rparr>" by (metis snd_conv)
  show thesis
  proof (cases out)
    case (Inl ans)
    have "\<And>r. ans = Inr r \<Longrightarrow> rs_status r \<noteq> 202"
      using admit Inl
      by (auto simp: admit_def Let_def resp split: prod.splits sum.splits bool.splits if_splits option.splits pyval.splits auth.splits)
    with assms admit Inl show ?thesis
      by (intro turned_away [of B S "r_ulids (i_router I)"]) (auto simp: post_root_def I1 gated_same)
  next
    case (Inr source_cfg)
    then have signed: "signed P T rq I source_cfg" using admit admit_signed [of P T rq I] by simp
    show ?thesis
    proof (cases "check_trigger_identity source_cfg (rq_identity rq) = Inr None")
      case False
      with assms admit Inr show ?thesis
        by (intro turned_away [of B S "r_ulids (i_router I)"])
          (auto simp: post_root_def I1 gated_same resp split: sum.splits option.splits)
    next
      case True
      obtain built n where b:
        "build_wake_event P (r_ulids (i_router I)) (rq_body rq) (rq_source rq) (rq_event_id rq) = (built, n)"
        by (metis surj_pair)
      have post: "post_root P T rq I = (case built of
            Not_built e \<Rightarrow> (Inl e, gated B S n I) | Source_mismatch \<Rightarrow> (Inr forbidden, gated B S n I)
          | Unsupported_version \<Rightarrow>
              (Inr (json_response 400 [(''error'', VStr ''unsupported wake event version'')]), gated B S n I)
          | Event event \<Rightarrow> route_event P T rq event (gated B S n I))"
        using admit Inr True b by (simp add: post_root_def I1 Let_def gated_def split: built.split)
      show ?thesis
      proof (cases built)
        case (Event event)
        with signed True b build_ulids [OF b] have "passes P T rq I source_cfg event (gated B S n I)"
          by (auto simp: passes_def)
        with routed post assms Event show ?thesis by simp
      qed (use post assms build_ulids [OF b] turned_away [of B S n] in \<open>auto simp: resp\<close>)
    qed
  qed
qed

lemma dedupe_check_frame:
  assumes "dedupe_check P now eid src I = (r, I1)"
  shows "i_tasks I1 = i_tasks I \<and> i_health I1 = i_health I
    \<and> r_frames (i_router I1) = r_frames (i_router I) \<and> r_config (i_router I1) = r_config (i_router I)
    \<and> r_subs (i_router I1) = r_subs (i_router I) \<and> r_ulids (i_router I1) = r_ulids (i_router I)
    \<and> (\<forall>u. wf_router u (i_router I) \<longrightarrow> wf_router u (i_router I1))"
  using assms
  by (auto simp: dedupe_check_def split: option.splits sum.splits prod.splits intro: wf_router_cong)

text \<open>The target of an event is authorised for out-of-band delivery from \<open>source\<close>.\<close>

definition authorised_target :: "cfg \<Rightarrow> string \<Rightarrow> dict \<Rightarrow> bool" where
  "authorised_target cfg source event \<longleftrightarrow>
     (\<exists>pid allowed. target_of event = Some pid \<and> resolve_principal cfg pid \<noteq> None
        \<and> out_of_band_principals cfg source = Some allowed \<and> pid \<in> allowed)"

lemma dispatch_cases:
  assumes "dispatch event eid src I = (out, I1)"
  shows "i_router I1 = i_router I \<and> i_fifo I1 = i_fifo I
    \<and> (case out of
         Inl r \<Rightarrow> i_tasks I1 = i_tasks I \<and> rs_status r \<noteq> 202
       | Inr _ \<Rightarrow> i_tasks I1 = i_tasks I
           \<or> i_tasks I1 = i_tasks I @ [event] \<and> authorised_target (r_config (i_router I)) src event)"
  using assms
  by (auto simp: dispatch_def authorised_target_def json_response_def split: option.splits if_splits)

lemma stamp_source: "stamp_identity ident event0 = Inr event \<Longrightarrow> get_str event ''source'' [] = get_str event0 ''source'' []"
  by (auto simp: stamp_identity_def get_str_def dget_dset dget_setdefault split: option.splits list.splits pyval.splits)

text \<open>The body is an envelope whose \<open>source\<close> is null.\<close>

definition null_source :: "ports \<Rightarrow> bytes \<Rightarrow> bool" where
  "null_source P body \<longleftrightarrow>
     (case x_loads P body of
        Parsed (VDict payload) \<Rightarrow> has_key payload ''event_id'' \<and> dget payload ''source'' = Some VNone
      | _ \<Rightarrow> False)"

lemma build_source:
  assumes "build_wake_event P n body source eid = (Event event, n')"
  shows "get_str event ''source'' [] = (if null_source P body then ''None'' else source)"
proof (cases "\<exists>payload. x_loads P body = Parsed (VDict payload) \<and> has_key payload ''event_id''")
  case True
  then obtain payload where p: "x_loads P body = Parsed (VDict payload)" "has_key payload ''event_id''" by blast
  have ok: "dget payload ''source'' = None \<or> dget payload ''source'' = Some VNone \<or> dget payload ''source'' = Some (VStr source)"
    and "dget event ''source'' = dget (setdefault ''source'' (VStr source) payload) ''source''"
    using assms p by (auto simp: build_wake_event_def source_claim_ok_def dget_setdefault Let_def split: if_splits prod.splits)
  then show ?thesis using p by (auto simp: null_source_def get_str_def py_str_def dget_setdefault)
next
  case False
  then have "get_str event ''source'' [] = source"
    using assms by (auto simp: build_wake_event_def get_str_def py_str_def Let_def
        split: loaded.splits pyval.splits if_splits option.splits list.splits prod.splits)
  moreover have "\<not> null_source P body"
    using False by (auto simp: null_source_def split: loaded.splits pyval.splits)
  ultimately show ?thesis by simp
qed

text \<open>\<open>route_event\<close> stops (an exception, a duplicate, a refused target) without a frame or a task,
  or hands the stamped event to the router, after at most one authorised dispatch.\<close>

definition duplicate_answer :: "pyval \<Rightarrow> response" where
  "duplicate_answer eid = json_response 202 [(''status'', VStr ''duplicate''), (''event_id'', eid)]"

definition event_key :: "dict \<Rightarrow> pyval" where
  "event_key event = (case dget event ''event_id'' of None \<Rightarrow> VNone | Some v \<Rightarrow> v)"

lemma route_event_cases:
  assumes "route_event P T rq event0 I = (a, I')"
  obtains (stopped) "i_tasks I' = i_tasks I" "r_frames (i_router I') = r_frames (i_router I)"
      "\<And>r. a = Inr r \<Longrightarrow> rs_status r = 202 \<Longrightarrow> r = duplicate_answer (event_key event0)"
    | (sent) event I1 I2 d where
      "get_str event ''source'' [] = get_str event0 ''source'' []"
      "dedupe_check P (t_dedupe T) (event_key event0) (rq_source rq) I = (Inr False, I1)"
      "dispatch event (event_key event0) (rq_source rq) I1 = (Inr d, I2)"
      "I' = I2\<lparr>i_router := snd (deliver (x_ulid P) (x_link P) (t_deliver T) event (i_router I2))\<rparr>"
      "a = Inr (answer_for (fst (deliver (x_ulid P) (x_link P) (t_deliver T) event (i_router I2))) (event_key event0) d)"
proof -
  note run = assms [unfolded route_event_def Let_def event_key_def [symmetric]]
  show thesis
  proof (cases "stamp_identity (trigger_identity_for (r_config (i_router I)) (rq_source rq) (rq_identity rq)) event0")
    case (Inl e)
    with run stopped show ?thesis by auto
  next
    case stamp: (Inr event)
    obtain dup I1 where d: "dedupe_check P (t_dedupe T) (event_key event0) (rq_source rq) I = (dup, I1)"
      by (metis surj_pair)
    note f = dedupe_check_frame [OF d]
    show ?thesis
    proof (cases "dup = Inr False")
      case False
      with run stamp d f show ?thesis
        by (intro stopped) (auto simp: duplicate_answer_def split: sum.splits bool.splits)
    next
      case True
      obtain out I2 where o: "dispatch event (event_key event0) (rq_source rq) I1 = (out, I2)" by (metis surj_pair)
      show ?thesis
      proof (cases out)
        case (Inl r)
        with run stamp d True o f dispatch_cases [OF o] show ?thesis by (intro stopped) auto
      next
        case (Inr dl)
        have "(a, I') = (case deliver (x_ulid P) (x_link P) (t_deliver T) event (i_router I2) of
            (result, R) \<Rightarrow> (Inr (answer_for result (event_key event0) dl), I2\<lparr>i_router := R\<rparr>))"
          using run stamp d True o Inr by simp
        then show ?thesis
          using stamp_source [OF stamp] d True o Inr by (intro sent [of event I1 dl I2]) (simp_all add: case_prod_beta)
      qed
    qed
  qed
qed

text \<open>Claim C3: A delivery to a human is started only for a signed request of a sender that the
  config allows to reach that principal.  When a request adds a delivery task, its signature
  verified, its trigger identity was admitted, the event's target is a principal of the config,
  and the source declares that target for out-of-band delivery; it adds one task, for that
  event.\<close>

theorem out_of_band_authorised:
  assumes "post_root P T rq I = (a, I')" and "i_tasks I' \<noteq> i_tasks I"
  shows "\<exists>source_cfg event. signed P T rq I source_cfg
    \<and> check_trigger_identity source_cfg (rq_identity rq) = Inr None
    \<and> authorised_target (r_config (i_router I)) (rq_source rq) event
    \<and> i_tasks I' = i_tasks I @ [event]"
  using assms(1)
proof (cases rule: post_root_cases)
  case (turned_away B S n)
  with assms(2) show ?thesis by simp
next
  case (routed source_cfg event0 I2)
  then obtain B S n where I2: "I2 = gated B S n I" by (auto simp: passes_def)
  from routed(2) show ?thesis
  proof (cases rule: route_event_cases)
    case stopped
    with assms(2) I2 show ?thesis by simp
  next
    case (sent event I1 I3 d)
    with dispatch_cases [OF sent(3)] dedupe_check_frame [OF sent(2)] assms(2) I2 routed(1) show ?thesis
      by (auto simp: passes_def)
  qed
qed

lemma wf_router_ulids: "wf_router u R \<Longrightarrow> r_ulids R \<le> n \<Longrightarrow> wf_router u (R\<lparr>r_ulids := n\<rparr>)"
  by (auto simp: wf_router_defs waiting_def in_flight_for_def intro: less_le_trans)

text \<open>Claim C4: what ingest writes to adapters is addressed by the sender it authenticated, with one
  exception the code makes.  Every frame a signed request adds carries its one event to a connected session
  that serves a destination routed for the event's source.  That source is the authenticated one, unless the
  body is an envelope whose \<open>source\<close> is null: the check lets null pass and the router reads it as the text
  \<open>None\<close>, so the frame goes where a sender of that name is routed.\<close>

theorem frames_follow_the_signature:
  assumes "inj (x_ulid P)" and "wf_router (x_ulid P) (i_router I)" and "post_root P T rq I = (a, I')"
  shows "\<exists>fs. r_frames (i_router I') = r_frames (i_router I) @ fs
    \<and> (fs \<noteq> [] \<longrightarrow> (\<exists>source_cfg event. signed P T rq I source_cfg
          \<and> get_str event ''source'' [] = (if null_source P (rq_body rq) then ''None'' else rq_source rq)
          \<and> (\<forall>(sid, d, e) \<in> set fs. e = event \<and> served_by (i_router I) sid d
               \<and> d \<in> set (routed_destinations (r_config (i_router I)) (get_str event ''source'' [])))))"
  using assms(3)
proof (cases rule: post_root_cases)
  case (turned_away B S n)
  then show ?thesis by simp
next
  case (routed source_cfg event0 I2)
  then obtain B S n where I2: "I2 = gated B S n I" "r_ulids (i_router I) \<le> n"
    and ev: "build_wake_event P (r_ulids (i_router I)) (rq_body rq) (rq_source rq) (rq_event_id rq) = (Event event0, n)"
    by (auto simp: passes_def)
  have wf: "wf_router (x_ulid P) (i_router I2)" using wf_router_ulids [OF assms(2) I2(2)] by (simp add: I2(1) gated_def)
  from routed(2) show ?thesis
  proof (cases rule: route_event_cases)
    case stopped
    with I2 show ?thesis by simp
  next
    case (sent event I3 I4 d)
    note d = dedupe_check_frame [OF sent(2)]
    have R: "i_router I4 = i_router I3" using dispatch_cases [OF sent(3)] by simp
    have cfg: "r_config (i_router I4) = r_config (i_router I)" "r_subs (i_router I4) = r_subs (i_router I)"
      "r_frames (i_router I4) = r_frames (i_router I)"
      using d R I2 by simp_all
    have wf4: "wf_router (x_ulid P) (i_router I4)" using d R wf by simp
    let ?R = "snd (deliver (x_ulid P) (x_link P) (t_deliver T) event (i_router I4))"
    have I': "r_frames (i_router I') = r_frames ?R" using sent(4) by simp
    from deliver_frames [OF assms(1) wf4, of "x_link P" "t_deliver T" event] obtain fs where fs:
      "r_frames (i_router I') = r_frames (i_router I) @ fs"
      "subseq (map (fst \<circ> snd) fs) (case resolve_addressing (i_router I4) event of Inl e \<Rightarrow> [] | Inr ds \<Rightarrow> ds)"
      "\<forall>(sid, d, e) \<in> set fs. e = event \<and> served_by (i_router I4) sid d"
      unfolding cfg(3) by (elim exE conjE) (rule that; simp only: I')
    have served: "served_by (i_router I4) sid d = served_by (i_router I) sid d" for sid d
      using cfg(2) by (simp add: served_by_def)
    have dests: "d \<in> set (routed_destinations (r_config (i_router I)) (get_str event ''source'' []))"
      if "(sid, d, e) \<in> set fs" for sid d e
    proof -
      have "d \<in> set (map (fst \<circ> snd) fs)" using that by force
      from list_emb_set [OF fs(2) this]
      have "d \<in> set (case resolve_addressing (i_router I4) event of Inl e \<Rightarrow> [] | Inr ds \<Rightarrow> ds)" by blast
      then show ?thesis
        using cfg(1) by (auto simp: resolve_addressing_def split: sum.splits dest: resolve_subset [OF sym])
    qed
    have src: "get_str event ''source'' [] = (if null_source P (rq_body rq) then ''None'' else rq_source rq)"
      using build_source [OF ev] sent(1) by simp
    have sig: "signed P T rq I source_cfg" using routed(1) by (simp add: passes_def)
    have "\<forall>(sid, d, e) \<in> set fs. e = event \<and> served_by (i_router I) sid d
        \<and> d \<in> set (routed_destinations (r_config (i_router I)) (get_str event ''source'' []))"
      using fs(3) served dests by fast
    with fs(1) sig src show ?thesis by (intro exI [of _ fs] conjI impI exI [of _ source_cfg] exI [of _ event])
  qed
qed

subsection \<open>Replays\<close>

text \<open>The id a request names for its event: in the body when it is an object with one, else in the
  header.\<close>

definition request_id :: "ports \<Rightarrow> request \<Rightarrow> pyval option" where
  "request_id P rq =
     (let header = (case rq_event_id rq of Some (c # cs) \<Rightarrow> Some (VStr (c # cs)) | _ \<Rightarrow> None) in
      case x_loads P (rq_body rq) of
        Parsed (VDict payload) \<Rightarrow>
          (case dget payload ''event_id'' of None \<Rightarrow> header | Some v \<Rightarrow> Some v)
      | _ \<Rightarrow> header)"

definition in_window :: "string \<Rightarrow> ingest \<Rightarrow> bool" where
  "in_window s I \<longleftrightarrow>
     (case r_store (i_router I) of
        Some st \<Rightarrow> dedupe_known (Some s) st
      | None \<Rightarrow> VStr s \<in> f_seen (i_fifo I))"

definition window_ok :: "pytime \<Rightarrow> ingest \<Rightarrow> bool" where
  "window_ok now I \<longleftrightarrow>
     (case r_store (i_router I) of
        Some st \<Rightarrow> limits_ok st \<and> clock_ok now st
      | None \<Rightarrow> wf_fifo (i_fifo I))"

lemma build_id:
  assumes "build_wake_event P n (rq_body rq) source (rq_event_id rq) = (Event event, n')"
    and "request_id P rq = Some v"
  shows "event_key event = v"
  using assms
  by (auto simp: build_wake_event_def request_id_def event_key_def Let_def has_key_def dget_setdefault
      split: loaded.splits pyval.splits if_splits option.splits list.splits prod.splits)

text \<open>The window answers for the ids it holds, and an id that is let through is in it after.\<close>

lemma known_is_duplicate:
  assumes "dedupe_check P now (VStr s) src I = (Inr dup, I1)"
  shows "dup \<longleftrightarrow> in_window s I"
  using assms
  by (auto simp: dedupe_check_def in_window_def sql_text_def check_and_record_event_def fifo_check_def Let_def
      split: option.splits if_splits)

lemma admitted_is_in_window:
  assumes "dedupe_check P now (VStr s) src I = (Inr False, I1)" and "window_ok now I"
  shows "in_window s I1"
proof (cases "r_store (i_router I)")
  case (Some st)
  let ?p = "check_and_record_event (x_ulid P) now (Some s) src st"
  have I1: "I1 = I\<lparr>i_router := (i_router I)\<lparr>r_store := Some (snd ?p)\<rparr>\<rparr>" "\<not> fst ?p"
    using assms(1) Some by (auto simp: dedupe_check_def sql_text_def split: prod.splits)
  have "dedupe_known (Some s) (snd ?p)"
    using dw.records [of st "(now, Some s, src)" "x_ulid P"] dw.answer [of st "(now, Some s, src)" "x_ulid P"]
      assms(2) I1(2) Some by (simp add: window_ok_def)
  then show ?thesis by (simp add: in_window_def I1)
next
  case None
  let ?p = "fifo_check (VStr s) (i_fifo I)"
  have I1: "I1 = I\<lparr>i_fifo := snd ?p\<rparr>" "\<not> fst ?p"
    using assms(1) None by (auto simp: dedupe_check_def split: prod.splits)
  have "VStr s \<in> f_seen (snd ?p)"
    using fw.records [of "i_fifo I" "VStr s"] fw.answer [of "i_fifo I" "VStr s"] assms(2) I1(2) None
    by (simp add: window_ok_def)
  then show ?thesis using None by (simp add: in_window_def I1)
qed

text \<open>The router never touches the replay window.\<close>

lemma undeliverable_dedupe:
  "map_option st_dedupe (r_store (snd (undeliverable now event d R))) = map_option st_dedupe (r_store R)"
  by (auto simp: undeliverable_def note_queued_without_delivery_def enqueue_pending_def Let_def
      split: option.split prod.split bool.split)

lemma undeliverable_all_dedupe:
  "map_option st_dedupe (r_store (snd (undeliverable_all now event ns R))) = map_option st_dedupe (r_store R)"
  by (induction ns arbitrary: R) (simp_all add: case_prod_beta undeliverable_dedupe)

lemma deliver_dedupe:
  "map_option st_dedupe (r_store (snd (deliver u link now event R))) = map_option st_dedupe (r_store R)"
  by (auto simp: deliver_def Let_def case_prod_beta undeliverable_dedupe undeliverable_all_dedupe router_simps
      split: sum.split)

lemma in_window_cong:
  "map_option st_dedupe (r_store (i_router I1)) = map_option st_dedupe (r_store (i_router I)) \<Longrightarrow>
   i_fifo I1 = i_fifo I \<Longrightarrow> in_window s I1 = in_window s I"
  by (auto simp: in_window_def dedupe_known_def split: option.splits)

lemma in_window_gated [simp]: "in_window s (gated B S n I) = in_window s I"
  by (rule in_window_cong) simp_all

lemma known_request_stops:
  assumes "post_root P T rq I = (a, I')" and "request_id P rq = Some (VStr s)" and "in_window s I"
  shows "i_tasks I' = i_tasks I \<and> r_frames (i_router I') = r_frames (i_router I)
    \<and> (\<forall>r. a = Inr r \<and> rs_status r = 202 \<longrightarrow> r = duplicate_answer (VStr s))"
  using assms(1)
proof (cases rule: post_root_cases)
  case (turned_away B S n)
  then show ?thesis by auto
next
  case (routed source_cfg event I2)
  then obtain B S n where I2: "I2 = gated B S n I"
    and ev: "build_wake_event P (r_ulids (i_router I)) (rq_body rq) (rq_source rq) (rq_event_id rq) = (Event event, n)"
    by (auto simp: passes_def)
  have key: "event_key event = VStr s" by (rule build_id [OF ev assms(2)])
  from routed(2) show ?thesis
  proof (cases rule: route_event_cases)
    case stopped
    with I2 key show ?thesis by simp
  next
    case (sent event' I3 I4 d)
    with known_is_duplicate [OF sent(2) [unfolded key]] assms(3) I2 show ?thesis by simp
  qed
qed

subsection \<open>A concrete daemon\<close>

definition demo_ports :: ports where
  "demo_ports =
     \<lparr>x_hmac = demo_hmac,
      x_loads = (\<lambda>b. Parsed (VDict [(''event_id'', VStr ''e1''), (''meta'', VDict [(''target'', VStr ''human:ann'')])])),
      x_utf8 = (\<lambda>b. b), x_ulid = demo_ulid, x_sql_real = (\<lambda>r. []), x_link = demo_link,
      x_world = \<lparr>w_env = (\<lambda>_. None), w_vault = None, w_unquote = (\<lambda>s. s), w_float = (\<lambda>_. None)\<rparr>\<rparr>"

definition demo_clocks :: clocks where
  "demo_clocks = \<lparr>t_peer = 0, t_secret = 0, t_source = 0, t_dedupe = 0, t_deliver = 0\<rparr>"

definition demo_ingest_cfg :: cfg where
  "demo_ingest_cfg =
     [(''senders'', VDict [(''ci'', VDict [(''allowed_target_principals'', VList [VStr ''human:ann''])])]),
      (''destinations'', VDict [(''desk'', VDict [(''adapter'', VStr ''claude'')])]),
      (''routes'', VList [VDict [(''sender'', VStr ''ci''), (''destinations'', VList [VStr ''desk''])]]),
      (''sources'', VDict [(''ci'', VDict [(''secret'', VBytes ''k'')])]),
      (''delivery'', VDict [(''human:ann'', VDict [(''webhook'', VDict [])])])]"

definition demo_ingest :: ingest where
  "demo_ingest =
     \<lparr>i_router = subscribe 0 ''s1'' ''claude'' ''i'' [] [''desk''] (new_router demo_ingest_cfg None),
      i_rate = 10, i_burst = 20, i_buckets = [], i_fifo = new_fifo DEDUPE_MAX, i_secrets = None,
      i_health = Some new_health, i_tasks = []\<rparr>"

definition demo_request :: "string \<Rightarrow> request" where
  "demo_request sig = \<lparr>rq_body = ''b'', rq_source = ''ci'', rq_signature = sig, rq_event_id = None,
     rq_identity = None, rq_remote = Some ''10.0.0.1''\<rparr>"

abbreviation demo_sig :: string where "demo_sig \<equiv> signature_header demo_hmac ''k'' ''b''"

lemma demo_run:
  "i_tasks (snd (post_root demo_ports demo_clocks (demo_request demo_sig) demo_ingest)) \<noteq> []"
  "length (r_frames (i_router (snd (post_root demo_ports demo_clocks (demo_request demo_sig) demo_ingest)))) = 1"
  by code_simp+

theorem unsigned_no_effect_witness:
  "i_tasks (snd (post_root demo_ports demo_clocks (demo_request []) demo_ingest)) = []"
proof -
  have "\<nexists>source_cfg. signed demo_ports demo_clocks (demo_request []) demo_ingest source_cfg"
    by (simp add: signed_def verify_signature_def demo_request_def)
  from unsigned_no_effect [OF this] show ?thesis by (auto simp: demo_ingest_def)
qed

theorem out_of_band_authorised_witness:
  "\<exists>event. authorised_target demo_ingest_cfg ''ci'' event
     \<and> i_tasks (snd (post_root demo_ports demo_clocks (demo_request demo_sig) demo_ingest)) = [event]"
proof -
  obtain a I' where run: "post_root demo_ports demo_clocks (demo_request demo_sig) demo_ingest = (a, I')"
    by (metis surj_pair)
  with demo_run(1) have "i_tasks I' \<noteq> i_tasks demo_ingest" by (simp add: demo_ingest_def)
  from out_of_band_authorised [OF run this] run show ?thesis
    by (auto simp: demo_ingest_def demo_request_def subscribe_def new_router_def)
qed

lemma wf_demo_ingest: "wf_router demo_ulid (i_router demo_ingest)"
  by (simp add: demo_ingest_def wf_router_defs subscribe_def new_router_def waiting_def wf_dict_def)

theorem frames_follow_the_signature_witness:
  "\<exists>sid d e. (sid, d, e) \<in> set (r_frames (i_router (snd (post_root demo_ports demo_clocks (demo_request demo_sig) demo_ingest))))
     \<and> served_by (i_router demo_ingest) sid d"
proof -
  obtain a I' where run: "post_root demo_ports demo_clocks (demo_request demo_sig) demo_ingest = (a, I')"
    by (metis surj_pair)
  have inj: "inj (x_ulid demo_ports)" using inj_demo_ulid by (simp add: demo_ports_def)
  have wf: "wf_router (x_ulid demo_ports) (i_router demo_ingest)" using wf_demo_ingest by (simp add: demo_ports_def)
  from frames_follow_the_signature [OF inj wf run] obtain fs where fs:
    "r_frames (i_router I') = r_frames (i_router demo_ingest) @ fs"
    "fs \<noteq> [] \<longrightarrow> (\<exists>event. \<forall>(sid, d, e) \<in> set fs. served_by (i_router demo_ingest) sid d)" by fast
  moreover have "r_frames (i_router demo_ingest) = []" by (simp add: demo_ingest_def subscribe_def new_router_def)
  ultimately have "fs \<noteq> []" using demo_run(2) run by auto
  then obtain sid d e where "(sid, d, e) \<in> set fs" by (cases fs) (auto intro: that)
  with fs \<open>fs \<noteq> []\<close> show ?thesis using run by (intro exI [of _ sid] exI [of _ d] exI [of _ e]) auto
qed

lemma demo_accepted:
  "fst (post_root demo_ports demo_clocks (demo_request demo_sig) demo_ingest) =
     Inr (answer_for Queued (VStr ''e1'') (Some [(''status'', VStr ''dispatched''), (''principal_id'', VStr ''human:ann'')]))"
  by code_simp

end
