(* ===== verification/Netguard.thy ===== *)
theory Netguard
  imports Url
begin

section \<open>The outbound address guard (\<open>netguard.py\<close>)\<close>

text \<open>
  Which addresses the daemon refuses to connect to, and the check of a callback URL on the
  request path.  \<open>dns\<close> is \<open>getaddrinfo\<close> reduced to its addresses; it may raise.
\<close>

definition CGNAT_RANGE :: "(32 word) \<times> nat" where "CGNAT_RANGE = (0x64400000, 10)"

fun in_cgnat :: "ip \<Rightarrow> bool" where
  "in_cgnat (V4 w) = in_net w CGNAT_RANGE"
| "in_cgnat (V6 _ _) = False"

definition unwrap_mapped :: "ip \<Rightarrow> ip" where
  "unwrap_mapped a = (case ipv4_mapped a of Some w \<Rightarrow> V4 w | None \<Rightarrow> a)"

definition is_forbidden_address :: "string \<Rightarrow> bool" where
  "is_forbidden_address addr =
     (case ip_address addr of
        None \<Rightarrow> False
      | Some a \<Rightarrow>
          let i = unwrap_mapped a in
          is_loopback i \<or> is_private i \<or> is_link_local i \<or> is_multicast i \<or> is_reserved i
          \<or> is_unspecified i \<or> in_cgnat i)"

definition forbidden_address :: "string list \<Rightarrow> string option" where
  "forbidden_address addrs = find is_forbidden_address addrs"

definition acheck_url :: "(string \<Rightarrow> string list res) \<Rightarrow> string \<Rightarrow> string option res" where
  "acheck_url dns url =
     (case urlparse url of
        Inl e \<Rightarrow> Inl e
      | Inr p \<Rightarrow>
          if u_scheme p \<notin> {''http'', ''https''}
          then Inr (Some (''disallowed scheme '' @ repr_str (u_scheme p)))
          else
            (case u_hostname p of
               None \<Rightarrow> Inr (Some ''URL has no hostname'')
             | Some host \<Rightarrow>
                 (case dns host of
                    Inl (OSError t) \<Rightarrow>
                      Inr (Some (''hostname '' @ repr_str host @ '' does not resolve: '' @ t))
                  | Inl e \<Rightarrow> Inl e
                  | Inr [] \<Rightarrow> Inr (Some (''hostname '' @ repr_str host @ '' resolved to no addresses''))
                  | Inr addrs \<Rightarrow>
                      (case forbidden_address addrs of
                         Some bad \<Rightarrow>
                           Inr (Some (''hostname '' @ repr_str host @ '' resolves to forbidden address ''
                                @ bad @ '' (loopback/private/reserved)''))
                       | None \<Rightarrow> Inr None))))"

subsection \<open>IPv4: the refused intervals\<close>

lemma v4_net:
  fixes w :: "32 word"
  assumes "n \<le> 32" "take_bit (32 - n) p = 0"
  shows "in_net w (p, n) \<longleftrightarrow> uint p \<le> uint w \<and> uint w < uint p + 2 ^ (32 - n)"
  using in_net_interval [of n p w] assms by simp

definition v4_refused :: "int \<Rightarrow> bool" where
  "v4_refused x \<longleftrightarrow>
     x < 2 ^ 24 \<or> (10 * 2 ^ 24 \<le> x \<and> x < 11 * 2 ^ 24)
     \<or> (0x64400000 \<le> x \<and> x < 0x64800000) \<or> (127 * 2 ^ 24 \<le> x \<and> x < 128 * 2 ^ 24)
     \<or> (0xA9FE0000 \<le> x \<and> x < 0xA9FF0000) \<or> (0xAC100000 \<le> x \<and> x < 0xAC200000)
     \<or> (0xC0000000 \<le> x \<and> x < 0xC0000100 \<and> x \<noteq> 0xC0000009 \<and> x \<noteq> 0xC000000A)
     \<or> (0xC0000200 \<le> x \<and> x < 0xC0000300) \<or> (0xC0A80000 \<le> x \<and> x < 0xC0A90000)
     \<or> (0xC6120000 \<le> x \<and> x < 0xC6140000) \<or> (0xC6336400 \<le> x \<and> x < 0xC6336500)
     \<or> (0xCB007100 \<le> x \<and> x < 0xCB007200) \<or> 0xE0000000 \<le> x"

definition refused :: "ip \<Rightarrow> bool" where
  "refused i \<longleftrightarrow> is_loopback i \<or> is_private i \<or> is_link_local i \<or> is_multicast i \<or> is_reserved i
     \<or> is_unspecified i \<or> in_cgnat i"

lemma refused_v4: "refused (V4 w) \<longleftrightarrow> v4_refused (uint w)"
proof -
  have b: "0 \<le> uint w" "uint w < 4294967296" using uint_lt2p [of w] by simp_all
  show ?thesis
    using b
    by (simp add: refused_def v4_is_private_def v4_private_def v4_private_exceptions_def CGNAT_RANGE_def
        v4_net v4_refused_def word_uint_eq_iff) presburger
qed

subsection \<open>IPv6: the refused intervals\<close>

lemma v6_net:
  fixes w :: "128 word"
  assumes "n \<le> 128" "take_bit (128 - n) p = 0"
  shows "in_net w (p, n) \<longleftrightarrow> uint p \<le> uint w \<and> uint w < uint p + 2 ^ (128 - n)"
  using in_net_interval [of n p w] assms by simp

text \<open>\<open>grp g\<close> is the first address whose leading group is \<open>g\<close>.\<close>

abbreviation grp :: "int \<Rightarrow> int" where
  "grp g \<equiv> g * 2 ^ 112"

definition v6_special :: "int \<Rightarrow> bool" where
  "v6_special x \<longleftrightarrow>
     grp 0x2001 \<le> x \<and> x < grp 0x2001 + 2 ^ 105
     \<and> x \<noteq> grp 0x2001 + 2 ^ 96 + 1 \<and> x \<noteq> grp 0x2001 + 2 ^ 96 + 2
     \<and> \<not> (grp 0x2001 + 3 * 2 ^ 96 \<le> x \<and> x < grp 0x2001 + 4 * 2 ^ 96)
     \<and> \<not> (grp 0x2001 + 0x40112 * 2 ^ 80 \<le> x \<and> x < grp 0x2001 + 0x40113 * 2 ^ 80)
     \<and> \<not> (grp 0x2001 + 0x20 * 2 ^ 96 \<le> x \<and> x < grp 0x2001 + 0x40 * 2 ^ 96)"

definition v6_refused :: "int \<Rightarrow> bool" where
  "v6_refused x \<longleftrightarrow>
     x < grp 0x2000 \<or> v6_special x \<or> (grp 0x2001 + 0xDB8 * 2 ^ 96 \<le> x \<and> x < grp 0x2001 + 0xDB9 * 2 ^ 96)
     \<or> (grp 0x2002 \<le> x \<and> x < grp 0x2003) \<or> (grp 0x4000 \<le> x \<and> x < grp 0xFEC0) \<or> grp 0xFF00 \<le> x"

text \<open>Adjacent intervals merge.\<close>

lemma merge_intervals:
  fixes x :: int
  shows "a \<le> b \<Longrightarrow> b \<le> c \<Longrightarrow> (a \<le> x \<and> x < b \<or> b \<le> x \<and> x < c \<or> R) \<longleftrightarrow> (a \<le> x \<and> x < c \<or> R)"
    and "a \<le> b \<Longrightarrow> b \<le> c \<Longrightarrow> (a \<le> x \<and> x < b \<or> b \<le> x \<and> x < c) \<longleftrightarrow> (a \<le> x \<and> x < c)"
    and "b \<le> c \<Longrightarrow> (x < b \<or> b \<le> x \<and> x < c \<or> R) \<longleftrightarrow> (x < c \<or> R)"
  by auto

lemma v6_reserved_ranges:
  fixes w :: "128 word"
  shows "list_ex (in_net w) v6_reserved \<longleftrightarrow>
     uint w < grp 0x2000 \<or> (grp 0x4000 \<le> uint w \<and> uint w < grp 0xFC00)
     \<or> (grp 0xFE00 \<le> uint w \<and> uint w < grp 0xFE80)"
  by (simp add: v6_reserved_def v6_net merge_intervals)

lemma v6_exception_ranges:
  fixes w :: "128 word"
  shows "list_ex (in_net w) v6_private_exceptions \<longleftrightarrow>
     uint w = grp 0x2001 + 2 ^ 96 + 1 \<or> uint w = grp 0x2001 + 2 ^ 96 + 2
     \<or> (grp 0x2001 + 3 * 2 ^ 96 \<le> uint w \<and> uint w < grp 0x2001 + 4 * 2 ^ 96)
     \<or> (grp 0x2001 + 0x40112 * 2 ^ 80 \<le> uint w \<and> uint w < grp 0x2001 + 0x40113 * 2 ^ 80)
     \<or> (grp 0x2001 + 0x20 * 2 ^ 96 \<le> uint w \<and> uint w < grp 0x2001 + 0x40 * 2 ^ 96)"
  by (simp add: v6_private_exceptions_def v6_net merge_intervals) linarith

lemma v6_private_ranges:
  fixes w :: "128 word"
  shows "grp 0x2000 \<le> uint w \<Longrightarrow> list_ex (in_net w) v6_private \<longleftrightarrow>
     (grp 0x2001 \<le> uint w \<and> uint w < grp 0x2001 + 2 ^ 105)
     \<or> (grp 0x2001 + 0xDB8 * 2 ^ 96 \<le> uint w \<and> uint w < grp 0x2001 + 0xDB9 * 2 ^ 96)
     \<or> (grp 0x2002 \<le> uint w \<and> uint w < grp 0x2003) \<or> (grp 0xFC00 \<le> uint w \<and> uint w < grp 0xFE00)
     \<or> (grp 0xFE80 \<le> uint w \<and> uint w < grp 0xFEC0)"
  by (simp add: v6_private_def v6_net)

lemma refused_v6:
  assumes "ipv4_mapped (V6 w sc) = None"
  shows "refused (V6 w sc) \<longleftrightarrow> v6_refused (uint w)"
proof (cases "uint w < grp 0x2000")
  case True
  then show ?thesis by (simp add: refused_def v6_refused_def v6_reserved_ranges)
next
  case False
  then have "w \<noteq> 0" "w \<noteq> 1" by auto
  moreover have "uint w < 2 ^ 128" using uint_lt2p [of w] by simp
  ultimately show ?thesis
    using assms False
    by (simp add: refused_def v6_reserved_ranges v6_private_ranges v6_exception_ranges v6_net
        v6_refused_def v6_special_def del: ipv4_mapped.simps) linarith
qed

subsection \<open>Spellings\<close>

text \<open>The IPv6 word that embeds an IPv4 address.\<close>

definition mapped_word :: "32 word \<Rightarrow> 128 word" where
  "mapped_word w = push_bit 32 0xFFFF OR ucast w"

lemma ffff_mask: "(0xFFFF :: 'a::len word) = mask 16"
  by (simp add: mask_eq_exp_minus_1)

lemma mapped_word_hextets:
  "push_bit 16 (push_bit 16 (0xFFFF :: 128 word) OR word_of_int (int (unat (drop_bit 16 w AND 0xFFFF))))
     OR word_of_int (int (unat (w AND 0xFFFF))) = mapped_word w" for w :: "32 word"
proof -
  have c: "word_of_int (int (unat v)) = (ucast v :: 128 word)" for v :: "32 word" by simp
  show ?thesis
    unfolding c mapped_word_def ffff_mask
    by (rule bit_word_eqI) (auto simp: bit_simps dest: bit_imp_le_length)
qed

lemma mapped_word_unwrap: "ipv4_mapped (V6 (mapped_word w) sc) = Some w"
proof -
  have "drop_bit 32 (mapped_word w) = 0xFFFF"
    unfolding mapped_word_def ffff_mask
    by (rule bit_word_eqI) (auto simp: bit_simps dest: bit_imp_le_length)
  moreover have "ucast (mapped_word w) = w"
    unfolding mapped_word_def ffff_mask by (rule bit_word_eqI) (auto simp: bit_simps)
  ultimately show ?thesis by simp
qed

lemma hex_str_hextets:
  fixes w :: "32 word"
  shows "parse_hextet (hex_str (unat (drop_bit 16 w AND 0xFFFF))) = Some (int (unat (drop_bit 16 w AND 0xFFFF)))"
    and "parse_hextet (hex_str (unat (w AND 0xFFFF))) = Some (int (unat (w AND 0xFFFF)))"
proof -
  have "unat (v AND 0xFFFF) < 65536" for v :: "32 word"
  proof -
    have "v AND 0xFFFF = take_bit 16 v" by (simp only: take_bit_eq_mask ffff_mask)
    then have "unat (v AND 0xFFFF) = take_bit 16 (unat v)" by (simp only: unsigned_take_bit_eq)
    then show ?thesis using take_bit_nat_less_exp [of 16 "unat v"] by simp
  qed
  then show "parse_hextet (hex_str (unat (drop_bit 16 w AND 0xFFFF))) = Some (int (unat (drop_bit 16 w AND 0xFFFF)))"
    and "parse_hextet (hex_str (unat (w AND 0xFFFF))) = Some (int (unat (w AND 0xFFFF)))"
    by (simp_all add: parse_hextet_hex_str)
qed

lemma mapped_groups:
  fixes w :: "32 word"
  defines "h \<equiv> hex_str (unat (drop_bit 16 w AND 0xFFFF))" and "l \<equiv> hex_str (unat (w AND 0xFFFF))"
  assumes "parts \<in> {[[], [], ''ffff'', h, l], [''0'', ''0'', ''0'', ''0'', ''0'', ''ffff'', h, l]}"
  shows "\<exists>hi lo sk v. ipv6_layout parts = Some (hi, lo, sk) \<and> hextets 0 (take hi parts) = Some v
     \<and> hextets (push_bit (16 * sk) v) (drop (length parts - lo) parts) = Some (mapped_word w)"
proof -
  have ne: "h \<noteq> []" "l \<noteq> []" by (simp_all add: h_def l_def)
  have f: "parse_hextet ''ffff'' = Some 0xFFFF" "parse_hextet ''0'' = Some 0"
    by (simp_all add: parse_hextet_def hexval_def)
  have hl: "parse_hextet h = Some (int (unat (drop_bit 16 w AND 0xFFFF)))" "parse_hextet l = Some (int (unat (w AND 0xFFFF)))"
    unfolding h_def l_def by (rule hex_str_hextets)+
  show ?thesis
  proof (cases "parts = [[], [], ''ffff'', h, l]")
    case True
    have "empty_groups parts = [1]" using ne by (simp add: True empty_groups_def upt_rec)
    then have "ipv6_layout parts = Some (0, 3, 5)" using ne by (simp add: True ipv6_layout_def)
    then show ?thesis using mapped_word_hextets [of w] by (simp add: True f hl)
  next
    case False
    then have p: "parts = [''0'', ''0'', ''0'', ''0'', ''0'', ''ffff'', h, l]" using assms(3) by simp
    have "empty_groups parts = []" using ne by (simp add: p empty_groups_def upt_rec)
    then have "ipv6_layout parts = Some (8, 0, 0)" using ne by (simp add: p ipv6_layout_def)
    then show ?thesis using mapped_word_hextets [of w] by (simp add: p f hl)
  qed
qed

lemma parse_mapped:
  assumes "parse_ipv4 t = Some w" "pre \<in> {''::ffff:'', ''0:0:0:0:0:ffff:''}"
    "suf \<in> {t, hex_str (unat (drop_bit 16 w AND 0xFFFF)) @ '':'' @ hex_str (unat (w AND 0xFFFF))}"
  shows "ip_address (pre @ suf) = Some (V6 (mapped_word w) None)"
proof -
  let ?h = "hex_str (unat (drop_bit 16 w AND 0xFFFF))" and ?l = "hex_str (unat (w AND 0xFFFF))"
  note t = parse_ipv4_plain [OF assms(1)]
  have hl: "CHR '':'' \<notin> set ?h" "CHR '':'' \<notin> set ?l" "CHR ''.'' \<notin> set ?l" "CHR ''%'' \<notin> set ?h" "CHR ''%'' \<notin> set ?l"
     "CHR ''/'' \<notin> set ?h" "CHR ''/'' \<notin> set ?l"
    using hex_str_plain by blast+
  have no: "CHR ''/'' \<notin> set (pre @ suf)" "CHR ''%'' \<notin> set (pre @ suf)"
    using assms(2,3) t hl by auto
  obtain gs where gs: "gs \<in> {[[], [], ''ffff''], [''0'', ''0'', ''0'', ''0'', ''0'', ''ffff'']}"
    "split_on (CHR '':'') (pre @ suf) = gs @ split_on (CHR '':'') suf"
    using assms(2) by (elim insertE) auto
  have suf: "split_on (CHR '':'') suf \<in> {[t], [?h, ?l]}"
    using assms(3) t hl by (auto simp: split_on_none split_on_append)
  have ex: "expand_ipv4 (split_on (CHR '':'') (pre @ suf)) = Some (gs @ [?h, ?l])"
    using gs suf assms(1) parse_ipv4_shape(1) [OF assms(1)] hl(3)
    by (auto simp: expand_ipv4_def butlast_append)
  have len: "\<not> length (split_on (CHR '':'') (pre @ suf)) < 3" "\<not> 9 < length (gs @ [?h, ?l])"
    using gs suf by auto
  obtain hi lo sk v where "ipv6_layout (gs @ [?h, ?l]) = Some (hi, lo, sk)"
    "hextets 0 (take hi (gs @ [?h, ?l])) = Some v"
    "hextets (push_bit (16 * sk) v) (drop (length (gs @ [?h, ?l]) - lo) (gs @ [?h, ?l])) = Some (mapped_word w)"
    using mapped_groups [of "gs @ [?h, ?l]" w] gs(1) by auto
  then have p6: "parse_ipv6 (pre @ suf) = Some (mapped_word w)"
    unfolding parse_ipv6_def Let_def using ex len by (simp del: length_append)
  have p4: "parse_ipv4 (pre @ suf) = None"
  proof (cases "parse_ipv4 (pre @ suf)")
    case (Some x)
    then have "CHR '':'' \<notin> set (pre @ suf)" by (rule parse_ipv4_plain)
    then show ?thesis using assms(2) by auto
  qed simp
  have "split_scope (pre @ suf) = Some (pre @ suf, None)"
  proof -
    have "takeWhile (\<lambda>x. x \<noteq> CHR ''%'') (pre @ suf) = pre @ suf"
      using no(2) by (intro takeWhile_eq_all_conv [THEN iffD2]) blast
    with no(2) show ?thesis by (simp add: split_scope_def partition_on_def)
  qed
  with no(1) p4 p6 show ?thesis by (simp add: ip_address_def)
qed

lemma is_forbidden_refused:
  "is_forbidden_address addr = (case ip_address addr of None \<Rightarrow> False | Some a \<Rightarrow> refused (unwrap_mapped a))"
  by (simp add: is_forbidden_address_def refused_def Let_def split: option.splits)

subsection \<open>Properties\<close>

text \<open>Claim C32: however an IPv4 address is spelled, it is refused or allowed alike.  The dotted text, and
  every text that the address parser reads as the IPv6 address that embeds it (in either case of letters,
  with padded groups, compressed anywhere, with a dotted tail or a scope id), is refused exactly in the
  listed intervals: loopback, private, shared, link-local, test and benchmark networks,
  multicast and reserved space.  Among these texts are the mapped forms with a dotted and with a hexadecimal
  tail, with the zeros written out or not.\<close>

theorem spellings_refused_alike:
  assumes "parse_ipv4 t = Some w"
  shows "(is_forbidden_address t \<longleftrightarrow> v4_refused (uint w))
    \<and> (\<forall>s sc. ip_address s = Some (V6 (mapped_word w) sc) \<longrightarrow> (is_forbidden_address s \<longleftrightarrow> v4_refused (uint w)))
    \<and> (\<forall>pre \<in> {''::ffff:'', ''0:0:0:0:0:ffff:''}.
        \<forall>suf \<in> {t, hex_str (unat (drop_bit 16 w AND 0xFFFF)) @ '':'' @ hex_str (unat (w AND 0xFFFF))}.
          ip_address (pre @ suf) = Some (V6 (mapped_word w) None))"
proof (intro conjI allI impI ballI)
  have "ip_address t = Some (V4 w)"
    using parse_ipv4_plain [OF assms] assms by (simp add: ip_address_def)
  then show "is_forbidden_address t \<longleftrightarrow> v4_refused (uint w)"
    by (simp add: is_forbidden_refused unwrap_mapped_def refused_v4)
next
  fix s sc assume "ip_address s = Some (V6 (mapped_word w) sc)"
  then show "is_forbidden_address s \<longleftrightarrow> v4_refused (uint w)"
    using mapped_word_unwrap [of w sc]
    by (simp add: is_forbidden_refused unwrap_mapped_def refused_v4 del: ipv4_mapped.simps)
qed (rule parse_mapped [OF assms])

theorem spellings_refused_alike_witness:
  "is_forbidden_address ''100.64.0.1'' \<and> is_forbidden_address (''::ffff:'' @ ''100.64.0.1'')
   \<and> is_forbidden_address (''::ffff:'' @ ''6440:1'') \<and> is_forbidden_address ''0:0:0::FFFF:6440:0001%eth0''"
proof -
  have p: "parse_ipv4 ''100.64.0.1'' = Some 0x64400001"
    by (simp add: parse_ipv4_def parse_octet_def ipv4_word_def is_digit_def)
  have h: "hex_str (unat (drop_bit 16 (0x64400001 :: 32 word) AND 0xFFFF)) @ '':'' @
     hex_str (unat ((0x64400001 :: 32 word) AND 0xFFFF)) = ''6440:1''"
    by (simp add: hex_str.simps digit_char_def)
  have r: "v4_refused (uint (0x64400001 :: 32 word))" by (simp add: v4_refused_def)
  have odd: "ip_address ''0:0:0::FFFF:6440:0001%eth0'' = Some (V6 (mapped_word 0x64400001) (Some ''eth0''))"
    by (simp add: ip_address_def parse_ipv4_def parse_octet_def split_scope_def partition_on_def parse_ipv6_def
        expand_ipv4_def empty_groups_def ipv6_layout_def parse_hextet_def hexval_def upt_rec is_digit_def mapped_word_def)
  note th = spellings_refused_alike [OF p, unfolded h]
  then have "ip_address (''::ffff:'' @ ''100.64.0.1'') = Some (V6 (mapped_word 0x64400001) None)"
    "ip_address (''::ffff:'' @ ''6440:1'') = Some (V6 (mapped_word 0x64400001) None)" by blast+
  with th odd r show ?thesis by blast
qed

text \<open>An IPv6 address that embeds no IPv4 address is refused exactly outside the global unicast
  space 2000::/3 and the deprecated site-local space fec0::/10, and in the special networks inside it.\<close>

theorem ipv6_refused_iff:
  assumes "ip_address t = Some (V6 w sc)"
  shows "is_forbidden_address t \<longleftrightarrow>
     (if drop_bit 32 w = 0xFFFF then v4_refused (uint (ucast w :: 32 word)) else v6_refused (uint w))"
  using assms refused_v6 [of w sc] by (simp add: is_forbidden_refused unwrap_mapped_def refused_v4)

theorem ipv6_refused_iff_witness:
  "is_forbidden_address ''fe80::1%eth0'' \<and> \<not> is_forbidden_address ''fec0::1''"
proof -
  have a: "ip_address ''fe80::1%eth0'' = Some (V6 0xFE800000000000000000000000000001 (Some ''eth0''))"
    and b: "ip_address ''fec0::1'' = Some (V6 0xFEC00000000000000000000000000001 None)"
    by (simp_all add: ip_address_def parse_ipv4_def parse_octet_def split_scope_def partition_on_def parse_ipv6_def
        expand_ipv4_def empty_groups_def ipv6_layout_def parse_hextet_def hexval_def upt_rec is_digit_def)
  show ?thesis
    unfolding ipv6_refused_iff [OF a] ipv6_refused_iff [OF b]
    by (simp add: v6_refused_def v6_special_def)
qed

text \<open>The URL check passes exactly an http or https URL whose host resolved to at least one address,
  none of them refused.\<close>

lemma check_ok_iff:
  "acheck_url dns url = Inr None \<longleftrightarrow>
     (\<exists>p host a as. urlparse url = Inr p \<and> u_scheme p \<in> {''http'', ''https''} \<and> u_hostname p = Some host
        \<and> dns host = Inr (a # as) \<and> (\<forall>x \<in> set (a # as). \<not> is_forbidden_address x))"
proof -
  have f: "forbidden_address xs = None \<longleftrightarrow> (\<forall>x \<in> set xs. \<not> is_forbidden_address x)" for xs
    by (simp add: forbidden_address_def find_None_iff Ball_def)
  have g: "(\<exists>b. forbidden_address xs = Some b) \<longleftrightarrow> (\<exists>x \<in> set xs. is_forbidden_address x)" for xs
    using f [of xs] by auto
  show ?thesis
    by (auto simp: acheck_url_def f g split: sum.splits option.splits exn.splits list.splits)
qed

end
