(* ===== verification/Webhook.thy ===== *)
theory Webhook
  imports Netguard Outbox_Props Secrets Delivery
begin

section \<open>The webhook channel (\<open>channels/webhook.py\<close>)\<close>

text \<open>
  Delivery of a notification to a principal's webhook: the target's addresses are checked before
  the secret is resolved and again before every attempt, the body is signed, and failed attempts
  are repeated after a pause.  \<open>dns k\<close> is what the \<open>k\<close>-th lookup gives, \<open>post k\<close> the outcome of
  the \<open>k\<close>-th POST (\<open>None\<close>: the task is cancelled while it waits for it; cancellation while it
  sleeps or looks up is not modelled), \<open>etext\<close> the \<open>str\<close> of an exception.  A delivery returns what
  awaiting it gives, the trace of its steps and the secret cache it leaves.
\<close>

datatype hook_step =
    Checked nat "string option res"
  | Hook_post string bytes "(string \<times> string) list"
  | Hook_sleep rat

record webhook =
  wh_max_retries :: int
  wh_backoff :: "rat list"

definition new_webhook :: webhook where
  "new_webhook = \<lparr>wh_max_retries = 3, wh_backoff = [1, 4, 16]\<rparr>"

definition unsafe_target :: "string \<Rightarrow> dict" where
  "unsafe_target url_err =
     [(''status'', VStr ''failed''), (''error'', VStr (''unsafe target: '' @ url_err))]"

definition gave_up :: "int option \<Rightarrow> string option \<Rightarrow> dict" where
  "gave_up http err =
     [(''status'', VStr ''failed''), (''http_status'', opt_int http), (''error'', opt_str err)]"

text \<open>\<open>n\<close> attempts are left, the next is number \<open>attempt\<close>; its lookup is number \<open>attempt + 1\<close>.\<close>

fun hook_attempts ::
  "(exn \<Rightarrow> string) \<Rightarrow> webhook \<Rightarrow> (nat \<Rightarrow> string \<Rightarrow> string list res) \<Rightarrow> (nat \<Rightarrow> post_outcome option) \<Rightarrow>
   string \<Rightarrow> bytes \<Rightarrow> (string \<times> string) list \<Rightarrow> nat \<Rightarrow> nat \<Rightarrow> string option \<Rightarrow> int option \<Rightarrow>
   chan_outcome \<times> hook_step list" where
  "hook_attempts etext wh dns post url body headers attempt 0 err http = (Result (gave_up http err), [])"
| "hook_attempts etext wh dns post url body headers attempt (Suc n) err http =
     (let check = acheck_url (dns (Suc attempt)) url in
      case check of
        Inl e \<Rightarrow> (Chan_raised (etext e), [Checked (Suc attempt) check])
      | Inr (Some url_err) \<Rightarrow> (Result (unsafe_target url_err), [Checked (Suc attempt) check])
      | Inr None \<Rightarrow>
          (let sent = [Checked (Suc attempt) check, Hook_post url body headers] in
           case post attempt of
             None \<Rightarrow> (Cancelled, sent)
           | Some outcome \<Rightarrow>
               (let (done, err', http') =
                  (case outcome of
                     Response status \<Rightarrow>
                       if 200 \<le> status \<and> status < 300 then (Some status, err, http)
                       else (None, Some (''HTTP '' @ int_str status), Some status)
                   | Raised txt cls timeout \<Rightarrow>
                       (None, Some (if timeout then ''webhook timed out''
                                    else if txt \<noteq> [] then txt else cls), None))
                in case done of
                     Some status \<Rightarrow>
                       (Result [(''status'', VStr ''delivered''), (''http_status'', VInt status)], sent)
                   | None \<Rightarrow>
                       if n = 0 then (Result (gave_up http' err'), sent)
                       else
                         (case backoff_delay (wh_backoff wh) (int attempt) of
                            None \<Rightarrow> (Chan_raised (etext IndexError), sent)
                          | Some delay \<Rightarrow>
                              (case hook_attempts etext wh dns post url body headers (Suc attempt) n err' http' of
                                 (r, steps) \<Rightarrow> (r, sent @ Hook_sleep delay # steps))))))"

definition hook_headers :: "(bytes \<Rightarrow> bytes \<Rightarrow> bytes) \<Rightarrow> bytes \<Rightarrow> bytes \<Rightarrow> dict \<Rightarrow> (string \<times> string) list" where
  "hook_headers hmac secret body event =
     [(''Content-Type'', ''application/json''),
      (''X-AgentWake-Signature'', signature_header hmac secret body),
      (''Idempotency-Key'', get_str event ''event_id'' [])]"

text \<open>\<open>url\<close> and \<open>secret_uri\<close> are the channel's two entries, strings by the config's validation.\<close>

definition webhook_deliver ::
  "(exn \<Rightarrow> string) \<Rightarrow> (bytes \<Rightarrow> bytes \<Rightarrow> bytes) \<Rightarrow> (nat \<Rightarrow> string \<Rightarrow> string list res) \<Rightarrow>
   (nat \<Rightarrow> post_outcome option) \<Rightarrow> webhook \<Rightarrow> world \<Rightarrow> pytime \<Rightarrow> dict \<Rightarrow> string \<Rightarrow> string \<Rightarrow>
   secret_cache \<Rightarrow> chan_outcome \<times> hook_step list \<times> secret_cache" where
  "webhook_deliver etext hmac dns post wh W clk event url secret_uri C =
     (let check = acheck_url (dns 0) url in
      case check of
        Inl e \<Rightarrow> (Chan_raised (etext e), [Checked 0 check], C)
      | Inr (Some url_err) \<Rightarrow> (Result (unsafe_target url_err), [Checked 0 check], C)
      | Inr None \<Rightarrow>
          (case resolve_secret W clk secret_uri C of
             (Inl e, C') \<Rightarrow>
               (Result [(''status'', VStr ''failed''), (''error'', VStr (''secret resolve failed: '' @ etext e))],
                [Checked 0 check], C')
           | (Inr secret, C') \<Rightarrow>
               (case dumps (VDict event) of
                  Inl e \<Rightarrow> (Chan_raised (etext e), [Checked 0 check], C')
                | Inr body \<Rightarrow>
                    (case hook_attempts etext wh dns post url body (hook_headers hmac secret body event) 0
                            (nat (wh_max_retries wh)) None None of
                       (r, steps) \<Rightarrow> (r, Checked 0 check # steps, C')))))"

text \<open>The URL as it is logged.\<close>

fun find_sub :: "string \<Rightarrow> string \<Rightarrow> nat option" where
  "find_sub pat [] = (if pat = [] then Some 0 else None)"
| "find_sub pat (c # s) = (if startswith (c # s) pat then Some 0 else map_option Suc (find_sub pat s))"

definition redact_url :: "string \<Rightarrow> string" where
  "redact_url url =
     (if CHR ''@'' \<in> set url then
        (case find_sub ''://'' url of
           Some (Suc n) \<Rightarrow>
             (let rest = drop (Suc n + 3) url in
              case find_sub ''@'' rest of
                Some (Suc m) \<Rightarrow> take (Suc n + 3) url @ ''***@'' @ drop (Suc m + 1) rest
              | _ \<Rightarrow> url)
         | _ \<Rightarrow> url)
      else url)"

end
