(* ===== verification/Webhook_Props.thy ===== *)
theory Webhook_Props
  imports Webhook
begin

section \<open>What a webhook delivery does\<close>

text \<open>
  Every POST follows at once on a check of that attempt's own lookup; the signature verifies
  against the bytes that are sent; the result says what the last attempt gave; the logged URL
  hides the user information.
\<close>

text \<open>Each POST comes right after a lookup that passed, whose check is the one recorded.\<close>

fun posts_checked :: "(nat \<Rightarrow> string \<Rightarrow> string list res) \<Rightarrow> string \<Rightarrow> bool \<Rightarrow> hook_step list \<Rightarrow> bool" where
  "posts_checked dns url ok [] = True"
| "posts_checked dns url ok (Checked k c # steps) =
     (c = acheck_url (dns k) url \<and> posts_checked dns url (c = Inr None) steps)"
| "posts_checked dns url ok (Hook_post u b h # steps) = (ok \<and> u = url \<and> posts_checked dns url False steps)"
| "posts_checked dns url ok (Hook_sleep d # steps) = posts_checked dns url False steps"

lemma hook_attempts_checked:
  "posts_checked dns url ok (snd (hook_attempts etext wh dns post url body headers attempt n err http))"
proof (induction n arbitrary: ok attempt err http)
  case (Suc n)
  have IH: "posts_checked dns url False steps"
    if "hook_attempts etext wh dns post url body headers (Suc attempt) n e h = (r, steps)" for e h r steps
    using Suc.IH [of False "Suc attempt" e h] that by simp
  show ?case
    by (auto simp: Let_def IH split: sum.split option.split post_outcome.split prod.split)
qed simp

lemma webhook_deliver_checked:
  "posts_checked dns url ok (fst (snd (webhook_deliver etext hmac dns post wh W clk event url suri C)))"
proof -
  have IH: "posts_checked dns url True steps"
    if "hook_attempts etext wh dns post url b hs 0 n None None = (r, steps)" for b hs n r steps
    using hook_attempts_checked [of dns url True etext wh post b hs 0 n None None] that by simp
  show ?thesis
    by (auto simp: webhook_deliver_def Let_def IH split: sum.split option.split prod.split)
qed

lemma posts_checked_split:
  "posts_checked dns url ok (xs @ Hook_post u b h # ys) \<Longrightarrow>
   u = url \<and> (xs = [] \<and> ok \<or> (\<exists>xs' k. xs = xs' @ [Checked k (Inr None)] \<and> acheck_url (dns k) url = Inr None))"
proof (induction xs arbitrary: ok)
  case (Cons x xs)
  show ?case
  proof (cases x)
    case (Checked k c)
    with Cons.prems have c: "c = acheck_url (dns k) url" "posts_checked dns url (c = Inr None) (xs @ Hook_post u b h # ys)"
      by auto
    show ?thesis
    proof (cases xs)
      case Nil
      then show ?thesis using c Checked by simp
    next
      case (Cons y ys')
      then show ?thesis using Cons.IH [OF c(2)] by (metis append_Cons list.distinct(1))
    qed
  next
    case (Hook_post u' b' h')
    with Cons.prems have "posts_checked dns url False (xs @ Hook_post u b h # ys)" by simp
    from Cons.IH [OF this] show ?thesis by (metis append_Cons)
  next
    case (Hook_sleep d)
    with Cons.prems have "posts_checked dns url False (xs @ Hook_post u b h # ys)" by simp
    from Cons.IH [OF this] show ?thesis by (metis append_Cons)
  qed
qed simp

text \<open>Claim C16: every request of a delivery goes to the configured URL and comes right after a lookup of
  its host, made for that attempt, that gave at least one address and none in a refused range.\<close>

theorem posts_follow_a_fresh_check:
  assumes "webhook_deliver etext hmac dns post wh W clk event url suri C = (r, xs @ Hook_post u b h # ys, C')"
  shows "u = url \<and> (\<exists>xs' k p host a as. xs = xs' @ [Checked k (Inr None)] \<and> urlparse url = Inr p
     \<and> u_scheme p \<in> {''http'', ''https''} \<and> u_hostname p = Some host \<and> dns k host = Inr (a # as)
     \<and> (\<forall>x \<in> set (a # as). \<not> is_forbidden_address x))"
proof -
  have "posts_checked dns url False (xs @ Hook_post u b h # ys)"
    using webhook_deliver_checked [of dns url False etext hmac post wh W clk event suri C] assms by simp
  from posts_checked_split [OF this] obtain xs' k where
    k: "u = url" "xs = xs' @ [Checked k (Inr None)]" "acheck_url (dns k) url = Inr None" by blast
  from check_ok_iff [THEN iffD1, OF k(3)] obtain p host a as where
    "urlparse url = Inr p" "u_scheme p \<in> {''http'', ''https''}" "u_hostname p = Some host"
    "dns k host = Inr (a # as)" "\<forall>x \<in> set (a # as). \<not> is_forbidden_address x" by blast
  with k show ?thesis by blast
qed

lemma hook_attempts_post:
  "Hook_post u b h \<in> set (snd (hook_attempts etext wh dns post url body headers attempt n err http)) \<Longrightarrow>
   b = body \<and> h = headers"
proof (induction n arbitrary: attempt err http)
  case (Suc n)
  have IH: "b = body \<and> h = headers"
    if "hook_attempts etext wh dns post url body headers (Suc attempt) n e t = (r, steps)"
       "Hook_post u b h \<in> set steps" for e t r steps
    using Suc.IH [of "Suc attempt" e t] that by simp
  show ?case
    using Suc.prems
    by (auto simp: Let_def split: sum.splits option.splits post_outcome.splits prod.splits if_splits dest: IH)
qed simp

text \<open>The request carries the event as JSON and a signature that verifies, as inbound ones do,
  under the secret the resolver gave; a target that fails the first check costs no secret.\<close>

theorem webhook_signed:
  assumes "webhook_deliver etext hmac dns post wh W clk event url suri C = (r, steps, C')"
  shows "(\<forall>u b h. Hook_post u b h \<in> set steps \<longrightarrow>
      (\<exists>secret sig. fst (resolve_secret W clk suri C) = Inr secret \<and> dumps (VDict event) = Inr b
         \<and> dget h ''X-AgentWake-Signature'' = Some sig \<and> verify_signature hmac b secret sig))
    \<and> (acheck_url (dns 0) url \<noteq> Inr None \<longrightarrow> C' = C)"
proof (cases "acheck_url (dns 0) url = Inr None")
  case False
  then have "steps = [Checked 0 (acheck_url (dns 0) url)] \<and> C' = C"
    using assms by (auto simp: webhook_deliver_def Let_def split: sum.splits option.splits)
  then show ?thesis by auto
next
  case True
  obtain res C1 where res: "resolve_secret W clk suri C = (res, C1)" by (metis surj_pair)
  show ?thesis
  proof (cases res)
    case (Inl e)
    then show ?thesis using assms True res by (auto simp: webhook_deliver_def)
  next
    case (Inr secret)
    show ?thesis
    proof (cases "dumps (VDict event)")
      case (Inl e)
      then show ?thesis using assms True res Inr by (auto simp: webhook_deliver_def)
    next
      case (Inr body)
      let ?h = "hook_headers hmac secret body event"
      obtain r' steps' where run:
        "hook_attempts etext wh dns post url body ?h 0 (nat (wh_max_retries wh)) None None = (r', steps')"
        by (metis surj_pair)
      have st: "steps = Checked 0 (Inr None) # steps'"
        using assms True res Inr \<open>res = Inr secret\<close> run by (simp add: webhook_deliver_def)
      have "b = body \<and> h = ?h" if "Hook_post u b h \<in> set steps" for u b h
        using hook_attempts_post [of u b h etext wh dns post url body ?h 0 "nat (wh_max_retries wh)" None None] that
        by (simp add: st run)
      moreover have "dget ?h ''X-AgentWake-Signature'' = Some (signature_header hmac secret body)"
        by (simp add: hook_headers_def)
      moreover have "verify_signature hmac body secret (signature_header hmac secret body)"
        by (rule verify_own_signature)
      ultimately show ?thesis using True res Inr \<open>res = Inr secret\<close> by fastforce
    qed
  qed
qed

definition demo_url :: string where "demo_url = ''https://hook.example/x''"

definition demo_dns :: "nat \<Rightarrow> string \<Rightarrow> string list res" where
  "demo_dns k host = (if k < 3 then Inr [''93.184.216.34''] else Inr [''93.184.216.34'', ''::ffff:169.254.169.254''])"

definition demo_post :: "nat \<Rightarrow> post_outcome option" where
  "demo_post k = (if k = 0 then Some (Response 503) else if k = 1 then Some (Response 200) else None)"

definition hook_demo_world :: world where
  "hook_demo_world = \<lparr>w_env = (\<lambda>n. if n = ''K'' then Some ''key'' else None), w_vault = None,
     w_unquote = (\<lambda>s. s), w_float = (\<lambda>_. None)\<rparr>"

definition hook_demo_event :: dict where "hook_demo_event = [(''event_id'', VStr ''e1'')]"

lemma demo_check: "k < 3 \<Longrightarrow> acheck_url (demo_dns k) demo_url = Inr None"
proof -
  have "ip_address ''93.184.216.34'' = Some (V4 0x5DB8D822)"
    by (simp add: ip_address_def parse_ipv4_def parse_octet_def ipv4_word_def is_digit_def)
  then have "\<not> is_forbidden_address ''93.184.216.34''"
    by (simp add: is_forbidden_refused unwrap_mapped_def refused_v4 v4_refused_def)
  moreover have "urlparse demo_url = Inr \<lparr>u_scheme = ''https'', u_netloc = ''hook.example'', u_path = ''/x'',
      u_query = [], u_fragment = []\<rparr>"
    unfolding demo_url_def by code_simp
  moreover have "u_hostname \<lparr>u_scheme = ''https'', u_netloc = ''hook.example'', u_path = ''/x'',
      u_query = [], u_fragment = []\<rparr> = Some ''hook.example''"
    by code_simp
  moreover assume "k < 3"
  ultimately show ?thesis by (simp add: check_ok_iff demo_dns_def)
qed

lemma demo_secret: "resolve_secret hook_demo_world 0 ''env://K'' [] = (Inr ''key'', [(''env://K'', ''key'', None)])"
  unfolding hook_demo_world_def by code_simp

text \<open>The first attempt is answered 503, the second 200.\<close>

definition demo_request :: hook_step where
  "demo_request = Hook_post demo_url (dumps_text (VDict hook_demo_event))
     (hook_headers (\<lambda>k b. k @ b) ''key'' (dumps_text (VDict hook_demo_event)) hook_demo_event)"

lemma hook_demo_run:
  "webhook_deliver (\<lambda>_. []) (\<lambda>k b. k @ b) demo_dns demo_post new_webhook hook_demo_world 0 hook_demo_event demo_url
     ''env://K'' [] =
   (Result [(''status'', VStr ''delivered''), (''http_status'', VInt 200)],
    [Checked 0 (Inr None), Checked 1 (Inr None), demo_request, Hook_sleep 1, Checked 2 (Inr None)] @ demo_request # [],
    [(''env://K'', ''key'', None)])"
proof -
  have d: "dumps (VDict hook_demo_event) = Inr (dumps_text (VDict hook_demo_event))"
    by (simp add: dumps_def hook_demo_event_def)
  show ?thesis
    by (simp add: webhook_deliver_def demo_secret demo_check d new_webhook_def numeral_eq_Suc demo_post_def
        demo_request_def backoff_delay_def Let_def del: dumps_text.simps)
qed

theorem posts_follow_a_fresh_check_witness:
  "\<exists>k host. demo_dns k host = Inr [''93.184.216.34'']
     \<and> [Checked 0 (Inr None), Checked 1 (Inr None), demo_request, Hook_sleep 1, Checked 2 (Inr None)]
        = [Checked 0 (Inr None), Checked 1 (Inr None), demo_request, Hook_sleep 1] @ [Checked k (Inr None)]"
proof -
  from posts_follow_a_fresh_check [OF hook_demo_run [unfolded demo_request_def]] obtain xs' k p host a as where
    "[Checked 0 (Inr None), Checked 1 (Inr None), demo_request, Hook_sleep 1, Checked 2 (Inr None)]
       = xs' @ [Checked k (Inr None)]" "demo_dns k host = Inr (a # as)"
    unfolding demo_request_def by blast
  then have "k = 2" by (metis append.assoc append_Cons append_Nil last_snoc hook_step.inject(1) append_butlast_last_id last.simps list.distinct(1))
  then have "demo_dns k host = Inr [''93.184.216.34'']" by (simp add: demo_dns_def)
  with \<open>k = 2\<close> show ?thesis by auto
qed

theorem webhook_signed_witness:
  "\<exists>secret sig. fst (resolve_secret hook_demo_world 0 ''env://K'' []) = Inr secret
     \<and> verify_signature (\<lambda>k b. k @ b) (dumps_text (VDict hook_demo_event)) secret sig"
  using webhook_signed [OF hook_demo_run, THEN conjunct1, rule_format, of demo_url
      "dumps_text (VDict hook_demo_event)" "hook_headers (\<lambda>k b. k @ b) ''key'' (dumps_text (VDict hook_demo_event)) hook_demo_event"]
  by (auto simp: demo_request_def)

subsection \<open>Results\<close>

definition accepted_2xx :: "post_outcome option \<Rightarrow> bool" where
  "accepted_2xx out = (case out of Some (Response s) \<Rightarrow> 200 \<le> s \<and> s < 300 | _ \<Rightarrow> False)"

definition is_post :: "hook_step \<Rightarrow> bool" where
  "is_post st = (case st of Hook_post _ _ _ \<Rightarrow> True | _ \<Rightarrow> False)"

definition n_posts :: "hook_step list \<Rightarrow> nat" where
  "n_posts steps = length (filter is_post steps)"

definition said_delivered :: "chan_outcome \<Rightarrow> bool" where
  "said_delivered r = (case r of Result d \<Rightarrow> status_is ''delivered'' d | _ \<Rightarrow> False)"

lemma is_post_simps [simp]: "is_post (Hook_post u b h)" "\<not> is_post (Checked k c)" "\<not> is_post (Hook_sleep d)"
  by (simp_all add: is_post_def)

lemma n_posts_simps [simp]:
  "n_posts [] = 0" "n_posts (st # steps) = (if is_post st then Suc (n_posts steps) else n_posts steps)"
  by (simp_all add: n_posts_def)

lemma said_delivered_simps [simp]:
  "\<not> said_delivered (Result (gave_up http err))" "\<not> said_delivered (Result (unsafe_target e))"
  "\<not> said_delivered (Chan_raised e)" "\<not> said_delivered Cancelled"
  "said_delivered (Result [(''status'', VStr ''delivered''), (''http_status'', v)])"
  "\<not> said_delivered (Result [(''status'', VStr ''failed''), (''error'', v)])"
  by (simp_all add: said_delivered_def gave_up_def unsafe_target_def status_is_def)

lemma hook_attempts_result:
  assumes "hook_attempts etext wh dns post url body headers attempt n err http = (r, steps)"
  shows "n_posts steps \<le> n \<and>
    (said_delivered r \<longleftrightarrow>
       steps \<noteq> [] \<and> is_post (last steps) \<and> accepted_2xx (post (attempt + n_posts steps - 1)))"
  using assms
proof (induction n arbitrary: attempt err http r steps)
  case (Suc n)
  show ?case
  proof (cases "acheck_url (dns (Suc attempt)) url")
    case (Inl e)
    then show ?thesis using Suc.prems by (auto simp: Let_def)
  next
    case (Inr c)
    show ?thesis
    proof (cases c)
      case (Some e)
      then show ?thesis using Inr Suc.prems by (auto simp: Let_def)
    next
      case None
      show ?thesis
      proof (cases "accepted_2xx (post attempt)")
        case True
        then show ?thesis using Inr None Suc.prems
          by (auto simp: Let_def accepted_2xx_def split: option.splits post_outcome.splits)
      next
        case False
        show ?thesis
        proof (cases "\<exists>e t d rest. post attempt \<noteq> None \<and> n \<noteq> 0
            \<and> hook_attempts etext wh dns post url body headers (Suc attempt) n e t = (r, rest)
            \<and> steps = [Checked (Suc attempt) (Inr None), Hook_post url body headers] @ Hook_sleep d # rest")
          case True
          then obtain d rest e t where
            "hook_attempts etext wh dns post url body headers (Suc attempt) n e t = (r, rest)"
            "steps = [Checked (Suc attempt) (Inr None), Hook_post url body headers] @ Hook_sleep d # rest"
            by blast
          with Suc.IH [OF this(1)] show ?thesis by auto
        next
          case notrec: False
          then show ?thesis using Inr None False Suc.prems
            by (auto simp: Let_def accepted_2xx_def split: option.splits post_outcome.splits if_splits prod.splits)
        qed
      qed
    qed
  qed
qed simp

text \<open>A delivery makes at most as many requests as retries are configured, and reports
  \<open>delivered\<close> exactly when its last step is a request that was answered with a 2xx status.\<close>

theorem webhook_delivered_iff:
  assumes "webhook_deliver etext hmac dns post wh W clk event url suri C = (r, steps, C')"
  shows "n_posts steps \<le> nat (wh_max_retries wh) \<and>
    (said_delivered r \<longleftrightarrow> is_post (last steps) \<and> accepted_2xx (post (n_posts steps - 1)))"
proof -
  have k: "n_posts rest \<le> nat (wh_max_retries wh) \<and>
      (said_delivered q \<longleftrightarrow> is_post (last (Checked 0 c # rest)) \<and> accepted_2xx (post (n_posts rest - 1)))"
    if "hook_attempts etext wh dns post url b hs 0 (nat (wh_max_retries wh)) None None = (q, rest)" for b hs q rest c
    using hook_attempts_result [OF that] by (cases rest) auto
  show ?thesis
  proof (cases "\<exists>b hs rest. steps = Checked 0 (Inr None) # rest
      \<and> hook_attempts etext wh dns post url b hs 0 (nat (wh_max_retries wh)) None None = (r, rest)")
    case True
    then obtain b hs rest where st: "steps = Checked 0 (Inr None) # rest"
      and "hook_attempts etext wh dns post url b hs 0 (nat (wh_max_retries wh)) None None = (r, rest)" by blast
    with k [of b hs r rest "Inr None"] show ?thesis unfolding st by (simp del: last.simps)
  next
    case False
    then show ?thesis using assms
      by (auto simp: webhook_deliver_def Let_def split: sum.splits option.splits prod.splits)
  qed
qed

theorem webhook_delivered_iff_witness:
  "said_delivered (Result [(''status'', VStr ''delivered''), (''http_status'', VInt 200)])
   \<and> accepted_2xx (demo_post 1)"
proof -
  have "n_posts ([Checked 0 (Inr None), Checked 1 (Inr None), demo_request, Hook_sleep 1, Checked 2 (Inr None)]
      @ demo_request # []) = 2"
    by (simp add: demo_request_def)
  moreover note webhook_delivered_iff [OF hook_demo_run]
  ultimately have "accepted_2xx (demo_post (2 - 1))" by (simp del: n_posts_simps append.simps)
  then show ?thesis by simp
qed

subsection \<open>Logged URLs\<close>

lemma find_sub_skip:
  "\<forall>n < length a. \<not> startswith (drop n (a @ b)) pat \<Longrightarrow> startswith b pat \<Longrightarrow> find_sub pat (a @ b) = Some (length a)"
proof (induction a)
  case Nil
  then show ?case by (cases b) (auto simp: startswith_def)
next
  case (Cons c a)
  from Cons.prems(1) have "\<not> startswith (c # a @ b) pat" by fastforce
  moreover have "\<forall>n < length a. \<not> startswith (drop n (a @ b)) pat" using Cons.prems(1) by fastforce
  ultimately show ?case using Cons.IH Cons.prems(2) by simp
qed

lemma find_sub_char:
  assumes "c \<notin> set a"
  shows "find_sub (c # pat) (a @ (c # pat) @ b) = Some (length a)"
proof (rule find_sub_skip)
  show "\<forall>n < length a. \<not> startswith (drop n (a @ (c # pat) @ b)) (c # pat)"
  proof (intro allI impI notI)
    fix n assume n: "n < length a" and "startswith (drop n (a @ (c # pat) @ b)) (c # pat)"
    then have "hd (drop n (a @ (c # pat) @ b)) = c"
      by (metis hd_append2 startswith_def append_take_drop_id list.distinct(1) list.sel(1))
    moreover have "hd (drop n (a @ (c # pat) @ b)) = a ! n" using n by (simp add: hd_drop_conv_nth nth_append)
    ultimately show False using n assms by (metis nth_mem)
  qed
  show "startswith ((c # pat) @ b) (c # pat)" by (simp add: startswith_def)
qed

text \<open>The log shows a URL without its user information, as long as that holds no \<open>@\<close> of its own;
  of a password with one, the part behind its first \<open>@\<close> is logged.\<close>

theorem redacted_user_info:
  assumes "CHR '':'' \<notin> set scheme" "scheme \<noteq> []" "CHR ''@'' \<notin> set user" "user \<noteq> []"
  shows "redact_url (scheme @ ''://'' @ user @ ''@'' @ rest) = scheme @ ''://'' @ ''***@'' @ rest"
proof -
  obtain n m where nm: "length scheme = Suc n" "length user = Suc m" using assms(2,4) by (cases scheme; cases user) auto
  have "find_sub ''://'' (scheme @ ''://'' @ user @ ''@'' @ rest) = Some (Suc n)"
    using find_sub_char [OF assms(1), of "''//''" "user @ ''@'' @ rest"] nm by simp
  moreover have "find_sub ''@'' (user @ ''@'' @ rest) = Some (Suc m)"
    using find_sub_char [OF assms(3), of "[]" rest] nm by simp
  moreover have "drop (Suc n + 3) (scheme @ ''://'' @ user @ ''@'' @ rest) = user @ ''@'' @ rest"
    "take (Suc n + 3) (scheme @ ''://'' @ user @ ''@'' @ rest) = scheme @ ''://''"
    "drop (Suc m + 1) (user @ ''@'' @ rest) = rest"
    using nm by simp_all
  ultimately show ?thesis by (simp add: redact_url_def Let_def del: drop_append take_append)
qed

theorem redacted_user_info_witness:
  "redact_url ''https://u:pw@hook.example/x'' = ''https://***@hook.example/x''"
  using redacted_user_info [of "''https''" "''u:pw''" "''hook.example/x''"] by simp

lemma redaction_leaks_password_tail:
  "redact_url ''https://u:p@ss@hook.example/x'' = ''https://***@ss@hook.example/x''"
  by code_simp

end
