(* ===== verification/Config.thy ===== *)
theory Config
  imports Netguard Addressing
begin

section \<open>Loading the configuration (\<open>config.py\<close>)\<close>

text \<open>
  \<open>load_config\<close> validates a config file of either vocabulary and normalises it to the four tables
  the daemon reads (senders, principals, destinations, routes).  A \<open>ConfigError\<close> is \<open>Config_error\<close> with
  the place in the file it complains about (the wording is not modelled); any other exception is
  \<open>Crash\<close>.  \<open>dns\<close> is \<open>getaddrinfo\<close> reduced to its addresses.  JSON objects have distinct keys.
  JSON's \<open>NaN\<close> and \<open>Infinity\<close> are not values of the model.
\<close>

datatype refusal = Config_error string | Crash exn

type_synonym 'a checked = "refusal + 'a"

text \<open>Sequencing, a guard, and a loop that stops at the first refusal.\<close>

definition chain :: "'a checked \<Rightarrow> ('a \<Rightarrow> 'b checked) \<Rightarrow> 'b checked" where
  "chain m f = (case m of Inl e \<Rightarrow> Inl e | Inr x \<Rightarrow> f x)"

definition demand :: "bool \<Rightarrow> string \<Rightarrow> 'a checked \<Rightarrow> 'a checked" where
  "demand ok what k = (if ok then k else Inl (Config_error what))"

fun each :: "('a \<Rightarrow> 'b checked) \<Rightarrow> 'a list \<Rightarrow> 'b list checked" where
  "each f [] = Inr []"
| "each f (x # xs) = chain (f x) (\<lambda>y. chain (each f xs) (\<lambda>ys. Inr (y # ys)))"

text \<open>\<open>d.get(k)\<close> and \<open>d.get(k, default)\<close>.\<close>

definition getv :: "dict \<Rightarrow> string \<Rightarrow> pyval" where
  "getv d k = opt_val (dget d k)"

definition getd :: "dict \<Rightarrow> string \<Rightarrow> pyval \<Rightarrow> pyval" where
  "getd d k dflt = (case dget d k of None \<Rightarrow> dflt | Some v \<Rightarrow> v)"

fun nonempty_str :: "pyval \<Rightarrow> bool" where
  "nonempty_str (VStr s) = (s \<noteq> [])"
| "nonempty_str _ = False"

fun is_dict :: "pyval \<Rightarrow> bool" where
  "is_dict (VDict _) = True"
| "is_dict _ = False"

fun dict_items :: "pyval \<Rightarrow> dict" where
  "dict_items (VDict d) = d"
| "dict_items _ = []"

fun positive_int :: "pyval \<Rightarrow> bool" where
  "positive_int (VInt i) = (0 < i)"
| "positive_int _ = False"

fun port_number :: "pyval \<Rightarrow> bool" where
  "port_number (VInt i) = (1 \<le> i \<and> i \<le> 65535)"
| "port_number _ = False"

definition absent_or :: "(pyval \<Rightarrow> bool) \<Rightarrow> pyval \<Rightarrow> bool" where
  "absent_or p v \<longleftrightarrow> v = VNone \<or> p v"

subsection \<open>Secret URIs\<close>

definition VALID_SCHEMES :: "string list" where "VALID_SCHEMES = [''env'', ''vault'']"

definition parse_uri :: "string \<Rightarrow> string \<Rightarrow> string checked" where
  "parse_uri uri source_name =
     (case urlparse uri of
        Inl _ \<Rightarrow> Inl (Config_error source_name)
      | Inr p \<Rightarrow>
          demand (u_scheme p \<in> set VALID_SCHEMES) source_name
            (demand (u_netloc p \<noteq> [] \<or> u_path p \<noteq> []) source_name (Inr uri)))"

definition has_vault_uri :: "string list \<Rightarrow> bool" where
  "has_vault_uri uris = list_ex (\<lambda>u. startswith u ''vault://'') uris"

subsection \<open>The \<open>wake\<close>, \<open>listen\<close>, \<open>state\<close> and \<open>vault\<close> blocks\<close>

definition DEFAULT_INGEST_RATE_LIMIT :: pyval where
  "DEFAULT_INGEST_RATE_LIMIT = VFloat 10 ''10.0''"
definition DEFAULT_INGEST_RATE_BURST :: pyval where
  "DEFAULT_INGEST_RATE_BURST = VInt 20"

definition wake_secret_ok :: "pyval \<Rightarrow> bool" where
  "wake_secret_ok v =
     (let values = (case v of VStr s \<Rightarrow> [VStr s] | VList vs \<Rightarrow> vs | _ \<Rightarrow> []) in
      values \<noteq> []
      \<and> list_all (\<lambda>x. case x of VStr s \<Rightarrow> strip s \<noteq> [] | _ \<Rightarrow> False) values
      \<and> list_ex (\<lambda>x. list_ex (\<lambda>part. strip part \<noteq> []) (split_on (CHR '','') (py_str x))) values)"

fun positive_number :: "pyval \<Rightarrow> bool" where
  "positive_number (VInt i) = (0 < i)"
| "positive_number (VFloat r _) = (0 < r)"
| "positive_number _ = False"

text \<open>\<open>float(rate)\<close>: integers beyond the largest double overflow; smaller ones are taken as exact.\<close>

fun to_float :: "pyval \<Rightarrow> pyval checked" where
  "to_float (VInt i) =
     (if 2 ^ 1024 - 2 ^ 970 \<le> i then Inl (Crash (OtherError ''OverflowError''))
      else Inr (VFloat (of_int i) (int_str i @ ''.0'')))"
| "to_float v = Inr v"

definition validate_wake_block :: "pyval \<Rightarrow> dict checked" where
  "validate_wake_block raw =
     (case raw of
        VNone \<Rightarrow> Inr [(''ingest_rate_limit'', DEFAULT_INGEST_RATE_LIMIT),
                      (''ingest_rate_burst'', DEFAULT_INGEST_RATE_BURST)]
      | VDict d \<Rightarrow>
          (let secret = getv d ''hmac_secret'';
               rate = getd d ''ingest_rate_limit'' DEFAULT_INGEST_RATE_LIMIT;
               burst = getd d ''ingest_rate_burst'' DEFAULT_INGEST_RATE_BURST
           in demand (absent_or wake_secret_ok secret) ''wake.hmac_secret''
                (demand (positive_number rate) ''wake.ingest_rate_limit''
                  (demand (positive_int burst) ''wake.ingest_rate_burst''
                    (chain (to_float rate) (\<lambda>r.
                      Inr ([(''ingest_rate_limit'', r), (''ingest_rate_burst'', burst)]
                           @ (if secret = VNone then [] else [(''hmac_secret'', secret)])))))))
      | _ \<Rightarrow> Inl (Config_error ''wake''))"

definition validate_listen_block :: "pyval \<Rightarrow> dict checked" where
  "validate_listen_block listen =
     (case listen of
        VNone \<Rightarrow> Inr []
      | VDict d \<Rightarrow>
          demand (absent_or nonempty_str (getv d ''host'')) ''listen.host''
            (demand (absent_or port_number (getv d ''port'')) ''listen.port'' (Inr d))
      | _ \<Rightarrow> Inl (Config_error ''listen''))"

definition VALID_DELIVERY :: "string list" where
  "VALID_DELIVERY = [''live_only'', ''next_session'', ''managed_session'']"

definition STATE_INT_FIELDS :: "string list" where
  "STATE_INT_FIELDS =
     [''dedupe_ttl_seconds'', ''dedupe_max_rows'', ''pending_ttl_seconds'', ''pending_max_rows'',
      ''pending_max_attempts'', ''dead_letter_ttl_seconds'', ''dead_letter_max_rows'']"

text \<open>An entry of the result for a field that is given.\<close>

definition given :: "dict \<Rightarrow> string \<Rightarrow> dict" where
  "given d k = (if getv d k = VNone then [] else [(k, getv d k)])"

definition unhashable :: "pyval \<Rightarrow> bool" where
  "unhashable v = (case v of VList _ \<Rightarrow> True | VDict _ \<Rightarrow> True | _ \<Rightarrow> False)"

definition validate_state_block :: "pyval \<Rightarrow> dict checked" where
  "validate_state_block state =
     (case state of
        VNone \<Rightarrow> Inr []
      | VDict d \<Rightarrow>
          (let enabled = getd d ''enabled'' (VBool True); mode = getv d ''default_delivery'' in
           demand (absent_or nonempty_str (getv d ''dir'')) ''state.dir''
             (demand (case enabled of VBool _ \<Rightarrow> True | _ \<Rightarrow> False) ''state.enabled''
               (chain (each (\<lambda>f. demand (absent_or positive_int (getv d f)) (''state.'' @ f) (Inr f))
                         STATE_INT_FIELDS) (\<lambda>_.
                  if mode \<noteq> VNone \<and> unhashable mode then Inl (Crash TypeError)
                  else demand (absent_or (\<lambda>v. v \<in> VStr ` set VALID_DELIVERY) mode) ''state.default_delivery''
                    (Inr (given d ''dir'' @ [(''enabled'', enabled)]
                          @ concat (map (given d) STATE_INT_FIELDS) @ given d ''default_delivery''))))))
      | _ \<Rightarrow> Inl (Config_error ''state''))"

definition validate_vault_block :: "pyval \<Rightarrow> unit checked" where
  "validate_vault_block vault =
     (case vault of
        VDict d \<Rightarrow>
          demand (nonempty_str (getv d ''addr'')) ''vault.addr''
            (case getv d ''auth'' of
               VDict auth \<Rightarrow>
                 demand (getv auth ''method'' = VStr ''approle'') ''vault.auth.method''
                   (demand (nonempty_str (getv auth ''role_id'')) ''vault.auth.role_id''
                     (demand (nonempty_str (getv auth ''secret_id_file'')) ''vault.auth.secret_id_file''
                       (Inr ())))
             | _ \<Rightarrow> Inl (Config_error ''vault.auth''))
      | _ \<Rightarrow> Inl (Config_error ''vault''))"

subsection \<open>Delivery channels\<close>

text \<open>\<open>_assert_safe_webhook_url\<close>, with the scheme test before it: the first \<open>urlparse\<close> is outside
  any \<open>try\<close>.\<close>

definition safe_webhook_url :: "(string \<Rightarrow> string list res) \<Rightarrow> string \<Rightarrow> string \<Rightarrow> unit checked" where
  "safe_webhook_url dns pid url =
     (case urlparse url of
        Inl e \<Rightarrow> Inl (Crash e)
      | Inr p \<Rightarrow>
          demand (u_scheme p \<in> {''http'', ''https''}) (pid @ ''/webhook'')
            (case u_hostname p of
               None \<Rightarrow> Inl (Config_error (pid @ ''/webhook''))
             | Some host \<Rightarrow>
                 (case dns host of
                    Inl (OSError _) \<Rightarrow> Inl (Config_error (pid @ ''/webhook''))
                  | Inl e \<Rightarrow> Inl (Crash e)
                  | Inr addrs \<Rightarrow>
                      demand (addrs \<noteq> [] \<and> forbidden_address addrs = None) (pid @ ''/webhook'') (Inr ()))))"

definition validate_webhook_channel ::
  "(string \<Rightarrow> string list res) \<Rightarrow> dict \<Rightarrow> string \<Rightarrow> dict checked" where
  "validate_webhook_channel dns cfg pid =
     (let url = getv cfg ''url''; suri = getv cfg ''secret_uri'' in
      demand (nonempty_str url) (pid @ ''/webhook'')
        (chain (safe_webhook_url dns pid (py_str url)) (\<lambda>_.
          demand (nonempty_str suri) (pid @ ''/webhook'')
            (chain (parse_uri (py_str suri) (pid @ ''/webhook'')) (\<lambda>_.
              Inr [(''url'', url), (''secret_uri'', suri)])))))"

definition validate_email_channel :: "dict \<Rightarrow> string \<Rightarrow> dict checked" where
  "validate_email_channel cfg pid =
     (let port = getd cfg ''smtp_port'' (VInt 587); use_tls = getd cfg ''use_tls'' (VBool True);
          suri = getv cfg ''secret_uri''; lbl = pid @ ''/email''
      in chain (each (\<lambda>f. demand (nonempty_str (getv cfg f)) lbl (Inr (f, getv cfg f)))
                  [''smtp_host'', ''from_addr'', ''to_addr'']) (\<lambda>result.
           demand (port_number port) lbl
             (demand (case use_tls of VBool _ \<Rightarrow> True | _ \<Rightarrow> False) lbl
               (let result' = result @ [(''smtp_port'', port), (''use_tls'', use_tls)] in
                if suri = VNone then Inr result'
                else demand (nonempty_str suri) lbl
                  (chain (parse_uri (py_str suri) lbl) (\<lambda>_.
                    Inr (result' @ [(''secret_uri'', suri)])))))))"

definition validate_channel ::
  "(string \<Rightarrow> string list res) \<Rightarrow> string \<Rightarrow> dict \<Rightarrow> string \<Rightarrow> dict checked" where
  "validate_channel dns kind cfg pid =
     (if kind = ''webhook'' then validate_webhook_channel dns cfg pid
      else if kind = ''email'' then validate_email_channel cfg pid
      else Inl (Config_error pid))"

definition VALID_CHANNEL_KINDS :: "string list" where
  "VALID_CHANNEL_KINDS = [''webhook'', ''email'']"

definition validate_channels_for ::
  "(string \<Rightarrow> string list res) \<Rightarrow> string \<Rightarrow> dict \<Rightarrow> dict checked" where
  "validate_channels_for dns pid channels =
     each (\<lambda>(kind, cfg).
       demand (kind \<in> set VALID_CHANNEL_KINDS) pid
         (demand (is_dict cfg) pid
           (chain (validate_channel dns kind (dict_items cfg) pid) (\<lambda>c. Inr (kind, VDict c))))) channels"

definition validate_channel_row :: "(string \<Rightarrow> string list res) \<Rightarrow> string \<times> pyval \<Rightarrow> (string \<times> pyval) checked" where
  "validate_channel_row dns p =
     (case p of (pid, channels) \<Rightarrow>
        demand (pid \<noteq> []) ''delivery''
          (demand (is_dict channels) pid
            (chain (validate_channels_for dns pid (dict_items channels)) (\<lambda>c. Inr (pid, VDict c)))))"

definition validate_channel_table :: "(string \<Rightarrow> string list res) \<Rightarrow> pyval \<Rightarrow> dict checked" where
  "validate_channel_table dns principals =
     demand (is_dict principals) ''delivery'' (each (validate_channel_row dns) (dict_items principals))"

definition channel_table_needs_vault :: "dict \<Rightarrow> bool" where
  "channel_table_needs_vault principals =
     list_ex (\<lambda>(_, channels). list_ex (\<lambda>(_, cfg).
       case getv (dict_items cfg) ''secret_uri'' of VStr u \<Rightarrow> startswith u ''vault://'' | _ \<Rightarrow> False)
       (dict_items channels)) principals"

subsection \<open>The v2 tables\<close>

definition channels_entry :: "dict \<Rightarrow> pyval" where
  "channels_entry channels = VDict [(''channels'', VDict channels)]"

definition validate_principal :: "(string \<Rightarrow> string list res) \<Rightarrow> string \<times> pyval \<Rightarrow> (string \<times> pyval) checked" where
  "validate_principal dns p =
     (case p of (pid, entry) \<Rightarrow>
        demand (pid \<noteq> []) ''principals''
          (if entry = VNone then Inr (pid, channels_entry [])
           else demand (is_dict entry) pid
             (demand (fst ` set (dict_items entry) \<subseteq> {''channels''}) pid
               (let channels = getv (dict_items entry) ''channels'' in
                if channels = VNone then Inr (pid, channels_entry [])
                else demand (is_dict channels) pid
                  (chain (validate_channels_for dns pid (dict_items channels)) (\<lambda>c.
                    Inr (pid, channels_entry c)))))))"

definition validate_principals_v2 :: "(string \<Rightarrow> string list res) \<Rightarrow> pyval \<Rightarrow> dict checked" where
  "validate_principals_v2 dns raw =
     demand (is_dict raw) ''principals'' (each (validate_principal dns) (dict_items raw))"

definition validate_destination :: "dict \<Rightarrow> string \<times> pyval \<Rightarrow> (string \<times> pyval) checked" where
  "validate_destination principals p =
     (case p of (name, v) \<Rightarrow>
        let info = dict_items v; adapter = getv info ''adapter''; session = getv info ''session'';
            principal = getv info ''principal''; cap = getv info ''max_connections''
        in demand (name \<noteq> []) ''destinations''
          (demand (is_dict v) name
            (demand (absent_or nonempty_str adapter) name
              (demand (absent_or nonempty_str session) name
                (demand (session = VNone \<or> adapter \<noteq> VNone) name
                  (demand (absent_or nonempty_str principal) name
                    (demand (absent_or (\<lambda>q. has_key principals (py_str q)) principal) name
                      (demand (absent_or positive_int cap) name
                        (Inr (name, VDict [(''adapter'', adapter), (''session'', session),
                                           (''principal'', principal), (''max_connections'', cap)]))))))))))"

definition validate_destinations_block :: "pyval \<Rightarrow> dict \<Rightarrow> dict checked" where
  "validate_destinations_block raw principals =
     (if raw = VNone then Inr []
      else demand (is_dict raw) ''destinations'' (each (validate_destination principals) (dict_items raw)))"

text \<open>The names a route's \<open>destinations\<close> lists; a bare string is one name.\<close>

definition route_dests :: "pyval \<Rightarrow> pyval list option" where
  "route_dests v =
     (case v of VNone \<Rightarrow> Some [] | VStr d \<Rightarrow> Some [VStr d] | VList ds \<Rightarrow> Some ds | _ \<Rightarrow> None)"

definition validate_route :: "dict \<Rightarrow> dict \<Rightarrow> dict \<Rightarrow> pyval \<Rightarrow> pyval checked" where
  "validate_route senders destinations principals v =
     (let entry = dict_items v; s = getv entry ''sender''; principal = getv entry ''principal'' in
      demand (is_dict v) ''routes''
        (demand (nonempty_str s) ''routes''
          (demand (s = VStr ''*'' \<or> has_key senders (py_str s)) ''routes''
            (demand (absent_or nonempty_str principal) ''routes''
              (demand (absent_or (\<lambda>q. has_key principals (py_str q)) principal) ''routes''
                (case route_dests (getv entry ''destinations'') of
                   None \<Rightarrow> Inl (Config_error ''routes'')
                 | Some dests \<Rightarrow>
                     demand (list_all (\<lambda>d. nonempty_str d \<and> has_key destinations (py_str d)) dests) ''routes''
                       (demand (dests \<noteq> [] \<or> principal \<noteq> VNone) ''routes''
                         (demand (principal = VNone \<or>
                              list_all (\<lambda>d. getv (dict_items (getv destinations (py_str d))) ''principal''
                                            = principal) dests) ''routes''
                           (Inr (VDict [(''sender'', s), (''principal'', principal),
                                        (''destinations'', VList dests),
                                        (''origin'', VStr ORIGIN_CONFIG)]))))))))))"

definition validate_routes_block :: "pyval \<Rightarrow> dict \<Rightarrow> dict \<Rightarrow> dict \<Rightarrow> pyval list checked" where
  "validate_routes_block raw senders destinations principals =
     (case raw of
        VNone \<Rightarrow> Inr []
      | VList entries \<Rightarrow> each (validate_route senders destinations principals) entries
      | _ \<Rightarrow> Inl (Config_error ''routes''))"

subsection \<open>Senders\<close>

definition uri_entry :: "string \<Rightarrow> pyval \<Rightarrow> string checked" where
  "uri_entry name v = (case v of VStr s \<Rightarrow> parse_uri s name | _ \<Rightarrow> Inl (Config_error name))"

definition secret_uris_of :: "string \<Rightarrow> dict \<Rightarrow> string list checked" where
  "secret_uris_of name info =
     demand (length (filter (has_key info) [''secret_env'', ''secret'', ''secrets'']) = 1) name
       (if has_key info ''secret_env'' then
          demand (nonempty_str (getv info ''secret_env'')) name
            (Inr [''env://'' @ py_str (getv info ''secret_env'')])
        else if has_key info ''secret'' then
          demand (nonempty_str (getv info ''secret'')) name
            (chain (parse_uri (py_str (getv info ''secret'')) name) (\<lambda>u. Inr [u]))
        else
          (case getv info ''secrets'' of
             VList us \<Rightarrow> demand (us \<noteq> []) name (each (uri_entry name) us)
           | _ \<Rightarrow> Inl (Config_error name)))"

fun nonempty_strs :: "pyval \<Rightarrow> bool" where
  "nonempty_strs (VList vs) = list_all nonempty_str vs"
| "nonempty_strs _ = False"

definition validate_sender :: "pyval \<Rightarrow> string \<times> pyval \<Rightarrow> (string \<times> pyval) checked" where
  "validate_sender default_url p =
     (case p of (name, v) \<Rightarrow>
        let info = dict_items v; targets = getv info ''allowed_target_principals'';
            identities = getv info ''allowed_trigger_identities'';
            identity = getd info ''identity'' (getv info ''principal_id'');
            url = getv info ''callback_url''
        in demand (is_dict v) name
          (chain (secret_uris_of name info) (\<lambda>uris.
            demand (absent_or (\<lambda>t. nonempty_strs t \<and> t \<noteq> VList []) targets) name
              (demand (absent_or nonempty_strs identities) name
                (demand (absent_or nonempty_str identity) name
                  (Inr (name, VDict
                     [(''secret_uris'', VList (map VStr uris)),
                      (''callback_url'', if truthy url then url else default_url),
                      (''identity'', identity), (''principal_id'', identity),
                      (''allowed_trigger_identities'', identities),
                      (''allowed_target_principals'', targets)])))))))"

definition sender_uris :: "pyval \<Rightarrow> string list" where
  "sender_uris v = (case getv (dict_items v) ''secret_uris'' of VList us \<Rightarrow> map py_str us | _ \<Rightarrow> [])"

subsection \<open>\<open>load_config\<close>\<close>

definition VOCABULARY_PAIRS :: "(string \<times> string) list" where
  "VOCABULARY_PAIRS = [(''sources'', ''senders''), (''routing'', ''routes''), (''delivery'', ''principals'')]"

definition mixed_vocabulary :: "dict \<Rightarrow> bool" where
  "mixed_vocabulary raw \<longleftrightarrow> list_ex (\<lambda>(old, new). has_key raw old \<and> has_key raw new) VOCABULARY_PAIRS"

definition uses_v2 :: "dict \<Rightarrow> bool" where
  "uses_v2 raw \<longleftrightarrow> list_ex (\<lambda>(_, new). has_key raw new) VOCABULARY_PAIRS"

text \<open>What the file holds: absent, not JSON, unreadable for another reason, or a JSON value.\<close>

datatype config_file = Absent | Not_json | Unreadable exn | Json pyval

text \<open>The tables a v1 file is checked for before its senders are.\<close>

definition routing_entry_ok :: "pyval \<Rightarrow> bool" where
  "routing_entry_ok r \<longleftrightarrow>
     is_dict r \<and> (case dget (dict_items r) ''adapter'' of None \<Rightarrow> True | Some (VStr _) \<Rightarrow> True | _ \<Rightarrow> False)"

definition legacy_routing :: "dict \<Rightarrow> dict checked" where
  "legacy_routing raw =
     (case getd raw ''routing'' (VDict []) of
        VDict routing \<Rightarrow> demand (list_all (\<lambda>(_, r). routing_entry_ok r) routing) ''routing'' (Inr routing)
      | _ \<Rightarrow> Inl (Crash AttributeError))"

text \<open>The normalised addressing tables: principals, destinations, routes and the channel table.\<close>

definition v2_tables ::
  "(string \<Rightarrow> string list res) \<Rightarrow> dict \<Rightarrow> dict \<Rightarrow> (dict \<times> dict \<times> pyval list \<times> dict) checked" where
  "v2_tables dns raw senders =
     (let principals_raw = getv raw ''principals'' in
      chain (validate_principals_v2 dns (if truthy principals_raw then principals_raw else VDict []))
        (\<lambda>principals.
          chain (validate_destinations_block (getv raw ''destinations'') principals) (\<lambda>destinations.
            chain (validate_routes_block (getv raw ''routes'') senders destinations principals) (\<lambda>routes.
              Inr (principals, destinations, routes,
                   filter (\<lambda>(_, channels). truthy channels)
                     (map (\<lambda>(pid, entry). (pid, getv (dict_items entry) ''channels'')) principals))))))"

definition legacy_tables ::
  "(string \<Rightarrow> string list res) \<Rightarrow> dict \<Rightarrow> dict \<Rightarrow> dict \<Rightarrow> (dict \<times> dict \<times> pyval list \<times> dict) checked" where
  "legacy_tables dns raw routing senders =
     (let delivery_raw = getv raw ''delivery'' in
      chain (if delivery_raw = VNone then Inr [] else validate_channel_table dns delivery_raw) (\<lambda>delivery.
        let derived = derive_from_legacy senders routing delivery in
        Inr (lv_principals derived, lv_destinations derived, lv_routes derived, delivery)))"

definition config_senders :: "dict \<Rightarrow> dict \<Rightarrow> (dict \<times> dict) checked" where
  "config_senders raw sources =
     (let vault = getv raw ''vault'' in
      chain (validate_state_block (getv raw ''state'')) (\<lambda>state.
        chain (validate_wake_block (getv raw ''wake'')) (\<lambda>wake.
          chain (each (validate_sender (getv raw ''default_callback_url'')) sources) (\<lambda>senders.
            demand (truthy vault \<or> \<not> list_ex (\<lambda>(_, v). has_vault_uri (sender_uris v)) senders) ''vault''
              (chain (if vault = VNone then Inr () else validate_vault_block vault) (\<lambda>_.
                Inr (senders, [(''state'', VDict state), (''wake'', VDict wake)])))))))"

definition normalised ::
  "dict \<Rightarrow> dict \<Rightarrow> dict \<Rightarrow> dict \<Rightarrow> dict \<Rightarrow> dict \<times> dict \<times> pyval list \<times> dict \<Rightarrow> cfg" where
  "normalised raw listen routing senders blocks tables =
     (case tables of (principals, destinations, routes, delivery) \<Rightarrow>
        [(''version'', getd raw ''version'' (VInt 0)),
         (''listen'', VDict [(''host'', getd listen ''host'' (VStr ''127.0.0.1'')),
                             (''port'', getd listen ''port'' (VInt 8788))]),
         (''socket_path'', getv raw ''socket_path''),
         (''senders'', VDict senders),
         (''default_callback_url'', getv raw ''default_callback_url''),
         (''routing'', VDict routing),
         (''vault'', getv raw ''vault'')]
        @ blocks
        @ [(''sources'', VDict senders), (''principals'', VDict principals),
           (''destinations'', VDict destinations), (''routes'', VList routes),
           (''delivery'', VDict delivery)])"

definition load_object :: "(string \<Rightarrow> string list res) \<Rightarrow> dict \<Rightarrow> cfg checked" where
  "load_object dns raw =
     demand (list_all (\<lambda>k. absent_or is_dict (getv raw k))
        [''sources'', ''routing'', ''senders'', ''destinations'', ''principals'']) ''tables''
      (demand (py_num (getd raw ''version'' (VInt 0)) \<in> Some ` {0, 1, 2}) ''version''
        (demand (\<not> mixed_vocabulary raw) ''vocabulary''
          (chain (validate_listen_block (getv raw ''listen'')) (\<lambda>listen.
            chain (if uses_v2 raw then Inr [] else legacy_routing raw) (\<lambda>routing.
              let sources = getv raw (if uses_v2 raw then ''senders'' else ''sources'') in
              demand (truthy sources) ''senders''
                (chain (config_senders raw (dict_items sources)) (\<lambda>(senders, blocks).
                  chain (if uses_v2 raw then v2_tables dns raw senders
                         else legacy_tables dns raw routing senders) (\<lambda>tables.
                    demand (truthy (getv raw ''vault'')
                            \<or> \<not> channel_table_needs_vault (snd (snd (snd tables)))) ''vault''
                      (Inr (normalised raw listen routing senders blocks tables))))))))))"

definition load_config :: "(string \<Rightarrow> string list res) \<Rightarrow> config_file \<Rightarrow> cfg checked" where
  "load_config dns file =
     (case file of
        Absent \<Rightarrow> Inl (Config_error ''file'')
      | Not_json \<Rightarrow> Inl (Config_error ''file'')
      | Unreadable e \<Rightarrow> Inl (Crash e)
      | Json (VDict raw) \<Rightarrow> load_object dns raw
      | Json _ \<Rightarrow> Inl (Config_error ''file''))"

end
