(* ===== verification/Config_Props.thy ===== *)
theory Config_Props
  imports Config
begin

section \<open>What a loaded configuration guarantees\<close>

text \<open>
  The rules that take a successful or a crashed validation apart, and what they give: the shape of
  the normalised tables, routes that resolve, gates that cannot raise, webhook targets that were
  checked, and the few files that end in an exception other than \<open>ConfigError\<close>.
\<close>

subsection \<open>Taking validations apart\<close>

named_theorems load_simps \<open>when a validation succeeds\<close>
named_theorems crash_simps \<open>when a validation crashes\<close>

lemma chain_Inr [load_simps]: "chain m f = Inr y \<longleftrightarrow> (\<exists>x. m = Inr x \<and> f x = Inr y)"
  by (simp add: chain_def split: sum.split)

lemma demand_Inr [load_simps]: "demand ok what k = Inr y \<longleftrightarrow> ok \<and> k = Inr y"
  by (simp add: demand_def)

lemma chain_Inl [crash_simps]: "chain m f = Inl e \<longleftrightarrow> m = Inl e \<or> (\<exists>x. m = Inr x \<and> f x = Inl e)"
  by (simp add: chain_def split: sum.split)

lemma demand_Crashed [crash_simps]: "demand ok what k = Inl (Crash e) \<longleftrightarrow> ok \<and> k = Inl (Crash e)"
  by (simp add: demand_def)

lemma each_Inr: "each f xs = Inr ys \<longleftrightarrow> list_all2 (\<lambda>x y. f x = Inr y) xs ys"
  by (induction xs arbitrary: ys) (auto simp: load_simps list_all2_Cons1)

lemma each_Crashed: "each f xs = Inl (Crash e) \<Longrightarrow> \<exists>x \<in> set xs. f x = Inl (Crash e)"
  by (induction xs) (auto simp: crash_simps)

lemma each_result: "each f xs = Inr ys \<Longrightarrow> y \<in> set ys \<Longrightarrow> \<exists>x \<in> set xs. f x = Inr y"
  by (auto simp: each_Inr list_all2_conv_all_nth in_set_conv_nth) (metis nth_mem)

lemma each_demand:
  "each (\<lambda>x. demand (ok x) (w x) (Inr (g x))) xs = Inr ys \<longleftrightarrow> list_all ok xs \<and> ys = map g xs"
  by (induction xs arbitrary: ys) (auto simp: load_simps)

lemma each_keys:
  assumes "each f xs = Inr ys" "\<And>x y. f x = Inr y \<Longrightarrow> fst y = fst x"
  shows "map fst ys = map fst xs"
  using assms(1)
proof (induction xs arbitrary: ys)
  case (Cons x xs)
  then obtain y ys' where "ys = y # ys'" "f x = Inr y" "each f xs = Inr ys'" by (auto simp: load_simps)
  with Cons.IH [of ys'] assms(2) show ?case by simp
qed simp

lemma getv_simps [simp]: "getv [] k = VNone" "getv ((j, v) # d) k = (if k = j then v else getv d k)"
  by (simp_all add: getv_def opt_val_def)

lemma absent_or_simps [simp]: "absent_or p VNone" "v \<noteq> VNone \<Longrightarrow> absent_or p v \<longleftrightarrow> p v"
  by (simp_all add: absent_or_def)

lemma nonempty_str_iff: "nonempty_str v \<longleftrightarrow> (\<exists>s. v = VStr s \<and> s \<noteq> [])"
  by (cases v) auto

lemma is_dict_iff: "is_dict v \<longleftrightarrow> (\<exists>d. v = VDict d)"
  by (cases v) auto

lemma positive_int_iff: "positive_int v \<longleftrightarrow> (\<exists>i. v = VInt i \<and> 0 < i)"
  by (cases v) auto

subsection \<open>The pieces of a loaded file\<close>

lemma config_senders_cases:
  assumes "config_senders raw sources = Inr (senders, blocks)"
  obtains state wake where
    "validate_state_block (getv raw ''state'') = Inr state"
    "validate_wake_block (getv raw ''wake'') = Inr wake"
    "each (validate_sender (getv raw ''default_callback_url'')) sources = Inr senders"
    "blocks = [(''state'', VDict state), (''wake'', VDict wake)]"
    "list_ex (\<lambda>(_, v). has_vault_uri (sender_uris v)) senders \<longrightarrow> validate_vault_block (getv raw ''vault'') = Inr ()"
proof -
  from assms obtain state wake u where
    "validate_state_block (getv raw ''state'') = Inr state"
    "validate_wake_block (getv raw ''wake'') = Inr wake"
    "each (validate_sender (getv raw ''default_callback_url'')) sources = Inr senders"
    "blocks = [(''state'', VDict state), (''wake'', VDict wake)]"
    "truthy (getv raw ''vault'') \<or> \<not> list_ex (\<lambda>(_, v). has_vault_uri (sender_uris v)) senders"
    "(if getv raw ''vault'' = VNone then Inr () else validate_vault_block (getv raw ''vault'')) = Inr u"
    by (auto simp: config_senders_def Let_def load_simps)
  then show thesis by (intro that [of state wake]) (auto split: if_splits)
qed

lemma load_object_cases:
  assumes "load_object dns raw = Inr cfg"
  obtains listen routing senders blocks tables where
    "validate_listen_block (getv raw ''listen'') = Inr listen"
    "(if uses_v2 raw then Inr [] else legacy_routing raw) = Inr routing"
    "config_senders raw (dict_items (getv raw (if uses_v2 raw then ''senders'' else ''sources'')))
       = Inr (senders, blocks)"
    "(if uses_v2 raw then v2_tables dns raw senders else legacy_tables dns raw routing senders) = Inr tables"
    "cfg = normalised raw listen routing senders blocks tables" "\<not> mixed_vocabulary raw"
  using assms by (auto simp: load_object_def Let_def load_simps split: prod.splits)

lemma load_config_cases:
  assumes "load_config dns file = Inr cfg"
  obtains raw where "file = Json (VDict raw)" "load_object dns raw = Inr cfg"
  using assms by (auto simp: load_config_def split: config_file.splits pyval.splits)

lemma normalised_get:
  assumes "blocks = [(''state'', VDict state), (''wake'', VDict wake)]"
  shows
  "dget (normalised raw listen routing senders blocks (ps, ds, rs, del)) ''senders'' = Some (VDict senders)"
  "dget (normalised raw listen routing senders blocks (ps, ds, rs, del)) ''principals'' = Some (VDict ps)"
  "dget (normalised raw listen routing senders blocks (ps, ds, rs, del)) ''destinations'' = Some (VDict ds)"
  "dget (normalised raw listen routing senders blocks (ps, ds, rs, del)) ''routes'' = Some (VList rs)"
  "dget (normalised raw listen routing senders blocks (ps, ds, rs, del)) ''delivery'' = Some (VDict del)"
  "dget (normalised raw listen routing senders blocks (ps, ds, rs, del)) ''state'' = Some (VDict state)"
  "dget (normalised raw listen routing senders blocks (ps, ds, rs, del)) ''wake'' = Some (VDict wake)"
  "dget (normalised raw listen routing senders blocks (ps, ds, rs, del)) ''sources'' = Some (VDict senders)"
  by (simp_all add: normalised_def assms)

subsection \<open>Senders\<close>

text \<open>A sender as the rest of the daemon may rely on it.\<close>

definition sender_ok :: "pyval \<Rightarrow> bool" where
  "sender_ok v =
     (let d = dict_items v in
      is_dict v
      \<and> (case getv d ''secret_uris'' of VList us \<Rightarrow> us \<noteq> [] \<and> list_all nonempty_str us | _ \<Rightarrow> False)
      \<and> absent_or (\<lambda>t. nonempty_strs t \<and> t \<noteq> VList []) (getv d ''allowed_target_principals'')
      \<and> absent_or nonempty_strs (getv d ''allowed_trigger_identities'')
      \<and> absent_or nonempty_str (getv d ''identity'')
      \<and> getv d ''principal_id'' = getv d ''identity'')"

lemma sender_ok_principal: "sender_ok v \<Longrightarrow> absent_or nonempty_str (getv (dict_items v) ''principal_id'')"
  by (simp add: sender_ok_def Let_def)

lemma parse_uri_Inr:
  "parse_uri uri src = Inr u \<longleftrightarrow> u = uri \<and> (\<exists>p. urlparse uri = Inr p \<and> u_scheme p \<in> set VALID_SCHEMES
     \<and> (u_netloc p \<noteq> [] \<or> u_path p \<noteq> []))"
  by (auto simp: parse_uri_def load_simps split: sum.splits)

lemma parse_uri_nonempty: "parse_uri uri src = Inr u \<Longrightarrow> u \<noteq> []"
proof
  assume p: "parse_uri uri src = Inr u" "u = []"
  then obtain q where "urlparse [] = Inr q" "u_scheme q \<in> set VALID_SCHEMES" by (auto simp: parse_uri_Inr)
  moreover have "urlparse [] = Inr \<lparr>u_scheme = [], u_netloc = [], u_path = [], u_query = [], u_fragment = []\<rparr>"
    by code_simp
  ultimately show False by (auto simp: VALID_SCHEMES_def)
qed

lemma uri_entry_nonempty: "uri_entry name v = Inr u \<Longrightarrow> u \<noteq> []"
  by (cases v) (simp_all add: uri_entry_def parse_uri_nonempty)

lemma secret_uris_ok:
  assumes "secret_uris_of name info = Inr uris"
  shows "uris \<noteq> [] \<and> (\<forall>u \<in> set uris. u \<noteq> [])"
proof -
  have e: "us \<noteq> [] \<and> (\<forall>u \<in> set us. u \<noteq> [])" if "each (uri_entry name) vs = Inr us" "vs \<noteq> []" for vs us
    using that each_result [OF that(1)] uri_entry_nonempty by (auto simp: each_Inr)
  from assms show ?thesis
    by (auto simp: secret_uris_of_def load_simps dest: parse_uri_nonempty e split: if_splits pyval.splits)
qed

lemma validate_sender_ok:
  assumes "validate_sender url (name, v) = Inr (name', v')"
  shows "name' = name \<and> sender_ok v'"
  using assms secret_uris_ok [of name "dict_items v"]
  by (auto simp: validate_sender_def Let_def load_simps sender_ok_def list_all_iff)

subsection \<open>Destinations and routes\<close>

lemma build_all_dicts:
  "\<forall>p \<in> set t. is_dict (snd p) \<Longrightarrow> build_destinations t = map (\<lambda>(n, v). (n, mk_destination n (dict_items v))) t"
  by (induction t rule: build_destinations.induct) auto

lemma map_of_map_key: "map_of (map (\<lambda>(n, v). (n, f n v)) t) k = map_option (f k) (map_of t k)"
  by (induction t) auto

lemma getv_Some: "getv d k = v \<Longrightarrow> v \<noteq> VNone \<Longrightarrow> dget d k = Some v"
  by (auto simp: getv_def opt_val_def split: option.splits)

lemma str_of_getv: "str_of (dget d k) = str_of (Some (getv d k))"
  by (auto simp: getv_def opt_val_def str_of_def split: option.splits)

lemma validate_destination_Inr:
  assumes "validate_destination ps (n, v) = Inr (n', v')"
  shows "n' = n \<and> n \<noteq> [] \<and> is_dict v' \<and> absent_or nonempty_str (getv (dict_items v') ''principal'')
     \<and> absent_or (\<lambda>q. has_key ps (py_str q)) (getv (dict_items v') ''principal'')
     \<and> absent_or positive_int (getv (dict_items v') ''max_connections'')"
  using assms by (auto simp: validate_destination_def Let_def load_simps)

lemma destinations_ok:
  assumes "validate_destinations_block raw ps = Inr ds" "p \<in> set ds"
  shows "is_dict (snd p) \<and> absent_or nonempty_str (getv (dict_items (snd p)) ''principal'')
     \<and> absent_or (\<lambda>q. has_key ps (py_str q)) (getv (dict_items (snd p)) ''principal'')
     \<and> absent_or positive_int (getv (dict_items (snd p)) ''max_connections'')"
proof -
  from assms have "each (validate_destination ps) (dict_items raw) = Inr ds" "raw \<noteq> VNone"
    by (auto simp: validate_destinations_block_def load_simps split: if_splits)
  with each_result [OF this(1) assms(2)] obtain q where "validate_destination ps q = Inr p" by blast
  then show ?thesis by (cases q; cases p) (auto dest: validate_destination_Inr)
qed

lemma validate_route_Inr:
  assumes "validate_route senders ds ps v = Inr r"
  obtains s p names where
    "r = VDict [(''sender'', VStr s), (''principal'', p), (''destinations'', VList (map VStr names)),
       (''origin'', VStr ORIGIN_CONFIG)]"
    "s = ''*'' \<or> has_key senders s" "absent_or nonempty_str p" "absent_or (\<lambda>q. has_key ps (py_str q)) p"
    "\<forall>n \<in> set names. has_key ds n" "names \<noteq> [] \<or> p \<noteq> VNone"
    "p \<noteq> VNone \<longrightarrow> (\<forall>n \<in> set names. getv (dict_items (getv ds n)) ''principal'' = p)"
proof -
  let ?s = "getv (dict_items v) ''sender''" and ?p = "getv (dict_items v) ''principal''"
  from assms obtain dests where d: "route_dests (getv (dict_items v) ''destinations'') = Some dests"
    by (auto simp: validate_route_def Let_def load_simps split: option.splits)
  from assms d have
    r: "r = VDict [(''sender'', ?s), (''principal'', ?p), (''destinations'', VList dests),
       (''origin'', VStr ORIGIN_CONFIG)]"
    and ok: "nonempty_str ?s" "?s = VStr ''*'' \<or> has_key senders (py_str ?s)" "absent_or nonempty_str ?p"
    "absent_or (\<lambda>q. has_key ps (py_str q)) ?p"
    "list_all (\<lambda>d. nonempty_str d \<and> has_key ds (py_str d)) dests" "dests \<noteq> [] \<or> ?p \<noteq> VNone"
    "?p = VNone \<or> list_all (\<lambda>d. getv (dict_items (getv ds (py_str d))) ''principal'' = ?p) dests"
    by (simp_all add: validate_route_def Let_def load_simps)
  from ok(1) obtain s where s: "?s = VStr s" by (auto simp: nonempty_str_iff)
  have names: "dests = map VStr (map py_str dests)"
    using ok(5) by (intro nth_equalityI) (auto simp: list_all_length nonempty_str_iff)
  show thesis
  proof (rule that [of s ?p "map py_str dests"])
    show "r = VDict [(''sender'', VStr s), (''principal'', ?p), (''destinations'', VList (map VStr (map py_str dests))),
       (''origin'', VStr ORIGIN_CONFIG)]" using r s names by simp
  qed (use ok s in \<open>auto simp: list_all_iff\<close>)
qed

lemma build_routes_set: "r \<in> set (build_routes rs) \<longleftrightarrow> (\<exists>e. VDict e \<in> set rs \<and> r = mk_route e)"
  by (induction rs rule: build_routes.induct) auto

text \<open>A route all of whose names are destinations expands to exactly those.\<close>

lemma expand_names:
  assumes "\<forall>n \<in> set (r_destinations r). dget (destination_table cfg) n \<noteq> None" "r_destinations r \<noteq> []"
  shows "map d_name (expand cfg r) = r_destinations r"
proof -
  have "map d_name (List.map_filter (dget (destination_table cfg)) names) = names"
    if "\<forall>n \<in> set names. dget (destination_table cfg) n \<noteq> None" for names
    using that
  proof (induction names)
    case (Cons n names)
    then obtain d where d: "dget (destination_table cfg) n = Some d" by auto
    then have "d_name d = n" by (rule destination_table_name)
    with Cons d show ?case by simp
  qed simp
  with assms show ?thesis by (simp add: expand_def Let_def)
qed

lemma expand_lookup:
  "d \<in> set (expand cfg r) \<Longrightarrow> r_destinations r \<noteq> [] \<Longrightarrow>
   \<exists>n \<in> set (r_destinations r). dget (destination_table cfg) n = Some d"
  by (auto simp: expand_def Let_def List.map_filter_def split: option.splits)

lemma expand_principal:
  "d \<in> set (expand cfg r) \<Longrightarrow> r_destinations r = [] \<Longrightarrow> d_principal d = r_principal r"
  by (auto simp: expand_def Let_def split: option.splits if_splits)

text \<open>What a route of a loaded file promises: a known sender, destinations that all exist, and a
  principal that is declared and owns them.\<close>

definition route_resolves :: "cfg \<Rightarrow> route \<Rightarrow> bool" where
  "route_resolves cfg r \<longleftrightarrow>
     (r_sender r = ''*'' \<or> has_key (sender_table cfg) (r_sender r))
     \<and> (r_destinations r \<noteq> [] \<longrightarrow> map d_name (expand cfg r) = r_destinations r)
     \<and> (case r_principal r of
          None \<Rightarrow> r_destinations r \<noteq> []
        | Some p \<Rightarrow> has_key (principal_table cfg) p \<and> list_all (\<lambda>d. d_principal d = Some p) (expand cfg r))"

lemma v2_route_resolves:
  assumes t: "v2_tables dns raw senders = Inr (ps, ds, rs, del)"
    and cfg: "dget cfg ''senders'' = Some (VDict senders)" "dget cfg ''principals'' = Some (VDict ps)"
      "dget cfg ''destinations'' = Some (VDict ds)" "dget cfg ''routes'' = Some (VList rs)"
    and r: "r \<in> set (route_table cfg)"
  shows "route_resolves cfg r"
proof -
  from t have d: "validate_destinations_block (getv raw ''destinations'') ps = Inr ds"
    and ro: "validate_routes_block (getv raw ''routes'') senders ds ps = Inr rs"
    by (auto simp: v2_tables_def Let_def load_simps)
  have table: "dget (destination_table cfg) n = map_option (\<lambda>v. mk_destination n (dict_items v)) (dget ds n)" for n
    using destinations_ok [OF d] cfg(3)
    by (simp add: destination_table_def raw_destinations_def build_all_dicts map_of_map_key)
  from r cfg(4) obtain e where e: "VDict e \<in> set rs" "r = mk_route e"
    by (auto simp: route_table_def raw_routes_def build_routes_set)
  then obtain v where "validate_route senders ds ps v = Inr (VDict e)"
    using ro each_result by (fastforce simp: validate_routes_block_def split: pyval.splits)
  then obtain s p names where entry:
    "VDict e = VDict [(''sender'', VStr s), (''principal'', p), (''destinations'', VList (map VStr names)),
       (''origin'', VStr ORIGIN_CONFIG)]"
    and sn: "s = ''*'' \<or> has_key senders s" and pn: "absent_or nonempty_str p" "absent_or (\<lambda>q. has_key ps (py_str q)) p"
    and nm: "\<forall>n \<in> set names. has_key ds n" "names \<noteq> [] \<or> p \<noteq> VNone"
      "p \<noteq> VNone \<longrightarrow> (\<forall>n \<in> set names. getv (dict_items (getv ds n)) ''principal'' = p)"
    by (rule validate_route_Inr)
  have rr: "r_sender r = s" "r_principal r = str_of (Some p)" "r_destinations r = names"
    using e(2) entry by (simp_all add: mk_route_def get_str_def dests_of_def o_def)
  have some: "\<forall>n \<in> set names. dget (destination_table cfg) n \<noteq> None"
    using nm(1) by (auto simp: table has_key_def)
  have "r_sender r = ''*'' \<or> has_key (sender_table cfg) (r_sender r)"
    using sn rr cfg(1) by (simp add: sender_table_def)
  moreover have "r_destinations r \<noteq> [] \<longrightarrow> map d_name (expand cfg r) = r_destinations r"
    using expand_names [of r cfg] some rr by simp
  moreover have "case r_principal r of None \<Rightarrow> r_destinations r \<noteq> []
      | Some q \<Rightarrow> has_key (principal_table cfg) q \<and> list_all (\<lambda>d. d_principal d = Some q) (expand cfg r)"
  proof (cases "p = VNone")
    case True
    then show ?thesis using rr nm(2) by (simp add: str_of_def)
  next
    case False
    with pn(1) obtain q where q: "p = VStr q" by (auto simp: nonempty_str_iff)
    have "d_principal d = Some q" if "d \<in> set (expand cfg r)" for d
    proof (cases "r_destinations r = []")
      case True
      with that rr q show ?thesis by (simp add: expand_principal str_of_def)
    next
      case False
      with that rr obtain n where n: "n \<in> set names" "dget (destination_table cfg) n = Some d"
        by (auto dest: expand_lookup)
      then obtain v where v: "dget ds n = Some v" "d = mk_destination n (dict_items v)" by (auto simp: table)
      have "getv (dict_items v) ''principal'' = VStr q"
        using nm(3) n(1) v(1) q by (auto simp: getv_def opt_val_def)
      then have "dget (dict_items v) ''principal'' = Some (VStr q)" by (simp add: getv_Some)
      then show ?thesis by (simp add: v(2) mk_destination_def str_of_def)
    qed
    moreover have "has_key (principal_table cfg) q" using pn(2) q cfg(2) by (simp add: principal_table_def)
    ultimately show ?thesis using rr q by (simp add: str_of_def list_all_iff)
  qed
  ultimately show ?thesis by (simp add: route_resolves_def)
qed

subsection \<open>Tables derived from a legacy file\<close>

lemma senders_ok:
  assumes "each (validate_sender url) srcs = Inr senders"
  shows "map fst senders = map fst srcs \<and> (\<forall>p \<in> set senders. sender_ok (snd p))"
proof
  have one: "fst y = fst x \<and> sender_ok (snd y)" if "validate_sender url x = Inr y" for x y
    using that validate_sender_ok by (cases x; cases y) fastforce
  then show "map fst senders = map fst srcs" using each_keys [OF assms] by blast
  show "\<forall>p \<in> set senders. sender_ok (snd p)" using each_result [OF assms] one by blast
qed

lemma legacy_sources_all: "\<forall>p \<in> set t. is_dict (snd p) \<Longrightarrow> legacy_sources t = t"
  by (induction t rule: legacy_sources.induct) auto

lemma legacy_info_items: "legacy_info v = dict_items v"
  by (cases v) (simp_all add: legacy_info_def)

lemma add_principals_keys:
  "has_key (add_principals ps ds) p \<longleftrightarrow>
     has_key ps p \<or> (p \<noteq> [] \<and> (\<exists>(n, v) \<in> set ds. dget (legacy_info v) ''principal'' = Some (VStr p)))"
proof (induction ds arbitrary: ps)
  case (Cons d ds)
  obtain n v where d: "d = (n, v)" by (cases d)
  have key: "has_key (ps @ [(q, w)]) p \<longleftrightarrow> has_key ps p \<or> q = p" for q w
    by (auto simp: has_key_iff)
  show ?case
    by (auto simp: d Cons.IH key split: option.splits pyval.splits)
qed simp

lemma legacy_route_resolves:
  assumes t: "legacy_tables dns raw routing senders = Inr (ps, ds, rs, del)"
    and ok: "\<forall>p \<in> set senders. sender_ok (snd p)" and wf: "wf_dict senders"
    and cfg: "dget cfg ''senders'' = Some (VDict senders)" "dget cfg ''principals'' = Some (VDict ps)"
      "dget cfg ''destinations'' = Some (VDict ds)" "dget cfg ''routes'' = Some (VList rs)"
    and r: "r \<in> set (route_table cfg)"
  shows "route_resolves cfg r"
proof -
  have dicts: "\<forall>p \<in> set senders. is_dict (snd p)" using ok by (auto simp: sender_ok_def Let_def)
  define dest where "dest = (\<lambda>n v. legacy_destination routing n (dict_items v))"
  have tabs: "ds = map (\<lambda>(n, v). (n, dest n v)) senders" "rs = map (\<lambda>(n, v). legacy_route n (dict_items v)) senders"
    "\<exists>base. ps = add_principals base ds"
    using t by (auto simp: legacy_tables_def Let_def load_simps derive_from_legacy_def
        legacy_sources_all [OF dicts] dest_def legacy_info_items)
  have "\<forall>p \<in> set ds. is_dict (snd p)" by (auto simp: tabs(1) dest_def legacy_destination_def)
  then have table: "dget (destination_table cfg) n =
      map_option (\<lambda>v. mk_destination n (dict_items (dest n v))) (dget senders n)" for n
    using cfg(3) by (simp add: destination_table_def raw_destinations_def build_all_dicts map_of_map_key)
      (simp add: tabs(1) map_of_map_key option.map_comp o_def)
  from r cfg(4) obtain n v where nv: "(n, v) \<in> set senders" "r = mk_route (dict_items (legacy_route n (dict_items v)))"
    by (auto simp: route_table_def raw_routes_def build_routes_set tabs(2) legacy_route_def)
  define p where "p = str_of (dget (dict_items v) ''principal_id'')"
  have rr: "r_sender r = n" "r_destinations r = [n]" "r_principal r = p"
    using str_of_getv [of "dict_items v" "''principal_id''"]
    by (simp_all add: nv(2) legacy_route_def mk_route_def get_str_def dests_of_def p_def getv_def)
  have v: "dget senders n = Some v" using nv(1) wf by (simp add: wf_dict_get)
  have ex: "expand cfg r = [mk_destination n (dict_items (dest n v))]"
    by (simp add: expand_def Let_def rr table v)
  have dp: "d_principal (mk_destination n (dict_items (dest n v))) = p"
    using str_of_getv [of "dict_items v" "''principal_id''"]
    by (simp add: mk_destination_def dest_def legacy_destination_def p_def getv_def)
  have "has_key (principal_table cfg) q" if "p = Some q" for q
  proof -
    have "sender_ok v" using ok nv(1) by force
    moreover have "dget (dict_items v) ''principal_id'' = Some (VStr q)"
      using that by (auto simp: p_def str_of_def split: option.splits pyval.splits)
    moreover from this have "getv (dict_items v) ''principal_id'' = VStr q" by (simp add: getv_def opt_val_def)
    ultimately have "q \<noteq> []" using sender_ok_principal [of v] by simp
    moreover have "(n, dest n v) \<in> set ds" using nv(1) by (auto simp: tabs(1))
    moreover have "dget (legacy_info (dest n v)) ''principal'' = Some (VStr q)"
      using \<open>dget (dict_items v) ''principal_id'' = Some (VStr q)\<close>
      by (simp add: dest_def legacy_destination_def legacy_info_def opt_val_def)
    ultimately have "has_key (add_principals base ds) q" for base
      unfolding add_principals_keys by blast
    then show ?thesis using tabs(3) cfg(2) by (auto simp: principal_table_def)
  qed
  with rr ex dp nv(1) cfg(1) show ?thesis
    by (auto simp: route_resolves_def sender_table_def has_key_iff mk_destination_def
        split: option.splits intro: rev_image_eqI)
qed

subsection \<open>Properties\<close>

lemma loaded_tables:
  assumes "load_config dns file = Inr cfg"
  obtains raw listen routing senders blocks ps ds rs del where
    "file = Json (VDict raw)"
    "validate_listen_block (getv raw ''listen'') = Inr listen"
    "config_senders raw (dict_items (getv raw (if uses_v2 raw then ''senders'' else ''sources'')))
       = Inr (senders, blocks)"
    "(if uses_v2 raw then v2_tables dns raw senders else legacy_tables dns raw routing senders) = Inr (ps, ds, rs, del)"
    "cfg = normalised raw listen routing senders blocks (ps, ds, rs, del)"
  using assms by (elim load_config_cases load_object_cases) (metis prod.exhaust)

lemma routes_resolve:
  assumes "load_config dns file = Inr cfg" "wf_dict (sender_table cfg)" "r \<in> set (route_table cfg)"
  shows "route_resolves cfg r"
  using assms(1)
proof (rule loaded_tables)
  fix raw listen routing senders blocks ps ds rs del
  assume cs: "config_senders raw (dict_items (getv raw (if uses_v2 raw then ''senders'' else ''sources'')))
       = Inr (senders, blocks)"
    and t: "(if uses_v2 raw then v2_tables dns raw senders else legacy_tables dns raw routing senders) = Inr (ps, ds, rs, del)"
    and cfg: "cfg = normalised raw listen routing senders blocks (ps, ds, rs, del)"
  from cs obtain state wake where b: "blocks = [(''state'', VDict state), (''wake'', VDict wake)]"
    and se: "\<forall>p \<in> set senders. sender_ok (snd p)"
    by (rule config_senders_cases) (auto dest: senders_ok)
  note g = normalised_get [OF b, of raw listen routing senders ps ds rs del, folded cfg]
  have "sender_table cfg = senders" by (simp add: sender_table_def g)
  then show ?thesis
    using t v2_route_resolves [OF _ g(1-4) assms(3)] legacy_route_resolves [OF _ se _ g(1-4) assms(3)] assms(2)
    by (auto split: if_splits)
qed

subsection \<open>Shape\<close>

lemma state_block_ints:
  assumes "validate_state_block v = Inr state" "f \<in> set STATE_INT_FIELDS"
  shows "absent_or positive_int (getv state f)"
proof (cases "v = VNone")
  case True
  then show ?thesis using assms(1) by (auto simp: validate_state_block_def)
next
  case False
  from assms(1) False obtain d where v: "v = VDict d"
    by (cases v) (simp_all add: validate_state_block_def)
  have d: "list_all (\<lambda>f. absent_or positive_int (getv d f)) STATE_INT_FIELDS"
    "state = given d ''dir'' @ [(''enabled'', getd d ''enabled'' (VBool True))]
       @ concat (map (given d) STATE_INT_FIELDS) @ given d ''default_delivery''"
    using assms(1) by (auto simp: v validate_state_block_def Let_def load_simps each_demand split: if_splits)
  have "f \<noteq> ''enabled''" using assms(2) by (auto simp: STATE_INT_FIELDS_def)
  then have "w = getv d f" if "dget state f = Some w" for w
    using map_of_SomeD [OF that] by (auto simp: d(2) given_def split: if_splits)
  then show ?thesis using d(1) assms(2)
    by (auto simp: list_all_iff getv_def [of state] opt_val_def split: option.splits)
qed

lemma wake_block_positive:
  assumes "validate_wake_block v = Inr wake"
  shows "positive_number (getv wake ''ingest_rate_limit'') \<and> positive_int (getv wake ''ingest_rate_burst'')
     \<and> absent_or wake_secret_ok (getv wake ''hmac_secret'')"
proof -
  have f: "positive_number y" if "to_float x = Inr y" "positive_number x" for x y
    using that by (cases x) (auto split: if_splits)
  show ?thesis using assms f
    by (auto simp: validate_wake_block_def Let_def load_simps DEFAULT_INGEST_RATE_LIMIT_def
        DEFAULT_INGEST_RATE_BURST_def split: pyval.splits)
qed

lemma listen_block_ok:
  assumes "validate_listen_block v = Inr listen"
  shows "absent_or port_number (getv listen ''port'') \<and> absent_or nonempty_str (getv listen ''host'')"
  using assms by (auto simp: validate_listen_block_def load_simps split: pyval.splits)

text \<open>The shape of a loaded file.\<close>

definition config_wf :: "cfg \<Rightarrow> bool" where
  "config_wf cfg \<longleftrightarrow>
     (let wake = dict_items (getv cfg ''wake''); state = dict_items (getv cfg ''state'');
          listen = dict_items (getv cfg ''listen'')
      in sender_table cfg \<noteq> [] \<and> list_all (\<lambda>(_, v). sender_ok v) (sender_table cfg)
         \<and> getv cfg ''sources'' = getv cfg ''senders''
         \<and> positive_number (getv wake ''ingest_rate_limit'') \<and> positive_int (getv wake ''ingest_rate_burst'')
         \<and> absent_or wake_secret_ok (getv wake ''hmac_secret'')
         \<and> list_all (\<lambda>f. absent_or positive_int (getv state f)) STATE_INT_FIELDS
         \<and> absent_or port_number (getv listen ''port'') \<and> absent_or nonempty_str (getv listen ''host'')
         \<and> list_all (\<lambda>(_, v). is_dict v \<and> absent_or positive_int (getv (dict_items v) ''max_connections''))
             (raw_destinations cfg))"

lemma loaded_shape:
  assumes "load_config dns file = Inr cfg"
  shows "config_wf cfg"
  using assms
proof (rule loaded_tables)
  fix raw listen routing senders blocks ps ds rs del
  assume li: "validate_listen_block (getv raw ''listen'') = Inr listen"
    and cs: "config_senders raw (dict_items (getv raw (if uses_v2 raw then ''senders'' else ''sources'')))
       = Inr (senders, blocks)"
    and t: "(if uses_v2 raw then v2_tables dns raw senders else legacy_tables dns raw routing senders) = Inr (ps, ds, rs, del)"
    and cfg: "cfg = normalised raw listen routing senders blocks (ps, ds, rs, del)"
    and fl: "file = Json (VDict raw)"
  from cs obtain state wake where b: "blocks = [(''state'', VDict state), (''wake'', VDict wake)]"
    and se: "map fst senders = map fst (dict_items (getv raw (if uses_v2 raw then ''senders'' else ''sources'')))"
      "\<forall>p \<in> set senders. sender_ok (snd p)"
    and bl: "validate_state_block (getv raw ''state'') = Inr state" "validate_wake_block (getv raw ''wake'') = Inr wake"
    by (rule config_senders_cases) (auto dest: senders_ok)
  note g = normalised_get [OF b, of raw listen routing senders ps ds rs del, folded cfg]
  have "truthy (getv raw (if uses_v2 raw then ''senders'' else ''sources''))"
    and "absent_or is_dict (getv raw (if uses_v2 raw then ''senders'' else ''sources''))"
    using assms by (auto simp: fl load_config_def load_object_def Let_def load_simps)
  then have ne: "senders \<noteq> []" using se(1) by (auto simp: absent_or_def is_dict_iff)
  have gl: "getv cfg ''listen'' = VDict [(''host'', getd listen ''host'' (VStr ''127.0.0.1'')),
      (''port'', getd listen ''port'' (VInt 8788))]"
    by (simp add: cfg normalised_def)
  have lst: "absent_or port_number (getd listen ''port'' (VInt 8788))"
    "absent_or nonempty_str (getd listen ''host'' (VStr ''127.0.0.1''))"
    using listen_block_ok [OF li] by (auto simp: getd_def getv_def opt_val_def split: option.splits)
  have ds: "\<forall>p \<in> set ds. is_dict (snd p) \<and> absent_or positive_int (getv (dict_items (snd p)) ''max_connections'')"
  proof (cases "uses_v2 raw")
    case True
    then have "validate_destinations_block (getv raw ''destinations'') ps = Inr ds"
      using t by (auto simp: v2_tables_def Let_def load_simps)
    from destinations_ok [OF this] show ?thesis by blast
  next
    case False
    then show ?thesis using t
      by (auto simp: legacy_tables_def Let_def load_simps derive_from_legacy_def legacy_destination_def)
  qed
  have gv: "getv cfg ''sources'' = getv cfg ''senders''" "dict_items (getv cfg ''wake'') = wake"
    "dict_items (getv cfg ''state'') = state"
    using g by (simp_all add: getv_def opt_val_def)
  show ?thesis
    using ne se(2) gv wake_block_positive [OF bl(2)] state_block_ints [OF bl(1)] lst ds
    by (simp add: config_wf_def Let_def sender_table_def raw_destinations_def g gl list_all_iff case_prod_beta)
qed

end
