(* ===== verification/Config_Errors.thy ===== *)
theory Config_Errors
  imports Config_Props
begin

section \<open>Gates, webhook targets, crashes and ignored tables\<close>

subsection \<open>A file to load\<close>

definition offline :: "string \<Rightarrow> string list res" where
  "offline host = Inl (OSError ''no resolver'')"

definition demo_v2 :: dict where
  "demo_v2 =
     [(''version'', VInt 2),
      (''senders'', VDict [(''ci'', VDict [(''secret_env'', VStr ''CI''),
          (''allowed_trigger_identities'', VList [VStr ''alice'']),
          (''allowed_target_principals'', VList [VStr ''ops''])])]),
      (''principals'', VDict [(''ops'', VDict [])]),
      (''destinations'', VDict [(''main'', VDict [(''adapter'', VStr ''claude''), (''principal'', VStr ''ops'')]),
                                (''side'', VDict [(''max_connections'', VInt 2)])]),
      (''routes'', VList [VDict [(''sender'', VStr ''ci''), (''principal'', VStr ''ops''),
                                 (''destinations'', VList [VStr ''main''])],
                          VDict [(''sender'', VStr ''*''), (''destinations'', VStr ''side'')]])]"

definition demo_loaded :: cfg where
  "demo_loaded = (case load_config offline (Json (VDict demo_v2)) of Inr c \<Rightarrow> c | Inl _ \<Rightarrow> [])"

lemma demo_loads: "load_config offline (Json (VDict demo_v2)) = Inr demo_loaded"
  by code_simp

text \<open>A JSON object read into a dict has distinct keys; the senders keep those of the legacy table.\<close>

lemma legacy_senders_wf:
  assumes "load_config dns (Json (VDict raw)) = Inr cfg" "\<not> uses_v2 raw" "wf_dict (dict_items (getv raw ''sources''))"
  shows "wf_dict (sender_table cfg)"
  using assms(1)
proof (rule loaded_tables)
  fix raw' listen routing senders blocks ps ds rs del
  assume "Json (VDict raw) = Json (VDict raw')"
    and cs: "config_senders raw' (dict_items (getv raw' (if uses_v2 raw' then ''senders'' else ''sources'')))
       = Inr (senders, blocks)"
    and cfg: "cfg = normalised raw' listen routing senders blocks (ps, ds, rs, del)"
  then have raw: "raw' = raw" by simp
  from cs obtain state wake where b: "blocks = [(''state'', VDict state), (''wake'', VDict wake)]"
    and se: "map fst senders = map fst (dict_items (getv raw ''sources''))"
    using assms(2) unfolding raw by (elim config_senders_cases) (auto dest: senders_ok)
  have "sender_table cfg = senders"
    using normalised_get [OF b, of raw' listen routing senders ps ds rs del, folded cfg] by (simp add: sender_table_def)
  with se assms(3) show ?thesis by (simp add: wf_dict_def)
qed

lemma v2_routes_resolve:
  assumes "load_config dns (Json (VDict raw)) = Inr cfg" "uses_v2 raw" "r \<in> set (route_table cfg)"
  shows "route_resolves cfg r"
  using assms(1)
proof (rule loaded_tables)
  fix raw' listen routing senders blocks ps ds rs del
  assume "Json (VDict raw) = Json (VDict raw')"
    and cs: "config_senders raw' (dict_items (getv raw' (if uses_v2 raw' then ''senders'' else ''sources'')))
       = Inr (senders, blocks)"
    and t: "(if uses_v2 raw' then v2_tables dns raw' senders else legacy_tables dns raw' routing senders) = Inr (ps, ds, rs, del)"
    and cfg: "cfg = normalised raw' listen routing senders blocks (ps, ds, rs, del)"
  from cs obtain state wake where b: "blocks = [(''state'', VDict state), (''wake'', VDict wake)]"
    by (rule config_senders_cases)
  note g = normalised_get [OF b, of raw' listen routing senders ps ds rs del, folded cfg]
  show ?thesis
    using t assms(2) \<open>Json (VDict raw) = Json (VDict raw')\<close> v2_route_resolves [OF _ g(1-4) assms(3)] by simp
qed

text \<open>Claim C33: every route of a loaded file leads somewhere.  Its sender is configured or is the wildcard
  \<open>*\<close>; each destination it names exists, and it expands to exactly those; it names a destination or a
  principal; and the principal, when it names one, is declared and owns every destination the route expands
  to.  The keys of the legacy \<open>sources\<close> object are distinct, as they are in any dict.\<close>

theorem loaded_routes_resolve:
  assumes "load_config dns (Json (VDict raw)) = Inr cfg" and "r \<in> set (route_table cfg)"
    and "\<not> uses_v2 raw \<Longrightarrow> wf_dict (dict_items (getv raw ''sources''))"
  shows "route_resolves cfg r"
proof (cases "uses_v2 raw")
  case True
  show ?thesis by (rule v2_routes_resolve [OF assms(1) True assms(2)])
next
  case False
  show ?thesis
    by (rule routes_resolve [OF assms(1) legacy_senders_wf [OF assms(1) False assms(3) [OF False]] assms(2)])
qed

theorem loaded_routes_resolve_witness:
  "length (route_table demo_loaded) = 2 \<and> route_resolves demo_loaded (hd (route_table demo_loaded))
   \<and> route_resolves demo_loaded (last (route_table demo_loaded))"
proof -
  have "length (route_table demo_loaded) = 2" "uses_v2 demo_v2" by code_simp+
  then show ?thesis using loaded_routes_resolve [OF demo_loads] by (cases "route_table demo_loaded") auto
qed

text \<open>Claim C34: a loaded configuration is well formed.  It has at least one sender, each with usable
  secrets and well-formed allowlists; the rate and burst limits and the integer limits of the store are
  positive; the wake secret, when there is one, holds a key; the connection caps, when given, are positive;
  the listen host, when there is one, is a non-empty text; and the listen port is a number of a port, absent
  or null.  (A null port is kept as it is.  The literals \<open>NaN\<close> and \<open>Infinity\<close>, which Python's reader
  accepts, are not among the values of the model.)\<close>

theorem loaded_config_wf:
  assumes "load_config dns file = Inr cfg"
  shows "config_wf cfg"
  using assms by (rule loaded_shape)

theorem loaded_config_wf_witness: "config_wf demo_loaded"
  by (rule loaded_config_wf [OF demo_loads])

subsection \<open>Gates\<close>

lemma nonempty_strs_list: "nonempty_strs v \<Longrightarrow> \<exists>ids. v = VList (map VStr ids) \<and> [] \<notin> set ids"
proof (cases v)
  case (VList vs)
  moreover assume "nonempty_strs v"
  ultimately have "list_all nonempty_str vs" by simp
  then have "vs = map VStr (map py_str vs) \<and> [] \<notin> set (map py_str vs)"
    by (induction vs) (auto simp: nonempty_str_iff)
  with VList show ?thesis by blast
qed auto

text \<open>The gate of every loaded sender answers; it never raises and never matches a substring.\<close>

theorem loaded_gates_answer:
  assumes "load_config dns file = Inr cfg" "sender cfg s = Some e"
  shows "\<exists>ids uris. uris \<noteq> [] \<and> dget e ''secret_uris'' = Some (VList (map VStr uris))
     \<and> check_trigger_identity e header =
         Inr (if ids = [] then None
              else case header of
                     None \<Rightarrow> Some identity_missing
                   | Some h \<Rightarrow> if h = [] then Some identity_missing
                               else if h \<in> set ids then None else Some identity_not_allowed)"
proof -
  have "sender_ok (VDict e)"
  proof -
    have "(s, VDict e) \<in> set (sender_table cfg)"
      using assms(2) by (auto simp: sender_def dict_of_def split: option.splits pyval.splits dest: map_of_SomeD)
    then show ?thesis using loaded_shape [OF assms(1)] by (auto simp: config_wf_def Let_def list_all_iff)
  qed
  then have us: "case getv e ''secret_uris'' of VList us \<Rightarrow> us \<noteq> [] \<and> list_all nonempty_str us | _ \<Rightarrow> False"
    and al: "absent_or nonempty_strs (getv e ''allowed_trigger_identities'')"
    by (simp_all add: sender_ok_def Let_def)
  from us obtain vs where vs: "getv e ''secret_uris'' = VList vs" "vs \<noteq> []" "list_all nonempty_str vs"
    by (auto split: pyval.splits)
  then obtain uris where u: "VList vs = VList (map VStr uris)" using nonempty_strs_list [of "VList vs"] by auto
  show ?thesis
  proof (cases "getv e ''allowed_trigger_identities'' = VNone")
    case True
    then have "check_trigger_identity e header = Inr None"
      by (auto simp: check_trigger_identity_def getv_def opt_val_def split: option.splits)
    then show ?thesis using vs u
      by (intro exI [of _ "[]"] exI [of _ uris]) (auto simp: getv_Some)
  next
    case False
    with al obtain ids where ids: "getv e ''allowed_trigger_identities'' = VList (map VStr ids)"
      using nonempty_strs_list by (auto simp: absent_or_def)
    then have "dget e ''allowed_trigger_identities'' = Some (VList (map VStr ids))" by (simp add: getv_Some)
    then have "check_trigger_identity e header = Inr (if ids = [] then None
              else case header of
                     None \<Rightarrow> Some identity_missing
                   | Some h \<Rightarrow> if h = [] then Some identity_missing
                               else if h \<in> set ids then None else Some identity_not_allowed)"
      by (auto simp: check_trigger_identity_def split: option.split bool.split)
    then show ?thesis using vs u
      by (intro exI [of _ ids] exI [of _ uris]) (auto simp: getv_Some)
  qed
qed

theorem loaded_gates_answer_witness:
  "\<exists>e. sender demo_loaded ''ci'' = Some e
     \<and> (\<exists>r. check_trigger_identity e (Some ''ali'') = Inr (r :: identity_error option))"
proof -
  have "sender demo_loaded ''ci'' \<noteq> None" by code_simp
  then obtain e where "sender demo_loaded ''ci'' = Some e" by blast
  with loaded_gates_answer [OF demo_loads this, of "Some ''ali''"] show ?thesis by blast
qed

subsection \<open>Webhook targets\<close>

lemma channels_for_webhook:
  assumes "validate_channels_for dns pid channels = Inr out" "(''webhook'', c) \<in> set out"
  shows "\<exists>url suri p host as. c = VDict [(''url'', VStr url), (''secret_uri'', VStr suri)]
     \<and> urlparse url = Inr p \<and> u_scheme p \<in> {''http'', ''https''} \<and> u_hostname p = Some host
     \<and> dns host = Inr as \<and> as \<noteq> [] \<and> (\<forall>a \<in> set as. \<not> is_forbidden_address a)"
proof -
  from assms obtain cfg where "validate_webhook_channel dns cfg pid = Inr (dict_items c)" "is_dict c"
    by (auto simp: validate_channels_for_def load_simps validate_channel_def VALID_CHANNEL_KINDS_def
        dest!: each_result)
  then show ?thesis
    by (auto simp: validate_webhook_channel_def safe_webhook_url_def Let_def load_simps nonempty_str_iff is_dict_iff
        forbidden_address_def find_None_iff split: sum.splits option.splits exn.splits)
qed

text \<open>Every webhook of a loaded file has an http(s) URL whose host, when the file was loaded,
  resolved to at least one address and to none in a refused range.\<close>

theorem loaded_webhooks_checked:
  assumes "load_config dns file = Inr cfg" "getv cfg ''delivery'' = VDict table"
    "(pid, VDict channels) \<in> set table" "(''webhook'', c) \<in> set channels"
  shows "\<exists>url suri p host as. c = VDict [(''url'', VStr url), (''secret_uri'', VStr suri)]
     \<and> urlparse url = Inr p \<and> u_scheme p \<in> {''http'', ''https''} \<and> u_hostname p = Some host
     \<and> dns host = Inr as \<and> as \<noteq> [] \<and> (\<forall>a \<in> set as. \<not> is_forbidden_address a)"
proof -
  from assms(1) obtain raw ps ds rs del where
    t: "\<exists>senders routing. (if uses_v2 raw then v2_tables dns raw senders else legacy_tables dns raw routing senders)
        = Inr (ps, ds, rs, del)"
    and "getv cfg ''delivery'' = VDict del"
  proof (rule loaded_tables)
    fix raw listen routing senders blocks ps ds rs del
    assume t: "(if uses_v2 raw then v2_tables dns raw senders else legacy_tables dns raw routing senders) = Inr (ps, ds, rs, del)"
      and cfg: "cfg = normalised raw listen routing senders blocks (ps, ds, rs, del)"
      and cs: "config_senders raw (dict_items (getv raw (if uses_v2 raw then ''senders'' else ''sources'')))
         = Inr (senders, blocks)"
    from cs obtain state wake where b: "blocks = [(''state'', VDict state), (''wake'', VDict wake)]"
      by (rule config_senders_cases)
    from normalised_get(5) [OF b, of raw listen routing senders ps ds rs del, folded cfg]
    have "getv cfg ''delivery'' = VDict del" by (simp add: getv_def opt_val_def)
    moreover have "\<exists>senders routing. (if uses_v2 raw then v2_tables dns raw senders
        else legacy_tables dns raw routing senders) = Inr (ps, ds, rs, del)"
      using t by blast
    ultimately show thesis using that by blast
  qed
  then have mem: "(pid, VDict channels) \<in> set del" using assms(2,3) by simp
  have "\<exists>raw_channels. validate_channels_for dns pid raw_channels = Inr channels"
  proof (cases "uses_v2 raw")
    case True
    with t have p: "validate_principals_v2 dns
          (if truthy (getv raw ''principals'') then getv raw ''principals'' else VDict []) = Inr ps"
      and d: "del = filter (\<lambda>(_, channels). truthy channels)
          (map (\<lambda>(pid, entry). (pid, getv (dict_items entry) ''channels'')) ps)"
      by (auto simp: v2_tables_def Let_def load_simps)
    from mem d obtain entry where en: "(pid, entry) \<in> set ps" "getv (dict_items entry) ''channels'' = VDict channels"
      "channels \<noteq> []" by auto
    from p obtain raws where "each (validate_principal dns) raws = Inr ps"
      by (auto simp: validate_principals_v2_def load_simps)
    from each_result [OF this en(1)] obtain q where "validate_principal dns q = Inr (pid, entry)" by blast
    with en show ?thesis
      by (cases q) (auto simp: validate_principal_def Let_def load_simps channels_entry_def split: if_splits)
  next
    case False
    with t obtain rows where "each (validate_channel_row dns) rows = Inr del"
      using mem by (auto simp: legacy_tables_def Let_def load_simps validate_channel_table_def split: if_splits)
    from each_result [OF this mem] show ?thesis by (auto simp: validate_channel_row_def load_simps)
  qed
  with channels_for_webhook assms(4) show ?thesis by blast
qed

definition demo_v1 :: dict where
  "demo_v1 =
     [(''version'', VInt 1),
      (''sources'', VDict [(''ci'', VDict [(''secret'', VStr ''env://CI'')])]),
      (''delivery'', VDict [(''ops'', VDict [(''webhook'', VDict [(''url'', VStr ''https://hook.example/x''),
                                                                  (''secret_uri'', VStr ''env://HOOK'')])])])]"

definition public_dns :: "string \<Rightarrow> string list res" where
  "public_dns host = Inr [''93.184.216.34'']"

definition demo_v1_loaded :: cfg where
  "demo_v1_loaded = (case load_config public_dns (Json (VDict demo_v1)) of Inr c \<Rightarrow> c | Inl _ \<Rightarrow> [])"

lemma demo_v1_loads: "load_config public_dns (Json (VDict demo_v1)) = Inr demo_v1_loaded"
  by code_simp

theorem loaded_webhooks_checked_witness:
  "\<exists>as. public_dns ''hook.example'' = Inr as \<and> \<not> is_forbidden_address (hd as)"
proof -
  let ?c = "VDict [(''url'', VStr ''https://hook.example/x''), (''secret_uri'', VStr ''env://HOOK'')]"
  have "getv demo_v1_loaded ''delivery'' = VDict [(''ops'', VDict [(''webhook'', ?c)])]" by code_simp
  from loaded_webhooks_checked [OF demo_v1_loads this, of "''ops''" "[(''webhook'', ?c)]" ?c]
  obtain host as where "public_dns host = Inr as" "as \<noteq> []" "\<forall>a \<in> set as. \<not> is_forbidden_address a" by auto
  then show ?thesis by (auto simp: public_dns_def)
qed

subsection \<open>Ignored tables\<close>

text \<open>A file with v2 tables is loaded as if its \<open>routing\<close> and \<open>delivery\<close> tables were not there,
  as long as \<open>routes\<close> and \<open>principals\<close> are missing: a half-migrated file silently loses its routes
  or its channels.\<close>

theorem half_migrated_tables_ignored:
  assumes "has_key raw ''senders''" "\<not> mixed_vocabulary raw" "absent_or is_dict (getv raw ''routing'')"
  shows "load_object dns raw = load_object dns (dpop ''routing'' (dpop ''delivery'' raw))"
proof -
  let ?raw' = "dpop ''routing'' (dpop ''delivery'' raw)"
  have g: "dget ?raw' k = dget raw k" if "k \<notin> {''routing'', ''delivery''}" for k
    using that by (simp add: dget_dpop)
  have k: "getv ?raw' k = getv raw k" "has_key ?raw' k = has_key raw k" "getd ?raw' k v = getd raw k v"
    if "k \<notin> {''routing'', ''delivery''}" for k v
    using g [OF that] by (simp_all add: getv_def has_key_def getd_def)
  have v2: "uses_v2 raw" "uses_v2 ?raw'"
    using assms(1) by (simp_all add: uses_v2_def VOCABULARY_PAIRS_def k)
  have mixed: "\<not> mixed_vocabulary ?raw'"
    using assms(2) by (auto simp: mixed_vocabulary_def VOCABULARY_PAIRS_def k) (simp_all add: has_key_def dget_dpop)
  have tables: "list_all (\<lambda>k. absent_or is_dict (getv ?raw' k))
        [''sources'', ''routing'', ''senders'', ''destinations'', ''principals''] \<longleftrightarrow>
      list_all (\<lambda>k. absent_or is_dict (getv raw k))
        [''sources'', ''routing'', ''senders'', ''destinations'', ''principals'']"
    using assms(3) by (simp add: k) (simp add: getv_def dget_dpop opt_val_def)
  show ?thesis
    unfolding load_object_def Let_def
    using v2 mixed assms(2) tables
    by (simp add: k config_senders_def v2_tables_def normalised_def Let_def)
qed

text \<open>A file whose senders were moved to the v2 table but whose routes were not.\<close>

definition half_migrated :: dict where
  "half_migrated =
     [(''senders'', VDict [(''ci'', VDict [(''secret_env'', VStr ''CI'')])]),
      (''routing'', VDict [(''ci'', VDict [(''adapter'', VStr ''claude'')])])]"

theorem half_migrated_tables_ignored_witness:
  "load_object offline half_migrated = load_object offline (dpop ''routing'' (dpop ''delivery'' half_migrated))
   \<and> (case load_object offline half_migrated of Inr cfg \<Rightarrow> routed_destinations cfg ''ci'' = [] | Inl _ \<Rightarrow> False)"
proof
  have "has_key half_migrated ''senders''" "\<not> mixed_vocabulary half_migrated"
    "absent_or is_dict (getv half_migrated ''routing'')" by code_simp+
  then show "load_object offline half_migrated = load_object offline (dpop ''routing'' (dpop ''delivery'' half_migrated))"
    by (rule half_migrated_tables_ignored)
  show "case load_object offline half_migrated of Inr cfg \<Rightarrow> routed_destinations cfg ''ci'' = [] | Inl _ \<Rightarrow> False"
    by code_simp
qed

subsection \<open>Crashes\<close>

lemma parse_uri_no_crash: "parse_uri u s \<noteq> Inl (Crash e)"
  by (auto simp: parse_uri_def crash_simps split: sum.split)

lemma secret_uris_no_crash: "secret_uris_of n info \<noteq> Inl (Crash e)"
proof
  assume "secret_uris_of n info = Inl (Crash e)"
  then obtain vs where "each (uri_entry n) vs = Inl (Crash e)"
    by (auto simp: secret_uris_of_def crash_simps parse_uri_no_crash split: if_splits pyval.splits)
  from each_Crashed [OF this] obtain v where "uri_entry n v = Inl (Crash e)" by blast
  then show False by (cases v) (simp_all add: uri_entry_def parse_uri_no_crash)
qed

lemma senders_no_crash: "each (validate_sender url) srcs \<noteq> Inl (Crash e)"
proof
  assume "each (validate_sender url) srcs = Inl (Crash e)"
  from each_Crashed [OF this] obtain x where "validate_sender url x = Inl (Crash e)" by blast
  then show False
    by (cases x) (auto simp: validate_sender_def Let_def crash_simps secret_uris_no_crash)
qed

lemma vault_no_crash: "validate_vault_block v \<noteq> Inl (Crash e)"
  by (auto simp: validate_vault_block_def crash_simps split: pyval.split)

lemma each_demand_no_crash: "each (\<lambda>x. demand (ok x) (w x) (Inr (g x))) xs \<noteq> Inl (Crash e)"
  by (induction xs) (auto simp: crash_simps)

lemma state_crash:
  "validate_state_block v = Inl (Crash e) \<Longrightarrow>
   e = TypeError \<and> (\<exists>d. v = VDict d \<and> unhashable (getv d ''default_delivery''))"
  by (auto simp: validate_state_block_def Let_def crash_simps each_demand_no_crash split: pyval.splits if_splits)

lemma to_float_crash:
  "to_float x = Inl (Crash e) \<Longrightarrow>
   e = OtherError ''OverflowError'' \<and> (\<exists>i. x = VInt i \<and> 2 ^ 1024 - 2 ^ 970 \<le> i)"
  by (cases x) (auto simp del: power_numeral split: if_splits)

lemma wake_crash:
  assumes "validate_wake_block v = Inl (Crash e)"
  shows "e = OtherError ''OverflowError'' \<and> (\<exists>d i. v = VDict d \<and> dget d ''ingest_rate_limit'' = Some (VInt i)
     \<and> 2 ^ 1024 - 2 ^ 970 \<le> i)"
proof -
  from assms obtain d where d: "v = VDict d"
    "to_float (getd d ''ingest_rate_limit'' DEFAULT_INGEST_RATE_LIMIT) = Inl (Crash e)"
    by (auto simp: validate_wake_block_def Let_def crash_simps split: pyval.splits)
  from to_float_crash [OF d(2)] obtain i where
    i: "e = OtherError ''OverflowError''" "getd d ''ingest_rate_limit'' DEFAULT_INGEST_RATE_LIMIT = VInt i"
    "2 ^ 1024 - 2 ^ 970 \<le> i" by blast
  have "dget d ''ingest_rate_limit'' = Some (VInt i)"
    using i(2) by (auto simp: getd_def DEFAULT_INGEST_RATE_LIMIT_def split: option.splits)
  with d(1) i show ?thesis by blast
qed

lemma listen_no_crash: "validate_listen_block v \<noteq> Inl (Crash e)"
  by (auto simp: validate_listen_block_def crash_simps split: pyval.split)

text \<open>The URLs of the webhooks a file lists, under either vocabulary.\<close>

definition channel_tables :: "dict \<Rightarrow> pyval list" where
  "channel_tables raw =
     (if uses_v2 raw then map (\<lambda>(_, e). getv (dict_items e) ''channels'') (dict_items (getv raw ''principals''))
      else map snd (dict_items (getv raw ''delivery'')))"

definition webhook_urls :: "dict \<Rightarrow> pyval list" where
  "webhook_urls raw =
     concat (map (\<lambda>ch. map (\<lambda>(_, c). getv (dict_items c) ''url'')
       (filter (\<lambda>(kind, _). kind = ''webhook'') (dict_items ch))) (channel_tables raw))"

lemma email_no_crash: "validate_email_channel c pid \<noteq> Inl (Crash e)"
  by (auto simp: validate_email_channel_def Let_def crash_simps parse_uri_no_crash each_demand_no_crash)

lemma channels_crash:
  assumes "validate_channels_for dns pid channels = Inl (Crash e)"
  shows "\<exists>c url. (''webhook'', c) \<in> set channels \<and> getv (dict_items c) ''url'' = VStr url
     \<and> (urlparse url = Inl e \<or> (\<exists>host. dns host = Inl e \<and> (\<forall>t. e \<noteq> OSError t)))"
proof -
  from assms obtain kind c where kc: "(kind, c) \<in> set channels" "kind \<in> set VALID_CHANNEL_KINDS"
    "validate_channel dns kind (dict_items c) pid = Inl (Crash e)"
    by (auto simp: validate_channels_for_def crash_simps dest!: each_Crashed)
  then have "kind = ''webhook''" and w: "validate_webhook_channel dns (dict_items c) pid = Inl (Crash e)"
    by (auto simp: validate_channel_def VALID_CHANNEL_KINDS_def email_no_crash)
  from w obtain url where "getv (dict_items c) ''url'' = VStr url" "safe_webhook_url dns pid url = Inl (Crash e)"
    by (auto simp: validate_webhook_channel_def Let_def crash_simps parse_uri_no_crash nonempty_str_iff)
  moreover from this(2) have "urlparse url = Inl e \<or> (\<exists>host. dns host = Inl e \<and> (\<forall>t. e \<noteq> OSError t))"
    by (auto simp: safe_webhook_url_def crash_simps split: sum.splits option.splits exn.splits)
  ultimately show ?thesis using kc(1) \<open>kind = ''webhook''\<close> by blast
qed

lemma webhook_urls_mem:
  "ch \<in> set (channel_tables raw) \<Longrightarrow> (''webhook'', c) \<in> set (dict_items ch) \<Longrightarrow>
   getv (dict_items c) ''url'' = VStr url \<Longrightarrow> VStr url \<in> set (webhook_urls raw)"
  by (force simp: webhook_urls_def)

lemma v2_tables_crash:
  assumes "v2_tables dns raw senders = Inl (Crash e)" "uses_v2 raw"
  shows "\<exists>url. VStr url \<in> set (webhook_urls raw)
     \<and> (urlparse url = Inl e \<or> (\<exists>host. dns host = Inl e \<and> (\<forall>t. e \<noteq> OSError t)))"
proof -
  have d: "validate_destinations_block v ps \<noteq> Inl (Crash e)" for v ps
    by (auto simp: validate_destinations_block_def validate_destination_def Let_def crash_simps dest!: each_Crashed)
  have r: "validate_routes_block v ss ds ps \<noteq> Inl (Crash e)" for v ss ds ps
    by (auto simp: validate_routes_block_def validate_route_def Let_def crash_simps dest!: each_Crashed
        split: pyval.splits option.splits)
  from assms(1) d r have "validate_principals_v2 dns
      (if truthy (getv raw ''principals'') then getv raw ''principals'' else VDict []) = Inl (Crash e)"
    by (auto simp: v2_tables_def Let_def crash_simps)
  then obtain pid entry where en: "(pid, entry) \<in> set (dict_items (getv raw ''principals''))"
    "validate_channels_for dns pid (dict_items (getv (dict_items entry) ''channels'')) = Inl (Crash e)"
    by (auto simp: validate_principals_v2_def validate_principal_def Let_def crash_simps dest!: each_Crashed split: if_splits)
  from channels_crash [OF en(2)] obtain c url where
    c: "(''webhook'', c) \<in> set (dict_items (getv (dict_items entry) ''channels''))" "getv (dict_items c) ''url'' = VStr url"
    "urlparse url = Inl e \<or> (\<exists>host. dns host = Inl e \<and> (\<forall>t. e \<noteq> OSError t))" by blast
  have "getv (dict_items entry) ''channels'' \<in> set (channel_tables raw)"
    using en(1) assms(2) by (force simp: channel_tables_def)
  from webhook_urls_mem [OF this c(1,2)] c(3) show ?thesis by blast
qed

lemma legacy_tables_crash:
  assumes "legacy_tables dns raw routing senders = Inl (Crash e)" "\<not> uses_v2 raw"
  shows "\<exists>url. VStr url \<in> set (webhook_urls raw)
     \<and> (urlparse url = Inl e \<or> (\<exists>host. dns host = Inl e \<and> (\<forall>t. e \<noteq> OSError t)))"
proof -
  from assms(1) obtain pid ch where en: "(pid, ch) \<in> set (dict_items (getv raw ''delivery''))"
    "validate_channels_for dns pid (dict_items ch) = Inl (Crash e)"
    by (auto simp: legacy_tables_def validate_channel_table_def validate_channel_row_def Let_def crash_simps dest!: each_Crashed split: if_splits)
  from channels_crash [OF en(2)] obtain c url where
    c: "(''webhook'', c) \<in> set (dict_items ch)" "getv (dict_items c) ''url'' = VStr url"
    "urlparse url = Inl e \<or> (\<exists>host. dns host = Inl e \<and> (\<forall>t. e \<noteq> OSError t))" by blast
  have "ch \<in> set (channel_tables raw)" using en(1) assms(2) by (force simp: channel_tables_def)
  from webhook_urls_mem [OF this c(1,2)] c(3) show ?thesis by blast
qed

lemma routing_crash:
  assumes "legacy_routing raw = Inl (Crash e)" "absent_or is_dict (getv raw ''routing'')"
  shows "dget raw ''routing'' = Some VNone \<and> e = AttributeError"
  using assms
  by (auto simp: legacy_routing_def getd_def getv_def opt_val_def absent_or_def is_dict_iff crash_simps
      dest!: each_Crashed split: option.splits pyval.splits)

text \<open>Claim C35: loading ends in an exception other than \<open>ConfigError\<close> only for a file that cannot be read, a
  v1 file whose \<open>routing\<close> is null, a delivery mode that is a list or an object, a rate too large for
  a float, a webhook URL that \<open>urlparse\<close> rejects, or a name server that raises something other
  than an \<open>OSError\<close>.\<close>

theorem load_crashes_only:
  assumes "load_config dns file = Inl (Crash e)"
  shows "file = Unreadable e \<or> (\<exists>raw. file = Json (VDict raw) \<and>
     ((\<not> uses_v2 raw \<and> dget raw ''routing'' = Some VNone \<and> e = AttributeError)
      \<or> (e = TypeError \<and> unhashable (getv (dict_items (getv raw ''state'')) ''default_delivery''))
      \<or> (e = OtherError ''OverflowError'' \<and> (\<exists>i. dget (dict_items (getv raw ''wake'')) ''ingest_rate_limit'' = Some (VInt i)
           \<and> 2 ^ 1024 - 2 ^ 970 \<le> i))
      \<or> (\<exists>url. VStr url \<in> set (webhook_urls raw)
           \<and> (urlparse url = Inl e \<or> (\<exists>host. dns host = Inl e \<and> (\<forall>t. e \<noteq> OSError t))))))"
proof (cases "file = Unreadable e")
  case False
  with assms obtain raw where raw: "file = Json (VDict raw)" "load_object dns raw = Inl (Crash e)"
    by (auto simp: load_config_def split: config_file.splits pyval.splits)
  have ro: "absent_or is_dict (getv raw ''routing'')"
    using raw(2) by (simp add: load_object_def crash_simps)
  consider (routing) "legacy_routing raw = Inl (Crash e)" "\<not> uses_v2 raw"
    | (blocks) srcs where "config_senders raw srcs = Inl (Crash e)"
    | (v2) senders where "uses_v2 raw" "v2_tables dns raw senders = Inl (Crash e)"
    | (legacy) routing senders where "\<not> uses_v2 raw" "legacy_tables dns raw routing senders = Inl (Crash e)"
    using raw(2)
    by (auto simp: load_object_def Let_def crash_simps listen_no_crash split: if_splits prod.splits)
  then show ?thesis
  proof cases
    case routing
    with routing_crash [OF routing(1) ro] raw(1) show ?thesis by blast
  next
    case blocks
    then have "validate_state_block (getv raw ''state'') = Inl (Crash e)
        \<or> validate_wake_block (getv raw ''wake'') = Inl (Crash e)"
      by (auto simp: config_senders_def Let_def crash_simps senders_no_crash vault_no_crash split: if_splits)
    then show ?thesis
    proof
      assume "validate_state_block (getv raw ''state'') = Inl (Crash e)"
      then have "e = TypeError \<and> unhashable (getv (dict_items (getv raw ''state'')) ''default_delivery'')"
        by (auto dest!: state_crash)
      with raw(1) show ?thesis by blast
    next
      assume "validate_wake_block (getv raw ''wake'') = Inl (Crash e)"
      then obtain d i where "getv raw ''wake'' = VDict d" "e = OtherError ''OverflowError''"
        "dget d ''ingest_rate_limit'' = Some (VInt i)" "2 ^ 1024 - 2 ^ 970 \<le> i"
        by (metis wake_crash)
      then have "e = OtherError ''OverflowError'' \<and> (\<exists>i. dget (dict_items (getv raw ''wake'')) ''ingest_rate_limit'' = Some (VInt i)
           \<and> 2 ^ 1024 - 2 ^ 970 \<le> i)" by (simp del: power_numeral)
      with raw(1) show ?thesis by blast
    qed
  next
    case v2
    from v2_tables_crash [OF v2(2,1)] raw(1) show ?thesis by blast
  next
    case legacy
    from legacy_tables_crash [OF legacy(2,1)] raw(1) show ?thesis by blast
  qed
qed simp

definition routing_null :: dict where
  "routing_null = [(''sources'', VDict [(''ci'', VDict [(''secret_env'', VStr ''CI'')])]), (''routing'', VNone)]"

theorem load_crashes_only_witness:
  "load_config offline (Json (VDict routing_null)) = Inl (Crash AttributeError)
   \<and> dget routing_null ''routing'' = Some VNone"
proof -
  have c: "load_config offline (Json (VDict routing_null)) = Inl (Crash AttributeError)" by code_simp
  have "webhook_urls routing_null = []" by code_simp
  then have "dget routing_null ''routing'' = Some VNone" using load_crashes_only [OF c] by auto
  with c show ?thesis by simp
qed

text \<open>The scheme test of \<open>_has_vault_uri\<close> is on the spelling, the one of \<open>_parse_uri\<close> is not: an
  upper-case \<open>VAULT://\<close> secret is accepted without a \<open>vault\<close> block.\<close>

lemma vault_spelling_missed:
  "parse_uri ''VAULT://secret/x#K'' ''ci'' = Inr ''VAULT://secret/x#K'' \<and> \<not> has_vault_uri [''VAULT://secret/x#K'']"
  by code_simp

end
