(* ===== verification/Migrate.thy ===== *)
theory Migrate
  imports Config_Props "HOL-Library.List_Lexorder" "HOL-Library.Char_ord"
begin

section \<open>Migrating a v1 file (\<open>cli/config_cmd.py\<close>)\<close>

text \<open>
  \<open>migrate_raw\<close> prints the v2 form of a raw v0/v1 document.  A legacy file that the daemon loads
  keeps, once migrated, its senders, its principals and what every sender reaches; its \<open>wake\<close>
  block is lost.  Principal identifiers are strings, as the loader demands.
\<close>

definition or_empty :: "pyval \<Rightarrow> pyval" where
  "or_empty v = (if truthy v then v else VDict [])"

definition migrated_sender :: "pyval \<Rightarrow> pyval" where
  "migrated_sender v =
     (let info = dict_items v; pid = getv info ''principal_id'';
          entry = filter (\<lambda>(k, _). k \<noteq> ''principal_id'') info
      in VDict (if truthy pid then dset ''identity'' pid entry else entry))"

definition PASSTHROUGH :: "string list" where
  "PASSTHROUGH = [''listen'', ''socket_path'', ''default_callback_url'', ''state'', ''vault'']"

definition passed_through :: "dict \<Rightarrow> dict" where
  "passed_through raw = concat (map (\<lambda>k. case dget raw k of None \<Rightarrow> [] | Some v \<Rightarrow> [(k, v)]) PASSTHROUGH)"

definition drop_nulls :: "pyval \<Rightarrow> pyval" where
  "drop_nulls v = VDict (filter (\<lambda>(_, x). x \<noteq> VNone) (dict_items v))"

definition short_route :: "pyval \<Rightarrow> pyval" where
  "short_route r =
     VDict [(''sender'', getv (dict_items r) ''sender''), (''destinations'', getv (dict_items r) ''destinations'')]"

definition migrated :: "dict \<Rightarrow> dict \<Rightarrow> dict \<Rightarrow> dict \<Rightarrow> dict" where
  "migrated raw sources routing delivery =
     (let derived = derive_from_legacy sources routing delivery in
      [(''version'', VInt 2)] @ passed_through raw
      @ [(''senders'', VDict (map (\<lambda>(n, v). (n, migrated_sender v)) sources)),
         (''principals'', VDict (lv_principals derived)),
         (''destinations'', VDict (map (\<lambda>(n, v). (n, drop_nulls v)) (lv_destinations derived))),
         (''routes'', VList (map short_route (lv_routes derived)))])"

definition migrate_raw :: "dict \<Rightarrow> dict checked" where
  "migrate_raw raw =
     demand (\<not> has_key raw ''senders'') ''senders''
       (case (or_empty (getv raw ''sources''), or_empty (getv raw ''delivery'')) of
          (VDict sources, VDict delivery) \<Rightarrow>
            if list_all (\<lambda>(_, v). is_dict v) sources
            then Inr (migrated raw sources (dict_items (or_empty (getv raw ''routing''))) delivery)
            else Inl (Crash AttributeError)
        | _ \<Rightarrow> Inl (Crash AttributeError))"

text \<open>A note names a sender whose identity is also the principal of destinations.\<close>

definition conflation_notes :: "dict \<Rightarrow> (string \<times> pyval \<times> string list) list" where
  "conflation_notes doc =
     (let destinations = dict_items (or_empty (getv doc ''destinations'')) in
      List.map_filter (\<lambda>(sender_name, entry).
        let identity = getv (dict_items entry) ''identity'';
            owned = map fst (filter (\<lambda>(_, dest). getv (dict_items dest) ''principal'' = identity) destinations)
        in if truthy identity \<and> owned \<noteq> [] then Some (sender_name, identity, sort owned) else None)
        (dict_items (or_empty (getv doc ''senders''))))"

subsection \<open>The parts of a migrated document\<close>

lemma getv_append: "getv (xs @ ys) k = (if has_key xs k then getv xs k else getv ys k)"
  by (auto simp: getv_def has_key_def opt_val_def map_add_def split: option.split)

lemma has_key_append [simp]: "has_key (xs @ ys) k \<longleftrightarrow> has_key xs k \<or> has_key ys k"
  by (auto simp: has_key_iff)

lemma passed_get: "dget (passed_through raw) k = (if k \<in> set PASSTHROUGH then dget raw k else None)"
proof -
  have "dget (concat (map (\<lambda>k. case dget raw k of None \<Rightarrow> [] | Some v \<Rightarrow> [(k, v)]) ks)) k =
      (if k \<in> set ks then dget raw k else None)" for ks
    by (induction ks) (auto simp: map_add_def split: option.splits)
  then show ?thesis by (simp add: passed_through_def)
qed

lemma migrated_get:
  "getv (migrated raw sources routing delivery) ''version'' = VInt 2"
  "k \<in> set PASSTHROUGH \<Longrightarrow> getv (migrated raw sources routing delivery) k = getv raw k"
  "getv (migrated raw sources routing delivery) ''senders'' = VDict (map (\<lambda>(n, v). (n, migrated_sender v)) sources)"
  "getv (migrated raw sources routing delivery) ''principals''
     = VDict (lv_principals (derive_from_legacy sources routing delivery))"
  "getv (migrated raw sources routing delivery) ''destinations''
     = VDict (map (\<lambda>(n, v). (n, drop_nulls v)) (lv_destinations (derive_from_legacy sources routing delivery)))"
  "getv (migrated raw sources routing delivery) ''routes''
     = VList (map short_route (lv_routes (derive_from_legacy sources routing delivery)))"
  "getv (migrated raw sources routing delivery) ''wake'' = VNone"
  "k \<in> {''sources'', ''routing'', ''delivery''} \<Longrightarrow> \<not> has_key (migrated raw sources routing delivery) k"
  "has_key (migrated raw sources routing delivery) ''senders''"
  "dget (migrated raw sources routing delivery) ''version'' = Some (VInt 2)"
proof -
  let ?m = "migrated raw sources routing delivery"
  let ?tail = "[(''senders'', VDict (map (\<lambda>(n, v). (n, migrated_sender v)) sources)),
     (''principals'', VDict (lv_principals (derive_from_legacy sources routing delivery))),
     (''destinations'', VDict (map (\<lambda>(n, v). (n, drop_nulls v)) (lv_destinations (derive_from_legacy sources routing delivery)))),
     (''routes'', VList (map short_route (lv_routes (derive_from_legacy sources routing delivery))))]"
  have get: "dget ?m k = (if k = ''version'' then Some (VInt 2)
      else if k \<in> set PASSTHROUGH then (case dget raw k of None \<Rightarrow> dget ?tail k | Some v \<Rightarrow> Some v)
      else dget ?tail k)" for k
    unfolding migrated_def Let_def map_of_append map_add_def passed_get
    by (cases "k = ''version''"; cases "k \<in> set PASSTHROUGH"; cases "dget raw k") simp_all
  have tail: "dget ?tail k = None" if "k \<in> set PASSTHROUGH \<or> k \<in> {''sources'', ''routing'', ''delivery'', ''wake''}" for k
    using that by (auto simp: PASSTHROUGH_def)
  have np: "k \<notin> set PASSTHROUGH" if "k \<in> {''senders'', ''principals'', ''destinations'', ''routes'', ''wake'', ''version'',
      ''sources'', ''routing'', ''delivery''}" for k
    using that by (auto simp: PASSTHROUGH_def)
  show "dget ?m ''version'' = Some (VInt 2)" "getv ?m ''version'' = VInt 2"
    by (simp_all add: get getv_def opt_val_def)
  show "getv ?m k = getv raw k" if "k \<in> set PASSTHROUGH"
  proof -
    have "k \<noteq> ''version''" using that by (auto simp: PASSTHROUGH_def)
    then show ?thesis using that tail [of k] by (simp add: get getv_def split: option.split)
  qed
  show "\<not> has_key ?m k" if "k \<in> {''sources'', ''routing'', ''delivery''}"
    unfolding has_key_def get using that np [of k] tail [of k] by auto
  show "getv ?m ''wake'' = VNone" unfolding getv_def get by (simp add: np opt_val_def)
  show "has_key ?m ''senders''" unfolding has_key_def get by (simp add: np)
  show "getv ?m ''senders'' = VDict (map (\<lambda>(n, v). (n, migrated_sender v)) sources)"
    "getv ?m ''principals'' = VDict (lv_principals (derive_from_legacy sources routing delivery))"
    "getv ?m ''destinations'' = VDict (map (\<lambda>(n, v). (n, drop_nulls v)) (lv_destinations (derive_from_legacy sources routing delivery)))"
    "getv ?m ''routes'' = VList (map short_route (lv_routes (derive_from_legacy sources routing delivery)))"
    unfolding getv_def get by (simp_all add: np opt_val_def)
qed

lemma each_map: "\<forall>x \<in> set xs. f (g x) = Inr (h x) \<Longrightarrow> each f (map g xs) = Inr (map h xs)"
  by (induction xs) (simp_all add: load_simps)

lemma each_append: "each f xs = Inr ys \<Longrightarrow> each f xs' = Inr ys' \<Longrightarrow> each f (xs @ xs') = Inr (ys @ ys')"
  by (induction xs arbitrary: ys) (auto simp: load_simps)

lemma each_rel:
  "each f xs = Inr ys \<Longrightarrow> (\<And>x y. x \<in> set xs \<Longrightarrow> f x = Inr y \<Longrightarrow> f' (g x) = Inr (h y)) \<Longrightarrow>
   each f' (map g xs) = Inr (map h ys)"
  by (induction xs arbitrary: ys) (auto simp: load_simps)

lemma each_map_eq:
  "each f xs = Inr ys \<Longrightarrow> (\<And>x y. x \<in> set xs \<Longrightarrow> f x = Inr y \<Longrightarrow> g x = h y) \<Longrightarrow> map g xs = map h ys"
  by (induction xs arbitrary: ys) (auto simp: load_simps)

subsection \<open>Senders\<close>

lemma getv_filter: "getv (filter (\<lambda>(k, _). k \<noteq> j) d) k = (if k = j then VNone else getv d k)"
  by (induction d) (auto simp: getv_def opt_val_def)

lemma has_key_filter: "has_key (filter (\<lambda>(k, _). k \<noteq> j) d) k \<longleftrightarrow> k \<noteq> j \<and> has_key d k"
  by (auto simp: has_key_iff)

lemma getv_dset: "getv (dset j v d) k = (if k = j then v else getv d k)"
  by (simp add: getv_def opt_val_def dget_dset)

lemma has_key_dset: "has_key (dset j v d) k \<longleftrightarrow> k = j \<or> has_key d k"
  by (simp add: has_key_def dget_dset)

lemma getd_absent: "\<not> has_key d k \<Longrightarrow> getd d k v = v"
  by (simp add: has_key_def getd_def)

lemma getd_present: "has_key d k \<Longrightarrow> getd d k v = getv d k"
  by (auto simp: has_key_def getd_def getv_def opt_val_def)

lemma migrated_sender_get:
  assumes "k \<noteq> ''identity''" "k \<noteq> ''principal_id''"
  shows "getv (dict_items (migrated_sender v)) k = getv (dict_items v) k"
    and "has_key (dict_items (migrated_sender v)) k = has_key (dict_items v) k"
  using assms by (simp_all add: migrated_sender_def Let_def getv_dset getv_filter has_key_dset has_key_filter)

lemma migrated_identity:
  assumes "\<not> has_key (dict_items v) ''identity''"
    "absent_or nonempty_str (getv (dict_items v) ''principal_id'')"
  shows "getd (dict_items (migrated_sender v)) ''identity'' (getv (dict_items (migrated_sender v)) ''principal_id'')
      = getv (dict_items v) ''principal_id''"
proof (cases "getv (dict_items v) ''principal_id'' = VNone")
  case True
  with assms(1) show ?thesis
    by (simp add: migrated_sender_def Let_def getd_absent has_key_filter getv_filter)
next
  case False
  with assms(2) have "truthy (getv (dict_items v) ''principal_id'')" by (auto simp: nonempty_str_iff)
  then show ?thesis by (simp add: migrated_sender_def Let_def getd_present has_key_dset getv_dset)
qed

lemma migrated_sender_same:
  assumes "validate_sender url (n, v) = Inr y" "\<not> has_key (dict_items v) ''identity''"
  shows "validate_sender url (n, migrated_sender v) = Inr y
     \<and> getv (dict_items (snd y)) ''principal_id'' = getv (dict_items v) ''principal_id''"
proof -
  have id: "getd (dict_items v) ''identity'' (getv (dict_items v) ''principal_id'') = getv (dict_items v) ''principal_id''"
    using assms(2) by (rule getd_absent)
  with assms(1) have ok: "absent_or nonempty_str (getv (dict_items v) ''principal_id'')"
    and pid: "getv (dict_items (snd y)) ''principal_id'' = getv (dict_items v) ''principal_id''"
    by (auto simp: validate_sender_def Let_def load_simps)
  have uris: "secret_uris_of n (dict_items (migrated_sender v)) = secret_uris_of n (dict_items v)"
    by (simp add: secret_uris_of_def migrated_sender_get)
  have "is_dict (migrated_sender v)" "is_dict v"
    using assms(1) by (simp_all add: migrated_sender_def Let_def validate_sender_def load_simps)
  then have "validate_sender url (n, migrated_sender v) = validate_sender url (n, v)"
    by (simp add: validate_sender_def Let_def uris migrated_sender_get id migrated_identity [OF assms(2) ok])
  with assms(1) pid show ?thesis by simp
qed

subsection \<open>Tables\<close>

text \<open>A legacy file whose names and adapters are not empty and that does not use the v2
  \<open>identity\<close> key already.\<close>

definition migratable :: "dict \<Rightarrow> bool" where
  "migratable raw \<longleftrightarrow>
     list_all (\<lambda>(n, v). n \<noteq> [] \<and> \<not> has_key (dict_items v) ''identity'') (dict_items (getv raw ''sources''))
     \<and> list_all (\<lambda>(_, e). getv (dict_items e) ''adapter'' \<noteq> VStr []) (dict_items (getv raw ''routing''))"

definition adapter_for :: "dict \<Rightarrow> string \<Rightarrow> pyval" where
  "adapter_for routing n = (case dget routing n of Some (VDict e) \<Rightarrow> getv e ''adapter'' | _ \<Rightarrow> VNone)"

lemma legacy_destination_eq:
  "legacy_destination routing n info =
     VDict [(''adapter'', adapter_for routing n), (''session'', VNone), (''principal'', getv info ''principal_id'')]"
  by (auto simp: legacy_destination_def adapter_for_def getv_def split: option.split pyval.split)

lemma legacy_route_eq:
  "legacy_route n info = VDict [(''sender'', VStr n), (''principal'', getv info ''principal_id''),
     (''destinations'', VList [VStr n]), (''origin'', VStr ORIGIN_LEGACY)]"
  by (simp add: legacy_route_def getv_def)

lemma srcs_dicts: "each (validate_sender url) srcs = Inr senders \<Longrightarrow> p \<in> set srcs \<Longrightarrow> is_dict (snd p)"
  by (induction srcs arbitrary: senders) (auto simp: load_simps validate_sender_def Let_def)

lemma migrated_senders:
  assumes "each (validate_sender url) srcs = Inr senders"
    and "list_all (\<lambda>(n, v). n \<noteq> [] \<and> \<not> has_key (dict_items v) ''identity'') srcs"
  shows "each (validate_sender url) (map (\<lambda>(n, v). (n, migrated_sender v)) srcs) = Inr senders"
proof -
  have "each (validate_sender url) (map (\<lambda>(n, v). (n, migrated_sender v)) srcs) = Inr (map (\<lambda>y. y) senders)"
    by (rule each_rel [OF assms(1)]) (use assms(2) migrated_sender_same in \<open>force simp: list_all_iff\<close>)
  then show ?thesis by simp
qed

lemma derived_same:
  assumes "each (validate_sender url) srcs = Inr senders"
    and "list_all (\<lambda>(n, v). n \<noteq> [] \<and> \<not> has_key (dict_items v) ''identity'') srcs"
  shows "lv_destinations (derive_from_legacy srcs routing x) = lv_destinations (derive_from_legacy senders routing y)"
    and "lv_routes (derive_from_legacy srcs routing x) = lv_routes (derive_from_legacy senders routing y)"
proof -
  have ok: "\<forall>p \<in> set senders. is_dict (snd p)"
    using senders_ok [OF assms(1)] by (auto simp: sender_ok_def Let_def)
  have key: "fst q = fst p \<and> getv (dict_items (snd q)) ''principal_id'' = getv (dict_items (snd p)) ''principal_id''"
    if "p \<in> set srcs" "validate_sender url p = Inr q" for p q
    using that migrated_sender_same [of url "fst p" "snd p" q] assms(2) validate_sender_ok [of url "fst p" "snd p" "fst q" "snd q"]
    by (auto simp: list_all_iff)
  have s: "legacy_sources srcs = srcs" "legacy_sources senders = senders"
    using legacy_sources_all srcs_dicts [OF assms(1)] ok by blast+
  show "lv_destinations (derive_from_legacy srcs routing x) = lv_destinations (derive_from_legacy senders routing y)"
    unfolding derive_from_legacy_def Let_def s legacy_view.simps legacy_info_items legacy_destination_eq
    by (rule each_map_eq [OF assms(1)]) (use key in \<open>auto simp: case_prod_beta\<close>)
  show "lv_routes (derive_from_legacy srcs routing x) = lv_routes (derive_from_legacy senders routing y)"
    unfolding derive_from_legacy_def Let_def s legacy_view.simps legacy_info_items legacy_route_eq
    by (rule each_map_eq [OF assms(1)]) (use key in \<open>auto simp: case_prod_beta\<close>)
qed

lemma add_principals_validated:
  "each (validate_principal dns) base = Inr base' \<Longrightarrow>
   each (validate_principal dns) (add_principals base ds) = Inr (add_principals base' ds)"
proof (induction base ds arbitrary: base' rule: add_principals.induct)
  case (2 ps n dest rest)
  have "map fst base' = map fst ps"
    by (rule each_keys [OF "2.prems"]) (auto simp: validate_principal_def Let_def load_simps split: if_splits prod.splits)
  then have k: "has_key base' k = has_key ps k" for k by (metis has_key_iff image_set list.set_map)
  have e: "each (validate_principal dns) (ps @ [(pid, no_channels_entry)]) = Inr (base' @ [(pid, no_channels_entry)])"
    if "pid \<noteq> []" for pid
  proof (rule each_append [OF "2.prems"])
    show "each (validate_principal dns) [(pid, no_channels_entry)] = Inr [(pid, no_channels_entry)]"
      using that
      by (simp add: load_simps validate_principal_def no_channels_entry_def channels_entry_def Let_def validate_channels_for_def)
  qed
  show ?case
    using "2.IH" e "2.prems" by (auto simp: k split: option.splits pyval.splits)
qed simp

lemma derived_principals:
  assumes "validate_channel_table dns (VDict rows) = Inr del"
  shows "each (validate_principal dns) (map (\<lambda>(pid, channels). (pid, VDict [(''channels'', channels)])) rows)
     = Inr (map (\<lambda>(pid, channels). (pid, VDict [(''channels'', channels)])) del)"
proof -
  from assms have "each (validate_channel_row dns) rows = Inr del"
    by (simp add: validate_channel_table_def load_simps)
  then show ?thesis
    by (rule each_rel)
      (auto simp: validate_channel_row_def validate_principal_def channels_entry_def Let_def load_simps is_dict_iff)
qed

lemma dest_validated:
  assumes "n \<noteq> []" "absent_or nonempty_str adapter" "absent_or nonempty_str prin"
    "absent_or (\<lambda>q. has_key ps (py_str q)) prin"
  shows "validate_destination ps (n, drop_nulls (VDict [(''adapter'', adapter), (''session'', VNone), (''principal'', prin)]))
    = Inr (n, VDict [(''adapter'', adapter), (''session'', VNone), (''principal'', prin), (''max_connections'', VNone)])"
  using assms
  by (cases "adapter = VNone"; cases "prin = VNone")
    (simp_all add: validate_destination_def Let_def load_simps drop_nulls_def)

text \<open>The destinations and routes of the migrated file, validated.\<close>

definition capped :: "pyval \<Rightarrow> pyval" where
  "capped v = VDict (dict_items v @ [(''max_connections'', VNone)])"

definition as_config :: "pyval \<Rightarrow> pyval" where
  "as_config r = VDict [(''sender'', getv (dict_items r) ''sender''), (''principal'', VNone),
     (''destinations'', getv (dict_items r) ''destinations''), (''origin'', VStr ORIGIN_CONFIG)]"

lemma routing_adapters:
  assumes "legacy_routing raw = Inr routing"
    "list_all (\<lambda>(_, e). getv (dict_items e) ''adapter'' \<noteq> VStr []) routing"
  shows "absent_or nonempty_str (adapter_for routing n)"
proof (cases "dget routing n")
  case (Some e)
  then have mem: "(n, e) \<in> set routing" by (rule map_of_SomeD)
  with assms(2) have ne: "getv (dict_items e) ''adapter'' \<noteq> VStr []" by (auto simp: list_all_iff)
  from assms(1) mem have "routing_entry_ok e"
    by (auto simp: legacy_routing_def load_simps list_all_iff split: pyval.splits)
  with ne Some show ?thesis
    by (auto simp: routing_entry_ok_def adapter_for_def is_dict_iff absent_or_def getv_def opt_val_def split: option.splits pyval.splits)
qed (simp add: adapter_for_def)

lemma migrated_destinations:
  assumes val: "each (validate_sender url) srcs = Inr senders"
    and noid: "list_all (\<lambda>(n, v). n \<noteq> [] \<and> \<not> has_key (dict_items v) ''identity'') srcs"
    and ro: "\<And>n. absent_or nonempty_str (adapter_for routing n)"
    and ps: "ps = add_principals base (lv_destinations (derive_from_legacy srcs routing x))"
  shows "each (validate_destination ps) (map (\<lambda>(n, v). (n, drop_nulls v)) (lv_destinations (derive_from_legacy srcs routing x)))
    = Inr (map (\<lambda>(n, v). (n, capped v)) (lv_destinations (derive_from_legacy srcs routing x)))"
proof -
  have s: "legacy_sources srcs = srcs" using legacy_sources_all srcs_dicts [OF val] by blast
  have one: "validate_destination ps (n, drop_nulls (legacy_destination routing n (dict_items v)))
      = Inr (n, capped (legacy_destination routing n (dict_items v)))" if m: "(n, v) \<in> set srcs" for n v
  proof -
    let ?p = "getv (dict_items v) ''principal_id''"
    from val m have ok: "\<exists>y. validate_sender url (n, v) = Inr y"
      by (induction srcs arbitrary: senders) (auto simp: load_simps)
    have nv: "n \<noteq> []" "\<not> has_key (dict_items v) ''identity''" using noid m by (auto simp: list_all_iff)
    then have id: "getd (dict_items v) ''identity'' ?p = ?p" by (simp add: getd_absent)
    with ok have p: "absent_or nonempty_str ?p" by (auto simp: validate_sender_def Let_def load_simps)
    have "absent_or (\<lambda>q. has_key ps (py_str q)) ?p"
    proof (cases "?p = VNone")
      case False
      with p obtain q where q: "?p = VStr q" "q \<noteq> []" by (auto simp: nonempty_str_iff)
      have "(n, legacy_destination routing n (dict_items v)) \<in> set (lv_destinations (derive_from_legacy srcs routing x))"
        using m by (force simp: derive_from_legacy_def Let_def s legacy_info_items)
      moreover have "dget (legacy_info (legacy_destination routing n (dict_items v))) ''principal'' = Some (VStr q)"
        by (simp add: legacy_destination_eq legacy_info_def q)
      ultimately have "has_key ps q" unfolding ps add_principals_keys using q(2) by blast
      with q show ?thesis by simp
    qed simp
    from dest_validated [OF nv(1) ro p this] show ?thesis
      by (simp add: legacy_destination_eq capped_def)
  qed
  have "each (validate_destination ps) (map (\<lambda>(n, v). (n, drop_nulls (legacy_destination routing n (dict_items v)))) srcs)
      = Inr (map (\<lambda>(n, v). (n, capped (legacy_destination routing n (dict_items v)))) srcs)"
    by (rule each_map) (use one in auto)
  then show ?thesis
    unfolding derive_from_legacy_def Let_def s legacy_info_items legacy_view.simps case_prod_beta map_map o_def
      fst_conv snd_conv .
qed

lemma migrated_routes:
  assumes "\<forall>n \<in> fst ` set srcs. has_key senders n \<and> has_key ds n" "[] \<notin> fst ` set srcs"
    and s: "legacy_sources srcs = srcs"
  shows "each (validate_route senders ds ps) (map short_route (lv_routes (derive_from_legacy srcs routing x)))
    = Inr (map as_config (lv_routes (derive_from_legacy srcs routing x)))"
proof (rule each_map, rule ballI)
  fix r assume "r \<in> set (lv_routes (derive_from_legacy srcs routing x))"
  then obtain n v where nv: "(n, v) \<in> set srcs" "r = legacy_route n (dict_items v)"
    by (auto simp: derive_from_legacy_def Let_def s legacy_info_items)
  then have "has_key senders n" "has_key ds n" "n \<noteq> []" using assms(1,2) by force+
  then show "validate_route senders ds ps (short_route r) = Inr (as_config r)"
    by (simp add: validate_route_def Let_def load_simps nv(2) legacy_route_eq short_route_def as_config_def
        route_dests_def)
qed

subsection \<open>What routes reach\<close>

lemma routed_same:
  assumes "dget cfg ''destinations'' = Some (VDict (map (\<lambda>(n, v). (n, VDict v)) ds))"
    and "dget cfg' ''destinations'' = Some (VDict (map (\<lambda>(n, v). (n, capped (VDict v))) ds))"
    and "dget cfg ''routes'' = Some (VList (map (\<lambda>(n, p). VDict [(''sender'', VStr n), (''principal'', p),
        (''destinations'', VList [VStr n]), (''origin'', VStr ORIGIN_LEGACY)]) rs))"
    and "dget cfg' ''routes'' = Some (VList (map (\<lambda>(n, p). VDict [(''sender'', VStr n), (''principal'', VNone),
        (''destinations'', VList [VStr n]), (''origin'', VStr ORIGIN_CONFIG)]) rs))"
    and "\<forall>(n, v) \<in> set ds. \<not> has_key v ''max_connections''"
  shows "routed_destinations cfg' s = routed_destinations cfg s"
proof -
  have mk: "mk_destination n (v @ [(''max_connections'', VNone)]) = mk_destination n v"
    if "\<not> has_key v ''max_connections''" for n v
    using that
    by (auto simp: mk_destination_def map_add_def str_of_def int_of_def has_key_def split: option.split)
  have t: "destination_table cfg' = destination_table cfg"
    using assms(5)
    by (auto simp: destination_table_def raw_destinations_def assms(1,2) build_all_dicts capped_def mk
        case_prod_beta o_def)
  have ro: "route_table cfg = map (\<lambda>(n, p). \<lparr>r_sender = n, r_principal = str_of (Some p), r_destinations = [n], r_origin = ORIGIN_LEGACY\<rparr>) rs"
    "route_table cfg' = map (\<lambda>(n, p). \<lparr>r_sender = n, r_principal = None, r_destinations = [n], r_origin = ORIGIN_CONFIG\<rparr>) rs"
    unfolding route_table_def raw_routes_def assms(3,4)
    by (induction rs) (auto simp: mk_route_def get_str_def dests_of_def str_of_def)
  have "concat (map (expand cfg') (filter (route_matches s) (route_table cfg')))
      = concat (map (expand cfg) (filter (route_matches s) (route_table cfg)))"
    unfolding ro by (induction rs) (auto simp: route_matches_def expand_def Let_def t)
  then show ?thesis by (simp add: routed_destinations_eq_spec routed_spec_def)
qed

subsection \<open>Migration\<close>

lemma add_principals_set:
  "(p, e) \<in> set (add_principals base ds) \<Longrightarrow> (p, e) \<in> set base \<or> e = no_channels_entry"
proof (induction base ds rule: add_principals.induct)
  case (2 ps n dest rest)
  then show ?case by (auto split: option.splits pyval.splits if_splits)
qed simp

lemma alias_subset:
  assumes "p \<in> set (filter (\<lambda>(_, channels). truthy channels) (map (\<lambda>(pid, entry). (pid, getv (dict_items entry) ''channels''))
      (add_principals (map (\<lambda>(pid, channels). (pid, VDict [(''channels'', channels)])) del) ds)))"
  shows "p \<in> set del"
proof -
  from assms obtain pid e where e: "p = (pid, getv (dict_items e) ''channels'')" "truthy (snd p)"
    "(pid, e) \<in> set (add_principals (map (\<lambda>(pid, channels). (pid, VDict [(''channels'', channels)])) del) ds)"
    by auto
  from add_principals_set [OF e(3)] show ?thesis
    using e(1,2) by (auto simp: no_channels_entry_def)
qed

lemma legacy_inputs:
  assumes "load_object dns raw = Inr cfg" "\<not> uses_v2 raw"
  obtains srcs rows routing where
    "getv raw ''sources'' = VDict srcs" "srcs \<noteq> []" "or_empty (getv raw ''delivery'') = VDict rows"
    "legacy_routing raw = Inr routing" "dict_items (or_empty (getv raw ''routing'')) = routing"
    "dict_items (getv raw ''routing'') = routing"
    "\<And>del. (if getv raw ''delivery'' = VNone then Inr [] else validate_channel_table dns (getv raw ''delivery'')) = Inr del
       \<Longrightarrow> validate_channel_table dns (VDict rows) = Inr del"
proof -
  from assms have a: "absent_or is_dict (getv raw ''sources'')" "truthy (getv raw ''sources'')"
    by (auto simp: load_object_def Let_def load_simps)
  then obtain srcs where srcs: "getv raw ''sources'' = VDict srcs" "srcs \<noteq> []"
    by (auto simp: absent_or_def is_dict_iff)
  from assms obtain routing where ro: "legacy_routing raw = Inr routing"
    by (auto simp: load_object_def Let_def load_simps)
  then have r: "getd raw ''routing'' (VDict []) = VDict routing"
    by (auto simp: legacy_routing_def load_simps split: pyval.splits)
  then have items: "dict_items (or_empty (getv raw ''routing'')) = routing" "dict_items (getv raw ''routing'') = routing"
    by (auto simp: getd_def getv_def opt_val_def or_empty_def split: option.splits)
  show thesis
  proof (cases "getv raw ''delivery'' = VNone")
    case True
    then show ?thesis using srcs ro items
      by (intro that [of srcs "[]" routing]) (simp_all add: or_empty_def validate_channel_table_def load_simps)
  next
    case False
    from assms have "\<exists>del. validate_channel_table dns (getv raw ''delivery'') = Inr del"
      using False by (auto simp: load_object_def Let_def load_simps legacy_tables_def)
    then obtain rows where "getv raw ''delivery'' = VDict rows"
      by (auto simp: validate_channel_table_def load_simps is_dict_iff)
    then show ?thesis using srcs ro items False
      by (intro that [of srcs rows routing]) (simp_all add: or_empty_def)
  qed
qed

lemma migrate_loads:
  assumes load: "load_object dns raw = Inr cfg" and v1: "\<not> uses_v2 raw" and ok: "migratable raw"
  shows "\<exists>doc cfg'. migrate_raw raw = Inr doc \<and> load_object dns doc = Inr cfg'
     \<and> sender_table cfg' = sender_table cfg \<and> principal_table cfg' = principal_table cfg
     \<and> (\<forall>s. routed_destinations cfg' s = routed_destinations cfg s)
     \<and> (\<forall>k \<in> set PASSTHROUGH. getv cfg' k = getv cfg k)
     \<and> getv cfg' ''wake'' = VDict [(''ingest_rate_limit'', DEFAULT_INGEST_RATE_LIMIT),
                                  (''ingest_rate_burst'', DEFAULT_INGEST_RATE_BURST)]"
proof -
  from legacy_inputs [OF load v1] obtain srcs rows routing where
    src: "getv raw ''sources'' = VDict srcs" "srcs \<noteq> []" and rows: "or_empty (getv raw ''delivery'') = VDict rows"
    and ro: "legacy_routing raw = Inr routing" "dict_items (or_empty (getv raw ''routing'')) = routing"
      "dict_items (getv raw ''routing'') = routing"
    and chan: "\<And>del. (if getv raw ''delivery'' = VNone then Inr [] else validate_channel_table dns (getv raw ''delivery'')) = Inr del
       \<Longrightarrow> validate_channel_table dns (VDict rows) = Inr del" by blast
  have noid: "list_all (\<lambda>(n, v). n \<noteq> [] \<and> \<not> has_key (dict_items v) ''identity'') srcs"
    and ad: "list_all (\<lambda>(_, e). getv (dict_items e) ''adapter'' \<noteq> VStr []) routing"
    using ok by (simp_all add: migratable_def src ro(3))
  from load obtain listen senders blocks tables where
    li: "validate_listen_block (getv raw ''listen'') = Inr listen"
    and cs: "config_senders raw srcs = Inr (senders, blocks)"
    and lt: "legacy_tables dns raw routing senders = Inr tables"
    and cfg: "cfg = normalised raw listen routing senders blocks tables"
    using v1 ro(1) src(1) by (elim load_object_cases) simp
  from cs obtain state wake where blocks: "blocks = [(''state'', VDict state), (''wake'', VDict wake)]"
    and st: "validate_state_block (getv raw ''state'') = Inr state"
    and val: "each (validate_sender (getv raw ''default_callback_url'')) srcs = Inr senders"
    and va: "truthy (getv raw ''vault'') \<or> \<not> list_ex (\<lambda>(_, v). has_vault_uri (sender_uris v)) senders"
      "(if getv raw ''vault'' = VNone then Inr () else validate_vault_block (getv raw ''vault'')) = Inr ()"
    by (auto simp: config_senders_def Let_def load_simps)
  from lt obtain del where tables: "tables = (lv_principals (derive_from_legacy senders routing del),
      lv_destinations (derive_from_legacy senders routing del), lv_routes (derive_from_legacy senders routing del), del)"
    and table: "validate_channel_table dns (VDict rows) = Inr del"
    using chan by (auto simp: legacy_tables_def Let_def load_simps)
  have vd: "truthy (getv raw ''vault'') \<or> \<not> channel_table_needs_vault del"
    using load v1 cs lt ro(1) src(1)
    by (auto simp: load_object_def Let_def load_simps tables)
  define D where "D = lv_destinations (derive_from_legacy senders routing del)"
  define R where "R = lv_routes (derive_from_legacy senders routing del)"
  define P where "P = lv_principals (derive_from_legacy senders routing del)"
  define doc where "doc = migrated raw srcs routing rows"
  note same = derived_same [OF val noid, of routing]
  have dicts: "legacy_sources srcs = srcs" using legacy_sources_all srcs_dicts [OF val] by blast
  have P: "P = add_principals (map (\<lambda>(pid, channels). (pid, VDict [(''channels'', channels)])) del) D"
    "lv_principals (derive_from_legacy srcs routing rows)
       = add_principals (map (\<lambda>(pid, channels). (pid, VDict [(''channels'', channels)])) rows) D"
    using same(1) [of rows del] by (simp_all add: P_def D_def derive_from_legacy_def Let_def)
  have vp: "each (validate_principal dns) (lv_principals (derive_from_legacy srcs routing rows)) = Inr P"
    unfolding P by (rule add_principals_validated) (rule derived_principals [OF table])
  have DS: "lv_destinations (derive_from_legacy srcs routing rows) = D" "lv_routes (derive_from_legacy srcs routing rows) = R"
    using same [of rows del] by (simp_all add: D_def R_def)
  have vdst: "each (validate_destination P) (map (\<lambda>(n, v). (n, drop_nulls v)) D) = Inr (map (\<lambda>(n, v). (n, capped v)) D)"
    using migrated_destinations [OF val noid routing_adapters [OF ro(1) ad], of P _ rows] P(1) unfolding DS by blast
  have keys: "map fst senders = map fst srcs" using senders_ok [OF val] by blast
  have Dk: "map fst D = map fst srcs"
    unfolding DS(1) [symmetric] by (simp add: derive_from_legacy_def Let_def dicts case_prod_beta)
  have vr: "each (validate_route senders (map (\<lambda>(n, v). (n, capped v)) D) P) (map short_route R) = Inr (map as_config R)"
  proof -
    have "has_key senders n \<and> has_key (map (\<lambda>(n, v). (n, capped v)) D) n" if "n \<in> fst ` set srcs" for n
    proof -
      have "n \<in> set (map fst senders)" "n \<in> set (map fst D)" using that keys Dk by simp_all
      then show ?thesis by (force simp: has_key_iff)
    qed
    moreover have "[] \<notin> fst ` set srcs" using noid by (auto simp: list_all_iff)
    ultimately show ?thesis
      using migrated_routes [of srcs senders "map (\<lambda>(n, v). (n, capped v)) D" P routing rows] dicts DS(2) by blast
  qed
  define D' where "D' = map (\<lambda>(n, v). (n, capped v)) D"
  define R' where "R' = map as_config R"
  define al where "al = filter (\<lambda>(_, channels). truthy channels)
     (map (\<lambda>(pid, entry). (pid, getv (dict_items entry) ''channels'')) P)"
  define wk where "wk = [(''ingest_rate_limit'', DEFAULT_INGEST_RATE_LIMIT), (''ingest_rate_burst'', DEFAULT_INGEST_RATE_BURST)]"
  define cfg' where "cfg' = normalised doc listen [] senders [(''state'', VDict state), (''wake'', VDict wk)] (P, D', R', al)"
  note m = migrated_get [where raw = raw and sources = srcs and routing = routing and delivery = rows, folded doc_def]
  have pass: "getv doc k = getv raw k" if "k \<in> set PASSTHROUGH" for k using m(2) that by simp
  have p: "getv doc ''listen'' = getv raw ''listen''" "getv doc ''socket_path'' = getv raw ''socket_path''"
    "getv doc ''default_callback_url'' = getv raw ''default_callback_url''" "getv doc ''state'' = getv raw ''state''"
    "getv doc ''vault'' = getv raw ''vault''"
    by (rule pass, simp add: PASSTHROUGH_def)+
  have v2: "uses_v2 doc" "\<not> mixed_vocabulary doc"
    using m(8,9) by (simp_all add: uses_v2_def mixed_vocabulary_def VOCABULARY_PAIRS_def)
  have none: "getv doc ''sources'' = VNone" "getv doc ''routing'' = VNone"
    using m(8) by (simp_all add: has_key_def getv_def opt_val_def)
  have doc: "migrate_raw raw = Inr doc"
  proof -
    have "\<not> has_key raw ''senders''" using v1 by (simp add: uses_v2_def VOCABULARY_PAIRS_def)
    moreover have "list_all (\<lambda>(_, v). is_dict v) srcs" using srcs_dicts [OF val] by (auto simp: list_all_iff)
    moreover have "or_empty (getv raw ''sources'') = VDict srcs" using src by (simp add: or_empty_def)
    ultimately show ?thesis by (simp add: migrate_raw_def load_simps rows ro(2) doc_def)
  qed
  have cs': "config_senders doc (map (\<lambda>(n, v). (n, migrated_sender v)) srcs)
      = Inr (senders, [(''state'', VDict state), (''wake'', VDict wk)])"
    using st va migrated_senders [OF val noid]
    by (simp add: config_senders_def Let_def load_simps p m(7) validate_wake_block_def wk_def)
  have sd: "validate_destinations_block (getv doc ''destinations'') P = Inr D'"
    using vdst by (simp add: validate_destinations_block_def load_simps m(5) DS D'_def)
  have sr: "validate_routes_block (getv doc ''routes'') senders D' P = Inr R'"
    using vr by (simp add: validate_routes_block_def m(6) DS D'_def R'_def)
  have sp: "validate_principals_v2 dns (if truthy (getv doc ''principals'') then getv doc ''principals'' else VDict []) = Inr P"
    using vp by (cases "lv_principals (derive_from_legacy srcs routing rows)")
      (simp_all add: validate_principals_v2_def load_simps m(4))
  have tb: "v2_tables dns doc senders = Inr (P, D', R', al)"
    using sp sd sr by (simp add: v2_tables_def Let_def load_simps al_def)
  have nv: "truthy (getv doc ''vault'') \<or> \<not> channel_table_needs_vault al"
  proof -
    have "q \<in> set del" if "q \<in> set al" for q
      using alias_subset [of q del D] that unfolding al_def P(1) by blast
    then have "Bex (set al) Q \<Longrightarrow> Bex (set del) Q" for Q by blast
    with vd show ?thesis unfolding p channel_table_needs_vault_def list_ex_iff by meson
  qed
  have load': "load_object dns doc = Inr cfg'"
  proof -
    have "getd doc ''version'' (VInt 0) = VInt 2" using m(10) by (simp add: getd_def)
    moreover have "truthy (getv doc ''senders'')" using src(2) by (simp add: m(3))
    ultimately show ?thesis
      using v2 none li cs' tb nv
      by (simp add: load_object_def Let_def load_simps p m(3-5) cfg'_def)
  qed
  note g = normalised_get [OF blocks, of raw listen routing senders P D R del, folded cfg [unfolded tables, folded P_def D_def R_def]]
  note g' = normalised_get [OF refl, of doc listen "[]" senders state wk P D' R' al, folded cfg'_def]
  have routed: "routed_destinations cfg' s = routed_destinations cfg s" for s
  proof (rule routed_same)
    let ?ds = "map (\<lambda>(n, v). (n, [(''adapter'', adapter_for routing n), (''session'', VNone),
        (''principal'', getv (dict_items v) ''principal_id'')])) srcs"
    let ?rs = "map (\<lambda>(n, v). (n, getv (dict_items v) ''principal_id'')) srcs"
    have D: "D = map (\<lambda>(n, v). (n, VDict v)) ?ds"
      unfolding DS(1) [symmetric]
      by (simp add: derive_from_legacy_def Let_def dicts legacy_info_items legacy_destination_eq o_def case_prod_beta)
    have R: "R = map (\<lambda>(n, p). VDict [(''sender'', VStr n), (''principal'', p),
        (''destinations'', VList [VStr n]), (''origin'', VStr ORIGIN_LEGACY)]) ?rs"
      unfolding DS(2) [symmetric]
      by (simp add: derive_from_legacy_def Let_def dicts legacy_info_items legacy_route_eq o_def case_prod_beta)
    show "dget cfg ''destinations'' = Some (VDict (map (\<lambda>(n, v). (n, VDict v)) ?ds))" using g(3) D by simp
    show "dget cfg ''routes'' = Some (VList (map (\<lambda>(n, p). VDict [(''sender'', VStr n), (''principal'', p),
        (''destinations'', VList [VStr n]), (''origin'', VStr ORIGIN_LEGACY)]) ?rs))" using g(4) R by simp
    show "dget cfg' ''destinations'' = Some (VDict (map (\<lambda>(n, v). (n, capped (VDict v))) ?ds))"
      using g'(3) unfolding D'_def D by (simp add: o_def case_prod_beta)
    show "dget cfg' ''routes'' = Some (VList (map (\<lambda>(n, p). VDict [(''sender'', VStr n), (''principal'', VNone),
        (''destinations'', VList [VStr n]), (''origin'', VStr ORIGIN_CONFIG)]) ?rs))"
      using g'(4) unfolding R'_def R by (simp add: o_def case_prod_beta as_config_def)
    show "\<forall>(n, v) \<in> set ?ds. \<not> has_key v ''max_connections''" by (auto simp: has_key_def)
  qed
  have "getv cfg' k = getv cfg k" if "k \<in> set PASSTHROUGH" for k
    using that by (auto simp: PASSTHROUGH_def cfg cfg'_def tables normalised_def blocks p)
  moreover have "sender_table cfg' = sender_table cfg" "principal_table cfg' = principal_table cfg"
    by (simp_all add: sender_table_def principal_table_def g g')
  moreover have "getv cfg' ''wake'' = VDict wk" using g'(7) by (simp add: getv_def opt_val_def)
  ultimately show ?thesis using doc load' routed unfolding wk_def by blast
qed

subsection \<open>Properties\<close>

text \<open>A v1 file that loads, with no empty names and no v2 keys in its senders, migrates to a file that
  loads too, and in which every sender has the same secrets, allowlists and identity and reaches
  the same destinations, and every principal the same channels.\<close>

theorem migration_preserves_reach:
  assumes "load_object dns raw = Inr cfg" "\<not> uses_v2 raw" "migratable raw"
  shows "\<exists>doc cfg'. migrate_raw raw = Inr doc \<and> load_object dns doc = Inr cfg'
     \<and> sender_table cfg' = sender_table cfg \<and> principal_table cfg' = principal_table cfg
     \<and> (\<forall>s. routed_destinations cfg' s = routed_destinations cfg s)
     \<and> (\<forall>k \<in> set PASSTHROUGH. getv cfg' k = getv cfg k)"
  using migrate_loads [OF assms] by blast

definition legacy_demo :: dict where
  "legacy_demo =
     [(''version'', VInt 1),
      (''sources'', VDict [(''ci'', VDict [(''secret'', VStr ''env://CI''), (''principal_id'', VStr ''ops'')]),
                           (''chat'', VDict [(''secret_env'', VStr ''CHAT'')])]),
      (''routing'', VDict [(''ci'', VDict [(''adapter'', VStr ''claude'')])]),
      (''wake'', VDict [(''hmac_secret'', VStr ''k1''), (''ingest_rate_burst'', VInt 2)])]"

definition no_dns :: "string \<Rightarrow> string list res" where
  "no_dns host = Inl (OSError ''no resolver'')"

lemma legacy_demo_loads: "\<exists>cfg. load_object no_dns legacy_demo = Inr cfg"
proof -
  have "(case load_object no_dns legacy_demo of Inr c \<Rightarrow> True | Inl _ \<Rightarrow> False)" by code_simp
  then show ?thesis by (auto split: sum.splits)
qed

theorem migration_preserves_reach_witness:
  "\<exists>cfg doc cfg'. load_object no_dns legacy_demo = Inr cfg \<and> migrate_raw legacy_demo = Inr doc
     \<and> load_object no_dns doc = Inr cfg' \<and> routed_destinations cfg' ''ci'' = routed_destinations cfg ''ci''"
proof -
  obtain cfg where c: "load_object no_dns legacy_demo = Inr cfg" using legacy_demo_loads by blast
  have "\<not> uses_v2 legacy_demo" "migratable legacy_demo" by code_simp+
  from migration_preserves_reach [OF c this] c show ?thesis by blast
qed

text \<open>The \<open>wake\<close> block does not survive: the migrated file has the default rate limit and no
  callback signing key, whatever the legacy file said.\<close>

theorem migration_drops_wake:
  assumes "load_object dns raw = Inr cfg" "\<not> uses_v2 raw" "migratable raw"
    and "migrate_raw raw = Inr doc" "load_object dns doc = Inr cfg'"
  shows "getv cfg' ''wake'' = VDict [(''ingest_rate_limit'', DEFAULT_INGEST_RATE_LIMIT),
                                     (''ingest_rate_burst'', DEFAULT_INGEST_RATE_BURST)]"
  using migrate_loads [OF assms(1-3)] assms(4,5) by auto

theorem migration_drops_wake_witness:
  "\<exists>cfg doc cfg'. load_object no_dns legacy_demo = Inr cfg
     \<and> getv (dict_items (getv cfg ''wake'')) ''hmac_secret'' = VStr ''k1''
     \<and> migrate_raw legacy_demo = Inr doc \<and> load_object no_dns doc = Inr cfg'
     \<and> getv (dict_items (getv cfg' ''wake'')) ''hmac_secret'' = VNone"
proof -
  obtain cfg where c: "load_object no_dns legacy_demo = Inr cfg" using legacy_demo_loads by blast
  have v: "\<not> uses_v2 legacy_demo" "migratable legacy_demo" by code_simp+
  have "(case load_object no_dns legacy_demo of
      Inr c \<Rightarrow> getv (dict_items (getv c ''wake'')) ''hmac_secret'' = VStr ''k1'' | Inl _ \<Rightarrow> False)" by code_simp
  with c have k: "getv (dict_items (getv cfg ''wake'')) ''hmac_secret'' = VStr ''k1''" by simp
  from migrate_loads [OF c v] obtain doc cfg' where d: "migrate_raw legacy_demo = Inr doc" "load_object no_dns doc = Inr cfg'"
    by blast
  from migration_drops_wake [OF c v d] have "getv (dict_items (getv cfg' ''wake'')) ''hmac_secret'' = VNone" by simp
  with c k d show ?thesis by blast
qed

text \<open>A note is made exactly for a sender whose identity is the principal of some destination.\<close>

theorem notes_exactly_conflated:
  "(n, i, owned) \<in> set (conflation_notes doc) \<longleftrightarrow>
     (\<exists>v. (n, v) \<in> set (dict_items (or_empty (getv doc ''senders''))) \<and> i = getv (dict_items v) ''identity''
        \<and> truthy i \<and> owned \<noteq> []
        \<and> owned = sort (map fst (filter (\<lambda>(_, d). getv (dict_items d) ''principal'' = i)
              (dict_items (or_empty (getv doc ''destinations''))))))"
proof -
  have "sort xs \<noteq> [] \<longleftrightarrow> xs \<noteq> []" for xs :: "string list"
    by (metis set_empty set_sort)
  then show ?thesis
    by (auto simp: conflation_notes_def Let_def List.map_filter_def image_iff split: if_splits)
qed

end
