(* ===== verification/Lifecycle.thy ===== *)
theory Lifecycle
  imports Config_Props Ingest_Props Socket_Server "HOL-Library.List_Lexorder" "HOL-Library.Char_ord"
begin

section \<open>Start, reload and shutdown (\<open>main.py\<close>, \<open>secrets/visibility.py\<close>)\<close>

text \<open>
  The daemon as a whole: the gate on readable secrets, the bind address, what start builds from a
  loaded file, the in-place reload on SIGHUP, and the order of the shutdown.  The components
  share one config object; the model keeps a copy in each, and \<open>set_config\<close> writes them all.
  \<open>environ\<close> is the process environment, \<open>file\<close> what the config file holds when it is read.
\<close>

subsection \<open>Secret visibility\<close>

definition env_var_name :: "pyval \<Rightarrow> string option" where
  "env_var_name uri =
     (case uri of
        VStr u \<Rightarrow>
          (case urlparse u of
             Inl _ \<Rightarrow> None
           | Inr p \<Rightarrow>
               if u_scheme p \<noteq> ''env'' then None
               else
                 (let name = (if u_netloc p \<noteq> [] then u_netloc p
                              else dropWhile (\<lambda>c. c = CHR ''/'') (u_path p))
                  in if name = [] then None else Some name))
      | _ \<Rightarrow> None)"

definition missing_env_vars :: "(string \<Rightarrow> string option) \<Rightarrow> pyval \<Rightarrow> string list" where
  "missing_env_vars environ source_cfg =
     (case getv (dict_items source_cfg) ''secret_uris'' of
        VList uris \<Rightarrow> filter (\<lambda>n. environ n = None) (List.map_filter env_var_name uris)
      | _ \<Rightarrow> [])"

record visibility =
  vis_configured :: nat
  vis_unresolved :: "string list"
  vis_missing :: "string list"

definition all_visible :: "visibility \<Rightarrow> bool" where
  "all_visible v \<longleftrightarrow> vis_unresolved v = []"

definition source_secret_visibility :: "(string \<Rightarrow> string option) \<Rightarrow> cfg \<Rightarrow> visibility" where
  "source_secret_visibility environ cfg =
     (let sources = dict_items (getv cfg ''sources'');
          gaps = filter (\<lambda>(_, g). g \<noteq> [])
            (map (\<lambda>(name, info). (name, missing_env_vars environ info))
              (filter (\<lambda>(_, info). is_dict info) sources))
      in \<lparr>vis_configured = length sources, vis_unresolved = sort (map fst gaps),
          vis_missing = sort (remdups (concat (map snd gaps)))\<rparr>)"

definition health_summary :: "(string \<Rightarrow> string option) \<Rightarrow> cfg \<Rightarrow> dict" where
  "health_summary environ cfg =
     (let vis = source_secret_visibility environ cfg in
      [(''configured'', VInt (int (vis_configured vis))),
       (''secrets_unresolved'', VInt (int (length (vis_unresolved vis)))),
       (''unresolved'', VList (map VStr (vis_unresolved vis)))])"

definition require_resolvable_secrets :: "(string \<Rightarrow> string option) \<Rightarrow> cfg \<Rightarrow> bool" where
  "require_resolvable_secrets environ cfg = all_visible (source_secret_visibility environ cfg)"

subsection \<open>The bind address\<close>

definition is_loopback_host :: "pyval \<Rightarrow> bool" where
  "is_loopback_host host =
     (case host of
        VStr h \<Rightarrow> h = ''localhost'' \<or> (case ip_address h of Some a \<Rightarrow> is_loopback a | None \<Rightarrow> False)
      | _ \<Rightarrow> False)"

text \<open>\<open>int(v)\<close> of a port in the config, an integer or null once the file is loaded.\<close>

fun config_port :: "pyval \<Rightarrow> int checked" where
  "config_port (VInt i) = Inr i"
| "config_port _ = Inl (Crash TypeError)"

definition env_given :: "(string \<Rightarrow> string option) \<Rightarrow> string \<Rightarrow> string option" where
  "env_given environ k = (case environ k of Some (c # s) \<Rightarrow> Some (c # s) | _ \<Rightarrow> None)"

definition resolve_listen :: "(string \<Rightarrow> string option) \<Rightarrow> cfg \<Rightarrow> (pyval \<times> int) checked" where
  "resolve_listen environ cfg =
     (let listen = dict_items (getv cfg ''listen'');
          host = (case env_given environ ''AGENT_WAKE_LISTEN_HOST'' of
                    Some h \<Rightarrow> VStr h | None \<Rightarrow> getd listen ''host'' (VStr ''127.0.0.1''))
      in chain
        (case env_given environ ''AGENT_WAKE_LISTEN_PORT'' of
           Some p \<Rightarrow>
             (case parse_int p of
                None \<Rightarrow> Inl (Config_error ''AGENT_WAKE_LISTEN_PORT'')
              | Some port \<Rightarrow> demand (1 \<le> port \<and> port \<le> 65535) ''AGENT_WAKE_LISTEN_PORT'' (Inr port))
         | None \<Rightarrow> config_port (getd listen ''port'' (VInt 8788)))
        (\<lambda>port. Inr (host, port)))"

datatype bind_note = No_note | Note_open_error | Note_open_warning | Note_reachable

definition warn_non_loopback_bind :: "pyval \<Rightarrow> cfg \<Rightarrow> bool \<Rightarrow> bind_note" where
  "warn_non_loopback_bind host cfg explicit =
     (if is_loopback_host host then No_note
      else if \<not> list_all (\<lambda>(_, s). is_dict s \<and> truthy (getv (dict_items s) ''secret_uris''))
                (dict_items (getv cfg ''sources''))
      then (if explicit then Note_open_warning else Note_open_error)
      else Note_reachable)"

text \<open>Paths as text; \<open>home\<close> is the home directory.\<close>

definition resolve_socket_path :: "(string \<Rightarrow> string option) \<Rightarrow> string \<Rightarrow> cfg \<Rightarrow> string res" where
  "resolve_socket_path environ home cfg =
     (let explicit = getv cfg ''socket_path'' in
      if truthy explicit then (case explicit of VStr p \<Rightarrow> Inr p | _ \<Rightarrow> Inl TypeError)
      else (case env_given environ ''XDG_RUNTIME_DIR'' of
              Some xdg \<Rightarrow> Inr (xdg @ ''/agent-wake.sock'')
            | None \<Rightarrow> Inr (home @ ''/.local/state/agent-wake/agent-wake.sock'')))"

subsection \<open>The daemon\<close>

text \<open>The router is the ingest app's; \<open>server_of\<close> is the daemon as its socket server sees it.\<close>

record daemon =
  dm_ingest :: ingest
  dm_outbox :: outbox
  dm_conns :: "(string \<times> conn) list"
  dm_sent :: "(string \<times> dict) list"
  dm_posts :: "outbox_step list"
  dm_closed :: "string set"
  dm_bind :: "pyval \<times> int"
  dm_socket :: string

definition server_of :: "daemon \<Rightarrow> server" where
  "server_of D =
     \<lparr>sv_router = i_router (dm_ingest D), sv_outbox = Some (dm_outbox D), sv_conns = dm_conns D,
      sv_sent = dm_sent D, sv_steps = dm_posts D, sv_closed = dm_closed D\<rparr>"

definition with_server :: "server \<Rightarrow> daemon \<Rightarrow> daemon" where
  "with_server S D =
     D\<lparr>dm_ingest := (dm_ingest D)\<lparr>i_router := sv_router S\<rparr>, dm_conns := sv_conns S, dm_sent := sv_sent S,
       dm_posts := sv_steps S, dm_closed := sv_closed S\<rparr>"

definition dm_config :: "daemon \<Rightarrow> cfg" where
  "dm_config D = r_config (i_router (dm_ingest D))"

definition set_config :: "cfg \<Rightarrow> daemon \<Rightarrow> daemon" where
  "set_config c D =
     D\<lparr>dm_ingest := (dm_ingest D)\<lparr>i_router := (i_router (dm_ingest D))\<lparr>r_config := c\<rparr>\<rparr>,
       dm_outbox := (dm_outbox D)\<lparr>ob_config := c\<rparr>\<rparr>"

datatype started = Exit_1 | Died exn | Running daemon

text \<open>\<open>_run\<close> up to the servers: \<open>disk\<close> is the database on disk with its schema version, \<open>None\<close> when
  it cannot be opened.\<close>

definition startup ::
  "(nat \<Rightarrow> string) \<Rightarrow> pytime \<Rightarrow> (string \<Rightarrow> string list res) \<Rightarrow> (string \<Rightarrow> string option) \<Rightarrow> string \<Rightarrow>
   (int option \<times> store) option \<Rightarrow> config_file \<Rightarrow> started" where
  "startup ulid now dns environ home disk file =
     (case load_config dns file of
        Inl (Config_error _) \<Rightarrow> Exit_1
      | Inl (Crash e) \<Rightarrow> Died e
      | Inr cfg \<Rightarrow>
          if \<not> require_resolvable_secrets environ cfg then Exit_1
          else
            (case resolve_listen environ cfg of
               Inl (Config_error _) \<Rightarrow> Exit_1
             | Inl (Crash e) \<Rightarrow> Died e
             | Inr bind \<Rightarrow>
                 (case resolve_socket_path environ home cfg of
                    Inl e \<Rightarrow> Died e
                  | Inr path \<Rightarrow>
                      (let enabled = getd (dict_items (getv cfg ''state'')) ''enabled'' (VBool True);
                           st = (if truthy enabled
                                 then map_option (\<lambda>(v, s). open_store ulid now cfg v s) disk else None)
                       in case create_ingest_app (new_router cfg st) (Some []) (Some new_health) of
                            Inl e \<Rightarrow> Died e
                          | Inr I \<Rightarrow>
                              Running \<lparr>dm_ingest = I, dm_outbox = start_outbox (new_outbox cfg), dm_conns = [],
                                       dm_sent = [], dm_posts = [], dm_closed = {}, dm_bind = bind, dm_socket = path\<rparr>))))"

subsection \<open>Reload\<close>

text \<open>\<open>cfg.update(new)\<close>, then the keys that are gone are deleted.\<close>

definition swap_config :: "cfg \<Rightarrow> cfg \<Rightarrow> cfg" where
  "swap_config old new = filter (\<lambda>(k, _). has_key new k) (fold (\<lambda>(k, v). dset k v) new old)"

definition keep_entry :: "string \<Rightarrow> pyval \<Rightarrow> cfg \<Rightarrow> cfg \<Rightarrow> cfg" where
  "keep_entry k dflt old new =
     (if getd old k dflt \<noteq> getd new k dflt then dset k (getd old k dflt) new else new)"

text \<open>\<open>clk\<close> is the clock when the secrets are fetched again.  An exception other than
  \<open>ConfigError\<close> is not caught, neither here nor by the loop that calls it.\<close>

definition reload_config ::
  "(string \<Rightarrow> string list res) \<Rightarrow> (string \<Rightarrow> string option) \<Rightarrow> world \<Rightarrow> pytime \<Rightarrow> config_file \<Rightarrow>
   daemon \<Rightarrow> daemon res" where
  "reload_config dns environ W clk file D =
     (case load_config dns file of
        Inl (Config_error _) \<Rightarrow> Inr D
      | Inl (Crash e) \<Rightarrow> Inl e
      | Inr new_cfg \<Rightarrow>
          if \<not> truthy (getv new_cfg ''sources'') then Inr D
          else if \<not> require_resolvable_secrets environ new_cfg then Inr D
          else
            (let old = dm_config D;
                 new1 = keep_entry ''listen'' (VDict []) old new_cfg;
                 new2 = keep_entry ''socket_path'' VNone old new1;
                 D1 = set_config (swap_config old new2) D;
                 I1 = dm_ingest D1
             in Inr (D1\<lparr>dm_ingest := I1\<lparr>i_router := prune_warning_state (i_router I1),
                                       i_secrets := map_option (refresh_all W clk) (i_secrets I1)\<rparr>\<rparr>)))"

subsection \<open>Shutdown\<close>

text \<open>
  The socket is closed; then, within the grace periods, handlers, deliveries, ack waiters and the
  connections' own \<open>finally\<close> blocks come to their ends in some order (\<open>se_ends\<close>); then every
  delivery that is left is cancelled and awaited for a while (\<open>se_cancel\<close> says how its channels answer,
  \<open>se_takes\<close> how long it then needs to end; what ends only later is not followed further), then
  every ack waiter; and the store is closed last, with what \<open>shutdown\<close> returns on disk.
\<close>

datatype ending =
    Handler_ends clocks request
  | Delivery_ends dict channels pytime
  | Waiter_ends waiter "string option"
  | Connection_ends string

record stopping =
  se_ports :: ports
  se_db :: bool
  se_ends :: "ending list"
  se_now :: pytime
  se_cancel :: "dict \<Rightarrow> channels"
  se_takes :: "dict \<Rightarrow> pytime option"

fun ends :: "stopping \<Rightarrow> ending \<Rightarrow> ingest \<Rightarrow> ingest" where
  "ends E (Handler_ends T rq) I = snd (post_root (se_ports E) T rq I)"
| "ends E (Delivery_ends event chan now) I = finish_task (se_ports E) (se_db E) now chan event I"
| "ends E (Waiter_ends w outcome) I = I\<lparr>i_router := finish_wait w outcome (i_router I)\<rparr>"
| "ends E (Connection_ends sid) I = I\<lparr>i_router := unsubscribe sid (i_router I)\<rparr>"

definition runner_cleanup :: "stopping \<Rightarrow> ingest \<Rightarrow> ingest" where
  "runner_cleanup E I = fold (ends E) (se_ends E) I"

definition close_sockets :: "daemon \<Rightarrow> daemon" where
  "close_sockets D = with_server (close_server (server_of D)) D"

definition shutdown :: "stopping \<Rightarrow> daemon \<Rightarrow> store option \<times> daemon" where
  "shutdown E D =
     (let D1 = close_sockets D;
          I1 = runner_cleanup E (dm_ingest D1);
          (cancelled, I2) = force_drain (se_ports E) (se_db E) (se_now E) (se_cancel E) (se_takes E) I1;
          R = shutdown_router (i_router I2)
      in (r_store R,
          D1\<lparr>dm_ingest := I2\<lparr>i_router := R\<lparr>r_store := None\<rparr>\<rparr>, dm_outbox := close_outbox (dm_outbox D1)\<rparr>))"

end
