(* ===== verification/Lifecycle_Props.thy ===== *)
theory Lifecycle_Props
  imports Lifecycle Socket_Props Config_Errors Webhook_Props Delivery_Props
begin

section \<open>What the running daemon keeps\<close>

text \<open>
  The whole daemon as a step relation: connections, requests, deliveries, reloads.  In every state
  it reaches the router, the store and the connection table are consistent, the live configuration
  is one the loader accepted and whose environment secrets are all set, and the addresses are
  those it was started with.  The shutdown leaves nothing behind and loses no alert.
\<close>

subsection \<open>Operations that keep the router's invariants\<close>

definition harmless :: "(nat \<Rightarrow> string) \<Rightarrow> router \<Rightarrow> router \<Rightarrow> bool" where
  "harmless u R' R \<longleftrightarrow>
     (wf_router u R \<longrightarrow> wf_router u R') \<and> (store_ok u R \<longrightarrow> store_ok u R') \<and> shrinks R' R"

lemma harmless_refl [simp]: "harmless u R R"
  by (simp add: harmless_def)

lemma harmless_trans: "harmless u R2 R1 \<Longrightarrow> harmless u R1 R \<Longrightarrow> harmless u R2 R"
  by (auto simp: harmless_def intro: shrinks_trans)

lemma harmless_server:
  assumes "wf_server base u S" "harmless u R (sv_router S)"
  shows "wf_server base u (S\<lparr>sv_router := R\<rparr>)"
  by (rule wf_server_router [OF assms(1)]) (use assms in \<open>auto simp: harmless_def wf_server_def\<close>)

lemma harmless_deliver: "inj u \<Longrightarrow> harmless u (snd (deliver u link now event R)) R"
  by (simp add: harmless_def wf_deliver store_ok_deliver shrinks_deliver)

lemma harmless_ulids: "r_ulids R \<le> n \<Longrightarrow> harmless u (R\<lparr>r_ulids := n\<rparr>) R"
  by (auto simp: harmless_def wf_router_ulids store_ok_def intro!: shrinks_same)

lemma harmless_store:
  assumes "r_store R = Some st" "wf_store u st \<Longrightarrow> wf_store u st'"
  shows "harmless u (R\<lparr>r_store := Some st'\<rparr>) R"
  using assms by (auto simp: harmless_def store_ok_def intro!: shrinks_same elim!: wf_router_cong)

lemma harmless_check:
  assumes "inj (x_ulid P)" "dedupe_check P now eid src I = (r, I1)"
  shows "harmless (x_ulid P) (i_router I1) (i_router I)"
proof -
  have "wf_store (x_ulid P) st \<Longrightarrow> wf_store (x_ulid P) (snd (check_and_record_event (x_ulid P) now k src st))" for k st
    using wf_run_op [OF assms(1), of st "OpDedupe now k src"] by simp
  with assms(2) show ?thesis
    by (auto simp: dedupe_check_def split: option.splits sum.splits prod.splits) (erule harmless_store, metis snd_conv)
qed

lemma harmless_route_event:
  assumes "inj (x_ulid P)"
  shows "harmless (x_ulid P) (i_router (snd (route_event P T rq event0 I))) (i_router I)"
proof (cases "stamp_identity (trigger_identity_for (r_config (i_router I)) (rq_source rq) (rq_identity rq)) event0")
  case (Inr event)
  let ?eid = "case dget event0 ''event_id'' of None \<Rightarrow> VNone | Some v \<Rightarrow> v"
  obtain dup I1 where d: "dedupe_check P (t_dedupe T) ?eid (rq_source rq) I = (dup, I1)" by (metis surj_pair)
  note h = harmless_check [OF assms d]
  obtain out I2 where o: "dispatch event ?eid (rq_source rq) I1 = (out, I2)" by (metis surj_pair)
  have r: "i_router I2 = i_router I1" using dispatch_cases [OF o] by simp
  note hd = harmless_trans [OF harmless_deliver [OF assms, of "x_link P" "t_deliver T" event] h]
  show ?thesis
    using h hd by (simp add: route_event_def Let_def Inr d o r split: sum.split bool.split) (simp add: case_prod_beta)?
qed (simp add: route_event_def)

lemma harmless_post:
  assumes "inj (x_ulid P)"
  shows "harmless (x_ulid P) (i_router (snd (post_root P T rq I))) (i_router I)"
proof -
  obtain a I' where run: "post_root P T rq I = (a, I')" by (metis surj_pair)
  from run show ?thesis
  proof (cases rule: post_root_cases)
    case (turned_away B S n)
    then show ?thesis using run by (simp add: gated_def harmless_ulids)
  next
    case (routed source_cfg event I2)
    then obtain B S n where "I2 = gated B S n I" "r_ulids (i_router I) \<le> n" by (auto simp: passes_def)
    then have "harmless (x_ulid P) (i_router I2) (i_router I)" by (simp add: gated_def harmless_ulids)
    with harmless_route_event [OF assms, of T rq event I2] routed(2) run show ?thesis
      by (auto intro: harmless_trans)
  qed
qed

lemma harmless_finish_task:
  assumes "inj (x_ulid P)" "channel_contract chan"
  shows "harmless (x_ulid P) (i_router (finish_task P db now chan event I)) (i_router I)"
proof (cases "i_health I")
  case (Some h)
  let ?H = "\<lparr>hd_config = r_config (i_router I), hd_health = h, hd_store = r_store (i_router I), hd_calls = []\<rparr>"
  obtain res H' where run: "deliver_human (x_ulid P) db now chan event [] ?H = (res, H')" by (metis surj_pair)
  have I: "i_router (finish_task P db now chan event I) = (i_router I)\<lparr>r_store := hd_store H'\<rparr>"
    by (simp add: finish_task_def Some run)
  show ?thesis
  proof (cases "r_store (i_router I)")
    case None
    have "hd_store H' = None" using deliver_human_no_store [OF run] None by simp
    with None show ?thesis unfolding I by (simp add: harmless_def store_ok_def shrinks_same wf_router_cong)
  next
    case (Some st)
    then have "dead_added (x_ulid P) db now st (hd_store H')" using deliver_human_effect [OF assms(2) _ run, of st] by simp
    with Some assms(1) show ?thesis unfolding I
      by (auto simp: dead_added_def) (erule harmless_store, simp add: wf_insert_dead DEAD_LETTER_KINDS_def)+
  qed
qed (simp add: finish_task_def)

subsection \<open>The live configuration\<close>

definition same_but :: "string list \<Rightarrow> cfg \<Rightarrow> cfg \<Rightarrow> bool" where
  "same_but ks c c' \<longleftrightarrow> (\<forall>k. k \<notin> set ks \<longrightarrow> dget c k = dget c' k)"

text \<open>What a configuration in use is: the \<open>listen\<close> and \<open>socket_path\<close> the daemon was started with,
  and everything else from a file the loader accepted, whose secrets the process can read.\<close>

definition live_config :: "(string \<Rightarrow> string option) \<Rightarrow> pyval \<Rightarrow> pyval \<Rightarrow> cfg \<Rightarrow> bool" where
  "live_config environ listen path cfg \<longleftrightarrow>
     dget cfg ''listen'' = Some listen \<and> dget cfg ''socket_path'' = Some path
     \<and> (\<exists>dns file loaded. load_config dns file = Inr loaded \<and> require_resolvable_secrets environ loaded
           \<and> same_but [''listen'', ''socket_path''] cfg loaded)"

lemma loaded_keys:
  assumes "load_config dns file = Inr cfg"
  shows "wf_dict cfg \<and> dget cfg ''listen'' \<noteq> None \<and> dget cfg ''socket_path'' \<noteq> None"
  using assms
proof (rule loaded_tables)
  fix raw listen routing senders blocks ps ds rs del
  assume cs: "config_senders raw (dict_items (getv raw (if uses_v2 raw then ''senders'' else ''sources'')))
       = Inr (senders, blocks)"
    and cfg: "cfg = normalised raw listen routing senders blocks (ps, ds, rs, del)"
  from cs obtain state wake where b: "blocks = [(''state'', VDict state), (''wake'', VDict wake)]"
    by (rule config_senders_cases)
  show ?thesis by (simp add: cfg b normalised_def wf_dict_def)
qed

lemma dget_filter_key: "dget (filter (\<lambda>(k, _). P k) d) k = (if P k then dget d k else None)"
  by (induction d) auto

lemma dget_swap:
  assumes "wf_dict new"
  shows "dget (swap_config old new) k = dget new k"
proof -
  have "swap_config old new = filter (\<lambda>(k, _). has_key new k) (dict_merge old new)"
    by (simp add: swap_config_def dict_merge_def)
  then show ?thesis
    by (auto simp: dget_filter_key dget_dict_merge dget_rev_wf [OF assms] has_key_def split: option.splits)
qed

lemma keep_entry_get:
  assumes "dget old k = Some v" "dget new k \<noteq> None"
  shows "dget (keep_entry k dflt old new) k' = (if k' = k then Some v else dget new k')"
    and "wf_dict new \<Longrightarrow> wf_dict (keep_entry k dflt old new)"
  using assms by (auto simp: keep_entry_def getd_def dget_dset)

definition reloaded :: "cfg \<Rightarrow> cfg \<Rightarrow> cfg" where
  "reloaded old new =
     swap_config old (keep_entry ''socket_path'' VNone old (keep_entry ''listen'' (VDict []) old new))"

lemma reloaded_get:
  assumes "dget old ''listen'' = Some listen" "dget old ''socket_path'' = Some path" "load_config dns file = Inr new"
  shows "dget (reloaded old new) k =
    (if k = ''socket_path'' then Some path else if k = ''listen'' then Some listen else dget new k)"
  using loaded_keys [OF assms(3)] keep_entry_get [OF assms(1), of new "VDict []"]
    keep_entry_get [OF assms(2), of "keep_entry ''listen'' (VDict []) old new" VNone]
  by (simp add: dget_swap reloaded_def)

lemma reload_config_eq:
  "reload_config dns environ W now file D =
     (case load_config dns file of
        Inl (Config_error _) \<Rightarrow> Inr D
      | Inl (Crash e) \<Rightarrow> Inl e
      | Inr new \<Rightarrow>
          if truthy (getv new ''sources'') \<and> require_resolvable_secrets environ new
          then Inr (let D1 = set_config (reloaded (dm_config D) new) D; I1 = dm_ingest D1
                    in D1\<lparr>dm_ingest := I1\<lparr>i_router := prune_warning_state (i_router I1),
                                            i_secrets := map_option (refresh_all W now) (i_secrets I1)\<rparr>\<rparr>)
          else Inr D)"
  by (simp add: reload_config_def reloaded_def Let_def split: sum.split refusal.split)

lemma require_same: "same_but [''listen'', ''socket_path''] c c' \<Longrightarrow>
    require_resolvable_secrets environ c = require_resolvable_secrets environ c'"
  by (simp add: require_resolvable_secrets_def source_secret_visibility_def same_but_def getv_def opt_val_def)

lemma config_wf_same:
  assumes "same_but [''listen'', ''socket_path''] c c'" "config_wf c'" "dget c ''listen'' = dget c0 ''listen''" "config_wf c0"
  shows "config_wf c"
proof -
  have "dget c k = dget c' k" if "k \<noteq> ''listen''" "k \<noteq> ''socket_path''" for k
    using assms(1) that by (simp add: same_but_def)
  then have eqs: "dget c ''senders'' = dget c' ''senders''" "dget c ''sources'' = dget c' ''sources''"
    "dget c ''wake'' = dget c' ''wake''" "dget c ''state'' = dget c' ''state''" "dget c ''routing'' = dget c' ''routing''"
    "dget c ''delivery'' = dget c' ''delivery''" "dget c ''destinations'' = dget c' ''destinations''" by simp_all
  have "sender_table c = sender_table c'" unfolding sender_table_def eqs ..
  moreover have "raw_destinations c = raw_destinations c'" unfolding raw_destinations_def legacy_view_of_def eqs ..
  ultimately show ?thesis
    using assms(2-4) by (simp add: config_wf_def Let_def getv_def eqs)
qed

subsection \<open>The daemon as a step relation\<close>

text \<open>
  One step: a connection arrives with a fresh session id, a line of one arrives, one ends, a
  heartbeat round, the end of an ack waiter, a request, the end of a delivery task, a SIGHUP.
\<close>

inductive daemon_step ::
  "ports \<Rightarrow> reply_env \<Rightarrow> (bytes \<Rightarrow> json_error + pyval) \<Rightarrow> (string \<Rightarrow> string option) \<Rightarrow> daemon \<Rightarrow> daemon \<Rightarrow> bool"
  for P E loads environ where
  Connect: "\<not> has_key (dm_conns D) sid \<Longrightarrow> waiting (i_router (dm_ingest D)) sid = 0 \<Longrightarrow>
    daemon_step P E loads environ D
      (with_server (open_connection (x_ulid P) (x_link P) loads up now sid line (server_of D)) D)"
| Line: "daemon_step P E loads environ D (with_server (on_line E loads up now sid line (server_of D)) D)"
| Disconnect: "daemon_step P E loads environ D (with_server (end_connection sid (server_of D)) D)"
| Beat: "daemon_step P E loads environ D (with_server (heartbeat ups (server_of D)) D)"
| Settled: "w \<in> set (r_waiters (i_router (dm_ingest D))) \<Longrightarrow>
    daemon_step P E loads environ D
      (with_server ((server_of D)\<lparr>sv_router := finish_wait w outcome (i_router (dm_ingest D))\<rparr>) D)"
| Post: "post_root P T rq (dm_ingest D) = (a, I) \<Longrightarrow> daemon_step P E loads environ D (D\<lparr>dm_ingest := I\<rparr>)"
| Task: "event \<in> set (i_tasks (dm_ingest D)) \<Longrightarrow> channel_contract chan \<Longrightarrow>
    daemon_step P E loads environ D (D\<lparr>dm_ingest := finish_task P db now chan event (dm_ingest D)\<rparr>)"
| Hangup: "reload_config dns environ W now file D = Inr D' \<Longrightarrow> daemon_step P E loads environ D D'"

inductive daemon_runs ::
  "ports \<Rightarrow> reply_env \<Rightarrow> (bytes \<Rightarrow> json_error + pyval) \<Rightarrow> (string \<Rightarrow> string option) \<Rightarrow> daemon \<Rightarrow> daemon \<Rightarrow> bool"
  for P E loads environ where
  here: "daemon_runs P E loads environ D D"
| onward: "daemon_runs P E loads environ D D' \<Longrightarrow> daemon_step P E loads environ D' D'' \<Longrightarrow>
    daemon_runs P E loads environ D D''"

definition daemon_ok ::
  "(nat \<Rightarrow> string) \<Rightarrow> (string \<Rightarrow> string option) \<Rightarrow> pyval \<Rightarrow> pyval \<Rightarrow> daemon \<Rightarrow> bool" where
  "daemon_ok u environ listen path D \<longleftrightarrow>
     (\<exists>base. wf_server base u (server_of D)) \<and> config_wf (dm_config D)
     \<and> live_config environ listen path (dm_config D) \<and> ob_config (dm_outbox D) = dm_config D"

lemma server_of_fields [simp]:
  "sv_router (server_of D) = i_router (dm_ingest D)" "sv_conns (server_of D) = dm_conns D"
  "sv_outbox (server_of D) = Some (dm_outbox D)" "sv_sent (server_of D) = dm_sent D"
  by (simp_all add: server_of_def)

lemma with_server_fields [simp]:
  "dm_ingest (with_server S D) = (dm_ingest D)\<lparr>i_router := sv_router S\<rparr>" "dm_conns (with_server S D) = sv_conns S"
  "dm_outbox (with_server S D) = dm_outbox D" "dm_bind (with_server S D) = dm_bind D"
  "dm_socket (with_server S D) = dm_socket D"
  by (simp_all add: with_server_def)

lemma daemon_ok_server:
  assumes ok: "daemon_ok u environ listen path D"
    and S: "\<And>base. wf_server base u (server_of D) \<Longrightarrow> wf_server base u S"
    and D': "i_router (dm_ingest D') = sv_router S" "dm_conns D' = sv_conns S" "dm_outbox D' = dm_outbox D"
    and cfg: "r_config (sv_router S) = dm_config D"
  shows "daemon_ok u environ listen path D'"
proof -
  from ok obtain base where "wf_server base u (server_of D)" by (auto simp: daemon_ok_def)
  from S [OF this] have "wf_server base u (server_of D')"
    by (rule wf_server_cong) (simp_all add: D'(1,2))
  with ok show ?thesis by (auto simp: daemon_ok_def dm_config_def D' cfg)
qed

lemma daemon_ok_harmless:
  assumes "daemon_ok u environ listen path D" "harmless u (i_router I) (i_router (dm_ingest D))"
  shows "daemon_ok u environ listen path (D\<lparr>dm_ingest := I\<rparr>)"
proof (rule daemon_ok_server [OF assms(1), of "(server_of D)\<lparr>sv_router := i_router I\<rparr>"])
  show "wf_server base u ((server_of D)\<lparr>sv_router := i_router I\<rparr>)" if "wf_server base u (server_of D)" for base
    using harmless_server [OF that, of "i_router I"] assms(2) by simp
qed (use assms(2) in \<open>simp_all add: harmless_def shrinks_def dm_config_def\<close>)

lemma frame_turn_config: "r_config (sv_router (snd (frame_turn E loads up now sid c line S))) = r_config (sv_router S)"
proof -
  have "r_config (sv_router (snd (handle_reply E up now sid c frame S))) = r_config (sv_router S)" for frame
    by (simp add: handle_reply_def deliver_and_answer_def Let_def case_prod_beta router_simps split: option.split)
  moreover have "r_config (resolve_ack a t R) = r_config R" for a t R
    using shrinks_resolve_ack by (simp add: shrinks_def)
  ultimately show ?thesis
    by (simp add: frame_turn_def Let_def router_simps set_conn_def
        split: sum.split read_error.split pyval.split option.split)
qed

lemma end_config: "r_config (sv_router (end_connection sid S)) = r_config (sv_router S)"
  using shrinks_unsubscribe by (simp add: end_connection_def router_simps shrinks_def)

lemma on_line_config: "r_config (sv_router (on_line E loads up now sid line S)) = r_config (sv_router S)"
  using frame_turn_config [of E loads up now sid _ line S]
  by (auto simp: on_line_def end_config split: option.split prod.split bool.split) (metis snd_conv)+

text \<open>A reload keeps what is connected: a destination may be above a cap it has just been given, by
  no more than the sessions that are there.\<close>

lemma daemon_ok_reload:
  assumes ok: "daemon_ok u environ listen path D" and run: "reload_config dns environ W now file D = Inr D'"
  shows "daemon_ok u environ listen path D' \<and> dm_conns D' = dm_conns D
    \<and> (dm_config D' \<noteq> dm_config D \<longrightarrow> (\<exists>new. load_config dns file = Inr new
          \<and> same_but [''listen'', ''socket_path''] (dm_config D') new))"
proof (cases "\<exists>new. load_config dns file = Inr new \<and> truthy (getv new ''sources'') \<and> require_resolvable_secrets environ new")
  case False
  then have "D' = D" using run by (auto simp: reload_config_eq split: sum.splits refusal.splits if_splits)
  with ok show ?thesis by simp
next
  case True
  then obtain new where new: "load_config dns file = Inr new" "truthy (getv new ''sources'')"
    "require_resolvable_secrets environ new" by blast
  let ?old = "dm_config D"
  let ?cfg = "reloaded ?old new"
  from ok have old: "dget ?old ''listen'' = Some listen" "dget ?old ''socket_path'' = Some path" "config_wf ?old"
    by (auto simp: daemon_ok_def live_config_def)
  note get = reloaded_get [OF old(1,2) new(1)]
  have sb: "same_but [''listen'', ''socket_path''] ?cfg new" by (simp add: same_but_def get)
  have wf: "config_wf ?cfg"
    by (rule config_wf_same [OF sb loaded_shape [OF new(1)] _ old(3)]) (simp add: get old)
  have live: "live_config environ listen path ?cfg" using new sb by (auto simp: live_config_def get)
  have D': "dm_config D' = ?cfg" "ob_config (dm_outbox D') = ?cfg" "dm_conns D' = dm_conns D"
    "i_router (dm_ingest D') = prune_warning_state ((i_router (dm_ingest D))\<lparr>r_config := ?cfg\<rparr>)"
    using run new by (auto simp: reload_config_eq Let_def set_config_def dm_config_def prune_warning_state_def)
  from ok obtain base where base: "wf_server base u (server_of D)" by (auto simp: daemon_ok_def)
  let ?R' = "prune_warning_state ((i_router (dm_ingest D))\<lparr>r_config := ?cfg\<rparr>)"
  have f: "r_subs ?R' = r_subs (i_router (dm_ingest D))" "r_order ?R' = r_order (i_router (dm_ingest D))"
    "r_acks ?R' = r_acks (i_router (dm_ingest D))" "r_waiters ?R' = r_waiters (i_router (dm_ingest D))"
    "r_ulids ?R' = r_ulids (i_router (dm_ingest D))" "r_store ?R' = r_store (i_router (dm_ingest D))"
    by (simp_all add: prune_warning_state_def Let_def)
  have "wf_server (\<lambda>n. destination_load (i_router (dm_ingest D)) n None) u (server_of D')"
    using base wf_router_cong [OF _ f(1-5), of u]
    by (simp add: wf_server_def D'(3,4) store_ok_def within_caps_def destination_load_def f)
  with wf live D' sb new(1) show ?thesis by (auto simp: daemon_ok_def)
qed

lemma daemon_step_ok:
  assumes "inj (x_ulid P)" "re_ulid E = x_ulid P" "daemon_step P E loads environ D D'"
    "daemon_ok (x_ulid P) environ listen path D"
  shows "daemon_ok (x_ulid P) environ listen path D'"
  using assms(3)
proof cases
  case (Connect sid up now line)
  let ?S = "open_connection (x_ulid P) (x_link P) loads up now sid line (server_of D)"
  have cfg: "r_config (sv_router ?S) = dm_config D" using open_config by (simp add: dm_config_def)
  show ?thesis unfolding Connect
    by (rule daemon_ok_server [OF assms(4), of ?S])
      (use Connect(2,3) cfg in \<open>simp_all add: wf_open_connection [OF assms(1)]\<close>)
next
  case (Line up now sid line)
  have cfg: "r_config (sv_router (on_line E loads up now sid line (server_of D))) = dm_config D"
    using on_line_config by (simp add: dm_config_def)
  show ?thesis unfolding Line
    by (rule daemon_ok_server [OF assms(4), of "on_line E loads up now sid line (server_of D)"])
      (simp_all add: wf_on_line [of E, unfolded assms(2), OF assms(1)] cfg)
next
  case (Disconnect sid)
  have cfg: "r_config (sv_router (end_connection sid (server_of D))) = dm_config D"
    using end_config by (simp add: dm_config_def)
  show ?thesis unfolding Disconnect
    by (rule daemon_ok_server [OF assms(4), of "end_connection sid (server_of D)"]) (simp_all add: wf_end cfg)
next
  case (Beat ups)
  show ?thesis unfolding Beat
    by (rule daemon_ok_server [OF assms(4), of "heartbeat ups (server_of D)"]) (erule wf_heartbeat, simp_all add: heartbeat_def dm_config_def)
next
  case (Settled w outcome)
  let ?R = "finish_wait w outcome (i_router (dm_ingest D))"
  have sh: "shrinks ?R (i_router (dm_ingest D))" by (rule shrinks_finish_wait)
  show ?thesis unfolding Settled
  proof (rule daemon_ok_server [OF assms(4)])
    show "wf_server base (x_ulid P) ((server_of D)\<lparr>sv_router := ?R\<rparr>)"
      if "wf_server base (x_ulid P) (server_of D)" for base
      by (rule wf_server_router [OF that])
        (use that sh Settled(2) in \<open>auto simp: wf_server_def wf_finish_wait store_ok_finish_wait\<close>)
  qed (use sh in \<open>simp_all add: shrinks_def dm_config_def\<close>)
next
  case (Post T rq a I)
  show ?thesis unfolding Post
    using harmless_post [OF assms(1), of T rq "dm_ingest D"] Post(2) by (intro daemon_ok_harmless [OF assms(4)]) simp
next
  case (Task event chan db now)
  show ?thesis unfolding Task
    using harmless_finish_task [OF assms(1) Task(3)] by (intro daemon_ok_harmless [OF assms(4)]) simp
next
  case (Hangup dns W now fl)
  with daemon_ok_reload [OF assms(4)] show ?thesis by blast
qed

lemma daemon_runs_ok:
  assumes "inj (x_ulid P)" "re_ulid E = x_ulid P" "daemon_runs P E loads environ D D'"
    "daemon_ok (x_ulid P) environ listen path D"
  shows "daemon_ok (x_ulid P) environ listen path D' \<and> dm_bind D' = dm_bind D \<and> dm_socket D' = dm_socket D"
  using assms(3,4)
proof induction
  case (onward D D' D'')
  have "dm_bind D'' = dm_bind D' \<and> dm_socket D'' = dm_socket D'"
    using onward(2) by cases (auto simp: reload_config_eq set_config_def Let_def split: sum.splits refusal.splits if_splits)
  with onward daemon_step_ok [OF assms(1,2) onward(2)] show ?case by simp
qed simp

lemma startup_cases:
  assumes "startup u now dns environ home disk file = Running D"
  obtains cfg st where "load_config dns file = Inr cfg" "require_resolvable_secrets environ cfg"
    "resolve_listen environ cfg = Inr (dm_bind D)" "server_of D = new_server cfg st (Some (start_outbox (new_outbox cfg)))"
    "st = None \<or> (\<exists>v s. disk = Some (v, s) \<and> st = Some (open_store u now cfg v s))"
proof -
  from assms obtain cfg bind path I st where run: "load_config dns file = Inr cfg" "require_resolvable_secrets environ cfg"
    "resolve_listen environ cfg = Inr bind" "create_ingest_app (new_router cfg st) (Some []) (Some new_health) = Inr I"
    "st = None \<or> st = map_option (\<lambda>(v, s). open_store u now cfg v s) disk"
    "D = \<lparr>dm_ingest = I, dm_outbox = start_outbox (new_outbox cfg), dm_conns = [], dm_sent = [], dm_posts = [],
          dm_closed = {}, dm_bind = bind, dm_socket = path\<rparr>"
    by (auto simp: startup_def Let_def split: sum.splits refusal.splits if_splits)
  have "i_router I = new_router cfg st"
    using run(4) by (auto simp: create_ingest_app_def Let_def split: option.splits pyval.splits)
  with run that [of cfg st] show thesis by (cases disk) (auto simp: server_of_def new_server_def)
qed

lemma startup_ok:
  assumes "inj u" "startup u now dns environ home disk file = Running D"
    and "\<And>v s. disk = Some (v, s) \<Longrightarrow> wf_store u s"
  obtains listen path where "daemon_ok u environ listen path D" "dget (dm_config D) ''listen'' = Some listen"
    "load_config dns file = Inr (dm_config D)" "resolve_listen environ (dm_config D) = Inr (dm_bind D)"
  using assms(2)
proof (rule startup_cases)
  fix cfg st
  assume run: "load_config dns file = Inr cfg" "require_resolvable_secrets environ cfg"
    "resolve_listen environ cfg = Inr (dm_bind D)" "server_of D = new_server cfg st (Some (start_outbox (new_outbox cfg)))"
    and st: "st = None \<or> (\<exists>v s. disk = Some (v, s) \<and> st = Some (open_store u now cfg v s))"
  have "wf_store u (open_store u now cfg v s)" if "disk = Some (v, s)" for v s
    using wf_run_op [OF assms(1) assms(3) [OF that], of "OpReopen now cfg v"] by simp
  with st have "wf_server (\<lambda>_. 0) u (new_server cfg st (Some (start_outbox (new_outbox cfg))))"
    by (intro wf_new_server) auto
  moreover from loaded_keys [OF run(1)] obtain l p where lp: "dget cfg ''listen'' = Some l" "dget cfg ''socket_path'' = Some p"
    by auto
  moreover have c: "dm_config D = cfg"
    using arg_cong [OF run(4), of "\<lambda>S. r_config (sv_router S)"] by (simp add: dm_config_def new_server_def new_router_def)
  moreover have "ob_config (dm_outbox D) = cfg"
    using arg_cong [OF run(4), of sv_outbox] by (simp add: new_server_def start_outbox_def new_outbox_def)
  ultimately have "daemon_ok u environ l p D"
    using run(1,2,4) loaded_shape [OF run(1)] by (auto simp: daemon_ok_def live_config_def same_but_def)
  with that lp run c show thesis by simp
qed

text \<open>Claim C5: the daemon as a whole keeps its invariants from start to any later state, across reloads: router,
  store and connection table are consistent, there are at most 16 connections and no session
  without one, the live configuration is well formed and the one every component sees, and the
  bind address and the configured \<open>listen\<close> block are those of the start.\<close>

theorem daemon_invariant:
  assumes "inj (x_ulid P)" and "re_ulid E = x_ulid P"
    and "startup (x_ulid P) now dns environ home disk file = Running D0"
    and "\<And>v s. disk = Some (v, s) \<Longrightarrow> wf_store (x_ulid P) s"
    and "daemon_runs P E loads environ D0 D"
  shows "wf_router (x_ulid P) (i_router (dm_ingest D)) \<and> store_ok (x_ulid P) (i_router (dm_ingest D))
    \<and> length (dm_conns D) \<le> 16 \<and> fst ` set (r_subs (i_router (dm_ingest D))) \<subseteq> fst ` set (dm_conns D)
    \<and> config_wf (dm_config D) \<and> ob_config (dm_outbox D) = dm_config D
    \<and> dget (dm_config D) ''listen'' = dget (dm_config D0) ''listen'' \<and> dm_bind D = dm_bind D0"
proof -
  obtain listen path where 0: "daemon_ok (x_ulid P) environ listen path D0" "dget (dm_config D0) ''listen'' = Some listen"
    using startup_ok [OF assms(1,3)] assms(4) by metis
  from daemon_runs_ok [OF assms(1,2,5) 0(1)] have "daemon_ok (x_ulid P) environ listen path D" "dm_bind D = dm_bind D0"
    by simp_all
  with 0(2) show ?thesis by (auto simp: daemon_ok_def wf_server_def MAX_CONNECTIONS_def live_config_def)
qed

subsection \<open>Every environment secret of the live configuration can be read\<close>

lemma visible_entry:
  assumes "require_resolvable_secrets environ cfg" "(name, VDict e) \<in> set (dict_items (getv cfg ''sources''))"
  shows "missing_env_vars environ (VDict e) = []"
proof (rule ccontr)
  assume "missing_env_vars environ (VDict e) \<noteq> []"
  with assms(2) have "(name, VDict e) \<in> set (filter (\<lambda>p. missing_env_vars environ (snd p) \<noteq> [] \<and> is_dict (snd p))
      (dict_items (getv cfg ''sources'')))" by simp
  then have "name \<in> set (vis_unresolved (source_secret_visibility environ cfg))"
    by (force simp: source_secret_visibility_def Let_def)
  with assms(1) show False by (simp add: require_resolvable_secrets_def all_visible_def)
qed

lemma env_uri_fetched:
  assumes "env_var_name (VStr uri) = Some n" "w_env W n = Some v"
  shows "fetched W clk uri = Inr (v, None)"
proof -
  from assms(1) obtain p where p: "urlparse uri = Inr p"
    by (cases "urlparse uri") (simp_all add: env_var_name_def)
  have sch: "u_scheme p = ''env''"
    by (rule ccontr) (use assms(1) in \<open>simp add: env_var_name_def p\<close>)
  have "var_name uri = Inr n"
    using assms(1) sch
    by (simp add: env_var_name_def var_name_def p Let_def del: dropWhile_eq_Nil_conv split: if_split_asm)
  with assms(2) p sch show ?thesis by (simp add: fetched_def backend_for_def env_fetch_def ttl_for_def)
qed

lemma all_of_Inr: "(\<And>r. r \<in> set rs \<Longrightarrow> \<exists>v. r = Inr v) \<Longrightarrow> \<exists>vs. all_of rs = Inr vs"
proof (induction rs)
  case (Cons r rs)
  then obtain v vs where "r = Inr v" "all_of rs = Inr vs" by (metis list.set_intros(1,2))
  then show ?case by simp
qed simp

text \<open>Claim C31: in every state the daemon reaches, also after reloads, the secrets of a source whose URIs all
  name environment variables resolve, whatever the cache holds: no request for it is answered 500
  for want of a secret.\<close>

theorem live_secrets_resolve:
  assumes "inj (x_ulid P)" and "re_ulid E = x_ulid P"
    and "startup (x_ulid P) now dns environ home disk file = Running D0"
    and "\<And>v s. disk = Some (v, s) \<Longrightarrow> wf_store (x_ulid P) s"
    and "daemon_runs P E loads environ D0 D"
    and "source_entry (dm_config D) name = Inr (Some (VDict e))"
    and "dget e ''secret_uris'' = Some (VList (map VStr uris))" and "\<And>u. u \<in> set uris \<Longrightarrow> env_var_name (VStr u) \<noteq> None"
    and "\<And>n. w_env (x_world P) n = None \<longleftrightarrow> environ n = None"
  shows "\<exists>secrets. fst (resolve_all (x_world P) clk e C) = Inr secrets
    \<and> fst (authenticate P clk rq e (Some C)) \<in> {Verified, Not_verified}"
proof -
  obtain listen path where "daemon_ok (x_ulid P) environ listen path D0"
    using startup_ok [OF assms(1,3)] assms(4) by metis
  from daemon_runs_ok [OF assms(1,2,5) this] obtain dns' fl loaded where l:
    "require_resolvable_secrets environ loaded" "same_but [''listen'', ''socket_path''] (dm_config D) loaded"
    by (auto simp: daemon_ok_def live_config_def)
  have "require_resolvable_secrets environ (dm_config D)" using l require_same by blast
  moreover from assms(6) have "(name, VDict e) \<in> set (dict_items (getv (dm_config D) ''sources''))"
    by (auto simp: source_entry_def getv_def opt_val_def split: option.splits pyval.splits dest: map_of_SomeD)
  ultimately have "missing_env_vars environ (VDict e) = []" by (rule visible_entry)
  then have set: "environ n \<noteq> None" if "u \<in> set uris" "env_var_name (VStr u) = Some n" for u n
  proof -
    have "n \<in> set (List.map_filter env_var_name (map VStr uris))" using that by (force simp: List.map_filter_def)
    with \<open>missing_env_vars environ (VDict e) = []\<close> show ?thesis
      by (auto simp: missing_env_vars_def getv_def opt_val_def assms(7) filter_empty_conv)
  qed
  have "\<exists>v. current (x_world P) clk C u = Inr v" if u: "u \<in> set uris" for u
  proof -
    from assms(8) [OF u] obtain n where n: "env_var_name (VStr u) = Some n" by auto
    with set [OF u n] assms(9) [of n] obtain v where "w_env (x_world P) n = Some v" by auto
    with env_uri_fetched [OF n] show ?thesis by (auto simp: current_def split: option.split)
  qed
  then obtain secrets where "all_of (map (current (x_world P) clk C) uris) = Inr secrets"
    using all_of_Inr [of "map (current (x_world P) clk C) uris"] by auto
  then have r: "fst (resolve_all (x_world P) clk e C) = Inr secrets"
    by (simp add: resolve_all_def assms(7) resolve_uris_current)
  moreover from r have "fst (authenticate P clk rq e (Some C)) \<in> {Verified, Not_verified}"
    by (auto simp: authenticate_def has_key_def assms(7) split: prod.split sum.split)
  ultimately show ?thesis by blast
qed

subsection \<open>Reload\<close>

text \<open>What a reload leaves alone.\<close>

definition undisturbed :: "daemon \<Rightarrow> daemon \<Rightarrow> bool" where
  "undisturbed D' D \<longleftrightarrow>
     (let R' = i_router (dm_ingest D'); R = i_router (dm_ingest D) in
      r_subs R' = r_subs R \<and> r_order R' = r_order R \<and> r_acks R' = r_acks R \<and> r_waiters R' = r_waiters R
      \<and> r_frames R' = r_frames R \<and> r_store R' = r_store R)
     \<and> dm_conns D' = dm_conns D \<and> i_tasks (dm_ingest D') = i_tasks (dm_ingest D)
     \<and> i_buckets (dm_ingest D') = i_buckets (dm_ingest D) \<and> i_fifo (dm_ingest D') = i_fifo (dm_ingest D)
     \<and> ob_started (dm_outbox D') = ob_started (dm_outbox D)"

text \<open>Claim C30: A SIGHUP takes the new file whole or not at all.  The configuration afterwards is the old one,
  or on every key but \<open>listen\<close> and \<open>socket_path\<close> the loaded one, in every component; sessions, open
  acks, queued rows, deliveries in flight and limits stay.  It kills the daemon with an exception exactly
  when loading raises that exception and it is not a \<open>ConfigError\<close>.\<close>

theorem reload_all_or_nothing:
  assumes "dget (dm_config D) ''listen'' = Some listen" and "dget (dm_config D) ''socket_path'' = Some path"
  shows "(\<forall>e. reload_config dns environ W now file D = Inl e \<longleftrightarrow> load_config dns file = Inl (Crash e))
    \<and> (case reload_config dns environ W now file D of
      Inl e \<Rightarrow> True
    | Inr D' \<Rightarrow> undisturbed D' D \<and>
        (if \<exists>new. load_config dns file = Inr new \<and> truthy (getv new ''sources'') \<and> require_resolvable_secrets environ new
         then \<exists>new. load_config dns file = Inr new \<and> ob_config (dm_outbox D') = dm_config D'
              \<and> (\<forall>k. dget (dm_config D') k =
                    (if k = ''socket_path'' then Some path else if k = ''listen'' then Some listen else dget new k))
         else D' = D))"
proof (cases "load_config dns file")
  case (Inr new)
  from reloaded_get [OF assms Inr] show ?thesis
    by (simp add: reload_config_eq Inr undisturbed_def Let_def set_config_def dm_config_def prune_warning_state_def)
qed (simp add: reload_config_eq undisturbed_def Let_def split: refusal.split)

subsection \<open>A concrete daemon\<close>

definition demo_environ :: "string \<Rightarrow> string option" where
  "demo_environ n = (if n = ''CI'' then Some ''k'' else None)"

definition life_ports :: ports where
  "life_ports = demo_ports\<lparr>x_world := \<lparr>w_env = demo_environ, w_vault = None, w_unquote = (\<lambda>s. s), w_float = (\<lambda>_. None)\<rparr>\<rparr>"

definition life_start :: started where
  "life_start = startup demo_ulid 0 offline demo_environ ''/home/me'' None (Json (VDict demo_v2))"

lemma life_starts: "case life_start of Running D \<Rightarrow> dm_config D = demo_loaded \<and> dm_bind D = (VStr ''127.0.0.1'', 8788) | _ \<Rightarrow> False"
  by code_simp

lemma demo_v1_taken: "truthy (getv demo_v1_loaded ''sources'') \<and> require_resolvable_secrets demo_environ demo_v1_loaded"
  by code_simp

lemma demo_listen: "dget demo_loaded ''listen'' = Some (VDict [(''host'', VStr ''127.0.0.1''), (''port'', VInt 8788)])
    \<and> dget demo_loaded ''socket_path'' = Some VNone"
  by code_simp

lemma life_ulid: "inj (x_ulid life_ports)" "re_ulid demo_reply_env = x_ulid life_ports" "x_ulid life_ports = demo_ulid"
  using inj_demo_ulid by (simp_all add: life_ports_def demo_ports_def demo_reply_env_def)

text \<open>A daemon started on a v2 file reads a v1 file on SIGHUP.\<close>

lemma life_reload:
  obtains D0 D where "life_start = Running D0" "dm_config D0 = demo_loaded"
    "reload_config public_dns demo_environ (x_world life_ports) 5 (Json (VDict demo_v1)) D0 = Inr D"
proof -
  from life_starts obtain D0 where D0: "life_start = Running D0" "dm_config D0 = demo_loaded"
    by (auto split: started.splits)
  moreover have "\<exists>D. reload_config public_dns demo_environ (x_world life_ports) 5 (Json (VDict demo_v1)) D0 = Inr D"
    by (simp add: reload_config_eq demo_v1_loads)
  ultimately show thesis using that by blast
qed

theorem reload_all_or_nothing_witness:
  "\<exists>D0 D. reload_config public_dns demo_environ (x_world life_ports) 5 (Json (VDict demo_v1)) D0 = Inr D
     \<and> dget (dm_config D) ''listen'' = dget (dm_config D0) ''listen''
     \<and> dget (dm_config D) ''sources'' = dget demo_v1_loaded ''sources''"
proof -
  obtain D0 D where r: "dm_config D0 = demo_loaded"
    "reload_config public_dns demo_environ (x_world life_ports) 5 (Json (VDict demo_v1)) D0 = Inr D"
    by (rule life_reload)
  have l: "dget (dm_config D0) ''listen'' = Some (VDict [(''host'', VStr ''127.0.0.1''), (''port'', VInt 8788)])"
    "dget (dm_config D0) ''socket_path'' = Some VNone" using r(1) demo_listen by simp_all
  from reload_all_or_nothing [OF l, of public_dns demo_environ "x_world life_ports" 5 "Json (VDict demo_v1)"]
  have "\<forall>k. dget (dm_config D) k = (if k = ''socket_path'' then Some VNone
      else if k = ''listen'' then Some (VDict [(''host'', VStr ''127.0.0.1''), (''port'', VInt 8788)])
      else dget demo_v1_loaded k)"
    using demo_v1_taken by (simp add: r(2) demo_v1_loads)
  then have "dget (dm_config D) ''listen'' = dget (dm_config D0) ''listen''"
    "dget (dm_config D) ''sources'' = dget demo_v1_loaded ''sources''" using l by simp_all
  with r(2) show ?thesis by blast
qed

theorem daemon_invariant_witness:
  "\<exists>D0 D. life_start = Running D0 \<and> dm_config D0 = demo_loaded
     \<and> daemon_runs life_ports demo_reply_env (\<lambda>_. Inl JSONDecodeError) demo_environ D0 D \<and> dm_config D \<noteq> demo_loaded
     \<and> config_wf (dm_config D) \<and> dm_bind D = dm_bind D0"
proof -
  obtain D0 D where r: "life_start = Running D0" "dm_config D0 = demo_loaded"
    "reload_config public_dns demo_environ (x_world life_ports) 5 (Json (VDict demo_v1)) D0 = Inr D"
    by (rule life_reload)
  have runs: "daemon_runs life_ports demo_reply_env (\<lambda>_. Inl JSONDecodeError) demo_environ D0 D"
    by (rule onward [OF here Hangup [OF r(3)]])
  have "startup (x_ulid life_ports) 0 offline demo_environ ''/home/me'' None (Json (VDict demo_v2)) = Running D0"
    using r(1) by (simp add: life_start_def life_ulid)
  from daemon_invariant [OF life_ulid(1,2) this _ runs] have "config_wf (dm_config D)" "dm_bind D = dm_bind D0" by simp_all
  moreover have "dget (dm_config D) ''version'' = dget demo_v1_loaded ''version''"
  proof -
    have "dm_config D = reloaded demo_loaded demo_v1_loaded"
      using r(2,3) demo_v1_taken by (auto simp: reload_config_eq demo_v1_loads Let_def set_config_def dm_config_def prune_warning_state_def)
    then show ?thesis using reloaded_get demo_listen demo_v1_loads by simp
  qed
  moreover have "dget demo_v1_loaded ''version'' \<noteq> dget demo_loaded ''version''" by code_simp
  ultimately show ?thesis using r runs by (intro exI [of _ D0] exI [of _ D]) auto
qed

theorem live_secrets_resolve_witness:
  "\<exists>D0 e secrets. life_start = Running D0 \<and> source_entry (dm_config D0) ''ci'' = Inr (Some (VDict e))
     \<and> fst (resolve_all (x_world life_ports) 0 e []) = Inr secrets"
proof -
  obtain D0 D where r: "life_start = Running D0" "dm_config D0 = demo_loaded" by (rule life_reload)
  define e where "e = dict_items (getv (dict_items (getv demo_loaded ''sources'')) ''ci'')"
  have e: "source_entry (dm_config D0) ''ci'' = Inr (Some (VDict e))"
    "dget e ''secret_uris'' = Some (VList (map VStr [''env://CI'']))"
    unfolding r(2) e_def by code_simp+
  have n: "env_var_name (VStr ''env://CI'') \<noteq> None" by code_simp
  have s: "startup (x_ulid life_ports) 0 offline demo_environ ''/home/me'' None (Json (VDict demo_v2)) = Running D0"
    using r(1) by (simp add: life_start_def life_ulid)
  have w: "w_env (x_world life_ports) k = None \<longleftrightarrow> demo_environ k = None" for k by (simp add: life_ports_def)
  have "\<exists>secrets. fst (resolve_all (x_world life_ports) 0 e []) = Inr secrets"
    using live_secrets_resolve [OF life_ulid(1,2) s _ here [of life_ports demo_reply_env "\<lambda>_. Inl JSONDecodeError"] e _ w] n
    by auto
  with r(1) e(1) show ?thesis by blast
qed

end
