(* ===== verification/Shutdown_Props.thy ===== *)
theory Shutdown_Props
  imports Lifecycle_Props
begin

section \<open>The order of the shutdown\<close>

text \<open>
  What \<open>_shutdown\<close> leaves: nothing that could still want the store, every queued row and dead
  letter, and a dead letter for each alert whose delivery it cut off.
\<close>

subsection \<open>The end of the ack waiters\<close>

lemma shutdown_router_fields:
  "r_store (shutdown_router R) = r_store R" "r_frames (shutdown_router R) = r_frames R"
  "r_waiters (shutdown_router R) = []" "r_acks (shutdown_router R) = []" "r_config (shutdown_router R) = r_config R"
proof -
  have "r_store (fold (\<lambda>w R. finish_wait w None R) ws R) = r_store R
      \<and> r_frames (fold (\<lambda>w R. finish_wait w None R) ws R) = r_frames R
      \<and> r_config (fold (\<lambda>w R. finish_wait w None R) ws R) = r_config R" for ws
    by (induction ws arbitrary: R)
      (simp_all add: finish_wait_def Let_def settle_pending_def forget_ack_def split: option.split)
  then show "r_store (shutdown_router R) = r_store R" "r_frames (shutdown_router R) = r_frames R"
    "r_waiters (shutdown_router R) = []" "r_acks (shutdown_router R) = []" "r_config (shutdown_router R) = r_config R"
    by (simp_all add: shutdown_router_def)
qed

subsection \<open>The cancelled deliveries\<close>

text \<open>The alert of \<open>event\<close> for a principal with channels \<open>cs\<close>.\<close>

definition alert_to :: "cfg \<Rightarrow> dict \<Rightarrow> string \<Rightarrow> dict \<Rightarrow> bool" where
  "alert_to cfg event pid cs \<longleftrightarrow>
     (\<exists>meta. dget event ''meta'' = Some (VDict meta) \<and> truthy_opt (dget meta ''target'') \<and> pid = get_str meta ''target'' [])
     \<and> resolve_principal cfg pid = Some cs \<and> cs \<noteq> []"

definition kept_alert :: "dict \<Rightarrow> string \<Rightarrow> dead_row \<Rightarrow> bool" where
  "kept_alert event pid d \<longleftrightarrow>
     dl_kind d = ''human_delivery'' \<and> dl_redrive_status d = None
     \<and> (\<exists>ds. dl_payload d = [(''event'', VDict event), (''principal_id'', VStr pid),
                              (''delivered_channels'', VList (map VStr ds))])"

lemma finish_task_settles:
  assumes "channel_contract chan" "i_health I = Some h" "r_store (i_router I) = Some st"
  shows "\<exists>new h' st'. r_store (i_router (finish_task P True now chan event I)) = Some st'
    \<and> st_dead st' = st_dead st @ new \<and> st_pending st' = st_pending st \<and> st_dedupe st' = st_dedupe st
    \<and> i_health (finish_task P True now chan event I) = Some h' \<and> h_lost h' = h_lost h
    \<and> i_tasks (finish_task P True now chan event I) = remove1 event (i_tasks I)
    \<and> r_config (i_router (finish_task P True now chan event I)) = r_config (i_router I)
    \<and> r_frames (i_router (finish_task P True now chan event I)) = r_frames (i_router I)
    \<and> (\<forall>pid cs. alert_to (r_config (i_router I)) event pid cs \<longrightarrow>
         (\<forall>(k, c) \<in> set cs. landed chan event k c) \<or> (\<exists>d \<in> set new. kept_alert event pid d))"
proof -
  let ?H = "\<lparr>hd_config = r_config (i_router I), hd_health = h, hd_store = r_store (i_router I), hd_calls = []\<rparr>"
  obtain res H' where run: "deliver_human (x_ulid P) True now chan event [] ?H = (res, H')" by (metis surj_pair)
  have fin: "finish_task P True now chan event I = I\<lparr>i_health := Some (hd_health H'),
      i_router := (i_router I)\<lparr>r_store := hd_store H'\<rparr>, i_tasks := remove1 event (i_tasks I)\<rparr>"
    by (simp add: finish_task_def assms(2) run)
  from deliver_human_effect [OF assms(1) _ run, of st] assms(3)
  have da: "dead_added (x_ulid P) True now st (hd_store H')" and lost: "h_lost (hd_health H') = h_lost h" by simp_all
  from da obtain st' new where st': "hd_store H' = Some st'" "st_dead st' = st_dead st @ new"
    "st_pending st' = st_pending st" "st_dedupe st' = st_dedupe st"
    by (auto simp: dead_added_def store_simps)
  have "(\<forall>(k, c) \<in> set cs. landed chan event k c) \<or> (\<exists>d \<in> set new. kept_alert event pid d)"
    if al: "alert_to (r_config (i_router I)) event pid cs" for pid cs
  proof -
    from al obtain meta where m: "dget event ''meta'' = Some (VDict meta)" "truthy_opt (dget meta ''target'')"
      "resolve_principal (hd_config ?H) (get_str meta ''target'' []) = Some cs" "cs \<noteq> []" "pid = get_str meta ''target'' []"
      by (auto simp: alert_to_def)
    from deliver_human_outcome [OF assms(1) m(1-4) run] assms(3) consider
      "\<forall>(k, c) \<in> set cs. landed chan event k c" | ds where "alert_kept event pid ds ?H H'"
      unfolding m(5) by (auto split: if_splits)
    then show ?thesis
    proof cases
      case 2
      then have "\<exists>d. st_dead st' = st_dead st @ [d] \<and> kept_alert event pid d"
        by (auto simp: alert_kept_def kept_alert_def assms(3) st'(1))
      with st'(2) show ?thesis by auto
    qed simp
  qed
  with st' lost show ?thesis unfolding fin by auto
qed

text \<open>Of each alert among \<open>events\<close> all channels reported success, or the dead letters \<open>new\<close> keep it.\<close>

definition alerts_kept :: "cfg \<Rightarrow> (dict \<Rightarrow> channels) \<Rightarrow> dict list \<Rightarrow> dead_row list \<Rightarrow> bool" where
  "alerts_kept cfg cancel events new \<longleftrightarrow> (\<forall>event \<in> set events. \<forall>pid cs. alert_to cfg event pid cs \<longrightarrow>
     (\<forall>(k, c) \<in> set cs. landed (cancel event) event k c) \<or> (\<exists>d \<in> set new. kept_alert event pid d))"

lemma cancelled_settle:
  assumes "\<And>event. channel_contract (cancel event)" "i_health I = Some h" "r_store (i_router I) = Some st"
  shows "\<exists>new h' st'. r_store (i_router (fold (\<lambda>ev. finish_task P True now (cancel ev) ev) events I)) = Some st'
    \<and> st_dead st' = st_dead st @ new \<and> st_pending st' = st_pending st \<and> st_dedupe st' = st_dedupe st
    \<and> i_health (fold (\<lambda>ev. finish_task P True now (cancel ev) ev) events I) = Some h' \<and> h_lost h' = h_lost h
    \<and> i_tasks (fold (\<lambda>ev. finish_task P True now (cancel ev) ev) events I) = fold remove1 events (i_tasks I)
    \<and> r_config (i_router (fold (\<lambda>ev. finish_task P True now (cancel ev) ev) events I)) = r_config (i_router I)
    \<and> r_frames (i_router (fold (\<lambda>ev. finish_task P True now (cancel ev) ev) events I)) = r_frames (i_router I)
    \<and> alerts_kept (r_config (i_router I)) cancel events new"
  using assms(2,3)
proof (induction events arbitrary: I h st)
  case (Cons ev events)
  let ?I = "finish_task P True now (cancel ev) ev I"
  from finish_task_settles [OF assms(1) Cons.prems, of P now ev ev] obtain new1 h1 st1 where one:
    "r_store (i_router ?I) = Some st1" "st_dead st1 = st_dead st @ new1" "st_pending st1 = st_pending st"
    "st_dedupe st1 = st_dedupe st" "i_health ?I = Some h1" "h_lost h1 = h_lost h" "i_tasks ?I = remove1 ev (i_tasks I)"
    "r_config (i_router ?I) = r_config (i_router I)" "r_frames (i_router ?I) = r_frames (i_router I)"
    "\<forall>pid cs. alert_to (r_config (i_router I)) ev pid cs \<longrightarrow>
         (\<forall>(k, c) \<in> set cs. landed (cancel ev) ev k c) \<or> (\<exists>d \<in> set new1. kept_alert ev pid d)" by blast
  from Cons.IH [OF one(5,1)] obtain new2 h2 st2 where two:
    "r_store (i_router (fold (\<lambda>ev. finish_task P True now (cancel ev) ev) events ?I)) = Some st2"
    "st_dead st2 = st_dead st1 @ new2" "st_pending st2 = st_pending st1" "st_dedupe st2 = st_dedupe st1"
    "i_health (fold (\<lambda>ev. finish_task P True now (cancel ev) ev) events ?I) = Some h2" "h_lost h2 = h_lost h1"
    "i_tasks (fold (\<lambda>ev. finish_task P True now (cancel ev) ev) events ?I) = fold remove1 events (i_tasks ?I)"
    "r_config (i_router (fold (\<lambda>ev. finish_task P True now (cancel ev) ev) events ?I)) = r_config (i_router ?I)"
    "r_frames (i_router (fold (\<lambda>ev. finish_task P True now (cancel ev) ev) events ?I)) = r_frames (i_router ?I)"
    "alerts_kept (r_config (i_router ?I)) cancel events new2" by blast
  have "alerts_kept (r_config (i_router I)) cancel (ev # events) (new1 @ new2)"
    using one(8,10) two(10) unfolding alerts_kept_def set_append set_simps by (metis UnCI insertE)
  with one two show ?case by (intro exI [of _ "new1 @ new2"] exI [of _ h2] exI [of _ st2]) simp
qed (auto simp: alerts_kept_def intro!: exI [of _ "[]"])

lemma fold_remove1_filter: "fold remove1 (filter Q xs) xs = filter (\<lambda>x. \<not> Q x) xs"
proof -
  have "\<forall>y \<in> set ys. \<not> Q y \<Longrightarrow> fold remove1 (filter Q xs) (ys @ xs) = ys @ filter (\<lambda>x. \<not> Q x) xs" for ys
  proof (induction xs arbitrary: ys)
    case (Cons x xs)
    show ?case
    proof (cases "Q x")
      case True
      with Cons.prems have "x \<notin> set ys" by blast
      with True Cons show ?thesis by (simp add: remove1_append)
    next
      case False
      with Cons.IH [of "ys @ [x]"] Cons.prems show ?thesis by auto
    qed
  qed simp
  from this [of "[]"] show ?thesis by simp
qed

subsection \<open>What the shutdown leaves\<close>

text \<open>The state when the grace periods are over: what is then still in flight is cancelled.\<close>

definition after_grace :: "stopping \<Rightarrow> daemon \<Rightarrow> ingest" where
  "after_grace E D = runner_cleanup E (dm_ingest (close_sockets D))"

text \<open>The deliveries still in flight then whose cancellation ends within the time the daemon waits for it.\<close>

definition ended_tasks :: "stopping \<Rightarrow> daemon \<Rightarrow> dict list" where
  "ended_tasks E D = filter (\<lambda>event. ends_in_time (se_takes E event)) (i_tasks (after_grace E D))"

text \<open>Claim C9: when the store closes, no ack waiter and no connection is left, and of the deliveries exactly
  those that did not end within two seconds of their cancellation; the code logs that their dead
  letters may be lost.  The cancellations keep every queued row, replay record and dead letter, add frames
  to nobody, count no alert as lost, and leave for every alert whose cancelled delivery ended in time, unless
  all its channels reported success, a dead letter that a redrive can start from.  (For a daemon with a
  store that takes the writes.)\<close>

theorem shutdown_settles:
  assumes "shutdown E D = (disk, D')" and "se_db E" and "\<And>event. channel_contract (se_cancel E event)"
    and "r_store (i_router (after_grace E D)) = Some st" and "i_health (after_grace E D) = Some h"
  shows "i_tasks (dm_ingest D') = filter (\<lambda>event. \<not> ends_in_time (se_takes E event)) (i_tasks (after_grace E D))
    \<and> r_waiters (i_router (dm_ingest D')) = [] \<and> r_acks (i_router (dm_ingest D')) = []
    \<and> dm_conns D' = [] \<and> \<not> ob_started (dm_outbox D')
    \<and> r_frames (i_router (dm_ingest D')) = r_frames (i_router (after_grace E D))
    \<and> (\<exists>st' new h'. disk = Some st' \<and> st_pending st' = st_pending st \<and> st_dedupe st' = st_dedupe st
         \<and> st_dead st' = st_dead st @ new \<and> i_health (dm_ingest D') = Some h' \<and> h_lost h' = h_lost h
         \<and> alerts_kept (r_config (i_router (after_grace E D))) (se_cancel E) (ended_tasks E D) new)"
proof -
  let ?I1 = "after_grace E D"
  let ?I2 = "fold (\<lambda>ev. finish_task (se_ports E) True (se_now E) (se_cancel E ev) ev) (ended_tasks E D) ?I1"
  from cancelled_settle [where cancel = "se_cancel E" and P = "se_ports E" and now = "se_now E"
      and events = "ended_tasks E D", OF assms(3,5,4)] obtain new h' st' where two:
    "r_store (i_router ?I2) = Some st'" "st_dead st' = st_dead st @ new" "st_pending st' = st_pending st"
    "st_dedupe st' = st_dedupe st" "i_health ?I2 = Some h'" "h_lost h' = h_lost h"
    "i_tasks ?I2 = fold remove1 (ended_tasks E D) (i_tasks ?I1)" "r_frames (i_router ?I2) = r_frames (i_router ?I1)"
    "alerts_kept (r_config (i_router ?I1)) (se_cancel E) (ended_tasks E D) new" by blast
  have left: "fold remove1 (ended_tasks E D) (i_tasks ?I1)
      = filter (\<lambda>event. \<not> ends_in_time (se_takes E event)) (i_tasks ?I1)"
    unfolding ended_tasks_def by (rule fold_remove1_filter)
  have run: "disk = r_store (shutdown_router (i_router ?I2))"
    "D' = (close_sockets D)\<lparr>dm_ingest := ?I2\<lparr>i_router := (shutdown_router (i_router ?I2))\<lparr>r_store := None\<rparr>\<rparr>,
             dm_outbox := close_outbox (dm_outbox (close_sockets D))\<rparr>"
    using assms(1,2) by (auto simp: shutdown_def Let_def force_drain_def after_grace_def ended_tasks_def)
  have c: "dm_conns (close_sockets D) = []" by (simp add: close_sockets_def close_server_def)
  show ?thesis
    using two unfolding run
    by (simp add: shutdown_router_fields left c close_outbox_def)
qed

text \<open>A shutdown with two alerts in flight: of the first the webhook landed and the mail is cut off; the second
  does not end.\<close>

definition stopping_daemon :: daemon where
  "stopping_daemon =
     \<lparr>dm_ingest = demo_ingest\<lparr>i_router := (new_router (hd_config demo_human) (Some new_store)), i_tasks := [demo_alert, []]\<rparr>,
      dm_outbox = start_outbox (new_outbox []), dm_conns = [], dm_sent = [], dm_posts = [], dm_closed = {},
      dm_bind = (VStr ''127.0.0.1'', 8788), dm_socket = ''/run/s''\<rparr>"

definition demo_stopping :: stopping where
  "demo_stopping = \<lparr>se_ports = demo_ports, se_db = True, se_ends = [Connection_ends ''s9''], se_now = 7,
     se_cancel = (\<lambda>_. demo_chan), se_takes = (\<lambda>event. if event = [] then None else Some 0)\<rparr>"

theorem shutdown_settles_witness:
  "(\<exists>st'. fst (shutdown demo_stopping stopping_daemon) = Some st' \<and> (\<exists>d \<in> set (st_dead st'). kept_alert demo_alert ''human:ann'' d))
   \<and> i_tasks (dm_ingest (snd (shutdown demo_stopping stopping_daemon))) = [[]]"
proof -
  let ?I = "after_grace demo_stopping stopping_daemon"
  obtain disk D' where run: "shutdown demo_stopping stopping_daemon = (disk, D')" by (metis surj_pair)
  note grace = after_grace_def runner_cleanup_def close_sockets_def close_server_def demo_stopping_def
      stopping_daemon_def demo_ingest_def
  have g: "r_store (i_router ?I) = Some new_store" "i_health ?I = Some new_health" "i_tasks ?I = [demo_alert, []]"
    "r_config (i_router ?I) = hd_config demo_human"
    by (simp_all add: grace unsubscribe_def new_router_def)
  have al: "alert_to (hd_config demo_human) demo_alert ''human:ann'' [(''webhook'', VDict []), (''email'', VDict [])]"
    by (simp add: alert_to_def demo_alert_def demo_human_def resolve_principal_def get_str_def py_access)
  have takes: "\<not> ends_in_time (se_takes demo_stopping [])" "ends_in_time (se_takes demo_stopping demo_alert)"
    by (simp_all add: ends_in_time_def demo_stopping_def demo_alert_def FORCE_DRAIN_TIMEOUT_def)
  then have ended: "ended_tasks demo_stopping stopping_daemon = [demo_alert]" by (simp add: ended_tasks_def g(3))
  have nl: "\<not> landed demo_chan demo_alert ''email'' (VDict [])" by (simp add: landed_def demo_chan_def called_def)
  have "se_db demo_stopping" "channel_contract (se_cancel demo_stopping event)" for event
    using demo_contract by (simp_all add: demo_stopping_def)
  from shutdown_settles [OF run this g(1,2)] obtain st' new where "disk = Some st'" "st_dead st' = st_dead new_store @ new"
    "alerts_kept (hd_config demo_human) (\<lambda>_. demo_chan) [demo_alert] new" and left: "i_tasks (dm_ingest D') = [[]]"
    unfolding g(3,4) ended using takes by (auto simp: demo_stopping_def)
  moreover from this(3) al nl have "\<exists>d \<in> set new. kept_alert demo_alert ''human:ann'' d"
    unfolding alerts_kept_def by fastforce
  ultimately show ?thesis unfolding run using left by auto
qed

end
