(* ===== verification/Lines.thy ===== *)
theory Lines
  imports Pytext "HOL-Library.AList"
begin

section \<open>Lines and columns\<close>

text \<open>
  Splitting a text into lines and joining lines again, as the command line's files and messages
  need it, and the padding of table columns.
\<close>

text \<open>\<open>str.splitlines\<close> on code points below 256; a carriage return and a line feed are one break.\<close>

definition is_line_break :: "char \<Rightarrow> bool" where
  "is_line_break c \<longleftrightarrow> c \<in> set [CHR 0x0A, CHR 0x0B, CHR 0x0C, CHR 0x0D, CHR 0x1C, CHR 0x1D, CHR 0x1E, CHR 0x85]"

fun splitlines :: "string \<Rightarrow> string list" where
  "splitlines [] = []"
| "splitlines (c # s) =
     (if c = CHR 0x0D \<and> s \<noteq> [] \<and> hd s = CHR 0x0A then [] # splitlines (tl s)
      else if is_line_break c then [] # splitlines s
      else (case s of
              [] \<Rightarrow> [[c]]
            | _ \<Rightarrow> (case splitlines s of [] \<Rightarrow> [[c]] | l # ls \<Rightarrow> (c # l) # ls)))"

declare splitlines.simps(2) [simp del]

text \<open>\<open>str.upper\<close> on ASCII and the Latin-1 letters that have a capital there.\<close>

definition py_upper :: "string \<Rightarrow> string" where
  "py_upper s = concat (map (\<lambda>c. let n = (of_char c :: nat) in
     if n = 223 then ''SS''
     else if (97 \<le> n \<and> n \<le> 122) \<or> (224 \<le> n \<and> n \<le> 254 \<and> n \<noteq> 247) then [char_of (n - 32)] else [c]) s)"

definition line_feed :: string where "line_feed = [CHR 0x0A]"

definition unlines :: "string list \<Rightarrow> string" where
  "unlines ls = join line_feed ls @ line_feed"

definition no_break :: "string \<Rightarrow> bool" where
  "no_break s \<longleftrightarrow> (\<forall>c \<in> set s. \<not> is_line_break c)"

lemma no_break_simps [simp]: "no_break []" "no_break (c # s) \<longleftrightarrow> \<not> is_line_break c \<and> no_break s"
  "no_break (s @ t) \<longleftrightarrow> no_break s \<and> no_break t"
  by (auto simp: no_break_def)

lemma break_chars [simp]: "is_line_break (CHR 0x0A)" "is_line_break (CHR 0x0D)"
  by (simp_all add: is_line_break_def)

lemma splitlines_ne: "s \<noteq> [] \<Longrightarrow> splitlines s \<noteq> []"
  by (cases s) (auto simp: splitlines.simps(2) split: list.split)

lemma splitlines_newline: "no_break l \<Longrightarrow> splitlines (l @ CHR 0x0A # s) = l # splitlines s"
proof (induction l)
  case (Cons c l)
  then have "splitlines (c # (l @ CHR 0x0A # s)) = (case splitlines (l @ CHR 0x0A # s) of [] \<Rightarrow> [[c]] | l # ls \<Rightarrow> (c # l) # ls)"
    by (subst splitlines.simps(2)) (auto split: list.split)
  with Cons show ?case by simp
qed (simp add: splitlines.simps(2))

lemma splitlines_last: "no_break l \<Longrightarrow> l \<noteq> [] \<Longrightarrow> splitlines l = [l]"
proof (induction l)
  case (Cons c l)
  then show ?case by (cases l) (auto simp: splitlines.simps(2))
qed simp

text \<open>No line of \<open>splitlines\<close> holds a break, and joining lines again gives them back.\<close>

lemma splitlines_no_break: "l \<in> set (splitlines s) \<Longrightarrow> no_break l"
proof (induction s arbitrary: l rule: splitlines.induct)
  case (2 c s)
  show ?case
  proof (cases "c = CHR 0x0D \<and> s \<noteq> [] \<and> hd s = CHR 0x0A")
    case True
    with 2 show ?thesis by (auto simp: splitlines.simps(2))
  next
    case False
    show ?thesis
    proof (cases "is_line_break c")
      case True
      with False 2 show ?thesis by (auto simp: splitlines.simps(2))
    next
      case nb: False
      show ?thesis
      proof (cases s)
        case Nil
        with False nb 2(4) show ?thesis by (simp add: splitlines.simps(2))
      next
        case (Cons d s')
        then obtain k ks where k: "splitlines s = k # ks" using splitlines_ne by (cases "splitlines s") auto
        with Cons False nb have "splitlines (c # s) = (c # k) # ks" by (simp add: splitlines.simps(2))
        then have "l = c # k \<or> l \<in> set (splitlines s)" using 2(4) k by auto
        moreover have "no_break k" using 2(3) [OF False nb Cons] k by simp
        ultimately show ?thesis using nb 2(3) [OF False nb Cons] by auto
      qed
    qed
  qed
qed simp

lemma splitlines_unlines:
  assumes "\<forall>l \<in> set ls. no_break l" "ls \<noteq> []"
  shows "splitlines (unlines ls) = ls"
proof -
  have "splitlines (join line_feed ls @ line_feed) = ls" if "\<forall>l \<in> set ls. no_break l" "ls \<noteq> []" for ls
    using that
  proof (induction ls rule: induct_list012)
    case (2 x)
    then show ?case using splitlines_newline [of x "[]"] by (simp add: line_feed_def)
  next
    case (3 x y zs)
    then show ?case using splitlines_newline [of x "join line_feed (y # zs) @ line_feed"] by (simp add: line_feed_def)
  qed simp
  with assms show ?thesis by (simp add: unlines_def)
qed

lemma splitlines_append: "splitlines (s @ CHR 0x0A # t) = splitlines (s @ [CHR 0x0A]) @ splitlines t"
proof (induction s rule: splitlines.induct)
  case (2 c s)
  consider "c = CHR 0x0D" "s = []" | "c = CHR 0x0D" "s \<noteq> []" "hd s = CHR 0x0A"
    | "\<not> (c = CHR 0x0D \<and> s \<noteq> [] \<and> hd s = CHR 0x0A)" "c = CHR 0x0D \<longrightarrow> s \<noteq> []" "is_line_break c"
    | "\<not> is_line_break c" by auto
  then show ?case
  proof cases
    case 2
    then obtain s' where "s = CHR 0x0A # s'" by (cases s) auto
    with 2 "2.IH"(1) show ?thesis by (simp add: splitlines.simps(2))
  next
    case 3
    with "2.IH"(2) have "splitlines (s @ CHR 0x0A # t) = splitlines (s @ [CHR 0x0A]) @ splitlines t" by blast
    with 3 show ?thesis by (cases s) (auto simp: splitlines.simps(2))
  next
    case 4
    then have c: "\<not> (c = CHR 0x0D \<and> s \<noteq> [] \<and> hd s = CHR 0x0A)" by auto
    show ?thesis
    proof (cases s)
      case Nil
      with 4 show ?thesis by (auto simp: splitlines.simps(2) [of c] splitlines.simps(2) [of "CHR 0x0A"])
    next
      case (Cons d s')
      with "2.IH"(3) [OF c 4] have IH: "splitlines (s @ CHR 0x0A # t) = splitlines (s @ [CHR 0x0A]) @ splitlines t" by simp
      have ne: "splitlines (s @ [CHR 0x0A]) \<noteq> []" by (rule splitlines_ne) simp
      then obtain l ls where ls: "splitlines (s @ [CHR 0x0A]) = l # ls" by (cases "splitlines (s @ [CHR 0x0A])") auto
      have step: "splitlines (c # s @ u) = (case splitlines (s @ u) of [] \<Rightarrow> [[c]] | l # ls \<Rightarrow> (c # l) # ls)" for u
        using 4 Cons by (subst splitlines.simps(2)) auto
      show ?thesis using step [of "CHR 0x0A # t"] step [of "[CHR 0x0A]"] IH ls by simp
    qed
  qed (simp_all add: splitlines.simps(2))
qed (simp add: splitlines.simps(2))

text \<open>\<open>f"{s:28}"\<close> and \<open>f"{n:>3}"\<close>.\<close>

definition ljust :: "nat \<Rightarrow> string \<Rightarrow> string" where
  "ljust w s = s @ replicate (w - length s) CHR '' ''"

definition rjust :: "nat \<Rightarrow> string \<Rightarrow> string" where
  "rjust w s = replicate (w - length s) CHR '' '' @ s"

end
