(* ===== verification/Queue_Cli.thy ===== *)
theory Queue_Cli
  imports Delivery_Props Outbox_Props Config Lines
begin

section \<open>The operator's queue commands (\<open>cli/queue.py\<close>, \<open>cli/__init__.py\<close>)\<close>

text \<open>
  \<open>agent-wake dead-letter list|show|redrive|purge\<close> and \<open>agent-wake pending list|prune\<close>.  A command
  is a function of its arguments, of the environment it runs in and of the databases on disk: it
  opens the store its configuration points to, works on it and closes it.  \<open>disk\<close> maps a path to
  the database there, with the schema version it records (\<open>None\<close> for a new file), or to the
  message of the \<open>StoreError\<close> that opening it raises.  What a command prints is a value: a JSON
  document, a text on stdout, or the lines on stderr.  The requests a redrive makes are its trace.
\<close>

subsection \<open>What a command prints\<close>

datatype printed = Json_doc dict | Out_text string | Err_lines "string list"

type_synonym reply = "int \<times> printed"

definition emit_error ::
  "string \<Rightarrow> string \<Rightarrow> bool \<Rightarrow> string option \<Rightarrow> bool \<Rightarrow> int \<Rightarrow> reply" where
  "emit_error code message use_json detail retryable exit_code =
     (exit_code,
      if use_json then
        Json_doc [(''ok'', VBool False),
          (''error'', VDict [(''code'', VStr code), (''message'', VStr message),
             (''detail'', opt_str detail), (''retryable'', VBool retryable), (''partial'', VNone)])]
      else
        Err_lines ([''error: '' @ message]
          @ (case detail of Some (c # d) \<Rightarrow> [''  '' @ c # d] | _ \<Rightarrow> [])))"

definition emit :: "bool \<Rightarrow> dict \<Rightarrow> string \<Rightarrow> reply" where
  "emit use_json doc txt = (0, if use_json then Json_doc doc else Out_text txt)"

text \<open>A command that does not reach its \<open>return\<close>: the store cannot be opened, a Python exception,
  or the interruption of the delivery it awaits.\<close>

datatype failure = Store_failure string | Exception exn | Interrupted

text \<open>
  The error boundary of \<open>main\<close>; \<open>say\<close> renders an exception as its class and its \<open>str\<close>.  An
  interrupt is not an \<open>Exception\<close> and passes through.  The commands here load the configuration
  themselves, so no \<open>ConfigError\<close> reaches it.
\<close>

definition boundary :: "(exn \<Rightarrow> string) \<Rightarrow> bool \<Rightarrow> failure + reply \<Rightarrow> reply option" where
  "boundary say json_mode outcome =
     (case outcome of
        Inr r \<Rightarrow> Some r
      | Inl (Store_failure msg) \<Rightarrow> Some (emit_error ''STORE_ERROR'' msg json_mode None True 1)
      | Inl (Exception e) \<Rightarrow>
          Some (emit_error ''INTERNAL_ERROR'' (''unexpected '' @ say e) json_mode None False 1)
      | Inl Interrupted \<Rightarrow> None)"

subsection \<open>Times of day\<close>

text \<open>
  \<open>datetime.fromtimestamp(t, tz=UTC)\<close> rounds to microseconds, a half to even; \<open>isoformat\<close> with
  \<open>timespec="seconds"\<close> drops them.  The date is the one \<open>datetime\<close> computes from the day number:
  \<open>days\<close> counts from 0001-01-01 (day 0) in cycles of 400, 100, 4 and 1 years.  The years 1 to 9999
  are the range of the type.
\<close>

definition is_leap :: "int \<Rightarrow> bool" where
  "is_leap y \<longleftrightarrow> 4 dvd y \<and> (\<not> 100 dvd y \<or> 400 dvd y)"

definition days_in_month :: "int \<Rightarrow> nat \<Rightarrow> int" where
  "days_in_month y m =
     (if m = 2 then (if is_leap y then 29 else 28) else if m \<in> {4, 6, 9, 11} then 30 else 31)"

fun month_day :: "int \<Rightarrow> nat list \<Rightarrow> int \<Rightarrow> nat \<times> int" where
  "month_day y [] d = (12, d)"
| "month_day y (m # ms) d =
     (if d < days_in_month y m then (m, d) else month_day y ms (d - days_in_month y m))"

definition civil :: "int \<Rightarrow> int \<times> nat \<times> int" where
  "civil days =
     (let n400 = days div 146097; r400 = days mod 146097;
          n100 = r400 div 36524; r100 = r400 mod 36524;
          n4 = r100 div 1461; r4 = r100 mod 1461;
          n1 = r4 div 365; r1 = r4 mod 365;
          year = 400 * n400 + 100 * n100 + 4 * n4 + n1 + 1
      in if n1 = 4 \<or> n100 = 4 then (year - 1, 12, 30)
         else (case month_day year [1..<13] r1 of (m, d) \<Rightarrow> (year, m, d)))"

definition zfill :: "nat \<Rightarrow> int \<Rightarrow> string" where
  "zfill w n = (let s = int_str n in replicate (w - length s) CHR ''0'' @ s)"

definition iso_seconds :: "pytime \<Rightarrow> string res" where
  "iso_seconds t =
     (let secs = round_even (t * 1000000) div 1000000;
          days = secs div 86400 + 719162; s = secs mod 86400
      in case civil days of
           (y, m, d) \<Rightarrow>
             if y < 1 \<or> 9999 < y then Inl (ValueError ''year is out of range'')
             else Inr (zfill 4 y @ ''-'' @ zfill 2 (int m) @ ''-'' @ zfill 2 (d + 1) @ ''T''
               @ zfill 2 (s div 3600) @ '':'' @ zfill 2 (s div 60 mod 60) @ '':'' @ zfill 2 (s mod 60)
               @ ''+00:00''))"

definition ts :: "pytime option \<Rightarrow> pyval res" where
  "ts t = (case t of
     None \<Rightarrow> Inr VNone
   | Some t \<Rightarrow> (case iso_seconds t of Inl e \<Rightarrow> Inl e | Inr s \<Rightarrow> Inr (VStr s)))"

definition plural_y :: "nat \<Rightarrow> string" where
  "plural_y n = (if n = 1 then ''y'' else ''ies'')"

subsection \<open>The store a command works on\<close>

datatype db_file = Unopenable string | Db "int option" store

type_synonym disk = "string \<Rightarrow> db_file"

record cli_env =
  ce_ulid :: "nat \<Rightarrow> string"
  ce_state_dir :: "string option"
  ce_default_dir :: string
  ce_config :: "cfg checked"

definition load_config_optional :: "cli_env \<Rightarrow> cfg" where
  "load_config_optional E = (case ce_config E of Inl _ \<Rightarrow> [] | Inr cfg \<Rightarrow> cfg)"

definition db_path :: "cli_env \<Rightarrow> cfg \<Rightarrow> string" where
  "db_path E cfg =
     resolve_state_path (ce_state_dir E) (if cfg = [] then None else Some cfg) (ce_default_dir E)"

text \<open>
  Open, work, close: the rows the work leaves are on disk whether it returned or raised (each store
  method commits).  Opening writes the schema version.
\<close>

definition with_store ::
  "cli_env \<Rightarrow> pytime \<Rightarrow> cfg \<Rightarrow> disk \<Rightarrow> (store \<Rightarrow> (failure + 'a) \<times> 't \<times> store) \<Rightarrow> 't \<Rightarrow>
   (failure + 'a) \<times> 't \<times> disk" where
  "with_store E now cfg disk work idle =
     (case disk (db_path E cfg) of
        Unopenable msg \<Rightarrow> (Inl (Store_failure msg), idle, disk)
      | Db prior st \<Rightarrow>
          (case work (open_store (ce_ulid E) now cfg prior st) of
             (r, tr, st') \<Rightarrow> (r, tr, disk(db_path E cfg := Db (Some SCHEMA_VERSION) st'))))"

text \<open>A command that only reads the store, with a result that may raise.\<close>

definition reading :: "(store \<Rightarrow> 'a res) \<Rightarrow> store \<Rightarrow> (failure + 'a) \<times> unit \<times> store" where
  "reading f st = ((case f st of Inl e \<Rightarrow> Inl (Exception e) | Inr x \<Rightarrow> Inr x), (), st)"

fun collect :: "('a \<Rightarrow> 'b res) \<Rightarrow> 'a list \<Rightarrow> 'b list res" where
  "collect f [] = Inr []"
| "collect f (x # xs) =
     (case f x of
        Inl e \<Rightarrow> Inl e
      | Inr y \<Rightarrow> (case collect f xs of Inl e \<Rightarrow> Inl e | Inr ys \<Rightarrow> Inr (y # ys)))"

subsection \<open>\<open>dead-letter list\<close>, \<open>show\<close> and \<open>purge\<close>\<close>

text \<open>\<open>DeadLetter.to_json\<close> with the two times as the commands overwrite them; \<open>list\<close> leaves the
  payload out.\<close>

definition to_json :: "bool \<Rightarrow> dead_row \<Rightarrow> dict res" where
  "to_json with_payload r =
     (case ts (Some (dl_created_at r)) of
        Inl e \<Rightarrow> Inl e
      | Inr created \<Rightarrow>
          (case ts (dl_redriven_at r) of
             Inl e \<Rightarrow> Inl e
           | Inr redriven \<Rightarrow>
               Inr ([(''id'', VStr (dl_id r)), (''kind'', VStr (dl_kind r)),
                     (''source'', VStr (dl_source r)), (''ref_id'', VStr (dl_ref_id r))]
                 @ (if with_payload then [(''payload'', VDict (dl_payload r))] else [])
                 @ [(''error'', opt_str (dl_error r)), (''attempts'', VInt (dl_attempts r)),
                    (''created_at'', created), (''redriven_at'', redriven),
                    (''redrive_status'', opt_str (dl_redrive_status r))])))"

definition kind_width :: nat where
  "kind_width = fold max (map length DEAD_LETTER_KINDS) (length ''KIND'')"

definition list_header :: string where
  "list_header = ljust 28 ''ID'' @ '' '' @ ljust kind_width ''KIND'' @ '' '' @ ljust 16 ''SOURCE''
     @ '' '' @ ljust 26 ''REF'' @ '' CREATED''"

definition list_lines :: "dict \<Rightarrow> string list" where
  "list_lines d =
     [ljust 28 (get_str d ''id'' []) @ '' '' @ ljust kind_width (get_str d ''kind'' []) @ '' ''
       @ ljust 16 (take 16 (get_str d ''source'' [])) @ '' ''
       @ ljust 26 (take 26 (get_str d ''ref_id'' [])) @ '' '' @ get_str d ''created_at'' []]
     @ (if truthy_opt (dget d ''error'') then [''    error: '' @ get_str d ''error'' []] else [])"

definition dead_letter_list_text :: "dict list \<Rightarrow> string" where
  "dead_letter_list_text rows =
     (if rows = [] then ''No dead-lettered deliveries.''
      else join line_feed
        ([list_header] @ concat (map list_lines rows)
         @ [[], nat_str (length rows) @ '' entr'' @ plural_y (length rows) @ ''.'']))"

definition cmd_dead_letter_list ::
  "cli_env \<Rightarrow> pytime \<Rightarrow> bool \<Rightarrow> string option \<Rightarrow> int \<Rightarrow> bool \<Rightarrow> disk \<Rightarrow>
   (failure + reply) \<times> unit \<times> disk" where
  "cmd_dead_letter_list E now use_json kind limit include_redriven disk =
     with_store E now (load_config_optional E) disk
       (reading (\<lambda>st.
          case collect (to_json False) (list_dead_letters kind limit include_redriven st) of
            Inl e \<Rightarrow> Inl e
          | Inr rows \<Rightarrow>
              Inr (emit use_json
                [(''ok'', VBool True), (''dead_letters'', VList (map VDict rows))]
                (dead_letter_list_text rows)))) ()"

text \<open>\<open>pretty\<close> stands for \<open>json.dumps(doc, indent=2)\<close>.\<close>

definition cmd_dead_letter_show ::
  "(dict \<Rightarrow> string) \<Rightarrow> cli_env \<Rightarrow> pytime \<Rightarrow> bool \<Rightarrow> string \<Rightarrow> disk \<Rightarrow> (failure + reply) \<times> unit \<times> disk" where
  "cmd_dead_letter_show pretty E now use_json i disk =
     with_store E now (load_config_optional E) disk
       (reading (\<lambda>st.
          case get_dead_letter i st of
            None \<Rightarrow>
              Inr (emit_error ''NOT_FOUND'' (''no dead-letter entry with id '' @ repr_str i) use_json
                (Some ''run `agent-wake dead-letter list` to see current entries'') False 1)
          | Some r \<Rightarrow>
              (case to_json True r of
                 Inl e \<Rightarrow> Inl e
               | Inr doc \<Rightarrow>
                   Inr (emit use_json [(''ok'', VBool True), (''dead_letter'', VDict doc)] (pretty doc))))) ()"

definition cmd_dead_letter_purge ::
  "cli_env \<Rightarrow> pytime \<Rightarrow> pytime \<Rightarrow> bool \<Rightarrow> rat option \<Rightarrow> bool \<Rightarrow> disk \<Rightarrow>
   (failure + reply) \<times> unit \<times> disk" where
  "cmd_dead_letter_purge E now now' use_json older_than_days redriven_only disk =
     with_store E now (load_config_optional E) disk
       (\<lambda>st. case purge_dead_letters now' (map_option (\<lambda>d. d * 24 * 3600) older_than_days) redriven_only st of
          (deleted, st') \<Rightarrow>
            (Inr (emit use_json [(''ok'', VBool True), (''deleted'', VInt (int deleted))]
               (''Deleted '' @ nat_str deleted @ '' dead-letter entr'' @ plural_y deleted @ ''.'')), (), st')) ()"

subsection \<open>\<open>pending list\<close> and \<open>prune\<close>\<close>

definition pending_doc :: "pending_row \<Rightarrow> dict res" where
  "pending_doc r =
     (case ts (Some (p_enqueued_at r)) of
        Inl e \<Rightarrow> Inl e
      | Inr enq \<Rightarrow>
          (case ts (Some (p_expires_at r)) of
             Inl e \<Rightarrow> Inl e
           | Inr expires \<Rightarrow>
               Inr [(''event_id'', VStr (p_event_id r)), (''source'', VStr (p_source r)),
                    (''target'', opt_str (p_target r)), (''attempts'', VInt (p_attempts r)),
                    (''enqueued_at'', enq), (''expires_at'', expires)]))"

definition pending_line :: "dict \<Rightarrow> string" where
  "pending_line d =
     ljust 28 (take 28 (get_str d ''event_id'' [])) @ '' '' @ ljust 16 (take 16 (get_str d ''source'' []))
     @ '' '' @ rjust 3 (get_str d ''attempts'' []) @ '' '' @ get_str d ''expires_at'' []"

definition pending_list_text :: "dict list \<Rightarrow> string" where
  "pending_list_text docs =
     (if docs = [] then ''No events queued for next-session delivery.''
      else join line_feed
        ([ljust 28 ''EVENT_ID'' @ '' '' @ ljust 16 ''SOURCE'' @ '' '' @ rjust 3 ''ATT'' @ '' EXPIRES'']
         @ map pending_line docs @ [[], nat_str (length docs) @ '' queued.'']))"

definition cmd_pending_list ::
  "cli_env \<Rightarrow> pytime \<Rightarrow> bool \<Rightarrow> string option \<Rightarrow> int \<Rightarrow> disk \<Rightarrow> (failure + reply) \<times> unit \<times> disk" where
  "cmd_pending_list E now use_json source limit disk =
     with_store E now (load_config_optional E) disk
       (reading (\<lambda>st.
          case collect pending_doc (list_pending source limit None st) of
            Inl e \<Rightarrow> Inl e
          | Inr docs \<Rightarrow>
              Inr (emit use_json [(''ok'', VBool True), (''pending'', VList (map VDict docs))]
                (pending_list_text docs)))) ()"

definition prune_doc :: "prune_counts \<Rightarrow> int \<Rightarrow> dict" where
  "prune_doc c elapsed_ms =
     [(''dedupe_ttl_deleted'', VInt (int (n_dedupe_ttl c))), (''dedupe_cap_deleted'', VInt (int (n_dedupe_cap c))),
      (''dead_letter_ttl_deleted'', VInt (int (n_dead_ttl c))),
      (''dead_letter_cap_deleted'', VInt (int (n_dead_cap c))),
      (''pending_expired'', VInt (int (n_pending_expired c))), (''elapsed_ms'', VInt elapsed_ms)]"

definition cmd_pending_prune ::
  "cli_env \<Rightarrow> pytime \<Rightarrow> pytime \<Rightarrow> rat \<Rightarrow> bool \<Rightarrow> disk \<Rightarrow> (failure + reply) \<times> unit \<times> disk" where
  "cmd_pending_prune E now now' elapsed use_json disk =
     with_store E now (load_config_optional E) disk
       (\<lambda>st. case prune (ce_ulid E) now' st of
          (counts, st') \<Rightarrow>
            (let doc = prune_doc counts \<lfloor>elapsed * 1000\<rfloor> in
             (Inr (emit use_json [(''ok'', VBool True), (''pruned'', VDict doc)]
                (join line_feed (map (\<lambda>(k, v). k @ '': '' @ py_str v) doc))), (), st'))) ()"

subsection \<open>\<open>dead-letter redrive\<close>\<close>

datatype redrive_request = Outbox_step outbox_step | Channel_call string

text \<open>The dictionary \<open>HumanDelivery.deliver\<close> returns for a target.\<close>

definition delivery_dict :: "string \<Rightarrow> delivery_result \<Rightarrow> dict option" where
  "delivery_dict target r =
     (case r of
        No_target \<Rightarrow> Some [(''status'', VStr ''no_target'')]
      | Unknown_principal p \<Rightarrow> Some [(''status'', VStr ''unknown_principal''), (''principal_id'', VStr p)]
      | No_channels p \<Rightarrow> Some [(''status'', VStr ''no_channels''), (''principal_id'', VStr p)]
      | Done status results \<Rightarrow>
          Some [(''status'', VStr status), (''principal_id'', VStr target),
                (''channels'', VList (map VDict results))]
      | Gone \<Rightarrow> None)"

definition event_target :: "dict \<Rightarrow> string" where
  "event_target event =
     (case dict_of (dget event ''meta'') of None \<Rightarrow> [] | Some meta \<Rightarrow> get_str meta ''target'' [])"

definition channel_problem :: "pyval \<Rightarrow> string option" where
  "channel_problem c =
     (case c of
        VDict r \<Rightarrow>
          if dget r ''status'' \<in> {Some (VStr ''delivered''), Some (VStr ''skipped'')} then None
          else Some (get_str r ''channel'' ''?'' @ '': ''
            @ (if truthy_opt (dget r ''error'') then get_str r ''error'' [] else get_str r ''status'' ''None''))
      | _ \<Rightarrow> None)"

definition delivery_error :: "dict \<Rightarrow> string" where
  "delivery_error result =
     (let parts = (case dget result ''channels'' of
                     Some (VList cs) \<Rightarrow> List.map_filter channel_problem cs | _ \<Rightarrow> [])
      in if parts \<noteq> [] then join ''; '' parts else get_str result ''status'' ''unknown'')"

text \<open>
  \<open>dict(event.get("meta") or {})\<close> with the recorded principal as its target.  A \<open>meta\<close> that is
  not an object makes \<open>dict\<close> raise (a list of pairs, which would convert, is not distinguished).
\<close>

definition stamp_target :: "string \<Rightarrow> dict \<Rightarrow> dict res" where
  "stamp_target principal_id event =
     (if principal_id = [] then Inr event
      else
        (case dget event ''meta'' of
           Some (VDict meta) \<Rightarrow>
             Inr (dset ''meta'' (VDict (dset ''target'' (VStr principal_id) meta)) event)
         | v \<Rightarrow>
             if truthy_opt v then Inl (ValueError ''dictionary update sequence'')
             else Inr (dset ''meta'' (VDict [(''target'', VStr principal_id)]) event)))"

text \<open>The delivery runs without a store, so it adds no dead letter of its own.\<close>

definition redrive_human_delivery ::
  "(nat \<Rightarrow> string) \<Rightarrow> pytime \<Rightarrow> channels \<Rightarrow> cfg \<Rightarrow> dict \<Rightarrow> string \<Rightarrow> string list \<Rightarrow>
   (failure + dict) \<times> redrive_request list" where
  "redrive_human_delivery ulid now chan cfg event principal_id skip =
     (case stamp_target principal_id event of
        Inl e \<Rightarrow> (Inl (Exception e), [])
      | Inr event' \<Rightarrow>
          (case deliver_human ulid False now chan event' skip
                  \<lparr>hd_config = cfg, hd_health = new_health, hd_store = None, hd_calls = []\<rparr> of
             (r, H) \<Rightarrow>
               (case delivery_dict (event_target event') r of
                  None \<Rightarrow> Inl Interrupted | Some d \<Rightarrow> Inr d,
                map Channel_call (hd_calls H))))"

text \<open>
  What a redrive needs beside the store: the digests, the network and the signing key of an
  outbound reply, and the channels built from a configuration.
\<close>

record redrive_env = cli_env +
  re_sha :: "bytes \<Rightarrow> bytes"
  re_hmac :: "bytes \<Rightarrow> bytes \<Rightarrow> bytes"
  re_post :: "nat \<Rightarrow> post_outcome"
  re_keys :: "string option"
  re_chan :: "cfg \<Rightarrow> channels"

definition redrive_reply :: "redrive_env \<Rightarrow> pytime \<Rightarrow> cfg \<Rightarrow> dict \<Rightarrow> dict res \<times> redrive_request list" where
  "redrive_reply E now cfg payload =
     (case deliver_reply (ce_ulid E) (re_sha E) (re_hmac E) (re_post E) (start_outbox (new_outbox cfg))
             (re_keys E) now (get_str payload ''source'' []) (get_str payload ''reply_id'' [])
             (get_str payload ''in_reply_to'' []) (get_str payload ''content'' []) None None of
        (r, steps, _) \<Rightarrow> (r, map Outbox_step steps))"

text \<open>\<open>f"{d.get(k)}"\<close> and \<open>f"{d.get(k)!r}"\<close>.\<close>

definition shown :: "dict \<Rightarrow> string \<Rightarrow> string" where
  "shown d k = get_str d k ''None''"

definition shown_repr :: "dict \<Rightarrow> string \<Rightarrow> string" where
  "shown_repr d k = (case dget d k of None \<Rightarrow> ''None'' | Some v \<Rightarrow> py_repr v)"

definition needs_config :: "string \<Rightarrow> bool \<Rightarrow> reply" where
  "needs_config what use_json = emit_error ''CONFIG_ERROR'' what use_json None False 1"

text \<open>A \<open>next_session\<close> entry goes back on the queue.\<close>

definition redrive_next_session ::
  "pytime \<Rightarrow> pytime \<Rightarrow> bool \<Rightarrow> dead_row \<Rightarrow> store \<Rightarrow> reply \<times> store" where
  "redrive_next_session now now' use_json r st =
     (case enqueue_pending now (dl_payload r) None st of
        (requeued, st1) \<Rightarrow>
          (if requeued then
             emit use_json [(''ok'', VBool True), (''id'', VStr (dl_id r)), (''action'', VStr ''requeued'')]
               (''Re-queued '' @ dl_ref_id r @ '' for the next session on source '' @ repr_str (dl_source r) @ ''.'')
           else
             emit_error ''REDRIVE_FAILED''
               ''could not re-queue the event (already queued, or the next-session queue is full)''
               use_json None True 1,
           mark_redriven now' (dl_id r) (if requeued then ''ok'' else ''failed'') None st1))"

definition delivered_doc :: "dead_row \<Rightarrow> dict \<Rightarrow> dict" where
  "delivered_doc r result =
     [(''ok'', VBool True), (''id'', VStr (dl_id r)), (''action'', VStr ''delivered''), (''result'', VDict result)]"

text \<open>A \<open>reply\<close> is posted again through an outbox without a store.\<close>

definition redrive_reply_entry ::
  "redrive_env \<Rightarrow> pytime \<Rightarrow> pytime \<Rightarrow> cfg \<Rightarrow> bool \<Rightarrow> dead_row \<Rightarrow> store \<Rightarrow>
   (failure + reply) \<times> redrive_request list \<times> store" where
  "redrive_reply_entry E now now' cfg use_json r st =
     (if cfg = [] then
        (Inr (needs_config ''redriving a reply needs a loadable config (for the source's callback_url)'' use_json),
         [], st)
      else
        (case redrive_reply E now cfg (dl_payload r) of
           (Inl e, steps) \<Rightarrow> (Inl (Exception e), steps, st)
         | (Inr result, steps) \<Rightarrow>
             (let ok = status_is ''delivered'' result in
              (Inr (if ok then
                      emit use_json (delivered_doc r result)
                        (''Redrive delivered reply '' @ dl_ref_id r @ '' (HTTP '' @ shown result ''http_status'' @ '').'')
                    else
                      emit_error ''REDRIVE_FAILED'' (''reply redrive failed: '' @ shown result ''error'') use_json
                        (Some (''status='' @ shown result ''status'')) True 1),
               steps,
               mark_redriven now' (dl_id r) (if ok then ''ok'' else ''failed'') (str_of (dget result ''error'')) st))))"

text \<open>A \<open>human_delivery\<close> is sent again, without the channels recorded as delivered.\<close>

definition recorded_channels :: "dict \<Rightarrow> string list" where
  "recorded_channels payload =
     (case dget payload ''delivered_channels'' of Some (VList cs) \<Rightarrow> map py_str cs | _ \<Rightarrow> [])"

definition redrive_human_entry ::
  "redrive_env \<Rightarrow> pytime \<Rightarrow> pytime \<Rightarrow> cfg \<Rightarrow> bool \<Rightarrow> dead_row \<Rightarrow> store \<Rightarrow>
   (failure + reply) \<times> redrive_request list \<times> store" where
  "redrive_human_entry E now now' cfg use_json r st =
     (if cfg = [] then
        (Inr (needs_config
           ''redriving a human delivery needs a loadable config (for the principal's delivery channels)'' use_json),
         [], st)
      else
        (case dget (dl_payload r) ''event'' of
           Some (VDict event) \<Rightarrow>
             (case redrive_human_delivery (ce_ulid E) now (re_chan E cfg) cfg event
                     (get_str (dl_payload r) ''principal_id'' []) (recorded_channels (dl_payload r)) of
                (Inl f, calls) \<Rightarrow> (Inl f, calls, st)
              | (Inr result, calls) \<Rightarrow>
                  (let status = get_str result ''status'' ''unknown''; ok = (status = ''delivered'') in
                   (Inr (if ok then
                           emit use_json (delivered_doc r result)
                             (''Redrive delivered alert '' @ dl_ref_id r @ '' to principal ''
                              @ shown_repr result ''principal_id'' @ ''.'')
                         else
                           emit_error ''REDRIVE_FAILED'' (''human delivery redrive failed: '' @ delivery_error result)
                             use_json (Some (''status='' @ status)) True 1),
                    calls,
                    mark_redriven now' (dl_id r) (if ok then ''ok'' else ''failed'') (Some (delivery_error result)) st)))
         | _ \<Rightarrow>
             (Inr (emit_error ''INTERNAL_ERROR'' ''dead-letter payload has no 'event' object to redeliver'' use_json
                (Some (''id='' @ dl_id r)) False 1), [], st)))"

definition redrive_entry ::
  "redrive_env \<Rightarrow> pytime \<Rightarrow> pytime \<Rightarrow> cfg \<Rightarrow> bool \<Rightarrow> dead_row \<Rightarrow> store \<Rightarrow>
   (failure + reply) \<times> redrive_request list \<times> store" where
  "redrive_entry E now now' cfg use_json r st =
     (if dl_kind r = ''next_session'' then
        (case redrive_next_session now now' use_json r st of (rep, st') \<Rightarrow> (Inr rep, [], st'))
      else if dl_kind r = ''reply'' then redrive_reply_entry E now now' cfg use_json r st
      else if dl_kind r = ''human_delivery'' then redrive_human_entry E now now' cfg use_json r st
      else (Inr (emit_error ''INTERNAL_ERROR'' (''unknown dead-letter kind '' @ repr_str (dl_kind r)) use_json
              None False 1), [], st))"

definition redrive_in_store ::
  "redrive_env \<Rightarrow> pytime \<Rightarrow> pytime \<Rightarrow> cfg \<Rightarrow> bool \<Rightarrow> string \<Rightarrow> store \<Rightarrow>
   (failure + reply) \<times> redrive_request list \<times> store" where
  "redrive_in_store E now now' cfg use_json i st =
     (case get_dead_letter i st of
        None \<Rightarrow>
          (Inr (emit_error ''NOT_FOUND'' (''no dead-letter entry with id '' @ repr_str i) use_json None False 1),
           [], st)
      | Some r \<Rightarrow> redrive_entry E now now' cfg use_json r st)"

text \<open>The three clock readings: at the opening, at the delivery, at the mark.\<close>

definition cmd_dead_letter_redrive ::
  "redrive_env \<Rightarrow> pytime \<Rightarrow> pytime \<Rightarrow> pytime \<Rightarrow> bool \<Rightarrow> string \<Rightarrow> disk \<Rightarrow>
   (failure + reply) \<times> redrive_request list \<times> disk" where
  "cmd_dead_letter_redrive E t0 now now' use_json i disk =
     (let cfg = load_config_optional (cli_env.truncate E) in
      with_store (cli_env.truncate E) t0 cfg disk (redrive_in_store E now now' cfg use_json i) [])"

subsection \<open>The commands together\<close>

datatype command =
    Dead_letter_list "string option" int bool
  | Dead_letter_show string
  | Dead_letter_redrive string
  | Dead_letter_purge "rat option" bool
  | Pending_list "string option" int
  | Pending_prune rat

text \<open>The dispatch on the parsed arguments; the requests of a redrive are dropped.\<close>

fun cli_dispatch ::
  "(dict \<Rightarrow> string) \<Rightarrow> redrive_env \<Rightarrow> pytime \<Rightarrow> pytime \<Rightarrow> pytime \<Rightarrow> bool \<Rightarrow> command \<Rightarrow> disk \<Rightarrow>
   (failure + reply) \<times> disk" where
  "cli_dispatch pretty E t0 now now' j (Dead_letter_list kind limit redriven) disk =
     apsnd snd (cmd_dead_letter_list (cli_env.truncate E) t0 j kind limit redriven disk)"
| "cli_dispatch pretty E t0 now now' j (Dead_letter_show i) disk =
     apsnd snd (cmd_dead_letter_show pretty (cli_env.truncate E) t0 j i disk)"
| "cli_dispatch pretty E t0 now now' j (Dead_letter_redrive i) disk =
     apsnd snd (cmd_dead_letter_redrive E t0 now now' j i disk)"
| "cli_dispatch pretty E t0 now now' j (Dead_letter_purge older redriven) disk =
     apsnd snd (cmd_dead_letter_purge (cli_env.truncate E) t0 now' j older redriven disk)"
| "cli_dispatch pretty E t0 now now' j (Pending_list source limit) disk =
     apsnd snd (cmd_pending_list (cli_env.truncate E) t0 j source limit disk)"
| "cli_dispatch pretty E t0 now now' j (Pending_prune elapsed) disk =
     apsnd snd (cmd_pending_prune (cli_env.truncate E) t0 now' elapsed j disk)"

definition cli_main ::
  "(exn \<Rightarrow> string) \<Rightarrow> (dict \<Rightarrow> string) \<Rightarrow> redrive_env \<Rightarrow> pytime \<Rightarrow> pytime \<Rightarrow> pytime \<Rightarrow> bool \<Rightarrow> command \<Rightarrow>
   disk \<Rightarrow> reply option \<times> disk" where
  "cli_main say pretty E t0 now now' j c disk =
     (case cli_dispatch pretty E t0 now now' j c disk of (r, disk') \<Rightarrow> (boundary say j r, disk'))"

end
