(* ===== verification/Queue_Cli_Props.thy ===== *)
theory Queue_Cli_Props
  imports Queue_Cli
begin

section \<open>What the queue commands promise\<close>

text \<open>
  A redrive changes only the bookkeeping of its entry and reports success exactly for what was
  carried out; every command keeps the databases well formed and touches only the one it opens.
\<close>

subsection \<open>The store after a mark\<close>

lemma get_dead_letter_some: "get_dead_letter i st = Some r \<Longrightarrow> r \<in> set (st_dead st) \<and> dl_id r = i"
  by (auto simp: get_dead_letter_def find_Some_iff)

lemma find_map_same: "(\<And>r. P (f r) = P r) \<Longrightarrow> find P (map f rs) = map_option f (find P rs)"
  by (induction rs) auto

lemma get_mark_redriven:
  "get_dead_letter i (mark_redriven now i s e st) =
     map_option (\<lambda>r. r\<lparr>dl_redriven_at := Some now, dl_redrive_status := Some s,
        dl_error := (case e of None \<Rightarrow> dl_error r | Some e \<Rightarrow> Some e)\<rparr>) (get_dead_letter i st)"
proof -
  let ?f = "\<lambda>r. if dl_id r = i then r\<lparr>dl_redriven_at := Some now, dl_redrive_status := Some s,
      dl_error := (case e of None \<Rightarrow> dl_error r | Some e \<Rightarrow> Some e)\<rparr> else r"
  let ?g = "\<lambda>r. r\<lparr>dl_redriven_at := Some now, dl_redrive_status := Some s,
      dl_error := (case e of None \<Rightarrow> dl_error r | Some e \<Rightarrow> Some e)\<rparr>"
  have *: "find (\<lambda>r. dl_id r = i) (map ?f (st_dead st)) = map_option ?f (find (\<lambda>r. dl_id r = i) (st_dead st))"
    by (rule find_map_same) simp
  have "find (\<lambda>r. dl_id r = i) (map ?f (st_dead st)) = map_option ?g (find (\<lambda>r. dl_id r = i) (st_dead st))"
  proof (cases "find (\<lambda>r. dl_id r = i) (st_dead st)")
    case (Some r)
    then have "dl_id r = i" by (auto simp: find_Some_iff)
    then have "?f r = ?g r" by (simp only: if_True refl)
    with Some show ?thesis unfolding * by (simp only: option.map)
  qed (simp only: * option.map)
  moreover have "st_dead (st\<lparr>st_dead := rows\<rparr>) = rows" for rows by simp
  ultimately show ?thesis unfolding get_dead_letter_def mark_redriven_def by (simp only:)
qed

lemma mark_redriven_fields [store_simps]:
  "st_dedupe (mark_redriven now i s e st) = st_dedupe st"
  "st_pending (mark_redriven now i s e st) = st_pending st"
  by (simp_all add: mark_redriven_def)

lemma enqueue_fields [store_simps]:
  "st_dedupe (snd (enqueue_pending now ev d st)) = st_dedupe st"
  "st_dead (snd (enqueue_pending now ev d st)) = st_dead st"
  by (simp_all add: enqueue_pending_def Let_def)

text \<open>\<open>kept i st st'\<close>: the same entries, in the same order and with the same contents, except for
  the redrive fields and the error of entry \<open>i\<close>; the dedupe window is untouched.\<close>

definition kept :: "string \<Rightarrow> store \<Rightarrow> store \<Rightarrow> bool" where
  "kept i st st' \<longleftrightarrow> st_dedupe st' = st_dedupe st
     \<and> list_all2 (\<lambda>r r'. r' = (if dl_id r = i
          then r\<lparr>dl_error := dl_error r', dl_redriven_at := dl_redriven_at r', dl_redrive_status := dl_redrive_status r'\<rparr>
          else r)) (st_dead st) (st_dead st')"

lemma kept_refl: "kept i st st"
  by (simp add: kept_def list_all2_same)

lemma kept_mark:
  "st_dedupe st1 = st_dedupe st \<Longrightarrow> st_dead st1 = st_dead st \<Longrightarrow> kept i st (mark_redriven now i s e st1)"
  by (auto simp: kept_def mark_redriven_def list_all2_conv_all_nth)

subsection \<open>What a redrive carries out\<close>

text \<open>A delivery that was carried out, by kind: the event waits in the queue again; the last of the
  posts was answered 2xx; every channel of the principal landed, now or before.\<close>

definition requeued :: "dict \<Rightarrow> store \<Rightarrow> store \<Rightarrow> bool" where
  "requeued event st st' \<longleftrightarrow> (\<exists>p. st_pending st' = st_pending st @ [p] \<and> p_event p = event \<and> p_attempts p = 0)"

definition posted :: "(nat \<Rightarrow> post_outcome) \<Rightarrow> redrive_request list \<Rightarrow> bool" where
  "posted post tr \<longleftrightarrow> (\<exists>ob req k. succeeds (post k) \<and> (\<forall>j < k. \<not> succeeds (post j))
     \<and> tr = map Outbox_step (requests ob req 0 (Suc k)))"

definition alerted :: "channels \<Rightarrow> cfg \<Rightarrow> dict \<Rightarrow> string list \<Rightarrow> bool" where
  "alerted chan cfg event done_before \<longleftrightarrow>
     (\<exists>meta cs. dget event ''meta'' = Some (VDict meta) \<and> truthy_opt (dget meta ''target'')
        \<and> resolve_principal cfg (get_str meta ''target'' []) = Some cs \<and> cs \<noteq> []
        \<and> (\<forall>(k, c) \<in> set cs. k \<in> set done_before \<or> landed chan event k c))"

definition carried_out :: "redrive_env \<Rightarrow> cfg \<Rightarrow> dead_row \<Rightarrow> redrive_request list \<Rightarrow> store \<Rightarrow> store \<Rightarrow> bool" where
  "carried_out E cfg r tr st st' \<longleftrightarrow>
     (if dl_kind r = ''next_session'' then requeued (dl_payload r) st st'
      else st_pending st' = st_pending st
        \<and> (if dl_kind r = ''reply'' then posted (re_post E) tr
           else \<exists>event event'. dget (dl_payload r) ''event'' = Some (VDict event)
             \<and> stamp_target (get_str (dl_payload r) ''principal_id'' []) event = Inr event'
             \<and> alerted (re_chan E cfg) cfg event' (recorded_channels (dl_payload r))))"

text \<open>A delivery that was not carried out, by kind: the queue refuses the event; no callback can be posted to,
  or three posts were made and none was answered 2xx; not every channel of a principal landed.\<close>

definition posts_in :: "redrive_request list \<Rightarrow> nat" where
  "posts_in tr = length (filter (\<lambda>x. case x of Outbox_step (Post _ _ _) \<Rightarrow> True | _ \<Rightarrow> False) tr)"

definition has_callback :: "cfg \<Rightarrow> string \<Rightarrow> bool" where
  "has_callback cfg source \<longleftrightarrow>
     (\<exists>v. callback_url cfg source = Inr (Some v) \<and> truthy v \<and> validate_callback_url v = Inr None)"

definition unposted :: "(nat \<Rightarrow> post_outcome) \<Rightarrow> cfg \<Rightarrow> string \<Rightarrow> redrive_request list \<Rightarrow> bool" where
  "unposted post cfg source tr \<longleftrightarrow>
     (if has_callback cfg source then posts_in tr = 3 \<and> (\<forall>k < 3. \<not> succeeds (post k)) else posts_in tr = 0)"

definition not_carried_out :: "redrive_env \<Rightarrow> pytime \<Rightarrow> cfg \<Rightarrow> dead_row \<Rightarrow> redrive_request list \<Rightarrow> store \<Rightarrow> bool" where
  "not_carried_out E now cfg r tr st \<longleftrightarrow>
     (if dl_kind r = ''next_session'' then \<not> fst (enqueue_pending now (dl_payload r) None st)
      else if dl_kind r = ''reply'' then unposted (re_post E) cfg (get_str (dl_payload r) ''source'' []) tr
      else if dl_kind r = ''human_delivery''
      then \<not> (\<exists>event event'. dget (dl_payload r) ''event'' = Some (VDict event)
             \<and> stamp_target (get_str (dl_payload r) ''principal_id'' []) event = Inr event'
             \<and> alerted (re_chan E cfg) cfg event' (recorded_channels (dl_payload r)))
      else True)"

text \<open>The replies of the commands.\<close>

lemma emit_code [simp]: "fst (emit j d t) = 0"
  by (simp add: emit_def)

lemma emit_error_code [simp]: "fst (emit_error c m j d rt n) = n"
  by (simp add: emit_error_def)

definition redrive_ok ::
  "redrive_env \<Rightarrow> pytime \<Rightarrow> pytime \<Rightarrow> cfg \<Rightarrow> string \<Rightarrow> dead_row \<Rightarrow> store \<Rightarrow>
   (failure + reply) \<times> redrive_request list \<times> store \<Rightarrow> bool" where
  "redrive_ok E now now' cfg i r st out \<longleftrightarrow>
     (case out of (res, tr, st') \<Rightarrow>
        kept i st st'
        \<and> (case res of
             Inl _ \<Rightarrow> st' = st
           | Inr rep \<Rightarrow>
               if fst rep = 0 then
                 carried_out E cfg r tr st st'
                 \<and> (\<exists>r'. get_dead_letter i st' = Some r' \<and> dl_redrive_status r' = Some ''ok'' \<and> dl_redriven_at r' = Some now')
               else fst rep = 1 \<and> not_carried_out E now cfg r tr st \<and> st_pending st' = st_pending st
                 \<and> (st' = st \<or> (\<exists>r'. get_dead_letter i st' = Some r' \<and> dl_redrive_status r' = Some ''failed''))))"

lemma redrive_ok_error:
  "not_carried_out E now cfg r tr st \<Longrightarrow> redrive_ok E now now' cfg i r st (Inr (emit_error c m j d rt 1), tr, st)"
  "redrive_ok E now now' cfg i r st (Inl f, tr, st)"
  by (simp_all add: redrive_ok_def kept_refl)

lemma redrive_ok_marked:
  assumes "get_dead_letter i st = Some r" "st_dedupe st1 = st_dedupe st" "st_dead st1 = st_dead st"
    and "if ok then carried_out E cfg r tr st (mark_redriven now' i ''ok'' e st1)
      else not_carried_out E now cfg r tr st \<and> st_pending st1 = st_pending st"
  shows "redrive_ok E now now' cfg i r st
    (Inr (if ok then emit j d t else emit_error c m j' d' rt 1), tr,
     mark_redriven now' i (if ok then ''ok'' else ''failed'') e st1)"
proof -
  have "get_dead_letter i st1 = Some r" using assms(1,3) by (simp add: get_dead_letter_def)
  then show ?thesis using assms
    by (cases ok) (simp_all add: redrive_ok_def kept_mark get_mark_redriven store_simps)
qed

lemma redrive_next_session_ok:
  assumes "get_dead_letter i st = Some r" "dl_kind r = ''next_session''"
    and "redrive_next_session now now' j r st = (rep, st')"
  shows "redrive_ok E now now' cfg i r st (Inr rep, [], st')"
proof -
  obtain ok st1 where enq: "enqueue_pending now (dl_payload r) None st = (ok, st1)" by fastforce
  have i: "dl_id r = i" using get_dead_letter_some [OF assms(1)] by simp
  have same: "st_dedupe st1 = st_dedupe st" "st_dead st1 = st_dead st"
    using enqueue_fields [of now "dl_payload r" None st] enq by simp_all
  have "if ok then carried_out E cfg r [] st (mark_redriven now' i ''ok'' None st1)
      else not_carried_out E now cfg r [] st \<and> st_pending st1 = st_pending st"
    using enq assms(2) by (auto simp: enqueue_pending_def Let_def carried_out_def not_carried_out_def requeued_def store_simps mk_pending_def
        split: if_splits)
  from redrive_ok_marked [OF assms(1) same this] show ?thesis
    using assms(3) enq i by (auto simp: redrive_next_session_def)
qed

lemma reply_delivered:
  assumes "redrive_reply E now cfg payload = (Inr result, steps)" "status_is ''delivered'' result"
  shows "posted (re_post E) steps"
proof -
  let ?ob = "start_outbox (new_outbox cfg)"
  have ob: "ob_started ?ob" "ob_backoff ?ob \<noteq> []" "ob_max_retries ?ob = 3"
    by (simp_all add: start_outbox_def new_outbox_def BACKOFF_DELAYS_def MAX_RETRIES_def)
  have "\<exists>req status. attempts ?ob (re_post E) req 0 (nat (ob_max_retries ?ob)) None None = (Delivered status, st)
      \<and> steps = map Outbox_step st"
    if "deliver_reply (ce_ulid E) (re_sha E) (re_hmac E) (re_post E) ?ob (re_keys E) now s i t c None None
          = (Inr result, st, st')" "steps = map Outbox_step st" for s i t c st st'
    using that assms(2)
    by (auto simp: deliver_reply_def Let_def status_is_def mk_result_def
        split: sum.splits if_splits option.splits prod.splits loop_end.splits)
  moreover obtain st st' where "deliver_reply (ce_ulid E) (re_sha E) (re_hmac E) (re_post E) ?ob (re_keys E) now
      (get_str payload ''source'' []) (get_str payload ''reply_id'' []) (get_str payload ''in_reply_to'' [])
      (get_str payload ''content'' []) None None = (Inr result, st, st')" "steps = map Outbox_step st"
    using assms(1) by (auto simp: redrive_reply_def split: prod.splits)
  ultimately obtain req status st where run:
    "attempts ?ob (re_post E) req 0 (nat (ob_max_retries ?ob)) None None = (Delivered status, st)"
    "steps = map Outbox_step st" by blast
  from run(1) obtain k where "find (\<lambda>k. succeeds (re_post E k)) [0..<nat (ob_max_retries ?ob)] = Some k"
      and st: "st = requests ?ob req 0 (Suc k)"
    unfolding attempts_eq_spec [OF ob(1,2)] attempts_spec_def by (auto split: option.splits)
  then have "succeeds (re_post E k)" "\<forall>j < k. \<not> succeeds (re_post E j)"
    by (auto simp: find_Some_iff)
  then show ?thesis using run(2) st by (auto simp: posted_def)
qed

lemma posts_in_outbox: "posts_in (map Outbox_step steps) = posts_made steps"
  by (induction steps) (auto simp: posts_in_def posts_made_def split: outbox_step.splits)

lemma reply_undelivered:
  assumes "redrive_reply E now cfg payload = (Inr result, tr)" "\<not> status_is ''delivered'' result"
  shows "unposted (re_post E) cfg (get_str payload ''source'' []) tr"
proof -
  let ?ob = "start_outbox (new_outbox cfg)" and ?s = "get_str payload ''source'' []"
  have ob: "ob_started ?ob" "nat (ob_max_retries ?ob) = 3" "ob_config ?ob = cfg"
    by (simp_all add: start_outbox_def new_outbox_def MAX_RETRIES_def)
  obtain steps st' where run: "deliver_reply (ce_ulid E) (re_sha E) (re_hmac E) (re_post E) ?ob (re_keys E) now
      ?s (get_str payload ''reply_id'' []) (get_str payload ''in_reply_to'' [])
      (get_str payload ''content'' []) None None = (Inr result, steps, st')" and tr: "tr = map Outbox_step steps"
    using assms(1) by (auto simp: redrive_reply_def split: prod.splits)
  have st: "reply_status result \<noteq> ''delivered''"
    using assms(2) by (auto simp: reply_status_def status_is_def str_of_def split: option.splits pyval.splits)
  show ?thesis
  proof (cases "has_callback cfg ?s")
    case True
    then obtain v where "callback_url cfg ?s = Inr (Some v)" "truthy v" "validate_callback_url v = Inr None"
      by (auto simp: has_callback_def)
    with deliver_reply_outcome [OF run] st True show ?thesis
      by (auto simp: ob truthy_opt_def unposted_def tr posts_in_outbox)
  next
    case False
    then have "steps = []"
      using deliver_reply_steps [of "ce_ulid E" "re_sha E" "re_hmac E" "re_post E" ?ob "re_keys E" now ?s
          "get_str payload ''reply_id'' []" "get_str payload ''in_reply_to'' []" "get_str payload ''content'' []" None None]
      by (auto simp: run ob has_callback_def split: sum.splits option.splits)
    with False show ?thesis by (simp add: unposted_def tr posts_in_def)
  qed
qed

lemma redrive_reply_entry_ok:
  assumes "get_dead_letter i st = Some r" "dl_kind r = ''reply''"
  shows "redrive_ok E now now' cfg i r st (redrive_reply_entry E now now' cfg j r st)"
proof (cases "cfg = []")
  case True
  then have "\<not> has_callback cfg s" for s
    by (simp add: has_callback_def callback_url_def sender_table_def py_or_def)
  then have "not_carried_out E now cfg r [] st" using assms(2) by (simp add: not_carried_out_def unposted_def posts_in_def)
  with True show ?thesis by (simp add: redrive_reply_entry_def needs_config_def redrive_ok_error)
next
  case False
  have i: "dl_id r = i" using get_dead_letter_some [OF assms(1)] by simp
  obtain res steps where run: "redrive_reply E now cfg (dl_payload r) = (res, steps)" by fastforce
  show ?thesis
  proof (cases res)
    case (Inl e)
    with False run show ?thesis by (simp add: redrive_reply_entry_def redrive_ok_error)
  next
    case (Inr result)
    let ?ok = "status_is ''delivered'' result"
    have "if ?ok then carried_out E cfg r steps st (mark_redriven now' i ''ok'' (str_of (dget result ''error'')) st)
        else not_carried_out E now cfg r steps st \<and> st_pending st = st_pending st"
      using reply_delivered [of E now cfg "dl_payload r" result steps] reply_undelivered [of E now cfg "dl_payload r" result steps]
        run Inr assms(2)
      by (simp add: carried_out_def not_carried_out_def store_simps)
    from redrive_ok_marked [OF assms(1) refl refl this] show ?thesis
      using False run Inr i by (simp add: redrive_reply_entry_def Let_def)
  qed
qed

text \<open>A delivery ends in \<open>Done\<close> only for a principal that has channels.\<close>

lemma deliver_human_done:
  assumes "deliver_human u db now chan event skip H = (Done s rs, H')"
  shows "\<exists>meta cs. dget event ''meta'' = Some (VDict meta) \<and> truthy_opt (dget meta ''target'')
    \<and> resolve_principal (hd_config H) (get_str meta ''target'' []) = Some cs \<and> cs \<noteq> []"
  using assms
  by (auto simp: deliver_human_def Let_def truthy_opt_def split: option.splits pyval.splits if_splits list.splits)

lemma human_delivered:
  assumes contract: "channel_contract chan"
    and run: "redrive_human_delivery u now chan cfg event pid skip = (Inr result, calls)"
    and status: "get_str result ''status'' ''unknown'' = ''delivered''"
  shows "\<exists>event'. stamp_target pid event = Inr event' \<and> alerted chan cfg event' skip"
proof -
  let ?H = "\<lparr>hd_config = cfg, hd_health = new_health, hd_store = None, hd_calls = []\<rparr> :: human"
  from run obtain event' res H' where s: "stamp_target pid event = Inr event'"
    and d: "deliver_human u False now chan event' skip ?H = (res, H')"
    and r: "delivery_dict (event_target event') res = Some result"
    by (auto simp: redrive_human_delivery_def split: sum.splits prod.splits option.splits)
  from r status obtain rs where res: "res = Done ''delivered'' rs"
    by (auto simp: delivery_dict_def get_str_def split: delivery_result.splits)
  from deliver_human_done [OF d [unfolded res]] obtain meta cs where m:
    "dget event' ''meta'' = Some (VDict meta)" "truthy_opt (dget meta ''target'')"
    "resolve_principal (hd_config ?H) (get_str meta ''target'' []) = Some cs" "cs \<noteq> []" by blast
  from deliver_human_outcome [OF contract m d] have "\<forall>(k, c) \<in> set cs. k \<in> set skip \<or> landed chan event' k c"
    unfolding res by auto
  then show ?thesis using s m by (auto simp: alerted_def)
qed

text \<open>When every channel landed, now or before, the result says \<open>delivered\<close>.\<close>

lemma channel_loop_lands:
  assumes "channel_contract chan" "\<forall>(k, c) \<in> set cs. k \<in> set skip \<or> landed chan event k c"
    and "ad \<or> filter (\<lambda>r. \<not> status_is ''skipped'' r) results = []"
  shows "\<exists>ad' rs H'. channel_loop chan event pid skip cs ad False results H = (True, ad', False, rs, H')
    \<and> overall_status ad' False rs = ''delivered''"
  using assms(2,3)
proof (induction cs arbitrary: ad results H)
  case (Cons kc cs)
  obtain k c where kc: "kc = (k, c)" by (cases kc)
  show ?case
  proof (cases "k \<in> set skip")
    case True
    with Cons show ?thesis by (simp add: kc status_is_def)
  next
    case False
    with Cons.prems(1) have "landed chan event k c" by (simp add: kc)
    then obtain f res where "dget chan k = Some f" "called (f event c) = Some res" "dget res ''status'' = Some (VStr ''delivered'')"
      by (auto simp: landed_def status_is_def split: option.splits)
    with False Cons show ?thesis by (simp add: kc Let_def)
  qed
qed (auto simp: overall_status_def)

lemma human_undelivered:
  assumes contract: "channel_contract chan"
    and run: "redrive_human_delivery u now chan cfg event pid skip = (Inr result, calls)"
    and status: "get_str result ''status'' ''unknown'' \<noteq> ''delivered''" and s: "stamp_target pid event = Inr event'"
  shows "\<not> alerted chan cfg event' skip"
proof
  let ?H = "\<lparr>hd_config = cfg, hd_health = new_health, hd_store = None, hd_calls = []\<rparr> :: human"
  assume "alerted chan cfg event' skip"
  then obtain meta cs where m: "dget event' ''meta'' = Some (VDict meta)" "truthy_opt (dget meta ''target'')"
    "resolve_principal cfg (get_str meta ''target'' []) = Some cs" "cs \<noteq> []"
    "\<forall>(k, c) \<in> set cs. k \<in> set skip \<or> landed chan event' k c"
    by (auto simp: alerted_def)
  from channel_loop_lands [OF contract m(5), of False "[]" "get_str meta ''target'' []" ?H] obtain ad' rs H' where
    "channel_loop chan event' (get_str meta ''target'' []) skip cs False False [] ?H = (True, ad', False, rs, H')"
    "overall_status ad' False rs = ''delivered''" by auto
  with m(1-4) have "fst (deliver_human u False now chan event' skip ?H) = Done ''delivered'' rs"
    by (cases cs) (simp_all add: deliver_human_def Let_def)
  with run s have "result = [(''status'', VStr ''delivered''), (''principal_id'', VStr (event_target event')),
      (''channels'', VList (map VDict rs))]"
    by (auto simp: redrive_human_delivery_def delivery_dict_def case_prod_beta)
  with status show False by (simp add: get_str_def)
qed

lemma redrive_human_entry_ok:
  assumes "get_dead_letter i st = Some r" "dl_kind r = ''human_delivery''" "channel_contract (re_chan E cfg)"
  shows "redrive_ok E now now' cfg i r st (redrive_human_entry E now now' cfg j r st)"
proof (cases "cfg \<noteq> [] \<and> (\<exists>event. dget (dl_payload r) ''event'' = Some (VDict event))")
  case False
  have "not_carried_out E now cfg r [] st"
    using False assms(2) by (auto simp: not_carried_out_def alerted_def resolve_principal_def)
  with False show ?thesis
    by (auto simp: redrive_human_entry_def needs_config_def redrive_ok_error split: option.split pyval.split)
next
  case True
  then obtain event where ev: "dget (dl_payload r) ''event'' = Some (VDict event)" and cfg: "cfg \<noteq> []" by blast
  have i: "dl_id r = i" using get_dead_letter_some [OF assms(1)] by simp
  let ?pid = "get_str (dl_payload r) ''principal_id'' []" and ?skip = "recorded_channels (dl_payload r)"
  obtain res calls where run:
    "redrive_human_delivery (ce_ulid E) now (re_chan E cfg) cfg event ?pid ?skip = (res, calls)" by fastforce
  show ?thesis
  proof (cases res)
    case (Inl e)
    with cfg ev run show ?thesis by (simp add: redrive_human_entry_def redrive_ok_error)
  next
    case (Inr result)
    let ?ok = "get_str result ''status'' ''unknown'' = ''delivered''"
    have "if ?ok then carried_out E cfg r calls st (mark_redriven now' i ''ok'' (Some (delivery_error result)) st)
        else not_carried_out E now cfg r calls st \<and> st_pending st = st_pending st"
      using human_delivered [OF assms(3) run [unfolded Inr]] human_undelivered [OF assms(3) run [unfolded Inr]] ev assms(2)
      by (simp add: carried_out_def not_carried_out_def store_simps)
    from redrive_ok_marked [OF assms(1) refl refl this] show ?thesis
      using cfg ev run Inr i by (simp add: redrive_human_entry_def Let_def)
  qed
qed

lemma redrive_entry_ok:
  assumes "get_dead_letter i st = Some r" "channel_contract (re_chan E cfg)"
  shows "redrive_ok E now now' cfg i r st (redrive_entry E now now' cfg j r st)"
proof -
  consider "dl_kind r = ''next_session''" | "dl_kind r = ''reply''" | "dl_kind r = ''human_delivery''"
    | "dl_kind r \<notin> {''next_session'', ''reply'', ''human_delivery''}" by blast
  then show ?thesis
  proof cases
    case 1
    obtain rep st' where "redrive_next_session now now' j r st = (rep, st')" by fastforce
    with redrive_next_session_ok [OF assms(1) 1 this] 1 show ?thesis by (simp add: redrive_entry_def)
  qed (simp_all add: redrive_entry_def redrive_reply_entry_ok [OF assms(1)] redrive_human_entry_ok [OF assms(1) _ assms(2)]
      redrive_ok_error not_carried_out_def)
qed

text \<open>No channel on record as delivered is called.\<close>

lemma deliver_human_avoids:
  assumes "channel_contract chan" "deliver_human u db now chan event skip H = (res, H')" "hd_calls H = []"
  shows "set (hd_calls H') \<inter> set skip = {}"
proof -
  have loop: "set (hd_calls H1) \<inter> set skip = {}"
    if "channel_loop chan event pid skip cs False False [] H = (fin, ad, af, results, H1)" for pid cs fin ad af results H1
    using channel_loop_ok [OF assms(1), of event skip cs False "[]" H pid False] that assms(3)
    by (auto simp: loop_ok_def)
  from deliver_human_cases [OF assms(2)] show ?thesis
    by (elim disjE exE conjE) (use loop assms(3) dead_letter_human_cases(1) in auto)
qed

definition avoids_recorded :: "dead_row \<Rightarrow> redrive_request list \<Rightarrow> bool" where
  "avoids_recorded r tr \<longleftrightarrow> (\<forall>k \<in> set (recorded_channels (dl_payload r)). Channel_call k \<notin> set tr)"

lemma redrive_entry_avoids:
  assumes "channel_contract (re_chan E cfg)" "redrive_entry E now now' cfg j r st = (res, tr, st')"
  shows "avoids_recorded r tr"
proof -
  have h: "avoids_recorded r calls"
    if "redrive_human_delivery (ce_ulid E) now (re_chan E cfg) cfg event pid (recorded_channels (dl_payload r)) = (x, calls)"
    for event pid x calls
    using that deliver_human_avoids [OF assms(1)]
    by (fastforce simp: redrive_human_delivery_def avoids_recorded_def split: sum.splits prod.splits)
  have p: "avoids_recorded r steps" if "redrive_reply E now cfg (dl_payload r) = (x, steps)" for x steps
    using that by (auto simp: redrive_reply_def avoids_recorded_def split: prod.splits)
  have nil: "avoids_recorded r []" by (simp add: avoids_recorded_def)
  show ?thesis using assms(2) nil
    by (auto simp: redrive_entry_def redrive_reply_entry_def redrive_human_entry_def Let_def
        split: if_splits prod.splits sum.splits option.splits pyval.splits dest: h p)
qed

lemma ce_ulid_truncate: "ce_ulid (cli_env.truncate E) = ce_ulid E"
  by (simp add: cli_env.truncate_def)

text \<open>Claim C19: A redrive reports the truth.  When \<open>dead-letter redrive\<close> of an existing entry ends without an
  exception, it exits 0 when the delivery was carried out (the event is queued again, a post was
  answered 2xx, or every channel of the principal landed now or before), and the entry is then marked \<open>ok\<close>
  at the time of the mark.  It exits 1 when it was not (the queue refuses the event; the source has no
  callback that may be posted to, or three posts were made and none was answered 2xx; the principal has no
  channels or one of them has not landed), and then the queue is as it was and the entry is unmarked or
  marked \<open>failed\<close>.  No entry is added, removed or otherwise changed, no channel on record as delivered
  is called again, and no other database is touched.\<close>

theorem redrive_truthful:
  assumes "cfg = load_config_optional (cli_env.truncate E)" and "path = db_path (cli_env.truncate E) cfg"
    and "channel_contract (re_chan E cfg)"
    and "disk path = Db prior st0" and "st = open_store (ce_ulid E) t0 cfg prior st0"
    and "get_dead_letter i st = Some r"
    and "cmd_dead_letter_redrive E t0 now now' use_json i disk = (res, tr, disk')"
  shows "\<exists>st'. disk' = disk(path := Db (Some SCHEMA_VERSION) st')
    \<and> kept i st st' \<and> avoids_recorded r tr
    \<and> (case res of
         Inl _ \<Rightarrow> st' = st
       | Inr (code, _) \<Rightarrow>
           if code = 0 then
             carried_out E cfg r tr st st'
             \<and> (\<exists>r'. get_dead_letter i st' = Some r' \<and> dl_redrive_status r' = Some ''ok'' \<and> dl_redriven_at r' = Some now')
           else code = 1 \<and> not_carried_out E now cfg r tr st \<and> st_pending st' = st_pending st
             \<and> (st' = st \<or> (\<exists>r'. get_dead_letter i st' = Some r' \<and> dl_redrive_status r' = Some ''failed'')))"
proof -
  obtain x y st' where e: "redrive_entry E now now' cfg use_json r st = (x, y, st')" by (metis prod_cases3)
  have "cmd_dead_letter_redrive E t0 now now' use_json i disk
      = with_store (cli_env.truncate E) t0 cfg disk (redrive_in_store E now now' cfg use_json i) []"
    by (simp only: cmd_dead_letter_redrive_def Let_def assms(1))
  also have "\<dots> = (x, y, disk(path := Db (Some SCHEMA_VERSION) st'))"
    using e assms(4-6) by (simp add: with_store_def redrive_in_store_def ce_ulid_truncate flip: assms(2))
  finally have run: "res = x \<and> tr = y \<and> disk' = disk(path := Db (Some SCHEMA_VERSION) st')"
    using assms(7) by simp
  from redrive_entry_ok [OF assms(6,3), of now now' use_json] e run have "redrive_ok E now now' cfg i r st (res, tr, st')"
    by simp
  then have "kept i st st' \<and> (case res of Inl _ \<Rightarrow> st' = st | Inr (code, _) \<Rightarrow>
           if code = 0 then
             carried_out E cfg r tr st st'
             \<and> (\<exists>r'. get_dead_letter i st' = Some r' \<and> dl_redrive_status r' = Some ''ok'' \<and> dl_redriven_at r' = Some now')
           else code = 1 \<and> not_carried_out E now cfg r tr st \<and> st_pending st' = st_pending st
             \<and> (st' = st \<or> (\<exists>r'. get_dead_letter i st' = Some r' \<and> dl_redrive_status r' = Some ''failed'')))"
    by (auto simp: redrive_ok_def split: sum.splits prod.splits if_splits)
  then show ?thesis
    using run redrive_entry_avoids [OF assms(3) e] by (intro exI [of _ st'] conjI) simp_all
qed

definition demo_entry :: dead_row where
  "demo_entry = \<lparr>dl_id = ''d1'', dl_kind = ''next_session'', dl_source = ''ci'', dl_ref_id = ''e1'',
     dl_payload = demo_event, dl_error = None, dl_attempts = 0, dl_created_at = 0, dl_redriven_at = None,
     dl_redrive_status = None\<rparr>"

definition demo_env :: redrive_env where
  "demo_env = \<lparr>ce_ulid = demo_ulid, ce_state_dir = None, ce_default_dir = ''/var'',
     ce_config = Inl (Config_error ''file''), re_sha = id, re_hmac = (\<lambda>_. id), re_post = (\<lambda>_. Response 200),
     re_keys = None, re_chan = (\<lambda>_. [])\<rparr>"

definition demo_disk :: disk where
  "demo_disk = (\<lambda>_. Db None (new_store\<lparr>st_dead := [demo_entry]\<rparr>))"

lemma demo_redrive:
  "load_config_optional (cli_env.truncate demo_env) = []"
  "db_path (cli_env.truncate demo_env) [] = ''/var/state.db''"
  "get_dead_letter ''d1'' (open_store demo_ulid 1 [] None (new_store\<lparr>st_dead := [demo_entry]\<rparr>)) = Some demo_entry"
  by code_simp+

theorem redrive_truthful_witness:
  "\<exists>st'. snd (snd (cmd_dead_letter_redrive demo_env 1 2 3 True ''d1'' demo_disk))
      = demo_disk(''/var/state.db'' := Db (Some SCHEMA_VERSION) st')
    \<and> kept ''d1'' (open_store demo_ulid 1 [] None (new_store\<lparr>st_dead := [demo_entry]\<rparr>)) st'"
proof -
  have cfg: "[] = load_config_optional (cli_env.truncate demo_env)" using demo_redrive(1) by simp
  have path: "''/var/state.db'' = db_path (cli_env.truncate demo_env) []" using demo_redrive(2) by simp
  have contract: "channel_contract (re_chan demo_env [])" by (simp add: demo_env_def channel_contract_def)
  have disk: "demo_disk ''/var/state.db'' = Db None (new_store\<lparr>st_dead := [demo_entry]\<rparr>)" by (simp add: demo_disk_def)
  have ulid: "ce_ulid demo_env = demo_ulid" by (simp add: demo_env_def)
  have st: "open_store demo_ulid 1 [] None (new_store\<lparr>st_dead := [demo_entry]\<rparr>)
      = open_store (ce_ulid demo_env) 1 [] None (new_store\<lparr>st_dead := [demo_entry]\<rparr>)"
    by (simp add: ulid)
  obtain res tr disk' where "cmd_dead_letter_redrive demo_env 1 2 3 True ''d1'' demo_disk = (res, tr, disk')"
    by (metis prod_cases3)
  with redrive_truthful [OF cfg path contract disk st demo_redrive(3) this]
  show ?thesis by (elim exE conjE) (simp, blast)
qed

subsection \<open>An expired event that is redriven\<close>

text \<open>Redriving an event that expired in the next-session queue puts the same event
  back on it, to be tried as often as a new one; but the dead letter holds no destination, so the
  new row is reserved for the destination named like the event's source, whichever destination
  the expired row was reserved for.  The row comes back to its own destination exactly when
  that bears the source's name.\<close>

theorem expired_redrive_readdresses:
  assumes "promoted_row t p d" and "redrive_next_session now now' use_json d st = ((0, out), st')"
  shows "\<exists>q. st_pending st' = st_pending st @ [q] \<and> p_event q = p_event p \<and> p_attempts q = 0
    \<and> (\<forall>dest. addressed_to dest q \<longleftrightarrow> dest = get_str (p_event p) ''source'' [])"
proof -
  have pay: "dl_payload d = p_event p" using assms(1) by (simp add: promoted_row_def)
  obtain ok st1 where enq: "enqueue_pending now (p_event p) None st = (ok, st1)" by fastforce
  have ok: "ok" "st_pending st' = st_pending st1"
    using assms(2) enq pay by (auto simp: redrive_next_session_def emit_error_def store_simps split: if_splits)
  then have "st_pending st1 = st_pending st @ [mk_pending now (p_event p) None st]"
    using enq by (auto simp: enqueue_pending_def Let_def split: if_splits)
  then show ?thesis using ok(2)
    by (intro exI [of _ "mk_pending now (p_event p) None st"]) (auto simp: mk_pending_def addressed_to_def Let_def)
qed

definition demo_expired :: pending_row where
  "demo_expired = \<lparr>p_id = 1, p_event_id = ''e1'', p_source = ''ci'', p_destination = Some ''laptop'', p_target = None,
     p_event = [(''event_id'', VStr ''e1''), (''source'', VStr ''ci'')], p_enqueued_at = 0, p_expires_at = 1, p_attempts = 2\<rparr>"

lemma demo_requeue:
  "fst (redrive_next_session 3 4 True
          (demo_entry\<lparr>dl_payload := p_event demo_expired, dl_attempts := 2, dl_created_at := 2\<rparr>) new_store) =
     (0, Json_doc [(''ok'', VBool True), (''id'', VStr ''d1''), (''action'', VStr ''requeued'')])"
  by code_simp

theorem expired_redrive_readdresses_witness:
  "\<exists>d st'. addressed_to ''laptop'' demo_expired
    \<and> redrive_next_session 3 4 True d new_store = ((0, Json_doc [(''ok'', VBool True), (''id'', VStr ''d1''),
         (''action'', VStr ''requeued'')]), st')
    \<and> (\<exists>q. st_pending st' = [q] \<and> \<not> addressed_to ''laptop'' q \<and> addressed_to ''ci'' q)"
proof -
  let ?d = "demo_entry\<lparr>dl_payload := p_event demo_expired, dl_attempts := 2, dl_created_at := 2\<rparr>"
  have p: "promoted_row 2 demo_expired ?d"
    by (simp add: promoted_row_def demo_expired_def demo_entry_def)
  have run: "redrive_next_session 3 4 True ?d new_store = ((0, Json_doc [(''ok'', VBool True), (''id'', VStr ''d1''),
         (''action'', VStr ''requeued'')]), snd (redrive_next_session 3 4 True ?d new_store))"
    using demo_requeue by (simp add: prod_eq_iff)
  from expired_redrive_readdresses [OF p run] obtain q where
    q: "st_pending (snd (redrive_next_session 3 4 True ?d new_store)) = st_pending new_store @ [q]"
    "\<forall>dest. addressed_to dest q \<longleftrightarrow> dest = get_str (p_event demo_expired) ''source'' []" by blast
  have "st_pending new_store = []" "get_str (p_event demo_expired) ''source'' [] = ''ci''"
    "addressed_to ''laptop'' demo_expired"
    by (simp_all add: new_store_def demo_expired_def get_str_def addressed_to_def)
  with q have "st_pending (snd (redrive_next_session 3 4 True ?d new_store)) = [q]" "\<not> addressed_to ''laptop'' q"
    "addressed_to ''ci'' q" by simp_all
  with run \<open>addressed_to ''laptop'' demo_expired\<close> show ?thesis by blast
qed

subsection \<open>The exit code and what is printed\<close>

text \<open>The contract of a reply: exit code 0 or 1; under \<open>--json\<close> one document whose \<open>ok\<close> says which,
  otherwise a text on stdout or an error on stderr.\<close>

definition reply_ok :: "bool \<Rightarrow> reply \<Rightarrow> bool" where
  "reply_ok use_json r \<longleftrightarrow> fst r \<in> {0, 1}
     \<and> (if use_json then \<exists>d. snd r = Json_doc d \<and> dget d ''ok'' = Some (VBool (fst r = 0))
        else if fst r = 0 then \<exists>txt. snd r = Out_text txt
        else \<exists>msg more. snd r = Err_lines ((''error: '' @ msg) # more))"

lemma reply_ok_emit: "dget d ''ok'' = Some (VBool True) \<Longrightarrow> reply_ok j (emit j d t)"
  by (simp add: reply_ok_def emit_def)

lemma reply_ok_error: "reply_ok j (emit_error c m j d rt 1)"
  by (simp add: reply_ok_def emit_error_def)

lemmas reply_oks = reply_ok_emit reply_ok_error

definition outcome_ok :: "bool \<Rightarrow> failure + reply \<Rightarrow> bool" where
  "outcome_ok j r \<longleftrightarrow> (case r of Inl _ \<Rightarrow> True | Inr rep \<Rightarrow> reply_ok j rep)"

lemma outcome_ok_simps [simp]: "outcome_ok j (Inl f)" "outcome_ok j (Inr rep) = reply_ok j rep"
  by (simp_all add: outcome_ok_def)

lemma with_store_outcome:
  assumes "\<And>st. outcome_ok j (fst (work st))"
  shows "outcome_ok j (fst (with_store E now cfg disk work idle))"
proof (cases "disk (db_path E cfg)")
  case (Db prior st)
  with assms [of "open_store (ce_ulid E) now cfg prior st"] show ?thesis
    by (simp add: with_store_def case_prod_beta)
qed (simp add: with_store_def)

lemma reading_outcome:
  assumes "case f st of Inl _ \<Rightarrow> True | Inr rep \<Rightarrow> reply_ok j rep"
  shows "outcome_ok j (fst (reading f st))"
  using assms by (cases "f st") (simp_all add: reading_def)

lemma next_session_reply: "reply_ok j (fst (redrive_next_session now now' j r st))"
  by (simp add: redrive_next_session_def reply_oks split: prod.split)

lemma redrive_outcome: "outcome_ok j (fst (redrive_in_store E now now' cfg j i st))"
proof -
  have "outcome_ok j (fst (redrive_reply_entry E now now' cfg j r st))" for r
    by (simp add: redrive_reply_entry_def needs_config_def reply_oks Let_def delivered_doc_def split: prod.split sum.split)
  moreover have "outcome_ok j (fst (redrive_human_entry E now now' cfg j r st))" for r
    by (simp add: redrive_human_entry_def needs_config_def reply_oks Let_def delivered_doc_def
        split: option.split pyval.split prod.split sum.split)
  moreover have "outcome_ok j (fst (case redrive_next_session now now' j r st of (rep, st') \<Rightarrow> (Inr rep, [] :: redrive_request list, st')))" for r
    using next_session_reply [of j now now' r st] by (simp add: case_prod_beta)
  ultimately show ?thesis
    by (simp add: redrive_in_store_def redrive_entry_def reply_oks split: option.split)
qed

lemma dispatch_outcome: "outcome_ok j (fst (cli_dispatch pretty E t0 now now' j c disk))"
proof (cases c)
  case (Dead_letter_list kind limit redriven)
  then show ?thesis
    by (simp add: cmd_dead_letter_list_def, intro with_store_outcome reading_outcome) (simp add: reply_oks del: split_paired_All split: sum.split)
next
  case (Dead_letter_show i)
  then show ?thesis
    by (simp add: cmd_dead_letter_show_def, intro with_store_outcome reading_outcome)
      (simp add: reply_oks del: split_paired_All split: sum.split option.split)
next
  case (Dead_letter_redrive i)
  then show ?thesis
    by (simp add: cmd_dead_letter_redrive_def Let_def with_store_outcome redrive_outcome)
next
  case (Dead_letter_purge older redriven)
  then show ?thesis
    by (simp add: cmd_dead_letter_purge_def with_store_outcome reply_oks case_prod_beta)
next
  case (Pending_list source limit)
  then show ?thesis
    by (simp add: cmd_pending_list_def, intro with_store_outcome reading_outcome) (simp add: reply_oks del: split_paired_All split: sum.split)
next
  case (Pending_prune elapsed)
  then show ?thesis
    by (simp add: cmd_pending_prune_def with_store_outcome reply_oks Let_def case_prod_beta)
qed

text \<open>The commands keep the error contract of the command line.  Whatever a queue command
  meets (an unreadable store, an exception, a failed redrive), it exits 0 or 1; under
  \<open>--json\<close> it prints one document whose \<open>ok\<close> is true exactly on exit 0, and otherwise a text on
  stdout exactly on exit 0 and an error on stderr else.  Only an interrupt passes through.\<close>

theorem cli_contract:
  "case fst (cli_main say pretty E t0 now now' use_json c disk) of
     None \<Rightarrow> fst (cli_dispatch pretty E t0 now now' use_json c disk) = Inl Interrupted
   | Some rep \<Rightarrow> reply_ok use_json rep"
proof -
  obtain r disk' where d: "cli_dispatch pretty E t0 now now' use_json c disk = (r, disk')" by fastforce
  have "case boundary say use_json r of None \<Rightarrow> r = Inl Interrupted | Some rep \<Rightarrow> reply_ok use_json rep"
    using dispatch_outcome [of use_json pretty E t0 now now' c disk] d
    by (auto simp: boundary_def outcome_ok_def reply_ok_error split: sum.split failure.split)
  then show ?thesis unfolding cli_main_def d prod.case fst_conv .
qed

subsection \<open>The databases\<close>

text \<open>What one command does to the database it opens: \<open>wf\<close> is kept, and every queued event that has
  not expired by the last of the clock readings is still queued, with its event.\<close>

definition queue_kept :: "pytime \<Rightarrow> store \<Rightarrow> store \<Rightarrow> bool" where
  "queue_kept now st st' \<longleftrightarrow>
     (\<forall>r \<in> set (st_pending st). now < p_expires_at r \<longrightarrow>
        (\<exists>r' \<in> set (st_pending st'). p_id r' = p_id r \<and> p_event r' = p_event r \<and> p_expires_at r' = p_expires_at r))"

lemma queue_kept_same: "set (st_pending st) \<subseteq> set (st_pending st') \<Longrightarrow> queue_kept now st st'"
  by (auto simp: queue_kept_def)

lemma queue_kept_prune: "queue_kept now st (snd (prune u now st))"
  by (auto simp: queue_kept_def store_simps)

lemma queue_kept_trans: "queue_kept a st st1 \<Longrightarrow> queue_kept b st1 st2 \<Longrightarrow> queue_kept (max a b) st st2"
  by (fastforce simp: queue_kept_def)

lemma queue_kept_mono: "queue_kept a st st' \<Longrightarrow> a \<le> b \<Longrightarrow> queue_kept b st st'"
  by (auto simp: queue_kept_def)

lemma queue_kept_open: "queue_kept now disk (open_store u now cfg prior disk)"
proof -
  have "queue_kept now disk (migrate prior (disk\<lparr>st_inserts := n, dedupe_ttl := a, dedupe_max_rows := b, pending_ttl := c,
      pending_max_rows := d, pending_max_attempts := e, dead_letter_ttl := f, dead_letter_max_rows := g\<rparr>))"
    for n a b c d e f g
    by (auto simp: queue_kept_def migrate_def backfill_def split: option.split)
  then have "queue_kept (max now now) disk (open_store u now cfg prior disk)"
    unfolding open_store_def Let_def by (rule queue_kept_trans [OF _ queue_kept_prune])
  then show ?thesis by simp
qed

definition db_ok :: "(nat \<Rightarrow> string) \<Rightarrow> pytime \<Rightarrow> store \<Rightarrow> store \<Rightarrow> bool" where
  "db_ok u now st st' \<longleftrightarrow> (wf_store u st \<longrightarrow> wf_store u st') \<and> queue_kept now st st'"

text \<open>One database is worked on, the others are untouched.\<close>

definition disk_ok :: "(nat \<Rightarrow> string) \<Rightarrow> pytime \<Rightarrow> string \<Rightarrow> disk \<Rightarrow> disk \<Rightarrow> bool" where
  "disk_ok u now path disk disk' \<longleftrightarrow> (\<forall>q. q \<noteq> path \<longrightarrow> disk' q = disk q)
     \<and> (case disk path of
          Unopenable msg \<Rightarrow> disk' path = Unopenable msg
        | Db prior st \<Rightarrow> \<exists>st'. disk' path = Db (Some SCHEMA_VERSION) st' \<and> db_ok u now st st')"

lemma with_store_disk:
  assumes "inj (ce_ulid E)" and "\<And>st. db_ok (ce_ulid E) t1 st (snd (snd (work st)))"
  shows "disk_ok (ce_ulid E) (max t0 t1) (db_path E cfg) disk (snd (snd (with_store E t0 cfg disk work idle)))"
proof (cases "disk (db_path E cfg)")
  case (Db prior st)
  let ?st = "open_store (ce_ulid E) t0 cfg prior st"
  have "queue_kept (max t0 t1) st (snd (snd (work ?st)))"
    using assms(2) [of ?st] unfolding db_ok_def by (blast intro: queue_kept_trans queue_kept_open)
  then have "db_ok (ce_ulid E) (max t0 t1) st (snd (snd (work ?st)))"
    using assms(2) [of ?st] wf_open [OF assms(1)] by (simp add: db_ok_def)
  then show ?thesis using Db by (simp add: disk_ok_def with_store_def case_prod_beta)
qed (simp add: disk_ok_def with_store_def)

lemma db_ok_refl: "db_ok u now st st"
  by (simp add: db_ok_def queue_kept_same)

lemma db_ok_reading: "db_ok u now st (snd (snd (reading f st)))"
  by (simp add: reading_def db_ok_refl)

lemma db_ok_mark: "db_ok u now st st1 \<Longrightarrow> db_ok u now st (mark_redriven t i s e st1)"
  by (simp add: db_ok_def wf_mark queue_kept_def store_simps)

lemma db_ok_enqueue: "db_ok u now st (snd (enqueue_pending t ev d st))"
proof -
  have "set (st_pending st) \<subseteq> set (st_pending (snd (enqueue_pending t ev d st)))"
    by (auto simp: enqueue_pending_def Let_def)
  then show ?thesis by (simp add: db_ok_def wf_enqueue queue_kept_same)
qed

lemma db_ok_prune: "inj u \<Longrightarrow> db_ok u now st (snd (prune u now st))"
  by (simp add: db_ok_def wf_prune queue_kept_prune)

lemma db_ok_purge: "db_ok u now st (snd (purge_dead_letters t o' ro st))"
proof -
  have "st_pending (snd (purge_dead_letters t o' ro st)) = st_pending st"
    by (simp add: purge_dead_letters_def Let_def)
  then show ?thesis by (simp add: db_ok_def wf_purge queue_kept_same)
qed

lemma db_ok_redrive: "db_ok u t st (snd (snd (redrive_in_store E now now' cfg j i st)))"
proof -
  have "db_ok u t st (snd (snd (redrive_reply_entry E now now' cfg j r st)))" for r
    by (simp add: redrive_reply_entry_def Let_def db_ok_refl db_ok_mark split: prod.split sum.split)
  moreover have "db_ok u t st (snd (snd (redrive_human_entry E now now' cfg j r st)))" for r
    by (simp add: redrive_human_entry_def Let_def db_ok_refl db_ok_mark
        split: option.split pyval.split prod.split sum.split)
  moreover have "db_ok u t st (snd (redrive_next_session now now' j r st))" for r
    using db_ok_enqueue [of u t st now "dl_payload r" None]
    by (simp add: redrive_next_session_def case_prod_beta db_ok_mark)
  ultimately show ?thesis
    by (simp add: redrive_in_store_def redrive_entry_def case_prod_beta db_ok_refl split: option.split)
qed

lemma dispatch_disk:
  assumes "inj (ce_ulid E)"
  shows "disk_ok (ce_ulid E) (max t0 now')
    (db_path (cli_env.truncate E) (load_config_optional (cli_env.truncate E))) disk
    (snd (cli_dispatch pretty E t0 now now' j c disk))"
proof -
  have u: "inj (ce_ulid (cli_env.truncate E))" using assms by (simp add: ce_ulid_truncate)
  note frame = with_store_disk [OF u, of now', unfolded ce_ulid_truncate]
  show ?thesis
  proof (cases c)
    case (Dead_letter_list kind limit redriven)
    show ?thesis unfolding Dead_letter_list cli_dispatch.simps cmd_dead_letter_list_def snd_apsnd
      by (rule frame) (rule db_ok_reading)
  next
    case (Dead_letter_show i)
    show ?thesis unfolding Dead_letter_show cli_dispatch.simps cmd_dead_letter_show_def snd_apsnd
      by (rule frame) (rule db_ok_reading)
  next
    case (Dead_letter_redrive i)
    show ?thesis unfolding Dead_letter_redrive cli_dispatch.simps cmd_dead_letter_redrive_def snd_apsnd Let_def
      by (rule frame) (rule db_ok_redrive)
  next
    case (Dead_letter_purge older redriven)
    show ?thesis unfolding Dead_letter_purge cli_dispatch.simps cmd_dead_letter_purge_def snd_apsnd
      by (rule frame) (simp add: case_prod_beta db_ok_purge)
  next
    case (Pending_list source limit)
    show ?thesis unfolding Pending_list cli_dispatch.simps cmd_pending_list_def snd_apsnd
      by (rule frame) (rule db_ok_reading)
  next
    case (Pending_prune elapsed)
    show ?thesis unfolding Pending_prune cli_dispatch.simps cmd_pending_prune_def snd_apsnd
      by (rule frame) (simp add: case_prod_beta Let_def ce_ulid_truncate db_ok_prune [OF assms])
  qed
qed

text \<open>Claim C18: no queue command damages a database.  Each touches at most the one its
  configuration points to, an unreadable one is left alone, a well-formed one stays well formed,
  and every queued event that has not expired when the command runs is still queued afterwards
  (also by \<open>prune\<close> and \<open>purge\<close>, and when the command fails).\<close>

theorem commands_keep_databases:
  assumes "inj (ce_ulid E)" and "path = db_path (cli_env.truncate E) (load_config_optional (cli_env.truncate E))"
    and "cli_main say pretty E t0 now now' use_json c disk = (r, disk')"
  shows "(\<forall>q. q \<noteq> path \<longrightarrow> disk' q = disk q)
    \<and> (case disk path of
         Unopenable msg \<Rightarrow> disk' path = Unopenable msg
       | Db prior st \<Rightarrow> \<exists>st'. disk' path = Db (Some SCHEMA_VERSION) st'
           \<and> (wf_store (ce_ulid E) st \<longrightarrow> wf_store (ce_ulid E) st')
           \<and> (\<forall>p \<in> set (st_pending st). max t0 now' < p_expires_at p \<longrightarrow>
                (\<exists>p' \<in> set (st_pending st'). p_id p' = p_id p \<and> p_event p' = p_event p)))"
proof -
  have "disk_ok (ce_ulid E) (max t0 now') path disk disk'"
    using dispatch_disk [OF assms(1), of t0 now' disk pretty now use_json c] assms(2,3)
    by (simp add: cli_main_def case_prod_beta)
  then show ?thesis
    unfolding disk_ok_def db_ok_def queue_kept_def by (fastforce split: db_file.splits)
qed

theorem commands_keep_databases_witness:
  "\<exists>r disk'. cli_main (\<lambda>_. []) (\<lambda>_. []) demo_env 1 2 3 True (Dead_letter_redrive ''d1'') demo_disk = (r, disk')
    \<and> disk' ''/else'' = demo_disk ''/else''"
proof -
  have inj: "inj (ce_ulid demo_env)" using inj_demo_ulid by (simp add: demo_env_def)
  have path: "''/var/state.db'' = db_path (cli_env.truncate demo_env) (load_config_optional (cli_env.truncate demo_env))"
    by (simp add: demo_redrive)
  obtain r disk' where "cli_main (\<lambda>_. []) (\<lambda>_. []) demo_env 1 2 3 True (Dead_letter_redrive ''d1'') demo_disk = (r, disk')"
    by fastforce
  with commands_keep_databases [OF inj path this] show ?thesis by auto
qed

text \<open>The commands that list are not read-only: opening sweeps the store, and without a loadable
  configuration it sweeps with the default limits.  Here the operator keeps dead letters for a
  year; with the file broken, \<open>list\<close> shows nothing and the entry is gone from the disk.\<close>

definition year_config :: cfg where
  "year_config = [(''state'', VDict [(''dead_letter_ttl_seconds'', VInt (365 * 24 * 3600))])]"

lemma listing_sweeps_with_defaults:
  "let t = 40 * 24 * 3600; E = cli_env.truncate demo_env; ok = E\<lparr>ce_config := Inr year_config\<rparr>;
       left = (\<lambda>d. case d ''/var/state.db'' of Db _ st \<Rightarrow> map dl_id (st_dead st) | _ \<Rightarrow> [])
   in left (snd (snd (cmd_dead_letter_list ok t True None 50 False demo_disk))) = [''d1'']
      \<and> left (snd (snd (cmd_dead_letter_list E t True None 50 False demo_disk))) = []"
  by code_simp

text \<open>A redriven reply does not carry the identity of the session that answered, although the dead
  letter records its destination: every request has the body of a reply without one.\<close>

lemma redriven_reply_anonymous:
  assumes "redrive_reply E now cfg payload = (res, tr)" "Outbox_step (Post url body headers) \<in> set tr"
  shows "body = reply_body cfg (get_str payload ''in_reply_to'' []) (get_str payload ''content'' []) None"
proof -
  have posts: "Post url body headers \<in> set (snd (attempts ob post (Post u b h) 0 n None None)) \<Longrightarrow> body = b" for ob post u b h n
    using attempts_posts [of ob post "Post u b h" 0 n None None] by auto
  have "Post url body headers \<in> set (fst (snd (deliver_reply (ce_ulid E) (re_sha E) (re_hmac E) (re_post E)
      (start_outbox (new_outbox cfg)) (re_keys E) now (get_str payload ''source'' []) (get_str payload ''reply_id'' [])
      (get_str payload ''in_reply_to'' []) (get_str payload ''content'' []) None None)))"
    using assms by (auto simp: redrive_reply_def split: prod.splits)
  then show ?thesis
    unfolding deliver_reply_steps
    by (auto simp: start_outbox_def new_outbox_def split: sum.splits option.splits if_splits dest!: posts)
qed

end
