(* ===== verification/Email.thy ===== *)
theory Email
  imports Webhook_Props Delivery_Props Lines
begin

section \<open>The email channel (\<open>channels/email.py\<close>)\<close>

text \<open>
  The rendering of an event as a mail, the message with its header checks, and the SMTP
  conversation.  \<open>srv done c\<close> is the reaction of the server (through \<open>smtplib\<close>) to command \<open>c\<close>
  after the accepted commands \<open>done\<close>: \<open>None\<close> when the call returns, else the \<open>str\<close> of what it
  raises.  The body is kept as its UTF-8 bytes, in which it is sent (the signature line starts
  with a dash outside Latin-1), and a password as the UTF-8 bytes the secret holds.  Cancellation
  of a delivery while it waits for its thread is not modelled.
\<close>

subsection \<open>Rendering\<close>

definition subject_templates :: "(string \<times> (string \<times> bool)) list" where
  "subject_templates =
     [(''awaiting_accept'', (''Action required: an item awaits your accept'', False)),
      (''awaiting_your_accept'', (''Action required: an item awaits your accept'', False)),
      (''review_requested'', (''Review requested'', False)),
      (''item_returned'', (''Changes requested: an item was returned'', False)),
      (''digest'', (''Your agent-suite digest'', False)),
      (''alert'', (''Alert: '', True)),
      (''chain_verify_failed'', (''Chain verification failed'', False)),
      (''suite_health'', (''Suite health: '', True))]"

text \<open>The first line of the body templates with a deep link.\<close>

definition body_templates :: "(string \<times> string) list" where
  "body_templates =
     [(''awaiting_accept'', ''An item is awaiting your accept.''),
      (''awaiting_your_accept'', ''An item is awaiting your accept.''),
      (''review_requested'', ''A review was requested.''),
      (''item_returned'', ''An item was returned for changes.''),
      (''digest'', ''Here is your digest.'')]"

definition blank_line :: string where
  "blank_line = [CHR 0x0A, CHR 0x0A]"

definition sign_off :: bytes where
  "sign_off = blank_line @ [CHR 0xE2, CHR 0x80, CHR 0x94] @ '' agent-wake''"

text \<open>A template ends in its placeholder or has none; \<open>str.format\<close> does not look into what it
  inserts.\<close>

definition mail_subject :: "string \<Rightarrow> string \<Rightarrow> string" where
  "mail_subject kind content =
     (case dget subject_templates kind of
        None \<Rightarrow> ''agent-wake notification''
      | Some (prefix, has_content) \<Rightarrow> if has_content then prefix @ take 120 content else prefix)"

definition mail_body :: "string \<Rightarrow> string \<Rightarrow> string \<Rightarrow> bytes" where
  "mail_body kind content deep_link =
     (case dget body_templates kind of
        None \<Rightarrow> utf8 content @ sign_off
      | Some intro \<Rightarrow>
          utf8 (intro @ blank_line @ content @ blank_line @ ''Deep link: ''
            @ (if deep_link = [] then ''(none)'' else deep_link)) @ sign_off)"

definition render_email :: "dict \<Rightarrow> string \<times> bytes" where
  "render_email event =
     (let kind = get_str event ''kind'' []; content = get_str event ''content'' [];
          meta = table_of (dget event ''meta'');
          deep_link = (case dget meta ''deep_link'' of
                         Some v \<Rightarrow> py_str v | None \<Rightarrow> get_str meta ''link'' [])
      in (strip (mail_subject kind content), mail_body kind content deep_link))"

subsection \<open>The message\<close>

text \<open>\<open>msg[name] = value\<close>: the header policy refuses a value of more than one line, that is with a
  line break before its last character (a carriage return and a line feed at the end are one).\<close>

definition one_line :: "string \<Rightarrow> bool" where
  "one_line v \<longleftrightarrow>
     (let core = (if 2 \<le> length v \<and> drop (length v - 2) v = [CHR 0x0D, CHR 0x0A] then take (length v - 2) v
                  else butlast v)
      in list_all (\<lambda>c. \<not> is_line_break c) core)"

definition header_error :: string where
  "header_error = ''Header values may not contain linefeed or carriage return characters''"

record mail =
  m_from :: string
  m_to :: string
  m_subject :: string
  m_body :: bytes

definition build_mail :: "string \<Rightarrow> string \<Rightarrow> dict \<Rightarrow> mail res" where
  "build_mail from_addr to_addr event =
     (case render_email event of
        (subject, body) \<Rightarrow>
          if one_line from_addr \<and> one_line to_addr \<and> one_line subject
          then Inr \<lparr>m_from = from_addr, m_to = to_addr, m_subject = subject, m_body = body\<rparr>
          else Inl (ValueError header_error))"

subsection \<open>The conversation\<close>

datatype smtp_command =
    Connect string int | Ehlo | Starttls | Login string bytes | Send_message mail | Quit

type_synonym smtp_server = "smtp_command list \<Rightarrow> smtp_command \<Rightarrow> string option"

text \<open>Commands are given until one raises; the result is the accepted ones with the error.\<close>

fun converse :: "smtp_server \<Rightarrow> smtp_command list \<Rightarrow> smtp_command list \<Rightarrow> smtp_command list \<times> string option" where
  "converse srv done [] = (done, None)"
| "converse srv done (c # cs) =
     (case srv done c of None \<Rightarrow> converse srv (done @ [c]) cs | Some e \<Rightarrow> (done, Some e))"

definition script :: "string \<Rightarrow> mail \<Rightarrow> bytes option \<Rightarrow> bool \<Rightarrow> smtp_command list" where
  "script from_addr msg password use_tls =
     [Ehlo] @ (if use_tls then [Starttls, Ehlo] else [])
     @ (case password of Some (c # p) \<Rightarrow> [Login from_addr (c # p)] | _ \<Rightarrow> []) @ [Send_message msg]"

text \<open>\<open>quit\<close> runs in the \<open>finally\<close>, so what it raises replaces the error before it.  The first
  result is the list of accepted commands.\<close>

definition smtp_send ::
  "smtp_server \<Rightarrow> string \<Rightarrow> int \<Rightarrow> string \<Rightarrow> mail \<Rightarrow> bytes option \<Rightarrow> bool \<Rightarrow>
   smtp_command list \<times> string option" where
  "smtp_send srv host port from_addr msg password use_tls =
     (case srv [] (Connect host port) of
        Some e \<Rightarrow> ([], Some e)
      | None \<Rightarrow>
          (case converse srv [Connect host port] (script from_addr msg password use_tls) of
             (done, err) \<Rightarrow>
               (case srv done Quit of
                  None \<Rightarrow> (done @ [Quit], err)
                | Some e \<Rightarrow> (done, Some e))))"

subsection \<open>Delivery\<close>

text \<open>\<open>bytes.decode("utf-8")\<close> accepts exactly well-formed UTF-8.\<close>

fun utf8_ok :: "nat list \<Rightarrow> bool" where
  "utf8_ok [] = True"
| "utf8_ok (b # bs) =
     (let cont = (\<lambda>x. 128 \<le> x \<and> x \<le> 191) in
      if b < 128 then utf8_ok bs
      else if 194 \<le> b \<and> b \<le> 223 then
        (case bs of x # r \<Rightarrow> cont x \<and> utf8_ok r | _ \<Rightarrow> False)
      else if 224 \<le> b \<and> b \<le> 239 then
        (case bs of x # y # r \<Rightarrow>
           (if b = 224 then 160 \<le> x \<and> x \<le> 191 else if b = 237 then 128 \<le> x \<and> x \<le> 159 else cont x)
           \<and> cont y \<and> utf8_ok r
         | _ \<Rightarrow> False)
      else if 240 \<le> b \<and> b \<le> 244 then
        (case bs of x # y # z # r \<Rightarrow>
           (if b = 240 then 144 \<le> x \<and> x \<le> 191 else if b = 244 then 128 \<le> x \<and> x \<le> 143 else cont x)
           \<and> cont y \<and> cont z \<and> utf8_ok r
         | _ \<Rightarrow> False)
      else False)"

definition decodable :: "bytes \<Rightarrow> bool" where
  "decodable s = utf8_ok (map of_char s)"

text \<open>The password of the channel: none configured, unresolvable, or its bytes.\<close>

definition mail_password ::
  "(exn \<Rightarrow> string) \<Rightarrow> world \<Rightarrow> pytime \<Rightarrow> pyval option \<Rightarrow> secret_cache \<Rightarrow>
   (string + bytes option) \<times> secret_cache" where
  "mail_password etext W clk secret_uri C =
     (if \<not> truthy_opt secret_uri then (Inr None, C)
      else
        (case resolve_secret W clk (py_str (the secret_uri)) C of
           (Inl e, C') \<Rightarrow> (Inl (etext e), C')
         | (Inr b, C') \<Rightarrow> (if decodable b then Inr (Some b) else Inl (etext UnicodeDecodeError), C')))"

text \<open>The entries of a validated channel; a delivery gives its outcome, the accepted SMTP commands
  and the secret cache.\<close>

record mail_channel =
  mc_host :: string
  mc_port :: int
  mc_from :: string
  mc_to :: string
  mc_tls :: bool
  mc_secret :: "pyval option"

definition mail_channel_of :: "dict \<Rightarrow> mail_channel" where
  "mail_channel_of cfg =
     \<lparr>mc_host = get_str cfg ''smtp_host'' [],
      mc_port = (case int_of (dget cfg ''smtp_port'') of None \<Rightarrow> 0 | Some p \<Rightarrow> p),
      mc_from = get_str cfg ''from_addr'' [], mc_to = get_str cfg ''to_addr'' [],
      mc_tls = (case dget cfg ''use_tls'' of None \<Rightarrow> True | Some v \<Rightarrow> truthy v),
      mc_secret = dget cfg ''secret_uri''\<rparr>"

definition email_deliver ::
  "(exn \<Rightarrow> string) \<Rightarrow> smtp_server \<Rightarrow> world \<Rightarrow> pytime \<Rightarrow> dict \<Rightarrow> mail_channel \<Rightarrow> secret_cache \<Rightarrow>
   chan_outcome \<times> smtp_command list \<times> secret_cache" where
  "email_deliver etext srv W clk event mc C =
     (case build_mail (mc_from mc) (mc_to mc) event of
        Inl e \<Rightarrow> (Chan_raised (etext e), [], C)
      | Inr msg \<Rightarrow>
          (case mail_password etext W clk (mc_secret mc) C of
             (Inl e, C') \<Rightarrow>
               (Result [(''status'', VStr ''failed''), (''error'', VStr (''secret resolve failed: '' @ e))], [], C')
           | (Inr password, C') \<Rightarrow>
               (case smtp_send srv (mc_host mc) (mc_port mc) (mc_from mc) msg password (mc_tls mc) of
                  (done, Some e) \<Rightarrow> (Result [(''status'', VStr ''failed''), (''error'', VStr e)], done, C')
                | (done, None) \<Rightarrow> (Result [(''status'', VStr ''delivered'')], done, C'))))"

text \<open>An address as it is logged.\<close>

definition redact_addr :: "string \<Rightarrow> string" where
  "redact_addr addr =
     (case split_at (CHR ''@'') addr of
        (c # _, Some domain) \<Rightarrow> [c] @ ''***@'' @ domain
      | _ \<Rightarrow> ''***'')"

subsection \<open>What a mail delivery promises\<close>

lemma converse_prefix:
  assumes "converse srv done cs = (done', err)"
  shows "\<exists>n. done' = done @ take n cs \<and> (err = None \<longrightarrow> done' = done @ cs)
    \<and> (\<forall>pre c post. done' = pre @ c # post \<and> length done \<le> length pre \<longrightarrow> srv pre c = None)"
  using assms
proof (induction cs arbitrary: "done")
  case Nil
  then show ?case by auto
next
  case (Cons c cs)
  show ?case
  proof (cases "srv done c")
    case (Some e)
    with Cons.prems have "done' = done" "err = Some e" by auto
    then show ?thesis by (intro exI [of _ 0]) auto
  next
    case None
    with Cons.prems have run: "converse srv (done @ [c]) cs = (done', err)" by simp
    obtain n where n: "done' = (done @ [c]) @ take n cs" "err = None \<longrightarrow> done' = (done @ [c]) @ cs"
      "\<And>pre d post. done' = pre @ d # post \<Longrightarrow> length (done @ [c]) \<le> length pre \<Longrightarrow> srv pre d = None"
      using Cons.IH [OF run] by blast
    have "srv pre d = None" if d: "done' = pre @ d # post" "length done \<le> length pre" for pre d post
    proof (cases "length pre = length done")
      case True
      with d(1) n(1) have "pre = done" "d = c" by (simp_all add: append_eq_append_conv)
      with None show ?thesis by simp
    next
      case False
      with d n(3) show ?thesis by simp
    qed
    with n show ?thesis by (intro exI [of _ "Suc n"]) auto
  qed
qed

text \<open>\<open>after_tls up cmds\<close>: every login and every message in the conversation comes after an accepted
  \<open>STARTTLS\<close>; \<open>up\<close> says whether there was one before.\<close>

fun after_tls :: "bool \<Rightarrow> smtp_command list \<Rightarrow> bool" where
  "after_tls up [] = True"
| "after_tls up (Starttls # cs) = after_tls True cs"
| "after_tls up (Login u p # cs) = (up \<and> after_tls up cs)"
| "after_tls up (Send_message m # cs) = (up \<and> after_tls up cs)"
| "after_tls up (c # cs) = after_tls up cs"

definition messages :: "smtp_command list \<Rightarrow> mail list" where
  "messages cmds = List.map_filter (\<lambda>c. case c of Send_message m \<Rightarrow> Some m | _ \<Rightarrow> None) cmds"

lemma after_tls_True: "after_tls True cs"
proof (induction cs)
  case (Cons c cs)
  then show ?case by (cases c) simp_all
qed simp

lemma after_tls_append:
  "after_tls up (xs @ ys) \<longleftrightarrow> after_tls up xs \<and> after_tls (up \<or> Starttls \<in> set xs) ys"
proof (induction xs arbitrary: up)
  case (Cons c cs)
  then show ?case by (cases c) auto
qed simp

lemma messages_simps [simp]:
  "messages [] = []" "messages (Connect h p # cs) = messages cs" "messages (Ehlo # cs) = messages cs"
  "messages (Starttls # cs) = messages cs" "messages (Login u b # cs) = messages cs"
  "messages (Quit # cs) = messages cs" "messages (Send_message m # cs) = m # messages cs"
  "messages (xs @ ys) = messages xs @ messages ys"
  by (simp_all add: messages_def map_filter_def)

lemma messages_script: "messages (script from_addr msg password use_tls) = [msg]"
  by (simp add: script_def split: option.split list.split)

text \<open>What a conversation leaves: a prefix of the script, with or without the closing \<open>QUIT\<close>.\<close>

lemma smtp_send_cases:
  assumes "smtp_send srv host port from_addr msg password use_tls = (cmds, err)"
  shows "(cmds = [] \<and> err \<noteq> None)
    \<or> (\<exists>n fin. cmds = Connect host port # take n (script from_addr msg password use_tls) @ fin
         \<and> (fin = [Quit] \<or> fin = [] \<and> err \<noteq> None)
         \<and> (err = None \<longrightarrow> take n (script from_addr msg password use_tls) = script from_addr msg password use_tls))"
proof (cases "srv [] (Connect host port)")
  case (Some e)
  with assms show ?thesis by (simp add: smtp_send_def) blast
next
  case None
  obtain cs e where run: "converse srv [Connect host port] (script from_addr msg password use_tls) = (cs, e)" by fastforce
  from converse_prefix [OF this] obtain n where n: "cs = [Connect host port] @ take n (script from_addr msg password use_tls)"
    "e = None \<longrightarrow> cs = [Connect host port] @ script from_addr msg password use_tls" by blast
  then have all: "e = None \<longrightarrow> take n (script from_addr msg password use_tls) = script from_addr msg password use_tls"
    by simp
  show ?thesis
  proof (cases "srv cs Quit")
    case None
    with assms \<open>srv [] _ = None\<close> run have "cmds = cs @ [Quit]" "err = e" by (simp_all add: smtp_send_def)
    with n(1) all show ?thesis by (intro disjI2 exI [of _ n] exI [of _ "[Quit]"]) simp
  next
    case (Some q)
    with assms None run have "cmds = cs" "err = Some q" by (simp_all add: smtp_send_def)
    with n(1) all show ?thesis by (intro disjI2 exI [of _ n] exI [of _ "[]"]) simp
  qed
qed

lemma smtp_send_safe:
  assumes "smtp_send srv host port from_addr msg password use_tls = (cmds, err)"
  shows "(use_tls \<longrightarrow> after_tls False cmds) \<and> set (messages cmds) \<subseteq> {msg} \<and> length (messages cmds) \<le> 1
    \<and> (err = None \<longrightarrow> messages cmds = [msg])"
proof (cases "cmds = []")
  case True
  with smtp_send_cases [OF assms] show ?thesis by auto
next
  case False
  let ?s = "script from_addr msg password use_tls"
  from False smtp_send_cases [OF assms] obtain n fin where cmds: "cmds = Connect host port # take n ?s @ fin"
    and fin: "fin = [Quit] \<or> fin = [] \<and> err \<noteq> None" and all: "err = None \<longrightarrow> take n ?s = ?s" by blast
  have "after_tls False cmds" if use_tls
  proof -
    have "after_tls False ?s" using that by (simp add: script_def after_tls_True)
    then have "after_tls False (take n ?s @ drop n ?s)" by simp
    then have "after_tls False (take n ?s)" unfolding after_tls_append by blast
    then show ?thesis using fin cmds by (auto simp: after_tls_append)
  qed
  moreover have "messages cmds = messages (take n ?s)" using fin cmds by auto
  moreover have "set (messages (take n ?s)) \<subseteq> {msg} \<and> length (messages (take n ?s)) \<le> 1"
  proof -
    have "messages (take n ?s) @ messages (drop n ?s) = [msg]"
      using messages_script [of from_addr msg password use_tls] by (simp flip: messages_simps(8))
    then show ?thesis by (auto simp: append_eq_Cons_conv)
  qed
  ultimately show ?thesis using all by (auto simp: messages_script)
qed

text \<open>Claim C23: A mail goes out at most once per delivery, to the configured address, with the
  event's rendering and, unless TLS is switched off, neither it nor the password before the
  server has accepted \<open>STARTTLS\<close>; a delivery that reports \<open>delivered\<close> did send it.\<close>

theorem mail_sent_safely:
  assumes "email_deliver etext srv W clk event mc C = (res, cmds, C')"
  shows "(mc_tls mc \<longrightarrow> after_tls False cmds) \<and> length (messages cmds) \<le> 1
    \<and> (\<forall>m \<in> set (messages cmds). m_to m = mc_to mc \<and> m_from m = mc_from mc \<and> (m_subject m, m_body m) = render_email event)
    \<and> (res = Result [(''status'', VStr ''delivered'')] \<longrightarrow> length (messages cmds) = 1)"
proof (cases "build_mail (mc_from mc) (mc_to mc) event")
  case (Inl e)
  with assms show ?thesis by (auto simp: email_deliver_def)
next
  case (Inr msg)
  then have msg: "m_to msg = mc_to mc" "m_from msg = mc_from mc" "(m_subject msg, m_body msg) = render_email event"
    by (auto simp: build_mail_def split: prod.splits if_splits)
  obtain pw C1 where pw: "mail_password etext W clk (mc_secret mc) C = (pw, C1)" by fastforce
  show ?thesis
  proof (cases pw)
    case (Inl e)
    with assms Inr pw show ?thesis by (auto simp: email_deliver_def)
  next
    case (Inr password)
    obtain cs err where send: "smtp_send srv (mc_host mc) (mc_port mc) (mc_from mc) msg password (mc_tls mc) = (cs, err)"
      by fastforce
    have "cmds = cs" "res = Result [(''status'', VStr ''delivered'')] \<longleftrightarrow> err = None"
      using assms \<open>build_mail _ _ _ = Inr msg\<close> pw Inr send by (auto simp: email_deliver_def split: option.splits)
    with smtp_send_safe [OF send] msg show ?thesis by auto
  qed
qed

definition demo_mail_channel :: mail_channel where
  "demo_mail_channel = \<lparr>mc_host = ''mx'', mc_port = 587, mc_from = ''wake@x'', mc_to = ''ann@x'', mc_tls = True,
     mc_secret = None\<rparr>"

definition demo_notice :: dict where
  "demo_notice = [(''event_id'', VStr ''e1''), (''kind'', VStr ''alert''), (''content'', VStr ''disk full'')]"

lemma demo_mail_run:
  "email_deliver (\<lambda>_. []) (\<lambda>_ _. None) hook_demo_world 0 demo_notice demo_mail_channel [] =
     (Result [(''status'', VStr ''delivered'')],
      [Connect ''mx'' 587, Ehlo, Starttls, Ehlo,
       Send_message \<lparr>m_from = ''wake@x'', m_to = ''ann@x'', m_subject = ''Alert: disk full'',
         m_body = utf8 ''disk full'' @ sign_off\<rparr>, Quit], [])"
  by code_simp

theorem mail_sent_safely_witness:
  "messages [Connect ''mx'' 587, Ehlo, Starttls, Ehlo,
      Send_message \<lparr>m_from = ''wake@x'', m_to = ''ann@x'', m_subject = ''Alert: disk full'',
        m_body = utf8 ''disk full'' @ sign_off\<rparr>, Quit] \<noteq> []
   \<and> render_email demo_notice = (''Alert: disk full'', utf8 ''disk full'' @ sign_off)"
  using mail_sent_safely [OF demo_mail_run] by (simp add: demo_mail_channel_def)

text \<open>The error of \<open>quit\<close> counts: a mail the server took is reported as failed when the closing
  \<open>QUIT\<close> raises, so it is dead-lettered and a redrive sends it a second time.\<close>

lemma sent_but_failed:
  "email_deliver (\<lambda>_. []) (\<lambda>_ c. if c = Quit then Some ''closed'' else None) hook_demo_world 0 demo_notice
     demo_mail_channel [] =
     (Result [(''status'', VStr ''failed''), (''error'', VStr ''closed'')],
      [Connect ''mx'' 587, Ehlo, Starttls, Ehlo,
       Send_message \<lparr>m_from = ''wake@x'', m_to = ''ann@x'', m_subject = ''Alert: disk full'',
         m_body = utf8 ''disk full'' @ sign_off\<rparr>], [])"
  by code_simp

subsection \<open>Alerts of several lines\<close>

lemma strip_keeps:
  assumes "\<not> is_space (hd a)" "a \<noteq> []" "x \<in> set b" "\<not> is_space x"
  shows "\<exists>b'. strip (a @ c # b) = a @ c # b' \<and> b' \<noteq> [] \<and> \<not> is_space (last b')"
proof -
  have front: "dropWhile is_space (a @ c # b) = a @ c # b"
    using assms(1,2) by (cases a) auto
  have "x \<in> set (rev b)" using assms(3) by simp
  with assms(4) have tail: "dropWhile is_space (rev b @ c # rev a) = dropWhile is_space (rev b) @ c # rev a"
    by (intro dropWhile_append1)
  have ne: "dropWhile is_space (rev b) \<noteq> []" using assms(3,4) by (auto simp: dropWhile_eq_Nil_conv)
  have "strip (a @ c # b) = a @ c # rev (dropWhile is_space (rev b))"
    unfolding strip_def front using tail by simp
  moreover have "\<not> is_space (last (rev (dropWhile is_space (rev b))))"
    using hd_dropWhile [OF ne] ne by (simp add: last_rev)
  ultimately show ?thesis using ne by (intro exI [of _ "rev (dropWhile is_space (rev b))"]) simp
qed

lemma two_lines:
  assumes "is_line_break c" "b \<noteq> []" "\<not> is_space (last b)"
  shows "\<not> one_line (a @ c # b)"
proof -
  have b: "b = butlast b @ [last b]" using assms(2) by simp
  have "drop (length (a @ c # b) - 2) (a @ c # b) \<noteq> [CHR 0x0D, CHR 0x0A]"
  proof
    assume d: "drop (length (a @ c # b) - 2) (a @ c # b) = [CHR 0x0D, CHR 0x0A]"
    have "last (a @ c # b) = last (drop (length (a @ c # b) - 2) (a @ c # b))" using assms(2) by (simp add: last_drop)
    also have "\<dots> = CHR 0x0A" unfolding d by simp
    finally have "last b = CHR 0x0A" using assms(2) by simp
    with assms(3) show False by (simp add: is_space_def is_ascii_space_def)
  qed
  moreover have "c \<in> set (butlast (a @ c # b))" using assms(2) by (simp add: butlast_append)
  ultimately show ?thesis using assms(1) by (auto simp: one_line_def Let_def list_all_iff)
qed

text \<open>An alert of several lines is never mailed.  The first 120 characters of an
  \<open>alert\<close> or \<open>suite_health\<close> event go into the subject as they are; with a line break among them
  (and something other than white space after it) the header is refused, the delivery raises
  before it resolves the secret or opens a connection, and so does every redrive.\<close>

theorem multiline_alert_never_mailed:
  assumes "get_str event ''kind'' [] \<in> {''alert'', ''suite_health''}"
    and "take 120 (get_str event ''content'' []) = a @ c # b" and "is_line_break c"
    and "x \<in> set b" and "\<not> is_space x"
  shows "email_deliver etext srv W clk event mc C = (Chan_raised (etext (ValueError header_error)), [], C)"
proof -
  obtain prefix where subject: "mail_subject (get_str event ''kind'' []) (get_str event ''content'' []) = prefix @ a @ c # b"
    and prefix: "prefix \<noteq> []" "\<not> is_space (hd prefix)"
  proof -
    have "mail_subject (get_str event ''kind'' []) (get_str event ''content'' []) \<in> {''Alert: '' @ a @ c # b, ''Suite health: '' @ a @ c # b}"
      using assms(1,2) by (auto simp: mail_subject_def subject_templates_def)
    moreover have "\<not> is_space (hd ''Alert: '')" "\<not> is_space (hd ''Suite health: '')"
      by (simp_all add: is_space_def is_ascii_space_def)
    ultimately show thesis using that [of "''Alert: ''"] that [of "''Suite health: ''"] by auto
  qed
  obtain b' where "strip (prefix @ a @ c # b) = prefix @ a @ c # b'" "b' \<noteq> []" "\<not> is_space (last b')"
    using strip_keeps [of "prefix @ a" x b c] prefix assms(4,5) by auto
  then have "\<not> one_line (fst (render_email event))"
    using two_lines [OF assms(3), of b' "prefix @ a"] subject by (simp add: render_email_def Let_def)
  then have "build_mail (mc_from mc) (mc_to mc) event = Inl (ValueError header_error)"
    by (simp add: build_mail_def case_prod_beta)
  then show ?thesis by (simp add: email_deliver_def)
qed

theorem multiline_alert_never_mailed_witness:
  "email_deliver (\<lambda>_. ''refused'') (\<lambda>_ _. None) hook_demo_world 0
     [(''kind'', VStr ''alert''), (''content'', VStr (''disk'' @ [CHR 0x0A] @ ''full''))] demo_mail_channel [] =
   (Chan_raised ''refused'', [], [])"
proof -
  have "get_str [(''kind'', VStr ''alert''), (''content'', VStr (''disk'' @ [CHR 0x0A] @ ''full''))] ''kind'' []
      \<in> {''alert'', ''suite_health''}"
    and "take 120 (get_str [(''kind'', VStr ''alert''), (''content'', VStr (''disk'' @ [CHR 0x0A] @ ''full''))] ''content'' [])
      = ''disk'' @ CHR 0x0A # ''full''"
    by (simp_all add: get_str_def)
  moreover have "is_line_break (CHR 0x0A)" "CHR ''f'' \<in> set ''full''" "\<not> is_space (CHR ''f'')"
    by (simp_all add: is_line_break_def is_space_def is_ascii_space_def)
  ultimately show ?thesis by (rule multiline_alert_never_mailed)
qed

subsection \<open>The channels of the daemon meet the contract\<close>

text \<open>What \<open>HumanDelivery\<close> registers when it is given no channels, with the secret cache as it is
  when the channel is called.\<close>

definition live_channels ::
  "(exn \<Rightarrow> string) \<Rightarrow> (bytes \<Rightarrow> bytes \<Rightarrow> bytes) \<Rightarrow> (nat \<Rightarrow> string \<Rightarrow> string list res) \<Rightarrow>
   (nat \<Rightarrow> post_outcome option) \<Rightarrow> smtp_server \<Rightarrow> world \<Rightarrow> pytime \<Rightarrow> secret_cache \<Rightarrow> channels" where
  "live_channels etext hmac dns post srv W clk C =
     [(''webhook'', \<lambda>event cfg.
         fst (webhook_deliver etext hmac dns post new_webhook W clk event
                (get_str (table_of (Some cfg)) ''url'' []) (get_str (table_of (Some cfg)) ''secret_uri'' []) C)),
      (''email'', \<lambda>event cfg.
         fst (email_deliver etext srv W clk event (mail_channel_of (table_of (Some cfg))) C))]"

definition plain_result :: "dict \<Rightarrow> bool" where
  "plain_result r \<longleftrightarrow> wf_dict r \<and> \<not> has_key r ''channel'' \<and> \<not> status_is ''skipped'' r"

lemma plain_results:
  "plain_result [(''status'', VStr ''delivered'')]"
  "plain_result [(''status'', VStr ''failed''), (''error'', e)]"
  "plain_result [(''status'', VStr ''delivered''), (''http_status'', h)]"
  "plain_result (gave_up http err)" "plain_result (unsafe_target u)"
  by (simp_all add: plain_result_def wf_dict_def has_key_def status_is_def gave_up_def unsafe_target_def)

definition plain_outcome :: "chan_outcome \<Rightarrow> bool" where
  "plain_outcome out' \<longleftrightarrow> (\<forall>r. called out' = Some r \<longrightarrow> plain_result r)"

lemma plain_outcomes [simp]:
  "plain_outcome (Result r) = plain_result r" "plain_outcome (Chan_raised t)" "plain_outcome Cancelled"
  by (simp_all add: plain_outcome_def called_def plain_results)

lemma hook_attempts_plain:
  "hook_attempts etext wh dns post url body headers a n err http = (out', steps) \<Longrightarrow> plain_outcome out'"
proof (induction n arbitrary: a err http out' steps)
  case (Suc n)
  show ?case
    using Suc.prems
    by (auto simp: Let_def plain_results dest: Suc.IH
        split: sum.splits option.splits post_outcome.splits if_splits prod.splits)
qed (auto simp: plain_results)

lemma webhook_plain: "plain_outcome (fst (webhook_deliver etext hmac dns post wh W clk event url suri C))"
  by (auto simp: webhook_deliver_def Let_def plain_results dest: hook_attempts_plain
      split: sum.splits option.splits prod.splits)

lemma email_plain: "plain_outcome (fst (email_deliver etext srv W clk event mc C))"
  by (auto simp: email_deliver_def plain_results split: sum.splits option.splits prod.splits)

text \<open>The channels the daemon registers refine the contract of a channel.  Whatever the name
  server, the HTTP and the mail server do, a webhook or a mail delivery answers with a well-formed
  result that names no channel and does not claim to be skipped, which is what the accounting of
  alerts assumes of a channel.\<close>

theorem live_channels_meet_contract: "channel_contract (live_channels etext hmac dns post srv W clk C)"
proof -
  have "plain_outcome (f event c)"
    if "dget (live_channels etext hmac dns post srv W clk C) k = Some f" for k f event c
    using that webhook_plain email_plain by (auto simp: live_channels_def split: if_splits)
  then show ?thesis by (auto simp: channel_contract_def plain_outcome_def plain_result_def)
qed

end
