(* ===== verification/Env_File.thy ===== *)
theory Env_File
  imports Lines
begin

section \<open>The secrets env file (\<open>cli/secrets.py\<close>, \<open>suite_config.py\<close>)\<close>

text \<open>
  The file of \<open>NAME=value\<close> lines the operator's command line keeps for the daemon's environment:
  reading it, appending to it, replacing and removing a line.  A file is its text, \<open>None\<close> when it
  does not exist.
\<close>

subsection \<open>Reading and editing the file\<close>

definition parse_line :: "string \<Rightarrow> (string \<times> string) option" where
  "parse_line line =
     (let l = strip line in
      if l = [] \<or> startswith l ''#'' then None
      else if CHR ''='' \<in> set l then
        (case partition_on (CHR ''='') l of (k, _, v) \<Rightarrow> Some (strip k, strip v))
      else None)"

definition env_lines :: "string option \<Rightarrow> string list" where
  "env_lines f = (case f of None \<Rightarrow> [] | Some s \<Rightarrow> splitlines s)"

definition env_file_read :: "string option \<Rightarrow> (string \<times> string) list" where
  "env_file_read f =
     fold (\<lambda>line d. case parse_line line of None \<Rightarrow> d | Some (k, v) \<Rightarrow> dset k v d) (env_lines f) []"

definition env_entry :: "string \<Rightarrow> string \<Rightarrow> string" where
  "env_entry name v = name @ ''='' @ v"

definition env_file_append :: "string \<Rightarrow> string \<Rightarrow> string option \<Rightarrow> string option" where
  "env_file_append name v f =
     Some ((case f of None \<Rightarrow> [] | Some s \<Rightarrow> s) @ env_entry name v @ line_feed)"

definition names_var :: "string \<Rightarrow> string \<Rightarrow> bool" where
  "names_var name line = startswith (strip line) (name @ ''='')"

definition env_file_update_line :: "string \<Rightarrow> string \<Rightarrow> string option \<Rightarrow> string option" where
  "env_file_update_line name v f =
     (case f of
        None \<Rightarrow> env_file_append name v None
      | Some s \<Rightarrow>
          (let lines = splitlines s;
               new = map (\<lambda>l. if names_var name l then env_entry name v else l) lines
           in Some (unlines (if list_ex (names_var name) lines then new else new @ [env_entry name v]))))"

definition env_file_remove_line :: "string \<Rightarrow> string option \<Rightarrow> string option" where
  "env_file_remove_line name f =
     (case f of
        None \<Rightarrow> None
      | Some s \<Rightarrow> Some (unlines (filter (\<lambda>l. \<not> names_var name l) (splitlines s))))"

subsection \<open>What is read after an edit\<close>

text \<open>The values the lines give a name, in order; the last one counts.\<close>

definition values_of :: "string \<Rightarrow> string list \<Rightarrow> string list" where
  "values_of k ls = map snd (filter (\<lambda>p. fst p = k) (List.map_filter parse_line ls))"

lemma values_of_simps [simp]:
  "values_of k [] = []"
  "values_of k (l # ls) = (case parse_line l of Some (k', v) \<Rightarrow> if k' = k then [v] else [] | None \<Rightarrow> []) @ values_of k ls"
  "values_of k (ls @ ls') = values_of k ls @ values_of k ls'"
  by (auto simp: values_of_def map_filter_simps List.map_filter_def split: option.split)

definition last_of :: "string list \<Rightarrow> string option" where
  "last_of vs = (if vs = [] then None else Some (last vs))"

lemma env_file_read_lines: "dget (env_file_read f) k = last_of (values_of k (env_lines f))"
proof -
  have "dget (fold (\<lambda>line d. case parse_line line of None \<Rightarrow> d | Some (k, v) \<Rightarrow> dset k v d) ls d) k =
      (if values_of k ls = [] then dget d k else last_of (values_of k ls))" for ls d
  proof (induction ls arbitrary: d)
    case (Cons l ls)
    then show ?case by (auto simp: last_of_def dget_dset split: option.split prod.split)
  qed simp
  then show ?thesis by (simp add: env_file_read_def last_of_def)
qed

text \<open>A name and a value that survive the format: the names and hexadecimal values of the commands do.\<close>

definition clean_name :: "string \<Rightarrow> bool" where
  "clean_name n \<longleftrightarrow> n \<noteq> [] \<and> hd n \<noteq> CHR ''#'' \<and> CHR ''='' \<notin> set n \<and> (\<forall>c \<in> set n. \<not> is_space c)"

definition clean_value :: "string \<Rightarrow> bool" where
  "clean_value v \<longleftrightarrow> strip v = v \<and> no_break v"

lemma break_is_space: "is_line_break c \<Longrightarrow> is_space c"
  by (auto simp: is_line_break_def is_space_def is_ascii_space_def)

lemma strip_no_space: "(\<forall>c \<in> set s. \<not> is_space c) \<Longrightarrow> strip s = s"
proof -
  assume "\<forall>c \<in> set s. \<not> is_space c"
  then have "dropWhile is_space s = s" "dropWhile is_space (rev s) = rev s"
    by (cases s, auto) (cases "rev s", auto dest: arg_cong [of _ _ set])
  then show ?thesis by (simp add: strip_def)
qed

lemma strip_ends: "s \<noteq> [] \<Longrightarrow> \<not> is_space (hd s) \<Longrightarrow> \<not> is_space (last s) \<Longrightarrow> strip s = s"
proof -
  assume s: "s \<noteq> []" "\<not> is_space (hd s)" "\<not> is_space (last s)"
  then have "dropWhile is_space s = s" by (cases s) auto
  moreover have "dropWhile is_space (rev s) = rev s" using s by (cases "rev s") (auto simp: hd_rev [symmetric])
  ultimately show ?thesis by (simp add: strip_def)
qed

lemma strip_last: "strip v = v \<Longrightarrow> v \<noteq> [] \<Longrightarrow> \<not> is_space (last v)"
proof -
  assume v: "strip v = v" "v \<noteq> []"
  then have r: "rev v = dropWhile is_space (rev (dropWhile is_space v))" by (metis strip_def rev_rev_ident)
  with v(2) have "\<not> is_space (hd (rev v))" using hd_dropWhile by (metis rev_is_Nil_conv)
  then show ?thesis by (simp add: hd_rev)
qed

lemma parse_entry:
  assumes "clean_name n" "clean_value v"
  shows "parse_line (env_entry n v) = Some (n, v)"
proof -
  have n: "n \<noteq> []" "\<not> is_space (hd n)" "strip n = n" "CHR ''='' \<notin> set n" "hd n \<noteq> CHR ''#''"
    using assms(1) strip_no_space by (auto simp: clean_name_def)
  have "\<not> is_space (last (n @ ''='' @ v))"
    using assms(2) strip_last [of v] by (cases "v = []") (auto simp: clean_value_def is_space_def is_ascii_space_def)
  then have "strip (env_entry n v) = n @ ''='' @ v"
    unfolding env_entry_def using n by (intro strip_ends) auto
  moreover have "\<not> startswith (n @ ''='' @ v) ''#''" using n(1,5) by (cases n) (auto simp: startswith_def)
  ultimately show ?thesis
    using n partition_on_append [of "CHR ''=''" n v] assms(2) by (simp add: parse_line_def Let_def clean_value_def)
qed

lemma parse_named:
  assumes "clean_name n" "names_var n l"
  shows "\<exists>v. parse_line l = Some (n, v)"
proof -
  obtain rest where rest: "strip l = n @ CHR ''='' # rest"
    using assms(2) unfolding names_var_def startswith_def by (metis append_take_drop_id append.assoc append_Cons append_Nil)
  have n: "n \<noteq> []" "strip n = n" "CHR ''='' \<notin> set n" "hd n \<noteq> CHR ''#''"
    using assms(1) strip_no_space by (auto simp: clean_name_def)
  have "\<not> startswith (n @ CHR ''='' # rest) ''#''" using n(1,4) by (cases n) (auto simp: startswith_def)
  then show ?thesis
    using n partition_on_append [of "CHR ''=''" n rest] by (simp add: parse_line_def rest)
qed

lemma env_lines_unlines:
  "\<forall>l \<in> set ls. no_break l \<Longrightarrow> values_of k (env_lines (Some (unlines ls))) = values_of k ls"
proof (cases "ls = []")
  case True
  have "splitlines (unlines []) = [[]]" by (simp add: unlines_def line_feed_def splitlines.simps(2))
  with True show ?thesis by (simp add: env_lines_def parse_line_def strip_def)
qed (simp add: env_lines_def splitlines_unlines)

lemma clean_entry_no_break: "clean_name n \<Longrightarrow> clean_value v \<Longrightarrow> no_break (env_entry n v)"
proof -
  assume n: "clean_name n" and v: "clean_value v"
  have "no_break n" using n break_is_space unfolding clean_name_def no_break_def by blast
  moreover have "no_break v" "no_break ''=''" using v by (simp_all add: clean_value_def is_line_break_def)
  ultimately show ?thesis by (simp add: env_entry_def)
qed

lemma env_lines_no_break: "l \<in> set (env_lines f) \<Longrightarrow> no_break l"
  by (cases f) (auto simp: env_lines_def splitlines_no_break)

lemma values_of_edited:
  assumes "clean_name n" "clean_value v"
  shows "k \<noteq> n \<Longrightarrow> values_of k (map (\<lambda>l. if names_var n l then env_entry n v else l) ls) = values_of k ls"
    and "k \<noteq> n \<Longrightarrow> values_of k (filter (\<lambda>l. \<not> names_var n l) ls) = values_of k ls"
proof -
  have "values_of k [l] = []" if "k \<noteq> n" "names_var n l" for l
    using parse_named [OF assms(1) that(2)] that(1) by auto
  moreover have "values_of k [env_entry n v] = []" if "k \<noteq> n"
    using parse_entry [OF assms] that by simp
  ultimately show "k \<noteq> n \<Longrightarrow> values_of k (map (\<lambda>l. if names_var n l then env_entry n v else l) ls) = values_of k ls"
    and "k \<noteq> n \<Longrightarrow> values_of k (filter (\<lambda>l. \<not> names_var n l) ls) = values_of k ls"
    by (induction ls) auto
qed

text \<open>Lines that give \<open>n\<close> a value have the form the editing functions look for, without white space
  before the equals sign.\<close>

definition plainly_named :: "string \<Rightarrow> string option \<Rightarrow> bool" where
  "plainly_named n f \<longleftrightarrow>
     (\<forall>l \<in> set (env_lines f). case parse_line l of None \<Rightarrow> True | Some (k, _) \<Rightarrow> k = n \<longrightarrow> names_var n l)"

lemma env_file_entries:
  assumes "clean_name n" and "clean_value v" and "plainly_named n f"
  shows "dget (env_file_read (env_file_update_line n v f)) k = (if k = n then Some v else dget (env_file_read f) k)
    \<and> dget (env_file_read (env_file_remove_line n f)) k = (if k = n then None else dget (env_file_read f) k)
    \<and> (f \<in> {None, Some []} \<or> (\<exists>s. f = Some (s @ line_feed)) \<longrightarrow>
        dget (env_file_read (env_file_append n v f)) k = (if k = n then Some v else dget (env_file_read f) k))"
proof -
  have entry: "values_of k [env_entry n v] = (if k = n then [v] else [])" for k
    using parse_entry [OF assms(1,2)] by simp
  have appended: "dget (env_file_read (env_file_append n v f)) k = (if k = n then Some v else dget (env_file_read f) k)"
    if "f \<in> {None, Some []} \<or> (\<exists>s. f = Some (s @ line_feed))" for f k
  proof -
    have one: "splitlines (env_entry n v @ [CHR 0x0A]) = [env_entry n v]"
      using splitlines_newline [OF clean_entry_no_break [OF assms(1,2)], of "[]"] by simp
    have "splitlines (s @ line_feed @ env_entry n v @ line_feed) = splitlines (s @ line_feed) @ [env_entry n v]" for s
      using splitlines_append [of s "env_entry n v @ [CHR 0x0A]"] one by (simp add: line_feed_def)
    with that one have "env_lines (env_file_append n v f) = env_lines f @ [env_entry n v]"
      by (elim disjE exE) (simp_all add: env_lines_def env_file_append_def line_feed_def, elim disjE, simp_all)
    then show ?thesis using entry [of k] by (auto simp: env_file_read_lines last_of_def)
  qed
  have all: "values_of n (map (\<lambda>l. if names_var n l then env_entry n v else l) ls) = replicate (length (filter (names_var n) ls)) v"
    if "\<forall>l \<in> set ls. \<forall>v. parse_line l = Some (n, v) \<longrightarrow> names_var n l" for ls
    using that parse_entry [OF assms(1,2)] by (induction ls) (auto split: option.split)
  have none: "values_of n (filter (\<lambda>l. \<not> names_var n l) ls) = []"
    if "\<forall>l \<in> set ls. \<forall>v. parse_line l = Some (n, v) \<longrightarrow> names_var n l" for ls
    using that by (induction ls) (auto split: option.split)
  have plain: "\<forall>l \<in> set (env_lines f). \<forall>v. parse_line l = Some (n, v) \<longrightarrow> names_var n l"
    using assms(3) by (auto simp: plainly_named_def)
  have "dget (env_file_read (env_file_update_line n v f)) k = (if k = n then Some v else dget (env_file_read f) k)"
  proof (cases f)
    case None
    then show ?thesis using appended [of None k] by (simp add: env_file_update_line_def)
  next
    case (Some s)
    let ?new = "map (\<lambda>l. if names_var n l then env_entry n v else l) (splitlines s)"
    let ?all = "if list_ex (names_var n) (splitlines s) then ?new else ?new @ [env_entry n v]"
    have "\<forall>l \<in> set ?all. no_break l"
      using clean_entry_no_break [OF assms(1,2)] splitlines_no_break by auto
    then have "dget (env_file_read (env_file_update_line n v f)) k = last_of (values_of k ?all)"
      unfolding env_file_read_lines env_file_update_line_def Some option.case Let_def by (simp only: env_lines_unlines)
    moreover have "values_of k ?all = (if k = n then values_of n ?all else values_of k (splitlines s))"
      using values_of_edited(1) [OF assms(1,2), of k "splitlines s"] entry [of k] by simp
    moreover have "last_of (values_of n ?all) = Some v"
      using all [of "splitlines s"] plain entry [of n]
      by (auto simp: Some env_lines_def last_of_def list_ex_iff filter_empty_conv)
    ultimately show ?thesis by (simp add: env_file_read_lines Some env_lines_def)
  qed
  moreover have "dget (env_file_read (env_file_remove_line n f)) k = (if k = n then None else dget (env_file_read f) k)"
  proof (cases f)
    case None
    then show ?thesis by (simp add: env_file_remove_line_def env_file_read_def env_lines_def)
  next
    case (Some s)
    let ?new = "filter (\<lambda>l. \<not> names_var n l) (splitlines s)"
    have "\<forall>l \<in> set ?new. no_break l" using splitlines_no_break by auto
    then have "dget (env_file_read (env_file_remove_line n f)) k = last_of (values_of k ?new)"
      unfolding env_file_read_lines env_file_remove_line_def Some option.case by (simp only: env_lines_unlines)
    moreover have "values_of n ?new = []" using none plain by (simp add: Some env_lines_def)
    ultimately show ?thesis
      using values_of_edited(2) [OF assms(1,2), of k "splitlines s"]
      by (auto simp: env_file_read_lines Some env_lines_def last_of_def)
  qed
  ultimately show ?thesis using appended by blast
qed

text \<open>An edit of the secrets file does to its entries what its name says.  After an update
  the name reads as the new value, after a removal it is gone, and after an append to a file
  that is empty or ends in a line feed it reads as the appended value; every other name reads as
  before.\<close>

theorem env_file_edits:
  assumes "clean_name n" and "clean_value v" and "plainly_named n f"
  shows "dget (env_file_read (env_file_update_line n v f)) k = (if k = n then Some v else dget (env_file_read f) k)
    \<and> dget (env_file_read (env_file_remove_line n f)) k = (if k = n then None else dget (env_file_read f) k)
    \<and> (f \<in> {None, Some []} \<or> (\<exists>s. f = Some (s @ line_feed)) \<longrightarrow>
        dget (env_file_read (env_file_append n v f)) k = (if k = n then Some v else dget (env_file_read f) k))"
  using assms by (rule env_file_entries)

theorem env_file_edits_witness:
  "dget (env_file_read (env_file_update_line ''A'' ''2'' (Some (''A=1'' @ line_feed @ ''B=3'')))) ''A'' = Some ''2''
   \<and> dget (env_file_read (env_file_remove_line ''A'' (Some (''A=1'' @ line_feed @ ''B=3'')))) ''A'' = None"
proof -
  have n: "clean_name ''A''" "clean_value ''2''" by code_simp+
  have "plainly_named ''A'' (Some (''A=1'' @ line_feed @ ''B=3''))" by code_simp
  from env_file_edits [OF n this, of "''A''"] show ?thesis by simp
qed

text \<open>Appending to a file whose last line is not ended joins the two lines: the new name is not
  there and the old one has a wrong value.\<close>

lemma append_glues:
  "env_file_read (env_file_append ''A'' ''1'' (Some ''B=2'')) = [(''B'', ''2A=1'')]"
  by code_simp

end
