(* ===== verification/Vault.thy ===== *)
theory Vault
  imports Secrets Delivery
begin

section \<open>The Vault backend (\<open>secrets/vault.py\<close>)\<close>

text \<open>
  A \<open>vault://\<close> URI is read through the \<open>hvac\<close> client, which is not under \<open>src/\<close> and is a record of
  functions: \<open>hv_login n\<close> is the \<open>n\<close>-th AppRole login, \<open>hv_read n\<close> the \<open>n\<close>-th call of
  \<open>read_secret_version\<close>.  An exception is an \<open>Auth_failure\<close> when \<open>hvac\<close> raises \<open>Forbidden\<close> or
  \<open>InvalidRequest\<close>.  The backend keeps its client between fetches; the state also counts the
  logins and reads made so far.
\<close>

datatype vault_error = Auth_failure exn | Other_failure exn

fun vault_exn :: "vault_error \<Rightarrow> exn" where
  "vault_exn (Auth_failure e) = e"
| "vault_exn (Other_failure e) = e"

definition is_auth_error :: "vault_error \<Rightarrow> bool" where
  "is_auth_error e \<longleftrightarrow> (case e of Auth_failure _ \<Rightarrow> True | Other_failure _ \<Rightarrow> False)"

text \<open>The block \<open>vault\<close> of the configuration, and \<open>hvac\<close> with the file of the secret id.\<close>

record vault_cfg =
  vc_addr :: string
  vc_namespace :: "string option"
  vc_role_id :: string
  vc_secret_id_file :: string

record 'c hvac =
  hv_file :: "nat \<Rightarrow> string \<Rightarrow> string res"
  hv_login :: "nat \<Rightarrow> string \<Rightarrow> string option \<Rightarrow> string \<Rightarrow> string \<Rightarrow> vault_error + 'c"
  hv_authenticated :: "'c \<Rightarrow> bool"
  hv_read :: "nat \<Rightarrow> 'c \<Rightarrow> string \<Rightarrow> string \<Rightarrow> vault_error + dict"

record 'c vault =
  v_client :: "'c option"
  v_logins :: nat
  v_reads :: nat

definition vault_login :: "'c hvac \<Rightarrow> vault_cfg \<Rightarrow> nat \<Rightarrow> vault_error + 'c" where
  "vault_login H cfg n =
     (case hv_file H n (vc_secret_id_file cfg) of
        Inl e \<Rightarrow> Inl (Other_failure e)
      | Inr content \<Rightarrow>
          (case hv_login H n (vc_addr cfg) (vc_namespace cfg) (vc_role_id cfg) (strip content) of
             Inl e \<Rightarrow> Inl e
           | Inr c \<Rightarrow>
               if hv_authenticated H c then Inr c else Inl (Other_failure (OtherError ''RuntimeError''))))"

definition ensure_client :: "'c hvac \<Rightarrow> vault_cfg \<Rightarrow> 'c vault \<Rightarrow> (vault_error + 'c) \<times> 'c vault" where
  "ensure_client H cfg V =
     (case v_client V of
        Some c \<Rightarrow> (Inr c, V)
      | None \<Rightarrow>
          (case vault_login H cfg (v_logins V) of
             Inl e \<Rightarrow> (Inl e, V\<lparr>v_logins := Suc (v_logins V)\<rparr>)
           | Inr c \<Rightarrow> (Inr c, V\<lparr>v_client := Some c, v_logins := Suc (v_logins V)\<rparr>)))"

text \<open>The mount, the path below it and the field a URI names.\<close>

definition kv_ref :: "string \<Rightarrow> (string \<times> string \<times> string) res" where
  "kv_ref uri =
     (case urlparse uri of
        Inl e \<Rightarrow> Inl e
      | Inr u \<Rightarrow>
          (let kv_path = dropWhile (\<lambda>c. c = CHR ''/'') (u_netloc u @ u_path u);
               key = fst (split_at (CHR ''?'') (u_fragment u))
           in if key = [] then Inl (ValueError ''vault:// URI is missing a fragment (#key)'')
              else (case split_at (CHR ''/'') kv_path of
                      (mount, rest) \<Rightarrow> Inr (mount, (case rest of None \<Rightarrow> [] | Some p \<Rightarrow> p), key))))"

definition secret_bytes :: "pyval \<Rightarrow> bytes" where
  "secret_bytes v = (case v of VBytes b \<Rightarrow> b | _ \<Rightarrow> utf8 (py_str v))"

definition read_kv :: "'c hvac \<Rightarrow> 'c \<Rightarrow> string \<Rightarrow> 'c vault \<Rightarrow> (vault_error + bytes) \<times> 'c vault" where
  "read_kv H c uri V =
     (case kv_ref uri of
        Inl e \<Rightarrow> (Inl (Other_failure e), V)
      | Inr (mount, path, key) \<Rightarrow>
          (case hv_read H (v_reads V) c path mount of
             Inl e \<Rightarrow> Inl e
           | Inr data \<Rightarrow>
               (case dget data key of
                  None \<Rightarrow> Inl (Other_failure (KeyError key)) | Some v \<Rightarrow> Inr (secret_bytes v)),
           V\<lparr>v_reads := Suc (v_reads V)\<rparr>))"

definition sync_fetch :: "'c hvac \<Rightarrow> vault_cfg \<Rightarrow> string \<Rightarrow> 'c vault \<Rightarrow> bytes res \<times> 'c vault" where
  "sync_fetch H cfg uri V =
     (case ensure_client H cfg V of
        (Inl e, V1) \<Rightarrow> (Inl (vault_exn e), V1)
      | (Inr c, V1) \<Rightarrow>
          (case read_kv H c uri V1 of
             (Inr b, V2) \<Rightarrow> (Inr b, V2)
           | (Inl e, V2) \<Rightarrow>
               if is_auth_error e then
                 (case ensure_client H cfg (V2\<lparr>v_client := None\<rparr>) of
                    (Inl e', V3) \<Rightarrow> (Inl (vault_exn e'), V3)
                  | (Inr c', V3) \<Rightarrow>
                      (case read_kv H c' uri V3 of (r, Vd) \<Rightarrow> (map_sum vault_exn id r, Vd)))
               else (Inl (vault_exn e), V2)))"

subsection \<open>What a fetch promises\<close>

lemma ensure_client_counts:
  "ensure_client H cfg V = (r, V') \<Longrightarrow> v_reads V' = v_reads V
     \<and> v_logins V' = v_logins V + (if v_client V = None then 1 else 0)
     \<and> (v_client V \<noteq> None \<longrightarrow> V' = V)
     \<and> (case r of Inl _ \<Rightarrow> v_client V' = None \<and> v_client V = None | Inr c \<Rightarrow> v_client V' = Some c)"
  by (auto simp: ensure_client_def split: option.splits sum.splits)

lemma read_kv_counts:
  "read_kv H c uri V = (r, V') \<Longrightarrow>
     v_reads V' \<le> Suc (v_reads V) \<and> v_logins V' = v_logins V \<and> v_client V' = v_client V"
  by (auto simp: read_kv_def split: sum.splits prod.splits)

text \<open>A fetch logs in again at most once, and only because the token it held was refused; it reads
  at most twice.  A failed login leaves no client behind, so the next fetch logs in.\<close>

theorem fetch_relogs_once:
  assumes "sync_fetch H cfg uri V = (r, V')"
  shows "v_reads V' \<le> v_reads V + 2 \<and> v_logins V' \<le> v_logins V + (if v_client V = None then 2 else 1)
    \<and> (v_client V' = None \<longrightarrow> (\<exists>e. r = Inl e))
    \<and> (v_logins V' = v_logins V \<and> v_client V \<noteq> None \<longrightarrow> v_client V' = v_client V)"
proof -
  obtain rc V1 where e1: "ensure_client H cfg V = (rc, V1)" by fastforce
  note c1 = ensure_client_counts [OF e1]
  show ?thesis
  proof (cases rc)
    case (Inl e)
    with assms e1 c1 show ?thesis by (auto simp: sync_fetch_def)
  next
    case (Inr c)
    obtain rr V2 where k1: "read_kv H c uri V1 = (rr, V2)" by fastforce
    note c2 = read_kv_counts [OF k1]
    show ?thesis
    proof (cases "\<exists>e. rr = Inl e \<and> is_auth_error e")
      case False
      with assms e1 k1 Inr have "V' = V2" "(\<exists>b. r = Inr b) \<or> (\<exists>e. r = Inl e)"
        by (auto simp: sync_fetch_def split: sum.splits)
      with c1 c2 Inr show ?thesis by (auto split: if_splits)
    next
      case True
      then obtain e where e: "rr = Inl e" "is_auth_error e" by blast
      obtain rc2 V3 where e2: "ensure_client H cfg (V2\<lparr>v_client := None\<rparr>) = (rc2, V3)" by fastforce
      note c3 = ensure_client_counts [OF e2]
      show ?thesis
      proof (cases rc2)
        case (Inl e')
        with assms e1 k1 Inr e e2 c1 c2 c3 show ?thesis by (auto simp: sync_fetch_def split: if_splits)
      next
        case (Inr c')
        obtain r4 Vd where k2: "read_kv H c' uri V3 = (r4, Vd)" by fastforce
        note c4 = read_kv_counts [OF k2]
        have "V' = Vd" using assms e1 k1 \<open>rc = Inr c\<close> e e2 Inr k2 by (simp add: sync_fetch_def)
        with c1 c2 c3 c4 Inr \<open>rc = Inr c\<close> show ?thesis by (auto split: if_splits)
      qed
    qed
  qed
qed

text \<open>The documented grammar writes the API path, mount \<open>/data/\<close> path; the code hands everything
  below the mount to \<open>read_secret_version\<close>, which inserts \<open>data\<close> itself.\<close>

lemma documented_uri_path:
  "kv_ref ''vault://secret/data/foo#current?ttl=15m'' = Inr (''secret'', ''data/foo'', ''current'')"
  by code_simp

end
