(* ===== verification/Secrets_Cli.thy ===== *)
theory Secrets_Cli
  imports Env_File Config_Props Vault "HOL-Library.List_Lexorder" "HOL-Library.Char_ord"
begin

section \<open>The operator's secrets commands (\<open>cli/secrets.py\<close>)\<close>

text \<open>
  \<open>agent-wake secrets list|add|rotate|remove\<close> edit three things: the config file, the secrets env
  file and the key-value store of Vault.  They are the \<open>world\<close> of a command, which is a function
  from it to its exit code (or the exception that leaves it), the lines it prints and the world it
  leaves.  \<open>hex\<close> is the generated secret, in hexadecimal; \<open>pids\<close> what \<open>pgrep\<close> gives (\<open>None\<close> when
  running it raises).  A vault write replaces what the path holds (\<open>create_or_update_secret\<close>), or
  fails with the text of its exception.  A config entry that is not an object where the code
  expects one raises here; Python's \<open>in\<close> on a string or a list would go on.  A long dash in a
  message is written \<open>-\<close>.
\<close>

datatype said = Out string | Err string | Err_invalid string | Hup "nat list"

text \<open>A command ends with an exit code, a \<open>ConfigError\<close> (of \<open>_load_raw_config\<close>) or another exception.\<close>

datatype ended = Exit int | Config_missing | Raised_error exn

record secrets_world =
  sw_config :: config_file
  sw_env :: "string option"
  sw_vault :: "(string \<times> string) \<Rightarrow> dict option"

record secrets_ports =
  sp_dns :: "string \<Rightarrow> string list res"
  sp_env_path :: string
  sp_vault_write :: "string \<Rightarrow> string \<Rightarrow> string \<Rightarrow> string option"
  sp_pids :: "nat list option"

type_synonym run = "ended \<times> said list \<times> secrets_world"

subsection \<open>Helpers\<close>

definition save_raw_config ::
  "secrets_ports \<Rightarrow> dict \<Rightarrow> said list \<Rightarrow> secrets_world \<Rightarrow> run" where
  "save_raw_config P data done_lines W =
     (case load_config (sp_dns P) (Json (VDict data)) of
        Inr _ \<Rightarrow> (Exit 0, done_lines, W\<lparr>sw_config := Json (VDict data)\<rparr>)
      | Inl (Config_error e) \<Rightarrow> (Exit 1, [Err_invalid e], W)
      | Inl (Crash e) \<Rightarrow> (Raised_error e, [], W))"

definition with_raw_config :: "secrets_world \<Rightarrow> (dict \<Rightarrow> run) \<Rightarrow> run" where
  "with_raw_config W k =
     (case sw_config W of
        Absent \<Rightarrow> (Config_missing, [], W)
      | Not_json \<Rightarrow> (Raised_error (ValueError ''JSONDecodeError''), [], W)
      | Unreadable e \<Rightarrow> (Raised_error e, [], W)
      | Json (VDict raw) \<Rightarrow> k raw
      | Json _ \<Rightarrow> (Raised_error AttributeError, [], W))"

definition sighup_daemon :: "nat list option \<Rightarrow> said list" where
  "sighup_daemon pids =
     (case pids of
        None \<Rightarrow> [Err ''Note: could not send SIGHUP to daemon'']
      | Some [] \<Rightarrow> []
      | Some ps \<Rightarrow> [Hup ps, Out (''Sent SIGHUP to agent-waked (pid '' @ join '', '' (map nat_str ps) @ '').'')])"

definition source_to_uris :: "dict \<Rightarrow> pyval list res" where
  "source_to_uris info =
     (case dget info ''secret_env'' of
        Some v \<Rightarrow> Inr [VStr (''env://'' @ py_str v)]
      | None \<Rightarrow>
          (case dget info ''secret'' of
             Some v \<Rightarrow> Inr [v]
           | None \<Rightarrow>
               (case dget info ''secrets'' of
                  None \<Rightarrow> Inr []
                | Some v \<Rightarrow> (case py_iter v of None \<Rightarrow> Inl TypeError | Some vs \<Rightarrow> Inr vs))))"

definition str_startswith :: "pyval \<Rightarrow> string \<Rightarrow> bool res" where
  "str_startswith v p = (case v of VStr s \<Rightarrow> Inr (startswith s p) | _ \<Rightarrow> Inl AttributeError)"

text \<open>The sources of the raw file, when they are an object, and one entry of them.\<close>

definition raw_sources :: "dict \<Rightarrow> dict option" where
  "raw_sources raw = (case dget raw ''sources'' of None \<Rightarrow> Some [] | Some (VDict d) \<Rightarrow> Some d | _ \<Rightarrow> None)"

definition var_base :: "string \<Rightarrow> string" where
  "var_base source =
     ''AGENT_WAKE_'' @ map (\<lambda>c. if c = CHR ''-'' then CHR ''_'' else c) (py_upper source) @ ''_SECRET''"

subsection \<open>\<open>list\<close>\<close>

definition backend_name :: "pyval list \<Rightarrow> string res" where
  "backend_name uris =
     (case uris of
        [] \<Rightarrow> Inr ''vault''
      | u # _ \<Rightarrow> (case str_startswith u ''env://'' of
                    Inl e \<Rightarrow> Inl e | Inr b \<Rightarrow> Inr (if b then ''env'' else ''vault'')))"

text \<open>A row: the source, its backend and its URIs; no secret is read.\<close>

definition summary_row :: "string \<times> dict \<Rightarrow> (string \<times> string \<times> pyval list) res" where
  "summary_row p =
     (case p of (name, info) \<Rightarrow>
        (case dget info ''secret_env'' of
           Some v \<Rightarrow> Inr (name, ''env'', [VStr (''env://'' @ py_str v)])
         | None \<Rightarrow>
             (case dget info ''secret'' of
                Some v \<Rightarrow> map_sum id (\<lambda>b. (name, b, [v])) (backend_name [v])
              | None \<Rightarrow>
                  (case dget info ''secrets'' of
                     None \<Rightarrow> Inr (name, ''unknown'', [])
                   | Some v \<Rightarrow>
                       (case v of
                          VList us \<Rightarrow> map_sum id (\<lambda>b. (name, b, us)) (backend_name us)
                        | _ \<Rightarrow> Inl TypeError)))))"

fun rows_of :: "('a \<Rightarrow> 'b res) \<Rightarrow> 'a list \<Rightarrow> 'b list res" where
  "rows_of f [] = Inr []"
| "rows_of f (x # xs) =
     (case f x of Inl e \<Rightarrow> Inl e | Inr y \<Rightarrow> map_sum id (Cons y) (rows_of f xs))"

definition summarize_sources :: "dict \<Rightarrow> (string \<times> string \<times> pyval list) list res" where
  "summarize_sources sources =
     rows_of summary_row (map (\<lambda>(n, v). (n, dict_items v))
       (filter (\<lambda>(_, v). is_dict v) (sort_key fst sources)))"

definition row_line :: "string \<times> string \<times> pyval list \<Rightarrow> string" where
  "row_line row =
     (case row of (name, backend, uris) \<Rightarrow>
        ljust 20 name @ ''  '' @ ljust 8 backend @ ''  '' @ ljust 10 (nat_str (length uris)) @ ''  ''
        @ join '', '' (map py_str (take 2 uris))
        @ (if 2 < length uris then '' (+'' @ nat_str (length uris - 2) @ '' more)'' else []))"

definition row_doc :: "string \<times> string \<times> pyval list \<Rightarrow> pyval" where
  "row_doc row =
     (case row of (name, backend, uris) \<Rightarrow>
        VDict [(''source'', VStr name), (''backend'', VStr backend), (''n_secrets'', VInt (int (length uris))),
               (''secret_uris'', VList uris)])"

text \<open>\<open>pretty\<close> is \<open>json.dumps(..., indent=2)\<close>.\<close>

definition cmd_list :: "(pyval \<Rightarrow> string) \<Rightarrow> bool \<Rightarrow> secrets_world \<Rightarrow> run" where
  "cmd_list pretty use_json W =
     with_raw_config W (\<lambda>raw.
       case raw_sources raw of
         None \<Rightarrow>
           if use_json \<or> truthy_opt (dget raw ''sources'') then (Raised_error AttributeError, [], W)
           else (Exit 0, [Out ''No sources configured.''], W)
       | Some sources \<Rightarrow>
           (case summarize_sources sources of
              Inl e \<Rightarrow> (Raised_error e, [], W)
            | Inr rows \<Rightarrow>
                (Exit 0,
                 if use_json then
                   [Out (pretty (VDict [(''ok'', VBool True), (''sources'', VList (map row_doc rows))]))]
                 else if sources = [] then [Out ''No sources configured.'']
                 else [Out (ljust 20 ''SOURCE'' @ ''  '' @ ljust 8 ''BACKEND'' @ ''  '' @ ljust 10 ''N_SECRETS'' @ ''  SECRET_URIS''),
                       Out (replicate 70 CHR ''-'')] @ map (\<lambda>r. Out (row_line r)) rows,
                 W)))"

subsection \<open>\<open>add\<close>\<close>

datatype backend = Env_backend "string option" | Vault_backend "string option" string

definition store_lines :: "string \<Rightarrow> said list" where
  "store_lines hex =
     [Out [], Out ''Store this secret value - it will not be shown again:'', Out (''  '' @ hex), Out [],
      Out ''Give this value to the sender of wake events for this source.'']"

definition vault_target :: "string \<Rightarrow> string \<times> string" where
  "vault_target path = (case split_at (CHR ''/'') path of (m, None) \<Rightarrow> (m, []) | (m, Some p) \<Rightarrow> (m, p))"

definition vault_write :: "secrets_ports \<Rightarrow> string \<Rightarrow> string \<Rightarrow> string \<Rightarrow> secrets_world \<Rightarrow> string + secrets_world" where
  "vault_write P path key v W =
     (case sp_vault_write P path key v of
        Some err \<Rightarrow> Inl err
      | None \<Rightarrow> Inr (W\<lparr>sw_vault := (sw_vault W)(vault_target path \<mapsto> [(key, VStr v)])\<rparr>))"

definition set_source :: "dict \<Rightarrow> dict \<Rightarrow> string \<Rightarrow> dict \<Rightarrow> dict" where
  "set_source raw sources source info = dset ''sources'' (VDict (dset source (VDict info) sources)) raw"

definition cmd_add :: "secrets_ports \<Rightarrow> string \<Rightarrow> backend \<Rightarrow> string \<Rightarrow> secrets_world \<Rightarrow> run" where
  "cmd_add P source b hex W =
     with_raw_config W (\<lambda>raw.
       case raw_sources raw of
         None \<Rightarrow> (Raised_error TypeError, [], W)
       | Some sources \<Rightarrow>
           if has_key sources source then
             (Exit 1, [Err (''Error: source '' @ repr_str source
                @ '' already exists. Use 'agent-wake secrets rotate' to add a new secret.'')], W)
           else
             (case b of
                Env_backend name \<Rightarrow>
                  (let var = (case name of Some (c # n) \<Rightarrow> c # n | _ \<Rightarrow> var_base source) in
                   if has_key (env_file_read (sw_env W)) var then
                     (Exit 1, [Err (''Error: env var '' @ repr_str var @ '' already exists in '' @ sp_env_path P
                        @ ''. Remove it first or use --name to pick a different var name.'')], W)
                   else
                     save_raw_config P (set_source raw sources source [(''secret'', VStr (''env://'' @ var))])
                       ([Out (''Secret added for source '' @ repr_str source @ ''.''), Out ''  Backend : env'',
                         Out (''  Env var : '' @ var), Out (''  Env file: '' @ sp_env_path P)] @ store_lines hex)
                       (W\<lparr>sw_env := env_file_append var hex (sw_env W)\<rparr>))
              | Vault_backend path key \<Rightarrow>
                  (case path of
                     Some (c # p) \<Rightarrow>
                       if \<not> truthy_opt (dget raw ''vault'') then
                         (Exit 1, [Err (''Error: 'vault' config block is required for --backend vault. ''
                            @ ''Add it to config.json first.'')], W)
                       else
                         (case vault_write P (c # p) key hex W of
                            Inl err \<Rightarrow> (Exit 1, [Err (''Error writing to Vault: '' @ err)], W)
                          | Inr W' \<Rightarrow>
                              save_raw_config P
                                (set_source raw sources source [(''secret'', VStr (''vault://'' @ c # p @ ''#'' @ key))])
                                ([Out (''Secret added for source '' @ repr_str source @ ''.''), Out ''  Backend   : vault'',
                                  Out (''  Vault path: '' @ c # p), Out (''  Field     : '' @ key)] @ store_lines hex) W')
                   | _ \<Rightarrow> (Exit 1, [Err ''Error: --path is required for --backend vault''], W))))"

subsection \<open>\<open>rotate\<close>\<close>

definition candidate :: "string \<Rightarrow> nat \<Rightarrow> string" where
  "candidate base n = (if n = 0 then base else base @ ''_'' @ nat_str n)"

lemma inj_candidate: "inj (candidate base)"
proof (rule injI)
  have "nat_str m = nat_str n \<Longrightarrow> m = n" for m n
    by (metis digits_value_nat_str option.inject)
  then show "candidate base m = candidate base n \<Longrightarrow> m = n" for m n
    by (auto simp: candidate_def split: if_splits)
qed

text \<open>The loop that looks for a name the env file does not have yet; \<open>taken\<close> are the names from \<open>n\<close> on
  that it has, of which there are finitely many.\<close>

definition taken :: "(string \<times> string) list \<Rightarrow> string \<Rightarrow> nat \<Rightarrow> nat set" where
  "taken env base n = {m. n \<le> m \<and> has_key env (candidate base m)}"

lemma finite_taken: "finite (taken env base n)"
proof -
  have "candidate base ` taken env base n \<subseteq> fst ` set env" by (auto simp: taken_def has_key_iff)
  then have "finite (candidate base ` taken env base n)" by (rule finite_subset) simp
  then show ?thesis using inj_candidate by (metis finite_imageD inj_on_subset subset_UNIV)
qed

lemma taken_Suc: "has_key env (candidate base n) \<Longrightarrow> card (taken env base (Suc n)) < card (taken env base n)"
proof (rule psubset_card_mono [OF finite_taken])
  assume "has_key env (candidate base n)"
  then have "n \<in> taken env base n" "n \<notin> taken env base (Suc n)" by (simp_all add: taken_def)
  moreover have "taken env base (Suc n) \<subseteq> taken env base n" by (auto simp: taken_def)
  ultimately show "taken env base (Suc n) \<subset> taken env base n" by blast
qed

function fresh_name :: "(string \<times> string) list \<Rightarrow> string \<Rightarrow> nat \<Rightarrow> string" where
  "fresh_name env base n =
     (if has_key env (candidate base n) then fresh_name env base (Suc n) else candidate base n)"
  by pat_completeness auto
termination by (relation "measure (\<lambda>(env, base, n). card (taken env base n))") (simp_all add: taken_Suc)

declare fresh_name.simps [simp del]

definition rotated_info :: "dict \<Rightarrow> pyval list \<Rightarrow> dict" where
  "rotated_info info uris =
     filter (\<lambda>(k, _). k \<notin> {''secret'', ''secret_env'', ''secrets''}) info @ [(''secrets'', VList uris)]"

text \<open>The end of a rotation, with the new URI in front and one previous one.\<close>

definition finish_rotation ::
  "secrets_ports \<Rightarrow> string \<Rightarrow> dict \<Rightarrow> dict \<Rightarrow> dict \<Rightarrow> string \<Rightarrow> pyval \<Rightarrow> string \<Rightarrow> secrets_world \<Rightarrow> run" where
  "finish_rotation P source raw sources info new_uri first hex W =
     save_raw_config P (set_source raw sources source (rotated_info info [VStr new_uri, first]))
       ([Out (''Secret rotated for source '' @ repr_str source @ ''.''), Out (''  Current URI : '' @ new_uri),
         Out (''  Previous URI: '' @ py_str first), Out [],
         Out ''Store this new secret value - it will not be shown again:'', Out (''  '' @ hex), Out [],
         Out ''Give this value to the sender of wake events for this source.'',
         Out ''The previous secret remains valid until the next rotation.'']
        @ sighup_daemon (sp_pids P)) W"

definition rotate_uri ::
  "secrets_ports \<Rightarrow> string \<Rightarrow> dict \<Rightarrow> dict \<Rightarrow> dict \<Rightarrow> string \<Rightarrow> string \<Rightarrow> secrets_world \<Rightarrow> run" where
  "rotate_uri P source raw sources info first hex W =
     (if startswith first ''env://'' then
        (let var = fresh_name (env_file_read (sw_env W)) (var_base source @ ''_NEW'') 0
         in finish_rotation P source raw sources info (''env://'' @ var) (VStr first) hex
              (W\<lparr>sw_env := env_file_append var hex (sw_env W)\<rparr>))
      else if startswith first ''vault://'' then
        (case urlparse first of
           Inl e \<Rightarrow> (Raised_error e, [], W)
         | Inr u \<Rightarrow>
             (let path = dropWhile (\<lambda>c. c = CHR ''/'') (u_netloc u @ u_path u);
                  key = fst (split_at (CHR ''?'') (u_fragment u))
              in if \<not> truthy_opt (dget raw ''vault'') then
                   (Exit 1, [Err ''Error: 'vault' config block missing.''], W)
                 else
                   (case vault_write P path key hex W of
                      Inl err \<Rightarrow> (Exit 1, [Err (''Error writing to Vault: '' @ err)], W)
                    | Inr W' \<Rightarrow> finish_rotation P source raw sources info first (VStr first) hex W')))
      else
        (Exit 1, [Err (''Error: don't know how to rotate backend for URI '' @ repr_str first @ ''.'')], W))"

definition cmd_rotate :: "secrets_ports \<Rightarrow> string \<Rightarrow> string \<Rightarrow> secrets_world \<Rightarrow> run" where
  "cmd_rotate P source hex W =
     with_raw_config W (\<lambda>raw.
       case raw_sources raw of
         None \<Rightarrow> (Raised_error TypeError, [], W)
       | Some sources \<Rightarrow>
           (case dget sources source of
              None \<Rightarrow> (Exit 1, [Err (''Error: source '' @ repr_str source @ '' not found in config.'')], W)
            | Some (VDict info) \<Rightarrow>
                (case source_to_uris info of
                   Inl e \<Rightarrow> (Raised_error e, [], W)
                 | Inr [] \<Rightarrow>
                     (Exit 1, [Err (''Error: source '' @ repr_str source
                        @ '' has no resolvable URI (backend unsupported for rotate).'')], W)
                 | Inr (VStr first # _) \<Rightarrow> rotate_uri P source raw sources info first hex W
                 | Inr _ \<Rightarrow> (Raised_error AttributeError, [], W))
            | Some _ \<Rightarrow> (Raised_error TypeError, [], W)))"

subsection \<open>\<open>remove\<close>\<close>

text \<open>The loop over the URIs: the lines of the variables go one by one.\<close>

fun remove_env_lines :: "pyval list \<Rightarrow> string option \<Rightarrow> exn option \<times> string option" where
  "remove_env_lines [] f = (None, f)"
| "remove_env_lines (VStr uri # uris) f =
     (if startswith uri ''env://'' then
        (case urlparse uri of
           Inl e \<Rightarrow> (Some e, f)
         | Inr u \<Rightarrow>
             remove_env_lines uris (if u_netloc u = [] then f else env_file_remove_line (u_netloc u) f))
      else remove_env_lines uris f)"
| "remove_env_lines (_ # uris) f = (Some AttributeError, f)"

definition without_source :: "dict \<Rightarrow> dict \<Rightarrow> string \<Rightarrow> dict res" where
  "without_source raw sources source =
     (let raw' = dset ''sources'' (VDict (dpop source sources)) raw in
      case dget raw ''routing'' of
        None \<Rightarrow> Inr raw'
      | Some (VDict routing) \<Rightarrow> Inr (dset ''routing'' (VDict (dpop source routing)) raw')
      | Some (VList _) \<Rightarrow> Inl TypeError
      | Some _ \<Rightarrow> Inl AttributeError)"

definition cmd_remove :: "secrets_ports \<Rightarrow> string \<Rightarrow> secrets_world \<Rightarrow> run" where
  "cmd_remove P source W =
     with_raw_config W (\<lambda>raw.
       case raw_sources raw of
         None \<Rightarrow> (Raised_error TypeError, [], W)
       | Some sources \<Rightarrow>
           (case dget sources source of
              None \<Rightarrow> (Exit 1, [Err (''Error: source '' @ repr_str source @ '' not found in config.'')], W)
            | Some (VDict info) \<Rightarrow>
                (case source_to_uris info of
                   Inl e \<Rightarrow> (Raised_error e, [], W)
                 | Inr uris \<Rightarrow>
                     (case remove_env_lines uris (sw_env W) of
                        (Some e, f) \<Rightarrow> (Raised_error e, [], W\<lparr>sw_env := f\<rparr>)
                      | (None, f) \<Rightarrow>
                          (case without_source raw sources source of
                             Inl e \<Rightarrow> (Raised_error e, [], W\<lparr>sw_env := f\<rparr>)
                           | Inr raw' \<Rightarrow>
                               save_raw_config P raw'
                                 [Out (''Source '' @ repr_str source @ '' removed from config.'')]
                                 (W\<lparr>sw_env := f\<rparr>))))
            | Some _ \<Rightarrow> (Raised_error TypeError, [], W)))"

end
