(* ===== verification/Secrets_Cli_Props.thy ===== *)
theory Secrets_Cli_Props
  imports Secrets_Cli Lifecycle
begin

section \<open>What the secrets commands promise\<close>

text \<open>
  The config file a command writes loads again and differs in one source only; a rotation picks a
  fresh variable and keeps both secrets readable.  Where a command leaves the world half done is
  stated too.
\<close>

subsection \<open>The config file\<close>

datatype secrets_command =
    Secrets_list bool | Secrets_add string backend | Secrets_rotate string | Secrets_remove string

fun run_secrets :: "secrets_ports \<Rightarrow> (pyval \<Rightarrow> string) \<Rightarrow> string \<Rightarrow> secrets_command \<Rightarrow> secrets_world \<Rightarrow> run" where
  "run_secrets P pretty hex (Secrets_list j) W = cmd_list pretty j W"
| "run_secrets P pretty hex (Secrets_add s b) W = cmd_add P s b hex W"
| "run_secrets P pretty hex (Secrets_rotate s) W = cmd_rotate P s hex W"
| "run_secrets P pretty hex (Secrets_remove s) W = cmd_remove P s W"

fun about_source :: "secrets_command \<Rightarrow> string option" where
  "about_source (Secrets_list _) = None"
| "about_source (Secrets_add s _) = Some s"
| "about_source (Secrets_rotate s) = Some s"
| "about_source (Secrets_remove s) = Some s"

definition source_entry :: "dict \<Rightarrow> string \<Rightarrow> pyval option" where
  "source_entry raw s = dget (dict_items (getv raw ''sources'')) s"

definition routing_entry :: "dict \<Rightarrow> string \<Rightarrow> pyval option" where
  "routing_entry raw s = dget (dict_items (getv raw ''routing'')) s"

definition is_removal :: "secrets_command \<Rightarrow> bool" where
  "is_removal c = (case c of Secrets_remove _ \<Rightarrow> True | _ \<Rightarrow> False)"

text \<open>Two raw files that differ in one source only.  Added or rotated, it has an entry and the routing is the
  same; removed, it is gone from the sources and from the routing, and all other routing entries stay.\<close>

definition same_but_source :: "bool \<Rightarrow> string \<Rightarrow> dict \<Rightarrow> dict \<Rightarrow> bool" where
  "same_but_source removed s raw raw' \<longleftrightarrow>
     (\<forall>t. t \<noteq> s \<longrightarrow> source_entry raw' t = source_entry raw t)
     \<and> (if removed
        then source_entry raw' s = None \<and> has_key raw' ''routing'' = has_key raw ''routing''
          \<and> (\<forall>t. routing_entry raw' t = (if t = s then None else routing_entry raw t))
        else (\<exists>info. source_entry raw' s = Some (VDict info)) \<and> dget raw' ''routing'' = dget raw ''routing'')
     \<and> (\<forall>k. k \<notin> {''sources'', ''routing''} \<longrightarrow> dget raw' k = dget raw k)"

definition config_kept :: "secrets_ports \<Rightarrow> bool \<Rightarrow> string option \<Rightarrow> secrets_world \<Rightarrow> run \<Rightarrow> bool" where
  "config_kept P rm s W r \<longleftrightarrow>
     (case r of (e, _, W') \<Rightarrow>
        sw_config W' = sw_config W
        \<or> e = Exit 0 \<and> (\<exists>t raw raw' cfg. s = Some t \<and> sw_config W = Json (VDict raw) \<and> sw_config W' = Json (VDict raw')
             \<and> load_config (sp_dns P) (sw_config W') = Inr cfg \<and> same_but_source rm t raw raw'))"

lemma config_kept_same [simp]:
  "config_kept P rm s W (e, out', W)"
  "config_kept P rm s W (e, out', W\<lparr>sw_env := f\<rparr>)"
  by (simp_all add: config_kept_def)

lemma config_kept_save:
  assumes "sw_config W = Json (VDict raw)" "sw_config W0 = sw_config W" "same_but_source rm s raw data"
  shows "config_kept P rm (Some s) W (save_raw_config P data out' W0)"
  using assms by (auto simp: config_kept_def save_raw_config_def split: sum.split refusal.split)

lemma raw_sources_entry: "raw_sources raw = Some d \<Longrightarrow> source_entry raw s = dget d s"
  by (auto simp: raw_sources_def source_entry_def getv_def opt_val_def split: option.splits pyval.splits)

lemma same_but_set:
  "raw_sources raw = Some d \<Longrightarrow> same_but_source False s raw (set_source raw d s info)"
  by (auto simp: same_but_source_def set_source_def dget_dset raw_sources_entry source_entry_def [of "dset _ _ _"]
      getv_def opt_val_def)

lemma same_but_without:
  assumes "raw_sources raw = Some d" "without_source raw d s = Inr raw'"
  shows "same_but_source True s raw raw'"
proof -
  have f: "dget raw' ''sources'' = Some (VDict (dpop s d)) \<and> (\<forall>k. k \<notin> {''sources'', ''routing''} \<longrightarrow> dget raw' k = dget raw k)
    \<and> has_key raw' ''routing'' = has_key raw ''routing''"
    using assms(2) by (auto simp: without_source_def Let_def dget_dset has_key_def split: option.splits pyval.splits)
  moreover have "routing_entry raw' t = (if t = s then None else routing_entry raw t)" for t
    using assms(2)
    by (auto simp: without_source_def Let_def dget_dset routing_entry_def getv_def opt_val_def dget_dpop
        split: option.splits pyval.splits)
  ultimately show ?thesis
    by (simp add: same_but_source_def raw_sources_entry [OF assms(1)] source_entry_def [of raw'] getv_def opt_val_def dget_dpop)
qed

lemma config_kept_raw:
  assumes "\<And>raw. sw_config W = Json (VDict raw) \<Longrightarrow> config_kept P rm s W (k raw)"
  shows "config_kept P rm s W (with_raw_config W k)"
  using assms by (simp add: with_raw_config_def split: config_file.split pyval.split)

lemma vault_write_config: "vault_write P path key v W = Inr W' \<Longrightarrow> sw_config W' = sw_config W \<and> sw_env W' = sw_env W"
  by (auto simp: vault_write_def split: option.splits)

lemma set_kept:
  assumes "sw_config W = Json (VDict raw)" "raw_sources raw = Some d" "sw_config W0 = sw_config W"
  shows "config_kept P False (Some s) W (save_raw_config P (set_source raw d s info) out' W0)"
  by (rule config_kept_save [OF assms(1,3) same_but_set [OF assms(2)]])

lemma add_keeps: "config_kept P False (Some s) W (cmd_add P s b hex W)"
  unfolding cmd_add_def
  by (rule config_kept_raw)
    (auto simp: Let_def split: option.split list.split backend.split sum.split dest!: vault_write_config
      intro!: set_kept)

lemma rotate_keeps:
  assumes "sw_config W = Json (VDict raw)" "raw_sources raw = Some d"
  shows "config_kept P False (Some s) W (rotate_uri P s raw d info first hex W)"
  unfolding rotate_uri_def finish_rotation_def
  by (auto simp: Let_def split: sum.split dest!: vault_write_config intro!: set_kept [OF assms])

lemma cmd_rotate_keeps: "config_kept P False (Some s) W (cmd_rotate P s hex W)"
  unfolding cmd_rotate_def
  by (rule config_kept_raw)
    (auto split: option.split list.split pyval.split sum.split intro!: rotate_keeps)

lemma cmd_remove_keeps: "config_kept P True (Some s) W (cmd_remove P s W)"
  unfolding cmd_remove_def
  by (rule config_kept_raw)
    (auto split: option.split prod.split pyval.split sum.split intro!: config_kept_save same_but_without)

lemma cmd_list_keeps: "config_kept P rm s W (cmd_list pretty j W)"
  unfolding cmd_list_def
  by (rule config_kept_raw) (auto split: option.split sum.split)

text \<open>Claim C20: no secrets command writes a config the daemon cannot load.  Whatever a command does,
  the config file is afterwards as it was, or the command exited 0 and the file loads and differs
  from the old one only in the source it names: a source added or rotated has an entry and the routing is
  untouched; a removed source is gone from the sources and from the routing, and every other entry of
  the two tables stays.  In particular no other source loses its secret reference.\<close>

theorem secrets_commands_keep_config:
  "case run_secrets P pretty hex c W of
     (e, _, W') \<Rightarrow> sw_config W' = sw_config W
       \<or> e = Exit 0 \<and> (\<exists>s raw raw' cfg. about_source c = Some s \<and> sw_config W = Json (VDict raw)
           \<and> sw_config W' = Json (VDict raw') \<and> load_config (sp_dns P) (sw_config W') = Inr cfg
           \<and> same_but_source (is_removal c) s raw raw')"
proof (cases "run_secrets P pretty hex c W")
  case (fields e out' W')
  have "config_kept P (is_removal c) (about_source c) W (run_secrets P pretty hex c W)"
    by (cases c) (simp_all add: is_removal_def add_keeps cmd_rotate_keeps cmd_remove_keeps cmd_list_keeps)
  then show ?thesis unfolding fields config_kept_def by simp
qed

subsection \<open>The name of a rotated variable\<close>

lemma fresh_name_least:
  "\<exists>k \<ge> n. fresh_name env base n = candidate base k \<and> \<not> has_key env (candidate base k)
     \<and> (\<forall>m. n \<le> m \<and> m < k \<longrightarrow> has_key env (candidate base m))"
proof (induction env base n rule: fresh_name.induct)
  case (1 env base n)
  show ?case
  proof (cases "has_key env (candidate base n)")
    case True
    with 1 obtain k where "Suc n \<le> k" "fresh_name env base (Suc n) = candidate base k"
      "\<not> has_key env (candidate base k)" "\<forall>m. Suc n \<le> m \<and> m < k \<longrightarrow> has_key env (candidate base m)" by blast
    moreover have "\<forall>m. n \<le> m \<and> m < k \<longrightarrow> has_key env (candidate base m)"
      using True calculation(4) by (metis le_antisym not_less_eq_eq)
    ultimately show ?thesis
      using True by (intro exI [of _ k]) (simp add: fresh_name.simps [of env base n])
  next
    case False
    then show ?thesis by (intro exI [of _ n]) (auto simp: fresh_name.simps [of env base n])
  qed
qed

text \<open>The search for a variable name ends.  For any contents of the env file the loop of
  \<open>rotate\<close> returns, after at most as many collisions as the file has entries, the first of
  \<open>NAME\<close>, \<open>NAME_1\<close>, \<open>NAME_2\<close>, \dots that the file does not define.\<close>

theorem rotation_name_found:
  "\<exists>k \<le> length env. fresh_name env base 0 = candidate base k \<and> candidate base k \<notin> fst ` set env
     \<and> candidate base ` {..<k} \<subseteq> fst ` set env"
proof -
  obtain k where k: "fresh_name env base 0 = candidate base k" "\<not> has_key env (candidate base k)"
    "\<forall>m < k. has_key env (candidate base m)" using fresh_name_least [of 0 env base] by auto
  have taken: "candidate base ` {..<k} \<subseteq> fst ` set env" using k(3) by (auto simp: has_key_iff)
  then have "card (candidate base ` {..<k}) \<le> card (fst ` set env)" by (intro card_mono) simp_all
  also have "\<dots> \<le> length env" by (metis card_image_le card_length finite_set le_trans)
  finally have "k \<le> length env"
    using inj_candidate [of base] by (simp add: card_image inj_on_subset)
  with k(1,2) taken show ?thesis by (auto simp: has_key_iff)
qed

subsection \<open>Both secrets of a rotation\<close>

text \<open>Sources whose variable names are what \<open>env://\<close> URIs can name.\<close>

definition name_char :: "char \<Rightarrow> bool" where
  "name_char c \<longleftrightarrow> is_alpha c \<or> is_digit c \<or> c = CHR ''_''"

definition plain_source :: "string \<Rightarrow> bool" where
  "plain_source s \<longleftrightarrow> (\<forall>c \<in> set s. name_char c \<or> c = CHR ''-'')"

definition plain_var :: "string \<Rightarrow> bool" where
  "plain_var n \<longleftrightarrow> n \<noteq> [] \<and> (\<forall>c \<in> set n. name_char c)"

lemma name_char_code: "name_char c \<Longrightarrow> 48 \<le> (of_char c :: nat) \<and> (of_char c :: nat) \<le> 122"
  by (auto simp: name_char_def is_alpha_def is_digit_def Let_def)

lemma not_name_char:
  "name_char c \<Longrightarrow> c \<notin> {CHR 0x09, CHR 0x0A, CHR 0x0D, CHR ''#''}"
  by (auto dest: name_char_code)

lemma name_char_punct: "name_char c \<Longrightarrow> c \<notin> set [CHR ''='', CHR '':'', CHR ''/'', CHR ''?'', CHR ''['', CHR '']'']"
  by (auto simp: name_char_def is_alpha_def is_digit_def)

lemma name_char_space: "name_char c \<Longrightarrow> \<not> is_space c"
  by (auto simp: name_char_def is_alpha_def is_digit_def is_space_def is_ascii_space_def)

lemma plain_var_clean: "plain_var n \<Longrightarrow> clean_name n"
  using name_char_space name_char_punct not_name_char by (cases n) (auto simp: plain_var_def clean_name_def)

lemma split_at_none: "c \<notin> set s \<Longrightarrow> split_at c s = (s, None)"
  by (induction s) auto

lemma env_uri_parsed:
  assumes "plain_var n"
  shows "urlparse (''env://'' @ n) =
    Inr \<lparr>u_scheme = ''env'', u_netloc = n, u_path = [], u_query = [], u_fragment = []\<rparr>"
proof -
  have c: "c \<notin> {CHR 0x09, CHR 0x0A, CHR 0x0D}" "c \<notin> set ''/?#[]''" if "c \<in> set n" for c
    using assms that not_name_char [of c] name_char_punct [of c] by (auto simp: plain_var_def)
  have "filter (\<lambda>c. c \<notin> set [CHR 0x09, CHR 0x0D, CHR 0x0A]) n = n" using c(1) by (intro filter_True) auto
  then have "clean_url (''env://'' @ n) = ''env://'' @ n" by (simp add: clean_url_def)
  moreover have "split_scheme (''env://'' @ n) = (''env'', ''//'' @ n)"
    by (simp add: split_scheme_def Let_def is_alpha_def scheme_char_def lower_char_def)
  moreover have "takeWhile (\<lambda>c. c \<notin> set ''/?#'') (drop 2 (''//'' @ n)) = n"
  proof -
    have "takeWhile (\<lambda>c. c \<notin> set ''/?#'') n = n"
      by (rule takeWhile_eq_all_conv [THEN iffD2]) (use c(2) in auto)
    moreover have "drop 2 (''//'' @ n) = n" by simp
    ultimately show ?thesis by (simp only:)
  qed
  moreover have "drop (2 + length n) (''//'' @ n) = []" "startswith (''//'' @ n) ''//''"
    by (simp_all add: startswith_def)
  moreover have "CHR ''['' \<notin> set n" "CHR '']'' \<notin> set n" using c(2) by auto
  ultimately show ?thesis
    unfolding urlparse_def by (simp only: Let_def prod.case if_True) (simp split: prod.split)
qed

lemma env_fetch_plain:
  "plain_var n \<Longrightarrow> env_fetch D (''env://'' @ n) = (case w_env D n of None \<Rightarrow> Inl (OtherError ''RuntimeError'') | Some v \<Rightarrow> Inr v)"
proof -
  assume n: "plain_var n"
  then have "var_name (''env://'' @ n) = Inr n" unfolding var_name_def env_uri_parsed [OF n] by (simp add: plain_var_def)
  then show ?thesis by (simp add: env_fetch_def)
qed

lemma resolve_plain:
  assumes "plain_var n" "w_env D n = Some v" "dget C (''env://'' @ n) = None"
  shows "resolve_secret D clk (''env://'' @ n) C = (Inr v, dset (''env://'' @ n) (v, None) C)"
proof -
  have "backend_for D (''env://'' @ n) = Inr (env_fetch D)" "ttl_for D clk (''env://'' @ n) = Inr None"
    unfolding backend_for_def ttl_for_def env_uri_parsed [OF assms(1)] by simp_all
  moreover have "env_fetch D (''env://'' @ n) = Inr v" unfolding env_fetch_plain [OF assms(1)] assms(2) by simp
  ultimately show ?thesis unfolding resolve_secret_def fetch_and_cache_def assms(3) by simp
qed

lemma plain_var_base: "plain_source s \<Longrightarrow> plain_var (candidate (var_base s @ ''_NEW'') k)"
proof -
  have digits: "name_char c" if "c \<in> set (nat_str k)" for c k
    using nat_str_chars [OF that] digit_char_is_digit by (auto simp: name_char_def)
  have up: "name_char c" if "c \<in> set (py_upper s)" "c \<noteq> CHR ''-''" "plain_source s" for c s
  proof -
    from that(1) obtain d where d: "d \<in> set s" "c \<in> set (let n = (of_char d :: nat) in
        if n = 223 then ''SS''
        else if (97 \<le> n \<and> n \<le> 122) \<or> (224 \<le> n \<and> n \<le> 254 \<and> n \<noteq> 247) then [char_of (n - 32)] else [d])"
      by (auto simp: py_upper_def)
    have "name_char d \<or> d = CHR ''-''" using d(1) that(3) by (simp add: plain_source_def)
    then show ?thesis
    proof
      assume nd: "name_char d"
      let ?n = "of_char d :: nat"
      have n: "?n \<le> 122" using name_char_code [OF nd] by simp
      show ?thesis
      proof (cases "97 \<le> ?n")
        case True
        with d(2) n have "c = char_of (?n - 32)" by (simp add: Let_def)
        then have "(of_char c :: nat) = ?n - 32" using n by (simp add: of_char_of take_bit_nat_def)
        with True n have "65 \<le> (of_char c :: nat) \<and> (of_char c :: nat) \<le> 90" by linarith
        then show ?thesis by (simp add: name_char_def is_alpha_def)
      next
        case False
        with d(2) n nd show ?thesis by (simp add: Let_def)
      qed
    next
      assume "d = CHR ''-''"
      with d(2) that(2) show ?thesis by (simp add: Let_def)
    qed
  qed
  assume s: "plain_source s"
  have "list_all name_char (map (\<lambda>c. if c = CHR ''-'' then CHR ''_'' else c) (py_upper s))"
    using up [OF _ _ s] by (auto simp: list_all_iff name_char_def [of "CHR ''_''"])
  moreover have "list_all name_char ''AGENT_WAKE_''" "list_all name_char ''_SECRET''" "list_all name_char ''_NEW''"
    "list_all name_char ''_''"
    by code_simp+
  moreover have "list_all name_char (nat_str k)" using digits by (auto simp: list_all_iff)
  ultimately have "list_all name_char (candidate (var_base s @ ''_NEW'') k)"
    unfolding candidate_def var_base_def by (simp only: list_all_append split: if_split) simp
  moreover have "candidate (var_base s @ ''_NEW'') k \<noteq> []" by (simp add: candidate_def)
  ultimately show ?thesis by (simp add: plain_var_def list_all_iff)
qed

text \<open>What a loaded file says of a source given by one entry.\<close>

lemma each_sender:
  "each (validate_sender url) xs = Inr ys \<Longrightarrow> dget xs k = Some v \<Longrightarrow>
     \<exists>v'. dget ys k = Some v' \<and> validate_sender url (k, v) = Inr (k, v')"
proof (induction xs arbitrary: ys)
  case (Cons x xs)
  obtain j w where x: "x = (j, w)" by (cases x)
  from Cons.prems(1) obtain y ys' where y: "validate_sender url (j, w) = Inr y" "each (validate_sender url) xs = Inr ys'" "ys = y # ys'"
    by (auto simp: x load_simps)
  obtain w' where w': "y = (j, w')" using y(1) validate_sender_ok by (metis surj_pair)
  show ?case
  proof (cases "k = j")
    case True
    with Cons.prems(2) y w' show ?thesis by (simp add: x)
  next
    case False
    with Cons.prems(2) Cons.IH [OF y(2)] y(3) w' show ?thesis by (simp add: x)
  qed
qed simp

text \<open>A file with a \<open>sources\<close> table loads only as a v1 file with at least one source.\<close>

lemma loads_sources:
  assumes "load_object dns raw = Inr cfg" "has_key raw ''sources''"
  shows "\<not> uses_v2 raw \<and> truthy (getv raw ''sources'')"
proof -
  have t: "truthy (getv raw (if uses_v2 raw then ''senders'' else ''sources''))" "\<not> mixed_vocabulary raw"
    using assms(1) by (auto simp: load_object_def Let_def load_simps split: prod.splits)
  have "\<not> uses_v2 raw"
  proof
    assume v2: "uses_v2 raw"
    then have "has_key raw ''senders''" using t(1) by (auto simp: has_key_def getv_def opt_val_def split: option.splits)
    then show False using t(2) assms(2) by (simp add: mixed_vocabulary_def VOCABULARY_PAIRS_def)
  qed
  with t(1) show ?thesis by simp
qed

lemma loaded_source:
  assumes "load_object dns raw = Inr cfg" "dget raw ''sources'' = Some (VDict d)" "dget d s = Some (VDict info)"
  shows "\<exists>e uris. dget (sender_table cfg) s = Some (VDict e) \<and> secret_uris_of s info = Inr uris
    \<and> dget e ''secret_uris'' = Some (VList (map VStr uris))"
proof -
  have v1: "\<not> uses_v2 raw" using loads_sources [OF assms(1)] assms(2) by (simp add: has_key_def)
  from load_object_cases [OF assms(1)] obtain listen routing senders blocks tables where
    c: "config_senders raw (dict_items (getv raw (if uses_v2 raw then ''senders'' else ''sources''))) = Inr (senders, blocks)"
    and n: "cfg = normalised raw listen routing senders blocks tables" by metis
  have "dict_items (getv raw ''sources'') = d" using assms(2) by (simp add: getv_def opt_val_def)
  with c v1 have c': "config_senders raw d = Inr (senders, blocks)" by simp
  obtain state wake where e: "each (validate_sender (getv raw ''default_callback_url'')) d = Inr senders"
    and b: "blocks = [(''state'', VDict state), (''wake'', VDict wake)]"
    by (rule config_senders_cases [OF c']) (rule that)
  from each_sender [OF e assms(3)] obtain v' where v': "dget senders s = Some v'"
    "validate_sender (getv raw ''default_callback_url'') (s, VDict info) = Inr (s, v')" by blast
  obtain ps ds rs del where t: "tables = (ps, ds, rs, del)" by (cases tables)
  have "sender_table cfg = senders"
    unfolding sender_table_def n t using normalised_get(1) [OF b] by (simp add: table_of_def getv_def opt_val_def)
  with v' show ?thesis by (auto simp: validate_sender_def Let_def load_simps)
qed

lemma save_exit: "save_raw_config P data out0 W0 = (Exit 0, out', W') \<Longrightarrow>
    \<exists>cfg. load_object (sp_dns P) data = Inr cfg \<and> W' = W0\<lparr>sw_config := Json (VDict data)\<rparr>"
  by (auto simp: save_raw_config_def load_config_def split: sum.splits refusal.splits)

lemma set_source_get: "dget (set_source raw d s info) ''sources'' = Some (VDict (dset s (VDict info) d))"
  by (simp add: set_source_def dget_dset)

lemma dget_filter_keys: "dget (filter (\<lambda>(k, _). k \<notin> S) d) j = (if j \<in> S then None else dget d j)"
  by (induction d) auto

lemma rotated_get:
  "dget (rotated_info info us) ''secrets'' = Some (VList us)" "dget (rotated_info info us) ''secret'' = None"
  "dget (rotated_info info us) ''secret_env'' = None"
  unfolding rotated_info_def map_of_append map_add_def dget_filter_keys by simp_all

lemma rotated_uris:
  "secret_uris_of s (rotated_info info [VStr a, VStr b]) = Inr uris \<Longrightarrow> uris = [a, b]"
  by (auto simp: secret_uris_of_def load_simps has_key_def getv_def opt_val_def rotated_get uri_entry_def parse_uri_Inr)

text \<open>A rotation of an environment secret that exits 0.\<close>

lemma rotate_env_result:
  assumes "cmd_rotate P source hex W = (Exit 0, out', W')" and "sw_config W = Json (VDict raw)"
    and "dget (dict_items (getv raw ''sources'')) source = Some (VDict info)"
    and "source_to_uris info = Inr (VStr (''env://'' @ old) # us)"
  shows "\<exists>d cfg. raw_sources raw = Some d
    \<and> (let var = fresh_name (env_file_read (sw_env W)) (var_base source @ ''_NEW'') 0;
           data = set_source raw d source (rotated_info info [VStr (''env://'' @ var), VStr (''env://'' @ old)])
       in load_object (sp_dns P) data = Inr cfg
          \<and> W' = W\<lparr>sw_env := env_file_append var hex (sw_env W), sw_config := Json (VDict data)\<rparr>)"
proof -
  have "raw_sources raw = Some (dict_items (getv raw ''sources''))"
    using assms(3) by (auto simp: raw_sources_def getv_def opt_val_def split: option.splits pyval.splits)
  moreover have "startswith (''env://'' @ old) ''env://''" by (simp add: startswith_def)
  ultimately have "finish_rotation P source raw (dict_items (getv raw ''sources'')) info
      (''env://'' @ fresh_name (env_file_read (sw_env W)) (var_base source @ ''_NEW'') 0) (VStr (''env://'' @ old)) hex
      (W\<lparr>sw_env := env_file_append (fresh_name (env_file_read (sw_env W)) (var_base source @ ''_NEW'') 0) hex (sw_env W)\<rparr>)
      = (Exit 0, out', W')"
    using assms unfolding cmd_rotate_def with_raw_config_def rotate_uri_def by (simp only: config_file.case pyval.case option.case
        sum.case list.case if_True Let_def)
  from save_exit [OF this [unfolded finish_rotation_def]] show ?thesis
    using \<open>raw_sources raw = _\<close> by (auto simp: Let_def)
qed

text \<open>An environment secret stays valid across a rotation.  After a rotation that exits 0, the
  loaded file gives the source two secrets, and in a daemon started with the env file they
  resolve to the new secret followed by the one before (and to nothing older); so a sender that
  still signs with the previous secret is accepted until the next rotation.  The file must be
  empty or end in a line feed, and the names must be ones an \<open>env://\<close> URI can spell.\<close>

theorem rotation_keeps_previous:
  assumes "cmd_rotate P source hex W = (Exit 0, out', W')" and "sw_config W = Json (VDict raw)"
    and "dget (dict_items (getv raw ''sources'')) source = Some (VDict info)"
    and "source_to_uris info = Inr (VStr (''env://'' @ old) # us)"
    and "plain_source source" and "plain_var old" and "clean_value hex"
    and "sw_env W = Some (text' @ line_feed)" and "dget (env_file_read (sw_env W)) old = Some previous"
    and "\<And>n. w_env D n = map_option utf8 (dget (env_file_read (sw_env W')) n)"
  shows "\<exists>cfg e. load_config (sp_dns P) (sw_config W') = Inr cfg \<and> dget (sender_table cfg) source = Some (VDict e)
    \<and> fst (resolve_all D clk e []) = Inr [utf8 hex, utf8 previous]"
proof -
  let ?env = "env_file_read (sw_env W)"
  define var where "var = fresh_name ?env (var_base source @ ''_NEW'') 0"
  from rotate_env_result [OF assms(1-4)] obtain d cfg where d: "raw_sources raw = Some d"
    and load: "load_object (sp_dns P) (set_source raw d source
        (rotated_info info [VStr (''env://'' @ var), VStr (''env://'' @ old)])) = Inr cfg"
    and W': "W' = W\<lparr>sw_env := env_file_append var hex (sw_env W), sw_config := Json (VDict (set_source raw d source
        (rotated_info info [VStr (''env://'' @ var), VStr (''env://'' @ old)])))\<rparr>"
    by (auto simp: Let_def var_def)
  obtain k where k: "var = candidate (var_base source @ ''_NEW'') k" "\<not> has_key ?env var"
    using fresh_name_least [of 0 ?env] var_def by metis
  have var: "plain_var var" unfolding k(1) by (rule plain_var_base [OF assms(5)])
  have "var \<noteq> old" using k(2) assms(9) by (auto simp: has_key_def)
  have "plainly_named var (sw_env W)"
  proof -
    have "dget ?env var = None" using k(2) by (simp add: has_key_def)
    then have "values_of var (env_lines (sw_env W)) = []" by (simp add: env_file_read_lines last_of_def split: if_splits)
    then show ?thesis
      by (fastforce simp: plainly_named_def values_of_def filter_empty_conv List.map_filter_def split: option.splits)
  qed
  from env_file_entries [OF plain_var_clean [OF var] assms(7) this]
  have env: "dget (env_file_read (sw_env W')) n = (if n = var then Some hex else dget ?env n)" for n
    using assms(8) by (simp add: W')
  obtain e uris where e: "dget (sender_table cfg) source = Some (VDict e)" "dget e ''secret_uris'' = Some (VList (map VStr uris))"
    "secret_uris_of source (rotated_info info [VStr (''env://'' @ var), VStr (''env://'' @ old)]) = Inr uris"
    using loaded_source [OF load set_source_get, of source "rotated_info info [VStr (''env://'' @ var), VStr (''env://'' @ old)]"]
    by (auto simp: dget_dset)
  have "uris = [''env://'' @ var, ''env://'' @ old]"
    by (rule rotated_uris [OF e(3)])
  moreover have "w_env D var = Some (utf8 hex)" "w_env D old = Some (utf8 previous)"
    using assms(9,10) env \<open>var \<noteq> old\<close> by simp_all
  ultimately have "fst (resolve_all D clk e []) = Inr [utf8 hex, utf8 previous]"
    using e(2) \<open>var \<noteq> old\<close> resolve_plain [OF var, of D _ "[]" clk]
      resolve_plain [OF assms(6), of D _ "[(''env://'' @ var, (utf8 hex, None))]" clk]
    by (simp add: resolve_all_def)
  then show ?thesis using load e(1) by (auto simp: W' load_config_def)
qed

definition demo_raw :: dict where
  "demo_raw = [(''version'', VInt 1), (''sources'', VDict [(''ci'', VDict [(''secret_env'', VStr ''CI'')])])]"

definition demo_secrets_world :: secrets_world where
  "demo_secrets_world = \<lparr>sw_config = Json (VDict demo_raw), sw_env = Some (''CI=aa'' @ line_feed), sw_vault = (\<lambda>_. None)\<rparr>"

definition demo_secrets_ports :: secrets_ports where
  "demo_secrets_ports = \<lparr>sp_dns = (\<lambda>_. Inl (OSError [])), sp_env_path = ''/secrets.env'', sp_vault_write = (\<lambda>_ _ _. None),
     sp_pids = Some []\<rparr>"

lemma demo_rotates: "fst (cmd_rotate demo_secrets_ports ''ci'' ''bb'' demo_secrets_world) = Exit 0"
  by code_simp

lemma demo_old_read: "dget (env_file_read (sw_env demo_secrets_world)) ''CI'' = Some ''aa''"
  by code_simp

text \<open>Two sources with their routing; one is removed.\<close>

definition two_sources :: dict where
  "two_sources = [(''version'', VInt 1),
     (''sources'', VDict [(''ci'', VDict [(''secret_env'', VStr ''CI'')]), (''old'', VDict [(''secret_env'', VStr ''OLD'')])]),
     (''routing'', VDict [(''ci'', VDict [(''adapter'', VStr ''claude'')]), (''old'', VDict [(''adapter'', VStr ''claude'')])])]"

lemma demo_removes:
  "fst (run_secrets demo_secrets_ports (\<lambda>_. []) [] (Secrets_remove ''old'') (demo_secrets_world\<lparr>sw_config := Json (VDict two_sources)\<rparr>)) = Exit 0"
  "sw_config (snd (snd (run_secrets demo_secrets_ports (\<lambda>_. []) [] (Secrets_remove ''old'')
     (demo_secrets_world\<lparr>sw_config := Json (VDict two_sources)\<rparr>)))) \<noteq> Json (VDict two_sources)"
  by code_simp+

theorem secrets_commands_keep_config_witness:
  "\<exists>raw'. sw_config (snd (snd (run_secrets demo_secrets_ports (\<lambda>_. []) [] (Secrets_remove ''old'')
       (demo_secrets_world\<lparr>sw_config := Json (VDict two_sources)\<rparr>)))) = Json (VDict raw')
     \<and> source_entry raw' ''ci'' = source_entry two_sources ''ci'' \<and> routing_entry raw' ''ci'' = routing_entry two_sources ''ci''
     \<and> source_entry raw' ''old'' = None"
proof -
  obtain e out' W' where run: "run_secrets demo_secrets_ports (\<lambda>_. []) [] (Secrets_remove ''old'')
      (demo_secrets_world\<lparr>sw_config := Json (VDict two_sources)\<rparr>) = (e, out', W')" by (metis prod_cases3)
  with demo_removes have "sw_config W' \<noteq> Json (VDict two_sources)" by simp
  with secrets_commands_keep_config [where P = demo_secrets_ports and pretty = "\<lambda>_. []" and hex = "[]"
      and c = "Secrets_remove ''old''" and W = "demo_secrets_world\<lparr>sw_config := Json (VDict two_sources)\<rparr>"]
  show ?thesis unfolding run by (auto simp: is_removal_def same_but_source_def)
qed

theorem rotation_keeps_previous_witness:
  "\<exists>W' cfg e D. snd (snd (cmd_rotate demo_secrets_ports ''ci'' ''bb'' demo_secrets_world)) = W'
     \<and> dget (sender_table cfg) ''ci'' = Some (VDict e)
     \<and> fst (resolve_all D 0 e []) = Inr [''bb'', ''aa'']"
proof -
  obtain out' W' where run: "cmd_rotate demo_secrets_ports ''ci'' ''bb'' demo_secrets_world = (Exit 0, out', W')"
    using demo_rotates by (metis prod.collapse)
  let ?D = "\<lparr>w_env = (\<lambda>n. map_option utf8 (dget (env_file_read (sw_env W')) n)), w_vault = None, w_unquote = (\<lambda>s. s),
    w_float = (\<lambda>_. None)\<rparr>"
  have a: "sw_config demo_secrets_world = Json (VDict demo_raw)" "sw_env demo_secrets_world = Some (''CI=aa'' @ line_feed)"
    "dget (dict_items (getv demo_raw ''sources'')) ''ci'' = Some (VDict [(''secret_env'', VStr ''CI'')])"
    "source_to_uris [(''secret_env'', VStr ''CI'')] = Inr (VStr (''env://'' @ ''CI'') # [])"
    by (simp_all add: demo_secrets_world_def demo_raw_def getv_def opt_val_def source_to_uris_def)
  have b: "plain_source ''ci''" "plain_var ''CI''" "clean_value ''bb''" by code_simp+
  have "w_env ?D n = map_option utf8 (dget (env_file_read (sw_env W')) n)" for n by simp
  from rotation_keeps_previous [OF run a(1,3,4) b a(2) demo_old_read this, of 0]
  have "\<exists>cfg e. load_config (sp_dns demo_secrets_ports) (sw_config W') = Inr cfg \<and> dget (sender_table cfg) ''ci'' = Some (VDict e)
    \<and> fst (resolve_all ?D 0 e []) = Inr [utf8 ''bb'', utf8 ''aa'']" .
  moreover have "utf8 ''bb'' = ''bb''" "utf8 ''aa'' = ''aa''" by code_simp+
  ultimately show ?thesis using run by (metis snd_conv)
qed

text \<open>A rotation does not reach the running daemon.  The new variable is in the env file but
  not in the environment of a daemon started before; the reload that the command triggers finds
  a source it cannot verify and keeps the old configuration whole, so the new secret is refused
  until the daemon is restarted.\<close>

theorem rotation_needs_restart:
  assumes "cmd_rotate P source hex W = (Exit 0, out', W')" and "sw_config W = Json (VDict raw)"
    and "dget (dict_items (getv raw ''sources'')) source = Some (VDict info)"
    and "source_to_uris info = Inr (VStr (''env://'' @ old) # us)" and "plain_source source"
    and "\<And>n. environ n = dget (env_file_read (sw_env W)) n"
  shows "reload_config (sp_dns P) environ D clk (sw_config W') daemon = Inr daemon"
proof -
  let ?env = "env_file_read (sw_env W)"
  define var where "var = fresh_name ?env (var_base source @ ''_NEW'') 0"
  from rotate_env_result [OF assms(1-4)] obtain d cfg where
    load: "load_object (sp_dns P) (set_source raw d source
        (rotated_info info [VStr (''env://'' @ var), VStr (''env://'' @ old)])) = Inr cfg"
    and W': "W' = W\<lparr>sw_env := env_file_append var hex (sw_env W), sw_config := Json (VDict (set_source raw d source
        (rotated_info info [VStr (''env://'' @ var), VStr (''env://'' @ old)])))\<rparr>"
    by (auto simp: Let_def var_def)
  have loaded: "load_config (sp_dns P) (sw_config W') = Inr cfg" using load by (simp add: W' load_config_def)
  obtain k where k: "var = candidate (var_base source @ ''_NEW'') k" "\<not> has_key ?env var"
    using fresh_name_least [of 0 ?env] var_def by metis
  have var: "plain_var var" unfolding k(1) by (rule plain_var_base [OF assms(5)])
  have unset: "environ var = None" using k(2) assms(6) by (simp add: has_key_def)
  obtain e uris where e: "dget (sender_table cfg) source = Some (VDict e)" "dget e ''secret_uris'' = Some (VList (map VStr uris))"
    "secret_uris_of source (rotated_info info [VStr (''env://'' @ var), VStr (''env://'' @ old)]) = Inr uris"
    using loaded_source [OF load set_source_get, of source "rotated_info info [VStr (''env://'' @ var), VStr (''env://'' @ old)]"]
    by (auto simp: dget_dset)
  have uris: "uris = [''env://'' @ var, ''env://'' @ old]" by (rule rotated_uris [OF e(3)])
  have "env_var_name (VStr (''env://'' @ var)) = Some var"
    using var unfolding env_var_name_def pyval.case env_uri_parsed [OF var] by (simp add: plain_var_def Let_def)
  then have "var \<in> set (missing_env_vars environ (VDict e))"
    using e(2) unset unfolding missing_env_vars_def uris
    by (simp add: getv_def opt_val_def List.map_filter_def split: option.split)
  moreover have "getv cfg ''sources'' = VDict (sender_table cfg)"
  proof -
    have "getv cfg ''sources'' = getv cfg ''senders''" "sender_table cfg \<noteq> []"
      using loaded_shape [OF loaded] by (auto simp: config_wf_def Let_def)
    then show ?thesis
      by (auto simp: sender_table_def getv_def opt_val_def split: option.splits pyval.splits)
  qed
  moreover have "(source, VDict e) \<in> set (sender_table cfg)" using e(1) by (rule map_of_SomeD)
  ultimately have "(source, missing_env_vars environ (VDict e)) \<in> set (filter (\<lambda>(_, g). g \<noteq> [])
      (map (\<lambda>(name, info). (name, missing_env_vars environ info))
        (filter (\<lambda>(_, info). is_dict info) (dict_items (getv cfg ''sources'')))))"
    by (force simp: image_iff)
  then have "map fst (filter (\<lambda>(_, g). g \<noteq> []) (map (\<lambda>(name, info). (name, missing_env_vars environ info))
        (filter (\<lambda>(_, info). is_dict info) (dict_items (getv cfg ''sources''))))) \<noteq> []"
    unfolding map_is_Nil_conv by (intro notI) (simp only: list.set empty_iff)
  moreover have "sort xs = [] \<longleftrightarrow> xs = []" for xs :: "string list" by (metis length_0_conv length_sort)
  ultimately have "\<not> require_resolvable_secrets environ cfg"
    unfolding require_resolvable_secrets_def all_visible_def source_secret_visibility_def Let_def visibility.simps
    by (simp only: not_False_eq_True)
  then show ?thesis by (simp add: reload_config_def loaded)
qed

theorem rotation_needs_restart_witness:
  "\<exists>W'. snd (snd (cmd_rotate demo_secrets_ports ''ci'' ''bb'' demo_secrets_world)) = W'
     \<and> sw_config W' \<noteq> sw_config demo_secrets_world
     \<and> (\<forall>D daemon. reload_config (sp_dns demo_secrets_ports) (dget [(''CI'', ''aa'')]) D 0 (sw_config W') daemon = Inr daemon)"
proof -
  obtain out' W' where run: "cmd_rotate demo_secrets_ports ''ci'' ''bb'' demo_secrets_world = (Exit 0, out', W')"
    using demo_rotates by (metis prod.collapse)
  have a: "sw_config demo_secrets_world = Json (VDict demo_raw)"
    "dget (dict_items (getv demo_raw ''sources'')) ''ci'' = Some (VDict [(''secret_env'', VStr ''CI'')])"
    "source_to_uris [(''secret_env'', VStr ''CI'')] = Inr (VStr (''env://'' @ ''CI'') # [])"
    by (simp_all add: demo_secrets_world_def demo_raw_def getv_def opt_val_def source_to_uris_def)
  have s: "plain_source ''ci''" by code_simp
  have "env_file_read (sw_env demo_secrets_world) = [(''CI'', ''aa'')]" by code_simp
  then have env: "dget [(''CI'', ''aa'')] n = dget (env_file_read (sw_env demo_secrets_world)) n" for n by simp
  have "reload_config (sp_dns demo_secrets_ports) (dget [(''CI'', ''aa'')]) D 0 (sw_config W') daemon = Inr daemon" for D daemon
    by (rule rotation_needs_restart [OF run a s env])
  moreover have "case snd (snd (cmd_rotate demo_secrets_ports ''ci'' ''bb'' demo_secrets_world)) of
      W' \<Rightarrow> (case sw_config W' of Json (VDict r) \<Rightarrow> dget r ''sources'' \<noteq> dget demo_raw ''sources'' | _ \<Rightarrow> False)"
    by code_simp
  then have "sw_config W' \<noteq> sw_config demo_secrets_world"
    unfolding run snd_conv a(1) by (auto split: config_file.splits pyval.splits)
  ultimately show ?thesis using run by simp
qed

subsection \<open>What is left half done\<close>

lemma save_refused:
  assumes "\<And>cfg. load_object (sp_dns P) data \<noteq> Inr cfg"
  shows "\<exists>e out'. save_raw_config P data out0 W0 = (e, out', W0) \<and> e \<noteq> Exit 0"
  using assms by (cases "load_object (sp_dns P) data") (auto simp: save_raw_config_def load_config_def split: refusal.split)

text \<open>Removing the only source destroys its secret and then fails.  The lines of its
  variables leave the env file before the new config is validated; a file without sources does
  not load, so the command ends in an error with the config as it was, naming a variable that no
  longer has a value.\<close>

theorem removing_the_last_source:
  assumes "sw_config W = Json (VDict raw)" and "dget raw ''sources'' = Some (VDict [(source, VDict [(''secret'', VStr (''env://'' @ n))])])"
    and "dget raw ''routing'' = None" and "plain_var n" and "plainly_named n (sw_env W)"
  shows "\<exists>e out' W'. cmd_remove P source W = (e, out', W') \<and> e \<noteq> Exit 0 \<and> sw_config W' = sw_config W
    \<and> dget (env_file_read (sw_env W')) n = None"
proof -
  have uris: "source_to_uris [(''secret'', VStr (''env://'' @ n))] = Inr [VStr (''env://'' @ n)]"
    by (simp add: source_to_uris_def)
  have lines: "remove_env_lines [VStr (''env://'' @ n)] (sw_env W) = (None, env_file_remove_line n (sw_env W))"
    unfolding remove_env_lines.simps env_uri_parsed [OF assms(4)]
    using assms(4) by (simp add: startswith_def plain_var_def)
  have raw': "without_source raw [(source, VDict [(''secret'', VStr (''env://'' @ n))])] source
      = Inr (dset ''sources'' (VDict []) raw)"
    by (simp add: without_source_def Let_def assms(3))
  have "load_object (sp_dns P) (dset ''sources'' (VDict []) raw) \<noteq> Inr cfg" for cfg
    using loads_sources [of "sp_dns P" "dset ''sources'' (VDict []) raw" cfg]
    by (auto simp: has_key_def getv_def opt_val_def dget_dset)
  from save_refused [OF this] obtain e out' where
    "save_raw_config P (dset ''sources'' (VDict []) raw) [Out (''Source '' @ repr_str source @ '' removed from config.'')]
       (W\<lparr>sw_env := env_file_remove_line n (sw_env W)\<rparr>) = (e, out', W\<lparr>sw_env := env_file_remove_line n (sw_env W)\<rparr>)"
    "e \<noteq> Exit 0" by blast
  moreover have "raw_sources raw = Some [(source, VDict [(''secret'', VStr (''env://'' @ n))])]"
    by (simp add: raw_sources_def assms(2))
  moreover have "dget [(source, v)] source = Some v" for v :: pyval by simp
  ultimately have "cmd_remove P source W = (e, out', W\<lparr>sw_env := env_file_remove_line n (sw_env W)\<rparr>)"
    unfolding cmd_remove_def with_raw_config_def assms(1)
    by (simp only: config_file.case pyval.case option.case uris sum.case lines prod.case raw')
  moreover have "dget (env_file_read (env_file_remove_line n (sw_env W))) n = None"
    using env_file_entries [OF plain_var_clean [OF assms(4)] _ assms(5), of "[]" n] by (simp add: clean_value_def strip_def)
  ultimately show ?thesis using \<open>e \<noteq> Exit 0\<close> by simp
qed

lemma demo_remove_facts:
  "plain_var ''CI''" "plainly_named ''CI'' (Some (''CI=aa'' @ line_feed))"
  by code_simp+

theorem removing_the_last_source_witness:
  "\<exists>e out' W'. cmd_remove demo_secrets_ports ''ci''
       (demo_secrets_world\<lparr>sw_config := Json (VDict [(''sources'', VDict [(''ci'', VDict [(''secret'', VStr (''env://'' @ ''CI''))])])])\<rparr>)
       = (e, out', W')
     \<and> e \<noteq> Exit 0 \<and> dget (env_file_read (sw_env W')) ''CI'' = None"
proof -
  let ?raw = "[(''sources'', VDict [(''ci'', VDict [(''secret'', VStr (''env://'' @ ''CI''))])])]"
  let ?W = "demo_secrets_world\<lparr>sw_config := Json (VDict ?raw)\<rparr>"
  have "sw_config ?W = Json (VDict ?raw)" "dget ?raw ''routing'' = None"
    "dget ?raw ''sources'' = Some (VDict [(''ci'', VDict [(''secret'', VStr (''env://'' @ ''CI''))])])"
    "plainly_named ''CI'' (sw_env ?W)"
    using demo_remove_facts(2) by (simp_all add: demo_secrets_world_def)
  from removing_the_last_source [OF this(1,3,2) demo_remove_facts(1) this(4)] show ?thesis by blast
qed

text \<open>\<open>add\<close> does not know v2 files: it puts a \<open>sources\<close> table beside \<open>senders\<close>, which no file may
  have, after it has written the variable; a second try stops at that variable.\<close>

lemma add_fails_on_v2:
  assumes "sw_config W = Json (VDict raw)" "has_key raw ''senders''" "\<not> has_key raw ''sources''"
    and "\<not> has_key (env_file_read (sw_env W)) (var_base source)"
  shows "\<exists>e out'. cmd_add P source (Env_backend None) hex W
      = (e, out', W\<lparr>sw_env := env_file_append (var_base source) hex (sw_env W)\<rparr>) \<and> e \<noteq> Exit 0"
proof -
  have src: "raw_sources raw = Some []" using assms(3) by (simp add: raw_sources_def has_key_def)
  let ?data = "set_source raw [] source [(''secret'', VStr (''env://'' @ var_base source))]"
  have "has_key ?data ''sources'' \<and> has_key ?data ''senders''"
    using assms(2) by (simp add: has_key_def set_source_def dget_dset)
  then have "mixed_vocabulary ?data" by (simp add: mixed_vocabulary_def VOCABULARY_PAIRS_def)
  then have "load_object (sp_dns P) ?data \<noteq> Inr cfg" for cfg by (auto simp: load_object_def load_simps)
  from save_refused [OF this] show ?thesis
    using assms(1,4) src by (simp add: cmd_add_def with_raw_config_def has_key_def [of "[]"] Let_def)
qed

text \<open>A rotation of a Vault secret overwrites the field in place and lists the same URI twice: the
  previous secret is gone at once, with every other field of the secret.\<close>

lemma vault_rotation_overwrites:
  assumes "rotate_uri P source raw d info first hex W = (Exit 0, out', W')" "startswith first ''vault://''"
    and "urlparse first = Inr u"
  shows "sw_config W' = Json (VDict (set_source raw d source (rotated_info info [VStr first, VStr first])))
    \<and> sw_vault W' = (sw_vault W)(vault_target (dropWhile (\<lambda>c. c = CHR ''/'') (u_netloc u @ u_path u))
          \<mapsto> [(fst (split_at (CHR ''?'') (u_fragment u)), VStr hex)])"
proof -
  have "\<not> startswith first ''env://''" using assms(2) by (cases first) (auto simp: startswith_def)
  with assms(1) show ?thesis
    by (auto simp: rotate_uri_def assms(2,3) Let_def finish_rotation_def vault_write_def split: if_splits option.splits
        dest!: save_exit)
qed

end
