(* ===== verification/Claude_Channel.thy ===== *)
theory Claude_Channel
  imports Ingest Socket_Server
begin

section \<open>The Claude Code adapter: channel, permissions and tool server (\<open>adapters/claude\<close>)\<close>

text \<open>
  What the adapter writes to the harness: channel notifications with the buffer of silent events
  (\<open>channel.py\<close>), the permission relay (\<open>permission.py\<close>) and the dispatch of the harness's own
  requests (\<open>server.py\<close>).  \<open>ok k\<close> says whether the \<open>k\<close>-th write to the standard output succeeds;
  times are readings of the monotonic clock.  Texts with characters above 255 are written with
  two hyphens for the dash.
\<close>

record adapter =
  a_sent :: "dict list"
  a_writes :: nat
  a_deferred :: "(pytime \<times> dict) list"
  a_perms :: "(pyval \<times> dict \<times> pytime) list"
  a_posts :: "(string \<times> (string \<times> string) list \<times> bytes) list"
  a_tools :: "(pyval option \<times> pyval) list"

definition new_adapter :: adapter where
  "new_adapter = \<lparr>a_sent = [], a_writes = 0, a_deferred = [], a_perms = [], a_posts = [], a_tools = []\<rparr>"

text \<open>A step that may raise, leaving the state it had reached.\<close>

type_synonym 'a step = "adapter \<Rightarrow> 'a res \<times> adapter"

definition and_then :: "'a step \<Rightarrow> ('a \<Rightarrow> 'b step) \<Rightarrow> 'b step" where
  "and_then m f a = (case m a of (Inl e, a') \<Rightarrow> (Inl e, a') | (Inr x, a') \<Rightarrow> f x a')"

definition nothing :: "unit step" where
  "nothing a = (Inr (), a)"

definition send :: "(nat \<Rightarrow> bool) \<Rightarrow> dict \<Rightarrow> unit step" where
  "send ok msg a =
     (let a' = a\<lparr>a_writes := Suc (a_writes a)\<rparr> in
      if ok (a_writes a) then (Inr (), a'\<lparr>a_sent := a_sent a @ [msg]\<rparr>)
      else (Inl (OSError ''Broken pipe''), a'))"

subsection \<open>Channel notifications\<close>

definition MAX_DEFERRED :: nat where "MAX_DEFERRED = 64"

text \<open>\<open>str.isidentifier\<close> on code points below 256.\<close>

definition id_start :: "char \<Rightarrow> bool" where
  "id_start c =
     (let n = (of_char c :: nat) in
      (65 \<le> n \<and> n \<le> 90) \<or> n = 95 \<or> (97 \<le> n \<and> n \<le> 122) \<or> n \<in> {0xAA, 0xB5, 0xBA}
      \<or> (0xC0 \<le> n \<and> n \<noteq> 0xD7 \<and> n \<noteq> 0xF7))"

definition is_identifier :: "string \<Rightarrow> bool" where
  "is_identifier s =
     (case s of
        [] \<Rightarrow> False
      | c # cs \<Rightarrow> id_start c \<and> (\<forall>d \<in> set cs. id_start d \<or> is_digit d \<or> d = CHR 0xB7))"

fun copy_meta :: "dict \<Rightarrow> (string \<times> string) list \<Rightarrow> (string \<times> string) list" where
  "copy_meta [] meta = meta"
| "copy_meta ((k, v) # kvs) meta =
     copy_meta kvs (if is_identifier k then dset k (py_str v) meta else meta)"

definition channel_meta :: "dict \<Rightarrow> (string \<times> string) list \<Rightarrow> (string \<times> string) list" where
  "channel_meta event extra =
     (let base = [(''source'', get_str event ''source'' []), (''kind'', get_str event ''kind'' [])];
          meta = copy_meta (table_of (dget event ''meta'')) base
      in fold (\<lambda>(k, v). dset k v) extra meta)"

definition channel_message :: "string \<Rightarrow> (string \<times> string) list \<Rightarrow> dict" where
  "channel_message content meta =
     [(''jsonrpc'', VStr ''2.0''), (''method'', VStr ''notifications/claude/channel''),
      (''params'', VDict [(''content'', VStr content),
                          (''meta'', VDict (map (\<lambda>(k, v). (k, VStr v)) meta))])]"

definition event_message :: "dict \<Rightarrow> (string \<times> string) list \<Rightarrow> dict" where
  "event_message event extra =
     channel_message (get_str event ''content'' []) (channel_meta event extra)"

text \<open>\<open>int\<close> of a number of milliseconds.\<close>

definition truncate_ms :: "pytime \<Rightarrow> int" where
  "truncate_ms t = (if 0 \<le> t then \<lfloor>t * 1000\<rfloor> else - \<lfloor>- t * 1000\<rfloor>)"

definition deferred_message :: "pytime \<Rightarrow> string \<Rightarrow> pytime \<times> dict \<Rightarrow> dict" where
  "deferred_message now reason entry =
     event_message (snd entry)
       [(''silent'', ''true''), (''flush_reason'', reason),
        (''deferred_ms'', int_str (truncate_ms (now - fst entry)))]"

fun emit_deferred :: "(nat \<Rightarrow> bool) \<Rightarrow> pytime \<Rightarrow> (pytime \<times> dict) list \<Rightarrow> string \<Rightarrow> unit step" where
  "emit_deferred ok now [] reason = nothing"
| "emit_deferred ok now (entry # batch) reason =
     and_then (send ok (deferred_message now reason entry)) (\<lambda>_. emit_deferred ok now batch reason)"

text \<open>
  \<open>now\<close> is read when the event is buffered, \<open>later\<close> when the buffer is emitted.  These are whole calls,
  run without interference of the other thread; the theory \<open>Claude_Threads\<close> has their actions one by
  one, for two threads, and shows that a call on its own comes to the same.
\<close>

definition defer_silent_event :: "(nat \<Rightarrow> bool) \<Rightarrow> pytime \<Rightarrow> pytime \<Rightarrow> dict \<Rightarrow> unit step" where
  "defer_silent_event ok now later event a =
     (let deferred = a_deferred a @ [(now, event)] in
      if MAX_DEFERRED \<le> length deferred
      then emit_deferred ok later deferred ''overflow'' (a\<lparr>a_deferred := []\<rparr>)
      else (Inr (), a\<lparr>a_deferred := deferred\<rparr>))"

definition flush_silent_events :: "(nat \<Rightarrow> bool) \<Rightarrow> pytime \<Rightarrow> string \<Rightarrow> nat step" where
  "flush_silent_events ok now reason a =
     (let batch = a_deferred a; a' = a\<lparr>a_deferred := []\<rparr> in
      if batch = [] then (Inr 0, a')
      else and_then (emit_deferred ok now batch reason) (\<lambda>_ a. (Inr (length batch), a)) a')"

definition wants_wake :: "dict \<Rightarrow> bool" where
  "wants_wake event = (case dget event ''wake'' of None \<Rightarrow> True | Some v \<Rightarrow> truthy v)"

definition emit_wake_event :: "(nat \<Rightarrow> bool) \<Rightarrow> pytime \<Rightarrow> pytime \<Rightarrow> dict \<Rightarrow> unit step" where
  "emit_wake_event ok now later event =
     (if \<not> wants_wake event then defer_silent_event ok now later event
      else and_then (flush_silent_events ok later ''preceding_wake'')
             (\<lambda>_. send ok (event_message event [])))"

subsection \<open>The permission relay\<close>

text \<open>
  \<open>config\<close> is what \<open>load_config\<close> gives, \<open>env\<close> the value of \<open>WAKE_HMAC_SECRET\<close>, \<open>t\<close> the time of
  day of the signature; \<open>url_ok\<close> says whether \<open>urllib\<close> builds a request for a URL.  A failed POST
  is logged and forgotten, so only that it was tried is kept.
\<close>

record relay_env =
  rl_sha :: "bytes \<Rightarrow> bytes"
  rl_hmac :: "bytes \<Rightarrow> bytes \<Rightarrow> bytes"
  rl_url_ok :: "string \<Rightarrow> bool"
  rl_config :: "cfg res"
  rl_env :: "string option"
  rl_time :: int

definition PENDING_TTL_SECONDS :: pytime where "PENDING_TTL_SECONDS = 300"

definition evict_expired :: "pytime \<Rightarrow> adapter \<Rightarrow> adapter" where
  "evict_expired now a =
     a\<lparr>a_perms := filter (\<lambda>(_, _, ts). \<not> ts < now - PENDING_TTL_SECONDS) (a_perms a)\<rparr>"

definition permission_headers :: "relay_env \<Rightarrow> bytes \<Rightarrow> bytes list \<Rightarrow> (string \<times> string) list" where
  "permission_headers P data keys =
     (''Content-Type'', ''application/json'')
     # (case sign_body (rl_sha P) (rl_hmac P) data keys (rl_time P) of
          None \<Rightarrow> [] | Some sig \<Rightarrow> [(SIGNATURE_HEADER, sig)])"

definition forward_permission_request :: "relay_env \<Rightarrow> dict \<Rightarrow> string \<Rightarrow> bytes list \<Rightarrow> unit step" where
  "forward_permission_request P payload url keys a =
     (let data = utf8 (dumps_u (VDict payload)) in
      if rl_url_ok P url
      then (Inr (), a\<lparr>a_posts := a_posts a @ [(url, permission_headers P data keys, data)]\<rparr>)
      else (Inl (ValueError (''unknown url type: '' @ repr_str url)), a))"

definition get_default :: "dict \<Rightarrow> string \<Rightarrow> string \<Rightarrow> pyval" where
  "get_default d k dflt = (case dget d k of None \<Rightarrow> VStr dflt | Some v \<Rightarrow> v)"

definition permission_payload :: "dict \<Rightarrow> dict" where
  "permission_payload params =
     map (\<lambda>k. (k, get_default params k [])) [''request_id'', ''tool_name'', ''tool_input'', ''session_id'']"

definition handle_permission_request :: "relay_env \<Rightarrow> pytime \<Rightarrow> dict \<Rightarrow> unit step" where
  "handle_permission_request P now params a =
     (let payload = permission_payload params in
      case rl_config P of
        Inl e \<Rightarrow> (Inl e, a)
      | Inr config \<Rightarrow>
          and_then
            (case dget config ''default_callback_url'' of
               Some url \<Rightarrow>
                 (if truthy url then forward_permission_request P payload (py_str url) (load_keys config (rl_env P))
                  else nothing)
             | None \<Rightarrow> nothing)
            (\<lambda>_ a. let a' = evict_expired now a in
               (case hashable (get_default params ''request_id'' []) of
                  Inl e \<Rightarrow> (Inl e, a')
                | Inr key \<Rightarrow> (Inr (), a'\<lparr>a_perms := dset key (payload, now) (a_perms a')\<rparr>))) a)"

definition verify_permission_body ::
  "relay_env \<Rightarrow> cfg \<Rightarrow> bytes \<Rightarrow> string option \<Rightarrow> bool \<Rightarrow> bool res" where
  "verify_permission_body P config body signature require_auth =
     (let keys = load_keys config (rl_env P) in
      case signature of
        None \<Rightarrow> Inr (\<not> require_auth)
      | Some s \<Rightarrow>
          verify_body (rl_sha P) (rl_hmac P) body (Some s) keys (rl_time P) REPLAY_WINDOW_SECONDS)"

definition handle_verdict :: "(nat \<Rightarrow> bool) \<Rightarrow> pytime \<Rightarrow> dict \<Rightarrow> unit step" where
  "handle_verdict ok now payload a =
     (let request_id = get_default payload ''request_id'' [];
          behavior = get_default payload ''behavior'' ''deny''
      in if behavior \<notin> {VStr ''allow'', VStr ''deny''}
         then (Inl (ValueError (''invalid behavior: '' @ py_repr behavior)), a)
         else
           (let a' = evict_expired now a in
            case hashable request_id of
              Inl e \<Rightarrow> (Inl e, a')
            | Inr key \<Rightarrow>
                send ok
                  [(''jsonrpc'', VStr ''2.0''), (''method'', VStr ''notifications/claude/channel/permission''),
                   (''params'', VDict [(''request_id'', request_id), (''behavior'', behavior)])]
                  (a'\<lparr>a_perms := dpop key (a_perms a')\<rparr>)))"

subsection \<open>The tool server\<close>

definition SILENT_INJECT_CAPABILITY :: dict where
  "SILENT_INJECT_CAPABILITY =
     [(''supported'', VBool True), (''mode'', VStr ''deferred''),
      (''reason'', VStr (''notifications/claude/channel has no noReply flag; an event delivered ''
                         @ ''to an idle session always starts a turn'')),
      (''semantics'', VStr (''wake:false events are buffered and emitted once a turn is already ''
                            @ ''underway, so they arrive as context without having triggered it'')),
      (''flush_triggers'',
         VList [VStr ''preceding_wake'', VStr ''tools_call'', VStr ''permission_request'']),
      (''max_deferred'', VInt (int MAX_DEFERRED)),
      (''overflow_behavior'', VStr ''flush_and_wake''), (''drops_events'', VBool False)]"

definition string_type :: pyval where
  "string_type = VDict [(''type'', VStr ''string'')]"

definition get_tool_definition :: dict where
  "get_tool_definition =
     [(''name'', VStr ''agent_wake_reply''),
      (''description'', VStr ''Reply to an external event source via agent-wake.''),
      (''inputSchema'', VDict
         [(''type'', VStr ''object''),
          (''properties'', VDict [(''source'', string_type), (''content'', string_type),
                                  (''in_reply_to'', string_type)]),
          (''required'', VList [VStr ''source'', VStr ''content''])])]"

definition rpc_reply :: "(nat \<Rightarrow> bool) \<Rightarrow> pyval option \<Rightarrow> dict \<Rightarrow> unit step" where
  "rpc_reply ok req_id result =
     send ok [(''jsonrpc'', VStr ''2.0''), (''id'', opt_val req_id), (''result'', VDict result)]"

definition rpc_error :: "(nat \<Rightarrow> bool) \<Rightarrow> pyval option \<Rightarrow> int \<Rightarrow> string \<Rightarrow> unit step" where
  "rpc_error ok req_id code message =
     send ok [(''jsonrpc'', VStr ''2.0''), (''id'', opt_val req_id),
              (''error'', VDict [(''code'', VInt code), (''message'', VStr message)])]"

definition initialize_result :: dict where
  "initialize_result =
     [(''protocolVersion'', VStr ''2025-03-26''),
      (''capabilities'', VDict
         [(''experimental'', VDict
             [(''claude/channel'', VDict []), (''claude/channel/permission'', VDict []),
              (''agent-wake/silent_inject'', VDict SILENT_INJECT_CAPABILITY)]),
          (''tools'', VDict [])]),
      (''serverInfo'', VDict [(''name'', VStr ''agent-wake''), (''version'', VStr ''0.0.1'')]),
      (''instructions'', VStr
         (''Events arrive as <channel source='' @ [CHR 0x22] @ ''agent-wake'' @ [CHR 0x22] @ '' ...>. ''
          @ ''The event's source is in the 'source' attribute and the ''
          @ ''kind is in the 'kind' attribute. Reply with the reply tool, ''
          @ ''passing the source from the tag.''))]"

text \<open>\<open>p or {}\<close> of a value that is then used as a mapping; a list has no \<open>get\<close>.\<close>

definition mapping_of :: "pyval option \<Rightarrow> dict res" where
  "mapping_of v =
     (if \<not> truthy_opt v then Inr [] else (case v of Some (VDict d) \<Rightarrow> Inr d | _ \<Rightarrow> Inl AttributeError))"

text \<open>
  \<open>now\<close> is the reading of the clock when the request arrives.  A tool call is handed to a thread;
  \<open>a_tools\<close> holds the calls that have been started.
\<close>

definition tools_call ::
  "(nat \<Rightarrow> bool) \<Rightarrow> pytime \<Rightarrow> pyval option \<Rightarrow> pyval option \<Rightarrow> unit step" where
  "tools_call ok now req_id params =
     and_then (flush_silent_events ok now ''tools_call'')
       (\<lambda>_ a.
          case mapping_of params of
            Inl e \<Rightarrow> (Inl e, a)
          | Inr ps \<Rightarrow>
              (let name = opt_val (dget ps ''name'') in
               if name \<noteq> VStr ''agent_wake_reply''
               then rpc_error ok req_id (-32601) (''unknown tool: '' @ py_str name) a
               else
                 (let args = dget ps ''arguments'' in
                  (Inr (), a\<lparr>a_tools := a_tools a @ 
                                     [(req_id, if truthy_opt args then opt_val args else VDict [])]\<rparr>))))"

text \<open>\<open>method and method.startswith(...)\<close>: a value that is no string but counts as true has no such method.\<close>

definition unhandled_method :: "(nat \<Rightarrow> bool) \<Rightarrow> pyval option \<Rightarrow> pyval \<Rightarrow> unit step" where
  "unhandled_method ok req_id mth =
     (if truthy mth \<and> \<not> is_str (Some mth) then (\<lambda>a. (Inl AttributeError, a))
      else if take 14 (py_str mth) = ''notifications/'' then nothing
      else if opt_val req_id \<noteq> VNone
      then rpc_error ok req_id (-32601) (''unknown method: '' @ py_str mth)
      else nothing)"

definition handle :: "relay_env \<Rightarrow> (nat \<Rightarrow> bool) \<Rightarrow> pytime \<Rightarrow> dict \<Rightarrow> unit step" where
  "handle P ok now msg =
     (let mth = opt_val (dget msg ''method''); req_id = dget msg ''id'';
          params = dget msg ''params''
      in if mth = VStr ''initialize'' then rpc_reply ok req_id initialize_result
         else if mth = VStr ''notifications/initialized'' then nothing
         else if mth = VStr ''tools/list''
         then rpc_reply ok req_id [(''tools'', VList [VDict get_tool_definition])]
         else if mth = VStr ''tools/call'' then tools_call ok now req_id params
         else if mth = VStr ''notifications/claude/channel/permission_request''
         then and_then (flush_silent_events ok now ''permission_request'')
                (\<lambda>_ a. case mapping_of params of
                          Inl e \<Rightarrow> (Inl e, a)
                        | Inr ps \<Rightarrow> handle_permission_request P now ps a)
         else unhandled_method ok req_id mth)"

text \<open>
  One line of the input of \<open>main\<close>.  False ends the loop, which only an error of the parser other
  than a syntax error does.
\<close>

definition serve_line ::
  "relay_env \<Rightarrow> (string \<Rightarrow> json_error + pyval) \<Rightarrow> (nat \<Rightarrow> bool) \<Rightarrow> pytime \<Rightarrow> string \<Rightarrow> adapter \<Rightarrow>
   bool \<times> adapter" where
  "serve_line P loads ok now line a =
     (if strip line = [] then (True, a)
      else
        (case loads (strip line) of
           Inr (VDict msg) \<Rightarrow>
             (case handle P ok now msg a of
                (Inr _, a') \<Rightarrow> (True, a')
              | (Inl _, a') \<Rightarrow>
                  (if opt_val (dget msg ''id'') \<noteq> VNone
                   then (True, snd (rpc_error ok (dget msg ''id'') (-32603)
                               ''Internal error -- check adapter logs'' a'))
                   else (True, a')))
         | Inl (Other_error _) \<Rightarrow> (False, a)
         | _ \<Rightarrow> (True, a)))"

end
