(* ===== verification/Claude_Client.thy ===== *)
theory Claude_Client
  imports Claude_Channel Config
begin

section \<open>The Claude Code adapter: configuration, daemon client and reply tool (\<open>adapters/claude\<close>)\<close>

text \<open>
  The adapter's reading of the configuration (\<open>config.py\<close>), its session with the daemon and the
  reconnection loop (\<open>client.py\<close>), and the reply tool with the bus that hands it the daemon's
  answers (\<open>reply.py\<close>).  The tool runs in a thread of its own, so a call is cut at the points
  where the client's thread can run.
\<close>

subsection \<open>Configuration\<close>

datatype adapter_error = Adapter_config_error string | Adapter_raised exn

definition supported_version :: "pyval \<Rightarrow> bool" where
  "supported_version v \<longleftrightarrow> py_num v = Some 0 \<or> py_num v = Some 1"

definition adapter_source :: "(string \<Rightarrow> string option) \<Rightarrow> dict \<Rightarrow> pyval" where
  "adapter_source getenv info =
     (let secret = (case dget info ''secret_env'' of
                      Some (VStr (c # s)) \<Rightarrow>
                        (case getenv (c # s) of None \<Rightarrow> VNone | Some v \<Rightarrow> VBytes (utf8 v))
                    | _ \<Rightarrow> VNone)
      in VDict [(''secret'', secret), (''callback_url'', opt_val (dget info ''callback_url''))])"

fun adapter_sources :: "(string \<Rightarrow> string option) \<Rightarrow> dict \<Rightarrow> dict \<Rightarrow> dict" where
  "adapter_sources getenv [] sources = sources"
| "adapter_sources getenv ((name, info) # rest) sources =
     adapter_sources getenv rest
       (case info of VDict d \<Rightarrow> dset name (adapter_source getenv d) sources | _ \<Rightarrow> sources)"

definition blank_entry :: "pyval \<Rightarrow> bool" where
  "blank_entry v = (case v of VStr s \<Rightarrow> strip s = [] | _ \<Rightarrow> True)"

definition has_part :: "pyval \<Rightarrow> bool" where
  "has_part v = (case v of VStr s \<Rightarrow> (\<exists>part \<in> set (split_on (CHR '','') s). strip part \<noteq> []) | _ \<Rightarrow> False)"

definition wake_keys :: "pyval \<Rightarrow> string + pyval list" where
  "wake_keys hmac_secret =
     (case (case hmac_secret of VStr s \<Rightarrow> VList [VStr s] | v \<Rightarrow> v) of
        VList (v # vs) \<Rightarrow>
          (if \<exists>x \<in> set (v # vs). blank_entry x
           then Inl (repr_str ''wake.hmac_secret'' @ '' entries must be non-empty strings.'')
           else if \<not> (\<exists>x \<in> set (v # vs). has_part x)
           then Inl (repr_str ''wake.hmac_secret'' @ '' must contain at least one key.'')
           else Inr (v # vs))
      | _ \<Rightarrow> Inl (repr_str ''wake.hmac_secret'' @ '' must be a string or non-empty list.''))"

definition adapter_wake :: "pyval option \<Rightarrow> string + dict" where
  "adapter_wake wake_raw =
     (case opt_val wake_raw of
        VNone \<Rightarrow> Inr []
      | VDict wake \<Rightarrow>
          (case opt_val (dget wake ''hmac_secret'') of
             VNone \<Rightarrow> Inr []
           | secret \<Rightarrow>
               (case wake_keys secret of Inl e \<Rightarrow> Inl e | Inr _ \<Rightarrow> Inr [(''hmac_secret'', secret)]))
      | _ \<Rightarrow> Inl (repr_str ''wake'' @ '' must be an object.''))"

text \<open>\<open>raw\<close> is what the file parses to.\<close>

definition read_adapter_config :: "(string \<Rightarrow> string option) \<Rightarrow> pyval \<Rightarrow> adapter_error + cfg" where
  "read_adapter_config getenv raw =
     (case raw of
        VDict d \<Rightarrow>
          (let version = getd d ''version'' (VInt 0) in
           if \<not> supported_version version
           then Inl (Adapter_config_error (''Unsupported config version '' @ py_repr version
                                           @ ''. Only 0 and 1 are accepted.''))
           else
             (case getd d ''listen'' (VDict []) of
                VDict listen \<Rightarrow>
                  (let sources_raw = getd d ''sources'' (VDict []) in
                   if \<not> truthy sources_raw
                   then Inl (Adapter_config_error ''At least one source must be configured.'')
                   else
                     (case sources_raw of
                        VDict srcs \<Rightarrow>
                          (case adapter_wake (dget d ''wake'') of
                             Inl e \<Rightarrow> Inl (Adapter_config_error e)
                           | Inr wake \<Rightarrow>
                               Inr [(''version'', version),
                                    (''host'', getd listen ''host'' (VStr ''127.0.0.1'')),
                                    (''port'', getd listen ''port'' (VInt 8788)),
                                    (''socket_path'', opt_val (dget d ''socket_path'')),
                                    (''sources'', VDict (adapter_sources getenv srcs [])),
                                    (''default_callback_url'', opt_val (dget d ''default_callback_url'')),
                                    (''wake'', VDict wake)])
                      | _ \<Rightarrow> Inl (Adapter_raised AttributeError)))
              | _ \<Rightarrow> Inl (Adapter_raised AttributeError)))
      | _ \<Rightarrow> Inl (Adapter_raised AttributeError))"

text \<open>The cache: \<open>disk\<close> is what reading the file gives.\<close>

definition load_adapter_config ::
  "(string \<Rightarrow> string option) \<Rightarrow> (adapter_error + pyval) \<Rightarrow> bool \<Rightarrow> cfg option \<Rightarrow>
   (adapter_error + cfg) \<times> cfg option" where
  "load_adapter_config getenv disk reload cached =
     (case (reload, cached) of
        (False, Some c) \<Rightarrow> (Inr c, cached)
      | _ \<Rightarrow>
          (case disk of
             Inl e \<Rightarrow> (Inl e, cached)
           | Inr raw \<Rightarrow>
               (case read_adapter_config getenv raw of
                  Inl e \<Rightarrow> (Inl e, cached)
                | Inr c \<Rightarrow> (Inr c, Some c))))"

definition adapter_source_names :: "cfg \<Rightarrow> string list" where
  "adapter_source_names config = map fst (table_of (dget config ''sources''))"

subsection \<open>The bus of reply results\<close>

text \<open>
  An entry is an object that the waiting thread keeps while the bus forgets it, so entries are
  cells and the bus maps a reply to the number of its cell and the time of registration.
\<close>

record client =
  k_adapter :: adapter
  k_frames :: "dict list"
  k_up :: bool
  k_bus :: "(string \<times> nat \<times> pytime) list"
  k_cells :: "dict option list"

definition new_client :: client where
  "new_client = \<lparr>k_adapter = new_adapter, k_frames = [], k_up = False, k_bus = [], k_cells = []\<rparr>"

definition ENTRY_TTL :: pytime where "ENTRY_TTL = 120"

definition bus_evict :: "pytime \<Rightarrow> client \<Rightarrow> client" where
  "bus_evict now k = k\<lparr>k_bus := filter (\<lambda>(_, _, ts). \<not> ts < now - ENTRY_TTL) (k_bus k)\<rparr>"

definition bus_register :: "pytime \<Rightarrow> string \<Rightarrow> client \<Rightarrow> client" where
  "bus_register now reply_id k =
     (let k' = bus_evict now k in
      k'\<lparr>k_bus := dset reply_id (length (k_cells k'), now) (k_bus k'), k_cells := k_cells k' @ [None]\<rparr>)"

definition bus_deliver :: "dict \<Rightarrow> client \<Rightarrow> unit res \<times> client" where
  "bus_deliver frame k =
     (case opt_val (dget frame ''reply_id'') of
        VNone \<Rightarrow> (Inr (), k)
      | key \<Rightarrow>
          (case hashable key of
             Inl e \<Rightarrow> (Inl e, k)
           | Inr (VStr reply_id) \<Rightarrow>
               (Inr (), case dget (k_bus k) reply_id of
                          None \<Rightarrow> k
                        | Some (cell, _) \<Rightarrow>
                            k\<lparr>k_bus := dpop reply_id (k_bus k),
                              k_cells := (k_cells k)[cell := Some frame]\<rparr>)
           | Inr _ \<Rightarrow> (Inr (), k)))"

text \<open>\<open>wait_result\<close> up to the wait, and from its end.\<close>

definition bus_lookup :: "string \<Rightarrow> client \<Rightarrow> nat option" where
  "bus_lookup reply_id k = map_option fst (dget (k_bus k) reply_id)"

definition bus_collect :: "string \<Rightarrow> nat \<Rightarrow> client \<Rightarrow> dict option \<times> client" where
  "bus_collect reply_id cell k =
     (case k_cells k ! cell of
        Some frame \<Rightarrow> (Some frame, k)
      | None \<Rightarrow> (None, k\<lparr>k_bus := dpop reply_id (k_bus k)\<rparr>))"

subsection \<open>A session with the daemon\<close>

text \<open>
  \<open>dl_up\<close> says whether a write to the daemon succeeds, \<open>dl_text\<close> is the \<open>str\<close> of an exception, and
  the clock is read at \<open>dl_now\<close> and \<open>dl_later\<close> while a line is handled.
\<close>

record dial =
  dl_loads :: "bytes \<Rightarrow> json_error + pyval"
  dl_ok :: "nat \<Rightarrow> bool"
  dl_up :: bool
  dl_text :: "exn \<Rightarrow> string"
  dl_now :: pytime
  dl_later :: pytime

datatype turn = Goes_on | Ends | Dies exn

text \<open>The limit of \<open>asyncio\<close>'s reader, which the client does not raise.\<close>

definition READ_LIMIT :: nat where "READ_LIMIT = 65536"

definition line_size :: "bytes \<Rightarrow> nat" where
  "line_size line = (if line \<noteq> [] \<and> last line = newline then length line - 1 else length line)"

definition write_daemon :: "dial \<Rightarrow> dict \<Rightarrow> client \<Rightarrow> turn \<times> client" where
  "write_daemon D frame k =
     (if dl_up D then (Goes_on, k\<lparr>k_frames := k_frames k @ [frame]\<rparr>)
      else (Dies (OSError ''Connection lost''), k))"

definition hello_frame :: "string \<Rightarrow> string list \<Rightarrow> dict" where
  "hello_frame pid sources =
     [(''type'', VStr ''hello''), (''v'', VInt 1), (''adapter'', VStr ''claude''),
      (''instance'', VStr (''pid-'' @ pid)),
      (''filters'', VDict [(''sources'', VList (map VStr sources))])]"

definition wake_answer :: "dial \<Rightarrow> pyval \<Rightarrow> unit res \<Rightarrow> dict" where
  "wake_answer D ack_id outcome =
     (case outcome of
        Inr _ \<Rightarrow> [(''type'', VStr ''ack''), (''ack_id'', ack_id)]
      | Inl e \<Rightarrow> [(''type'', VStr ''nack''), (''ack_id'', ack_id), (''reason'', VStr (dl_text D e))])"

definition handle_wake :: "dial \<Rightarrow> dict \<Rightarrow> client \<Rightarrow> turn \<times> client" where
  "handle_wake D frame k =
     (case (case getd frame ''event'' (VDict []) of
              VDict event \<Rightarrow> emit_wake_event (dl_ok D) (dl_now D) (dl_later D) event (k_adapter k)
            | _ \<Rightarrow> (Inl AttributeError, k_adapter k)) of
        (outcome, a) \<Rightarrow>
          write_daemon D (wake_answer D (opt_val (dget frame ''ack_id'')) outcome) (k\<lparr>k_adapter := a\<rparr>))"

definition on_frame :: "dial \<Rightarrow> dict \<Rightarrow> client \<Rightarrow> turn \<times> client" where
  "on_frame D frame k =
     (let t = opt_val (dget frame ''type'') in
      if t = VStr ''hello_ack'' then (Goes_on, k)
      else if t = VStr ''wake'' then handle_wake D frame k
      else if t = VStr ''reply_result'' then
        (case bus_deliver frame k of (Inr _, k') \<Rightarrow> (Goes_on, k') | (Inl e, k') \<Rightarrow> (Dies e, k'))
      else if t = VStr ''ping'' then write_daemon D [(''type'', VStr ''pong'')] k
      else if t = VStr ''error'' then
        (if truthy_opt (dget frame ''fatal'') then (Ends, k) else (Goes_on, k))
      else (Goes_on, k))"

definition on_daemon_line :: "dial \<Rightarrow> bytes \<Rightarrow> client \<Rightarrow> turn \<times> client" where
  "on_daemon_line D line k =
     (if line = [] then (Ends, k)
      else if READ_LIMIT < line_size line
      then (Dies (ValueError ''Separator is not found, and chunk exceed the limit''), k)
      else
        (case dl_loads D line of
           Inl JSONDecodeError \<Rightarrow> (Goes_on, k)
         | Inl (Other_error e) \<Rightarrow> (Dies e, k)
         | Inr (VDict frame) \<Rightarrow> on_frame D frame k
         | Inr _ \<Rightarrow> (Dies AttributeError, k)))"

text \<open>Lines while the session goes on; a session whose input is used up is still open.\<close>

fun session_loop :: "(dial \<times> bytes) list \<Rightarrow> client \<Rightarrow> turn \<times> client" where
  "session_loop [] k = (Goes_on, k)"
| "session_loop ((D, line) # rest) k =
     (case on_daemon_line D line k of
        (Goes_on, k') \<Rightarrow> session_loop rest k'
      | (t, k') \<Rightarrow> (t, k'))"

text \<open>\<open>conn\<close> is the outcome of connecting to the socket, the first dial that of the hello.\<close>

definition one_session ::
  "unit res \<Rightarrow> dial \<Rightarrow> string \<Rightarrow> string list \<Rightarrow> (dial \<times> bytes) list \<Rightarrow> client \<Rightarrow> turn \<times> client" where
  "one_session conn D pid sources inputs k =
     (case conn of
        Inl e \<Rightarrow> (Dies e, k)
      | Inr _ \<Rightarrow>
          (case write_daemon D (hello_frame pid sources) (k\<lparr>k_up := True\<rparr>) of
             (Goes_on, k1) \<Rightarrow>
               (case session_loop inputs k1 of
                  (Goes_on, k2) \<Rightarrow> (Goes_on, k2)
                | (t, k2) \<Rightarrow> (t, k2\<lparr>k_up := False\<rparr>))
           | (t, k1) \<Rightarrow> (t, k1\<lparr>k_up := False\<rparr>)))"

subsection \<open>Reconnecting\<close>

text \<open>How a session ends; cancellation is the only end of the loop.\<close>

datatype session_outcome = Clean | Lost exn | Cancelled_session

fun after_session :: "session_outcome \<Rightarrow> pytime \<Rightarrow> pytime \<times> pytime option" where
  "after_session Clean backoff = (0, Some 1)"
| "after_session (Lost e) backoff = (backoff, Some (min (backoff * 2) 30))"
| "after_session Cancelled_session backoff = (0, None)"

text \<open>The pauses of \<open>run_client\<close> and the backoff it is left with, \<open>None\<close> once it has stopped.\<close>

fun run_client :: "session_outcome list \<Rightarrow> pytime \<Rightarrow> pytime list \<times> pytime option" where
  "run_client [] backoff = ([], Some backoff)"
| "run_client (e # es) backoff =
     (case after_session e backoff of
        (pause, None) \<Rightarrow> ([pause], None)
      | (pause, Some b) \<Rightarrow> (case run_client es b of (ps, r) \<Rightarrow> (pause # ps, r)))"

subsection \<open>The reply tool\<close>

definition tool_text :: "string \<Rightarrow> dict" where
  "tool_text t = [(''content'', VList [VDict [(''type'', VStr ''text''), (''text'', VStr t)]])]"

definition tool_error :: "string \<Rightarrow> dict" where
  "tool_error t = tool_text t @ [(''isError'', VBool True)]"

definition MAX_REPLY_SIZE :: nat where "MAX_REPLY_SIZE = 65536"

text \<open>Cutting the encoded text and dropping a split character keeps the characters that fit.\<close>

fun utf8_clip :: "nat \<Rightarrow> string \<Rightarrow> string" where
  "utf8_clip n [] = []"
| "utf8_clip n (c # s) =
     (if length (utf8_char c) \<le> n then c # utf8_clip (n - length (utf8_char c)) s else [])"

text \<open>Up to the sending: a final answer, or the frame to send.\<close>

definition reply_frame :: "string \<Rightarrow> dict \<Rightarrow> (dict + dict) res" where
  "reply_frame reply_id arguments =
     (let source = dget arguments ''source''; content = dget arguments ''content'';
          in_reply_to = dget arguments ''in_reply_to''
      in if \<not> truthy_opt source \<or> \<not> truthy_opt content
         then Inr (Inl (tool_text ''missing required fields: source, content''))
         else
           (case opt_val content of
              VStr s \<Rightarrow>
                Inr (Inr [(''type'', VStr ''reply''), (''reply_id'', VStr reply_id),
                          (''source'', opt_val source),
                          (''in_reply_to'', if truthy_opt in_reply_to then opt_val in_reply_to else VStr []),
                          (''content'', VStr (if MAX_REPLY_SIZE < length (utf8 s)
                                              then utf8_clip MAX_REPLY_SIZE s else s))])
            | _ \<Rightarrow> Inl AttributeError))"

text \<open>\<open>sent\<close> is the outcome of the write that the client's loop makes for the tool.\<close>

definition send_reply_frame :: "unit res \<Rightarrow> dict \<Rightarrow> client \<Rightarrow> unit res \<times> client" where
  "send_reply_frame sent frame k =
     (if \<not> k_up k then (Inl (OtherError ''not connected to daemon''), k)
      else case sent of
             Inl e \<Rightarrow> (Inl e, k)
           | Inr _ \<Rightarrow> (Inr (), k\<lparr>k_frames := k_frames k @ [frame]\<rparr>))"

definition reply_outcome :: "dict option \<Rightarrow> dict" where
  "reply_outcome result =
     (case result of
        None \<Rightarrow> tool_error ''reply delivery failed: timed out''
      | Some r \<Rightarrow>
          (let status = opt_val (dget r ''status'') in
           if status = VStr ''delivered'' then tool_text ''sent''
           else if status = VStr ''no_callback'' then tool_text ''sent (no callback_url configured)''
           else tool_error (''reply delivery failed: ''
                            @ py_str (getd r ''error'' (VStr ''unknown error'')))))"

text \<open>
  The whole call: \<open>before\<close> are the lines the client handles between the write and the look-up in
  the bus, \<open>during\<close> those it handles while the tool waits.
\<close>

definition handle_reply_tool_call ::
  "(exn \<Rightarrow> string) \<Rightarrow> string \<Rightarrow> unit res \<Rightarrow> (dial \<times> bytes) list \<Rightarrow> (dial \<times> bytes) list \<Rightarrow> dict \<Rightarrow> client \<Rightarrow>
   dict res \<times> client" where
  "handle_reply_tool_call etext reply_id sent before during arguments k =
     (case reply_frame reply_id arguments of
        Inl e \<Rightarrow> (Inl e, k)
      | Inr (Inl answer) \<Rightarrow> (Inr answer, k)
      | Inr (Inr frame) \<Rightarrow>
          (case send_reply_frame sent frame k of
             (Inl e, k1) \<Rightarrow> (Inr (tool_error (''reply delivery failed: '' @ etext e)), k1)
           | (Inr _, k1) \<Rightarrow>
               (let k2 = snd (session_loop before k1) in
                case bus_lookup reply_id k2 of
                  None \<Rightarrow> (Inr (reply_outcome None), k2)
                | Some cell \<Rightarrow>
                    (let k3 = snd (session_loop during k2) in
                     case bus_collect reply_id cell k3 of
                       (result, k4) \<Rightarrow> (Inr (reply_outcome result), k4)))))"

definition run_reply_tool ::
  "(nat \<Rightarrow> bool) \<Rightarrow> (exn \<Rightarrow> string) \<Rightarrow> string \<Rightarrow> unit res \<Rightarrow> (dial \<times> bytes) list \<Rightarrow> (dial \<times> bytes) list \<Rightarrow>
   pyval option \<Rightarrow> pyval \<Rightarrow> client \<Rightarrow> unit res \<times> client" where
  "run_reply_tool ok etext reply_id sent before during req_id args k =
     (case (case args of
              VDict d \<Rightarrow> handle_reply_tool_call etext reply_id sent before during d k
            | _ \<Rightarrow> (Inl AttributeError, k)) of
        (Inr result, k') \<Rightarrow>
          (case rpc_reply ok req_id result (k_adapter k') of
             (Inr _, a) \<Rightarrow> (Inr (), k'\<lparr>k_adapter := a\<rparr>)
           | (Inl e, a) \<Rightarrow>
               (case rpc_error ok req_id (-32603) (''tool error: '' @ etext e) a of
                  (r, a') \<Rightarrow> (r, k'\<lparr>k_adapter := a'\<rparr>)))
      | (Inl e, k') \<Rightarrow>
          (case rpc_error ok req_id (-32603) (''tool error: '' @ etext e) (k_adapter k') of
             (r, a) \<Rightarrow> (r, k'\<lparr>k_adapter := a\<rparr>)))"

end
