(* ===== verification/Claude_Props.thy ===== *)
theory Claude_Props
  imports Claude_Client
begin

section \<open>Properties of the Claude Code adapter\<close>

text \<open>
  The buffer of silent events is a bounded queue that keeps the order of arrival; the frames the
  adapter writes are those the daemon's validators and frame loop accept; the loop of sessions
  reconnects for as long as it is not cancelled; a reply's content is bounded; a call of the reply
  tool never sees the daemon's answer, since nothing registers it with the bus.
\<close>

subsection \<open>Writing\<close>

named_theorems adapter_simps \<open>what each step leaves of the adapter's state\<close>

lemma send_ok [adapter_simps]:
  "ok (a_writes a) \<Longrightarrow>
   send ok msg a = (Inr (), a\<lparr>a_writes := Suc (a_writes a), a_sent := a_sent a @ [msg]\<rparr>)"
  by (simp add: send_def)

lemma send_frame [adapter_simps]:
  "a_deferred (snd (send ok msg a)) = a_deferred a" "a_perms (snd (send ok msg a)) = a_perms a"
  by (simp_all add: send_def Let_def)

text \<open>What a channel notification shows the model, in the order of the output.\<close>

definition message_content :: "dict \<Rightarrow> string option" where
  "message_content msg =
     (if dget msg ''method'' = Some (VStr ''notifications/claude/channel'')
      then str_of (dget (table_of (dget msg ''params'')) ''content'') else None)"

definition shown_contents :: "adapter \<Rightarrow> string list" where
  "shown_contents a = List.map_filter message_content (a_sent a)"

definition event_content :: "dict \<Rightarrow> string" where
  "event_content event = get_str event ''content'' []"

definition waiting_contents :: "adapter \<Rightarrow> string list" where
  "waiting_contents a = map (\<lambda>entry. event_content (snd entry)) (a_deferred a)"

lemma message_content_event [simp]: "message_content (event_message e extra) = Some (event_content e)"
  by (simp add: message_content_def event_message_def channel_message_def table_of_def str_of_def
      event_content_def)

lemma message_content_deferred [simp]:
  "message_content (deferred_message now reason entry) = Some (event_content (snd entry))"
  by (simp add: deferred_message_def)

lemma message_content_rpc [simp]:
  "message_content [(''jsonrpc'', v), (''id'', i), (''result'', r)] = None"
  "message_content [(''jsonrpc'', v), (''id'', i), (''error'', r)] = None"
  by (simp_all add: message_content_def)

subsection \<open>The buffer of silent events\<close>

lemma emit_deferred_all:
  assumes "\<forall>n. ok n"
  shows "emit_deferred ok now batch reason a =
    (Inr (), a\<lparr>a_writes := a_writes a + length batch,
               a_sent := a_sent a @ map (deferred_message now reason) batch\<rparr>)"
  using assms by (induction batch arbitrary: a) (simp_all add: nothing_def and_then_def adapter_simps)

lemma flush_all:
  assumes "\<forall>n. ok n"
  shows "flush_silent_events ok now reason a =
    (Inr (length (a_deferred a)),
     a\<lparr>a_writes := a_writes a + length (a_deferred a),
       a_sent := a_sent a @ map (deferred_message now reason) (a_deferred a), a_deferred := []\<rparr>)"
  using assms by (simp add: flush_silent_events_def Let_def and_then_def emit_deferred_all)

text \<open>What the adapter's threads feed it: events from the daemon and requests of the harness.\<close>

datatype feed = Daemon_event pytime pytime dict | Harness_request relay_env pytime dict

fun take_feed :: "(nat \<Rightarrow> bool) \<Rightarrow> feed \<Rightarrow> adapter \<Rightarrow> adapter" where
  "take_feed ok (Daemon_event now later event) a = snd (emit_wake_event ok now later event a)"
| "take_feed ok (Harness_request P now msg) a = snd (handle P ok now msg a)"

fun feed_contents :: "feed list \<Rightarrow> string list" where
  "feed_contents [] = []"
| "feed_contents (Daemon_event now later event # fs) = event_content event # feed_contents fs"
| "feed_contents (Harness_request P now msg # fs) = feed_contents fs"

definition fifo_state :: "adapter \<Rightarrow> string list" where
  "fifo_state a = shown_contents a @ waiting_contents a"

definition buffer_ok :: "adapter \<Rightarrow> bool" where
  "buffer_ok a \<longleftrightarrow> length (a_deferred a) < MAX_DEFERRED"

lemma map_filter_append: "List.map_filter f (xs @ ys) = List.map_filter f xs @ List.map_filter f ys"
  by (simp add: List.map_filter_def)

lemma map_filter_deferred:
  "List.map_filter message_content (map (deferred_message now reason) batch)
     = map (\<lambda>entry. event_content (snd entry)) batch"
  by (induction batch) (simp_all add: List.map_filter_simps)

lemma emit_wake_event_fifo:
  assumes "\<forall>n. ok n" and "buffer_ok a"
  shows "fifo_state (snd (emit_wake_event ok now later event a)) = fifo_state a @ [event_content event]"
    and "buffer_ok (snd (emit_wake_event ok now later event a))"
  using assms
  by (simp_all add: emit_wake_event_def defer_silent_event_def Let_def emit_deferred_all flush_all
      and_then_def adapter_simps fifo_state_def shown_contents_def waiting_contents_def
      map_filter_append map_filter_deferred List.map_filter_simps buffer_ok_def MAX_DEFERRED_def)

text \<open>A request leaves the buffer alone or empties it onto the output.\<close>

definition keeps_fifo :: "adapter \<Rightarrow> adapter \<Rightarrow> bool" where
  "keeps_fifo a a' \<longleftrightarrow> fifo_state a' = fifo_state a \<and> length (a_deferred a') \<le> length (a_deferred a)"

lemma keeps_fifo_refl [simp]: "keeps_fifo a a"
  by (simp add: keeps_fifo_def)

lemma keeps_fifo_trans: "keeps_fifo a b \<Longrightarrow> keeps_fifo b c \<Longrightarrow> keeps_fifo a c"
  by (simp add: keeps_fifo_def)

lemma keeps_fifo_fields:
  "a_sent a' = a_sent a \<Longrightarrow> a_deferred a' = a_deferred a \<Longrightarrow> keeps_fifo a a'"
  by (simp add: keeps_fifo_def fifo_state_def shown_contents_def waiting_contents_def)

lemma keeps_fifo_flush: "\<forall>n. ok n \<Longrightarrow> keeps_fifo a (snd (flush_silent_events ok now reason a))"
  by (simp add: flush_all keeps_fifo_def fifo_state_def shown_contents_def waiting_contents_def
      map_filter_append map_filter_deferred)

lemma keeps_fifo_send: "message_content msg = None \<Longrightarrow> keeps_fifo a (snd (send ok msg a))"
  by (simp add: send_def Let_def keeps_fifo_def fifo_state_def shown_contents_def waiting_contents_def
      map_filter_append List.map_filter_simps)

lemma keeps_fifo_rpc:
  "keeps_fifo a (snd (rpc_reply ok i r a))" "keeps_fifo a (snd (rpc_error ok i c m a))"
  by (simp_all add: rpc_reply_def rpc_error_def keeps_fifo_send)

lemma keeps_fifo_then:
  assumes "keeps_fifo a (snd (m a))" and "\<And>x b. keeps_fifo b (snd (f x b))"
  shows "keeps_fifo a (snd (and_then m f a))"
  using assms by (auto simp: and_then_def split: prod.split sum.split intro: keeps_fifo_trans)

lemma keeps_fifo_permission: "keeps_fifo a (snd (handle_permission_request P now params a))"
proof -
  have post: "keeps_fifo b (snd (forward_permission_request P p u ks b))" for p u ks b
    by (simp add: forward_permission_request_def Let_def keeps_fifo_fields del: dumps_u.simps)
  have first: "keeps_fifo b (snd ((case target of
        Some url \<Rightarrow> if truthy url then forward_permission_request P p (py_str url) ks else nothing
      | None \<Rightarrow> nothing) b))" for target p ks b
    by (simp add: nothing_def post split: option.split)
  show ?thesis
    unfolding handle_permission_request_def Let_def
    by (cases "rl_config P")
      (auto intro!: keeps_fifo_then first split: sum.split, auto simp: evict_expired_def intro: keeps_fifo_fields)
qed

lemma keeps_fifo_tools: "\<forall>n. ok n \<Longrightarrow> keeps_fifo a (snd (tools_call ok now i params a))"
  unfolding tools_call_def Let_def
  by (rule keeps_fifo_then)
    (auto split: sum.split intro: keeps_fifo_flush keeps_fifo_rpc keeps_fifo_fields)

lemma keeps_fifo_handle:
  assumes "\<forall>n. ok n"
  shows "keeps_fifo a (snd (handle P ok now msg a))"
proof -
  have permission: "keeps_fifo a (snd (and_then (flush_silent_events ok now r)
      (\<lambda>_ a. case mapping_of params of Inl e \<Rightarrow> (Inl e, a)
             | Inr ps \<Rightarrow> handle_permission_request P now ps a) a))" for r params
    using assms by (intro keeps_fifo_then keeps_fifo_flush)
      (auto split: sum.split intro: keeps_fifo_permission)
  have other: "keeps_fifo a (snd (unhandled_method ok i v a))" for i v
    by (simp add: unhandled_method_def nothing_def keeps_fifo_rpc)
  show ?thesis
    unfolding handle_def Let_def
    by (simp add: nothing_def keeps_fifo_rpc keeps_fifo_tools [OF assms] permission other)
qed

text \<open>
  The adapter is a queue.  With an output that can be written, whatever sequence of
  daemon events and harness requests it handles, what it has shown followed by what it still
  holds is the contents of all events in the order of their arrival: no silent event is dropped,
  none is shown twice, none is overtaken by a later one, and fewer than 64 are held back.  (Each call
  runs to its end here before the next begins; \<open>Claude_Threads\<close> has the two threads.)
\<close>

theorem silent_events_queue:
  assumes "\<forall>n. ok n"
  shows "fifo_state (fold (take_feed ok) fs new_adapter) = feed_contents fs
    \<and> length (a_deferred (fold (take_feed ok) fs new_adapter)) < 64"
proof -
  have "fifo_state (fold (take_feed ok) fs a) = fifo_state a @ feed_contents fs
      \<and> buffer_ok (fold (take_feed ok) fs a)" if "buffer_ok a" for a
    using that
  proof (induction fs arbitrary: a)
    case (Cons f fs)
    show ?case
    proof (cases f)
      case (Daemon_event now later event)
      then show ?thesis
        using Cons.IH [OF emit_wake_event_fifo(2) [OF assms Cons.prems]] emit_wake_event_fifo(1) [OF assms Cons.prems]
        by simp
    next
      case (Harness_request P now msg)
      have "keeps_fifo a (snd (handle P ok now msg a))" using assms by (rule keeps_fifo_handle)
      then show ?thesis
        using Cons.IH [of "snd (handle P ok now msg a)"] Cons.prems Harness_request
        by (simp add: keeps_fifo_def buffer_ok_def)
    qed
  qed simp
  from this [of new_adapter] show ?thesis
    by (simp add: new_adapter_def fifo_state_def shown_contents_def waiting_contents_def
        List.map_filter_simps buffer_ok_def MAX_DEFERRED_def)
qed

theorem silent_events_queue_witness:
  "fifo_state (fold (take_feed (\<lambda>_. True))
     [Daemon_event 0 0 [(''content'', VStr ''a''), (''wake'', VBool False)],
      Daemon_event 1 1 [(''content'', VStr ''b'')]] new_adapter) = [''a'', ''b'']"
  using silent_events_queue [of "\<lambda>_. True"
     "[Daemon_event 0 0 [(''content'', VStr ''a''), (''wake'', VBool False)],
       Daemon_event 1 1 [(''content'', VStr ''b'')]]"]
  by (simp add: event_content_def get_str_def)

text \<open>A deferred event is marked as silent whatever its own meta says.\<close>

lemma deferred_marked:
  "dget (channel_meta event [(''silent'', ''true''), (''flush_reason'', r), (''deferred_ms'', m)]) ''silent''
     = Some ''true''"
  by (simp add: channel_meta_def Let_def dget_dset)

text \<open>An event's meta replaces the attributes that say where the event came from.\<close>

lemma meta_replaces_source:
  "dget (channel_meta [(''source'', VStr ''ci''), (''kind'', VStr ''note''),
                       (''meta'', VDict [(''source'', VStr ''oncall'')])] []) ''source'' = Some ''oncall''"
  by code_simp

text \<open>Events that were acknowledged are gone when the output fails while the buffer is emptied.\<close>

lemma failed_flush_loses:
  "(let a = new_adapter\<lparr>a_deferred := [(0, [(''content'', VStr ''x'')]), (0, [(''content'', VStr ''y'')])]\<rparr>;
        r = flush_silent_events (\<lambda>n. 0 < n) 1 ''tools_call'' a
    in (fst r, a_sent (snd r), a_deferred (snd r))) = (Inl (OSError ''Broken pipe''), [], [])"
  by code_simp

subsection \<open>Frames to the daemon\<close>

lemma write_daemon_up [adapter_simps]:
  "dl_up D \<Longrightarrow> write_daemon D f k = (Goes_on, k\<lparr>k_frames := k_frames k @ [f]\<rparr>)"
  by (simp add: write_daemon_def)

text \<open>What the daemon's frame loop does with a sound frame of a connection.\<close>

lemma frame_turn_ack:
  assumes "read_frame loads line = Inr (VDict f)" and "validate_frame (VDict f) None = None"
    and "dget f ''type'' = Some (VStr t)" and "t \<in> {''ack'', ''nack''}"
    and "dget f ''ack_id'' = Some (VStr ack)"
  shows "frame_turn E loads up now sid c line S
    = (True, S\<lparr>sv_router := resolve_ack ack t (sv_router S)\<rparr>)"
  using assms by (auto simp: frame_turn_def Let_def get_str_def)

definition answer_type :: "unit res \<Rightarrow> string" where
  "answer_type outcome = (case outcome of Inr _ \<Rightarrow> ''ack'' | Inl _ \<Rightarrow> ''nack'')"

lemma wake_answer_valid:
  "validate_frame (VDict (wake_answer D (VStr ack) r)) None = None"
  by (cases r) (simp_all add: wake_answer_def validate_frame_def str_of_def VALIDATORS_def
      validate_ack_def validate_nack_def)

lemma wake_answer_fields:
  "dget (wake_answer D v r) ''type'' = Some (VStr (answer_type r))"
  "dget (wake_answer D v r) ''ack_id'' = Some v"
  "answer_type r \<in> {''ack'', ''nack''}"
  by (cases r; simp add: wake_answer_def answer_type_def)+

text \<open>
  Claim C21: a wake is answered with the verdict of showing it, and the daemon settles exactly that
  wake.  For a wake frame of the daemon, the adapter writes one frame, which the daemon's
  validator accepts; read back by the daemon's frame loop it keeps the connection and resolves the
  acknowledgement the frame carried, as an ack when the event was shown or buffered and as a nack
  when the output failed.
\<close>

theorem wake_answer_settles:
  assumes "dget frame ''type'' = Some (VStr ''wake'')" and "dget frame ''ack_id'' = Some (VStr ack)"
    and "dget frame ''event'' = Some (VDict event)" and "dl_up D"
    and "emit_wake_event (dl_ok D) (dl_now D) (dl_later D) event (k_adapter k) = (r, a)"
  shows "\<exists>f. on_frame D frame k = (Goes_on, k\<lparr>k_adapter := a, k_frames := k_frames k @ [f]\<rparr>)
    \<and> validate_frame (VDict f) None = None
    \<and> (\<forall>E loads up now sid c line S. read_frame loads line = Inr (VDict f) \<longrightarrow>
          frame_turn E loads up now sid c line S
            = (True, S\<lparr>sv_router :=
                resolve_ack ack (if isl r then ''nack'' else ''ack'') (sv_router S)\<rparr>))"
proof (intro exI conjI allI impI)
  let ?f = "wake_answer D (VStr ack) r"
  show "on_frame D frame k = (Goes_on, k\<lparr>k_adapter := a, k_frames := k_frames k @ [?f]\<rparr>)"
    using assms by (simp add: on_frame_def handle_wake_def getd_def opt_val_def adapter_simps)
  show "validate_frame (VDict ?f) None = None" by (rule wake_answer_valid)
  fix E loads up now sid c line S
  assume "read_frame loads line = Inr (VDict ?f)"
  then have "frame_turn E loads up now sid c line S
      = (True, S\<lparr>sv_router := resolve_ack ack (answer_type r) (sv_router S)\<rparr>)"
    by (rule frame_turn_ack) (rule wake_answer_valid wake_answer_fields)+
  then show "frame_turn E loads up now sid c line S
      = (True, S\<lparr>sv_router := resolve_ack ack (if isl r then ''nack'' else ''ack'') (sv_router S)\<rparr>)"
    by (cases r) (simp_all add: answer_type_def)
qed

definition sample_dial :: dial where
  "sample_dial = \<lparr>dl_loads = (\<lambda>_. Inl JSONDecodeError), dl_ok = (\<lambda>_. True), dl_up = True,
                  dl_text = (\<lambda>_. []), dl_now = 0, dl_later = 0\<rparr>"

theorem wake_answer_settles_witness:
  "\<exists>f. on_frame sample_dial [(''type'', VStr ''wake''), (''ack_id'', VStr ''1''),
      (''event'', VDict [(''wake'', VBool False)])] new_client
    = (Goes_on, new_client\<lparr>k_adapter := new_adapter\<lparr>a_deferred := [(0, [(''wake'', VBool False)])]\<rparr>,
                 k_frames := [f]\<rparr>)"
  using wake_answer_settles [of "[(''type'', VStr ''wake''), (''ack_id'', VStr ''1''),
      (''event'', VDict [(''wake'', VBool False)])]" "''1''" "[(''wake'', VBool False)]" sample_dial
      new_client "Inr ()" "new_adapter\<lparr>a_deferred := [(0, [(''wake'', VBool False)])]\<rparr>"]
  by (auto simp: sample_dial_def new_client_def new_adapter_def emit_wake_event_def wants_wake_def
      defer_silent_event_def MAX_DEFERRED_def)

text \<open>Every frame of a session passes the daemon's validator when the daemon's own do.\<close>

definition accepted_frame :: "dict \<Rightarrow> bool" where
  "accepted_frame f \<longleftrightarrow> validate_frame (VDict f) None = None"

definition sound_line :: "dial \<times> bytes \<Rightarrow> bool" where
  "sound_line p \<longleftrightarrow> (\<forall>frame. dl_loads (fst p) (snd p) = Inr (VDict frame) \<longrightarrow> accepted_frame frame)"

lemma write_daemon_frames:
  "set (k_frames (snd (write_daemon D f k))) \<subseteq> insert f (set (k_frames k))"
  by (auto simp: write_daemon_def)

lemma hello_accepted: "accepted_frame (hello_frame pid sources)"
  by (simp add: accepted_frame_def hello_frame_def validate_frame_def str_of_def VALIDATORS_def
      validate_hello_def version_is_one_def get_some_def is_list_def)

lemma pong_accepted: "accepted_frame [(''type'', VStr ''pong'')]"
  by (simp add: accepted_frame_def validate_frame_def str_of_def VALIDATORS_def validate_pong_def)

lemma accepted_wake_ack_id:
  assumes "accepted_frame frame" and "dget frame ''type'' = Some (VStr ''wake'')"
  shows "\<exists>ack. dget frame ''ack_id'' = Some (VStr ack)"
  using assms by (simp add: accepted_frame_def validate_frame_def str_of_def VALIDATORS_def validate_wake_def)

lemma bus_deliver_frames: "k_frames (snd (bus_deliver f k)) = k_frames k"
  by (simp add: bus_deliver_def split: pyval.split sum.split option.split)

lemma on_frame_frames:
  assumes "accepted_frame frame" and "f \<in> set (k_frames (snd (on_frame D frame k)))"
  shows "f \<in> set (k_frames k) \<or> accepted_frame f"
proof (cases "dget frame ''type'' = Some (VStr ''wake'')")
  case True
  then obtain ack where "dget frame ''ack_id'' = Some (VStr ack)"
    using accepted_wake_ack_id [OF assms(1)] by blast
  then show ?thesis
    using assms True write_daemon_frames wake_answer_valid
    by (fastforce simp: on_frame_def handle_wake_def opt_val_def accepted_frame_def split: prod.splits)
next
  case False
  have "opt_val (dget frame ''type'') \<noteq> VStr ''wake''"
    using False by (auto simp: opt_val_def split: option.split)
  then show ?thesis
    using assms(2) write_daemon_frames [of D _ k] pong_accepted bus_deliver_frames [of frame k]
    by (auto simp: on_frame_def Let_def split: if_splits prod.splits sum.splits)
qed

lemma on_daemon_line_frames:
  assumes "sound_line (D, line)" and "f \<in> set (k_frames (snd (on_daemon_line D line k)))"
  shows "f \<in> set (k_frames k) \<or> accepted_frame f"
  using assms on_frame_frames
  by (fastforce simp: on_daemon_line_def sound_line_def split: if_splits sum.splits json_error.splits pyval.splits)

lemma session_loop_frames:
  assumes "\<forall>p \<in> set inputs. sound_line p" and "f \<in> set (k_frames (snd (session_loop inputs k)))"
  shows "f \<in> set (k_frames k) \<or> accepted_frame f"
  using assms
proof (induction inputs k rule: session_loop.induct)
  case (2 D line rest k)
  obtain t k' where step: "on_daemon_line D line k = (t, k')" by (cases "on_daemon_line D line k")
  have "f \<in> set (k_frames k') \<or> accepted_frame f"
    using 2 step by (cases t) auto
  then show ?case using on_daemon_line_frames [of D line f k] step 2(2) by auto
qed simp

text \<open>
  The adapter speaks the daemon's protocol.  Over a session in which every frame of the
  daemon is one that the validators accept, every frame the adapter writes (its hello, the answers
  to wakes, the pongs) is accepted by the daemon's validator.
\<close>

theorem session_speaks_protocol:
  assumes "\<forall>p \<in> set inputs. sound_line p" and "k_frames k = []"
  shows "\<forall>f \<in> set (k_frames (snd (one_session conn D pid sources inputs k))).
    validate_frame (VDict f) None = None"
proof
  fix f assume f: "f \<in> set (k_frames (snd (one_session conn D pid sources inputs k)))"
  have "accepted_frame f"
  proof (cases conn)
    case (Inl e)
    then show ?thesis using f assms(2) by (simp add: one_session_def)
  next
    case (Inr u)
    let ?k1 = "k\<lparr>k_up := True, k_frames := [hello_frame pid sources]\<rparr>"
    show ?thesis
    proof (cases "dl_up D")
      case True
      obtain t k2 where run: "session_loop inputs ?k1 = (t, k2)" by (cases "session_loop inputs ?k1")
      have "f \<in> set (k_frames k2)"
        using f Inr True assms(2) run by (cases t) (simp_all add: one_session_def adapter_simps)
      then have "f \<in> set (k_frames ?k1) \<or> accepted_frame f"
        using session_loop_frames [OF assms(1), of f ?k1] run by simp
      then show ?thesis using hello_accepted by auto
    next
      case False
      then show ?thesis using f Inr assms(2) by (simp add: one_session_def write_daemon_def)
    qed
  qed
  then show "validate_frame (VDict f) None = None" by (simp add: accepted_frame_def)
qed

theorem session_speaks_protocol_witness:
  "\<forall>f \<in> set (k_frames (snd (one_session (Inr ()) sample_dial ''7'' [''ci''] [(sample_dial, [newline])] new_client))).
    validate_frame (VDict f) None = None"
  by (rule session_speaks_protocol) (simp_all add: sound_line_def sample_dial_def new_client_def)

text \<open>A wake frame longer than the reader's limit ends the session instead of being answered.\<close>

lemma big_frame_ends_session:
  assumes "newline \<notin> set l" and "READ_LIMIT < length l"
  shows "\<exists>e. session_loop ((D, l @ [newline]) # rest) k = (Dies (ValueError e), k)"
  using assms by (simp add: on_daemon_line_def line_size_def)

subsection \<open>Reconnecting\<close>

definition pause_ok :: "pytime \<Rightarrow> bool" where
  "pause_ok b \<longleftrightarrow> 1 \<le> b \<and> b \<le> 30"

lemma run_client_alive:
  "Cancelled_session \<notin> set es \<Longrightarrow> pause_ok b \<Longrightarrow>
   \<exists>ps r. run_client es b = (ps, Some r) \<and> length ps = length es \<and> pause_ok r
     \<and> (\<forall>p \<in> set ps. 0 \<le> p \<and> p \<le> 30)"
proof (induction es arbitrary: b)
  case (Cons e es)
  obtain p r where step: "after_session e b = (p, Some r)" and r: "pause_ok r" "0 \<le> p" "p \<le> 30"
    using Cons.prems by (cases e) (auto simp: pause_ok_def)
  then show ?case using Cons.IH [OF _ r(1)] Cons.prems(1) by auto
qed simp

lemma run_client_append:
  "run_client (es @ fs) b =
     (case run_client es b of
        (ps, None) \<Rightarrow> (ps, None)
      | (ps, Some r) \<Rightarrow> (case run_client fs r of (qs, r') \<Rightarrow> (ps @ qs, r')))"
proof (induction es arbitrary: b)
  case (Cons e es)
  then show ?case by (cases e) (auto split: prod.splits option.splits)
qed (simp split: prod.split)

definition backoff_after :: "nat \<Rightarrow> pytime" where
  "backoff_after n = min (2 ^ n) 30"

lemma backoff_after_Suc: "min (backoff_after n * 2) 30 = backoff_after (Suc n)"
  by (simp add: backoff_after_def min_def)

lemma run_client_losses:
  "run_client (map Lost xs) (backoff_after n)
     = (map (\<lambda>i. backoff_after (n + i)) [0..<length xs], Some (backoff_after (n + length xs)))"
proof (induction xs arbitrary: n)
  case (Cons x xs)
  have "map (\<lambda>i. backoff_after (n + i)) [0..<Suc (length xs)]
      = backoff_after n # map (\<lambda>i. backoff_after (Suc n + i)) [0..<length xs]"
    by (simp only: upt_conv_Cons [OF zero_less_Suc] list.map add_0_right map_Suc_upt [symmetric] map_map o_def
        add_Suc_shift)
  then show ?case using Cons.IH [of "Suc n"] by (simp add: backoff_after_Suc del: upt_Suc)
qed simp

text \<open>
  Claim C22: the adapter never gives up on the daemon.  Until it is cancelled, every session that
  ends, for whatever reason, is followed by another attempt after at most 30 seconds; after a
  session that ended cleanly the pauses of the following failures start again at one second and
  double up to 30.
\<close>

theorem keeps_reconnecting:
  assumes "Cancelled_session \<notin> set es"
  shows "\<exists>ps. run_client (es @ Clean # map Lost xs) 1
      = (ps @ 0 # map (\<lambda>i. min (2 ^ i) 30) [0..<length xs], Some (min (2 ^ length xs) 30))
    \<and> length ps = length es \<and> (\<forall>p \<in> set ps. 0 \<le> p \<and> p \<le> 30)"
proof -
  obtain ps r where ps: "run_client es 1 = (ps, Some r)" "length ps = length es"
    "\<forall>p \<in> set ps. 0 \<le> p \<and> p \<le> 30"
    using run_client_alive [OF assms, of 1] by (auto simp: pause_ok_def)
  have "run_client (map Lost xs) 1
      = (map (\<lambda>i. min (2 ^ i) 30) [0..<length xs], Some (min (2 ^ length xs) 30))"
    using run_client_losses [of xs 0] by (simp add: backoff_after_def)
  with ps show ?thesis by (simp add: run_client_append)
qed

theorem keeps_reconnecting_witness:
  "\<exists>ps. run_client ([Lost AttributeError] @ Clean # map Lost [TypeError, TypeError]) 1
      = (ps @ 0 # map (\<lambda>i. min (2 ^ i) 30) [0..<length [TypeError, TypeError]],
         Some (min (2 ^ length [TypeError, TypeError]) 30))
    \<and> length ps = length [Lost AttributeError] \<and> (\<forall>p \<in> set ps. 0 \<le> p \<and> p \<le> 30)"
  by (rule keeps_reconnecting) simp

text \<open>Sessions that end cleanly one after the other are separated by no pause at all.\<close>

lemma clean_ends_spin: "run_client (replicate n Clean) 1 = (replicate n 0, Some 1)"
  by (induction n) simp_all

subsection \<open>The reply tool\<close>

lemma utf8_clip_fits: "length (utf8 (utf8_clip n s)) \<le> n"
proof (induction n s rule: utf8_clip.induct)
  case (2 n c s)
  then show ?case by (simp add: utf8_def) linarith
qed (simp add: utf8_def)

lemma utf8_clip_prefix: "\<exists>t. s = utf8_clip n s @ t"
  by (induction n s rule: utf8_clip.induct) auto

lemma utf8_clip_all: "length (utf8 s) \<le> n \<Longrightarrow> utf8_clip n s = s"
  by (induction n s rule: utf8_clip.induct) (auto simp: utf8_def)

lemma utf8_clip_maximal:
  assumes "s = utf8_clip n s @ c # t"
  shows "n < length (utf8 (utf8_clip n s @ [c]))"
  using assms
proof (induction n s rule: utf8_clip.induct)
  case (2 n d s)
  then show ?case by (auto simp: utf8_def split: if_splits)
qed simp

text \<open>
  What the reply tool sends.  For a call with a text and a source, the frame carries the
  longest beginning of the text whose encoding fits 65536 bytes, and the daemon's validator
  accepts it exactly when the source and the message replied to are strings.
\<close>

theorem reply_frame_sound:
  assumes "dget args ''content'' = Some (VStr s)" and "s \<noteq> []" and "truthy_opt (dget args ''source'')"
  shows "\<exists>f. reply_frame rid args = Inr (Inr f) \<and> dget f ''content'' = Some (VStr (utf8_clip 65536 s))
    \<and> length (utf8 (utf8_clip 65536 s)) \<le> 65536
    \<and> (\<exists>t. s = utf8_clip 65536 s @ t \<and> (t \<noteq> [] \<longrightarrow> 65536 < length (utf8 (utf8_clip 65536 s @ [hd t]))))
    \<and> (validate_frame (VDict f) None = None \<longleftrightarrow>
         is_str (dget args ''source'')
         \<and> (truthy_opt (dget args ''in_reply_to'') \<longrightarrow> is_str (dget args ''in_reply_to'')))"
proof -
  obtain src where src: "dget args ''source'' = Some src" "truthy src"
    using assms(3) by (auto simp: truthy_opt_def split: option.splits)
  let ?irt = "if truthy_opt (dget args ''in_reply_to'') then opt_val (dget args ''in_reply_to'') else VStr []"
  let ?f = "[(''type'', VStr ''reply''), (''reply_id'', VStr rid), (''source'', src),
             (''in_reply_to'', ?irt), (''content'', VStr (utf8_clip 65536 s))]"
  have "(if MAX_REPLY_SIZE < length (utf8 s) then utf8_clip MAX_REPLY_SIZE s else s) = utf8_clip 65536 s"
    using utf8_clip_all [of s 65536] by (simp add: MAX_REPLY_SIZE_def)
  then have frame: "reply_frame rid args = Inr (Inr ?f)"
    using assms src by (simp add: reply_frame_def Let_def truthy_opt_def opt_val_def)
  obtain t where t: "s = utf8_clip 65536 s @ t" using utf8_clip_prefix by blast
  have maximal: "t \<noteq> [] \<longrightarrow> 65536 < length (utf8 (utf8_clip 65536 s @ [hd t]))"
    using t utf8_clip_maximal [of s 65536 "hd t" "tl t"] by (cases t) simp_all
  have "validate_frame (VDict ?f) None = None \<longleftrightarrow> (\<exists>x. src = VStr x) \<and> (\<exists>x. ?irt = VStr x)"
    by (simp add: validate_frame_def str_of_def VALIDATORS_def validate_reply_def get_some_def)
  then have valid: "validate_frame (VDict ?f) None = None \<longleftrightarrow>
      is_str (dget args ''source'')
      \<and> (truthy_opt (dget args ''in_reply_to'') \<longrightarrow> is_str (dget args ''in_reply_to''))"
    using src(1) by (auto simp: opt_val_def truthy_opt_def is_str_def split: option.splits pyval.splits)
  show ?thesis
    using frame valid utf8_clip_fits t maximal by (intro exI [of _ ?f] conjI exI [of _ t]) simp_all
qed

theorem reply_frame_sound_witness:
  "\<exists>f. reply_frame ''r'' [(''source'', VStr ''ci''), (''content'', VStr ''hi'')] = Inr (Inr f)
    \<and> validate_frame (VDict f) None = None"
  using reply_frame_sound [of "[(''source'', VStr ''ci''), (''content'', VStr ''hi'')]" "''hi''" "''r''"]
  by (auto simp: truthy_opt_def is_str_def)

text \<open>Nothing the client's thread does adds to the bus, so a bus that is empty stays empty.\<close>

lemma write_daemon_bus: "k_bus (snd (write_daemon D f k)) = k_bus k" "k_up (snd (write_daemon D f k)) = k_up k"
  by (simp_all add: write_daemon_def)

lemma bus_deliver_bus: "k_bus k = [] \<Longrightarrow> k_bus (snd (bus_deliver f k)) = []"
  by (simp add: bus_deliver_def split: pyval.split sum.split)

lemma on_frame_bus: "k_bus k = [] \<Longrightarrow> k_bus (snd (on_frame D f k)) = []"
  using bus_deliver_bus [of k f]
  by (auto simp: on_frame_def handle_wake_def write_daemon_bus Let_def split: prod.splits sum.splits)

lemma session_loop_bus: "k_bus k = [] \<Longrightarrow> k_bus (snd (session_loop inputs k)) = []"
proof (induction inputs k rule: session_loop.induct)
  case (2 D line rest k)
  have "k_bus (snd (on_daemon_line D line k)) = []"
    using 2(2) on_frame_bus
    by (simp add: on_daemon_line_def split: sum.split json_error.split pyval.split)
  then show ?case using 2(1) by (auto split: prod.splits turn.splits)
qed simp

lemma one_session_bus: "k_bus k = [] \<Longrightarrow> k_bus (snd (one_session conn D pid sources inputs k)) = []"
  using session_loop_bus [of "k\<lparr>k_up := True, k_frames := k_frames k @ [hello_frame pid sources]\<rparr>" inputs]
  by (auto simp: one_session_def write_daemon_def split: sum.split prod.splits turn.splits)

text \<open>
  The reply tool does not wait for the daemon.  Whatever sessions the adapter has had
  and whatever frames arrive while the call runs (the daemon's \<open>delivered\<close> included), a reply that
  was written to the daemon is reported to the model as failed with a time-out, because no code
  registers the reply with the bus its result is handed over by.
\<close>

theorem sent_reply_reported_failed:
  assumes "k = snd (one_session conn D pid sources inputs new_client)" and "k_up k"
    and "reply_frame rid args = Inr (Inr f)"
  shows "fst (handle_reply_tool_call etext rid (Inr ()) before during args k)
      = Inr (tool_error ''reply delivery failed: timed out'')
    \<and> f \<in> set (k_frames (snd (send_reply_frame (Inr ()) f k)))"
proof -
  have "k_bus k = []" using assms(1) one_session_bus by (simp add: new_client_def)
  then have "k_bus (snd (session_loop before (k\<lparr>k_frames := k_frames k @ [f]\<rparr>))) = []"
    by (intro session_loop_bus) simp
  then show ?thesis
    using assms(2,3)
    by (simp add: handle_reply_tool_call_def send_reply_frame_def bus_lookup_def Let_def reply_outcome_def)
qed

theorem sent_reply_reported_failed_witness:
  "fst (handle_reply_tool_call (\<lambda>_. []) ''r'' (Inr ()) [] [] [(''source'', VStr ''ci''), (''content'', VStr ''hi'')]
      (snd (one_session (Inr ()) sample_dial ''7'' [''ci''] [] new_client)))
    = Inr (tool_error ''reply delivery failed: timed out'')"
  using sent_reply_reported_failed [OF HOL.refl, of "Inr ()" sample_dial "''7''" "[''ci'']" "[]" "''r''"
      "[(''source'', VStr ''ci''), (''content'', VStr ''hi'')]"
      "[(''type'', VStr ''reply''), (''reply_id'', VStr ''r''), (''source'', VStr ''ci''),
        (''in_reply_to'', VStr []), (''content'', VStr ''hi'')]" "\<lambda>_. []" "[]" "[]"]
  by (simp add: one_session_def write_daemon_def sample_dial_def new_client_def reply_frame_def
      truthy_opt_def opt_val_def MAX_REPLY_SIZE_def utf8_def utf8_char_def Let_def)

text \<open>Had the call registered first, a result that arrives while it waits would be its answer.\<close>

lemma registered_reply_answered:
  assumes "dget frame ''reply_id'' = Some (VStr rid)"
  shows "\<exists>cell. bus_lookup rid (bus_register now rid k) = Some cell
    \<and> fst (bus_collect rid cell (snd (bus_deliver frame (bus_register now rid k)))) = Some frame"
  using assms by (simp add: bus_lookup_def bus_register_def bus_collect_def bus_deliver_def Let_def
      opt_val_def dget_dset bus_evict_def)

text \<open>A configuration of version 2, which the daemon accepts, is refused by the adapter.\<close>

lemma adapter_refuses_v2:
  "\<exists>e. read_adapter_config getenv (VDict ((''version'', VInt 2) # d)) = Inl (Adapter_config_error e)"
  by (simp add: read_adapter_config_def getd_def supported_version_def)

text \<open>A verdict is relayed for a request that is not pending, also when none was ever made.\<close>

lemma verdict_without_request:
  "\<exists>msg. handle_verdict (\<lambda>_. True) now [(''request_id'', VStr ''x''), (''behavior'', VStr ''allow'')] new_adapter
     = (Inr (), new_adapter\<lparr>a_writes := 1, a_sent := [msg]\<rparr>)"
  by (simp add: handle_verdict_def Let_def get_default_def evict_expired_def new_adapter_def send_def)

text \<open>Only the two verdicts are relayed, and the default is to deny.\<close>

lemma verdict_values:
  assumes "handle_verdict ok now payload a = (r, a')" and "msg \<in> set (a_sent a') - set (a_sent a)"
  shows "dget (table_of (dget msg ''params'')) ''behavior''
      \<in> {Some (VStr ''allow''), Some (VStr ''deny'')}"
  using assms
  by (auto simp: handle_verdict_def Let_def evict_expired_def send_def table_of_def
      split: if_splits sum.splits)

end
