(* ===== verification/Hermes.thy ===== *)
theory Hermes
  imports Claude_Channel
begin

section \<open>The Hermes plugin (\<open>adapters/hermes/__init__.py\<close>)\<close>

text \<open>
  One HTTP listener and one queue of events per session.  The listeners share the table of queues,
  so an event is filed under the session its header names, whichever listener received it.  A
  request is its headers and what reading the body gives; the plugin holds no code that takes
  events out of a queue.
\<close>

record hermes =
  h_queues :: "(string \<times> pyval list) list"
  h_listeners :: "string list"
  h_log :: "string list"

definition new_hermes :: hermes where
  "new_hermes = \<lparr>h_queues = [], h_listeners = [], h_log = []\<rparr>"

definition enqueue :: "string \<Rightarrow> pyval \<Rightarrow> hermes \<Rightarrow> hermes" where
  "enqueue session event h =
     (let qs = setdefault session [] (h_queues h) in
      h\<lparr>h_queues := dset session (the (dget qs session) @ [event]) qs\<rparr>)"

text \<open>
  \<open>len_header\<close> and \<open>session_header\<close> are the two headers, \<open>read n\<close> the body; \<open>Inl\<close> is an exception,
  which drops the connection without an answer.
\<close>

definition do_post ::
  "(bytes \<Rightarrow> json_error + pyval) \<Rightarrow> string option \<Rightarrow> string option \<Rightarrow> (int \<Rightarrow> bytes) \<Rightarrow> hermes \<Rightarrow>
   (nat \<times> dict) res \<times> hermes" where
  "do_post loads len_header session_header read h =
     (case (case len_header of None \<Rightarrow> Some 0 | Some s \<Rightarrow> parse_int s) of
        None \<Rightarrow> (Inl (ValueError ''invalid literal for int()''), h)
      | Some content_length \<Rightarrow>
          (let body = (if content_length \<noteq> 0 then read content_length else []);
               session_id = (case session_header of None \<Rightarrow> [] | Some s \<Rightarrow> s)
           in case (if body \<noteq> [] then loads body else Inr (VDict [])) of
                Inl JSONDecodeError \<Rightarrow> (Inr (400, [(''error'', VStr ''invalid JSON'')]), h)
              | Inl (Other_error e) \<Rightarrow> (Inl e, h)
              | Inr event \<Rightarrow>
                  if session_id = []
                  then (Inr (400, [(''error'', VStr ''missing X-Agent-Wake-Session header'')]), h)
                  else (Inr (200, [(''status'', VStr ''queued''), (''session_id'', VStr session_id)]),
                        enqueue session_id event h)))"

definition on_session_start :: "string \<Rightarrow> hermes \<Rightarrow> hermes" where
  "on_session_start session h =
     h\<lparr>h_listeners := (if session \<in> set (h_listeners h) then h_listeners h else h_listeners h @ [session]),
       h_queues := setdefault session [] (h_queues h)\<rparr>"

definition stop_listener :: "string \<Rightarrow> hermes \<Rightarrow> hermes" where
  "stop_listener session h = h\<lparr>h_listeners := removeAll session (h_listeners h)\<rparr>"

definition on_session_end :: "string \<Rightarrow> hermes \<Rightarrow> hermes" where
  "on_session_end session h =
     (let h' = stop_listener session h; q = dget (h_queues h') session;
          h'' = h'\<lparr>h_queues := dpop session (h_queues h')\<rparr>
      in case q of
           Some (e # es) \<Rightarrow>
             h''\<lparr>h_log := h_log h'' @ [''wake: '' @ nat_str (length (e # es))
                  @ '' uncollected event(s) discarded for session '' @ session]\<rparr>
         | _ \<Rightarrow> h'')"

text \<open>A queued answer files the event last in its session's queue and touches no other queue.\<close>

lemma queued_event:
  assumes "do_post loads len_h (Some s) read h = (Inr (200, r), h')"
  shows "\<exists>event. dget (h_queues h') s
        = Some ((case dget (h_queues h) s of None \<Rightarrow> [] | Some q \<Rightarrow> q) @ [event])
    \<and> (\<forall>t. t \<noteq> s \<longrightarrow> dget (h_queues h') t = dget (h_queues h) t)"
proof -
  obtain event where "h' = enqueue s event h"
    using assms by (auto simp: do_post_def Let_def
        split: option.splits sum.splits json_error.splits if_splits)
  then show ?thesis
    by (auto simp: enqueue_def Let_def dget_dset dget_setdefault split: option.splits)
qed

text \<open>
  An event for a session that has ended is answered as queued by the listener of another session,
  in a queue that nothing reads and no session's end removes.
\<close>

lemma ended_session_still_queues:
  "(let h = on_session_end ''a'' (on_session_start ''b'' (on_session_start ''a'' new_hermes));
        r = do_post (\<lambda>_. Inr VNone) (Some ''4'') (Some ''a'') (\<lambda>_. ''null'') h
    in (map_sum id fst (fst r), dget (h_queues (snd r)) ''a'', h_listeners (snd r)))
   = (Inr 200, Some [VNone], [''b''])"
  by code_simp

end
