(* ===== verification/Health.thy ===== *)
theory Health
  imports Lifecycle
begin

section \<open>The health document (\<open>ingest.py\<close>, \<open>router.py\<close>, \<open>delivery.py\<close>)\<close>

text \<open>
  What \<open>GET /\<close> answers: the state of the daemon's secrets, of its subscribers, of the delivery to
  humans and of the store.  \<open>age_text\<close> prints the age of a connection.
\<close>

definition names :: "string list \<Rightarrow> pyval" where
  "names ss = VList (map VStr ss)"

definition adapters_of :: "subscriber list \<Rightarrow> string list" where
  "adapters_of subs = sort (remdups (map s_adapter subs))"

definition oldest_age :: "(rat \<Rightarrow> string) \<Rightarrow> pytime \<Rightarrow> subscriber list \<Rightarrow> pyval" where
  "oldest_age age_text now subs =
     (case map (\<lambda>s. now - s_connected_at s) subs of
        [] \<Rightarrow> VNone
      | a # as \<Rightarrow> (let m = fold max as a in VFloat m (age_text m)))"

definition source_health :: "(rat \<Rightarrow> string) \<Rightarrow> pytime \<Rightarrow> router \<Rightarrow> string \<Rightarrow> pyval" where
  "source_health age_text now R source =
     (let subs = subscribers_for_source R source in
      VDict [(''subscribers'', VInt (int (length subs))), (''adapters'', names (adapters_of subs)),
             (''oldest_age_seconds'', oldest_age age_text now subs)])"

definition health_sources :: "router \<Rightarrow> string list" where
  "health_sources R = sort (map fst (sender_table (r_config R)))"

definition live_only_sources :: "router \<Rightarrow> string list" where
  "live_only_sources R = (if default_delivery (r_config R) = LIVE_ONLY then health_sources R else [])"

definition uncovered_sources :: "router \<Rightarrow> string list" where
  "uncovered_sources R = filter (\<lambda>s. subscribers_for_source R s = []) (live_only_sources R)"

definition subscriber_health :: "(rat \<Rightarrow> string) \<Rightarrow> pytime \<Rightarrow> router \<Rightarrow> dict" where
  "subscriber_health age_text now R =
     [(''connected'', VInt (int (length (r_subs R)))),
      (''connected_adapters'', names (adapters_of (map snd (r_subs R)))),
      (''by_source'', VDict (map (\<lambda>s. (s, source_health age_text now R s)) (health_sources R))),
      (''live_only_sources'', names (live_only_sources R)),
      (''live_only_without_subscribers'', names (uncovered_sources R))]"

text \<open>The failures are sorted by channel and principal.\<close>

definition failing_channel :: "(string \<times> string) \<times> pyval \<Rightarrow> pyval" where
  "failing_channel f =
     (case f of ((ch, pid), err) \<Rightarrow>
        VDict [(''channel'', VStr ch), (''principal_id'', VStr pid), (''last_error'', err)])"

definition delivery_summary :: "health \<Rightarrow> dict" where
  "delivery_summary h =
     [(''delivered'', VInt (h_delivered h)),
      (''failing_channels'', VList (map failing_channel
         (sort_key (\<lambda>f. fst (fst f)) (sort_key (\<lambda>f. snd (fst f)) (h_failures h))))),
      (''unknown_principals'', names (sorted_list_of_set (h_unknown h))),
      (''lost_alerts'', VInt (h_lost h)), (''last_lost_alert'', opt_str (h_last_lost h))]"

text \<open>
  \<open>conns\<close> is the number of connections when there is a socket server, \<open>health\<close> that of human
  delivery when it is on, \<open>store\<close> the durable store when there is one.
\<close>

definition health_document ::
  "(rat \<Rightarrow> string) \<Rightarrow> string \<Rightarrow> (string \<Rightarrow> string option) \<Rightarrow> pytime \<Rightarrow> router \<Rightarrow> nat option \<Rightarrow>
   health option \<Rightarrow> store option \<Rightarrow> dict" where
  "health_document age_text version environ now R conns health st =
     [(''status'', VStr (if uncovered_sources R \<noteq> [] then ''degraded'' else ''ok'')),
      (''version'', VStr version),
      (''sources'', VDict (health_summary environ (r_config R))),
      (''subscribers'', VDict (subscriber_health age_text now R))]
     @ (case conns of None \<Rightarrow> [] | Some n \<Rightarrow> [(''adapters'', VInt (int n))])
     @ (case health of None \<Rightarrow> [] | Some h \<Rightarrow> [(''delivery'', VDict (delivery_summary h))])
     @ (case st of
          None \<Rightarrow> []
        | Some s \<Rightarrow> [(''store'', VDict [(''durable'', VBool True), (''pending'', VInt (int (pending_count s))),
                                       (''dead_letter'', VInt (int (dead_letter_count False s)))])])"

lemma health_document_fields:
  "dget (health_document age_text ver environ now R conns health st) ''sources''
     = Some (VDict (health_summary environ (r_config R)))"
  "dget (health_document age_text ver environ now R conns health st) ''subscribers''
     = Some (VDict (subscriber_health age_text now R))"
  "dget (health_document age_text ver environ now R conns health st) ''delivery''
     = map_option (\<lambda>h. VDict (delivery_summary h)) health"
  by (simp_all add: health_document_def split: option.split)

lemma uncovered_sources_set: "set (uncovered_sources R) = live_only_without_subscribers R"
  by (auto simp: uncovered_sources_def live_only_sources_def health_sources_def
      live_only_without_subscribers_def)

end
