(* ===== verification/Suite.thy ===== *)
theory Suite
  imports Lines Secrets
begin

section \<open>The shared suite file (\<open>suite_config.py\<close>)\<close>

text \<open>
  Variables the suite of tools shares: from the process environment, the user's file and the
  system's file, in this order.  A file is its text, \<open>None\<close> when it is missing or cannot be read;
  text that is not UTF-8 raises.
\<close>

definition SUITE_VARS :: "string list" where
  "SUITE_VARS = [''REGISTA_DSN'', ''REGISTA_KEY_PATH'', ''REGISTA_REQUIRE_SSL'', ''AGENT_WAKE_PROJECT'']"

definition unquote :: "string \<Rightarrow> string" where
  "unquote v =
     (if 2 \<le> length v \<and> hd v = last v \<and> hd v \<in> {CHR 0x22, CHR 0x27} then butlast (tl v) else v)"

definition suite_line :: "string \<Rightarrow> (string \<times> string) option" where
  "suite_line line =
     (let stripped = strip line in
      if stripped = [] \<or> startswith stripped ''#'' \<or> CHR ''='' \<notin> set stripped then None
      else
        (case partition_on (CHR ''='') stripped of
           (k, _, v) \<Rightarrow>
             (let key = strip k; key' = (if startswith key ''export '' then strip (drop 7 key) else key) in
              if key' = [] then None else Some (key', unquote (strip v)))))"

definition parse_env_file :: "string option res \<Rightarrow> (string \<times> string) list res" where
  "parse_env_file f =
     (case f of
        Inl e \<Rightarrow> Inl e
      | Inr None \<Rightarrow> Inr []
      | Inr (Some s) \<Rightarrow>
          Inr (fold (\<lambda>line d. case suite_line line of None \<Rightarrow> d | Some (k, v) \<Rightarrow> dset k v d) (splitlines s) []))"

text \<open>\<open>d.update(e)\<close>.\<close>

definition update_all :: "('k \<times> 'v) list \<Rightarrow> ('k \<times> 'v) list \<Rightarrow> ('k \<times> 'v) list" where
  "update_all d e = fold (\<lambda>(k, v). dset k v) e d"

definition process_layer :: "(string \<Rightarrow> string option) \<Rightarrow> (string \<times> string) list" where
  "process_layer environ =
     List.map_filter (\<lambda>var. map_option (Pair var) (environ var)) SUITE_VARS"

definition resolve_suite_env ::
  "(string \<Rightarrow> string option) \<Rightarrow> string option res \<Rightarrow> string option res \<Rightarrow> (string \<times> string) list res" where
  "resolve_suite_env environ user sys =
     (case parse_env_file sys of
        Inl e \<Rightarrow> Inl e
      | Inr d \<Rightarrow>
          (case parse_env_file user of
             Inl e \<Rightarrow> Inl e
           | Inr d' \<Rightarrow>
               Inr (filter (\<lambda>(k, _). k \<in> set SUITE_VARS)
                      (update_all (update_all d d') (process_layer environ)))))"

definition suite_get :: "string \<Rightarrow> (string \<times> string) list \<Rightarrow> string option" where
  "suite_get key env = dget env key"

record regista =
  rg_dsn :: "string option"
  rg_key_path :: "string option"
  rg_require_ssl :: bool
  rg_project :: "string option"

definition regista_config :: "(string \<times> string) list \<Rightarrow> regista" where
  "regista_config env =
     \<lparr>rg_dsn = dget env ''REGISTA_DSN'', rg_key_path = dget env ''REGISTA_KEY_PATH'',
      rg_require_ssl =
        (str_lower (case dget env ''REGISTA_REQUIRE_SSL'' of None \<Rightarrow> ''false'' | Some v \<Rightarrow> v) = ''true''),
      rg_project = dget env ''AGENT_WAKE_PROJECT''\<rparr>"

subsection \<open>Precedence\<close>

lemma dget_update_all:
  "distinct (map fst e) \<Longrightarrow> dget (update_all d e) k = (case dget e k of None \<Rightarrow> dget d k | Some v \<Rightarrow> Some v)"
proof (induction e arbitrary: d)
  case (Cons p e)
  obtain k0 v0 where p: "p = (k0, v0)" by (cases p)
  have "dget e k0 = None" using Cons.prems p by (simp add: map_of_eq_None_iff)
  moreover have "update_all d (p # e) = update_all (dset k0 v0 d) e" by (simp add: update_all_def p)
  ultimately show ?case
    using Cons.IH [of "dset k0 v0 d"] Cons.prems p by (simp add: dget_dset split: option.split)
qed (simp add: update_all_def)

lemma wf_parse_env_file: "parse_env_file f = Inr d \<Longrightarrow> wf_dict d"
proof -
  have "wf_dict d \<Longrightarrow> wf_dict (fold (\<lambda>line d. case suite_line line of None \<Rightarrow> d | Some (k, v) \<Rightarrow> dset k v d) ls d)" for ls d
    by (induction ls arbitrary: d) (simp_all split: option.split)
  then show "parse_env_file f = Inr d \<Longrightarrow> wf_dict d"
    by (auto simp: parse_env_file_def split: sum.splits option.splits)
qed

lemma process_layer_get:
  "dget (process_layer environ) k = (if k \<in> set SUITE_VARS then environ k else None)"
  by (auto simp: process_layer_def SUITE_VARS_def List.map_filter_simps split: option.split)

lemma process_layer_distinct: "distinct (map fst (process_layer environ))"
  by (simp add: process_layer_def SUITE_VARS_def List.map_filter_simps split: option.split)

lemma dget_filter_in: "dget (filter (\<lambda>(k, _). k \<in> A) d) k = (if k \<in> A then dget d k else None)"
  by (induction d) auto

text \<open>
  The precedence of the suite's variables.  Each of the four variables has the value of
  the process environment when it is set there, else the one the user's file gives it, else the
  system file's; nothing else is read out of the files.
\<close>

theorem suite_precedence:
  assumes "parse_env_file sys = Inr d" and "parse_env_file user = Inr d'"
  shows "\<exists>env. resolve_suite_env environ user sys = Inr env
    \<and> dget env = (\<lambda>k. if k \<in> set SUITE_VARS
         then (case environ k of Some v \<Rightarrow> Some v
               | None \<Rightarrow> (case dget d' k of Some v \<Rightarrow> Some v | None \<Rightarrow> dget d k)) else None)"
  using assms wf_parse_env_file [OF assms(2)]
  by (auto simp: resolve_suite_env_def fun_eq_iff dget_filter_in dget_update_all process_layer_get
      process_layer_distinct wf_dict_def split: option.split)

theorem suite_precedence_witness:
  "\<exists>env. resolve_suite_env (\<lambda>_. None) (Inr None) (Inr (Some ''export AGENT_WAKE_PROJECT='')) = Inr env
    \<and> dget env ''AGENT_WAKE_PROJECT'' = Some []"
proof -
  have "parse_env_file (Inr (Some ''export AGENT_WAKE_PROJECT='')) = Inr [(''AGENT_WAKE_PROJECT'', [])]"
    by code_simp
  from suite_precedence [OF this, of "Inr None" "[]" "\<lambda>_. None"] show ?thesis
    by (auto simp: parse_env_file_def SUITE_VARS_def)
qed

end
