(* ===== verification/Doctor.thy ===== *)
theory Doctor
  imports Health Suite Queue_Cli
begin

section \<open>The doctor (\<open>doctor.py\<close>)\<close>

text \<open>
  \<open>agent-wake doctor\<close>: ten checks of the host, four of which ask the running daemon for its health
  document.  A check gives a status with its text, or raises.  The texts are the program's, with two
  hyphens for a dash and \<open>->\<close> for an arrow.  The config file is read once here; the code reads it
  in every check.
\<close>

datatype status = Chk_ok | Chk_fail | Chk_warn | Chk_skip

type_synonym verdict = "status \<times> string"

text \<open>
  What probing the daemon gives: the error of connecting, or the answer to \<open>GET /\<close>, whose body is
  the parsed document or the text of the error of parsing it.
\<close>

datatype http_answer = Url_error string string | Http_raised string | Answered int "string + pyval"

record probe =
  pr_connect :: "string option"
  pr_answer :: http_answer

record doctor_env = cli_env +
  de_environ :: "string \<Rightarrow> string option"
  de_config_path :: string
  de_config_exists :: bool
  de_refusal_text :: "refusal \<Rightarrow> string"
  de_probe :: "string \<Rightarrow> probe"
  de_claude :: bool
  de_opencode :: bool
  de_exists :: "string \<Rightarrow> bool"
  de_user_file :: "string option res"
  de_system_file :: "string option res"
  de_suite_exists :: bool
  de_exn_text :: "exn \<Rightarrow> string"
  de_tcp :: "string \<Rightarrow> int \<Rightarrow> string option"

subsection \<open>Asking the daemon\<close>

definition daemon_address :: "(string \<Rightarrow> string option) \<Rightarrow> cfg \<Rightarrow> pyval \<times> pyval" where
  "daemon_address environ cfg =
     (case resolve_listen environ cfg of
        Inr (host, port) \<Rightarrow> (host, VInt port)
      | Inl _ \<Rightarrow>
          (let listen = dict_items (getv cfg ''listen'') in
           (getd listen ''host'' (VStr ''127.0.0.1''), getd listen ''port'' (VInt 8788))))"

definition address_text :: "pyval \<times> pyval \<Rightarrow> string" where
  "address_text a = py_str (fst a) @ '':'' @ py_str (snd a)"

definition success :: "int \<Rightarrow> bool" where
  "success code \<longleftrightarrow> 200 \<le> code \<and> code < 300"

definition fetch_daemon_health :: "(string \<Rightarrow> string option) \<Rightarrow> cfg \<Rightarrow> probe \<Rightarrow> string + dict" where
  "fetch_daemon_health environ cfg pr =
     (case pr_connect pr of
        Some e \<Rightarrow> Inl (''not reachable at '' @ address_text (daemon_address environ cfg) @ '': '' @ e)
      | None \<Rightarrow>
          (case pr_answer pr of
             Url_error _ e \<Rightarrow> Inl (''health probe failed: '' @ e)
           | Http_raised e \<Rightarrow> Inl (''health probe failed: '' @ e)
           | Answered code body \<Rightarrow>
               if \<not> success code then Inl (''health endpoint returned HTTP '' @ int_str code)
               else
                 (case body of
                    Inl e \<Rightarrow> Inl (''health probe failed: '' @ e)
                  | Inr (VDict d) \<Rightarrow> Inr d
                  | Inr _ \<Rightarrow> Inl ''health endpoint returned a non-object body'')))"

subsection \<open>The checks\<close>

definition check_config_file :: "doctor_env \<Rightarrow> verdict" where
  "check_config_file E =
     (if \<not> de_config_exists E then (Chk_fail, ''config file not found: '' @ de_config_path E)
      else
        (case ce_config E of
           Inr cfg \<Rightarrow>
             (Chk_ok, ''loaded '' @ nat_str (length (dict_items (getv cfg ''sources''))) @ '' source(s) from ''
                @ de_config_path E)
         | Inl (Config_error e) \<Rightarrow> (Chk_fail, de_refusal_text E (Config_error e))
         | Inl (Crash e) \<Rightarrow> (Chk_fail, ''unexpected error: '' @ de_refusal_text E (Crash e))))"

text \<open>\<open>str\<close> of the exception that \<open>get\<close> raises on a value that is no dictionary.\<close>

fun type_name :: "pyval \<Rightarrow> string" where
  "type_name VNone = ''NoneType''"
| "type_name (VBool _) = ''bool''"
| "type_name (VInt _) = ''int''"
| "type_name (VFloat _ _) = ''float''"
| "type_name (VStr _) = ''str''"
| "type_name (VBytes _) = ''bytes''"
| "type_name (VList _) = ''list''"
| "type_name (VDict _) = ''dict''"

definition no_get :: "pyval \<Rightarrow> string" where
  "no_get v = repr_str (type_name v) @ '' object has no attribute '' @ repr_str ''get''"

definition check_ingress_reachable :: "(string \<Rightarrow> string option) \<Rightarrow> cfg \<Rightarrow> probe \<Rightarrow> verdict" where
  "check_ingress_reachable environ cfg pr =
     (case pr_connect pr of
        Some _ \<Rightarrow>
          (Chk_warn, ''daemon not reachable at '' @ address_text (daemon_address environ cfg) @ '' (may not be running)'')
      | None \<Rightarrow>
          (case pr_answer pr of
             Url_error reason _ \<Rightarrow> (Chk_warn, ''daemon TCP-reachable but HTTP probe failed: '' @ reason)
           | Http_raised e \<Rightarrow> (Chk_warn, ''daemon HTTP probe error: '' @ e)
           | Answered code body \<Rightarrow>
               if success code then
                 (case body of
                    Inl e \<Rightarrow> (Chk_warn, ''daemon HTTP probe error: '' @ e)
                  | Inr (VDict d) \<Rightarrow>
                      (Chk_ok, ''daemon healthy, '' @ py_str (getd d ''adapters'' (VInt 0)) @ '' adapter(s) connected'')
                  | Inr v \<Rightarrow> (Chk_warn, ''daemon HTTP probe error: '' @ no_get v))
               else (Chk_fail, ''daemon returned HTTP '' @ int_str code)))"

definition uncovered_detail :: "dict \<Rightarrow> string \<Rightarrow> string" where
  "uncovered_detail subscribers missing =
     (let connected = getd subscribers ''connected'' (VInt 0) in
      case (truthy connected, getv subscribers ''connected_adapters'') of
        (True, VList (a # as)) \<Rightarrow>
          ''live_only sources without subscribers: '' @ missing @ ''; '' @ py_str connected
          @ '' adapter(s) connected ['' @ join '', '' (map py_str (a # as))
          @ ''] but none serve these sources -- a harness session may be running but its adapter is not ''
          @ ''subscribed (channel not loaded, or subscribe failed); wakes for these sources will be dropped''
      | _ \<Rightarrow>
          ''live_only sources without subscribers: '' @ missing @ ''; no adapter is connected (no harness session ''
          @ ''running, or the adapter is not loaded/subscribed); wakes for these sources will be dropped'')"

definition check_live_subscribers :: "(string \<Rightarrow> string option) \<Rightarrow> cfg \<Rightarrow> probe \<Rightarrow> verdict" where
  "check_live_subscribers environ cfg pr =
     (case fetch_daemon_health environ cfg pr of
        Inl reason \<Rightarrow> (Chk_warn, ''subscriber state unknown: '' @ reason)
      | Inr body \<Rightarrow>
          (case dget body ''subscribers'' of
             Some (VDict subs) \<Rightarrow>
               (case (getv subs ''live_only_sources'', getv subs ''live_only_without_subscribers'',
                      getv subs ''by_source'') of
                  (VList live_only, VList missing, VDict _) \<Rightarrow>
                    if missing \<noteq> [] then (Chk_fail, uncovered_detail subs (join '', '' (map py_str missing)))
                    else if live_only \<noteq> []
                    then (Chk_ok, nat_str (length live_only) @ '' live_only source(s) have subscribers'')
                    else (Chk_skip, ''no sources use live_only as the default delivery mode'')
                | _ \<Rightarrow> (Chk_warn, ''subscriber state unknown: daemon health document is incomplete''))
           | _ \<Rightarrow> (Chk_warn, ''subscriber state unknown: daemon health document does not report ''
                            @ ''source-level subscriber state'')))"

definition check_auth_configured :: "cfg \<Rightarrow> verdict" where
  "check_auth_configured cfg =
     (let sources = dict_items (getv cfg ''sources'') in
      if sources = [] then (Chk_fail, ''no sources configured'')
      else
        (let no_secret = map fst (filter (\<lambda>(_, info). \<not> truthy (getv (dict_items info) ''secret_uris'')) sources) in
         if no_secret \<noteq> [] then (Chk_fail, ''sources without secrets: '' @ join '', '' no_secret)
         else (Chk_ok, nat_str (length sources) @ '' source(s) with secrets configured'')))"

text \<open>What the daemon says of its secrets: those it cannot resolve, and how many it has.\<close>

definition daemon_secrets :: "dict option \<Rightarrow> (string list \<times> pyval) res" where
  "daemon_secrets body =
     (case (case body of None \<Rightarrow> VNone | Some d \<Rightarrow> getv d ''sources'') of
        VDict ds \<Rightarrow>
          (let unresolved = getv ds ''unresolved'' in
           case (if truthy unresolved then py_iter unresolved else Some []) of
             None \<Rightarrow> Inl TypeError
           | Some us \<Rightarrow> Inr (map py_str us, getv ds ''configured''))
      | _ \<Rightarrow> Inr ([], VNone))"

definition check_secrets_resolvable :: "(string \<Rightarrow> string option) \<Rightarrow> cfg \<Rightarrow> probe \<Rightarrow> verdict res" where
  "check_secrets_resolvable environ cfg pr =
     (let vis = source_secret_visibility environ cfg;
          health = fetch_daemon_health environ cfg pr;
          body = (case health of Inl _ \<Rightarrow> None | Inr d \<Rightarrow> Some d);
          missing = join '', '' (vis_missing vis);
          unseen = ''secrets not visible from this context (unset: '' @ missing @ '')''
      in case daemon_secrets body of
           Inl e \<Rightarrow> Inl e
         | Inr (unresolved, configured) \<Rightarrow> Inr
             (if unresolved \<noteq> [] then
                (Chk_fail, ''the daemon cannot resolve the secret(s) for '' @ nat_str (length unresolved)
                   @ '' source(s): '' @ join '', '' unresolved @ '' -- it signs wake events with them, so those ''
                   @ ''sources cannot be authenticated; check the unit's EnvironmentFile'')
              else if all_visible vis then
                (Chk_ok, ''all '' @ nat_str (vis_configured vis) @ '' source secret(s) readable in this process'')
              else if configured = VNone then
                (case health of
                   Inl probe_error \<Rightarrow>
                     (Chk_fail, unseen @ '' and the daemon could not be asked ('' @ probe_error
                        @ '') -- health cannot be confirmed from either source'')
                 | Inr _ \<Rightarrow>
                     (Chk_fail, unseen @ '' and the running daemon's health document does not report source secret ''
                        @ ''state, so health cannot be confirmed -- restart agent-waked to pick up a build that reports it''))
              else
                (Chk_skip, unseen @ ''; the daemon reports '' @ py_str configured
                   @ '' source(s) configured with all secrets resolved. It holds them via its unit's ''
                   @ ''EnvironmentFile and is the authority -- this probe does not need them'')))"

definition check_adapters_installed :: "doctor_env \<Rightarrow> verdict" where
  "check_adapters_installed E =
     (let installed = (if de_claude E then [''claude''] else []) @ (if de_opencode E then [''opencode''] else []) in
      if installed = []
      then (Chk_warn, ''no adapters installed (install agent-wake-claude or build the opencode plugin: ''
              @ ''cd adapters/opencode && bun install && bun run build)'')
      else (Chk_ok, ''adapters found: '' @ join '', '' installed))"

definition check_allowlist_present :: "cfg \<Rightarrow> verdict" where
  "check_allowlist_present cfg =
     (let with_principal = filter (\<lambda>(_, info). truthy (getv (dict_items info) ''principal_id''))
                             (dict_items (getv cfg ''sources''));
          open_ones = map fst (filter (\<lambda>(_, info).
                        \<not> truthy (getv (dict_items info) ''allowed_trigger_identities'')) with_principal)
      in if open_ones \<noteq> [] then
           (Chk_warn, ''sources with principal_id but no allowed_trigger_identities: '' @ join '', '' open_ones
              @ '' (any authenticated sender accepted)'')
         else if with_principal \<noteq> [] then
           (Chk_ok, nat_str (length with_principal) @ '' source(s) with identity allowlist'')
         else (Chk_warn, ''no sources have principal_id configured (identity layer inactive)''))"

text \<open>The destinations of each pair of adapter and session, in the order of the table.\<close>

definition add_session ::
  "destination \<Rightarrow> ((string \<times> string) \<times> string list) list \<Rightarrow> ((string \<times> string) \<times> string list) list" where
  "add_session d seen =
     (case (d_adapter d, d_session d) of
        (Some a, Some s) \<Rightarrow>
          dset (a, s) ((case dget seen (a, s) of None \<Rightarrow> [] | Some ns \<Rightarrow> ns) @ [d_name d]) seen
      | _ \<Rightarrow> seen)"

definition session_collisions :: "destination list \<Rightarrow> ((string \<times> string) \<times> string list) list" where
  "session_collisions ds = filter (\<lambda>(_, ns). 1 < length ns) (fold add_session ds [])"

definition collision_text :: "(string \<times> string) \<times> string list \<Rightarrow> string" where
  "collision_text c =
     (case c of ((a, s), ns) \<Rightarrow> a @ ''/'' @ s @ '': '' @ join '', '' (sort ns))"

definition unrouted_senders :: "cfg \<Rightarrow> string list" where
  "unrouted_senders cfg = filter (\<lambda>n. routed_destinations cfg n = []) (map fst (sender_table cfg))"

definition unreached_destinations :: "cfg \<Rightarrow> string list" where
  "unreached_destinations cfg =
     (let reached = concat (map (\<lambda>n. map d_name (routed_destinations cfg n)) (map fst (sender_table cfg))) in
      sort (filter (\<lambda>n. n \<notin> set reached) (map fst (destination_table cfg))))"

definition check_addressing :: "cfg \<Rightarrow> verdict" where
  "check_addressing cfg =
     (let dests = map snd (destination_table cfg); collisions = session_collisions dests;
          unrouted = unrouted_senders cfg; unreachable = unreached_destinations cfg;
          problems =
            (if unrouted = [] then [] else
               [''sender(s) with no route: '' @ join '', '' (sort unrouted)
                @ '' (events are authenticated, accepted and then dropped)''])
            @ (if unreachable = [] then [] else
               [''destination(s) no route reaches: '' @ join '', '' unreachable
                @ '' (an adapter can claim them and will never be sent anything)''])
      in if collisions \<noteq> [] then
           (Chk_fail, ''two or more destinations address the same adapter session, so a delivery to either ''
              @ ''could land on the wrong one: ''
              @ join ''; '' (map collision_text
                  (sort_key (\<lambda>c. fst (fst c)) (sort_key (\<lambda>c. snd (fst c)) collisions))))
         else if problems \<noteq> [] then (Chk_warn, join ''; '' problems)
         else
           (Chk_ok, nat_str (length (sender_table cfg)) @ '' sender(s) -> '' @ nat_str (length dests)
              @ '' destination(s) ('' @ nat_str (length (filter session_scoped dests))
              @ '' session-scoped), all routed''))"

text \<open>The part of the delivery check that reads the daemon's answer; \<open>None\<close> is an exception, which
  is taken for a daemon that does not run.\<close>

fun failing_text :: "pyval list \<Rightarrow> string list option" where
  "failing_text [] = Some []"
| "failing_text (VDict f # fs) =
     map_option (Cons (py_str (getd f ''channel'' (VStr ''?'')) @ ''->''
                       @ py_str (getd f ''principal_id'' (VStr ''?'')))) (failing_text fs)"
| "failing_text (_ # fs) = None"

definition all_strings :: "pyval \<Rightarrow> string list option" where
  "all_strings v =
     (case py_iter v of
        None \<Rightarrow> None
      | Some vs \<Rightarrow> if \<forall>x \<in> set vs. is_str (Some x) then Some (map py_str vs) else None)"

definition delivery_problems :: "dict \<Rightarrow> string list option" where
  "delivery_problems ds =
     (let failing = getd ds ''failing_channels'' (VList []); unknown = getd ds ''unknown_principals'' (VList []) in
      case (if truthy failing then Option.bind (py_iter failing) failing_text else Some []) of
        None \<Rightarrow> None
      | Some chans \<Rightarrow>
          (case (if truthy unknown then all_strings unknown else Some []) of
             None \<Rightarrow> None
           | Some pids \<Rightarrow> Some
               ((if truthy failing
                 then [''delivery channel failures: '' @ join '', '' chans @ '' (see daemon logs for detail)''] else [])
                @ (if truthy unknown then [''events targeted unknown principals: '' @ join '', '' pids] else []))))"

definition delivery_status :: "nat \<Rightarrow> dict \<Rightarrow> verdict option" where
  "delivery_status n ds =
     (let lost = getv ds ''lost_alerts''; newest = getv ds ''last_lost_alert'' in
      if truthy lost then
        Some (Chk_fail, py_str lost @ '' human alert(s) could not be dead-lettered and are permanently lost (most recent: ''
              @ (if truthy newest then py_str newest else ''?'')
              @ '') -- the durable store was unavailable; grep the daemon log for '' @ repr_str ''LOST ALERT'')
      else
        map_option (\<lambda>parts.
          if parts \<noteq> [] then (Chk_warn, join ''; '' parts)
          else (Chk_ok, nat_str n @ '' principal(s), delivery healthy'')) (delivery_problems ds))"

definition check_delivery_health :: "cfg \<Rightarrow> probe \<Rightarrow> verdict" where
  "check_delivery_health cfg pr =
     (let delivery = dict_items (getv cfg ''delivery''); n = length delivery;
          empty = map fst (filter (\<lambda>(_, channels). \<not> truthy channels) delivery);
          unchecked = (Chk_ok, nat_str n @ '' delivery channel(s) configured (daemon not running; live health unchecked)'');
          answered = (\<lambda>code. (Chk_ok, nat_str n
             @ '' delivery channel(s) configured (daemon health endpoint returned HTTP '' @ int_str code @ '')''))
      in if delivery = [] then (Chk_skip, ''no delivery channels configured (Plan 005 not deployed)'')
         else if empty \<noteq> [] then (Chk_warn, ''principals without delivery channels: '' @ join '', '' empty)
         else
           (case pr_answer pr of
              Answered code body \<Rightarrow>
                if success code then
                  (case body of
                     Inl _ \<Rightarrow> unchecked
                   | Inr (VDict d) \<Rightarrow>
                       (case dget d ''delivery'' of
                          Some (VDict ds) \<Rightarrow>
                            (case delivery_status n ds of Some v \<Rightarrow> v | None \<Rightarrow> unchecked)
                        | _ \<Rightarrow> answered code)
                   | Inr _ \<Rightarrow> answered code)
                else answered code
            | _ \<Rightarrow> unchecked))"

text \<open>Looking at the store opens it, which sweeps it.\<close>

definition check_durable_state :: "doctor_env \<Rightarrow> pytime \<Rightarrow> disk \<Rightarrow> verdict \<times> disk" where
  "check_durable_state E now disk =
     (let cfg = load_config_optional (cli_env.truncate E); path = db_path (cli_env.truncate E) cfg in
      if \<not> truthy (getd (dict_items (getv cfg ''state'')) ''enabled'' (VBool True)) then
        ((Chk_warn, ''durable store disabled (state.enabled=false): dedupe is in-memory only and ''
            @ ''next-session delivery is unavailable''), disk)
      else if \<not> de_exists E path then
        ((Chk_skip, ''no durable state yet at '' @ path @ '' (created on first daemon start)''), disk)
      else
        (case with_store (cli_env.truncate E) now cfg disk
                (\<lambda>st. (Inr (dead_letter_count False st, pending_count st, dedupe_count st), (), st)) () of
           (Inl (Store_failure msg), _, disk') \<Rightarrow> ((Chk_fail, ''durable store unusable: '' @ msg), disk')
         | (Inl _, _, disk') \<Rightarrow> ((Chk_fail, []), disk')
         | (Inr (dead, pending, dedupe), _, disk') \<Rightarrow>
             (let detail = ''dedupe='' @ nat_str dedupe @ '' pending='' @ nat_str pending
                           @ '' dead_letter='' @ nat_str dead
              in if dead \<noteq> 0
                 then ((Chk_warn, detail @ ''; inspect with `agent-wake dead-letter list`''), disk')
                 else ((Chk_ok, detail), disk'))))"

subsection \<open>The shared store of the suite\<close>

text \<open>\<open>ParseResult.port\<close>.\<close>

definition u_port :: "url \<Rightarrow> int option res" where
  "u_port u =
     (let hostinfo = rpartition_tail (CHR ''@'') (u_netloc u);
          rest = (if CHR ''['' \<in> set hostinfo then snd (snd (partition_on (CHR '']'') hostinfo)) else hostinfo);
          port = snd (snd (partition_on (CHR '':'') rest))
      in if port = [] then Inr None
         else if list_all is_digit port then
           (case parse_int port of
              None \<Rightarrow> Inl (ValueError ''Exceeds the limit for integer string conversion'')
            | Some p \<Rightarrow> if p \<le> 65535 then Inr (Some p) else Inl (ValueError ''Port out of range 0-65535''))
         else Inl (ValueError (''Port could not be cast to integer value as '' @ repr_str port)))"

definition regista_report :: "bool \<Rightarrow> string option \<Rightarrow> string \<Rightarrow> dict" where
  "regista_report up project detail =
     [(''reachable'', VBool up), (''project'', opt_str project), (''chain_ok'', VNone), (''detail'', VStr detail)]"

definition check_regista :: "doctor_env \<Rightarrow> dict option res" where
  "check_regista E =
     (if \<not> de_suite_exists E then Inr None
      else
        (case resolve_suite_env (de_environ E) (de_user_file E) (de_system_file E) of
           Inl e \<Rightarrow> Inl e
         | Inr env \<Rightarrow>
             (let reg = regista_config env; project = rg_project reg;
                  down = (\<lambda>e. Inr (Some (regista_report False project (''Postgres unreachable: '' @ e)))) in
              case rg_dsn reg of
                Some (c # dsn) \<Rightarrow>
                  (case urlparse (c # dsn) of
                     Inl e \<Rightarrow> down (de_exn_text E e)
                   | Inr u \<Rightarrow>
                       (let host = (case u_hostname u of None \<Rightarrow> ''localhost'' | Some h \<Rightarrow> h) in
                        case u_port u of
                          Inl e \<Rightarrow> down (de_exn_text E e)
                        | Inr p \<Rightarrow>
                            (let port = (case p of Some q \<Rightarrow> if q \<noteq> 0 then q else 5432 | None \<Rightarrow> 5432) in
                             case de_tcp E host port of
                               Some e \<Rightarrow> down e
                             | None \<Rightarrow>
                                 Inr (Some (regista_report True project
                                   (''Postgres at '' @ host @ '':'' @ int_str port @ '' is TCP-reachable''))))))
              | _ \<Rightarrow> Inr (Some (regista_report False project ''REGISTA_DSN not set in suite.env'')))))"

subsection \<open>The report\<close>

record report =
  rp_ok :: bool
  rp_degraded :: bool
  rp_regista :: "dict option"
  rp_checks :: "(string \<times> verdict) list"

text \<open>A check that needs the config is skipped, with its own words, when the file does not load.\<close>

definition needing :: "doctor_env \<Rightarrow> string \<Rightarrow> (cfg \<Rightarrow> verdict) \<Rightarrow> verdict" where
  "needing E why f = (case ce_config E of Inl _ \<Rightarrow> (Chk_skip, why) | Inr cfg \<Rightarrow> f cfg)"

definition summarise :: "(string \<times> verdict) list \<Rightarrow> dict option \<Rightarrow> report" where
  "summarise checks reg =
     (let good = list_all (\<lambda>(_, s, _). s \<noteq> Chk_fail) checks in
      \<lparr>rp_ok = good, rp_degraded = (list_ex (\<lambda>(_, s, _). s = Chk_warn) checks \<and> good),
       rp_regista = reg, rp_checks = checks\<rparr>)"

definition run_checks :: "doctor_env \<Rightarrow> pytime \<Rightarrow> disk \<Rightarrow> report res \<times> disk" where
  "run_checks E now disk =
     (let env = de_environ E; probe = de_probe E in
      case (case ce_config E of
              Inl _ \<Rightarrow> Inr (Chk_skip, ''config not loadable (see config_present)'')
            | Inr cfg \<Rightarrow> check_secrets_resolvable env cfg (probe ''secrets_resolvable'')) of
        Inl e \<Rightarrow> (Inl e, disk)
      | Inr secrets \<Rightarrow>
          (case check_durable_state E now disk of
             (durable, disk') \<Rightarrow>
               ((case check_regista E of
                   Inl e \<Rightarrow> Inl e
                 | Inr reg \<Rightarrow> Inr (summarise
                     [(''config_present'', check_config_file E),
                      (''ingress_reachable'', needing E ''config not loadable; cannot probe ingress''
                         (\<lambda>cfg. check_ingress_reachable env cfg (probe ''ingress_reachable''))),
                      (''live_subscribers'',
                         needing E ''config not loadable; cannot determine subscriber requirements''
                         (\<lambda>cfg. check_live_subscribers env cfg (probe ''live_subscribers''))),
                      (''auth_configured'', needing E ''config not loadable'' check_auth_configured),
                      (''secrets_resolvable'', secrets),
                      (''adapters_installed'', check_adapters_installed E),
                      (''allowlist_present'', needing E ''config not loadable'' check_allowlist_present),
                      (''addressing'', needing E ''config not loadable (see config_present)'' check_addressing),
                      (''delivery_health'', needing E ''config not loadable''
                         (\<lambda>cfg. check_delivery_health cfg (probe ''delivery_health''))),
                      (''durable_state'', durable)] reg)), disk')))"

definition status_text :: "status \<Rightarrow> string" where
  "status_text s = (case s of Chk_ok \<Rightarrow> ''ok'' | Chk_fail \<Rightarrow> ''fail'' | Chk_warn \<Rightarrow> ''warn'' | Chk_skip \<Rightarrow> ''skip'')"

definition report_json :: "string \<Rightarrow> report \<Rightarrow> dict" where
  "report_json version r =
     [(''component'', VStr ''agent-wake''), (''version'', VStr version), (''ok'', VBool (rp_ok r)),
      (''degraded'', VBool (rp_degraded r)),
      (''regista'', case rp_regista r of None \<Rightarrow> VNone | Some d \<Rightarrow> VDict d),
      (''checks'', VList (map (\<lambda>(n, s, d). VDict
         [(''name'', VStr n), (''status'', VStr (status_text s)), (''detail'', VStr d)]) (rp_checks r)))]"

definition status_symbol :: "status \<Rightarrow> string" where
  "status_symbol s = (case s of Chk_ok \<Rightarrow> ''PASS'' | Chk_fail \<Rightarrow> ''FAIL'' | Chk_warn \<Rightarrow> ''WARN'' | Chk_skip \<Rightarrow> ''SKIP'')"

definition report_text :: "report \<Rightarrow> string" where
  "report_text r = join line_feed
     ([''agent-wake doctor -- health check'', []]
      @ map (\<lambda>(n, s, d). ''  ['' @ status_symbol s @ ''] '' @ n @ '': '' @ d) (rp_checks r)
      @ (case rp_regista r of
           None \<Rightarrow> []
         | Some reg \<Rightarrow>
             [[], ''  ['' @ (if truthy (getv reg ''reachable'') then ''PASS'' else ''FAIL'') @ ''] regista: ''
                  @ py_str (getd reg ''detail'' (VStr []))]
             @ (if truthy (getv reg ''project'') then [''         project: '' @ py_str (getv reg ''project'')] else []))
      @ [[], if rp_ok r
             then (if rp_degraded r then ''Result: OK (degraded -- warnings present)'' else ''Result: OK'')
             else ''Result: FAIL''])"

text \<open>The command: the report and the exit code.\<close>

definition cmd_doctor :: "bool \<Rightarrow> (dict \<Rightarrow> string) \<Rightarrow> string \<Rightarrow> report \<Rightarrow> int \<times> string" where
  "cmd_doctor use_json pretty version r =
     (if rp_ok r then 0 else 1, if use_json then pretty (report_json version r) else report_text r)"

end
