(* ===== verification/Doctor_Props.thy ===== *)
theory Doctor_Props
  imports Doctor
begin

section \<open>Properties of the doctor\<close>

text \<open>
  The doctor's verdicts against the state they are about: that of the daemon whose health document
  it read, and that of the configuration.
\<close>

subsection \<open>What a running daemon answers\<close>

definition answers :: "probe \<Rightarrow> dict \<Rightarrow> bool" where
  "answers pr d \<longleftrightarrow> pr_connect pr = None \<and> pr_answer pr = Answered 200 (Inr (VDict d))"

lemma fetch_answers: "answers pr d \<Longrightarrow> fetch_daemon_health environ cfg pr = Inr d"
  by (simp add: answers_def fetch_daemon_health_def success_def)

lemma py_str_names [simp]: "map (py_str \<circ> VStr) ss = ss"
  by (simp add: o_def)

text \<open>The verdict on the live subscribers, given the health document of a router.\<close>

lemma live_verdict:
  assumes "answers pr (health_document age_text ver environ now R conns health st)"
  shows "fst (check_live_subscribers env cfg pr) =
    (if live_only_without_subscribers R \<noteq> {} then Chk_fail
     else if live_only_sources R \<noteq> [] then Chk_ok else Chk_skip)"
proof -
  have "uncovered_sources R \<noteq> [] \<longleftrightarrow> live_only_without_subscribers R \<noteq> {}"
    using uncovered_sources_set [of R] by (metis set_empty)
  then show ?thesis
    by (simp add: check_live_subscribers_def fetch_answers [OF assms] health_document_fields
        subscriber_health_def names_def getv_def opt_val_def)
qed

lemma daemon_secrets_document:
  "daemon_secrets (Some (health_document age_text ver environ now R conns health st))
   = Inr (vis_unresolved (source_secret_visibility environ (r_config R)),
          VInt (int (vis_configured (source_secret_visibility environ (r_config R)))))"
  by (simp add: daemon_secrets_def health_document_fields health_summary_def Let_def getv_def opt_val_def)

lemma secrets_verdict:
  assumes "answers pr (health_document age_text ver environ now R conns health st)"
  shows "\<exists>detail. check_secrets_resolvable env cfg pr = Inr
    (if \<not> require_resolvable_secrets environ (r_config R) then Chk_fail
     else if require_resolvable_secrets env cfg then Chk_ok else Chk_skip, detail)"
  by (simp add: check_secrets_resolvable_def fetch_answers [OF assms] daemon_secrets_document Let_def
      require_resolvable_secrets_def all_visible_def)

lemma secrets_verdict_unasked:
  assumes "fetch_daemon_health env cfg pr = Inl e"
  shows "\<exists>detail. check_secrets_resolvable env cfg pr = Inr
    (if require_resolvable_secrets env cfg then Chk_ok else Chk_fail, detail)"
  by (simp add: check_secrets_resolvable_def assms daemon_secrets_def Let_def
      require_resolvable_secrets_def all_visible_def)

lemma sort_key_Nil [simp]: "sort_key f xs = [] \<longleftrightarrow> xs = []"
  by (metis length_0_conv length_sort)

lemma failing_text_channels: "failing_text (map failing_channel fs) = Some (map (\<lambda>f. fst (fst f) @ ''->'' @ snd (fst f)) fs)"
  by (induction fs) (simp_all add: failing_channel_def getd_def split: prod.splits)

lemma delivery_problems_summary:
  assumes "finite (h_unknown h)"
  shows "\<exists>parts. delivery_problems (delivery_summary h) = Some parts
    \<and> (parts = [] \<longleftrightarrow> h_failures h = [] \<and> h_unknown h = {})"
  using assms
  by (auto simp: delivery_problems_def delivery_summary_def Let_def getd_def names_def failing_text_channels
      all_strings_def)

lemma delivery_status_summary:
  assumes "finite (h_unknown h)"
  shows "\<exists>detail. delivery_status n (delivery_summary h) = Some
    (if h_lost h \<noteq> 0 then Chk_fail
     else if h_failures h \<noteq> [] \<or> h_unknown h \<noteq> {} then Chk_warn else Chk_ok, detail)"
proof -
  obtain parts where "delivery_problems (delivery_summary h) = Some parts"
    "parts = [] \<longleftrightarrow> h_failures h = [] \<and> h_unknown h = {}"
    using delivery_problems_summary [OF assms] by blast
  moreover have "getv (delivery_summary h) ''lost_alerts'' = VInt (h_lost h)"
    by (simp add: delivery_summary_def getv_def opt_val_def)
  ultimately show ?thesis by (auto simp: delivery_status_def Let_def)
qed

text \<open>The principals of a configuration that all have a channel.\<close>

definition deployed :: "cfg \<Rightarrow> bool" where
  "deployed cfg \<longleftrightarrow> dict_items (getv cfg ''delivery'') \<noteq> []
     \<and> list_all (\<lambda>(_, channels). truthy channels) (dict_items (getv cfg ''delivery''))"

lemma delivery_verdict:
  assumes "answers pr (health_document age_text ver environ now R conns (Some h) st)"
    and "finite (h_unknown h)"
  shows "fst (check_delivery_health cfg pr) =
    (if dict_items (getv cfg ''delivery'') = [] then Chk_skip else if \<not> deployed cfg then Chk_warn
     else if h_lost h \<noteq> 0 then Chk_fail else if has_failures h then Chk_warn else Chk_ok)"
proof (cases "deployed cfg")
  case False
  then show ?thesis
    by (auto simp: check_delivery_health_def deployed_def Let_def filter_empty_conv list_all_iff)
next
  case True
  obtain detail where status: "delivery_status (length (dict_items (getv cfg ''delivery''))) (delivery_summary h) = Some
    (if h_lost h \<noteq> 0 then Chk_fail
     else if h_failures h \<noteq> [] \<or> h_unknown h \<noteq> {} then Chk_warn else Chk_ok, detail)"
    using delivery_status_summary [OF assms(2)] by blast
  have "filter (\<lambda>(_, channels). \<not> truthy channels) (dict_items (getv cfg ''delivery'')) = []"
    using True by (auto simp: deployed_def filter_empty_conv list_all_iff)
  then show ?thesis
    using assms(1) True status
    by (simp add: check_delivery_health_def answers_def deployed_def success_def health_document_fields
        has_failures_def)
qed

text \<open>
  Claim C24: the doctor says of a running daemon what is true of it.  When the health document of
  the daemon answers, the check of live subscribers fails exactly when some source with live-only
  delivery has no live subscriber; the check of the secrets fails exactly when the daemon cannot
  resolve some source's secrets, is ok when the doctor sees them as well and is skipped, not
  failed, when only the daemon does.  The delivery check is skipped when the configuration has no principal
  and warns, without looking at the daemon's counters, when one of them has no channel; otherwise it fails
  exactly when an alert was lost, and warns exactly when a channel failed or a principal was unknown.
  When the daemon cannot be asked, secrets the doctor does not see are a failure.
\<close>

theorem doctor_tells_daemon_state:
  assumes "answers pr (health_document age_text ver environ now R conns (Some h) st)"
    and "finite (h_unknown h)" and "fetch_daemon_health env cfg silent = Inl e"
  shows "(fst (check_live_subscribers env cfg pr) = Chk_fail \<longleftrightarrow> live_only_without_subscribers R \<noteq> {})
    \<and> map_sum id fst (check_secrets_resolvable env cfg pr) = Inr
        (if \<not> require_resolvable_secrets environ (r_config R) then Chk_fail
         else if require_resolvable_secrets env cfg then Chk_ok else Chk_skip)
    \<and> fst (check_delivery_health cfg pr) =
        (if dict_items (getv cfg ''delivery'') = [] then Chk_skip else if \<not> deployed cfg then Chk_warn
         else if h_lost h \<noteq> 0 then Chk_fail else if has_failures h then Chk_warn else Chk_ok)
    \<and> map_sum id fst (check_secrets_resolvable env cfg silent) = Inr
        (if require_resolvable_secrets env cfg then Chk_ok else Chk_fail)"
  using live_verdict [OF assms(1), of env cfg] secrets_verdict [OF assms(1), of env cfg]
    delivery_verdict [OF assms(1,2), of cfg] secrets_verdict_unasked [OF assms(3)]
  by auto

definition quiet_router :: router where
  "quiet_router = new_router [(''sources'', VDict [(''ci'', VDict [(''secret_uris'', VList [VStr ''env://CI''])])]),
     (''delivery'', VDict [(''ann'', VDict [(''webhook'', VDict [])])])] None"

theorem doctor_tells_daemon_state_witness:
  "fst (check_live_subscribers (\<lambda>_. None) (r_config quiet_router)
      \<lparr>pr_connect = None, pr_answer = Answered 200 (Inr (VDict
        (health_document (\<lambda>_. []) [] (\<lambda>_. Some []) 0 quiet_router None (Some new_health) None)))\<rparr>) = Chk_fail
   \<longleftrightarrow> live_only_without_subscribers quiet_router \<noteq> {}"
proof -
  let ?pr = "\<lparr>pr_connect = None, pr_answer = Answered 200 (Inr (VDict
        (health_document (\<lambda>_. []) [] (\<lambda>_. Some []) 0 quiet_router None (Some new_health) None)))\<rparr>"
  have "answers ?pr (health_document (\<lambda>_. []) [] (\<lambda>_. Some []) 0 quiet_router None (Some new_health) None)"
    by (simp add: answers_def)
  moreover have "finite (h_unknown new_health)" by (simp add: new_health_def)
  moreover have "\<exists>e. fetch_daemon_health (\<lambda>_. None) (r_config quiet_router)
      \<lparr>pr_connect = Some [], pr_answer = Http_raised []\<rparr> = Inl e"
    by (simp add: fetch_daemon_health_def)
  ultimately show ?thesis using doctor_tells_daemon_state by blast
qed

subsection \<open>The addressing check\<close>

definition same_session :: "destination \<Rightarrow> destination \<Rightarrow> bool" where
  "same_session d e \<longleftrightarrow> d_adapter d \<noteq> None \<and> d_session d \<noteq> None
     \<and> d_adapter e = d_adapter d \<and> d_session e = d_session d"

definition session_key :: "destination \<Rightarrow> (string \<times> string) option" where
  "session_key d = (case (d_adapter d, d_session d) of (Some a, Some s) \<Rightarrow> Some (a, s) | _ \<Rightarrow> None)"

lemma add_session_key:
  "add_session d seen = (case session_key d of
     None \<Rightarrow> seen
   | Some k \<Rightarrow> dset k ((case dget seen k of None \<Rightarrow> [] | Some ns \<Rightarrow> ns) @ [d_name d]) seen)"
  by (simp add: add_session_def session_key_def split: option.split)

lemma wf_add_session: "wf_dict seen \<Longrightarrow> wf_dict (add_session d seen)"
  by (simp add: add_session_key split: option.split)

lemma add_sessions_get:
  "dget (fold add_session ds seen) k =
     (let ns = map d_name (filter (\<lambda>d. session_key d = Some k) ds) in
      if ns = [] then dget seen k else Some ((case dget seen k of None \<Rightarrow> [] | Some ms \<Rightarrow> ms) @ ns))"
proof (induction ds arbitrary: seen)
  case (Cons d ds)
  then show ?case by (auto simp: add_session_key dget_dset Let_def split: option.splits)
qed simp

lemma wf_add_sessions: "wf_dict seen \<Longrightarrow> wf_dict (fold add_session ds seen)"
  by (induction ds arbitrary: seen) (simp_all add: wf_add_session)

lemma same_session_key: "same_session d e \<longleftrightarrow> (\<exists>k. session_key d = Some k \<and> session_key e = Some k)"
  by (auto simp: same_session_def session_key_def split: option.splits)

lemma collisions_none:
  "session_collisions ds = [] \<longleftrightarrow> (\<forall>k. length (filter (\<lambda>d. session_key d = Some k) ds) \<le> 1)"
proof -
  have wf: "wf_dict (fold add_session ds [])" by (rule wf_add_sessions) simp
  have "session_collisions ds = [] \<longleftrightarrow> (\<forall>k ns. dget (fold add_session ds []) k = Some ns \<longrightarrow> length ns \<le> 1)"
    unfolding session_collisions_def filter_empty_conv wf_dict_get [OF wf]
    by (force simp: not_less simp del: split_paired_All)
  also have "\<dots> \<longleftrightarrow> (\<forall>k. length (filter (\<lambda>d. session_key d = Some k) ds) \<le> 1)"
    by (auto simp: add_sessions_get Let_def simp del: split_paired_All) (metis le0 length_0_conv)
  finally show ?thesis .
qed

lemma two_of_filter:
  assumes "distinct xs"
  shows "length (filter p xs) \<le> 1 \<longleftrightarrow> \<not> (\<exists>x \<in> set xs. \<exists>y \<in> set xs. x \<noteq> y \<and> p x \<and> p y)"
proof -
  have "length (filter p xs) = card {x \<in> set xs. p x}"
    using assms by (metis distinct_card distinct_filter set_filter)
  moreover have "card {x \<in> set xs. p x} \<le> 1 \<longleftrightarrow> (\<forall>x \<in> {x \<in> set xs. p x}. \<forall>y \<in> {x \<in> set xs. p x}. x = y)"
    by (subst One_nat_def, rule card_le_Suc0_iff_eq) simp
  ultimately show ?thesis by auto
qed

lemma distinct_destinations:
  assumes "wf_dict (raw_destinations cfg)"
  shows "distinct (map snd (destination_table cfg))"
proof -
  have "wf_dict (destination_table cfg)"
    using assms by (simp add: destination_table_def wf_build_destinations)
  moreover have "map fst (destination_table cfg) = map (d_name \<circ> snd) (destination_table cfg)"
    by (auto simp: destination_table_def dest: build_destinations_name)
  ultimately have "distinct (map d_name (map snd (destination_table cfg)))"
    by (simp add: wf_dict_def)
  then show ?thesis by (simp only: distinct_map)
qed

text \<open>
  Claim C25: the doctor's verdict on the addresses.  The check fails exactly when two destinations
  name the same session of the same adapter; it warns exactly when there is no such pair and some
  sender reaches no destination or some destination is reached by no sender; otherwise it is ok.
\<close>

theorem addressing_verdict:
  assumes "wf_dict (raw_destinations cfg)"
  shows "fst (check_addressing cfg) =
     (if \<exists>d e. d \<in> snd ` set (destination_table cfg) \<and> e \<in> snd ` set (destination_table cfg)
           \<and> d \<noteq> e \<and> same_session d e
      then Chk_fail
      else if {n \<in> fst ` set (sender_table cfg). routed_destinations cfg n = []} \<noteq> {}
        \<or> \<not> fst ` set (destination_table cfg)
            \<subseteq> (\<Union>n \<in> fst ` set (sender_table cfg). d_name ` set (routed_destinations cfg n))
      then Chk_warn else Chk_ok)"
proof -
  have collided: "(session_collisions (map snd (destination_table cfg)) \<noteq> [])
      = (\<exists>d e. d \<in> snd ` set (destination_table cfg) \<and> e \<in> snd ` set (destination_table cfg)
           \<and> d \<noteq> e \<and> same_session d e)"
    unfolding collisions_none two_of_filter [OF distinct_destinations [OF assms]] same_session_key by auto
  have unrouted: "(unrouted_senders cfg \<noteq> []) = ({n \<in> fst ` set (sender_table cfg). routed_destinations cfg n = []} \<noteq> {})"
    by (auto simp: unrouted_senders_def filter_empty_conv)
  have "unreached_destinations cfg = [] \<longleftrightarrow> (\<forall>n \<in> fst ` set (destination_table cfg).
      n \<in> (\<Union>n \<in> fst ` set (sender_table cfg). d_name ` set (routed_destinations cfg n)))"
    by (simp add: unreached_destinations_def Let_def filter_empty_conv)
  then have unreached: "(unreached_destinations cfg \<noteq> []) = (\<not> fst ` set (destination_table cfg)
      \<subseteq> (\<Union>n \<in> fst ` set (sender_table cfg). d_name ` set (routed_destinations cfg n)))"
    by blast
  have "fst (check_addressing cfg) =
      (if session_collisions (map snd (destination_table cfg)) \<noteq> [] then Chk_fail
       else if unrouted_senders cfg \<noteq> [] \<or> unreached_destinations cfg \<noteq> [] then Chk_warn else Chk_ok)"
    by (simp add: check_addressing_def Let_def)
  then show ?thesis by (simp only: collided unrouted unreached)
qed

definition clashing_cfg :: cfg where
  "clashing_cfg = [(''destinations'', VDict
     (map (\<lambda>n. (n, VDict [(''adapter'', VStr ''claude''), (''session'', VStr ''main'')])) [''desk'', ''lap'']))]"

theorem addressing_verdict_witness: "fst (check_addressing clashing_cfg) = Chk_fail"
proof -
  have "wf_dict (raw_destinations clashing_cfg)" by code_simp
  moreover have "\<exists>d e. d \<in> snd ` set (destination_table clashing_cfg) \<and> e \<in> snd ` set (destination_table clashing_cfg)
      \<and> d \<noteq> e \<and> same_session d e"
  proof (intro exI conjI)
    let ?d = "snd (destination_table clashing_cfg ! 0)" and ?e = "snd (destination_table clashing_cfg ! 1)"
    show "?d \<in> snd ` set (destination_table clashing_cfg)" "?e \<in> snd ` set (destination_table clashing_cfg)"
      "?d \<noteq> ?e" "same_session ?d ?e" by code_simp+
  qed
  ultimately show ?thesis by (simp only: addressing_verdict if_True)
qed

subsection \<open>The report\<close>

text \<open>The exit code is that of the report: 0 exactly when no check failed.\<close>

lemma doctor_exit:
  assumes "run_checks E now disk = (Inr r, disk')"
  shows "fst (cmd_doctor j pretty ver r) = 0 \<longleftrightarrow> (\<forall>(n, v) \<in> set (rp_checks r). fst v \<noteq> Chk_fail)"
    and "map fst (rp_checks r) = [''config_present'', ''ingress_reachable'', ''live_subscribers'',
      ''auth_configured'', ''secrets_resolvable'', ''adapters_installed'', ''allowlist_present'',
      ''addressing'', ''delivery_health'', ''durable_state'']"
proof -
  obtain checks reg where r: "r = summarise checks reg"
    and names: "map fst checks = [''config_present'', ''ingress_reachable'', ''live_subscribers'',
      ''auth_configured'', ''secrets_resolvable'', ''adapters_installed'', ''allowlist_present'',
      ''addressing'', ''delivery_health'', ''durable_state'']"
    using assms by (auto simp: run_checks_def Let_def split: sum.splits prod.splits)
  then show "map fst (rp_checks r) = [''config_present'', ''ingress_reachable'', ''live_subscribers'',
      ''auth_configured'', ''secrets_resolvable'', ''adapters_installed'', ''allowlist_present'',
      ''addressing'', ''delivery_health'', ''durable_state'']"
    by (simp add: summarise_def Let_def)
  show "fst (cmd_doctor j pretty ver r) = 0 \<longleftrightarrow> (\<forall>(n, v) \<in> set (rp_checks r). fst v \<noteq> Chk_fail)"
    by (auto simp: r cmd_doctor_def summarise_def Let_def list_all_iff split_beta)
qed

text \<open>A daemon that refuses every request on its address is reported as a warning only.\<close>

lemma dead_daemon_only_warns:
  "pr_connect pr \<noteq> None \<Longrightarrow> fst (check_ingress_reachable env cfg pr) = Chk_warn
    \<and> fst (check_live_subscribers env cfg pr) = Chk_warn"
  by (auto simp: check_ingress_reachable_def check_live_subscribers_def fetch_daemon_health_def)

end
