(* ===== verification/Harness.thy ===== *)
theory Harness
  imports Config Secrets Outbox Lines "HOL-Library.Sublist"
begin

section \<open>Wiring adapters into the harnesses (\<open>cli/install_harness.py\<close>)\<close>

text \<open>
  \<open>agent-wake install-harness\<close> edits the settings of the harnesses and remembers in a manifest what
  it added.  The files it works on are the state; a step gives its actions or raises, with the files
  as they are then.  Where the plugins are found, whether the Claude adapter is on the path and the
  text of a parse error are arguments.
\<close>

record files =
  hf_claude :: config_file
  hf_opencode :: config_file
  hf_env :: "string option res"
  hf_dirs :: "string \<Rightarrow> (string \<times> bytes) list option"
  hf_manifest :: config_file

record install_env =
  in_config :: string
  in_claude :: bool
  in_opencode :: "string option"
  in_hermes :: "(string \<times> bytes) list option"
  in_settings :: string
  in_oc_path :: string
  in_env_path :: string
  in_plugin_dir :: string
  in_parse_text :: "string \<Rightarrow> config_file \<Rightarrow> string"

type_synonym 'a installing = "'a res \<times> files"

subsection \<open>Actions\<close>

definition action :: "string \<Rightarrow> string \<Rightarrow> string list option \<Rightarrow> string \<Rightarrow> dict" where
  "action kind path keys detail =
     [(''kind'', VStr kind), (''path'', VStr path)]
     @ (case keys of None \<Rightarrow> [] | Some ks \<Rightarrow> [(''keys'', VList (map VStr ks))])
     @ [(''detail'', VStr detail)]"

definition action_kind :: "dict \<Rightarrow> string" where
  "action_kind a = py_str (getv a ''kind'')"

subsection \<open>JSON files\<close>

text \<open>A file that is missing reads as an empty object.  Text that cannot be read or parsed is refused;
  an error of decoding is not caught.\<close>

datatype loaded_json = Parsed pyval | Refused_parse | Raised_load exn

definition load_json :: "config_file \<Rightarrow> loaded_json" where
  "load_json f =
     (case f of
        Absent \<Rightarrow> Parsed (VDict [])
      | Not_json \<Rightarrow> Refused_parse
      | Unreadable e \<Rightarrow> (case e of OSError _ \<Rightarrow> Refused_parse | _ \<Rightarrow> Raised_load e)
      | Json v \<Rightarrow> Parsed v)"

definition empty_manifest :: dict where
  "empty_manifest = [(''installed'', VDict [])]"

definition load_manifest :: "files \<Rightarrow> pyval res" where
  "load_manifest F =
     (case load_json (hf_manifest F) of
        Parsed v \<Rightarrow> Inr (if hf_manifest F = Absent then VDict empty_manifest else v)
      | Refused_parse \<Rightarrow> Inr (VDict empty_manifest)
      | Raised_load e \<Rightarrow> Inl e)"

definition save_manifest :: "dict \<Rightarrow> files \<Rightarrow> files" where
  "save_manifest m F = F\<lparr>hf_manifest := Json (VDict m)\<rparr>"

text \<open>\<open>manifest.get("installed", {}).get(target)\<close>.\<close>

definition manifest_entry :: "pyval \<Rightarrow> string \<Rightarrow> pyval option res" where
  "manifest_entry manifest target =
     (case manifest of
        VDict m \<Rightarrow>
          (case getd m ''installed'' (VDict []) of VDict d \<Rightarrow> Inr (dget d target) | _ \<Rightarrow> Inl AttributeError)
      | _ \<Rightarrow> Inl AttributeError)"

text \<open>\<open>manifest.setdefault("installed", {})[target] = entry\<close>, then saved.\<close>

definition record_entry :: "pyval \<Rightarrow> string \<Rightarrow> dict \<Rightarrow> files \<Rightarrow> unit installing" where
  "record_entry manifest target entry F =
     (case manifest of
        VDict m \<Rightarrow>
          (case getd m ''installed'' (VDict []) of
             VDict d \<Rightarrow>
               (Inr (), save_manifest (dset ''installed'' (VDict (dset target (VDict entry) d)) m) F)
           | _ \<Rightarrow> (Inl TypeError, F))
      | _ \<Rightarrow> (Inl AttributeError, F))"

text \<open>\<open>manifest.get("installed", {}).pop(target, None)\<close>, then saved.\<close>

definition forget_entry :: "pyval \<Rightarrow> string \<Rightarrow> files \<Rightarrow> files" where
  "forget_entry manifest target F =
     (case manifest of
        VDict m \<Rightarrow>
          save_manifest
            (case dget m ''installed'' of Some (VDict d) \<Rightarrow> dset ''installed'' (VDict (dpop target d)) m | _ \<Rightarrow> m) F
      | _ \<Rightarrow> F)"

subsection \<open>The environment block\<close>

definition wake_env_vars :: "install_env \<Rightarrow> string option \<Rightarrow> (string \<times> string) list" where
  "wake_env_vars N user =
     (''AGENT_WAKE_CONFIG'', in_config N)
     # (case user of Some (c # u) \<Rightarrow> [(''AGENT_WAKE_PRINCIPAL_ID'', c # u)] | _ \<Rightarrow> [])"

text \<open>The loop over the variables: the block, the names changed and those skipped.\<close>

fun merge_vars ::
  "(string \<times> string) list \<Rightarrow> dict \<Rightarrow> dict \<times> string list \<times> string list" where
  "merge_vars [] env = (env, [], [])"
| "merge_vars ((key, v) # vars) env =
     (case dget env key of
        Some old \<Rightarrow>
          (case merge_vars vars env of
             (env', changed, skipped) \<Rightarrow>
               (env', changed,
                if old = VStr v then skipped
                else (''env.'' @ key @ '' (existing: '' @ py_str old @ '')'') # skipped))
      | None \<Rightarrow>
          (case merge_vars vars (dset key (VStr v) env) of
             (env', changed, skipped) \<Rightarrow> (env', (''env.'' @ key) # changed, skipped)))"

definition merge_env_block ::
  "dict \<Rightarrow> (string \<times> string) list \<Rightarrow> (dict \<times> string list \<times> string list) res" where
  "merge_env_block config vars =
     (case getd config ''env'' (VDict []) of
        VDict env \<Rightarrow>
          (case merge_vars vars env of
             (env', changed, skipped) \<Rightarrow> Inr (dset ''env'' (VDict env') config, changed, skipped))
      | _ \<Rightarrow> Inl TypeError)"

definition env_keys :: "string list \<Rightarrow> string list" where
  "env_keys changed = map (drop 4) (filter (\<lambda>k. startswith k ''env.'') changed)"

definition skip_action :: "string \<Rightarrow> string list \<Rightarrow> dict list" where
  "skip_action path skipped =
     (if skipped = [] then []
      else [action ''warn'' path (Some skipped)
              (''skipped (existing values differ): '' @ join '', '' skipped)])"

definition parse_error :: "install_env \<Rightarrow> string \<Rightarrow> config_file \<Rightarrow> dict list" where
  "parse_error N path f = [action ''error'' path None (in_parse_text N path f)]"

text \<open>Deleting the recorded keys from the block; an empty block goes altogether.  The file may hold
  something else under \<open>env\<close>: a list or a text can contain a key, but not lose it.\<close>

fun del_keys :: "pyval list \<Rightarrow> dict \<Rightarrow> (dict \<times> string list) res" where
  "del_keys [] env = Inr (env, [])"
| "del_keys (k # ks) env =
     (if unhashable k then Inl TypeError
      else
        (case k of
           VStr s \<Rightarrow>
             if has_key env s
             then map_sum id (\<lambda>(e, r). (e, (''env.'' @ s) # r)) (del_keys ks (dpop s env))
             else del_keys ks env
         | _ \<Rightarrow> del_keys ks env))"

fun holds_key :: "pyval \<Rightarrow> pyval \<Rightarrow> bool res" where
  "holds_key (VList xs) k = Inr (k \<in> set xs)"
| "holds_key (VStr s) (VStr k) = Inr (sublist k s)"
| "holds_key _ _ = Inl TypeError"

fun lose_keys :: "pyval list \<Rightarrow> pyval \<Rightarrow> unit res" where
  "lose_keys [] v = Inr ()"
| "lose_keys (k # ks) v =
     (case holds_key v k of Inr False \<Rightarrow> lose_keys ks v | _ \<Rightarrow> Inl TypeError)"

definition drop_env :: "pyval \<Rightarrow> dict \<Rightarrow> (dict \<times> string list) res" where
  "drop_env entry config =
     (case entry of
        VDict d \<Rightarrow>
          (case py_iter (getd d ''env_keys'' (VList [])) of
             None \<Rightarrow> Inl TypeError
           | Some ks \<Rightarrow>
               (case getd config ''env'' (VDict []) of
                  VDict env \<Rightarrow>
                    map_sum id (\<lambda>(env', removed).
                      (if env' = [] then dpop ''env'' config
                       else if has_key config ''env'' then dset ''env'' (VDict env') config else config, removed))
                      (del_keys ks env)
                | v \<Rightarrow>
                    map_sum id (\<lambda>_. (if truthy v then config else dpop ''env'' config, [])) (lose_keys ks v)))
      | _ \<Rightarrow> Inl AttributeError)"

subsection \<open>Claude\<close>

definition launch_hint :: dict where
  "launch_hint = action ''info'' [] (Some [])
     ''launch claude with: --dangerously-load-development-channels server:agent-wake-claude''"

definition unwire_claude :: "install_env \<Rightarrow> bool \<Rightarrow> pyval \<Rightarrow> files \<Rightarrow> dict list installing" where
  "unwire_claude N dry manifest F =
     (case manifest_entry manifest ''claude'' of
        Inl e \<Rightarrow> (Inl e, F)
      | Inr entry \<Rightarrow>
          if \<not> truthy_opt entry
          then (Inr [action ''noop'' (in_settings N) (Some []) ''claude not wired by install-harness''], F)
          else
            (case load_json (hf_claude F) of
               Raised_load e \<Rightarrow> (Inl e, F)
             | Refused_parse \<Rightarrow> (Inr (parse_error N (in_settings N) (hf_claude F)), F)
             | Parsed (VDict config) \<Rightarrow>
                 (case drop_env (opt_val entry) config of
                    Inl e \<Rightarrow> (Inl e, F)
                  | Inr (config', removed) \<Rightarrow>
                      (Inr [if removed \<noteq> []
                            then action ''remove_keys'' (in_settings N) (Some removed)
                                   ''removed wake env vars from claude settings''
                            else action ''noop'' (in_settings N) (Some []) ''nothing to remove''],
                       if dry then F
                       else forget_entry manifest ''claude''
                              (if removed \<noteq> [] then F\<lparr>hf_claude := Json (VDict config')\<rparr> else F)))
             | Parsed _ \<Rightarrow> (Inl AttributeError, F)))"

definition wire_claude ::
  "install_env \<Rightarrow> bool \<Rightarrow> bool \<Rightarrow> string option \<Rightarrow> files \<Rightarrow> dict list installing" where
  "wire_claude N dry uninstall user F =
     (case load_manifest F of
        Inl e \<Rightarrow> (Inl e, F)
      | Inr manifest \<Rightarrow>
          if uninstall then unwire_claude N dry manifest F
          else if \<not> in_claude N
          then (Inr [action ''check_failed'' ''agent-wake-claude'' None
                       ''agent-wake-claude not on PATH; run: pip install -e adapters/claude''], F)
          else
            (case load_json (hf_claude F) of
               Raised_load e \<Rightarrow> (Inl e, F)
             | Refused_parse \<Rightarrow> (Inr (parse_error N (in_settings N) (hf_claude F)), F)
             | Parsed (VDict config) \<Rightarrow>
                 (case merge_env_block config (wake_env_vars N user) of
                    Inl e \<Rightarrow> (Inl e, F)
                  | Inr (config', changed, skipped) \<Rightarrow>
                      (let actions =
                         skip_action (in_settings N) skipped
                         @ (if changed \<noteq> [] then
                              [action ''merge_json'' (in_settings N) (Some changed) ''set wake env vars in claude settings'']
                            else if skipped = [] then
                              [action ''noop'' (in_settings N) (Some []) ''env vars already set'']
                            else [])
                         @ [launch_hint]
                       in if dry \<or> changed = [] then (Inr actions, F)
                          else
                            (case record_entry manifest ''claude''
                                    [(''settings_path'', VStr (in_settings N)),
                                     (''env_keys'', VList (map VStr (env_keys changed)))]
                                    (F\<lparr>hf_claude := Json (VDict config')\<rparr>) of
                               (Inl e, F') \<Rightarrow> (Inl e, F')
                             | (Inr _, F') \<Rightarrow> (Inr actions, F'))))
             | Parsed _ \<Rightarrow> (Inl AttributeError, F)))"

subsection \<open>opencode\<close>

definition is_plugin :: "string \<Rightarrow> pyval \<Rightarrow> bool" where
  "is_plugin path p = (case p of VDict d \<Rightarrow> dget d ''path'' = Some (VStr path) | _ \<Rightarrow> False)"

definition register_plugin :: "string \<Rightarrow> dict \<Rightarrow> (dict \<times> bool) res" where
  "register_plugin path config =
     (case getd config ''plugins'' (VList []) of
        VList ps \<Rightarrow>
          Inr (if list_ex (is_plugin path) ps then (dset ''plugins'' (VList ps) config, False)
               else (dset ''plugins'' (VList (ps @ [VDict [(''path'', VStr path), (''type'', VStr ''module'')]])) config,
                     True))
      | _ \<Rightarrow> Inl TypeError)"

text \<open>A recorded path that is no string equals no plugin's path here.\<close>

definition drop_plugin :: "pyval \<Rightarrow> dict \<Rightarrow> dict \<times> string list" where
  "drop_plugin entry config =
     (case getv (dict_items entry) ''plugin_path'' of
        VStr (c # path) \<Rightarrow>
          (case dget config ''plugins'' of
             Some (VList ps) \<Rightarrow>
               (let kept = filter (\<lambda>p. \<not> is_plugin (c # path) p) ps in
                (if kept = [] then dpop ''plugins'' config else dset ''plugins'' (VList kept) config,
                 if length kept < length ps then [''plugins['' @ (c # path) @ '']''] else []))
           | _ \<Rightarrow> (config, []))
      | _ \<Rightarrow> (config, []))"

definition unwire_opencode :: "install_env \<Rightarrow> bool \<Rightarrow> pyval \<Rightarrow> files \<Rightarrow> dict list installing" where
  "unwire_opencode N dry manifest F =
     (case manifest_entry manifest ''opencode'' of
        Inl e \<Rightarrow> (Inl e, F)
      | Inr entry \<Rightarrow>
          if \<not> truthy_opt entry
          then (Inr [action ''noop'' (in_oc_path N) (Some []) ''opencode not wired by install-harness''], F)
          else
            (case load_json (hf_opencode F) of
               Raised_load e \<Rightarrow> (Inl e, F)
             | Refused_parse \<Rightarrow> (Inr (parse_error N (in_oc_path N) (hf_opencode F)), F)
             | Parsed (VDict config) \<Rightarrow>
                 (case drop_env (opt_val entry) config of
                    Inl e \<Rightarrow> (Inl e, F)
                  | Inr (config1, removed_env) \<Rightarrow>
                      (case drop_plugin (opt_val entry) config1 of
                         (config2, removed_plugin) \<Rightarrow>
                           (let removed = removed_env @ removed_plugin in
                            (Inr [if removed \<noteq> []
                                  then action ''remove_keys'' (in_oc_path N) (Some removed)
                                         ''removed wake env vars and plugin from opencode config''
                                  else action ''noop'' (in_oc_path N) (Some []) ''nothing to remove''],
                             if dry then F
                             else forget_entry manifest ''opencode''
                                    (if removed \<noteq> [] then F\<lparr>hf_opencode := Json (VDict config2)\<rparr> else F)))))
             | Parsed _ \<Rightarrow> (Inl AttributeError, F)))"

definition wire_opencode ::
  "install_env \<Rightarrow> bool \<Rightarrow> bool \<Rightarrow> string option \<Rightarrow> files \<Rightarrow> dict list installing" where
  "wire_opencode N dry uninstall user F =
     (case load_manifest F of
        Inl e \<Rightarrow> (Inl e, F)
      | Inr manifest \<Rightarrow>
          if uninstall then unwire_opencode N dry manifest F
          else
            (case in_opencode N of
               Some (c # path) \<Rightarrow>
                 (case load_json (hf_opencode F) of
                    Raised_load e \<Rightarrow> (Inl e, F)
                  | Refused_parse \<Rightarrow> (Inr (parse_error N (in_oc_path N) (hf_opencode F)), F)
                  | Parsed (VDict config) \<Rightarrow>
                      (case merge_env_block config (wake_env_vars N user) of
                         Inl e \<Rightarrow> (Inl e, F)
                       | Inr (config1, changed_env, skipped) \<Rightarrow>
                           (case register_plugin (c # path) config1 of
                              Inl e \<Rightarrow> (Inl e, F)
                            | Inr (config2, added) \<Rightarrow>
                                (let changed = changed_env @ (if added then [''plugins['' @ (c # path) @ '']''] else []);
                                     actions =
                                       skip_action (in_oc_path N) skipped
                                       @ (if changed \<noteq> [] then
                                            [action ''merge_json'' (in_oc_path N) (Some changed)
                                               ''set wake env vars and register opencode plugin'']
                                          else if skipped = [] then
                                            [action ''noop'' (in_oc_path N) (Some []) ''env vars and plugin already configured'']
                                          else [])
                                 in if dry \<or> changed = [] then (Inr actions, F)
                                    else
                                      (case record_entry manifest ''opencode''
                                              ([(''config_path'', VStr (in_oc_path N)),
                                                (''env_keys'', VList (map VStr (env_keys changed)))]
                                               @ (if added then [(''plugin_path'', VStr (c # path))] else []))
                                              (F\<lparr>hf_opencode := Json (VDict config2)\<rparr>) of
                                         (Inl e, F') \<Rightarrow> (Inl e, F')
                                       | (Inr _, F') \<Rightarrow> (Inr actions, F')))))
                  | Parsed _ \<Rightarrow> (Inl AttributeError, F))
             | _ \<Rightarrow>
                 (Inr [action ''check_failed'' ''adapters/opencode/dist/index.js'' None
                         ''opencode plugin not built; run: cd adapters/opencode && bun install && bun run build''],
                  F)))"

subsection \<open>Hermes: the managed block of an env file\<close>

definition SENTINEL_BEGIN :: string where "SENTINEL_BEGIN = ''# BEGIN agent-wake-harness-managed''"
definition SENTINEL_END :: string where "SENTINEL_END = ''# END agent-wake-harness-managed''"

definition is_begin :: "string \<Rightarrow> bool" where "is_begin line \<longleftrightarrow> strip line = SENTINEL_BEGIN"
definition is_end :: "string \<Rightarrow> bool" where "is_end line \<longleftrightarrow> strip line = SENTINEL_END"

fun existing_keys :: "bool \<Rightarrow> bool \<Rightarrow> string list \<Rightarrow> (string \<times> string) list \<Rightarrow> (string \<times> string) list" where
  "existing_keys exclude inside [] result = result"
| "existing_keys exclude inside (line # ls) result =
     (let stripped = strip line in
      if is_begin line then existing_keys exclude True ls result
      else if is_end line then existing_keys exclude False ls result
      else if exclude \<and> inside then existing_keys exclude inside ls result
      else if stripped = [] \<or> startswith stripped ''#'' then existing_keys exclude inside ls result
      else if CHR ''='' \<in> set stripped then
        (case partition_on (CHR ''='') stripped of
           (k, _, v) \<Rightarrow> existing_keys exclude inside ls (dset (strip k) (strip v) result))
      else existing_keys exclude inside ls result)"

definition managed_block :: "(string \<times> string) list \<Rightarrow> string list" where
  "managed_block vars = [SENTINEL_BEGIN] @ map (\<lambda>(k, v). k @ ''='' @ v) vars @ [SENTINEL_END]"

text \<open>The lines with each managed block replaced, and whether there was one.\<close>

fun replace_block :: "string list \<Rightarrow> bool \<Rightarrow> string list \<Rightarrow> string list \<times> bool" where
  "replace_block block inside [] = ([], False)"
| "replace_block block inside (line # ls) =
     (if is_begin line then replace_block block True ls
      else if is_end line then
        (case replace_block block False ls of (rest, _) \<Rightarrow> (block @ rest, True))
      else if inside then replace_block block inside ls
      else (case replace_block block inside ls of (rest, r) \<Rightarrow> (line # rest, r)))"

text \<open>Keys that are set outside the block are left to their owner.\<close>

definition skipped_outside :: "(string \<times> string) list \<Rightarrow> (string \<times> string) list \<Rightarrow> string list" where
  "skipped_outside outside vars =
     List.map_filter (\<lambda>(k, v). case dget outside k of
        Some old \<Rightarrow> if old \<noteq> v then Some (k @ '' (existing: '' @ old @ '')'') else None
      | None \<Rightarrow> None) vars"

definition merge_env_file_block ::
  "string list \<Rightarrow> (string \<times> string) list \<Rightarrow> string list \<times> string list \<times> string list" where
  "merge_env_file_block lines vars =
     (let outside = existing_keys True False lines [];
          managed = filter (\<lambda>(k, _). \<not> has_key outside k) (existing_keys False False lines []);
          to_write = filter (\<lambda>(k, _). \<not> has_key outside k) vars;
          already = list_all (\<lambda>(k, v). dget managed k = Some v) to_write \<and> length to_write = length managed;
          changed = (if already then [] else map fst to_write)
      in case replace_block (managed_block to_write) False lines of
           (new_lines, replaced) \<Rightarrow>
             ((if replaced then new_lines
               else (if new_lines \<noteq> [] \<and> strip (last new_lines) \<noteq> [] then new_lines @ [[]] else new_lines)
                    @ managed_block to_write),
              changed, skipped_outside outside vars))"

fun remove_block :: "bool \<Rightarrow> string list \<Rightarrow> string list \<times> string list" where
  "remove_block inside [] = ([], [])"
| "remove_block inside (line # ls) =
     (let stripped = strip line in
      if is_begin line then remove_block True ls
      else if is_end line then remove_block False ls
      else if inside then
        (case remove_block inside ls of
           (rest, keys) \<Rightarrow>
             (rest, if CHR ''='' \<in> set stripped \<and> \<not> startswith stripped ''#''
                    then strip (fst (partition_on (CHR ''='') stripped)) # keys else keys))
      else (case remove_block inside ls of (rest, keys) \<Rightarrow> (line # rest, keys)))"

definition remove_env_file_block :: "string list \<Rightarrow> string list \<times> string list" where
  "remove_env_file_block lines = remove_block False lines"

definition env_file_lines :: "string option \<Rightarrow> string list" where
  "env_file_lines f = (case f of None \<Rightarrow> [] | Some s \<Rightarrow> splitlines s)"

definition write_env_file :: "string list \<Rightarrow> string" where
  "write_env_file lines =
     (let content = join line_feed lines in
      if content \<noteq> [] \<and> last content \<noteq> CHR 0x0A then content @ line_feed else content)"

subsection \<open>Hermes: wiring\<close>

definition PLUGIN_FILES :: "string list" where
  "PLUGIN_FILES = [''plugin.yaml'', ''__init__.py'']"

definition plugin_missing :: "(string \<times> bytes) list \<Rightarrow> (string \<times> bytes) list option \<Rightarrow> bool" where
  "plugin_missing src dir =
     list_ex (\<lambda>f. case dir of None \<Rightarrow> True | Some d \<Rightarrow> dget d f = None \<or> dget d f \<noteq> dget src f) PLUGIN_FILES"

definition copy_plugin :: "(string \<times> bytes) list \<Rightarrow> (string \<times> bytes) list option \<Rightarrow> (string \<times> bytes) list" where
  "copy_plugin src dir =
     fold (\<lambda>f d. case dget src f of None \<Rightarrow> d | Some b \<Rightarrow> dset f b d) PLUGIN_FILES
       (case dir of None \<Rightarrow> [] | Some d \<Rightarrow> d)"

text \<open>The manifest's entry names the directory to delete.\<close>

definition unwire_hermes :: "install_env \<Rightarrow> bool \<Rightarrow> pyval \<Rightarrow> files \<Rightarrow> dict list installing" where
  "unwire_hermes N dry manifest F =
     (case manifest_entry manifest ''hermes'' of
        Inl e \<Rightarrow> (Inl e, F)
      | Inr entry \<Rightarrow>
          if \<not> truthy_opt entry
          then (Inr [action ''noop'' (in_env_path N) (Some []) ''hermes not wired by install-harness''], F)
          else
            (case hf_env F of
               Inl e \<Rightarrow> (Inl e, F)
             | Inr txt \<Rightarrow>
                 (case (opt_val entry, remove_env_file_block (env_file_lines txt)) of
                    (VDict d, new_lines, keys) \<Rightarrow>
                      (let pdir = getv d ''plugin_dir'' in
                       if truthy pdir \<and> \<not> is_str (Some pdir) then (Inl TypeError, F)
                       else
                         (let gone = (truthy pdir \<and> hf_dirs F (py_str pdir) \<noteq> None);
                              F1 = (if gone \<and> \<not> dry then F\<lparr>hf_dirs := (hf_dirs F)(py_str pdir := None)\<rparr> else F);
                              F2 = (if keys \<noteq> [] \<and> \<not> dry
                                    then F1\<lparr>hf_env := Inr (Some (write_env_file new_lines))\<rparr> else F1);
                              removed = map (\<lambda>k. ''env.'' @ k) keys
                          in (Inr [if keys \<noteq> [] \<or> gone
                                   then action ''remove_keys'' (in_env_path N) (Some removed)
                                          (''removed wake env block'' @ (if gone then '' and plugin directory'' else [])
                                           @ '' from hermes'')
                                   else action ''noop'' (in_env_path N) (Some []) ''nothing to remove''],
                              if dry then F else forget_entry manifest ''hermes'' F2)))
                  | _ \<Rightarrow> (Inl AttributeError, F))))"

definition wire_hermes ::
  "install_env \<Rightarrow> bool \<Rightarrow> bool \<Rightarrow> string option \<Rightarrow> files \<Rightarrow> dict list installing" where
  "wire_hermes N dry uninstall user F =
     (case load_manifest F of
        Inl e \<Rightarrow> (Inl e, F)
      | Inr manifest \<Rightarrow>
          if uninstall then unwire_hermes N dry manifest F
          else
            (case in_hermes N of
               None \<Rightarrow>
                 (Inr [action ''check_failed'' ''adapters/hermes'' None
                         ''hermes plugin source not found; expected adapters/hermes/plugin.yaml and __init__.py''], F)
             | Some src \<Rightarrow>
                 (case hf_env F of
                    Inl e \<Rightarrow> (Inl e, F)
                  | Inr txt \<Rightarrow>
                      (case merge_env_file_block (env_file_lines txt) (wake_env_vars N user) of
                         (new_lines, changed, skipped) \<Rightarrow>
                           (let dir = hf_dirs F (in_plugin_dir N); copy = plugin_missing src dir;
                                details = (if changed \<noteq> [] then [''set wake env vars ('' @ join '', '' changed @ '')''] else [])
                                          @ (if copy then [''copy hermes plugin''] else []);
                                actions = skip_action (in_env_path N) skipped
                                  @ (if changed \<noteq> [] \<or> copy then
                                       [action (if changed \<noteq> [] \<and> \<not> copy then ''merge_env'' else ''install_hermes'')
                                          (in_env_path N) (Some changed) (join ''; '' details)]
                                     else if skipped = [] then
                                       [action ''noop'' (in_env_path N) (Some []) ''env vars and plugin already configured'']
                                     else [])
                            in if dry \<or> (changed = [] \<and> \<not> copy) then (Inr actions, F)
                               else
                                 (let F1 = (if changed \<noteq> []
                                            then F\<lparr>hf_env := Inr (Some (write_env_file new_lines))\<rparr> else F);
                                      F2 = (if copy
                                            then F1\<lparr>hf_dirs := (hf_dirs F1)(in_plugin_dir N := Some (copy_plugin src dir))\<rparr>
                                            else F1)
                                  in case record_entry manifest ''hermes''
                                            [(''env_path'', VStr (in_env_path N)), (''plugin_dir'', VStr (in_plugin_dir N)),
                                             (''env_keys'', VList (map VStr changed))] F2 of
                                       (Inl e, F') \<Rightarrow> (Inl e, F')
                                     | (Inr _, F') \<Rightarrow> (Inr actions, F')))))))"

subsection \<open>The command\<close>

definition unsupported_codex :: "dict list" where
  "unsupported_codex =
     [action ''unsupported'' [] None
        (''Codex wake delivery is not implemented; Plan 006 permits only an honestly named ''
         @ ''next-session adapter until a supported live-wake API exists'')]"

definition wire_target ::
  "install_env \<Rightarrow> bool \<Rightarrow> bool \<Rightarrow> string option \<Rightarrow> string \<Rightarrow> files \<Rightarrow> dict list installing" where
  "wire_target N dry uninstall user target F =
     (if target = ''claude'' then wire_claude N dry uninstall user F
      else if target = ''opencode'' then wire_opencode N dry uninstall user F
      else if target = ''hermes'' then wire_hermes N dry uninstall user F
      else if target = ''codex'' then (Inr unsupported_codex, F)
      else (Inr [action ''error'' [] None (''unknown harness: '' @ target)], F))"

fun wire_targets ::
  "install_env \<Rightarrow> bool \<Rightarrow> bool \<Rightarrow> string option \<Rightarrow> string list \<Rightarrow> files \<Rightarrow> dict list installing" where
  "wire_targets N dry uninstall user [] F = (Inr [], F)"
| "wire_targets N dry uninstall user (t # ts) F =
     (case wire_target N dry uninstall user t F of
        (Inl e, F') \<Rightarrow> (Inl e, F')
      | (Inr actions, F') \<Rightarrow>
          (case wire_targets N dry uninstall user ts F' of
             (Inl e, F'') \<Rightarrow> (Inl e, F'')
           | (Inr rest, F'') \<Rightarrow> (Inr (actions @ rest), F'')))"

record install_result =
  ir_status :: string
  ir_actions :: "dict list"
  ir_no_op :: bool

definition run_install ::
  "install_env \<Rightarrow> string \<Rightarrow> bool \<Rightarrow> bool \<Rightarrow> string option \<Rightarrow> files \<Rightarrow> install_result installing" where
  "run_install N harness dry uninstall user F =
     (case wire_targets N dry uninstall user
             (if harness = ''all'' then [''claude'', ''opencode'', ''hermes''] else [harness]) F of
        (Inl e, F') \<Rightarrow> (Inl e, F')
      | (Inr actions, F') \<Rightarrow>
          (let kinds = map action_kind actions;
               status = (if list_ex (\<lambda>k. k \<in> {''error'', ''check_failed''}) kinds then ''failed''
                         else if ''unsupported'' \<in> set kinds then ''unsupported'' else ''installed'')
           in (Inr \<lparr>ir_status = status, ir_actions = actions,
                    ir_no_op = (list_all (\<lambda>k. k \<in> {''noop'', ''info''}) kinds \<and> status = ''installed'')\<rparr>, F')))"

definition result_json :: "string \<Rightarrow> string option \<Rightarrow> install_result \<Rightarrow> dict" where
  "result_json harness user r =
     [(''tool'', VStr ''agent-wake''), (''harness'', VStr harness), (''user'', opt_str user),
      (''status'', VStr (ir_status r)), (''actions'', VList (map VDict (ir_actions r))),
      (''no_op'', VBool (ir_no_op r))]"

definition action_line :: "dict \<Rightarrow> string" where
  "action_line a =
     ''  '' @ ljust 12 (action_kind a) @ '' ''
     @ (if truthy (getv a ''path'') then py_str (getv a ''path'') else []) @ '': ''
     @ py_str (getd a ''detail'' (VStr []))"

text \<open>The exit code and what is printed; \<open>pretty\<close> is \<open>json.dumps(..., indent=2)\<close>.\<close>

definition cmd_install_harness ::
  "(dict \<Rightarrow> string) \<Rightarrow> install_env \<Rightarrow> string \<Rightarrow> bool \<Rightarrow> bool \<Rightarrow> string option \<Rightarrow> bool \<Rightarrow> files \<Rightarrow>
   (int \<times> string list) installing" where
  "cmd_install_harness pretty N harness dry uninstall user use_json F =
     (case run_install N harness dry uninstall user F of
        (Inl e, F') \<Rightarrow> (Inl e, F')
      | (Inr r, F') \<Rightarrow>
          (let doc = (if use_json \<or> dry then [pretty (result_json harness user r)] else []) in
           (Inr
              (if dry then (2, doc)
               else if use_json then (if ir_status r = ''installed'' then 0 else 1, doc)
               else if ir_status r \<noteq> ''installed''
               then (1, map action_line (ir_actions r) @ [''Install failed -- see errors above.''])
               else (0, map action_line (ir_actions r)
                        @ [if ir_no_op r then ''Already installed -- no changes needed.''
                           else if uninstall then ''Uninstall complete.'' else ''Install complete.''])), F')))"

end
