(* ===== verification/Harness_Props.thy ===== *)
theory Harness_Props
  imports Harness
begin

section \<open>Properties of the installer\<close>

text \<open>
  A dry run changes no file, an install keeps what the user had set and is undone by an uninstall,
  and the managed block of an env file leaves the other lines alone.
\<close>

subsection \<open>Dry runs\<close>

lemma dry_claude: "snd (wire_claude N True u user F) = F"
  by (auto simp: wire_claude_def unwire_claude_def Let_def
      split: sum.split prod.split loaded_json.split pyval.split)

lemma dry_opencode: "snd (wire_opencode N True u user F) = F"
  by (auto simp: wire_opencode_def unwire_opencode_def Let_def
      split: sum.split prod.split loaded_json.split pyval.split option.split list.split)

lemma dry_hermes: "snd (wire_hermes N True u user F) = F"
  by (auto simp: wire_hermes_def unwire_hermes_def Let_def
      split: sum.split prod.split pyval.split option.split)

lemma dry_targets: "snd (wire_targets N True u user ts F) = F"
proof (induction ts arbitrary: F)
  case (Cons t ts)
  have "snd (wire_target N True u user t F) = F"
    by (simp add: wire_target_def dry_claude dry_opencode dry_hermes)
  then show ?case using Cons.IH [of F] by (cases "wire_target N True u user t F") (auto split: sum.split prod.split)
qed simp

text \<open>
  A dry run acts on nothing.  Whatever the target and whatever the files hold, after
  \<open>install-harness --dry-run\<close>, with or without \<open>--uninstall\<close>, every file is as it was, also when
  the command raises.
\<close>

theorem dry_run_changes_nothing: "snd (cmd_install_harness pretty N harness True u user j F) = F"
proof -
  obtain r where "wire_targets N True u user (if harness = ''all'' then [''claude'', ''opencode'', ''hermes''] else [harness]) F = (r, F)"
    by (metis dry_targets prod.collapse)
  then show ?thesis by (simp add: cmd_install_harness_def run_install_def Let_def split: sum.split)
qed

subsection \<open>The environment block\<close>

lemma merge_vars_appends:
  assumes "merge_vars vars env = (env', changed, skipped)" and "distinct (map fst vars)"
  shows "\<exists>added. env' = env @ added \<and> set added \<subseteq> (\<lambda>(k, v). (k, VStr v)) ` set vars
    \<and> changed = map (\<lambda>p. ''env.'' @ fst p) added \<and> distinct (map fst added)
    \<and> (\<forall>p \<in> set added. \<not> has_key env (fst p))"
  using assms
proof (induction vars env arbitrary: env' changed skipped rule: merge_vars.induct)
  case (2 key v vars env)
  show ?case
  proof (cases "dget env key")
    case None
    obtain e' c' s' where rest: "merge_vars vars (dset key (VStr v) env) = (e', c', s')"
      by (cases "merge_vars vars (dset key (VStr v) env)")
    have app: "dset key (VStr v) env = env @ [(key, VStr v)]"
      using None by (induction env) (auto split: if_splits)
    obtain added where added: "e' = dset key (VStr v) env @ added" "set added \<subseteq> (\<lambda>(k, v). (k, VStr v)) ` set vars"
      "c' = map (\<lambda>p. ''env.'' @ fst p) added" "distinct (map fst added)"
      "\<forall>p \<in> set added. \<not> has_key (dset key (VStr v) env) (fst p)"
      using "2.IH"(1) [OF None rest] "2.prems"(2) by auto
    have "key \<notin> fst ` set added" using added(5) by (auto simp: has_key_def dget_dset)
    then show ?thesis
      using "2.prems" None rest added app
      by (intro exI [of _ "(key, VStr v) # added"])
        (auto simp: has_key_def dget_dset split: if_splits)
  next
    case (Some old)
    obtain e' c' s' where rest: "merge_vars vars env = (e', c', s')" by (cases "merge_vars vars env")
    then show ?thesis using "2.IH"(2) [OF Some rest] "2.prems" Some by fastforce
  qed
qed simp

lemma del_added:
  assumes "distinct (map fst added)" and "\<forall>p \<in> set added. \<not> has_key env (fst p)"
  shows "del_keys (map (\<lambda>p. VStr (fst p)) added) (env @ added) = Inr (env, map (\<lambda>p. ''env.'' @ fst p) added)"
  using assms
proof (induction added)
  case (Cons p added)
  have "dpop (fst p) (env @ p # added) = env @ added"
  proof -
    have "dpop (fst p) env = env" "dpop (fst p) added = added"
      using Cons.prems by (auto simp: has_key_iff intro!: AList.delete_idem)
    then show ?thesis by (cases p) (simp add: AList.delete_eq)
  qed
  then show ?case
    using Cons by (simp add: unhashable_def has_key_iff)
qed simp

lemma env_keys_added: "env_keys (map (\<lambda>p. ''env.'' @ fst p) added) = map fst added"
proof -
  have "startswith (''env.'' @ k) ''env.''" for k by (simp add: startswith_def)
  then show ?thesis by (simp add: env_keys_def o_def filter_map) 
qed

text \<open>Nothing the user had in the block changes, and only the given variables are added.\<close>

lemma merge_env_block_keeps:
  assumes "merge_env_block config vars = Inr (config', changed, skipped)"
    and "distinct (map fst vars)"
  shows "(\<forall>k. k \<noteq> ''env'' \<longrightarrow> dget config' k = dget config k)
    \<and> (\<forall>k v. dget (dict_items (getv config ''env'')) k = Some v
         \<longrightarrow> dget (dict_items (getv config' ''env'')) k = Some v)"
proof -
  obtain env env' where env: "getd config ''env'' (VDict []) = VDict env"
    "merge_vars vars env = (env', changed, skipped)" "config' = dset ''env'' (VDict env') config"
    using assms(1) by (auto simp: merge_env_block_def split: pyval.splits prod.splits)
  obtain added where "env' = env @ added" using merge_vars_appends [OF env(2) assms(2)] by blast
  then show ?thesis
    using env(1,3) by (auto simp: dget_dset getv_def opt_val_def getd_def split: option.splits)
qed

subsection \<open>Install and uninstall\<close>

definition untouched :: "pyval \<Rightarrow> string \<Rightarrow> bool" where
  "untouched manifest target \<longleftrightarrow> (\<exists>m d. manifest = VDict m
     \<and> getd m ''installed'' (VDict []) = VDict d \<and> dget d target = None)"

lemma wake_env_vars_distinct: "distinct (map fst (wake_env_vars N user))"
  by (simp add: wake_env_vars_def split: option.split list.split)

lemma recorded:
  assumes "untouched manifest target" and "entry \<noteq> []"
  shows "\<exists>m. record_entry manifest target entry F = (Inr (), save_manifest m F)
    \<and> manifest_entry (VDict m) target = Inr (Some (VDict entry))"
  using assms by (auto simp: untouched_def record_entry_def manifest_entry_def getd_def dget_dset)

lemma load_saved: "load_manifest (save_manifest m F) = Inr (VDict m)"
  by (simp add: load_manifest_def save_manifest_def load_json_def)

lemma dset_dget_same: "dget d k = Some v \<Longrightarrow> dset k v d = d"
  by (induction d) auto

lemma dset_twice: "dset k v (dset k w d) = dset k v d"
  by (induction d) auto

lemma dpop_dset_fresh: "dget d k = None \<Longrightarrow> dpop k (dset k v d) = d"
  by (induction d) (auto simp: AList.delete_eq split: if_splits) 

text \<open>
  Claim C26: an uninstall undoes the install.  When Claude's settings hold an object whose \<open>env\<close> is
  absent or a non-empty object, and the installer has not wired Claude before, installing and then
  uninstalling leaves the settings exactly as they were, whatever variables the user had set.
\<close>

theorem uninstall_undoes_install:
  assumes "hf_claude F = Json (VDict config)"
    and "dget config ''env'' = None \<or> (\<exists>p env. dget config ''env'' = Some (VDict (p # env)))"
    and "load_manifest F = Inr manifest" and "untouched manifest ''claude''" and "in_claude N"
    and "wire_claude N False False user F = (r, F')"
  shows "hf_claude (snd (wire_claude N False True user' F')) = hf_claude F"
proof -
  obtain env where env: "getd config ''env'' (VDict []) = VDict env"
    using assms(2) by (auto simp: getd_def)
  obtain env' changed skipped where merged: "merge_vars (wake_env_vars N user) env = (env', changed, skipped)"
    by (cases "merge_vars (wake_env_vars N user) env")
  obtain added where added: "env' = env @ added" "changed = map (\<lambda>p. ''env.'' @ fst p) added"
    "distinct (map fst added)" "\<forall>p \<in> set added. \<not> has_key env (fst p)"
    using merge_vars_appends [OF merged wake_env_vars_distinct] by blast
  let ?config' = "dset ''env'' (VDict env') config"
  have block: "merge_env_block config (wake_env_vars N user) = Inr (?config', changed, skipped)"
    using env merged by (simp add: merge_env_block_def)
  have loaded: "load_json (hf_claude F) = Parsed (VDict config)" by (simp add: assms(1) load_json_def)
  show ?thesis
  proof (cases "changed = []")
    case True
    then have "F' = F"
      using assms(3,5,6) loaded block by (simp add: wire_claude_def Let_def)
    moreover have "manifest_entry manifest ''claude'' = Inr None"
      using assms(4) by (auto simp: untouched_def manifest_entry_def)
    ultimately show ?thesis using assms(3) by (simp add: wire_claude_def unwire_claude_def truthy_opt_def)
  next
    case False
    let ?entry = "[(''settings_path'', VStr (in_settings N)), (''env_keys'', VList (map VStr (env_keys changed)))]"
    let ?F1 = "F\<lparr>hf_claude := Json (VDict ?config')\<rparr>"
    obtain m where m: "record_entry manifest ''claude'' ?entry ?F1 = (Inr (), save_manifest m ?F1)"
      "manifest_entry (VDict m) ''claude'' = Inr (Some (VDict ?entry))"
      using recorded [OF assms(4), of ?entry ?F1] by auto
    have F': "F' = save_manifest m ?F1"
      using assms(3,5,6) loaded block False m(1) by (simp add: wire_claude_def Let_def)
    have keys: "getd ?entry ''env_keys'' (VList []) = VList (map VStr (map fst added))"
      unfolding added(2) env_keys_added by (simp add: getd_def)
    have "env' \<noteq> []" using False added(1,2) by auto
    then have dropped: "drop_env (VDict ?entry) ?config' = Inr (config, changed)"
      using del_added [OF added(3,4)] keys env assms(2) added(1,2)
      by (auto simp: drop_env_def getd_def dget_dset o_def dpop_dset_fresh dset_dget_same has_key_def
          dset_twice split: option.splits)
    have "load_manifest F' = Inr (VDict m)" unfolding F' by (rule load_saved)
    then have step: "wire_claude N False True user' F' = unwire_claude N False (VDict m) F'"
      by (simp add: wire_claude_def)
    have "load_json (hf_claude F') = Parsed (VDict ?config')"
      by (simp add: F' save_manifest_def load_json_def)
    then have "snd (unwire_claude N False (VDict m) F')
        = forget_entry (VDict m) ''claude'' (F'\<lparr>hf_claude := Json (VDict config)\<rparr>)"
      using m(2) dropped False by (simp add: unwire_claude_def truthy_opt_def opt_val_def)
    then show ?thesis
      by (simp add: step assms(1) forget_entry_def save_manifest_def)
  qed
qed

definition fresh_files :: files where
  "fresh_files = \<lparr>hf_claude = Json (VDict [(''model'', VStr ''opus'')]), hf_opencode = Absent, hf_env = Inr None,
     hf_dirs = (\<lambda>_. None), hf_manifest = Absent\<rparr>"

definition demo_install :: install_env where
  "demo_install = \<lparr>in_config = ''/c.json'', in_claude = True, in_opencode = Some ''/p.js'', in_hermes = None,
     in_settings = ''/s.json'', in_oc_path = ''/o.json'', in_env_path = ''/e'', in_plugin_dir = ''/d'',
     in_parse_text = (\<lambda>_ _. [])\<rparr>"

theorem uninstall_undoes_install_witness:
  "hf_claude (snd (wire_claude demo_install False True None (snd (wire_claude demo_install False False None fresh_files))))
     = hf_claude fresh_files"
proof -
  have "untouched (VDict empty_manifest) ''claude''"
    by (simp add: untouched_def empty_manifest_def getd_def)
  moreover have "load_manifest fresh_files = Inr (VDict empty_manifest)"
    by (simp add: load_manifest_def load_json_def fresh_files_def)
  moreover have "in_claude demo_install" by (simp add: demo_install_def)
  moreover have "hf_claude fresh_files = Json (VDict [(''model'', VStr ''opus'')])"
    by (simp add: fresh_files_def)
  moreover obtain r F' where "wire_claude demo_install False False None fresh_files = (r, F')" by fastforce
  ultimately show ?thesis
    using uninstall_undoes_install [of fresh_files "[(''model'', VStr ''opus'')]"] by simp
qed

text \<open>A second install with a principal records only the key it added, so an uninstall leaves the first.\<close>

lemma second_install_forgets:
  "hf_claude (snd (wire_claude demo_install False True None
     (snd (wire_claude demo_install False False (Some ''ann'')
        (snd (wire_claude demo_install False False None fresh_files))))))
   = Json (VDict [(''model'', VStr ''opus''), (''env'', VDict [(''AGENT_WAKE_CONFIG'', VStr ''/c.json'')])])"
  by code_simp

lemma record_entry_settings:
  "hf_claude (snd (record_entry m t e G)) = hf_claude G"
  "hf_opencode (snd (record_entry m t e G)) = hf_opencode G"
  by (auto simp: record_entry_def save_manifest_def split: pyval.split)

lemma snd_recorded:
  "snd (case x of (Inl e, F') \<Rightarrow> (Inl e, F') | (Inr u, F') \<Rightarrow> (Inr actions, F')) = snd x"
  by (auto split: prod.split sum.split)

lemma wire_claude_settings:
  assumes "hf_claude F = Json (VDict c)"
  shows "hf_claude (snd (wire_claude N dry False user F)) = hf_claude F
    \<or> (\<exists>c' changed skipped. merge_env_block c (wake_env_vars N user) = Inr (c', changed, skipped)
        \<and> hf_claude (snd (wire_claude N dry False user F)) = Json (VDict c'))"
proof -
  have load: "load_json (Json (VDict c)) = Parsed (VDict c)" by (simp add: load_json_def)
  show ?thesis
    by (cases "merge_env_block c (wake_env_vars N user)"; cases "load_manifest F")
      (auto simp: wire_claude_def assms load Let_def snd_recorded record_entry_settings)
qed

lemma wire_opencode_settings:
  assumes "hf_opencode F = Json (VDict d)"
  shows "hf_opencode (snd (wire_opencode N dry False user F)) = hf_opencode F
    \<or> (\<exists>d1 d2 path changed skipped added. merge_env_block d (wake_env_vars N user) = Inr (d1, changed, skipped)
        \<and> register_plugin path d1 = Inr (d2, added)
        \<and> hf_opencode (snd (wire_opencode N dry False user F)) = Json (VDict d2))"
proof -
  have load: "load_json (Json (VDict d)) = Parsed (VDict d)" by (simp add: load_json_def)
  show ?thesis
  proof (cases "\<exists>m c path. load_manifest F = Inr m \<and> in_opencode N = Some (c # path)")
    case True
    then obtain m c path where m: "load_manifest F = Inr m" "in_opencode N = Some (c # path)" by blast
    show ?thesis
    proof (cases "merge_env_block d (wake_env_vars N user)")
      case (Inr b)
      obtain d1 changed skipped where b: "b = (d1, changed, skipped)" by (cases b)
      show ?thesis
        by (cases "register_plugin (c # path) d1")
          (auto simp: wire_opencode_def assms load m Inr b Let_def snd_recorded record_entry_settings, blast+)
    qed (simp add: wire_opencode_def assms load m)
  qed (auto simp: wire_opencode_def split: sum.split option.split list.split)
qed

lemma register_plugin_keeps:
  assumes "register_plugin path d1 = Inr (d2, added)"
  shows "(\<forall>k. k \<noteq> ''plugins'' \<longrightarrow> dget d2 k = dget d1 k)
    \<and> (\<forall>ps. dget d1 ''plugins'' = Some (VList ps) \<longrightarrow> (\<exists>new. dget d2 ''plugins'' = Some (VList (ps @ new))))"
  using assms by (auto simp: register_plugin_def getd_def dget_dset split: option.splits pyval.splits if_splits)

text \<open>
  An install keeps what the user set.  Wiring Claude or opencode changes nothing of their
  settings but the environment block and the list of plugins; a variable that was set keeps its
  value, and the plugins that were listed stay in front.
\<close>

theorem install_keeps_settings:
  assumes "hf_claude F = Json (VDict c)" and "hf_opencode F = Json (VDict d)"
  shows "(\<exists>c'. hf_claude (snd (wire_claude N dry False user F)) = Json (VDict c')
      \<and> (\<forall>k. k \<noteq> ''env'' \<longrightarrow> dget c' k = dget c k)
      \<and> (\<forall>k v. dget (dict_items (getv c ''env'')) k = Some v \<longrightarrow> dget (dict_items (getv c' ''env'')) k = Some v))
    \<and> (\<exists>d'. hf_opencode (snd (wire_opencode N dry False user F)) = Json (VDict d')
      \<and> (\<forall>k. k \<noteq> ''env'' \<and> k \<noteq> ''plugins'' \<longrightarrow> dget d' k = dget d k)
      \<and> (\<forall>k v. dget (dict_items (getv d ''env'')) k = Some v \<longrightarrow> dget (dict_items (getv d' ''env'')) k = Some v)
      \<and> (\<forall>ps. dget d ''plugins'' = Some (VList ps) \<longrightarrow> (\<exists>new. dget d' ''plugins'' = Some (VList (ps @ new)))))"
proof
  from wire_claude_settings [OF assms(1), of N dry user]
  show "\<exists>c'. hf_claude (snd (wire_claude N dry False user F)) = Json (VDict c')
      \<and> (\<forall>k. k \<noteq> ''env'' \<longrightarrow> dget c' k = dget c k)
      \<and> (\<forall>k v. dget (dict_items (getv c ''env'')) k = Some v \<longrightarrow> dget (dict_items (getv c' ''env'')) k = Some v)"
  proof
    assume "\<exists>c' changed skipped. merge_env_block c (wake_env_vars N user) = Inr (c', changed, skipped)
        \<and> hf_claude (snd (wire_claude N dry False user F)) = Json (VDict c')"
    then obtain c' changed skipped where c': "merge_env_block c (wake_env_vars N user) = Inr (c', changed, skipped)"
      "hf_claude (snd (wire_claude N dry False user F)) = Json (VDict c')" by blast
    then show ?thesis using merge_env_block_keeps [OF c'(1) wake_env_vars_distinct] by blast
  qed (use assms(1) in auto)
  from wire_opencode_settings [OF assms(2), of N dry user]
  show "\<exists>d'. hf_opencode (snd (wire_opencode N dry False user F)) = Json (VDict d')
      \<and> (\<forall>k. k \<noteq> ''env'' \<and> k \<noteq> ''plugins'' \<longrightarrow> dget d' k = dget d k)
      \<and> (\<forall>k v. dget (dict_items (getv d ''env'')) k = Some v \<longrightarrow> dget (dict_items (getv d' ''env'')) k = Some v)
      \<and> (\<forall>ps. dget d ''plugins'' = Some (VList ps) \<longrightarrow> (\<exists>new. dget d' ''plugins'' = Some (VList (ps @ new))))"
  proof
    assume "\<exists>d1 d2 path changed skipped added. merge_env_block d (wake_env_vars N user) = Inr (d1, changed, skipped)
        \<and> register_plugin path d1 = Inr (d2, added)
        \<and> hf_opencode (snd (wire_opencode N dry False user F)) = Json (VDict d2)"
    then obtain d1 d2 path changed skipped added where
      d: "merge_env_block d (wake_env_vars N user) = Inr (d1, changed, skipped)"
      "register_plugin path d1 = Inr (d2, added)"
      "hf_opencode (snd (wire_opencode N dry False user F)) = Json (VDict d2)" by blast
    have "getv d2 ''env'' = getv d1 ''env''" using register_plugin_keeps [OF d(2)] by (simp add: getv_def)
    then show ?thesis
      using merge_env_block_keeps [OF d(1) wake_env_vars_distinct] register_plugin_keeps [OF d(2)] d(3)
      by (intro exI [of _ d2]) simp
  qed (use assms(2) in auto)
qed

theorem install_keeps_settings_witness:
  "\<exists>c'. hf_claude (snd (wire_claude demo_install False False None (fresh_files\<lparr>hf_opencode := Json (VDict [])\<rparr>))) = Json (VDict c')
    \<and> dget c' ''model'' = Some (VStr ''opus'')"
  using install_keeps_settings [of "fresh_files\<lparr>hf_opencode := Json (VDict [])\<rparr>" "[(''model'', VStr ''opus'')]" "[]"
      demo_install False None]
  by (auto simp: fresh_files_def)

subsection \<open>The managed block of the env file\<close>

definition plain_lines :: "string list \<Rightarrow> bool" where
  "plain_lines ls \<longleftrightarrow> list_all (\<lambda>l. \<not> is_begin l \<and> \<not> is_end l) ls"

lemma in_dropWhile: "c \<in> set s \<Longrightarrow> \<not> p c \<Longrightarrow> c \<in> set (dropWhile p s)"
  by (induction s) auto

lemma in_strip: "c \<in> set s \<Longrightarrow> \<not> is_space c \<Longrightarrow> c \<in> set (strip s)"
  by (simp add: strip_def in_dropWhile)

lemma plain_entry: "\<not> is_begin (k @ ''='' @ v)" "\<not> is_end (k @ ''='' @ v)"
proof -
  have "CHR ''='' \<in> set (strip (k @ ''='' @ v))"
    by (rule in_strip) (simp_all add: is_space_def is_ascii_space_def)
  moreover have "CHR ''='' \<notin> set SENTINEL_BEGIN" "CHR ''='' \<notin> set SENTINEL_END"
    by (simp_all add: SENTINEL_BEGIN_def SENTINEL_END_def)
  ultimately show "\<not> is_begin (k @ ''='' @ v)" "\<not> is_end (k @ ''='' @ v)"
    by (auto simp: is_begin_def is_end_def)
qed

lemma sentinels: "is_begin SENTINEL_BEGIN" "\<not> is_begin SENTINEL_END" "is_end SENTINEL_END" "\<not> is_begin []" "\<not> is_end []"
  by code_simp+

lemma plain_simps [simp]:
  "plain_lines []" "plain_lines (l # ls) \<longleftrightarrow> \<not> is_begin l \<and> \<not> is_end l \<and> plain_lines ls"
  "plain_lines (ls @ ms) \<longleftrightarrow> plain_lines ls \<and> plain_lines ms"
  by (simp_all add: plain_lines_def)

lemma plain_entries: "plain_lines (map (\<lambda>(k, v). k @ ''='' @ v) vars)"
  by (simp add: plain_lines_def list_all_iff plain_entry [simplified] split_beta)

lemma replace_plain:
  "plain_lines ls \<Longrightarrow> replace_block b False (ls @ rest)
     = (ls @ fst (replace_block b False rest), snd (replace_block b False rest))"
  "plain_lines ls \<Longrightarrow> replace_block b True (ls @ SENTINEL_END # rest)
     = (b @ fst (replace_block b False rest), True)"
  by (induction ls) (simp_all add: sentinels split_beta)

lemma replace_managed:
  "plain_lines ls \<Longrightarrow> replace_block b False (ls @ managed_block vars) = (ls @ b, True)"
  using replace_plain(2) [OF plain_entries, of b vars "[]"]
  by (simp add: replace_plain(1) managed_block_def sentinels)

lemma remove_plain:
  "plain_lines ls \<Longrightarrow> fst (remove_block False (ls @ rest)) = ls @ fst (remove_block False rest)"
  "plain_lines ls \<Longrightarrow> fst (remove_block True (ls @ SENTINEL_END # rest)) = fst (remove_block False rest)"
  by (induction ls) (simp_all add: sentinels split_beta Let_def)

lemma remove_managed: "plain_lines ls \<Longrightarrow> fst (remove_block False (ls @ managed_block vars)) = ls"
  using remove_plain(2) [OF plain_entries, of vars "[]"]
  by (simp add: remove_plain(1) managed_block_def sentinels Let_def)

lemma outside_plain:
  "plain_lines ls \<Longrightarrow> existing_keys True False (ls @ rest) r
     = existing_keys True False rest (existing_keys True False ls r)"
  "plain_lines ls \<Longrightarrow> existing_keys True True (ls @ SENTINEL_END # rest) r = existing_keys True False rest r"
  by (induction ls arbitrary: r) (simp_all add: sentinels split_beta Let_def)

lemma outside_managed:
  "plain_lines ls \<Longrightarrow> existing_keys True False (ls @ managed_block vars) r = existing_keys True False ls r"
  using outside_plain(2) [OF plain_entries, of vars "[]"]
  by (simp add: outside_plain(1) managed_block_def sentinels Let_def)

lemma outside_blank: "plain_lines ls \<Longrightarrow> existing_keys True False (ls @ [[]]) r = existing_keys True False ls r"
  using outside_plain(1) [of ls "[[]]" r] sentinels(4,5) by (simp add: Let_def strip_def)

text \<open>
  The managed block is undone and written once.  Merging variables into an env file that
  has no managed block, and removing the block again, gives back the lines of the file, with at
  most one blank line more; merging the same variables a second time changes no line.
\<close>

theorem managed_block_undone:
  assumes "plain_lines ls" and "fst (merge_env_file_block ls vars) = new_lines"
  shows "fst (remove_env_file_block new_lines) \<in> {ls, ls @ [[]]}
    \<and> fst (merge_env_file_block new_lines vars) = new_lines"
proof -
  let ?todo = "\<lambda>ls. filter (\<lambda>(k, _). \<not> has_key (existing_keys True False ls []) k) vars"
  obtain front where front: "front \<in> {ls, ls @ [[]]}" and merged: "new_lines = front @ managed_block (?todo ls)"
    using assms replace_plain(1) [OF assms(1), of _ "[]"]
    by (auto simp: merge_env_file_block_def Let_def split: if_splits)
  have plain: "plain_lines front" using front assms(1) sentinels(4,5) by auto
  have "existing_keys True False front [] = existing_keys True False ls []"
    using front outside_blank [OF assms(1)] by auto
  then have "?todo new_lines = ?todo ls" by (simp add: merged outside_managed [OF plain])
  then have "fst (merge_env_file_block new_lines vars) = new_lines"
    using replace_managed [OF plain] by (simp add: merge_env_file_block_def Let_def merged split_beta)
  moreover have "fst (remove_env_file_block new_lines) = front"
    by (simp add: remove_env_file_block_def merged remove_managed [OF plain])
  ultimately show ?thesis using front by simp
qed

theorem managed_block_undone_witness:
  "fst (remove_env_file_block (fst (merge_env_file_block [''A=1''] [(''B'', ''2'')]))) \<in> {[''A=1''], [''A=1'', []]}"
proof -
  have "plain_lines [''A=1'']" by code_simp
  from managed_block_undone [OF this refl, of "[(''B'', ''2'')]"] show ?thesis by simp
qed

text \<open>A block whose end is missing takes the rest of the file with it.\<close>

lemma unterminated_block_loses:
  "fst (merge_env_file_block [SENTINEL_BEGIN, ''X=1'', ''TOKEN=secret''] [(''X'', ''1'')])
     = [SENTINEL_BEGIN, ''X=1'', SENTINEL_END]"
  by code_simp

end
