(* ===== verification/Config_Cli.thy ===== *)
theory Config_Cli
  imports Migrate Outbox
begin

section \<open>The configuration commands (\<open>cli/config_cmd.py\<close>)\<close>

text \<open>
  \<open>agent-wake config show\<close> prints who can wake what; \<open>agent-wake config migrate\<close> prints the v2 form
  of a file or writes it to a place where nothing is.  Files are values by path; \<open>pretty\<close> renders a
  document.  A loaded table holds objects, whose lists hold strings.  What reaches the error
  boundary of the command line is the left of the sum.
\<close>

subsection \<open>\<open>config show\<close>\<close>

definition strings_of :: "pyval \<Rightarrow> string list" where
  "strings_of v = (case v of VList xs \<Rightarrow> map py_str xs | _ \<Rightarrow> [])"

definition reach_of :: "cfg \<Rightarrow> string \<Rightarrow> string list" where
  "reach_of cfg s = map d_name (routed_destinations cfg s)"

definition sorted_out_of_band :: "cfg \<Rightarrow> string \<Rightarrow> string list" where
  "sorted_out_of_band cfg s =
     (case out_of_band_principals cfg s of None \<Rightarrow> [] | Some ps \<Rightarrow> sorted_list_of_set ps)"

definition channel_kinds :: "pyval \<Rightarrow> string list" where
  "channel_kinds entry = sort (map fst (dict_items (or_empty (getv (dict_items entry) ''channels''))))"

definition shown_sender :: "cfg \<Rightarrow> string \<times> pyval \<Rightarrow> string \<times> pyval" where
  "shown_sender cfg p =
     (case p of (name, v) \<Rightarrow>
        let info = dict_items v in
        (name, VDict
          [(''secret_uris'', getv info ''secret_uris''), (''identity'', getv info ''identity''),
           (''allowed_trigger_identities'', getv info ''allowed_trigger_identities''),
           (''reaches'', VList (map VStr (reach_of cfg name))),
           (''out_of_band_principals'', VList (map VStr (sorted_out_of_band cfg name)))]))"

definition shown_destination :: "destination \<Rightarrow> string \<times> pyval" where
  "shown_destination d =
     (d_name d, VDict
        [(''adapter'', opt_str (d_adapter d)), (''session'', opt_str (d_session d)),
         (''principal'', opt_str (d_principal d)),
         (''max_connections'', case d_max_connections d of None \<Rightarrow> VNone | Some n \<Rightarrow> VInt n)])"

definition shown_route :: "route \<Rightarrow> pyval" where
  "shown_route r = VDict
     [(''sender'', VStr (r_sender r)), (''principal'', opt_str (r_principal r)),
      (''destinations'', VList (map VStr (r_destinations r))), (''origin'', VStr (r_origin r))]"

definition show_document :: "cfg \<Rightarrow> dict" where
  "show_document cfg =
     [(''version'', getv cfg ''version''),
      (''senders'', VDict (map (shown_sender cfg) (sender_table cfg))),
      (''principals'', VDict (map (\<lambda>(pid, e). (pid, VDict [(''channels'', VList (map VStr (channel_kinds e)))]))
         (principal_table cfg))),
      (''destinations'', VDict (map (\<lambda>(_, d). shown_destination d) (destination_table cfg))),
      (''routes'', VList (map shown_route (route_table cfg)))]"

definition or_text :: "string list \<Rightarrow> string \<Rightarrow> string" where
  "or_text xs none = (if join '', '' xs = [] then none else join '', '' xs)"

definition sender_lines :: "cfg \<Rightarrow> string \<times> pyval \<Rightarrow> string list" where
  "sender_lines cfg p =
     (case p of (name, v) \<Rightarrow>
        let info = dict_items v; identity = getv info ''identity'';
            allow = strings_of (getv info ''allowed_trigger_identities'') in
        [''  '' @ name,
         ''    identity   '' @ (if truthy identity then py_str identity else ''(none declared)''),
         ''    triggers   '' @ (if allow = [] then ''any authenticated sender'' else join '', '' allow),
         ''    reaches    '' @ or_text (reach_of cfg name) ''(nothing)'',
         ''    out-of-band ''
           @ (if sorted_out_of_band cfg name = [] then ''denied'' else join '', '' (sorted_out_of_band cfg name))])"

definition destination_line :: "destination \<Rightarrow> string" where
  "destination_line d =
     ''  '' @ d_name d @ '': '' @ join ''  ''
       ([''adapter='' @ (case d_adapter d of Some (c # cs) \<Rightarrow> c # cs | _ \<Rightarrow> ''any'')]
        @ (case d_session d of Some (c # cs) \<Rightarrow> [''session='' @ c # cs] | _ \<Rightarrow> [])
        @ (case d_principal d of Some (c # cs) \<Rightarrow> [''principal='' @ c # cs] | _ \<Rightarrow> [])
        @ (case d_max_connections d of Some n \<Rightarrow> [''max_connections='' @ int_str n] | None \<Rightarrow> []))"

definition show_lines :: "cfg \<Rightarrow> string list" where
  "show_lines cfg =
     [''addressing model (config version '' @ py_str (getv cfg ''version'') @ '')'', [],
      ''senders (credential + trigger-identity allowlist)'']
     @ concat (map (sender_lines cfg) (sender_table cfg))
     @ [[], ''destinations (adapter, optionally one session, with its cap)'']
     @ map (\<lambda>(_, d). destination_line d) (destination_table cfg)
     @ [[], ''principals (actor identity + out-of-band channels)'']
     @ map (\<lambda>(pid, e). ''  '' @ pid @ '': '' @ or_text (channel_kinds e) ''no out-of-band channels'') (principal_table cfg)
     @ (if list_ex (\<lambda>r. r_origin r = ORIGIN_LEGACY) (route_table cfg)
        then [[], ''note: these routes were derived from a v0/v1 'routing' block, not written by hand. Run ''
                  @ CHR 0x27 # ''agent-wake config migrate' to see the v2 form of this file, including any conflated ''
                  @ ''sender identities.'']
        else [])"

definition cmd_show :: "(dict \<Rightarrow> string) \<Rightarrow> (string \<Rightarrow> string list res) \<Rightarrow> bool \<Rightarrow> config_file \<Rightarrow> string checked" where
  "cmd_show pretty dns use_json file_value =
     map_sum id (\<lambda>cfg. if use_json then pretty (show_document cfg) else join [CHR 0x0A] (show_lines cfg))
       (load_config dns file_value)"

subsection \<open>\<open>config migrate\<close>\<close>

definition conflation_note :: "string \<times> pyval \<times> string list \<Rightarrow> string" where
  "conflation_note n =
     (case n of (sender_name, identity, owned) \<Rightarrow>
        ''sender '' @ repr_str sender_name @ '' has identity '' @ py_repr identity
        @ '', which is also the principal of destination(s) '' @ join '', '' owned
        @ ''. A sender's identity is who *asks* for a wake; a destination's principal is whose attention is requested. ''
        @ ''If this sender is triggered by a human or a service, set 'identity' to that principal_id (or drop it and ''
        @ ''let the X-AgentWake-Identity header supply it) so events stop being attributed to their own addressee.'')"

definition migrate_path :: "(string \<Rightarrow> string option) \<Rightarrow> string option \<Rightarrow> string \<Rightarrow> string" where
  "migrate_path environ path default_path =
     (case path of
        Some (c # cs) \<Rightarrow> c # cs
      | _ \<Rightarrow> (case environ ''AGENT_WAKE_CONFIG'' of Some (c # cs) \<Rightarrow> c # cs | _ \<Rightarrow> default_path))"

definition read_raw :: "config_file \<Rightarrow> dict checked" where
  "read_raw f =
     (case f of
        Unreadable e \<Rightarrow> Inl (Crash e)
      | Json (VDict raw) \<Rightarrow> Inr raw
      | _ \<Rightarrow> Inl (Config_error ''file''))"

text \<open>What is printed on the standard output and the standard error, and the files afterwards.\<close>

definition cmd_migrate ::
  "(dict \<Rightarrow> string) \<Rightarrow> string \<Rightarrow> string option \<Rightarrow> (string \<Rightarrow> config_file)
   \<Rightarrow> string checked \<times> string list \<times> (string \<Rightarrow> config_file)" where
  "cmd_migrate pretty path write_to files =
     (case chain (read_raw (files path)) migrate_raw of
        Inl e \<Rightarrow> (Inl e, [], files)
      | Inr doc \<Rightarrow>
          (let notes = map (\<lambda>n. ''note: '' @ conflation_note n) (conflation_notes doc) in
           case write_to of
             Some (c # cs) \<Rightarrow>
               if files (c # cs) \<noteq> Absent then (Inl (Config_error ''write''), notes, files)
               else (Inr (''wrote '' @ c # cs), notes, files(c # cs := Json (VDict doc)))
           | _ \<Rightarrow> (Inr (pretty doc @ [CHR 0x0A]), notes, files)))"

subsection \<open>Properties\<close>

lemma dget_shown:
  "dget (map (shown_sender cfg) t) s = map_option (\<lambda>v. snd (shown_sender cfg (s, v))) (dget t s)"
  by (induction t) (auto simp: shown_sender_def Let_def)

text \<open>
  What \<open>config show\<close> says a sender reaches is what the daemon lets it reach.  The
  destinations listed for a sender are exactly the names an event of it may give in
  \<open>meta.destination\<close>, and the principals listed out of band are exactly those its deliveries may
  name.
\<close>

theorem show_is_truthful:
  assumes "dget (sender_table cfg) s = Some v"
  shows "\<exists>info ns ps. dget (dict_items (getv (show_document cfg) ''senders'')) s = Some (VDict info)
    \<and> getv info ''reaches'' = VList (map VStr ns) \<and> getv info ''out_of_band_principals'' = VList (map VStr ps)
    \<and> set ns = {n. \<exists>ds. resolve cfg s (Some n) None = Inr ds}
    \<and> set ps = (case out_of_band_principals cfg s of None \<Rightarrow> {} | Some allowed \<Rightarrow> allowed)"
proof -
  have "resolve cfg s (Some n) None = Inr ds \<longleftrightarrow>
      ds = filter (\<lambda>d. d_name d = n) (routed_destinations cfg s) \<and> n \<in> set (reach_of cfg s)" for n ds
    unfolding resolve_def narrow_def reach_of_def by (auto simp: filter_empty_conv)
  then have reach: "set (reach_of cfg s) = {n. \<exists>ds. resolve cfg s (Some n) None = Inr ds}" by simp
  have "finite ps" if "out_of_band_principals cfg s = Some ps" for ps
    using that by (auto simp: out_of_band_principals_def Let_def split: option.splits pyval.splits if_splits)
  then have band: "set (sorted_out_of_band cfg s) = (case out_of_band_principals cfg s of None \<Rightarrow> {} | Some allowed \<Rightarrow> allowed)"
    by (simp add: sorted_out_of_band_def split: option.split)
  have "dget (dict_items (getv (show_document cfg) ''senders'')) s = Some (snd (shown_sender cfg (s, v)))"
    using assms by (simp add: show_document_def getv_def opt_val_def dget_shown)
  then show ?thesis using reach band by (auto simp: shown_sender_def Let_def getv_def opt_val_def)
qed

theorem show_is_truthful_witness:
  "\<exists>info ns. dget (dict_items (getv (show_document demo_legacy_cfg) ''senders'')) ''ci'' = Some (VDict info)
    \<and> getv info ''reaches'' = VList (map VStr ns) \<and> set ns = {n. \<exists>ds. resolve demo_legacy_cfg ''ci'' (Some n) None = Inr ds}"
proof -
  have "dget (sender_table demo_legacy_cfg) ''ci'' \<noteq> None" by code_simp
  then obtain v where "dget (sender_table demo_legacy_cfg) ''ci'' = Some v" by auto
  from show_is_truthful [OF this] show ?thesis by blast
qed

text \<open>
  Claim C29: \<open>config migrate --write\<close> never touches a file that exists, and writes an equivalent one.  When
  something is at the destination the command is refused and no file changes.  Otherwise, when the file it
  reads is a v1 file the daemon loads, whose source names and adapters are not empty and whose
  sources have no \<open>identity\<close> of version 2, it writes the destination and no other file; the daemon loads
  that file too, with the same senders and principals, and every sender reaches the same destinations.
\<close>

theorem migrate_writes_equivalent:
  assumes "files path = Json (VDict raw)" and "load_config dns (files path) = Inr cfg"
    and "\<not> uses_v2 raw" and "migratable raw" and "dest \<noteq> []"
  shows "if files dest \<noteq> Absent
    then \<exists>e remarks. cmd_migrate pretty path (Some dest) files = (Inl e, remarks, files)
    else \<exists>said remarks new. cmd_migrate pretty path (Some dest) files = (Inr said, remarks, files(dest := new))
      \<and> (\<exists>cfg'. load_config dns new = Inr cfg' \<and> sender_table cfg' = sender_table cfg
          \<and> principal_table cfg' = principal_table cfg
          \<and> routed_destinations cfg' = routed_destinations cfg)"
proof -
  have "load_object dns raw = Inr cfg" using assms(1,2) by (simp add: load_config_def)
  then obtain doc cfg' where doc: "migrate_raw raw = Inr doc" "load_object dns doc = Inr cfg'"
    "sender_table cfg' = sender_table cfg" "principal_table cfg' = principal_table cfg"
    "\<forall>s. routed_destinations cfg' s = routed_destinations cfg s"
    using migrate_loads [OF _ assms(3,4)] by blast
  obtain c cs where dest: "dest = c # cs" using assms(5) by (cases dest) auto
  let ?remarks = "map (\<lambda>n. ''note: '' @ conflation_note n) (conflation_notes doc)"
  have run: "cmd_migrate pretty path (Some dest) files
      = (if files dest \<noteq> Absent then (Inl (Config_error ''write''), ?remarks, files)
         else (Inr (''wrote '' @ dest), ?remarks, files(dest := Json (VDict doc))))"
    by (simp add: cmd_migrate_def assms(1) read_raw_def chain_def doc(1) dest Let_def)
  have "load_config dns (Json (VDict doc)) = Inr cfg'" using doc(2) by (simp add: load_config_def)
  moreover have "routed_destinations cfg' = routed_destinations cfg" using doc(5) by blast
  ultimately show ?thesis unfolding run using doc(3,4) by auto
qed

definition migrate_demo_files :: "string \<Rightarrow> config_file" where
  "migrate_demo_files = (\<lambda>p. if p = ''old'' then Json (VDict legacy_demo) else Absent)"

theorem migrate_writes_equivalent_witness:
  "(\<exists>said remarks new cfg'. cmd_migrate (\<lambda>_. []) ''old'' (Some ''new'') migrate_demo_files
      = (Inr said, remarks, migrate_demo_files(''new'' := new)) \<and> load_config no_dns new = Inr cfg')
    \<and> (\<exists>e remarks. cmd_migrate (\<lambda>_. []) ''old'' (Some ''old'') migrate_demo_files = (Inl e, remarks, migrate_demo_files))"
proof -
  obtain cfg where "load_object no_dns legacy_demo = Inr cfg" using legacy_demo_loads by blast
  then have load: "load_config no_dns (migrate_demo_files ''old'') = Inr cfg"
    by (simp add: load_config_def migrate_demo_files_def)
  have old: "migrate_demo_files ''old'' = Json (VDict legacy_demo)" by (simp add: migrate_demo_files_def)
  have there: "migrate_demo_files ''old'' \<noteq> Absent" "migrate_demo_files ''new'' = Absent"
    by (simp_all add: migrate_demo_files_def)
  have legacy: "\<not> uses_v2 legacy_demo" "migratable legacy_demo" by code_simp+
  note all = migrate_writes_equivalent [where files = migrate_demo_files and path = "''old''" and pretty = "\<lambda>_. []", OF old load legacy]
  from all [of "''new''"] there(2) have "\<exists>said remarks new cfg'. cmd_migrate (\<lambda>_. []) ''old'' (Some ''new'') migrate_demo_files
      = (Inr said, remarks, migrate_demo_files(''new'' := new)) \<and> load_config no_dns new = Inr cfg'" by auto
  moreover from all [of "''old''"] there(1) have "\<exists>e remarks. cmd_migrate (\<lambda>_. []) ''old'' (Some ''old'') migrate_demo_files
      = (Inl e, remarks, migrate_demo_files)" by simp
  ultimately show ?thesis by blast
qed

lemma migrate_keeps_files: "files p \<noteq> Absent \<Longrightarrow> snd (snd (cmd_migrate pretty path write_to files)) p = files p"
  by (auto simp: cmd_migrate_def Let_def split: sum.split option.split list.split)

end
