(* ===== verification/Identifiers.thy ===== *)
theory Identifiers
  imports Lines Secrets "HOL-Library.Sublist" "HOL-Library.Product_Lexorder" "HOL-Library.List_Lexorder" "HOL-Library.Char_ord"
begin

section \<open>The gate on committed identifiers (\<open>scripts/check_committed_identifiers.py\<close>)\<close>

text \<open>
  The script reads a denylist of identifiers and refuses a tree, a commit message or a range of
  commits in which one of them is spelt.  Sets of identifiers are lists without repetition; the
  order in which CPython walks a set shows in no output, since reports are sorted.  What git
  answers and what the files hold are arguments; a file is a link or has a first chunk of bytes
  and a text under each encoding, each of which may fail to be read.
\<close>

subsection \<open>The denylist\<close>

definition MIN_IDENTIFIER_LENGTH :: nat where "MIN_IDENTIFIER_LENGTH = 4"

text \<open>\<open>str.split()\<close>.\<close>

fun py_split :: "string \<Rightarrow> string list" where
  "py_split [] = []"
| "py_split (c # s) =
     (if is_space c then py_split s
      else if s = [] \<or> is_space (hd s) then [c] # py_split s
      else (case py_split s of [] \<Rightarrow> [[c]] | w # ws \<Rightarrow> (c # w) # ws))"

definition collapse :: "string \<Rightarrow> string" where
  "collapse s = join '' '' (py_split s)"

definition filter_identifiers :: "string list \<Rightarrow> string list" where
  "filter_identifiers identifiers =
     remdups (map (\<lambda>t. collapse (str_lower t))
       (filter (\<lambda>t. MIN_IDENTIFIER_LENGTH \<le> length (collapse t)) (map strip identifiers)))"

text \<open>
  \<open>shlex.split\<close>: the tokens of a line, with quotes and the backslash.  A token is present once it
  holds a character or a quote; the state is what the next character means.  A \<open>ValueError\<close> is the
  left of the sum.
\<close>

datatype shlex_state = Between | In_word | Quoted char | Escaped shlex_state

definition shlex_space :: "char \<Rightarrow> bool" where
  "shlex_space c \<longleftrightarrow> c \<in> set [CHR '' '', CHR 0x09, CHR 0x0D, CHR 0x0A]"

definition quote_chars :: string where "quote_chars = [CHR 0x27, CHR 0x22]"

definition opt_token :: "string option \<Rightarrow> string" where
  "opt_token t = (case t of None \<Rightarrow> [] | Some s \<Rightarrow> s)"

fun shlex :: "shlex_state \<Rightarrow> string option \<Rightarrow> string \<Rightarrow> string + string list" where
  "shlex (Quoted q) token [] = Inl ''No closing quotation''"
| "shlex (Escaped st) token [] = Inl ''No escaped character''"
| "shlex _ token [] = Inr (case token of None \<Rightarrow> [] | Some t \<Rightarrow> [t])"
| "shlex (Quoted q) token (c # s) =
     (if c = q then shlex In_word (Some (opt_token token)) s
      else if c = CHR 0x5C \<and> q = CHR 0x22 then shlex (Escaped (Quoted q)) (Some (opt_token token)) s
      else shlex (Quoted q) (Some (opt_token token @ [c])) s)"
| "shlex (Escaped st) token (c # s) =
     (let kept = (case st of Quoted q \<Rightarrow> if c \<noteq> CHR 0x5C \<and> c \<noteq> q then [CHR 0x5C] else [] | _ \<Rightarrow> []) in
      shlex st (Some (opt_token token @ kept @ [c])) s)"
| "shlex st token (c # s) =
     (if shlex_space c
      then (case token of None \<Rightarrow> shlex Between None s | Some t \<Rightarrow> map_sum id (Cons t) (shlex Between None s))
      else if c = CHR 0x5C then shlex (Escaped In_word) token s
      else if c \<in> set quote_chars then shlex (Quoted c) (Some (opt_token token)) s
      else shlex In_word (Some (opt_token token @ [c])) s)"

definition shlex_split :: "string \<Rightarrow> string + string list" where
  "shlex_split s = shlex Between None s"

definition denylist_content :: "string \<Rightarrow> string" where
  "denylist_content line = strip (fst (split_at (CHR ''#'') line))"

fun denylist_tokens :: "string list \<Rightarrow> string + string list" where
  "denylist_tokens [] = Inr []"
| "denylist_tokens (line # ls) =
     (if denylist_content line = [] then denylist_tokens ls
      else (case shlex_split (denylist_content line) of
              Inl m \<Rightarrow> Inl (''denylist entry could not be parsed (check quoting): '' @ m)
            | Inr ts \<Rightarrow> map_sum id ((@) ts) (denylist_tokens ls)))"

definition parse_identifier_set :: "string \<Rightarrow> string + string list" where
  "parse_identifier_set raw =
     map_sum id filter_identifiers
       (denylist_tokens (if splitlines raw = [] then [raw] else splitlines raw))"

subsection \<open>Scanning a text\<close>

record violation =
  v_identifier :: string
  v_path :: string
  v_line_number :: nat
  v_line :: string

text \<open>The number of times \<open>find\<close> succeeds when it goes on behind each occurrence.\<close>

function hits :: "string \<Rightarrow> string \<Rightarrow> nat" where
  "hits w [] = 0"
| "hits w (c # s) =
     (if w \<noteq> [] \<and> startswith (c # s) w then Suc (hits w (drop (length w - 1) s)) else hits w s)"
  by pat_completeness auto
termination by (relation "measure (\<lambda>(_, s). length s)") auto

definition word_violations :: "string list \<Rightarrow> string \<Rightarrow> violation list" where
  "word_violations ws txt =
     concat (map (\<lambda>(n, line).
       concat (map (\<lambda>i. replicate (hits i (str_lower line))
         \<lparr>v_identifier = i, v_path = ''.'', v_line_number = n, v_line = line\<rparr>) ws))
       (enumerate 1 (splitlines txt)))"

text \<open>
  The regular expression of a phrase: its words, case-insensitively, with at least one separator
  between them.  A run of separators is tried from its longest part to its shortest.
\<close>

definition is_separator :: "char \<Rightarrow> bool" where
  "is_separator c \<longleftrightarrow> is_space c \<or> c \<in> set ''._-''"

definition starts_like :: "string \<Rightarrow> string \<Rightarrow> bool" where
  "starts_like w s \<longleftrightarrow> startswith (str_lower s) (str_lower w)"

definition run_length :: "string \<Rightarrow> nat" where
  "run_length s = length (takeWhile is_separator s)"

fun first_some :: "'a option list \<Rightarrow> 'a option" where
  "first_some [] = None"
| "first_some (None # xs) = first_some xs"
| "first_some (Some x # xs) = Some x"

fun match_words :: "string list \<Rightarrow> string \<Rightarrow> nat option" where
  "match_words [] s = Some 0"
| "match_words [w] s = (if starts_like w s then Some (length w) else None)"
| "match_words (w # v # ws) s =
     (if starts_like w s
      then (let rest = drop (length w) s in
            first_some (map (\<lambda>k. map_option (\<lambda>n. length w + k + n) (match_words (v # ws) (drop k rest)))
              (rev [1..<Suc (run_length rest)])))
      else None)"

text \<open>Where \<open>finditer\<close> finds a match, going on behind each; a match of a phrase is never empty.\<close>

function match_starts :: "string list \<Rightarrow> nat \<Rightarrow> string \<Rightarrow> nat list" where
  "match_starts ws k [] = []"
| "match_starts ws k (c # s) =
     (case match_words ws (c # s) of
        Some (Suc n) \<Rightarrow> k # match_starts ws (k + Suc n) (drop n s)
      | _ \<Rightarrow> match_starts ws (Suc k) s)"
  by pat_completeness auto
termination by (relation "measure (\<lambda>(_, _, s). length s)") auto

definition phrase_violation :: "string \<Rightarrow> string \<Rightarrow> nat \<Rightarrow> violation" where
  "phrase_violation txt i start =
     (let ls = splitlines txt; n = Suc (length (filter (\<lambda>c. c = CHR 0x0A) (take start txt))) in
      \<lparr>v_identifier = i, v_path = ''.'', v_line_number = n,
       v_line = (if n \<le> length ls then ls ! (n - 1) else [])\<rparr>)"

definition scan_text :: "string \<Rightarrow> string list \<Rightarrow> violation list" where
  "scan_text txt identifiers =
     (let ids = filter_identifiers identifiers;
          phrases = filter (\<lambda>i. CHR '' '' \<in> set i) ids
      in word_violations (filter (\<lambda>i. CHR '' '' \<notin> set i) ids) txt
         @ concat (map (\<lambda>i. map (phrase_violation txt i) (match_starts (py_split i) 0 txt)) phrases))"

subsection \<open>Scanning files\<close>

text \<open>A file is a link with its target, or the first chunk of its bytes with its text under an
  encoding; \<open>None\<close> is an \<open>OSError\<close>.\<close>

datatype tracked =
    Link string
  | Stored "bytes option" "string \<Rightarrow> string option"

definition SNIFF_LEN :: nat where "SNIFF_LEN = 8192"

definition sniff_encoding :: "bytes \<Rightarrow> string option" where
  "sniff_encoding chunk =
     (if startswith chunk [CHR 0xFF, CHR 0xFE] then Some ''utf-16-le''
      else if startswith chunk [CHR 0xFE, CHR 0xFF] then Some ''utf-16-be''
      else if startswith chunk [CHR 0xEF, CHR 0xBB, CHR 0xBF] then Some ''utf-8-sig'' else None)"

definition is_binary :: "bytes \<Rightarrow> bool" where
  "is_binary chunk \<longleftrightarrow> sniff_encoding chunk = None \<and> CHR 0x00 \<in> set chunk"

definition scan_file :: "string list \<Rightarrow> (string \<Rightarrow> tracked) \<Rightarrow> string \<Rightarrow> violation list \<times> string list" where
  "scan_file identifiers files path =
     (case files path of
        Link target \<Rightarrow> (map (\<lambda>v. v\<lparr>v_path := path, v_line := target\<rparr>) (scan_text target identifiers), [])
      | Stored None _ \<Rightarrow> ([], [path])
      | Stored (Some content) read_text \<Rightarrow>
          (let chunk = take SNIFF_LEN content in
           if is_binary chunk then ([], [])
           else (case read_text (case sniff_encoding chunk of Some e \<Rightarrow> e | None \<Rightarrow> ''utf-8'') of
                   None \<Rightarrow> ([], [path])
                 | Some txt \<Rightarrow> (map (\<lambda>v. v\<lparr>v_path := path\<rparr>) (scan_text txt identifiers), []))))"

text \<open>The violations, and the files that could not be read.\<close>

fun scan_files :: "string list \<Rightarrow> (string \<Rightarrow> tracked) \<Rightarrow> string list \<Rightarrow> violation list \<times> string list" where
  "scan_files identifiers files [] = ([], [])"
| "scan_files identifiers files (p # ps) =
     (case (scan_file identifiers files p, scan_files identifiers files ps) of
        ((vs, us), (vs', us')) \<Rightarrow> (vs @ vs', us @ us'))"

subsection \<open>What git says\<close>

datatype git_answer =
    Ran string
  | Exited int string
  | Not_run string

type_synonym git = "string list \<Rightarrow> git_answer"

text \<open>\<open>GateError\<close> is the left of the sum; its text is the reason.\<close>

definition run_git :: "git \<Rightarrow> string list \<Rightarrow> string + string" where
  "run_git git args =
     (case git args of
        Ran out \<Rightarrow> Inr out
      | Exited n err \<Rightarrow> Inl (''git command failed ('' @ join '' '' args @ ''): exit '' @ int_str n @ '': '' @ strip err)
      | Not_run e \<Rightarrow> Inl (''could not run git ('' @ join '' '' args @ ''): '' @ e))"

definition paths_from_git :: "git \<Rightarrow> string list \<Rightarrow> string + string list" where
  "paths_from_git git args = map_sum id (\<lambda>out. filter (\<lambda>p. p \<noteq> []) (split_on (CHR 0x00) out)) (run_git git args)"

definition collect_tracked_paths :: "git \<Rightarrow> string + string list" where
  "collect_tracked_paths git = paths_from_git git [''git'', ''ls-files'', ''-z'']"

definition collect_staged_paths :: "git \<Rightarrow> string + string list" where
  "collect_staged_paths git =
     paths_from_git git [''git'', ''diff'', ''--cached'', ''--name-only'', ''--diff-filter=ACM'', ''--no-renames'', ''-z'']"

definition message_record :: "string \<Rightarrow> (string \<times> string) option" where
  "message_record rec =
     (case split_at (CHR 0x1F) rec of (sha, Some body) \<Rightarrow> Some (strip sha, body) | (_, None) \<Rightarrow> None)"

definition collect_range_messages :: "git \<Rightarrow> string \<Rightarrow> string + (string \<times> string) list" where
  "collect_range_messages git rev_range =
     map_sum id (\<lambda>out. List.map_filter message_record (split_on (CHR 0x1E) out))
       (run_git git ([''git'', ''log'', ''--format=%H%x1f%B%x1e''] @ py_split rev_range))"

text \<open>The components of a relative path.\<close>

definition path_parts :: "string \<Rightarrow> string list" where
  "path_parts p = filter (\<lambda>x. x \<noteq> [] \<and> x \<noteq> ''.'') (split_on (CHR ''/'') p)"

definition GUARDED_DIRS :: "string list" where "GUARDED_DIRS = [''samples'']"
definition SKIP_DIRS :: "string list" where "SKIP_DIRS = [''.venv'']"

definition leaked_tracked_files :: "string list \<Rightarrow> string list \<Rightarrow> string list" where
  "leaked_tracked_files paths guarded =
     filter (\<lambda>p. path_parts p \<noteq> [] \<and> hd (path_parts p) \<in> set guarded) paths"

definition skipped_path :: "string \<Rightarrow> bool" where
  "skipped_path p \<longleftrightarrow> list_ex (\<lambda>part. part \<in> set SKIP_DIRS) (path_parts p)"

subsection \<open>The runs of the gate\<close>

text \<open>\<open>main\<close> turns a \<open>GateError\<close> and a denylist that cannot be parsed into exit code 1.  A run gives its
  exit code and what it prints on the standard error.\<close>

datatype gate_refusal = Gate_error string | Bad_denylist string

type_synonym gate_run = "gate_refusal + nat \<times> string list"

record gate_env =
  ge_denylist :: string
  ge_git :: git
  ge_files :: "string \<Rightarrow> tracked"
  ge_message :: "string \<Rightarrow> string + string"

record gate_args =
  ga_staged :: bool
  ga_message_file :: "string option"
  ga_rev_range :: "string option"

definition rstrip :: "string \<Rightarrow> string" where
  "rstrip s = rev (dropWhile is_space (rev s))"

text \<open>The identifiers to look for, or nothing with the reason printed.\<close>

definition resolve_identifiers :: "string \<Rightarrow> gate_refusal + string list option \<times> string list" where
  "resolve_identifiers raw =
     (if strip raw = []
      then Inr (None, [''AGENT_WAKE_FORBIDDEN_IDENTIFIERS is empty or unset; skipping identifier gate.''])
      else (case parse_identifier_set raw of
              Inl m \<Rightarrow> Inl (Bad_denylist m)
            | Inr [] \<Rightarrow>
                Inr (None, [''AGENT_WAKE_FORBIDDEN_IDENTIFIERS contained no usable identifiers (minimum length is ''
                       @ nat_str MIN_IDENTIFIER_LENGTH @ '' characters); skipping gate.''])
            | Inr ids \<Rightarrow> Inr (Some ids, [])))"

definition print_report :: "violation list \<Rightarrow> string list" where
  "print_report vs =
     ''Committed identifier violations detected:''
     # concat (map (\<lambda>v. [''  '' @ v_path v @ '':'' @ nat_str (v_line_number v) @ '': '' @ repr_str (v_identifier v),
                         ''      '' @ rstrip (v_line v)])
         (sort_key (\<lambda>v. (v_path v, v_line_number v, v_identifier v)) vs))
     @ [CHR 0x0A # ''Total: '' @ nat_str (length vs) @ '' violation(s)'']"

definition report_message_violations :: "string \<Rightarrow> violation list \<Rightarrow> string list" where
  "report_message_violations label vs =
     (''Forbidden identifier in '' @ label @ '':'')
     # concat (map (\<lambda>v. [''  line '' @ nat_str (v_line_number v) @ '': '' @ repr_str (v_identifier v),
                         ''      '' @ rstrip (v_line v)])
         (sort_key (\<lambda>v. (v_line_number v, v_identifier v)) vs))
     @ [CHR 0x0A # ''A commit message is published with the commit. Rewrite the message without the identifier ''
          @ ''(the canonical denylist is the authority on what may not appear).'']"

text \<open>The lines of a message that git records.\<close>

definition kept_lines :: "string \<Rightarrow> string" where
  "kept_lines txt = join [CHR 0x0A] (filter (\<lambda>l. \<not> startswith l ''#'') (splitlines txt))"

definition scan_message_file :: "gate_env \<Rightarrow> string \<Rightarrow> gate_run" where
  "scan_message_file E path =
     (case resolve_identifiers (ge_denylist E) of
        Inl r \<Rightarrow> Inl r
      | Inr (None, out) \<Rightarrow> Inr (0, out)
      | Inr (Some ids, _) \<Rightarrow>
          (case ge_message E path of
             Inl e \<Rightarrow> Inl (Gate_error (''could not read the commit message file '' @ path @ '': '' @ e))
           | Inr txt \<Rightarrow>
               (case scan_text (kept_lines txt) ids of
                  [] \<Rightarrow> Inr (0, [])
                | vs \<Rightarrow> Inr (1, report_message_violations ''the proposed commit message'' vs))))"

definition message_report :: "string list \<Rightarrow> string \<times> string \<Rightarrow> string list" where
  "message_report ids m =
     (case scan_text (snd m) ids of
        [] \<Rightarrow> []
      | vs \<Rightarrow> report_message_violations (''commit message '' @ take 9 (fst m)) vs)"

definition scan_rev_range :: "gate_env \<Rightarrow> string \<Rightarrow> gate_run" where
  "scan_rev_range E rev_range =
     (case resolve_identifiers (ge_denylist E) of
        Inl r \<Rightarrow> Inl r
      | Inr (None, out) \<Rightarrow> Inr (0, out)
      | Inr (Some ids, _) \<Rightarrow>
          (case collect_range_messages (ge_git E) rev_range of
             Inl e \<Rightarrow> Inl (Gate_error e)
           | Inr messages \<Rightarrow>
               (let reports = map (message_report ids) messages in
                Inr (if list_all (\<lambda>r. r = []) reports then 0 else 1, concat reports))))"

definition scan_tree :: "gate_env \<Rightarrow> string list \<Rightarrow> gate_run" where
  "scan_tree E paths =
     (let leaked = leaked_tracked_files paths GUARDED_DIRS in
      if leaked \<noteq> []
      then Inr (1, ''Tracked files under a gitignored data directory detected:''
             # map (\<lambda>p. ''  '' @ p) (sort leaked)
             @ [CHR 0x0A # ''These paths are gitignored by convention (samples/ holds real identifier-bearing data -- ''
                @ ''hostnames, service accounts, principal handles). Remove them from the index: git rm --cached -r <path>.''])
      else
        (case resolve_identifiers (ge_denylist E) of
           Inl r \<Rightarrow> Inl r
         | Inr (None, out) \<Rightarrow> Inr (0, out)
         | Inr (Some ids, _) \<Rightarrow>
             (case scan_files ids (ge_files E) (filter (\<lambda>p. \<not> skipped_path p) paths) of
                (vs, unreadable) \<Rightarrow> Inr
                  (if vs \<noteq> [] then (1, print_report vs)
                   else if unreadable \<noteq> []
                   then (1, ''Tracked files could not be read; the gate cannot clear them:''
                          # map (\<lambda>p. ''  '' @ p) (sort unreadable)
                          @ [CHR 0x0A # ''An unreadable tracked file may contain a forbidden identifier. Fix the permissions ''
                             @ ''(or untrack the file) and re-run; the gate will not pass a tree it could not fully scan.''])
                   else (0, [])))))"

definition run_gate :: "gate_env \<Rightarrow> gate_args \<Rightarrow> gate_run" where
  "run_gate E args =
     (case (ga_message_file args, ga_rev_range args) of
        (Some path, _) \<Rightarrow> scan_message_file E path
      | (None, Some rev_range) \<Rightarrow> scan_rev_range E rev_range
      | (None, None) \<Rightarrow>
          (case (if ga_staged args then collect_staged_paths (ge_git E) else collect_tracked_paths (ge_git E)) of
             Inl e \<Rightarrow> Inl (Gate_error e)
           | Inr paths \<Rightarrow> scan_tree E paths))"

definition gate_main :: "gate_env \<Rightarrow> gate_args \<Rightarrow> nat \<times> string list" where
  "gate_main E args =
     (case run_gate E args of
        Inl (Gate_error m) \<Rightarrow> (1, [''identifier gate could not complete: '' @ m])
      | Inl (Bad_denylist m) \<Rightarrow> (1, [''identifier gate denylist is invalid: '' @ m])
      | Inr r \<Rightarrow> r)"

subsection \<open>The replacement rules (\<open>scripts/generate_replacements.py\<close>)\<close>

text \<open>The exit code, the standard output and the standard error; no text is a missing file.\<close>

definition replacement_rules :: "string \<Rightarrow> string list" where
  "replacement_rules txt =
     List.map_filter (\<lambda>line. if denylist_content line = [] then None else Some (denylist_content line @ ''==>REDACTED''))
       (splitlines txt)"

definition generate_replacements :: "string option \<Rightarrow> nat \<times> string list \<times> string list" where
  "generate_replacements denylist =
     (case denylist of
        None \<Rightarrow> (1, [], [''error: .identifiers-denylist.local not found -- create it first (see docs/publication-gate.md sec. 3)''])
      | Some txt \<Rightarrow>
          (case replacement_rules txt of
             [] \<Rightarrow> (1, [], [''error: .identifiers-denylist.local contains no usable tokens''])
           | rules \<Rightarrow> (0, [join [CHR 0x0A] rules],
               [CHR 0x0A # ''# '' @ nat_str (length rules) @ '' replacement rules generated from .identifiers-denylist.local''])))"

end
