(* ===== verification/Identifiers_Props.thy ===== *)
theory Identifiers_Props
  imports Identifiers
begin

section \<open>What the identifier gate clears\<close>

text \<open>
  The specification says what it is to spell an identifier in a text: its words in any case, with
  at least one separator between two of them.  The scan finds a violation exactly when one of the
  identifiers is spelt somewhere, also across lines; and the gate passes a tree exactly when it
  has read all of it and nothing is spelt.
\<close>

fun spells :: "string list \<Rightarrow> string \<Rightarrow> bool" where
  "spells [] m \<longleftrightarrow> m = []"
| "spells [w] m \<longleftrightarrow> str_lower m = w"
| "spells (w # v # ws) m \<longleftrightarrow>
     (\<exists>a sep b. m = a @ sep @ b \<and> str_lower a = w \<and> sep \<noteq> [] \<and> list_all is_separator sep \<and> spells (v # ws) b)"

definition occurs :: "string \<Rightarrow> string \<Rightarrow> bool" where
  "occurs i body \<longleftrightarrow> (\<exists>m. sublist m body \<and> spells (py_split i) m)"

subsection \<open>Characters\<close>

definition low :: "char \<Rightarrow> char" where
  "low c = (let n = (of_char c :: nat) in
     if (65 \<le> n \<and> n \<le> 90) \<or> (192 \<le> n \<and> n \<le> 222 \<and> n \<noteq> 215) then char_of (n + 32) else c)"

lemma str_lower_low: "str_lower = map low"
  by (simp add: str_lower_def low_def [abs_def])

lemma char_code: "c = d \<longleftrightarrow> (of_char c :: nat) = of_char d"
  by simp

lemma code_low: "(of_char (low c) :: nat) =
    (if (65 \<le> (of_char c :: nat) \<and> of_char c \<le> (90 :: nat)) \<or> (192 \<le> (of_char c :: nat) \<and> of_char c \<le> (222 :: nat) \<and> of_char c \<noteq> (215 :: nat))
     then of_char c + 32 else of_char c)"
  by (auto simp: low_def Let_def)

lemma is_space_code: "is_space c \<longleftrightarrow> (of_char c :: nat) \<in> {32, 9, 10, 11, 12, 13, 28, 29, 30, 31, 133, 160}"
  unfolding is_space_def is_ascii_space_def list.set insert_iff char_code [of c] by simp

lemma is_line_break_code: "is_line_break c \<longleftrightarrow> (of_char c :: nat) \<in> {10, 11, 12, 13, 28, 29, 30, 133}"
  unfolding is_line_break_def list.set insert_iff char_code [of c] by simp

lemma low_low: "low (low c) = low c"
  unfolding char_code code_low by auto

lemma low_simps [simp]: "is_space (low c) = is_space c" "is_line_break (low c) = is_line_break c" "low (low c) = low c"
  by (simp_all add: is_space_code is_line_break_code code_low low_low)

lemma length_lower [simp]: "length (str_lower s) = length s"
  by (simp add: str_lower_low)

lemma lower_lower [simp]: "str_lower (str_lower s) = str_lower s"
  by (simp add: str_lower_low)

lemma lower_Nil [simp]: "str_lower s = [] \<longleftrightarrow> s = []"
  by (simp add: str_lower_low)

subsection \<open>Words of an identifier\<close>

definition solid :: "string \<Rightarrow> bool" where
  "solid w \<longleftrightarrow> w \<noteq> [] \<and> (\<forall>c \<in> set w. \<not> is_space c)"

declare py_split.simps(2) [simp del]

lemma py_split_solid: "w \<in> set (py_split s) \<Longrightarrow> solid w"
proof (induction s arbitrary: w rule: py_split.induct)
  case (2 c s)
  consider "is_space c" | "\<not> is_space c" "s = [] \<or> is_space (hd s)" | "\<not> is_space c" "\<not> (s = [] \<or> is_space (hd s))" by blast
  then show ?case
  proof cases
    case 3
    have IH: "v \<in> set (py_split s) \<Longrightarrow> solid v" for v using 2(3) 3 by blast
    show ?thesis
    proof (cases "py_split s")
      case Nil
      with 3 2(4) show ?thesis by (simp add: py_split.simps(2) solid_def)
    next
      case (Cons v vs)
      then have "w = c # v \<or> w \<in> set (py_split s)" using 3 2(4) by (auto simp: py_split.simps(2))
      moreover have "solid (c # v)" using IH [of v] Cons 3 by (simp add: solid_def)
      ultimately show ?thesis using IH by blast
    qed
  qed (use 2 in \<open>auto simp: py_split.simps(2) solid_def\<close>)
qed simp

lemma py_split_lower: "py_split (str_lower s) = map str_lower (py_split s)"
proof (induction s rule: py_split.induct)
  case (2 c s)
  have space: "s = [] \<or> is_space (hd (map low s)) \<longleftrightarrow> s = [] \<or> is_space (hd s)" by (cases s) auto
  consider "is_space c" | "\<not> is_space c" "s = [] \<or> is_space (hd s)" | "\<not> is_space c" "\<not> (s = [] \<or> is_space (hd s))" by blast
  then show ?case
    by cases (use 2 space in \<open>auto simp: py_split.simps(2) str_lower_low split: list.split\<close>)
qed (simp add: str_lower_low)

lemma py_split_word: "solid w \<Longrightarrow> py_split w = [w]"
proof (induction w)
  case (Cons c w)
  then show ?case by (cases w) (auto simp: py_split.simps(2) solid_def)
qed (simp add: solid_def)

lemma py_split_more: "solid w \<Longrightarrow> is_space c \<Longrightarrow> py_split (w @ c # s) = w # py_split s"
proof (induction w)
  case (Cons d w)
  then show ?case by (cases w) (auto simp: py_split.simps(2) solid_def)
qed (simp add: solid_def)

lemma py_split_join: "\<forall>w \<in> set ws. solid w \<Longrightarrow> py_split (join '' '' ws) = ws"
proof (induction ws rule: induct_list012)
  case (3 x y zs)
  have "is_space (CHR '' '')" by code_simp
  with 3 show ?case using py_split_more [of x "CHR '' ''" "join '' '' (y # zs)"] by simp
qed (auto simp: py_split_word)

lemma lower_join: "str_lower (join '' '' ws) = join '' '' (map str_lower ws)"
proof -
  have "low (CHR '' '') = CHR '' ''" by code_simp
  then show ?thesis by (induction ws rule: induct_list012) (auto simp: str_lower_low)
qed

lemma py_split_drop_space: "py_split (dropWhile is_space s) = py_split s"
  by (induction s) (auto simp: py_split.simps(2))

lemma py_split_snoc_space: "is_space c \<Longrightarrow> py_split (s @ [c]) = py_split s"
proof (induction s)
  case (Cons d s)
  have "hd (s @ [c]) = (if s = [] then c else hd s)" by simp
  with Cons show ?case by (auto simp: py_split.simps(2) [of d])
qed (simp add: py_split.simps(2))

lemma py_split_strip: "py_split (strip s) = py_split s"
proof -
  have right: "py_split (rev (dropWhile is_space (rev t))) = py_split t" for t
    by (induction t rule: rev_induct) (auto simp: py_split_snoc_space)
  show ?thesis by (simp add: strip_def right py_split_drop_space)
qed

lemma collapse_strip [simp]: "collapse (strip s) = collapse s"
  by (simp add: collapse_def py_split_strip)

lemma collapse_again: "collapse (collapse s) = collapse s"
  using py_split_solid [of _ s] by (simp add: collapse_def py_split_join)

lemma collapse_lower: "collapse (str_lower s) = str_lower (collapse s)"
  by (simp add: collapse_def py_split_lower lower_join)

lemma strip_lower_words: "collapse (str_lower (strip s)) = collapse (str_lower s)"
  by (simp add: collapse_lower)

text \<open>The normalised identifiers: each token's words in lower case, one space between them.\<close>

lemma filtered: "set (filter_identifiers ts) = {str_lower (collapse t) |t. t \<in> set ts \<and> MIN_IDENTIFIER_LENGTH \<le> length (collapse t)}"
  unfolding filter_identifiers_def set_remdups set_map set_filter image_def
  by (auto simp: collapse_lower; metis collapse_strip)

lemma filtered_again: "set (filter_identifiers (filter_identifiers ts)) = set (filter_identifiers ts)"
proof -
  have "\<exists>s. i = str_lower (collapse s) \<and> s \<in> set (filter_identifiers ts) \<and> MIN_IDENTIFIER_LENGTH \<le> length (collapse s)"
    if "i \<in> set (filter_identifiers ts)" for i
    using that collapse_lower [of "collapse _"] by (intro exI [of _ i]) (auto simp: filtered collapse_lower collapse_again)
  moreover have "str_lower (collapse s) = s" if "s \<in> set (filter_identifiers ts)" for s
    using that by (auto simp: filtered collapse_lower collapse_again)
  ultimately show ?thesis unfolding filtered [of "filter_identifiers ts"] by auto
qed

definition normal_words :: "string list \<Rightarrow> bool" where
  "normal_words ws \<longleftrightarrow> ws \<noteq> [] \<and> (\<forall>w \<in> set ws. solid w \<and> str_lower w = w)"

lemma filtered_normal:
  assumes "i \<in> set (filter_identifiers ts)"
  shows "normal_words (py_split i) \<and> i = join '' '' (py_split i)"
proof -
  obtain t where t: "i = str_lower (collapse t)" "MIN_IDENTIFIER_LENGTH \<le> length (collapse t)"
    using assms by (auto simp: filtered)
  have words: "py_split i = map str_lower (py_split t)"
    using py_split_solid [of _ t] by (simp add: t(1) py_split_lower collapse_def py_split_join)
  have "py_split t \<noteq> []" using t(2) by (auto simp: collapse_def MIN_IDENTIFIER_LENGTH_def)
  moreover have "solid (str_lower w)" if "solid w" for w
    using that by (auto simp: solid_def str_lower_low)
  moreover have "i = join '' '' (map str_lower (py_split t))" by (simp add: t(1) collapse_def lower_join)
  ultimately show ?thesis
    unfolding words using py_split_solid [of _ t] by (auto simp: normal_words_def)
qed
subsection \<open>Words within lines\<close>

lemma startswith_prefix: "startswith s w \<longleftrightarrow> prefix w s"
  by (metis append_eq_conv_conj prefix_def startswith_def take_is_prefix)

lemma hits_zero: "w \<noteq> [] \<Longrightarrow> hits w s = 0 \<longleftrightarrow> \<not> sublist w s"
proof (induction w s rule: hits.induct)
  case (2 w c s)
  then show ?case by (auto simp: startswith_prefix sublist_Cons_right)
qed simp

lemma sublist_map: "sublist w (map f xs) \<longleftrightarrow> (\<exists>m. sublist m xs \<and> map f m = w)"
proof
  assume "sublist w (map f xs)"
  then obtain us vs where "map f xs = us @ w @ vs" by (auto simp: sublist_def)
  then have "\<exists>a r. xs = a @ r \<and> us = map f a \<and> w @ vs = map f r" by (simp add: map_eq_append_conv)
  then obtain a r where r: "xs = a @ r" "w @ vs = map f r" by blast
  then have "\<exists>m b. r = m @ b \<and> w = map f m \<and> vs = map f b" by (simp add: append_eq_map_conv)
  with r show "\<exists>m. sublist m xs \<and> map f m = w" by (auto simp: sublist_def)
next
  assume "\<exists>m. sublist m xs \<and> map f m = w"
  then obtain m a b where "xs = a @ m @ b" "w = map f m" by (auto simp: sublist_def)
  then show "sublist w (map f xs)" by simp
qed

lemma first_line: "splitlines s = l # ls \<Longrightarrow> l = takeWhile (\<lambda>c. \<not> is_line_break c) s"
proof (induction s arbitrary: l ls rule: splitlines.induct)
  case (2 c s)
  consider "c = CHR 0x0D \<and> s \<noteq> [] \<and> hd s = CHR 0x0A" | "is_line_break c" | "\<not> is_line_break c" "s = []"
    | d s' where "\<not> is_line_break c" "s = d # s'" by (cases s) auto
  then show ?case
  proof cases
    case 4
    then obtain k ks where k: "splitlines s = k # ks" using splitlines_ne by (cases "splitlines s") auto
    have "c \<noteq> CHR 0x0D" using 4(1) by auto
    then have "k = takeWhile (\<lambda>c. \<not> is_line_break c) s" using 2(3) [OF _ 4 k] by blast
    with 2(4) 4 k \<open>c \<noteq> CHR 0x0D\<close> show ?thesis by (simp add: splitlines.simps(2) [of c])
  qed (use 2(4) in \<open>auto simp: splitlines.simps(2) split: if_splits\<close>)
qed simp

lemma prefix_line: "no_break m \<Longrightarrow> prefix m (takeWhile (\<lambda>c. \<not> is_line_break c) s) \<longleftrightarrow> prefix m s"
proof (induction m arbitrary: s)
  case (Cons c m)
  then show ?case by (cases s) auto
qed simp

lemma sublist_lines:
  assumes "no_break m" and "m \<noteq> []"
  shows "sublist m s \<longleftrightarrow> (\<exists>l \<in> set (splitlines s). sublist m l)"
proof (induction s rule: splitlines.induct)
  case 1
  show ?case using assms(2) by simp
next
  case (2 c s)
  have step: "sublist m (d # t) \<longleftrightarrow> sublist m t" if "is_line_break d" for d t
    using assms that by (cases m) (auto simp: sublist_Cons_right)
  consider "c = CHR 0x0D \<and> s \<noteq> [] \<and> hd s = CHR 0x0A" | "\<not> (c = CHR 0x0D \<and> s \<noteq> [] \<and> hd s = CHR 0x0A)" "is_line_break c"
    | "\<not> is_line_break c" "s = []" | d s' where "\<not> is_line_break c" "s = d # s'" by (cases s) auto
  then show ?case
  proof cases
    case 1
    then obtain t where t: "s = CHR 0x0A # t" by (cases s) auto
    with 1 2(1) show ?thesis using assms(2) by (simp add: splitlines.simps(2) [of "CHR 0x0D"] step)
  next
    case 2
    with "2.IH"(2) show ?thesis using assms(2) by (auto simp: splitlines.simps(2) [of c] step)
  next
    case 3
    then show ?thesis by (auto simp: splitlines.simps(2))
  next
    case 4
    then obtain k ks where k: "splitlines s = k # ks" using splitlines_ne by (cases "splitlines s") auto
    have c: "c \<noteq> CHR 0x0D" using 4(1) by auto
    have "prefix m (c # s) \<longleftrightarrow> prefix m (c # k)"
      using prefix_line [OF assms(1), of "c # s"] 4(1) first_line [OF k] by simp
    moreover have "sublist m s \<longleftrightarrow> (\<exists>l \<in> set (k # ks). sublist m l)" using 2(3) 4 c k by auto
    moreover have "splitlines (c # s) = (c # k) # ks" using 4 k c by (simp add: splitlines.simps(2) [of c])
    ultimately show ?thesis by (auto simp: sublist_Cons_right)
  qed
qed

lemma word_found:
  assumes "solid w" and "str_lower w = w"
  shows "(\<exists>l \<in> set (splitlines body). hits w (str_lower l) \<noteq> 0) \<longleftrightarrow> (\<exists>m. sublist m body \<and> str_lower m = w)"
proof -
  have "no_break m" if "map low m = w" for m
  proof -
    have "\<forall>c \<in> set w. \<not> is_line_break c"
      using assms(1) by (auto simp: solid_def is_space_code is_line_break_code)
    then have "\<forall>c \<in> set m. \<not> is_line_break c" by (simp flip: that)
    then show ?thesis by (simp add: no_break_def)
  qed
  moreover have "m \<noteq> []" if "map low m = w" for m using that assms(1) by (auto simp: solid_def)
  ultimately have "(\<exists>m. sublist m body \<and> map low m = w) \<longleftrightarrow> (\<exists>l \<in> set (splitlines body). \<exists>m. sublist m l \<and> map low m = w)"
    using sublist_lines [where s = "body"] by blast
  moreover have "w \<noteq> []" using assms(1) by (simp add: solid_def)
  ultimately show ?thesis by (simp add: hits_zero str_lower_low sublist_map)
qed

subsection \<open>Phrases\<close>

lemma first_some_iff: "first_some xs = None \<longleftrightarrow> (\<forall>x \<in> set xs. x = None)"
  by (induction xs rule: first_some.induct) auto

lemma first_some_mem: "first_some xs = Some x \<Longrightarrow> Some x \<in> set xs"
  by (induction xs rule: first_some.induct) auto

lemma run_sound: "k \<le> run_length s \<Longrightarrow> list_all is_separator (take k s)"
proof -
  assume k: "k \<le> run_length s"
  have "take k s = take k (takeWhile is_separator s)"
    using k by (metis run_length_def takeWhile_eq_take take_take min.absorb1)
  then show ?thesis using set_takeWhileD by (fastforce simp: list_all_iff dest: in_set_takeD)
qed

lemma run_complete: "list_all is_separator sep \<Longrightarrow> length sep \<le> run_length (sep @ s)"
  by (induction sep) (auto simp: run_length_def)

lemma starts_like_iff: "str_lower w = w \<Longrightarrow> starts_like w s \<longleftrightarrow> str_lower (take (length w) s) = w"
  by (simp add: starts_like_def startswith_def str_lower_low take_map)

lemma match_words_iff:
  assumes "\<forall>w \<in> set ws. str_lower w = w"
  shows "match_words ws s \<noteq> None \<longleftrightarrow> (\<exists>m. prefix m s \<and> spells ws m)"
  using assms
proof (induction ws arbitrary: s rule: induct_list012)
  case (2 w)
  show ?case
  proof
    assume "match_words [w] s \<noteq> None"
    then show "\<exists>m. prefix m s \<and> spells [w] m"
      using 2 by (intro exI [of _ "take (length w) s"]) (auto simp: starts_like_iff take_is_prefix split: if_splits)
  next
    assume "\<exists>m. prefix m s \<and> spells [w] m"
    then show "match_words [w] s \<noteq> None" using 2 by (auto simp: starts_like_iff prefix_def)
  qed
next
  case (3 w v ws)
  let ?rest = "drop (length w) s"
  have w: "str_lower w = w" using 3(3) by simp
  have IH: "match_words (v # ws) t \<noteq> None \<longleftrightarrow> (\<exists>m. prefix m t \<and> spells (v # ws) m)" for t
    using 3(2,3) by (simp del: match_words.simps spells.simps not_None_eq)
  have found: "match_words (w # v # ws) s \<noteq> None \<longleftrightarrow>
      starts_like w s \<and> (\<exists>k \<in> {1..run_length ?rest}. match_words (v # ws) (drop k ?rest) \<noteq> None)"
    by (simp add: Let_def first_some_iff atLeastLessThanSuc_atLeastAtMost del: upt_Suc not_None_eq)
  show ?case
  proof
    assume "match_words (w # v # ws) s \<noteq> None"
    then obtain k where k: "starts_like w s" "1 \<le> k" "k \<le> run_length ?rest" "match_words (v # ws) (drop k ?rest) \<noteq> None"
      unfolding found by auto
    then obtain b where b: "prefix b (drop k ?rest)" "spells (v # ws) b" using IH by blast
    have "take k ?rest \<noteq> []" using k(2,3) by (auto simp: run_length_def)
    then have "spells (w # v # ws) (take (length w) s @ take k ?rest @ b)"
      using k(1) w b(2) run_sound [OF k(3)] unfolding spells.simps(3) starts_like_iff [OF w] by blast
    moreover have "prefix (take (length w) s @ take k ?rest @ b) s"
      using b(1) by (metis append_take_drop_id same_prefix_prefix)
    ultimately show "\<exists>m. prefix m s \<and> spells (w # v # ws) m" by blast
  next
    assume "\<exists>m. prefix m s \<and> spells (w # v # ws) m"
    then obtain a sep b t where m: "s = a @ sep @ b @ t" "str_lower a = w" "sep \<noteq> []" "list_all is_separator sep" "spells (v # ws) b"
      by (auto simp: prefix_def)
    then have a: "length a = length w" by auto
    have "starts_like w s" using m(1,2) a w by (simp add: starts_like_iff)
    moreover have "length sep \<in> {1..run_length ?rest}"
      using run_complete [OF m(4), of "b @ t"] m(1,3) a by (cases sep) auto
    moreover have "match_words (v # ws) (drop (length sep) ?rest) \<noteq> None"
      using IH [of "b @ t"] m(1,5) a by (auto simp del: not_None_eq)
    ultimately show "match_words (w # v # ws) s \<noteq> None" unfolding found by blast
  qed
qed simp

lemma match_words_long:
  assumes "match_words ws s = Some n" and "ws \<noteq> []" and "hd ws \<noteq> []"
  shows "n \<noteq> 0"
  using assms
proof (cases "(ws, s)" rule: match_words.cases)
  case (3 w v vs t)
  then have "Some n \<in> set (map (\<lambda>k. map_option (\<lambda>n. length w + k + n) (match_words (v # vs) (drop k (drop (length w) t))))
      (rev [1..<Suc (run_length (drop (length w) t))]))"
    using assms(1) by (intro first_some_mem) (simp add: Let_def split: if_splits del: upt_Suc)
  then obtain k where "Some n = map_option (\<lambda>n. length w + k + n) (match_words (v # vs) (drop k (drop (length w) t)))"
    unfolding set_map by blast
  then show ?thesis using assms(3) 3 by (cases "match_words (v # vs) (drop k (drop (length w) t))") auto
qed (use assms in \<open>auto split: if_splits\<close>)

lemma match_starts_iff:
  assumes "ws \<noteq> []" and "hd ws \<noteq> []" and "\<forall>w \<in> set ws. str_lower w = w"
  shows "match_starts ws k s = [] \<longleftrightarrow> \<not> (\<exists>m. sublist m s \<and> spells ws m)"
proof -
  have ne: "m \<noteq> []" if "spells ws m" for m
    using that assms(1,2) by (cases "(ws, m)" rule: spells.cases) (auto simp: str_lower_low)
  have found: "match_words ws t \<noteq> None \<longleftrightarrow> (\<exists>m. prefix m t \<and> spells ws m)" for t
    by (rule match_words_iff [OF assms(3)])
  have long: "match_words ws t = Some n \<Longrightarrow> n \<noteq> 0" for t n using match_words_long assms(1,2) by blast
  show ?thesis
  proof (induction s arbitrary: k)
    case Nil
    show ?case using ne by auto
  next
    case (Cons c s)
    show ?case
    proof (cases "match_words ws (c # s)")
      case None
      then have "\<not> (prefix m (c # s) \<and> spells ws m)" for m using found by blast
      then show ?thesis using Cons None by (auto simp: sublist_Cons_right)
    next
      case (Some n)
      then obtain n' where "n = Suc n'" using long by (cases n) auto
      moreover obtain m where "prefix m (c # s)" "spells ws m" using found Some by blast
      ultimately show ?thesis using Some by (auto simp: sublist_Cons_right)
    qed
  qed
qed

subsection \<open>The scan\<close>

lemma word_occurs: "py_split i = [i] \<Longrightarrow> occurs i body \<longleftrightarrow> (\<exists>m. sublist m body \<and> str_lower m = i)"
  by (simp add: occurs_def)

lemma single_word: "normal_words (py_split i) \<Longrightarrow> i = join '' '' (py_split i) \<Longrightarrow> CHR '' '' \<notin> set i \<Longrightarrow> py_split i = [i]"
  by (cases "py_split i" rule: remdups_adj.cases) (auto simp: normal_words_def)

lemma word_violations_Nil:
  "word_violations ws body = [] \<longleftrightarrow> \<not> (\<exists>w \<in> set ws. \<exists>l \<in> set (splitlines body). hits w (str_lower l) \<noteq> 0)"
proof -
  have "(\<forall>x \<in> set (enumerate 1 ls). P (snd x)) \<longleftrightarrow> (\<forall>l \<in> set ls. P l)" for ls :: "string list" and P
    by (metis (no_types, lifting) image_iff map_snd_enumerate set_map)
  from this [of "splitlines body" "\<lambda>l. \<forall>i \<in> set ws. hits i (str_lower l) = 0"]
  show ?thesis by (auto simp: word_violations_def split_beta)
qed

lemma scan_text_filtered:
  assumes "set ids = set (filter_identifiers ts)"
  shows "word_violations (filter (\<lambda>i. CHR '' '' \<notin> set i) ids) body
         @ concat (map (\<lambda>i. map (phrase_violation body i) (match_starts (py_split i) 0 body))
             (filter (\<lambda>i. CHR '' '' \<in> set i) ids)) = []
    \<longleftrightarrow> \<not> (\<exists>i \<in> set ids. occurs i body)"
proof -
  have normal: "normal_words (py_split i)" "i = join '' '' (py_split i)" if "i \<in> set ids" for i
    using that filtered_normal assms by blast+
  have word: "(\<exists>l \<in> set (splitlines body). hits i (str_lower l) \<noteq> 0) \<longleftrightarrow> occurs i body"
    if "i \<in> set ids" "CHR '' '' \<notin> set i" for i
  proof -
    have i: "py_split i = [i]" using single_word normal that by blast
    with normal [OF that(1)] have "solid i" "str_lower i = i" by (auto simp: normal_words_def)
    then show ?thesis using word_found [of i body] word_occurs [OF i, of body] by blast
  qed
  have phrase: "match_starts (py_split i) 0 body = [] \<longleftrightarrow> \<not> occurs i body" if "i \<in> set ids" for i
    using normal [OF that] unfolding occurs_def
    by (intro match_starts_iff) (auto simp: normal_words_def solid_def)
  have "word_violations (filter (\<lambda>i. CHR '' '' \<notin> set i) ids) body = []
      \<longleftrightarrow> \<not> (\<exists>i \<in> set ids. CHR '' '' \<notin> set i \<and> occurs i body)"
    unfolding word_violations_Nil using word by auto
  then show ?thesis using phrase by auto
qed

lemma scan_text_iff: "scan_text body ids = [] \<longleftrightarrow> \<not> (\<exists>i \<in> set (filter_identifiers ids). occurs i body)"
  unfolding scan_text_def Let_def by (rule scan_text_filtered) simp

lemma parsed_filtered: "parse_identifier_set raw = Inr ids \<Longrightarrow> \<exists>ts. ids = filter_identifiers ts"
  unfolding parse_identifier_set_def
  by (cases "denylist_tokens (if splitlines raw = [] then [raw] else splitlines raw)") auto

lemma scan_denylist: "parse_identifier_set raw = Inr ids \<Longrightarrow> scan_text body ids = [] \<longleftrightarrow> \<not> (\<exists>i \<in> set ids. occurs i body)"
  using parsed_filtered [of raw ids] by (auto simp: scan_text_iff filtered_again)

text \<open>A blank denylist holds no identifier.\<close>

lemma strip_blank: "(\<forall>c \<in> set s. is_space c) \<longleftrightarrow> strip s = []"
proof
  assume "\<forall>c \<in> set s. is_space c"
  then show "strip s = []" by (auto simp: strip_def dest: set_dropWhileD)
next
  assume "strip s = []"
  then have "\<forall>c \<in> set (dropWhile is_space s). is_space c" by (simp add: strip_def dropWhile_eq_Nil_conv)
  then have "dropWhile is_space s = []" by (metis hd_dropWhile hd_in_set)
  then show "\<forall>c \<in> set s. is_space c" by (simp add: dropWhile_eq_Nil_conv)
qed

lemma line_chars: "l \<in> set (splitlines s) \<Longrightarrow> set l \<subseteq> set s"
  using sublist_lines [of l s] splitlines_no_break [of l s] set_mono_sublist by (cases l) fastforce+

lemma no_tokens: "\<forall>l \<in> set ls. denylist_content l = [] \<Longrightarrow> denylist_tokens ls = Inr []"
  by (induction ls) auto

lemma blank_content: "\<forall>c \<in> set l. is_space c \<Longrightarrow> denylist_content l = []"
proof -
  have "set (fst (split_at c l)) \<subseteq> set l" for c by (induction l) (auto split: prod.split)
  moreover assume "\<forall>c \<in> set l. is_space c"
  ultimately have "\<forall>c \<in> set (fst (split_at (CHR ''#'') l)). is_space c" by blast
  then show ?thesis by (simp add: denylist_content_def strip_blank)
qed

lemma blank_denylist: "strip raw = [] \<Longrightarrow> parse_identifier_set raw = Inr []"
proof -
  assume "strip raw = []"
  then have blank: "\<forall>c \<in> set raw. is_space c" by (simp add: strip_blank)
  then have "denylist_content l = []" if "l \<in> set (splitlines raw)" for l
    using blank_content line_chars [OF that] by blast
  then have "denylist_tokens (if splitlines raw = [] then [raw] else splitlines raw) = Inr []"
    using blank_content [OF blank] by (simp add: no_tokens)
  then show ?thesis by (simp add: parse_identifier_set_def filter_identifiers_def)
qed

lemma resolve_usable:
  assumes "parse_identifier_set raw = Inr ids" and "ids \<noteq> []"
  shows "resolve_identifiers raw = Inr (Some ids, [])"
  using assms blank_denylist [of raw] by (cases ids) (auto simp: resolve_identifiers_def)

subsection \<open>What a run clears\<close>

text \<open>A file is cleared when its link target, or all of its text, spells no identifier; a file that
  starts like a binary one is taken to hold none.\<close>

definition cleared :: "string list \<Rightarrow> tracked \<Rightarrow> bool" where
  "cleared ids f =
     (case f of
        Link target \<Rightarrow> \<not> (\<exists>i \<in> set ids. occurs i target)
      | Stored None _ \<Rightarrow> False
      | Stored (Some content) read_text \<Rightarrow>
          is_binary (take SNIFF_LEN content)
          \<or> (case read_text (case sniff_encoding (take SNIFF_LEN content) of Some e \<Rightarrow> e | None \<Rightarrow> ''utf-8'') of
               None \<Rightarrow> False | Some s \<Rightarrow> \<not> (\<exists>i \<in> set ids. occurs i s)))"

lemma scan_file_clear:
  assumes "parse_identifier_set raw = Inr ids"
  shows "scan_file ids files p = ([], []) \<longleftrightarrow> cleared ids (files p)"
  by (auto simp: scan_file_def cleared_def Let_def scan_denylist [OF assms] split: tracked.split option.split)

lemma scan_files_clear:
  assumes "parse_identifier_set raw = Inr ids"
  shows "scan_files ids files ps = ([], []) \<longleftrightarrow> \<not> (\<exists>p \<in> set ps. \<not> cleared ids (files p))"
proof (induction ps)
  case (Cons p ps)
  then show ?case
    using scan_file_clear [OF assms, of files p] by (auto split: prod.split)
qed simp

text \<open>The exit code of a run; a run that is refused exits with 1.\<close>

lemma gate_code: "fst (gate_main E args) = (case run_gate E args of Inl _ \<Rightarrow> 1 | Inr r \<Rightarrow> fst r)"
  by (simp add: gate_main_def split: sum.split gate_refusal.split)

lemma tree_code:
  assumes "resolve_identifiers (ge_denylist E) = Inr (Some ids, [])"
  shows "(case scan_tree E ps of Inl _ \<Rightarrow> 1 | Inr r \<Rightarrow> fst r) = 0 \<longleftrightarrow>
    leaked_tracked_files ps GUARDED_DIRS = []
    \<and> scan_files ids (ge_files E) (filter (\<lambda>p. \<not> skipped_path p) ps) = ([], [])"
proof (cases "leaked_tracked_files ps GUARDED_DIRS = []")
  case True
  obtain vs us where scan: "scan_files ids (ge_files E) (filter (\<lambda>p. \<not> skipped_path p) ps) = (vs, us)" by fastforce
  show ?thesis by (simp add: scan_tree_def Let_def assms True scan)
qed (simp add: scan_tree_def Let_def)

text \<open>
  Claim C27: the gate on the tree.  With a denylist that holds an identifier, the gate passes the
  tracked files exactly when none of them lies below \<open>samples/\<close> and each outside \<open>.venv\<close> is cleared: it is a
  link whose target, or a file that could be read and whose text, spells no identifier of the list, in
  whatever case and, for a phrase, with whatever separators between its words, also across lines; or its
  first bytes hold a zero and no byte order mark, in which case it passes unread.  An unreadable file
  refuses the tree.
\<close>

theorem gate_passes_iff:
  assumes "parse_identifier_set (ge_denylist E) = Inr ids" and "ids \<noteq> []"
    and "ge_git E [''git'', ''ls-files'', ''-z''] = Ran out"
  shows "fst (gate_main E \<lparr>ga_staged = False, ga_message_file = None, ga_rev_range = None\<rparr>) = 0 \<longleftrightarrow>
    \<not> (\<exists>p \<in> set (split_on (CHR 0x00) out). p \<noteq> []
        \<and> (leaked_tracked_files [p] GUARDED_DIRS \<noteq> [] \<or> \<not> skipped_path p \<and> \<not> cleared ids (ge_files E p)))"
proof -
  let ?paths = "filter (\<lambda>p. p \<noteq> []) (split_on (CHR 0x00) out)"
  have run: "run_gate E \<lparr>ga_staged = False, ga_message_file = None, ga_rev_range = None\<rparr> = scan_tree E ?paths"
    by (simp add: run_gate_def collect_tracked_paths_def paths_from_git_def run_git_def assms(3))
  have passes: "fst (gate_main E \<lparr>ga_staged = False, ga_message_file = None, ga_rev_range = None\<rparr>) = 0 \<longleftrightarrow>
      leaked_tracked_files ?paths GUARDED_DIRS = [] \<and> scan_files ids (ge_files E) (filter (\<lambda>p. \<not> skipped_path p) ?paths) = ([], [])"
    unfolding gate_code run by (rule tree_code [OF resolve_usable [OF assms(1,2)]])
  have leak: "leaked_tracked_files ps GUARDED_DIRS = [] \<longleftrightarrow> \<not> (\<exists>p \<in> set ps. leaked_tracked_files [p] GUARDED_DIRS \<noteq> [])" for ps
    by (simp add: leaked_tracked_files_def filter_empty_conv)
  show ?thesis unfolding passes leak [of ?paths] scan_files_clear [OF assms(1)] set_filter by blast
qed

definition demo_tree :: gate_env where
  "demo_tree = \<lparr>ge_denylist = [CHR 0x22] @ ''Acme North'' @ [CHR 0x22],
     ge_git = (\<lambda>_. Ran (''docs/a.md'' @ [CHR 0x00])),
     ge_files = (\<lambda>_. Stored (Some ''the ACME'') (\<lambda>_. Some (''the ACME'' @ [CHR 0x0A] @ ''-north plant''))),
     ge_message = (\<lambda>_. Inl ''no such file'')\<rparr>"

theorem gate_passes_iff_witness:
  "fst (gate_main demo_tree \<lparr>ga_staged = False, ga_message_file = None, ga_rev_range = None\<rparr>) \<noteq> 0"
proof -
  have ids: "parse_identifier_set (ge_denylist demo_tree) = Inr [''acme north'']" by code_simp
  have git: "ge_git demo_tree [''git'', ''ls-files'', ''-z''] = Ran (''docs/a.md'' @ [CHR 0x00])" by (simp add: demo_tree_def)
  have "scan_text (''the ACME'' @ [CHR 0x0A] @ ''-north plant'') [''acme north''] \<noteq> []" by code_simp
  then have "\<exists>i \<in> set [''acme north'']. occurs i (''the ACME'' @ [CHR 0x0A] @ ''-north plant'')"
    unfolding scan_denylist [OF ids] by blast
  moreover have "\<not> is_binary (take SNIFF_LEN ''the ACME'')" by code_simp
  ultimately have kept: "\<not> cleared [''acme north''] (ge_files demo_tree ''docs/a.md'')"
    by (simp add: cleared_def demo_tree_def)
  have path: "''docs/a.md'' \<in> set (split_on (CHR 0x00) (''docs/a.md'' @ [CHR 0x00]))" "\<not> skipped_path ''docs/a.md''"
    by code_simp+
  show ?thesis unfolding gate_passes_iff [OF ids _ git, simplified] using kept path by auto
qed

subsection \<open>Messages\<close>

lemma message_report_Nil: "message_report ids m = [] \<longleftrightarrow> scan_text (snd m) ids = []"
  by (simp add: message_report_def report_message_violations_def split: list.split)

text \<open>
  The gate on messages.  With a denylist that holds an identifier, the hook for a commit
  message lets it pass exactly when the message can be read and its lines that do not start with a
  number sign spell none; the hook for a push lets the range pass exactly when git lists its
  commits and the message of none of them spells one, comment lines included.
\<close>

theorem messages_pass_iff:
  assumes "parse_identifier_set (ge_denylist E) = Inr ids" and "ids \<noteq> []"
  shows "(fst (gate_main E \<lparr>ga_staged = staged, ga_message_file = Some path, ga_rev_range = other\<rparr>) = 0 \<longleftrightarrow>
      (\<exists>body. ge_message E path = Inr body \<and> \<not> (\<exists>i \<in> set ids. occurs i (kept_lines body))))
    \<and> (fst (gate_main E \<lparr>ga_staged = staged, ga_message_file = None, ga_rev_range = Some revs\<rparr>) = 0 \<longleftrightarrow>
      (\<exists>ms. collect_range_messages (ge_git E) revs = Inr ms \<and> \<not> (\<exists>m \<in> set ms. \<exists>i \<in> set ids. occurs i (snd m))))"
proof
  note resolve = resolve_usable [OF assms] and scan = scan_denylist [OF assms(1)]
  show "fst (gate_main E \<lparr>ga_staged = staged, ga_message_file = Some path, ga_rev_range = other\<rparr>) = 0 \<longleftrightarrow>
      (\<exists>body. ge_message E path = Inr body \<and> \<not> (\<exists>i \<in> set ids. occurs i (kept_lines body)))"
  proof (cases "ge_message E path")
    case (Inr body)
    then show ?thesis using scan [of "kept_lines body"]
      by (cases "scan_text (kept_lines body) ids") (simp_all add: gate_code run_gate_def scan_message_file_def resolve)
  qed (simp add: gate_code run_gate_def scan_message_file_def resolve)
  show "fst (gate_main E \<lparr>ga_staged = staged, ga_message_file = None, ga_rev_range = Some revs\<rparr>) = 0 \<longleftrightarrow>
      (\<exists>ms. collect_range_messages (ge_git E) revs = Inr ms \<and> \<not> (\<exists>m \<in> set ms. \<exists>i \<in> set ids. occurs i (snd m)))"
    by (cases "collect_range_messages (ge_git E) revs")
      (auto simp: gate_code run_gate_def scan_rev_range_def resolve Let_def list_all_iff message_report_Nil scan)
qed

theorem messages_pass_iff_witness:
  "fst (gate_main (demo_tree\<lparr>ge_message := \<lambda>_. Inr ''# Acme North''\<rparr>)
     \<lparr>ga_staged = False, ga_message_file = Some ''m'', ga_rev_range = None\<rparr>) = 0"
proof -
  let ?E = "demo_tree\<lparr>ge_message := \<lambda>_. Inr ''# Acme North''\<rparr>"
  have ids: "parse_identifier_set (ge_denylist ?E) = Inr [''acme north'']" by code_simp
  have "scan_text (kept_lines ''# Acme North'') [''acme north''] = []" by code_simp
  then have "\<not> (\<exists>i \<in> set [''acme north'']. occurs i (kept_lines ''# Acme North''))" unfolding scan_denylist [OF ids] .
  then show ?thesis using messages_pass_iff [OF ids, of False "''m''" None] by simp
qed

subsection \<open>Where the gate lets something through\<close>

text \<open>The backslash of a Windows account is an escape to the denylist's parser, and a number sign
  starts a comment within an identifier too: what is looked for is not what was listed.\<close>

lemma backslash_account_passes:
  "parse_identifier_set (''WORK'' @ [CHR 0x5C] @ ''svc-wake'') = Inr [''worksvc-wake'']"
  "scan_text (''run as WORK'' @ [CHR 0x5C] @ ''svc-wake'') [''worksvc-wake''] = []"
  by code_simp+

lemma number_sign_cuts: "parse_identifier_set ''ab#acme-north'' = Inr []"
  by code_simp

text \<open>A file whose first bytes hold a zero without a byte order mark is passed unread.\<close>

lemma zero_byte_clears: "cleared ids (Stored (Some ([CHR 0x00] @ content)) read_text)"
  by (simp add: cleared_def is_binary_def sniff_encoding_def SNIFF_LEN_def startswith_def)

text \<open>The replacement rules keep the quotes that mark a phrase, so they match no unquoted spelling.\<close>

lemma replacement_keeps_quotes:
  "replacement_rules ([CHR 0x22] @ ''Acme North'' @ [CHR 0x22])
     = [[CHR 0x22] @ ''Acme North'' @ [CHR 0x22] @ ''==>REDACTED'']"
  by code_simp

end
