(* ===== verification/Plumbing.thy ===== *)
theory Plumbing
  imports Identifiers Config
begin

section \<open>The guard of a push (\<open>scripts/check_publication_plumbing.py\<close>)\<close>

text \<open>
  Before a push the script compares the remote, the authors and the visibility with what the
  repository declares of itself.  The parsed declaration, what git and the GitHub client answer
  and whether they are installed are arguments.
\<close>

subsection \<open>The declaration\<close>

datatype visibility = Private_until_review | Public_repository

definition visibility_values :: "string list" where
  "visibility_values = [''private-until-review'', ''public'']"

definition visibility_of :: "string \<Rightarrow> visibility option" where
  "visibility_of v =
     (if v = ''private-until-review'' then Some Private_until_review
      else if v = ''public'' then Some Public_repository else None)"

record publication =
  de_remote_owner :: string
  de_author_emails :: "string list"
  de_visibility :: visibility

text \<open>\<open>publication.toml\<close> is absent, cannot be read or parsed, is not UTF-8, or holds a table.\<close>

datatype toml_file = Undeclared | Unparsed string | Undecodable | Toml dict

text \<open>What ends the guard early: a \<open>PlumbingError\<close>, or an exception nothing catches.\<close>

datatype guard_failure = Plumbing_error string | Traceback exn

definition DECLARATION_FILENAME :: string where "DECLARATION_FILENAME = ''publication.toml''"

definition missing_keys :: "dict \<Rightarrow> string list" where
  "missing_keys section = filter (\<lambda>k. \<not> has_key section k) [''remote_owner'', ''author_email'', ''visibility'']"

definition declared_authors :: "pyval \<Rightarrow> string list" where
  "declared_authors raw = (case raw of VList xs \<Rightarrow> map py_str xs | v \<Rightarrow> [py_str v])"

definition read_section :: "dict \<Rightarrow> guard_failure + publication" where
  "read_section section =
     (let raw_visibility = py_str (getv section ''visibility''); authors = declared_authors (getv section ''author_email'') in
      if missing_keys section \<noteq> []
      then Inl (Plumbing_error (DECLARATION_FILENAME @ '' [publication] is missing: '' @ join '', '' (missing_keys section)))
      else (case visibility_of raw_visibility of
              None \<Rightarrow>
                Inl (Plumbing_error (DECLARATION_FILENAME @ '' declares visibility='' @ repr_str raw_visibility
                  @ ''; expected one of '' @ py_repr (VList (map VStr visibility_values))))
            | Some v \<Rightarrow>
                if authors = [] \<or> list_ex (\<lambda>a. strip a = []) authors
                then Inl (Plumbing_error (DECLARATION_FILENAME
                       @ '' author_email must be a non-empty address or list of addresses''))
                else Inr \<lparr>de_remote_owner = py_str (getv section ''remote_owner''), de_author_emails = authors,
                          de_visibility = v\<rparr>))"

definition load_declaration :: "toml_file \<Rightarrow> guard_failure + publication option" where
  "load_declaration f =
     (case f of
        Undeclared \<Rightarrow> Inr None
      | Unparsed e \<Rightarrow> Inl (Plumbing_error (DECLARATION_FILENAME @ '' could not be parsed: '' @ e))
      | Undecodable \<Rightarrow> Inl (Traceback UnicodeDecodeError)
      | Toml raw \<Rightarrow>
          (case getv raw ''publication'' of
             VDict section \<Rightarrow> map_sum id Some (read_section section)
           | _ \<Rightarrow> Inl (Plumbing_error (DECLARATION_FILENAME @ '' has no [publication] table''))))"

subsection \<open>The remote\<close>

text \<open>
  The regular expression \<open>[:/]([^/:]+)/([^/]+?)(?:\.git)?/?$\<close>, searched from the left: the owner runs
  to the next slash; the name is what follows without one slash at the end and without \<open>.git\<close>, and
  must hold no other slash.
\<close>

definition repo_name :: "string \<Rightarrow> string option" where
  "repo_name r =
     (let b = (if r \<noteq> [] \<and> last r = CHR ''/'' then butlast r else r) in
      if b = [] \<or> CHR ''/'' \<in> set b then None
      else Some (if 4 < length b \<and> drop (length b - 4) b = ''.git'' then take (length b - 4) b else b))"

definition owner_char :: "char \<Rightarrow> bool" where
  "owner_char c \<longleftrightarrow> c \<noteq> CHR ''/'' \<and> c \<noteq> CHR '':''"

definition remote_at :: "string \<Rightarrow> (string \<times> string) option" where
  "remote_at s =
     (case (takeWhile owner_char s, dropWhile owner_char s) of
        (c # cs, d # rest) \<Rightarrow> if d = CHR ''/'' then map_option (Pair (c # cs)) (repo_name rest) else None
      | _ \<Rightarrow> None)"

fun search_remote :: "string \<Rightarrow> (string \<times> string) option" where
  "search_remote [] = None"
| "search_remote (c # s) =
     (if \<not> owner_char c \<and> remote_at s \<noteq> None then remote_at s else search_remote s)"

definition parse_remote_owner :: "string \<Rightarrow> string option" where
  "parse_remote_owner url = map_option fst (search_remote (strip url))"

definition parse_remote_repo :: "string \<Rightarrow> string option" where
  "parse_remote_repo url = map_option snd (search_remote (strip url))"

subsection \<open>git and the GitHub client\<close>

record push_env =
  pe_git_found :: bool
  pe_git :: git
  pe_gh :: "string \<Rightarrow> pyval option"
  pe_toml :: "string \<Rightarrow> toml_file"

text \<open>\<open>pe_gh\<close> gives the document the client prints, or nothing when the client is missing, fails, takes too
  long or prints no JSON.\<close>

definition git_output :: "push_env \<Rightarrow> string list \<Rightarrow> string \<Rightarrow> guard_failure + string" where
  "git_output P args base =
     (if \<not> pe_git_found P then Inl (Plumbing_error ''git is not available on PATH'')
      else (case pe_git P ([''-C'', base] @ args) of
              Ran out \<Rightarrow> Inr (strip out)
            | Exited n err \<Rightarrow>
                Inl (Plumbing_error (''git '' @ join '' '' args @ '' failed: exit '' @ int_str n @ '': '' @ strip err))
            | Not_run e \<Rightarrow> Inl (Plumbing_error (''could not run git: '' @ e))))"

definition author_emails_in_range :: "push_env \<Rightarrow> string \<Rightarrow> string option \<Rightarrow> guard_failure + string list" where
  "author_emails_in_range P base rev_range =
     map_sum id (\<lambda>out. sort (remdups (filter (\<lambda>l. l \<noteq> []) (map strip (splitlines out)))))
       (git_output P ([''log'', ''--format=%ae'']
          @ (case rev_range of Some (c # cs) \<Rightarrow> py_split (c # cs) | _ \<Rightarrow> [''-1''])) base)"

definition remote_visibility :: "push_env \<Rightarrow> string \<Rightarrow> string \<Rightarrow> guard_failure + string option" where
  "remote_visibility P owner repo =
     (case pe_gh P (owner @ ''/'' @ repo) of
        None \<Rightarrow> Inr None
      | Some (VDict payload) \<Rightarrow>
          (let v = getv payload ''visibility'' in Inr (if truthy v then Some (py_upper (py_str v)) else None))
      | Some _ \<Rightarrow> Inl (Traceback AttributeError))"

subsection \<open>The check\<close>

text \<open>The refusals and what is printed before them.\<close>

definition owner_problems :: "publication \<Rightarrow> string \<Rightarrow> string list" where
  "owner_problems d url =
     (case parse_remote_owner url of
        None \<Rightarrow> [''could not parse an owner from the push URL '' @ repr_str url
                  @ ''; refusing rather than guessing. Expected a GitHub https or ssh remote.'']
      | Some owner \<Rightarrow>
          if str_lower owner \<noteq> str_lower (de_remote_owner d)
          then [''remote owner mismatch: pushing to '' @ repr_str owner @ '' but '' @ DECLARATION_FILENAME @ '' declares ''
                @ repr_str (de_remote_owner d)
                @ ''. If the new remote is intended, update the declaration in the same commit.'']
          else [])"

definition unexpected_authors :: "publication \<Rightarrow> string list \<Rightarrow> string list" where
  "unexpected_authors d emails =
     filter (\<lambda>e. str_lower e \<notin> set (map str_lower (de_author_emails d))) emails"

definition author_problems :: "publication \<Rightarrow> string list \<Rightarrow> string list" where
  "author_problems d emails =
     (case unexpected_authors d emails of
        [] \<Rightarrow> []
      | es \<Rightarrow> [''author identity mismatch: '' @ join '', '' es @ '' in the commits being pushed, but '' @ DECLARATION_FILENAME
               @ '' declares '' @ join '', '' (map repr_str (de_author_emails d))
               @ ''. Fix with: git commit --amend --reset-author (or rebase to correct history). If the identity is ''
               @ ''legitimate, add it to author_email.''])"

definition actual_visibility :: "push_env \<Rightarrow> string \<Rightarrow> guard_failure + string option" where
  "actual_visibility P url =
     (case (parse_remote_owner url, parse_remote_repo url) of
        (Some (c # owner), Some (r # repo)) \<Rightarrow> remote_visibility P (c # owner) (r # repo)
      | _ \<Rightarrow> Inr None)"

definition visibility_problems :: "push_env \<Rightarrow> publication \<Rightarrow> string \<Rightarrow> guard_failure + string list \<times> string list" where
  "visibility_problems P d url =
     (case de_visibility d of
        Public_repository \<Rightarrow> Inr ([], [])
      | Private_until_review \<Rightarrow>
          map_sum id (\<lambda>actual.
            case actual of
              None \<Rightarrow> ([], [''publication plumbing guard: could not verify remote visibility (gh unavailable or call failed). ''
                          @ ''The declaration says private-until-review; verify by hand before publishing.''])
            | Some v \<Rightarrow>
                (if v = ''PRIVATE'' then []
                 else [''visibility mismatch: '' @ DECLARATION_FILENAME @ '' declares private-until-review but the remote is '' @ v
                       @ ''. Either make the remote private again, or -- if a publication review has cleared it -- set ''
                       @ ''visibility = '' @ [CHR 0x22] @ ''public'' @ [CHR 0x22] @ '' in the declaration.''], []))
            (actual_visibility P url))"

definition check_push :: "push_env \<Rightarrow> string \<Rightarrow> string \<Rightarrow> string option \<Rightarrow> guard_failure + string list \<times> string list" where
  "check_push P base url rev_range =
     (case load_declaration (pe_toml P base) of
        Inl e \<Rightarrow> Inl e
      | Inr None \<Rightarrow>
          Inr ([], [''publication plumbing guard: no '' @ DECLARATION_FILENAME
                    @ '' in this repo; skipping (CI remains the hard gate).''])
      | Inr (Some d) \<Rightarrow>
          (case author_emails_in_range P base rev_range of
             Inl e \<Rightarrow> Inl e
           | Inr emails \<Rightarrow>
               map_sum id (\<lambda>(problems, out). (owner_problems d url @ author_problems d emails @ problems, out))
                 (visibility_problems P d url)))"

definition find_root :: "push_env \<Rightarrow> string \<Rightarrow> string option \<Rightarrow> guard_failure + string" where
  "find_root P cwd repo_root =
     (case repo_root of Some (c # cs) \<Rightarrow> Inr (c # cs) | _ \<Rightarrow> git_output P [''rev-parse'', ''--show-toplevel''] cwd)"

text \<open>The exit code and the standard error; an exception that nothing catches is the left of the sum.\<close>

definition plumbing_main ::
  "push_env \<Rightarrow> string \<Rightarrow> string \<Rightarrow> string option \<Rightarrow> string option \<Rightarrow> exn + nat \<times> string list" where
  "plumbing_main P cwd url rev_range repo_root =
     (case (case find_root P cwd repo_root of Inl e \<Rightarrow> Inl e | Inr base \<Rightarrow> check_push P base url rev_range) of
        Inl (Plumbing_error m) \<Rightarrow> Inr (1, [''publication plumbing guard could not complete: '' @ m])
      | Inl (Traceback e) \<Rightarrow> Inl e
      | Inr ([], out) \<Rightarrow> Inr (0, out)
      | Inr (problems, out) \<Rightarrow>
          Inr (1, out @ [''Push refused by the publication plumbing guard:''] @ map (\<lambda>p. ''  - '' @ p) problems
             @ [CHR 0x0A # ''This guard prevents accidents (wrong remote, wrong identity, unreviewed visibility); it is ''
                @ ''not a security boundary. Override with git push --no-verify only if you are certain.'']))"

end
