(* ===== verification/Plumbing_Props.thy ===== *)
theory Plumbing_Props
  imports Plumbing
begin

section \<open>What the push guard lets pass\<close>

subsection \<open>The remote\<close>

lemma repo_name_shape:
  assumes "repo \<noteq> []" and "CHR ''/'' \<notin> set repo" and "\<not> (\<exists>r. repo = r @ ''.git'')"
    and "tail \<in> {[], ''/'', ''.git'', ''.git/''}"
  shows "repo_name (repo @ tail) = Some repo"
proof -
  have "last repo \<noteq> CHR ''/''" using assms(1,2) by (metis last_in_set)
  moreover have "\<not> (4 < length repo \<and> drop (length repo - 4) repo = ''.git'')"
    using assms(3) by (metis append_take_drop_id)
  ultimately show ?thesis
    using assms(1,2,4) by (auto simp: repo_name_def butlast_append)
qed

lemma remote_at_shape:
  assumes "owner \<noteq> []" and "list_all owner_char owner"
  shows "remote_at (owner @ CHR ''/'' # rest) = map_option (Pair owner) (repo_name rest)"
  using assms by (cases owner) (auto simp: remote_at_def owner_char_def takeWhile_append dropWhile_append list_all_iff)

text \<open>No earlier place matches: its owner would end before, with a slash within what is left.\<close>

lemma repo_name_slash: "repo_name (a @ CHR ''/'' # b) = None" if "b \<noteq> []"
  using that by (auto simp: repo_name_def butlast_append split: if_splits)

lemma remote_before:
  assumes "owner \<noteq> []" and "repo \<noteq> []" and "\<not> owner_char c"
  shows "remote_at (pre @ c # owner @ CHR ''/'' # repo) = None"
proof (cases "list_all owner_char pre")
  case True
  then have "takeWhile owner_char (pre @ c # owner @ CHR ''/'' # repo) = pre"
    "dropWhile owner_char (pre @ c # owner @ CHR ''/'' # repo) = c # owner @ CHR ''/'' # repo"
    using assms(3) by (simp_all add: takeWhile_append dropWhile_append list_all_iff)
  then show ?thesis using repo_name_slash [OF assms(2), of owner] by (simp add: remote_at_def split: list.split)
next
  case False
  define d where "d = dropWhile owner_char pre"
  have "d \<noteq> []" using False by (auto simp: d_def list_all_iff)
  then obtain e d' where d: "d = e # d'" by (cases d) auto
  have "dropWhile owner_char (pre @ c # owner @ CHR ''/'' # repo) = d @ c # owner @ CHR ''/'' # repo"
    using False by (auto simp: d_def dropWhile_append list_all_iff)
  then show ?thesis
    using repo_name_slash [OF assms(2), of "d' @ c # owner"] d by (simp add: remote_at_def split: list.split)
qed

lemma search_before:
  assumes "owner \<noteq> []" and "repo \<noteq> []" and "\<not> owner_char c" and "remote_at (owner @ CHR ''/'' # repo) = Some r"
  shows "search_remote (pre @ c # owner @ CHR ''/'' # repo) = Some r"
  using remote_before [OF assms(1-3)] assms(3,4) by (induction pre) auto

text \<open>
  The owner and the name are found in a remote URL.  Whatever stands before the slash or
  the colon that precedes the owner, and whether or not the URL ends in \<open>.git\<close> or a slash, the guard
  reads the owner and the repository that the last two components name.
\<close>

theorem remote_read_back:
  assumes "strip url = pre @ c # owner @ ''/'' @ repo @ tail" and "c = CHR ''/'' \<or> c = CHR '':''"
    and "owner \<noteq> []" and "list_all owner_char owner"
    and "repo \<noteq> []" and "CHR ''/'' \<notin> set repo" and "\<not> (\<exists>r. repo = r @ ''.git'')"
    and "tail \<in> {[], ''/'', ''.git'', ''.git/''}"
  shows "parse_remote_owner url = Some owner \<and> parse_remote_repo url = Some repo"
proof -
  have "remote_at (owner @ CHR ''/'' # repo @ tail) = Some (owner, repo)"
    using assms remote_at_shape repo_name_shape by simp
  moreover have "\<not> owner_char c" using assms(2) by (auto simp: owner_char_def)
  ultimately have "search_remote (pre @ c # owner @ CHR ''/'' # repo @ tail) = Some (owner, repo)"
    using search_before assms(3,5) by simp
  then show ?thesis by (simp add: parse_remote_owner_def parse_remote_repo_def assms(1))
qed

theorem remote_read_back_witness:
  "parse_remote_owner ''git@github.com:hraedon/agent-wake.git'' = Some ''hraedon''
    \<and> parse_remote_repo ''git@github.com:hraedon/agent-wake.git'' = Some ''agent-wake''"
proof (rule remote_read_back [of _ "''git@github.com''" "CHR '':''" "''hraedon''" "''agent-wake''" "''.git''"])
  show "strip ''git@github.com:hraedon/agent-wake.git'' = ''git@github.com'' @ CHR '':'' # ''hraedon'' @ ''/'' @ ''agent-wake'' @ ''.git''"
    by code_simp
  show "\<not> (\<exists>r. ''agent-wake'' = r @ ''.git'')"
  proof
    assume "\<exists>r. ''agent-wake'' = r @ ''.git''"
    then obtain r where "''agent-wake'' = r @ ''.git''" ..
    from arg_cong [OF this, of last] show False by simp
  qed
qed (code_simp | simp)+

subsection \<open>The guard\<close>

definition matches_declaration :: "push_env \<Rightarrow> publication \<Rightarrow> string \<Rightarrow> string list \<Rightarrow> bool" where
  "matches_declaration P d url emails \<longleftrightarrow>
     (\<exists>owner. parse_remote_owner url = Some owner \<and> str_lower owner = str_lower (de_remote_owner d))
     \<and> \<not> (\<exists>e \<in> set emails. str_lower e \<notin> str_lower ` set (de_author_emails d))
     \<and> (de_visibility d = Public_repository \<or> actual_visibility P url \<in> {Inr None, Inr (Some ''PRIVATE'')})"

lemma no_owner_problems:
  "owner_problems d url = [] \<longleftrightarrow>
     (\<exists>owner. parse_remote_owner url = Some owner \<and> str_lower owner = str_lower (de_remote_owner d))"
  by (simp add: owner_problems_def split: option.split)

lemma no_author_problems:
  "author_problems d emails = [] \<longleftrightarrow> \<not> (\<exists>e \<in> set emails. str_lower e \<notin> str_lower ` set (de_author_emails d))"
proof -
  have "author_problems d emails = [] \<longleftrightarrow> unexpected_authors d emails = []"
    by (simp add: author_problems_def split: list.split)
  then show ?thesis by (auto simp: unexpected_authors_def filter_empty_conv)
qed

lemma no_visibility_problems:
  "(\<exists>out. visibility_problems P d url = Inr ([], out)) \<longleftrightarrow>
     de_visibility d = Public_repository \<or> actual_visibility P url \<in> {Inr None, Inr (Some ''PRIVATE'')}"
  by (cases "de_visibility d"; cases "actual_visibility P url")
    (auto simp: visibility_problems_def split: option.splits if_splits)

lemma guard_code:
  "(\<exists>out. plumbing_main P cwd url rev_range repo_root = Inr (0, out)) \<longleftrightarrow>
     (\<exists>base out. find_root P cwd repo_root = Inr base \<and> check_push P base url rev_range = Inr ([], out))"
  by (simp add: plumbing_main_def split: sum.split guard_failure.split prod.split list.split)

text \<open>
  Claim C28: the push guard.  It lets a push pass exactly when the root of the repository is found and either
  nothing is declared or the declaration and the authors of the commits can be read, the owner in the remote
  is the declared one, every author is declared, and the repository is declared public, or private until its
  review with a remote that is private or whose visibility cannot be determined.
\<close>

theorem push_passes_iff:
  "(\<exists>out. plumbing_main P cwd url rev_range repo_root = Inr (0, out)) \<longleftrightarrow>
     (\<exists>base. find_root P cwd repo_root = Inr base
        \<and> (load_declaration (pe_toml P base) = Inr None
           \<or> (\<exists>d emails. load_declaration (pe_toml P base) = Inr (Some d)
                \<and> author_emails_in_range P base rev_range = Inr emails \<and> matches_declaration P d url emails)))"
proof -
  have "(\<exists>out. check_push P base url rev_range = Inr ([], out)) \<longleftrightarrow>
      load_declaration (pe_toml P base) = Inr None
      \<or> (\<exists>d emails. load_declaration (pe_toml P base) = Inr (Some d)
           \<and> author_emails_in_range P base rev_range = Inr emails \<and> matches_declaration P d url emails)" for base
  proof (cases "\<exists>d emails. load_declaration (pe_toml P base) = Inr (Some d) \<and> author_emails_in_range P base rev_range = Inr emails")
    case True
    then obtain d emails where
      d: "load_declaration (pe_toml P base) = Inr (Some d)" "author_emails_in_range P base rev_range = Inr emails" by blast
    show ?thesis
      using no_visibility_problems [of P d url]
      by (cases "visibility_problems P d url")
        (auto simp: check_push_def d matches_declaration_def no_owner_problems no_author_problems)
  next
    case False
    then show ?thesis by (auto simp: check_push_def split: sum.splits option.splits)
  qed
  then show ?thesis unfolding guard_code by blast
qed

text \<open>A declared owner and author; the visibility of the remote cannot be determined.\<close>

definition demo_push :: push_env where
  "demo_push = \<lparr>pe_git_found = True, pe_git = (\<lambda>_. Ran ''me@x''), pe_gh = (\<lambda>_. None),
     pe_toml = (\<lambda>_. Toml [(''publication'', VDict [(''remote_owner'', VStr ''hraedon''), (''author_email'', VStr ''me@x''),
        (''visibility'', VStr ''private-until-review'')])])\<rparr>"

definition demo_declaration :: publication where
  "demo_declaration = \<lparr>de_remote_owner = ''hraedon'', de_author_emails = [''me@x''], de_visibility = Private_until_review\<rparr>"

lemma demo_push_reads:
  "find_root demo_push [] (Some ''/r'') = Inr ''/r''"
  "load_declaration (pe_toml demo_push ''/r'') = Inr (Some demo_declaration)"
  "author_emails_in_range demo_push ''/r'' None = Inr [''me@x'']"
  "parse_remote_owner ''git@github.com:hraedon/agent-wake.git'' = Some ''hraedon''"
  "parse_remote_owner ''git@github.com:mallory/agent-wake.git'' = Some ''mallory''"
  "actual_visibility demo_push ''git@github.com:hraedon/agent-wake.git'' = Inr None"
  "str_lower ''hraedon'' \<noteq> str_lower ''mallory''"
  by code_simp+

theorem push_passes_iff_witness:
  "(\<exists>out. plumbing_main demo_push [] ''git@github.com:hraedon/agent-wake.git'' None (Some ''/r'') = Inr (0, out))
   \<and> \<not> (\<exists>out. plumbing_main demo_push [] ''git@github.com:mallory/agent-wake.git'' None (Some ''/r'') = Inr (0, out))"
proof -
  have "matches_declaration demo_push demo_declaration ''git@github.com:hraedon/agent-wake.git'' [''me@x'']"
    "\<not> matches_declaration demo_push demo_declaration ''git@github.com:mallory/agent-wake.git'' [''me@x'']"
    using demo_push_reads(7) by (simp_all add: matches_declaration_def demo_push_reads(4-6)) (simp_all add: demo_declaration_def)
  then show ?thesis unfolding push_passes_iff demo_push_reads(1) by (auto simp: demo_push_reads(2,3))
qed

text \<open>The owner is compared, the host is not: a namesake's remote elsewhere passes, and the visibility is
  asked of GitHub's repository of that name.\<close>

lemma other_host_passes:
  "parse_remote_owner ''https://example.com/mirror/hraedon/agent-wake'' = Some ''hraedon''"
  by code_simp

end
