(* ===== verification/Instance_Lock.thy ===== *)
theory Instance_Lock
  imports Prelude
begin

section \<open>One daemon per socket (\<open>socket_server.py\<close>)\<close>

text \<open>
  \<open>SocketServer.start\<close> takes an advisory lock beside the socket, removes a socket left behind and binds
  its own; \<open>close\<close> stops listening and removes the socket but keeps the lock until the process ends.
  The host is the state: who holds the lock, whose socket the path names, who runs, who listens,
  and who has started its server and not ended yet, be it that it finishes its shutdown.  What the kernel answers to \<open>unlink\<close> and \<open>bind\<close> are arguments.
\<close>

record host =
  ho_lock :: "nat option"
  ho_path :: "nat option"
  ho_running :: "nat set"
  ho_listening :: "nat set"
  ho_started :: "nat set"

record kernel =
  kn_unlink :: "string option"
  kn_bind :: "string option"

text \<open>A \<open>RuntimeError\<close> or the error of \<open>bind\<close> is the left of the sum; \<open>main\<close> then ends the process.\<close>

definition start_socket :: "string \<Rightarrow> kernel \<Rightarrow> nat \<Rightarrow> host \<Rightarrow> (string + unit) \<times> host" where
  "start_socket path K pid H =
     (if ho_lock H \<noteq> None
      then (Inl (''another agent-waked instance holds '' @ path @ ''.lock; exiting''), H)
      else
        (let H1 = H\<lparr>ho_lock := Some pid\<rparr> in
         case (ho_path H1, kn_unlink K) of
           (Some _, Some e) \<Rightarrow> (Inl (''cannot remove stale socket '' @ path @ '': '' @ e), H1)
         | _ \<Rightarrow>
             (let H2 = H1\<lparr>ho_path := None\<rparr> in
              case kn_bind K of
                Some e \<Rightarrow> (Inl e, H2)
              | None \<Rightarrow> (Inr (), H2\<lparr>ho_path := Some pid, ho_listening := insert pid (ho_listening H2),
                                      ho_started := insert pid (ho_started H2)\<rparr>))))"

text \<open>An error of \<open>unlink\<close> is swallowed here.\<close>

definition close_socket :: "kernel \<Rightarrow> nat \<Rightarrow> host \<Rightarrow> host" where
  "close_socket K pid H =
     (let H1 = H\<lparr>ho_listening := ho_listening H - {pid}\<rparr> in
      if kn_unlink K = None then H1\<lparr>ho_path := None\<rparr> else H1)"

text \<open>The end of a process, orderly or not: the kernel drops its lock and its listener, the path stays.\<close>

definition process_ends :: "nat \<Rightarrow> host \<Rightarrow> host" where
  "process_ends pid H =
     H\<lparr>ho_lock := (if ho_lock H = Some pid then None else ho_lock H),
       ho_running := ho_running H - {pid}, ho_listening := ho_listening H - {pid},
       ho_started := ho_started H - {pid}\<rparr>"

text \<open>A process starts the server once, closes it when it has started it, and ends at any time; one whose
  start was refused only ends.\<close>

inductive host_step :: "host \<Rightarrow> host \<Rightarrow> bool" where
  starts: "pid \<notin> ho_running H \<Longrightarrow> start_socket path K pid H = (r, H')
             \<Longrightarrow> host_step H (H'\<lparr>ho_running := insert pid (ho_running H')\<rparr>)"
| closes: "pid \<in> ho_listening H \<Longrightarrow> host_step H (close_socket K pid H)"
| ends: "host_step H (process_ends pid H)"

definition new_host :: host where
  "new_host = \<lparr>ho_lock = None, ho_path = None, ho_running = {}, ho_listening = {}, ho_started = {}\<rparr>"

inductive host_reachable :: "host \<Rightarrow> bool" where
  new: "host_reachable new_host"
| step: "host_reachable H \<Longrightarrow> host_step H H' \<Longrightarrow> host_reachable H'"

subsection \<open>Invariant\<close>

text \<open>Who has started holds the lock, who listens has started, who holds the lock runs, and the path of a listener is its own.\<close>

definition host_ok :: "host \<Rightarrow> bool" where
  "host_ok H \<longleftrightarrow>
     (\<forall>p \<in> ho_listening H. p \<in> ho_started H \<and> ho_path H = Some p)
     \<and> (\<forall>p \<in> ho_started H. ho_lock H = Some p)
     \<and> (\<forall>p. ho_lock H = Some p \<longrightarrow> p \<in> ho_running H)"

lemma start_keeps:
  assumes "host_ok H" and "start_socket path K pid H = (r, H')"
  shows "host_ok (H'\<lparr>ho_running := insert pid (ho_running H')\<rparr>)"
proof (cases "ho_lock H")
  case None
  then have "ho_started H = {}" "ho_listening H = {}" using assms(1) by (auto simp: host_ok_def)
  then show ?thesis
    using assms(2) None by (auto simp: host_ok_def start_socket_def Let_def split: option.splits)
next
  case (Some p)
  then show ?thesis using assms by (auto simp: host_ok_def start_socket_def)
qed

lemma host_step_keeps: "host_step H H' \<Longrightarrow> host_ok H \<Longrightarrow> host_ok H'"
proof (induction rule: host_step.induct)
  case (starts pid H path K r H')
  then show ?case using start_keeps by blast
next
  case (closes pid H K)
  have "p = pid" if "p \<in> ho_started H" for p
    using closes that unfolding host_ok_def by (metis option.inject)
  with closes have started: "ho_started H = {pid}" "ho_listening H = {pid}" by (auto simp: host_ok_def)
  then have "ho_lock H = Some pid" "pid \<in> ho_running H" using closes(2) by (simp_all add: host_ok_def)
  then show ?case by (simp add: host_ok_def close_socket_def started Let_def)
qed (auto simp: host_ok_def process_ends_def)

lemma reachable_host_ok: "host_reachable H \<Longrightarrow> host_ok H"
proof (induction rule: host_reachable.induct)
  case new
  show ?case by (simp add: host_ok_def new_host_def)
next
  case (step H H')
  then show ?case using host_step_keeps by blast
qed



end
