(* ===== verification/Drain_Window.thy ===== *)
theory Drain_Window
  imports Ingest
begin

section \<open>The windows of the shutdown (\<open>ingest.py\<close>, \<open>main.py\<close>)\<close>

text \<open>
  The cleanup hook of the ingest application waits for the human deliveries in flight until a deadline
  and then cancels those that are left and waits for them once more.  A task is registered at some time and
  is done at a later one, or never; cancelled, it ends some time after that, or never (\<open>dt_cancel\<close>); times
  are exact.  The loop looks again after every wait, so a task that is registered while it waits is
  waited for as well.
\<close>

definition DELIVERY_DRAIN_TIMEOUT :: pytime where "DELIVERY_DRAIN_TIMEOUT = 3"
definition HANDLER_GRACE :: pytime where "HANDLER_GRACE = 2"

definition DRAIN_TIMEOUT :: pytime where
  "DRAIN_TIMEOUT = HANDLER_GRACE + DELIVERY_DRAIN_TIMEOUT + FORCE_DRAIN_TIMEOUT + 1"

record delivery_task =
  dt_registered :: pytime
  dt_done :: "pytime option"
  dt_cancel :: "pytime option"

definition unfinished :: "pytime \<Rightarrow> delivery_task \<Rightarrow> bool" where
  "unfinished t k = (case dt_done k of None \<Rightarrow> True | Some d \<Rightarrow> t < d)"

definition in_flight_tasks :: "delivery_task list \<Rightarrow> pytime \<Rightarrow> delivery_task list" where
  "in_flight_tasks ks t = filter (\<lambda>k. dt_registered k \<le> t \<and> unfinished t k) ks"

text \<open>\<open>asyncio.wait(pending, timeout=remaining)\<close> returns when all of them are done or the time is up.\<close>

fun all_done_at :: "pytime \<Rightarrow> delivery_task list \<Rightarrow> pytime option" where
  "all_done_at t [] = Some t"
| "all_done_at t (k # ks) =
     (case (dt_done k, all_done_at t ks) of (Some d, Some e) \<Rightarrow> Some (max d e) | _ \<Rightarrow> None)"

definition wait_until :: "pytime \<Rightarrow> delivery_task list \<Rightarrow> pytime \<Rightarrow> pytime" where
  "wait_until deadline pending t =
     (case all_done_at t pending of Some d \<Rightarrow> min d deadline | None \<Rightarrow> deadline)"

lemma all_done_later: "all_done_at t ks = Some e \<Longrightarrow> t \<le> e \<and> (\<forall>k \<in> set ks. \<exists>d. dt_done k = Some d \<and> d \<le> e)"
  by (induction ks arbitrary: e) (fastforce split: option.splits)+

lemma wait_until_later: "t \<le> deadline \<Longrightarrow> t \<le> wait_until deadline pending t \<and> wait_until deadline pending t \<le> deadline"
  using all_done_later by (auto simp: wait_until_def split: option.split)

definition drain_measure :: "pytime \<Rightarrow> delivery_task list \<Rightarrow> pytime \<Rightarrow> nat" where
  "drain_measure deadline ks t = length (filter (unfinished t) ks) + (if t < deadline then 1 else 0)"

lemma unfinished_later: "s \<le> t \<Longrightarrow> unfinished t k \<Longrightarrow> unfinished s k"
  by (auto simp: unfinished_def split: option.splits)

lemma fewer_unfinished: "s \<le> t \<Longrightarrow> length (filter (unfinished t) ks) \<le> length (filter (unfinished s) ks)"
  by (induction ks) (auto dest: unfinished_later)

lemma fewer_after_done:
  assumes "k \<in> set ks" and "unfinished s k" and "\<not> unfinished t k" and "s \<le> t"
  shows "length (filter (unfinished t) ks) < length (filter (unfinished s) ks)"
  using assms(1)
proof (induction ks)
  case (Cons l ls)
  show ?case
  proof (cases "k = l")
    case True
    then show ?thesis using assms fewer_unfinished [OF assms(4), of ls] by simp
  next
    case False
    then show ?thesis using Cons unfinished_later [OF assms(4), of l] by auto
  qed
qed simp

lemma drain_decreases:
  assumes "in_flight_tasks ks t \<noteq> []" and "t < deadline"
  shows "drain_measure deadline ks (wait_until deadline (in_flight_tasks ks t) t) < drain_measure deadline ks t"
proof -
  let ?u = "wait_until deadline (in_flight_tasks ks t) t"
  have u: "t \<le> ?u" "?u \<le> deadline" using wait_until_later assms(2) by (simp_all add: less_imp_le)
  show ?thesis
  proof (cases "?u = deadline")
    case True
    then show ?thesis using fewer_unfinished [OF u(1), of ks] assms(2) by (simp add: drain_measure_def)
  next
    case False
    then obtain e where e: "all_done_at t (in_flight_tasks ks t) = Some e" "?u = e"
      by (auto simp: wait_until_def min_def split: option.splits if_splits)
    obtain k where k: "k \<in> set (in_flight_tasks ks t)" using assms(1) by (cases "in_flight_tasks ks t") auto
    then have "\<not> unfinished ?u k" using all_done_later [OF e(1)] e(2) by (auto simp: unfinished_def)
    then have "length (filter (unfinished ?u) ks) < length (filter (unfinished t) ks)"
      using fewer_after_done [OF _ _ _ u(1)] k by (auto simp: in_flight_tasks_def)
    then show ?thesis using assms(2) False u(2) by (simp add: drain_measure_def)
  qed
qed

text \<open>The time the loop ends at and the tasks it leaves to be cancelled.\<close>

function wait_loop :: "pytime \<Rightarrow> delivery_task list \<Rightarrow> pytime \<Rightarrow> pytime \<times> delivery_task list" where
  "wait_loop deadline ks t =
     (let pending = in_flight_tasks ks t in
      if pending = [] then (t, [])
      else if deadline - t \<le> 0 then (t, pending)
      else wait_loop deadline ks (wait_until deadline pending t))"
  by pat_completeness auto
termination
  by (relation "measure (\<lambda>(deadline, ks, t). drain_measure deadline ks t)") (auto simp: drain_decreases)

declare wait_loop.simps [simp del]

definition drain_delivery_tasks :: "delivery_task list \<Rightarrow> pytime \<Rightarrow> pytime \<times> delivery_task list" where
  "drain_delivery_tasks ks t = wait_loop (t + DELIVERY_DRAIN_TIMEOUT) ks t"

text \<open>
  \<open>force_drain_delivery_tasks\<close> on the tasks that are left: each is cancelled, and the wait ends when all of them
  are done or its timeout is over.  The survivors are those not done then.
\<close>

definition cancelled :: "pytime \<Rightarrow> delivery_task \<Rightarrow> delivery_task" where
  "cancelled t k = k\<lparr>dt_done := map_option (\<lambda>d. t + d) (dt_cancel k)\<rparr>"

definition force_wait :: "delivery_task list \<Rightarrow> pytime \<Rightarrow> pytime \<times> delivery_task list" where
  "force_wait pending t =
     (if pending = [] then (t, [])
      else let ks = map (cancelled t) pending; e = wait_until (t + FORCE_DRAIN_TIMEOUT) ks t
           in (e, filter (unfinished e) ks))"

text \<open>The whole hook: the time it ends at, the tasks it cancelled, and those that survived that.\<close>

definition drain_hook :: "delivery_task list \<Rightarrow> pytime \<Rightarrow> pytime \<times> delivery_task list \<times> delivery_task list" where
  "drain_hook ks t =
     (case drain_delivery_tasks ks t of
        (e, pending) \<Rightarrow> (case force_wait pending e of (u, survivors) \<Rightarrow> (u, pending, survivors)))"

subsection \<open>Properties\<close>

lemma wait_loop_spec:
  "t \<le> deadline \<Longrightarrow> wait_loop deadline ks t = (e, left) \<Longrightarrow>
     t \<le> e \<and> e \<le> deadline \<and> left = in_flight_tasks ks e \<and> (left \<noteq> [] \<longrightarrow> e = deadline)"
proof (induction deadline ks t rule: wait_loop.induct)
  case (1 deadline ks t)
  let ?pending = "in_flight_tasks ks t"
  show ?case
  proof (cases "?pending = [] \<or> deadline \<le> t")
    case True
    then have "wait_loop deadline ks t = (t, ?pending)" by (auto simp: wait_loop.simps [of deadline ks t] Let_def)
    then show ?thesis using 1(2,3) True by auto
  next
    case False
    have later: "t \<le> wait_until deadline ?pending t" "wait_until deadline ?pending t \<le> deadline"
      using wait_until_later 1(2) by blast+
    have "wait_loop deadline ks (wait_until deadline ?pending t) = (e, left)"
      using 1(3) False by (simp add: wait_loop.simps [of deadline ks t])
    then show ?thesis using 1(1) [OF HOL.refl] False later by force
  qed
qed

text \<open>The survivors are the tasks whose cancellation takes longer than the timeout.\<close>

lemma force_wait_spec:
  "\<exists>u. force_wait pending t = (u, filter (unfinished u) (map (cancelled t) pending)) \<and> t \<le> u \<and> u \<le> t + FORCE_DRAIN_TIMEOUT
     \<and> (\<forall>k \<in> set pending. unfinished u (cancelled t k) \<longleftrightarrow> \<not> ends_in_time (dt_cancel k))"
proof (cases "pending = []")
  case True
  then show ?thesis by (simp add: force_wait_def FORCE_DRAIN_TIMEOUT_def)
next
  case False
  let ?ks = "map (cancelled t) pending" and ?b = "t + FORCE_DRAIN_TIMEOUT"
  let ?u = "wait_until ?b ?ks t"
  have b: "t \<le> ?b" by (simp add: FORCE_DRAIN_TIMEOUT_def)
  have slow: "unfinished ?b (cancelled t k) \<longleftrightarrow> \<not> ends_in_time (dt_cancel k)" for k
    by (simp add: unfinished_def cancelled_def ends_in_time_def not_le split: option.split)
  have "unfinished ?u (cancelled t k) = unfinished ?b (cancelled t k)" if "k \<in> set pending" for k
  proof (cases "all_done_at t ?ks")
    case None
    then show ?thesis by (simp add: wait_until_def)
  next
    case (Some e)
    from all_done_later [OF Some] that obtain d where "dt_done (cancelled t k) = Some d" "d \<le> e" by auto
    with Some show ?thesis by (auto simp: wait_until_def unfinished_def min_def)
  qed
  with slow have "\<forall>k \<in> set pending. unfinished ?u (cancelled t k) \<longleftrightarrow> \<not> ends_in_time (dt_cancel k)" by simp
  with False wait_until_later [OF b, of ?ks] show ?thesis
    by (simp add: force_wait_def Let_def)
qed

text \<open>
  Claim C11: no delivery is overlooked when the daemon stops, and the windows nest.  The hook waits at most
  three seconds; the tasks it then cancels are exactly those that are registered and not done, also those
  registered while it waited, and it cancels some only when the three seconds are over.  It waits at
  most two seconds more, and leaves behind exactly the cancelled tasks that need longer to end.  So a hook
  that starts within the handlers' grace after the cleanup began ends before the time
  \<open>wait_for\<close> gives the whole cleanup.  (That \<open>aiohttp\<close> starts it by then is its documented behaviour,
  not part of the model.)
\<close>

theorem drain_overlooks_nothing:
  assumes "t \<le> s + HANDLER_GRACE"
  shows "\<exists>e u survivors. drain_hook ks t = (u, in_flight_tasks ks e, survivors)
     \<and> t \<le> e \<and> e \<le> t + DELIVERY_DRAIN_TIMEOUT \<and> (in_flight_tasks ks e = [] \<or> e = t + DELIVERY_DRAIN_TIMEOUT)
     \<and> survivors = map (cancelled e) (filter (\<lambda>k. \<not> ends_in_time (dt_cancel k)) (in_flight_tasks ks e))
     \<and> e \<le> u \<and> u \<le> e + FORCE_DRAIN_TIMEOUT \<and> u < s + DRAIN_TIMEOUT"
proof -
  obtain e left where run: "wait_loop (t + DELIVERY_DRAIN_TIMEOUT) ks t = (e, left)" by fastforce
  have "t \<le> t + DELIVERY_DRAIN_TIMEOUT" by (simp add: DELIVERY_DRAIN_TIMEOUT_def)
  from wait_loop_spec [OF this] run have drained: "drain_delivery_tasks ks t = (e, in_flight_tasks ks e)" "t \<le> e"
    "e \<le> t + DELIVERY_DRAIN_TIMEOUT" "in_flight_tasks ks e = [] \<or> e = t + DELIVERY_DRAIN_TIMEOUT"
    by (auto simp: drain_delivery_tasks_def)
  obtain u where u: "force_wait (in_flight_tasks ks e) e = (u, filter (unfinished u) (map (cancelled e) (in_flight_tasks ks e)))"
    "e \<le> u" "u \<le> e + FORCE_DRAIN_TIMEOUT"
    "\<forall>k \<in> set (in_flight_tasks ks e). unfinished u (cancelled e k) \<longleftrightarrow> \<not> ends_in_time (dt_cancel k)"
    using force_wait_spec by blast
  have "filter (unfinished u) (map (cancelled e) (in_flight_tasks ks e))
      = map (cancelled e) (filter (\<lambda>k. \<not> ends_in_time (dt_cancel k)) (in_flight_tasks ks e))"
    using u(4) by (simp add: filter_map comp_def cong: filter_cong)
  moreover have "u < s + DRAIN_TIMEOUT"
    using assms drained(3) u(3) by (simp add: DRAIN_TIMEOUT_def)
  ultimately show ?thesis using drained u(1-3)
    by (intro exI [of _ e] exI [of _ u]) (simp add: drain_hook_def)
qed

text \<open>A delivery that comes in late and does not end by itself, but does when it is cancelled.\<close>

theorem drain_overlooks_nothing_witness:
  "\<exists>u. drain_hook [\<lparr>dt_registered = 2, dt_done = None, dt_cancel = Some 1\<rparr>, \<lparr>dt_registered = 0, dt_done = Some 3, dt_cancel = None\<rparr>] 2
     = (u, [\<lparr>dt_registered = 2, dt_done = None, dt_cancel = Some 1\<rparr>], []) \<and> u < DRAIN_TIMEOUT"
proof -
  let ?a = "\<lparr>dt_registered = 2, dt_done = None, dt_cancel = Some 1\<rparr>"
  let ?ks = "[?a, \<lparr>dt_registered = 0, dt_done = Some 3, dt_cancel = None\<rparr>]"
  have "(2 :: pytime) \<le> 0 + HANDLER_GRACE" by (simp add: HANDLER_GRACE_def)
  from drain_overlooks_nothing [OF this, of ?ks] obtain e u survivors where
    h: "drain_hook ?ks 2 = (u, in_flight_tasks ?ks e, survivors)" "2 \<le> e"
    "in_flight_tasks ?ks e = [] \<or> e = 2 + DELIVERY_DRAIN_TIMEOUT"
    "survivors = map (cancelled e) (filter (\<lambda>k. \<not> ends_in_time (dt_cancel k)) (in_flight_tasks ?ks e))"
    "u < 0 + DRAIN_TIMEOUT" by blast
  have "?a \<in> set (in_flight_tasks ?ks e)" using h(2) by (simp add: in_flight_tasks_def unfinished_def)
  then have e: "e = 2 + DELIVERY_DRAIN_TIMEOUT" using h(3) by auto
  then have "in_flight_tasks ?ks e = [?a]" by (simp add: in_flight_tasks_def unfinished_def DELIVERY_DRAIN_TIMEOUT_def)
  with h show ?thesis by (auto simp: ends_in_time_def FORCE_DRAIN_TIMEOUT_def)
qed

end
