(* ===== verification/Plugin_Paths.thy ===== *)
theory Plugin_Paths
  imports Harness
begin

section \<open>Finding the plugins of the harnesses (\<open>cli/install_harness.py\<close>)\<close>

text \<open>
  The installer takes opencode's plugin and the Hermes plugin from the place an environment variable
  names, else from the source tree, else from the shared install location.  What is on the disk is
  an argument: which paths are files, which directories, and the files of a directory.
\<close>

record places =
  pl_environ :: "string \<Rightarrow> string option"
  pl_expanduser :: "string \<Rightarrow> string"
  pl_repo :: string
  pl_home :: string
  pl_is_file :: "string \<Rightarrow> bool"
  pl_is_dir :: "string \<Rightarrow> bool"

text \<open>\<open>Path.suffix\<close> is \<open>.js\<close>: the name ends so, and is more than that.\<close>

definition is_js :: "string \<Rightarrow> bool" where
  "is_js p = (let name = rev (takeWhile (\<lambda>c. c \<noteq> CHR ''/'') (rev p)) in
     3 < length name \<and> drop (length name - 3) name = ''.js'')"

definition opencode_candidates :: "places \<Rightarrow> string list" where
  "opencode_candidates P =
     [pl_repo P @ ''/adapters/opencode/dist/index.js'',
      pl_home P @ ''/.local/share/agent-wake/opencode/dist/index.js'']"

definition first_place :: "(string \<Rightarrow> bool) \<Rightarrow> string list \<Rightarrow> string option" where
  "first_place ok ps = (case filter ok ps of [] \<Rightarrow> None | p # _ \<Rightarrow> Some p)"

definition find_opencode_plugin_path :: "places \<Rightarrow> string option" where
  "find_opencode_plugin_path P =
     (case pl_environ P ''AGENT_WAKE_OPENCODE_PLUGIN'' of
        Some (c # cs) \<Rightarrow>
          (let p = pl_expanduser P (c # cs) in if pl_is_file P p \<and> is_js p then Some p else None)
      | _ \<Rightarrow> first_place (\<lambda>p. pl_is_file P p \<or> pl_is_dir P p) (opencode_candidates P))"

definition is_hermes_plugin :: "places \<Rightarrow> string \<Rightarrow> bool" where
  "is_hermes_plugin P p \<longleftrightarrow>
     pl_is_dir P p \<and> list_all (\<lambda>f. pl_is_file P (p @ ''/'' @ f)) PLUGIN_FILES"

definition hermes_candidates :: "places \<Rightarrow> string list" where
  "hermes_candidates P =
     [pl_repo P @ ''/adapters/hermes'', pl_home P @ ''/.local/share/agent-wake/hermes'']"

definition find_hermes_plugin_source :: "places \<Rightarrow> string option" where
  "find_hermes_plugin_source P =
     (case pl_environ P ''AGENT_WAKE_HERMES_PLUGIN'' of
        Some (c # cs) \<Rightarrow>
          (let p = pl_expanduser P (c # cs) in if is_hermes_plugin P p then Some p else None)
      | _ \<Rightarrow> first_place (is_hermes_plugin P) (hermes_candidates P))"

lemma first_place_mem: "first_place ok ps = Some p \<Longrightarrow> p \<in> set ps \<and> ok p"
  using filter_eq_ConsD [of ok ps p] by (auto simp: first_place_def split: list.splits)

text \<open>
  The operator's choice is final: when the variable is set, the installer wires the file it names or
  none, never another copy; and what it wires exists.
\<close>

theorem operator_choice_final:
  assumes "pl_environ P ''AGENT_WAKE_OPENCODE_PLUGIN'' = Some chosen" and "chosen \<noteq> []"
  shows "find_opencode_plugin_path P
    = (if pl_is_file P (pl_expanduser P chosen) \<and> is_js (pl_expanduser P chosen) then Some (pl_expanduser P chosen) else None)"
  using assms by (cases chosen) (auto simp: find_opencode_plugin_path_def Let_def)

theorem operator_choice_final_witness:
  "find_opencode_plugin_path
     \<lparr>pl_environ = (\<lambda>_. Some ''/opt/plugin''), pl_expanduser = id, pl_repo = ''/r'', pl_home = ''/h'',
      pl_is_file = (\<lambda>_. True), pl_is_dir = (\<lambda>_. False)\<rparr> = None"
proof -
  have "\<not> is_js ''/opt/plugin''" by code_simp
  then show ?thesis by (subst operator_choice_final [of _ "''/opt/plugin''"]) simp_all
qed

lemma hermes_source_complete:
  assumes "find_hermes_plugin_source P = Some p"
  shows "is_hermes_plugin P p"
  using assms by (auto simp: find_hermes_plugin_source_def Let_def dest: first_place_mem split: option.splits list.splits if_splits)

end
