(* ===== verification/Sessions.thy ===== *)
theory Sessions
  imports Prelude
begin

section \<open>The HTTP sessions of the daemon (\<open>outbox.py\<close>, \<open>channels/webhook.py\<close>, \<open>delivery.py\<close>)\<close>

text \<open>
  The outbox opens one client session when it starts; the webhook channel opens one when a delivery
  needs it and has none that is open.  \<open>HumanDelivery.close\<close> closes its channels one by one and goes
  on when one of them raises.  Sessions are numbered; a session that is not open is closed.
\<close>

record sessions =
  ss_next :: nat
  ss_open :: "nat set"
  ss_outbox :: "nat option"
  ss_webhook :: "nat option"

definition open_session :: "sessions \<Rightarrow> nat \<times> sessions" where
  "open_session S = (ss_next S, S\<lparr>ss_next := Suc (ss_next S), ss_open := insert (ss_next S) (ss_open S)\<rparr>)"

definition outbox_start :: "sessions \<Rightarrow> sessions" where
  "outbox_start S = (case open_session S of (n, S') \<Rightarrow> S'\<lparr>ss_outbox := Some n\<rparr>)"

definition outbox_close :: "sessions \<Rightarrow> sessions" where
  "outbox_close S =
     (case ss_outbox S of
        None \<Rightarrow> S
      | Some n \<Rightarrow> S\<lparr>ss_open := ss_open S - {n}, ss_outbox := None\<rparr>)"

definition ensure_session :: "sessions \<Rightarrow> nat \<times> sessions" where
  "ensure_session S =
     (case ss_webhook S of
        Some n \<Rightarrow>
          if n \<in> ss_open S then (n, S)
          else (case open_session S of (m, S') \<Rightarrow> (m, S'\<lparr>ss_webhook := Some m\<rparr>))
      | None \<Rightarrow> (case open_session S of (m, S') \<Rightarrow> (m, S'\<lparr>ss_webhook := Some m\<rparr>)))"

definition webhook_close :: "sessions \<Rightarrow> sessions" where
  "webhook_close S =
     (case ss_webhook S of
        Some n \<Rightarrow> if n \<in> ss_open S then S\<lparr>ss_open := ss_open S - {n}, ss_webhook := None\<rparr> else S
      | None \<Rightarrow> S)"

text \<open>A channel is its name and what its \<open>close\<close> does: the sessions afterwards and whether it raised.\<close>

type_synonym channel_close = "sessions \<Rightarrow> bool \<times> sessions"

definition registered_channels :: "(string \<times> channel_close) list" where
  "registered_channels = [(''webhook'', \<lambda>S. (False, webhook_close S)), (''email'', \<lambda>S. (False, S))]"

fun delivery_close :: "(string \<times> channel_close) list \<Rightarrow> sessions \<Rightarrow> sessions" where
  "delivery_close [] S = S"
| "delivery_close ((name, close) # cs) S = (case close S of (raised, S') \<Rightarrow> delivery_close cs S')"

text \<open>The daemon starts the outbox once, delivers, and on shutdown closes the outbox and the channels.\<close>

inductive session_step :: "sessions \<Rightarrow> sessions \<Rightarrow> bool" where
  start: "ss_outbox S = None \<Longrightarrow> session_step S (outbox_start S)"
| deliver: "session_step S (snd (ensure_session S))"
| drop: "session_step S (S\<lparr>ss_open := ss_open S - {n}\<rparr>)"
| close_outbox: "session_step S (outbox_close S)"
| close_delivery: "session_step S (delivery_close registered_channels S)"

definition no_sessions :: sessions where
  "no_sessions = \<lparr>ss_next = 0, ss_open = {}, ss_outbox = None, ss_webhook = None\<rparr>"

inductive sessions_reachable :: "sessions \<Rightarrow> bool" where
  none: "sessions_reachable no_sessions"
| step: "sessions_reachable S \<Longrightarrow> session_step S S' \<Longrightarrow> sessions_reachable S'"

text \<open>Every open session has a holder, and the two holders do not share one.\<close>

definition held :: "sessions \<Rightarrow> bool" where
  "held S \<longleftrightarrow> ss_open S \<subseteq> set_option (ss_outbox S) \<union> set_option (ss_webhook S)
     \<and> (\<forall>n \<in> ss_open S \<union> set_option (ss_outbox S) \<union> set_option (ss_webhook S). n < ss_next S)
     \<and> set_option (ss_outbox S) \<inter> set_option (ss_webhook S) = {}"

lemma session_step_held: "session_step S S' \<Longrightarrow> held S \<Longrightarrow> held S'"
proof (induction rule: session_step.induct)
  case (start S)
  then show ?case by (auto simp: held_def outbox_start_def open_session_def)
next
  case (deliver S)
  then show ?case
    by (cases "ss_webhook S"; cases "ss_outbox S") (auto simp: held_def ensure_session_def open_session_def)
next
  case (close_outbox S)
  then show ?case by (cases "ss_outbox S") (auto simp: held_def outbox_close_def)
next
  case (close_delivery S)
  then show ?case
    by (cases "ss_webhook S") (auto simp: held_def registered_channels_def webhook_close_def)
qed (auto simp: held_def)

lemma reachable_held: "sessions_reachable S \<Longrightarrow> held S"
proof (induction rule: sessions_reachable.induct)
  case none
  show ?case by (simp add: held_def no_sessions_def)
next
  case (step S S')
  then show ?case using session_step_held by blast
qed

text \<open>
  No session outlives the daemon.  Whatever was started, delivered, dropped by a peer and closed before,
  when the shutdown has closed the outbox and the channels, no session is open.
\<close>

theorem shutdown_closes_sessions:
  assumes "sessions_reachable S"
  shows "ss_open (delivery_close registered_channels (outbox_close S)) = {}"
proof -
  have "held S" by (rule reachable_held [OF assms])
  then show ?thesis
    by (cases "ss_outbox S"; cases "ss_webhook S")
      (auto simp: held_def outbox_close_def registered_channels_def webhook_close_def)
qed

theorem shutdown_closes_sessions_witness:
  "ss_open (delivery_close registered_channels (outbox_close (snd (ensure_session (outbox_start no_sessions))))) = {}"
proof (rule shutdown_closes_sessions)
  have "sessions_reachable (outbox_start no_sessions)"
    by (rule sessions_reachable.step [OF sessions_reachable.none session_step.start]) (simp add: no_sessions_def)
  then show "sessions_reachable (snd (ensure_session (outbox_start no_sessions)))"
    by (rule sessions_reachable.step) (rule session_step.deliver)
qed

text \<open>A channel that raises does not keep the others open.\<close>

lemma raising_channel_passed_over:
  "delivery_close (cs @ (name, \<lambda>S. (True, S)) # ds) S = delivery_close (cs @ ds) S"
  by (induction cs arbitrary: S) (auto split: prod.split)

end
