(* ===== verification/Replay_Props.thy ===== *)
theory Replay_Props
  imports Ingest_Props
begin

section \<open>At most once, over any run of requests\<close>

text \<open>
  An admitted id stays in the replay window while fewer than the window's capacity of further signed
  requests come in and, with the durable window, while their times are within its time to live.
  Unsigned requests never touch the window, however many there are.
\<close>

subsection \<open>The durable window over a sweep\<close>

lemma sorted_three:
  "sorted (map f xs) \<Longrightarrow> xs = filter (\<lambda>y. f y < k) xs @ filter (\<lambda>y. f y = k) xs @ filter (\<lambda>y. k < f y) xs"
  for f :: "'a \<Rightarrow> 'k :: linorder"
proof (induction xs)
  case (Cons x xs)
  then have above: "\<forall>y \<in> set xs. f x \<le> f y" and IH: "xs = filter (\<lambda>y. f y < k) xs @ filter (\<lambda>y. f y = k) xs @ filter (\<lambda>y. k < f y) xs"
    by auto
  consider "f x < k" | "f x = k" | "k < f x" by (metis linorder_less_linear)
  then show ?case
  proof cases
    case 2
    then have "filter (\<lambda>y. f y < k) xs = []" using above by (auto simp: filter_empty_conv not_less)
    with 2 IH show ?thesis by simp
  next
    case 3
    then have "filter (\<lambda>y. f y < k) xs = []" "filter (\<lambda>y. f y = k) xs = []"
      using above by (force simp: filter_empty_conv)+
    with 3 IH show ?thesis by simp
  qed (use IH in auto)
qed simp

text \<open>A stable sort puts behind an element at most what stands behind it, if nothing before it is later.\<close>

lemma sort_key_behind:
  fixes f :: "'a \<Rightarrow> 'k :: linorder"
  assumes "\<forall>y \<in> set older. f y \<le> f x"
  obtains A B where "sort_key f (older @ x # newer) = A @ x # B" "length B \<le> length newer"
proof -
  let ?S = "sort_key f (older @ x # newer)"
  let ?M = "filter (\<lambda>y. f y = f x)"
  have three: "?S = filter (\<lambda>y. f y < f x) ?S @ ?M ?S @ filter (\<lambda>y. f x < f y) ?S"
    by (rule sorted_three) simp
  have eq: "?M ?S = ?M older @ x # ?M newer"
    using sort_key_stable [of f "f x" "older @ x # newer"] by simp
  have "filter (\<lambda>y. f x < f y) older = []" using assms by (auto simp: filter_empty_conv not_less)
  then have later: "length (filter (\<lambda>y. f x < f y) ?S) = length (filter (\<lambda>y. f x < f y) newer)"
    by (simp add: filter_sort)
  have "length (?M newer) + length (filter (\<lambda>y. f x < f y) newer) \<le> length newer"
    by (induction newer) auto
  with later have "length (?M newer @ filter (\<lambda>y. f x < f y) ?S) \<le> length newer" by simp
  with that [of "filter (\<lambda>y. f y < f x) ?S @ ?M older" "?M newer @ filter (\<lambda>y. f x < f y) ?S"] three eq
  show thesis by (metis append.assoc append_Cons)
qed

text \<open>The row of an id in the table, with at most \<open>n\<close> rows put in after it.\<close>

definition row_kept :: "string \<Rightarrow> pytime \<Rightarrow> nat \<Rightarrow> dedupe_row list \<Rightarrow> bool" where
  "row_kept s t n rows \<longleftrightarrow> (\<exists>older x newer. rows = older @ x # newer \<and> dd_event_id x = Some s \<and> dd_seen_at x = t
     \<and> (\<forall>y \<in> set older. dd_seen_at y \<le> t) \<and> Some s \<notin> dd_event_id ` set (older @ newer) \<and> length newer \<le> n)"

lemma row_kept_known: "row_kept s t n (st_dedupe st) \<Longrightarrow> dedupe_known (Some s) st"
  by (force simp: row_kept_def dedupe_known_def)

lemma row_kept_filter:
  assumes "row_kept s t n rows" and "\<And>y. dd_event_id y = Some s \<Longrightarrow> dd_seen_at y = t \<Longrightarrow> Q y"
  shows "row_kept s t n (filter Q rows)"
proof -
  obtain older x newer where r: "rows = older @ x # newer" "dd_event_id x = Some s" "dd_seen_at x = t"
    "\<forall>y \<in> set older. dd_seen_at y \<le> t" "Some s \<notin> dd_event_id ` set (older @ newer)" "length newer \<le> n"
    using assms(1) by (auto simp: row_kept_def)
  have "filter Q rows = filter Q older @ x # filter Q newer" using assms(2) r by simp
  moreover have "length (filter Q newer) \<le> n" using le_trans [OF length_filter_le r(6)] .
  ultimately show ?thesis using r(2-5) unfolding row_kept_def
    by (intro exI [of _ "filter Q older"] exI [of _ x] exI [of _ "filter Q newer"]) auto
qed

lemma row_kept_cap:
  assumes "row_kept s t n rows" and "int n < cap"
  shows "row_kept s t n (dedupe_sweep_cap cap rows)"
proof -
  obtain older x newer where r: "rows = older @ x # newer" "dd_event_id x = Some s" "dd_seen_at x = t"
    "\<forall>y \<in> set older. dd_seen_at y \<le> t" "Some s \<notin> dd_event_id ` set (older @ newer)" "length newer \<le> n"
    using assms(1) by (auto simp: row_kept_def)
  obtain A B where S: "sort_key dd_seen_at rows = A @ x # B" "length B \<le> length newer"
    using sort_key_behind [of older dd_seen_at x newer] r by metis
  let ?k = "nat (int (length rows) - cap)"
  let ?P = "\<lambda>y. dd_event_id y = Some s"
  have "filter ?P older = []" "filter ?P newer = []" using r(5) by (force simp: filter_empty_conv image_iff)+
  then have "filter ?P rows = [x]" using r(1,2) by simp
  then have "filter ?P (sort_key dd_seen_at rows) = [x]" by (simp add: filter_sort)
  then have "filter ?P A = []" unfolding S(1) using r(2) by (cases "filter ?P A") auto
  then have no: "Some s \<notin> dd_event_id ` set A" by (auto simp: filter_empty_conv)
  have "length rows = length A + Suc (length B)" using arg_cong [OF S(1), of length] by simp
  then have "?k \<le> length A" using S(2) r(6) assms(2) by simp
  then have "take ?k (sort_key dd_seen_at rows) = take ?k A" by (simp add: S(1))
  then have "Some s \<notin> set (map dd_event_id (take ?k (sort_key dd_seen_at rows)))"
    using no set_take_subset [of ?k A] by auto
  then have "row_kept s t n (filter (\<lambda>r. dd_event_id r = None
      \<or> dd_event_id r \<notin> set (map dd_event_id (take ?k (sort_key dd_seen_at rows)))) rows)"
    by (intro row_kept_filter [OF assms(1)]) (simp del: set_map)
  then show ?thesis using assms(1) unfolding dedupe_sweep_cap_def Let_def by simp
qed

lemma row_kept_check:
  assumes "row_kept s t n (st_dedupe (dedupe_insert now eid src st))" and "int n < dedupe_max_rows st"
    and "now - dedupe_ttl st \<le> t"
  shows "row_kept s t n (st_dedupe (snd (check_and_record_event u now eid src st)))"
proof -
  let ?st = "dedupe_insert now eid src st"
  have lim: "dedupe_ttl ?st = dedupe_ttl st" "dedupe_max_rows ?st = dedupe_max_rows st"
    by (simp_all add: dedupe_insert_def)
  have "row_kept s t n (dedupe_sweep_ttl now ?st)"
    unfolding dedupe_sweep_ttl_def lim by (rule row_kept_filter [OF assms(1)]) (use assms(3) in simp)
  then have "row_kept s t n (dedupe_sweep_cap (dedupe_max_rows st) (dedupe_sweep_ttl now ?st))"
    by (rule row_kept_cap [OF _ assms(2)])
  with assms(1) show ?thesis by (simp add: check_and_record_event_def Let_def prune_fields lim)
qed

lemma row_kept_more:
  assumes "row_kept s t n (st_dedupe st)"
  shows "row_kept s t (Suc n) (st_dedupe (dedupe_insert now eid src st))"
proof -
  obtain older x newer where r: "st_dedupe st = older @ x # newer" "dd_event_id x = Some s" "dd_seen_at x = t"
    "\<forall>y \<in> set older. dd_seen_at y \<le> t" "Some s \<notin> dd_event_id ` set (older @ newer)" "length newer \<le> n"
    using assms by (auto simp: row_kept_def)
  show ?thesis
  proof (cases "dedupe_known eid st")
    case True
    then show ?thesis using r by (auto simp: row_kept_def dedupe_insert_def intro!: exI [of _ older])
  next
    case False
    then have "eid \<noteq> Some s" using row_kept_known [OF assms] by auto
    have "st_dedupe (dedupe_insert now eid src st)
        = older @ x # newer @ [\<lparr>dd_event_id = eid, dd_source = src, dd_seen_at = now\<rparr>]"
      using False r(1) by (simp add: dedupe_insert_def)
    with r \<open>eid \<noteq> Some s\<close> show ?thesis unfolding row_kept_def
      by (intro exI [of _ older] exI [of _ x] exI [of _ "newer @ [\<lparr>dd_event_id = eid, dd_source = src, dd_seen_at = now\<rparr>]"]) auto
  qed
qed

lemma row_kept_new:
  assumes "\<not> dedupe_known (Some s) st" and "clock_ok now st"
  shows "row_kept s now 0 (st_dedupe (dedupe_insert now (Some s) src st))"
  using assms by (auto simp: row_kept_def dedupe_insert_def dedupe_known_def clock_ok_def intro!: exI [of _ "st_dedupe st"])


subsection \<open>The in-memory window over a check\<close>

definition id_kept :: "string \<Rightarrow> nat \<Rightarrow> fifo \<Rightarrow> bool" where
  "id_kept s n f \<longleftrightarrow> wf_fifo f \<and> (\<exists>older newer. f_order f = older @ VStr s # newer \<and> length newer \<le> n)"

lemma id_kept_seen: "id_kept s n f \<Longrightarrow> VStr s \<in> f_seen f"
  unfolding id_kept_def wf_fifo_def by (elim exE conjE) simp

lemma id_kept_check:
  assumes "id_kept s n f" and "Suc n < f_max f"
  shows "id_kept s (Suc n) (snd (fifo_check e f))"
proof (cases "e \<in> f_seen f")
  case True
  with assms(1) show ?thesis by (auto simp: fifo_check_def id_kept_def le_Suc_eq)
next
  case False
  obtain older newer where o: "f_order f = older @ VStr s # newer" "length newer \<le> n"
    using assms(1) by (auto simp: id_kept_def)
  have wf: "wf_fifo f" using assms(1) by (simp add: id_kept_def)
  have order: "f_order (snd (fifo_check e f)) = deque_append (f_max f) e (f_order f)"
    by (simp add: fifo_check_new [OF wf False])
  have "\<exists>older' newer'. deque_append (f_max f) e (f_order f) = older' @ VStr s # newer' \<and> length newer' \<le> Suc n"
  proof (cases older)
    case Nil
    then have "length (f_order f) < f_max f" using o assms(2) by simp
    with Nil o show ?thesis by (intro exI [of _ "[]"] exI [of _ "newer @ [e]"]) (simp add: deque_append_def)
  next
    case (Cons y ys)
    then have "deque_append (f_max f) e (f_order f) = (if length (f_order f) < f_max f then older else ys) @ VStr s # newer @ [e]"
      using o by (simp add: deque_append_def)
    with o show ?thesis by (intro exI [of _ "if length (f_order f) < f_max f then older else ys"] exI [of _ "newer @ [e]"]) simp
  qed
  with wf_fifo_check [OF wf] order show ?thesis by (simp add: id_kept_def)
qed

lemma id_kept_new:
  assumes "wf_fifo f" and "VStr s \<notin> f_seen f"
  shows "id_kept s 0 (snd (fifo_check (VStr s) f))"
proof -
  have "f_order (snd (fifo_check (VStr s) f)) = deque_append (f_max f) (VStr s) (f_order f)"
    by (simp add: fifo_check_new [OF assms])
  moreover have "\<exists>older. deque_append (f_max f) (VStr s) (f_order f) = older @ [VStr s]"
    using assms(1) by (cases "f_order f") (auto simp: deque_append_def wf_fifo_def)
  ultimately show ?thesis using wf_fifo_check [OF assms(1), of "VStr s"] by (auto simp: id_kept_def)
qed

subsection \<open>The window over a request\<close>

definition dedupe_window :: "store \<Rightarrow> dedupe_row list \<times> rat \<times> int" where
  "dedupe_window st = (st_dedupe st, dedupe_ttl st, dedupe_max_rows st)"

definition window_of :: "ingest \<Rightarrow> (dedupe_row list \<times> rat \<times> int) option \<times> fifo" where
  "window_of I = (map_option dedupe_window (r_store (i_router I)), i_fifo I)"

lemma undeliverable_window:
  "map_option dedupe_window (r_store (snd (undeliverable now event d R))) = map_option dedupe_window (r_store R)"
  by (auto simp: undeliverable_def note_queued_without_delivery_def enqueue_pending_def Let_def dedupe_window_def
      split: option.split prod.split bool.split)

lemma undeliverable_all_window:
  "map_option dedupe_window (r_store (snd (undeliverable_all now event ns R))) = map_option dedupe_window (r_store R)"
  by (induction ns arbitrary: R) (simp_all add: case_prod_beta undeliverable_window)

lemma deliver_window:
  "map_option dedupe_window (r_store (snd (deliver u link now event R))) = map_option dedupe_window (r_store R)"
  by (auto simp: deliver_def Let_def case_prod_beta undeliverable_window undeliverable_all_window router_simps
      split: sum.split)

lemma window_of_gated [simp]: "window_of (gated B S n I) = window_of I"
  by (simp add: window_of_def)

text \<open>A request leaves the window as it is, or it is signed and the window is what its one check leaves.\<close>

lemma route_event_window:
  assumes "route_event P T rq event I = (a, I')"
  shows "window_of I' = window_of I
    \<or> window_of I' = window_of (snd (dedupe_check P (t_dedupe T) (event_key event) (rq_source rq) I))"
proof -
  note run = assms [unfolded route_event_def Let_def event_key_def [symmetric]]
  obtain dup I1 where d: "dedupe_check P (t_dedupe T) (event_key event) (rq_source rq) I = (dup, I1)"
    by (metis surj_pair)
  have disp: "i_router (snd (dispatch ev (event_key event) (rq_source rq) I1)) = i_router I1"
    "i_fifo (snd (dispatch ev (event_key event) (rq_source rq) I1)) = i_fifo I1" for ev
    using dispatch_cases [of ev "event_key event" "rq_source rq" I1] by (metis surj_pair snd_conv)+
  show ?thesis
    using run d
    by (auto simp: case_prod_beta window_of_def deliver_window disp split: sum.splits bool.splits prod.splits)
qed

text \<open>The id of \<open>s\<close>, recorded at time \<open>t\<close>, has at most \<open>n\<close> younger ones in the window.\<close>

definition id_remembered :: "string \<Rightarrow> pytime \<Rightarrow> nat \<Rightarrow> ingest \<Rightarrow> bool" where
  "id_remembered s t n I \<longleftrightarrow>
     (case r_store (i_router I) of
        Some st \<Rightarrow> row_kept s t n (st_dedupe st)
      | None \<Rightarrow> id_kept s n (i_fifo I))"

text \<open>\<open>n\<close> ids more fit into the window, and at the times \<open>Ts\<close> an id recorded at \<open>t\<close> is not yet too old.\<close>

definition within_window :: "pytime \<Rightarrow> clocks list \<Rightarrow> nat \<Rightarrow> ingest \<Rightarrow> bool" where
  "within_window t Ts n I \<longleftrightarrow>
     (case r_store (i_router I) of
        Some st \<Rightarrow> int n < dedupe_max_rows st \<and> (\<forall>T \<in> set Ts. t_dedupe T \<le> t + dedupe_ttl st)
      | None \<Rightarrow> n < f_max (i_fifo I))"

lemma id_remembered_in_window: "id_remembered s t n I \<Longrightarrow> in_window s I"
  by (auto simp: id_remembered_def in_window_def row_kept_known id_kept_seen split: option.splits)

lemma id_remembered_cong: "window_of I1 = window_of I \<Longrightarrow> id_remembered s t n I1 = id_remembered s t n I"
  by (auto simp: window_of_def id_remembered_def dedupe_window_def split: option.splits)

lemma id_remembered_mono: "id_remembered s t n I \<Longrightarrow> n \<le> m \<Longrightarrow> id_remembered s t m I"
  by (auto simp: id_remembered_def row_kept_def id_kept_def split: option.splits) (metis le_trans)+

lemma within_window_cong: "window_of I1 = window_of I \<Longrightarrow> within_window t Ts n I1 = within_window t Ts n I"
  by (auto simp: window_of_def within_window_def dedupe_window_def split: option.splits)

lemma within_window_check:
  "within_window t Ts n (snd (dedupe_check P now eid src I)) = within_window t Ts n I"
  by (auto simp: dedupe_check_def within_window_def case_prod_beta fifo_check_def Let_def split: option.splits sum.splits)

lemma id_remembered_check:
  assumes "id_remembered s t n I" and "within_window t [T] (Suc n) I"
  shows "id_remembered s t (Suc n) (snd (dedupe_check P (t_dedupe T) eid src I))"
proof (cases "r_store (i_router I)")
  case (Some st)
  have "id_remembered s t (Suc n) I" by (rule id_remembered_mono [OF assms(1)]) simp
  moreover have "row_kept s t (Suc n) (st_dedupe (snd (check_and_record_event (x_ulid P) (t_dedupe T) key src st)))" for key
    using assms Some by (intro row_kept_check row_kept_more) (auto simp: id_remembered_def within_window_def)
  ultimately show ?thesis using Some
    by (auto simp: dedupe_check_def id_remembered_def case_prod_beta split: sum.split)
next
  case None
  have "id_remembered s t (Suc n) I" by (rule id_remembered_mono [OF assms(1)]) simp
  moreover have "id_kept s (Suc n) (snd (fifo_check key (i_fifo I)))" for key
    using assms None by (intro id_kept_check) (auto simp: id_remembered_def within_window_def)
  ultimately show ?thesis using None
    by (auto simp: dedupe_check_def id_remembered_def case_prod_beta split: sum.split)
qed

lemma admitted_is_kept:
  assumes "dedupe_check P now (VStr s) src I = (Inr False, I1)" and "window_ok now I"
  shows "id_remembered s now 0 I1"
proof (cases "r_store (i_router I)")
  case (Some st)
  with assms(1) have "I1 = I\<lparr>i_router := (i_router I)\<lparr>r_store := Some (snd (check_and_record_event (x_ulid P) now (Some s) src st))\<rparr>\<rparr>"
    "\<not> dedupe_known (Some s) st"
    by (auto simp: dedupe_check_def sql_text_def check_and_record_event_def Let_def split: prod.splits)
  moreover have "row_kept s now 0 (st_dedupe (snd (check_and_record_event (x_ulid P) now (Some s) src st)))"
    using assms(2) Some \<open>\<not> dedupe_known (Some s) st\<close>
    by (intro row_kept_check row_kept_new) (auto simp: window_ok_def limits_ok_def)
  ultimately show ?thesis by (simp add: id_remembered_def)
next
  case None
  with assms(1) have "I1 = I\<lparr>i_fifo := snd (fifo_check (VStr s) (i_fifo I))\<rparr>" "VStr s \<notin> f_seen (i_fifo I)"
    by (auto simp: dedupe_check_def fifo_check_def Let_def split: prod.splits if_splits)
  moreover from this(2) None assms(2) have "id_kept s 0 (snd (fifo_check (VStr s) (i_fifo I)))"
    by (intro id_kept_new) (auto simp: window_ok_def)
  ultimately show ?thesis using None by (simp add: id_remembered_def)
qed


subsection \<open>A run of requests\<close>

definition further :: "ports \<Rightarrow> (clocks \<times> request) list \<Rightarrow> ingest \<Rightarrow> ingest" where
  "further P rqs I = fold (\<lambda>(T, rq) I. snd (post_root P T rq I)) rqs I"

text \<open>How many of the requests are signed when they arrive.\<close>

fun signed_among :: "ports \<Rightarrow> (clocks \<times> request) list \<Rightarrow> ingest \<Rightarrow> nat" where
  "signed_among P [] I = 0"
| "signed_among P ((T, rq) # rqs) I =
     (if \<exists>source_cfg. signed P T rq I source_cfg then 1 else 0) + signed_among P rqs (snd (post_root P T rq I))"

lemma signed_among_le: "signed_among P rqs I \<le> length rqs"
  by (induction P rqs I rule: signed_among.induct) (auto simp: le_SucI)

lemma post_root_window:
  "window_of (snd (post_root P T rq I)) = window_of I
   \<or> (\<exists>source_cfg key I2. signed P T rq I source_cfg \<and> window_of I2 = window_of I
        \<and> window_of (snd (post_root P T rq I)) = window_of (snd (dedupe_check P (t_dedupe T) key (rq_source rq) I2)))"
proof -
  obtain a I' where run: "post_root P T rq I = (a, I')" by (metis surj_pair)
  then show ?thesis
  proof (cases rule: post_root_cases)
    case (turned_away B S n)
    with run show ?thesis by simp
  next
    case (routed source_cfg event I2)
    then have "signed P T rq I source_cfg" "window_of I2 = window_of I" by (auto simp: passes_def)
    with route_event_window [OF routed(2)] run show ?thesis by auto
  qed
qed

lemma within_window_step: "within_window t Ts n (snd (post_root P T rq I)) = within_window t Ts n I"
  using post_root_window [of P T rq I] within_window_cong within_window_check by metis

lemma kept_step:
  assumes "id_remembered s t n I" and "(\<exists>source_cfg. signed P T rq I source_cfg) \<Longrightarrow> within_window t [T] (Suc n) I"
  shows "id_remembered s t (n + (if \<exists>source_cfg. signed P T rq I source_cfg then 1 else 0)) (snd (post_root P T rq I))"
  using post_root_window [of P T rq I]
proof
  assume "window_of (snd (post_root P T rq I)) = window_of I"
  from id_remembered_cong [OF this] assms(1) show ?thesis by (auto intro: id_remembered_mono)
next
  assume "\<exists>source_cfg key I2. signed P T rq I source_cfg \<and> window_of I2 = window_of I
        \<and> window_of (snd (post_root P T rq I)) = window_of (snd (dedupe_check P (t_dedupe T) key (rq_source rq) I2))"
  then obtain source_cfg key I2 where w: "signed P T rq I source_cfg" "window_of I2 = window_of I"
    "window_of (snd (post_root P T rq I)) = window_of (snd (dedupe_check P (t_dedupe T) key (rq_source rq) I2))" by blast
  have "id_remembered s t n I2" "within_window t [T] (Suc n) I2"
    using assms w(1) id_remembered_cong [OF w(2)] within_window_cong [OF w(2)] by auto
  then have "id_remembered s t (Suc n) (snd (dedupe_check P (t_dedupe T) key (rq_source rq) I2))" by (rule id_remembered_check)
  then show ?thesis using id_remembered_cong [OF w(3)] w(1) by auto
qed

lemma within_window_less: "within_window t Ts n I \<Longrightarrow> m \<le> n \<Longrightarrow> set Us \<subseteq> set Ts \<Longrightarrow> within_window t Us m I"
  by (auto simp: within_window_def split: option.splits)

lemma kept_further:
  assumes "id_remembered s t n I" and "within_window t (map fst rqs) (n + signed_among P rqs I) I"
  shows "in_window s (further P rqs I)"
  using assms
proof (induction rqs arbitrary: n I)
  case Nil
  then show ?case by (simp add: further_def id_remembered_in_window)
next
  case (Cons x rqs)
  obtain T rq where x: "x = (T, rq)" by (metis surj_pair)
  let ?I = "snd (post_root P T rq I)"
  let ?n = "n + (if \<exists>source_cfg. signed P T rq I source_cfg then 1 else 0)"
  have all: "within_window t (T # map fst rqs) (?n + signed_among P rqs ?I) I"
    using Cons.prems(2) by (simp add: x add.assoc split: if_splits)
  have "id_remembered s t ?n ?I"
    by (rule kept_step [OF Cons.prems(1)]) (rule within_window_less [OF all], simp_all)
  moreover have "within_window t (map fst rqs) (?n + signed_among P rqs ?I) ?I"
    unfolding within_window_step by (rule within_window_less [OF all]) auto
  ultimately have "in_window s (further P rqs ?I)" by (rule Cons.IH)
  then show ?case by (simp add: further_def x)
qed

lemma accepted_is_kept:
  assumes "post_root P T rq I = (Inr r, I1)" and "rs_status r = 202" and "r \<noteq> duplicate_answer (VStr s)"
    and "request_id P rq = Some (VStr s)" and "window_ok (t_dedupe T) I"
  shows "id_remembered s (t_dedupe T) 0 I1"
  using assms(1)
proof (cases rule: post_root_cases)
  case (turned_away B S n)
  with assms(2) show ?thesis by simp
next
  case (routed source_cfg event I2)
  then obtain B S n where I2: "I2 = gated B S n I"
    and ev: "build_wake_event P (r_ulids (i_router I)) (rq_body rq) (rq_source rq) (rq_event_id rq) = (Event event, n)"
    by (auto simp: passes_def)
  have key: "event_key event = VStr s" by (rule build_id [OF ev assms(4)])
  from routed(2) show ?thesis
  proof (cases rule: route_event_cases)
    case stopped
    with key assms(2,3) show ?thesis by simp
  next
    case (sent event' I3 I4 d)
    have "window_ok (t_dedupe T) I2" using assms(5) by (simp add: I2 window_ok_def cong: option.case_cong)
    then have "id_remembered s (t_dedupe T) 0 I3" by (rule admitted_is_kept [OF sent(2) [unfolded key]])
    moreover have "window_of I1 = window_of I3"
      using sent(4) dispatch_cases [OF sent(3)] by (simp add: window_of_def deliver_window)
    ultimately show ?thesis using id_remembered_cong [of I1 I3] by blast
  qed
qed

text \<open>Claim C1: at most once.  After a request whose event id is a text was accepted (answered 202 and
  not as a duplicate), let any further requests come in, of any senders and with any ids, as long as
  the replay window has room: fewer of them signed than the window holds (the row limit of the store,
  or the size of the in-memory window), and, with a store, each within its time to live after the
  acceptance.  Then a request that names the same id has no effect: no frame is written, no delivery
  started, and if it is answered 202 at all, then as a duplicate.\<close>

theorem accepted_once:
  assumes "post_root P T rq I = (Inr r, I1)" and "rs_status r = 202" and "r \<noteq> duplicate_answer (VStr s)"
    and "request_id P rq = Some (VStr s)" and "window_ok (t_dedupe T) I"
    and "within_window (t_dedupe T) (map fst rqs) (signed_among P rqs I1) I1" and "I2 = further P rqs I1"
    and "request_id P rq2 = Some (VStr s)" and "post_root P T2 rq2 I2 = (a, I3)"
  shows "i_tasks I3 = i_tasks I2 \<and> r_frames (i_router I3) = r_frames (i_router I2)
    \<and> (\<forall>r2. a = Inr r2 \<and> rs_status r2 = 202 \<longrightarrow> r2 = duplicate_answer (VStr s))"
proof -
  have "id_remembered s (t_dedupe T) 0 I1" by (rule accepted_is_kept [OF assms(1-5)])
  from kept_further [OF this, of rqs P] assms(6,7) have "in_window s I2" by simp
  then show ?thesis by (rule known_request_stops [OF assms(9,8)])
qed

text \<open>Accepted, then a forged request and another signed one, then the same id again.\<close>

theorem accepted_once_witness:
  "\<exists>I1 I2. post_root demo_ports demo_clocks (demo_request demo_sig) demo_ingest
       = (Inr (answer_for Queued (VStr ''e1'') (Some [(''status'', VStr ''dispatched''), (''principal_id'', VStr ''human:ann'')])), I1)
     \<and> I2 = further demo_ports [(demo_clocks, demo_request []), (demo_clocks, demo_request demo_sig)] I1
     \<and> i_tasks (snd (post_root demo_ports demo_clocks (demo_request demo_sig) I2)) = i_tasks I2"
proof -
  let ?r = "answer_for Queued (VStr ''e1'') (Some [(''status'', VStr ''dispatched''), (''principal_id'', VStr ''human:ann'')])"
  let ?rqs = "[(demo_clocks, demo_request []), (demo_clocks, demo_request demo_sig)]"
  obtain I1 where run: "post_root demo_ports demo_clocks (demo_request demo_sig) demo_ingest = (Inr ?r, I1)"
    using demo_accepted by (metis prod.collapse)
  define I2 where "I2 = further demo_ports ?rqs I1"
  obtain a I3 where again: "post_root demo_ports demo_clocks (demo_request demo_sig) I2 = (a, I3)"
    by (metis surj_pair)
  have r: "rs_status ?r = 202" "?r \<noteq> duplicate_answer (VStr ''e1'')"
    by (simp_all add: answer_for_def json_response_def duplicate_answer_def with_delivery_def)
  have id: "request_id demo_ports (demo_request demo_sig) = Some (VStr ''e1'')"
    by (simp add: request_id_def demo_ports_def)
  have win: "window_ok (t_dedupe demo_clocks) demo_ingest"
    by (simp add: window_ok_def demo_ingest_def subscribe_def new_router_def wf_fifo_def new_fifo_def DEDUPE_MAX_def)
  have few: "signed_among demo_ports ?rqs I1 \<le> 2" using signed_among_le [of demo_ports ?rqs I1] by simp
  have "within_window 0 Ts 2 I1" for Ts
  proof -
    have "within_window 0 Ts 2 demo_ingest"
      by (simp add: within_window_def demo_ingest_def subscribe_def new_router_def new_fifo_def DEDUPE_MAX_def)
    then show ?thesis
      using within_window_step [of 0 Ts 2 demo_ports demo_clocks "demo_request demo_sig" demo_ingest] unfolding run by simp
  qed
  from within_window_less [OF this few subset_refl]
  have "within_window 0 (map fst ?rqs) (signed_among demo_ports ?rqs I1) I1" .
  then have "within_window (t_dedupe demo_clocks) (map fst ?rqs) (signed_among demo_ports ?rqs I1) I1"
    unfolding demo_clocks_def clocks.simps .
  from accepted_once [OF run r id win this I2_def id again] run again show ?thesis
    unfolding I2_def by auto
qed

end
