(* ===== verification/Claude_Threads.thy ===== *)
theory Claude_Threads
  imports Claude_Props "HOL-Library.Multiset"
begin

section \<open>The silent events under two threads (\<open>channel.py\<close>)\<close>

text \<open>
  \<open>emit_wake_event\<close> runs in the thread of the daemon's connection, \<open>flush_silent_events\<close> also in the main
  thread, for the harness.  The lock is held while an event is appended to the buffer or the buffer
  is swapped for an empty one, not while a batch is written.  Here a call is the list of what it has still
  to do, and a step of the state is one such action of one of the threads: an append or a swap under
  the lock, or one write.  A write that fails ends its call with an exception, and what the call still
  held is lost.
\<close>

datatype thread = Connection_thread | Main_thread

datatype channel_action = Buffer pytime dict | Swap string | Show string pytime "pytime \<times> dict" | Notify dict

text \<open>What a call does, by what the adapter is fed.\<close>

fun call_actions :: "feed \<Rightarrow> channel_action list" where
  "call_actions (Daemon_event now later event) =
     (if wants_wake event then [Swap ''preceding_wake'', Notify event] else [Buffer now event])"
| "call_actions (Harness_request P now msg) =
     (let mth = opt_val (dget msg ''method'') in
      if mth = VStr ''tools/call'' then [Swap ''tools_call'']
      else if mth = VStr ''notifications/claude/channel/permission_request'' then [Swap ''permission_request'']
      else [])"

fun fed_thread :: "feed \<Rightarrow> thread" where
  "fed_thread (Daemon_event now later event) = Connection_thread"
| "fed_thread (Harness_request P now msg) = Main_thread"

fun fed_events :: "feed \<Rightarrow> dict list" where
  "fed_events (Daemon_event now later event) = [event]"
| "fed_events (Harness_request P now msg) = []"

text \<open>
  The buffer, the notifications written, the events lost to failed writes, the events arrived, what each
  thread has still to do, and whether every call so far began when no other was under way.
\<close>

record threads =
  td_deferred :: "(pytime \<times> dict) list"
  td_written :: "dict list"
  td_lost :: "dict list"
  td_arrived :: "dict list"
  td_todo :: "thread \<Rightarrow> channel_action list"
  td_sequential :: bool

definition new_threads :: threads where
  "new_threads = \<lparr>td_deferred = [], td_written = [], td_lost = [], td_arrived = [], td_todo = (\<lambda>_. []), td_sequential = True\<rparr>"

definition idle :: "threads \<Rightarrow> bool" where
  "idle s \<longleftrightarrow> td_todo s Connection_thread = [] \<and> td_todo s Main_thread = []"

text \<open>The events a call holds.\<close>

fun action_events :: "channel_action \<Rightarrow> dict list" where
  "action_events (Buffer now event) = [event]"
| "action_events (Swap reason) = []"
| "action_events (Show reason later entry) = [snd entry]"
| "action_events (Notify event) = [event]"

definition held_events :: "channel_action list \<Rightarrow> dict list" where
  "held_events acts = concat (map action_events acts)"

definition begin_call :: "feed \<Rightarrow> threads \<Rightarrow> threads" where
  "begin_call f s =
     s\<lparr>td_todo := (td_todo s)(fed_thread f := call_actions f), td_arrived := td_arrived s @ fed_events f,
       td_sequential := td_sequential s \<and> idle s\<rparr>"

text \<open>One action; \<open>later\<close> is the clock when the batch it takes is about to be written.\<close>

fun act :: "pytime \<Rightarrow> channel_action \<Rightarrow> thread \<Rightarrow> channel_action list \<Rightarrow> threads \<Rightarrow> threads" where
  "act later (Buffer now event) t rest s =
     (let batch = td_deferred s @ [(now, event)] in
      if MAX_DEFERRED \<le> length batch
      then s\<lparr>td_deferred := [], td_todo := (td_todo s)(t := map (Show ''overflow'' later) batch @ rest)\<rparr>
      else s\<lparr>td_deferred := batch, td_todo := (td_todo s)(t := rest)\<rparr>)"
| "act later (Swap reason) t rest s =
     s\<lparr>td_deferred := [], td_todo := (td_todo s)(t := map (Show reason later) (td_deferred s) @ rest)\<rparr>"
| "act later (Show reason now entry) t rest s =
     s\<lparr>td_written := td_written s @ [deferred_message now reason entry], td_todo := (td_todo s)(t := rest)\<rparr>"
| "act later (Notify event) t rest s =
     s\<lparr>td_written := td_written s @ [event_message event []], td_todo := (td_todo s)(t := rest)\<rparr>"

fun writes :: "channel_action \<Rightarrow> bool" where
  "writes (Show reason later entry) = True"
| "writes (Notify event) = True"
| "writes _ = False"

definition fail_call :: "thread \<Rightarrow> threads \<Rightarrow> threads" where
  "fail_call t s = s\<lparr>td_lost := td_lost s @ held_events (td_todo s t), td_todo := (td_todo s)(t := [])\<rparr>"

text \<open>What may happen next: a call begins, or a thread does its next action, or the write that is next fails.\<close>

datatype move = Begins feed | Acts thread pytime | Fails thread

fun take_move :: "move \<Rightarrow> threads \<Rightarrow> threads option" where
  "take_move (Begins f) s = (if td_todo s (fed_thread f) = [] then Some (begin_call f s) else None)"
| "take_move (Acts t later) s = (case td_todo s t of [] \<Rightarrow> None | a # rest \<Rightarrow> Some (act later a t rest s))"
| "take_move (Fails t) s =
     (case td_todo s t of [] \<Rightarrow> None | a # rest \<Rightarrow> if writes a then Some (fail_call t s) else None)"

inductive thread_step :: "threads \<Rightarrow> threads \<Rightarrow> bool" where
  moves: "take_move m s = Some s' \<Longrightarrow> thread_step s s'"

lemma thread_step_cases [consumes 1, case_names begins acts fails]:
  assumes "thread_step s s'"
  obtains f where "td_todo s (fed_thread f) = []" "s' = begin_call f s"
  | t a rest later where "td_todo s t = a # rest" "s' = act later a t rest s"
  | t a rest where "td_todo s t = a # rest" "writes a" "s' = fail_call t s"
  using assms
proof (cases rule: thread_step.cases)
  case (moves m)
  then show ?thesis using that by (cases m) (auto split: if_splits list.splits)
qed

inductive threads_reachable :: "threads \<Rightarrow> bool" where
  new: "threads_reachable new_threads"
| step: "threads_reachable s \<Longrightarrow> thread_step s s' \<Longrightarrow> threads_reachable s'"

subsection \<open>Nothing is dropped or shown twice\<close>

definition written_contents :: "threads \<Rightarrow> string list" where
  "written_contents s = List.map_filter message_content (td_written s)"

definition unwritten :: "threads \<Rightarrow> dict list" where
  "unwritten s = td_lost s @ held_events (td_todo s Connection_thread) @ held_events (td_todo s Main_thread) @ map snd (td_deferred s)"

definition accounted :: "threads \<Rightarrow> bool" where
  "accounted s \<longleftrightarrow> mset (written_contents s) + mset (map event_content (unwritten s)) = mset (map event_content (td_arrived s))"

lemma held_events_simps [simp]:
  "held_events [] = []" "held_events (a # acts) = action_events a @ held_events acts" "held_events (acts @ acts') = held_events acts @ held_events acts'"
  "held_events (map (Show reason later) batch) = map snd batch"
  by (simp_all add: held_events_def) (induction batch, simp_all)

lemma held_events_call: "held_events (call_actions f) = fed_events f"
  by (cases f) (simp_all add: Let_def)

lemma accounted_step:
  assumes "thread_step s s'" and "accounted s"
  shows "accounted s'"
  using assms(1)
proof (cases rule: thread_step_cases)
  case (begins f)
  then show ?thesis using assms(2) held_events_call [of f]
    by (cases f) (simp_all add: accounted_def unwritten_def written_contents_def begin_call_def)
next
  case (acts t a rest later)
  then show ?thesis using assms(2)
    by (cases a; cases t)
      (simp_all add: accounted_def unwritten_def written_contents_def Let_def map_filter_append List.map_filter_simps multiset.map_comp ac_simps)
next
  case (fails t a rest)
  then show ?thesis using assms(2)
    by (cases t) (simp_all add: accounted_def unwritten_def written_contents_def fail_call_def ac_simps)
qed

lemma bounded_step:
  assumes "thread_step s s'" and "length (td_deferred s) < MAX_DEFERRED"
  shows "length (td_deferred s') < MAX_DEFERRED"
  using assms(1)
proof (cases rule: thread_step_cases)
  case (acts t a rest later)
  then show ?thesis using assms(2) by (cases a) (simp_all add: Let_def MAX_DEFERRED_def)
qed (use assms(2) in \<open>simp_all add: begin_call_def fail_call_def\<close>)

subsection \<open>Calls one after another\<close>

text \<open>The order in which the events a thread holds and those in the buffer will be written.\<close>

fun in_order :: "channel_action list \<Rightarrow> dict list \<Rightarrow> dict list" where
  "in_order [] queue = queue"
| "in_order (Buffer now event # acts) queue = in_order acts (queue @ [event])"
| "in_order (Swap reason # acts) queue = queue @ in_order acts []"
| "in_order (Show reason later entry # acts) queue = snd entry # in_order acts queue"
| "in_order (Notify event # acts) queue = event # in_order acts queue"

definition the_todo :: "threads \<Rightarrow> channel_action list" where
  "the_todo s = td_todo s Connection_thread @ td_todo s Main_thread"

fun call_shape :: "channel_action list \<Rightarrow> bool" where
  "call_shape [] = True"
| "call_shape (Buffer now event # acts) = (acts = [])"
| "call_shape (Swap reason # acts) = list_all writes acts"
| "call_shape (Show reason later entry # acts) = list_all writes acts"
| "call_shape (Notify event # acts) = list_all writes acts"

lemma in_order_writes: "list_all writes acts \<Longrightarrow> in_order acts queue = held_events acts @ queue"
proof (induction acts)
  case (Cons a acts)
  then show ?case by (cases a) simp_all
qed simp

lemma shape_writes: "list_all writes acts \<Longrightarrow> call_shape acts"
  by (cases acts rule: call_shape.cases) simp_all

lemma writes_shows [simp]: "list_all writes (map (Show reason later) batch)"
  by (induction batch) simp_all

definition queued_up :: "threads \<Rightarrow> bool" where
  "queued_up s \<longleftrightarrow> (td_todo s Connection_thread = [] \<or> td_todo s Main_thread = []) \<and> call_shape (the_todo s)
     \<and> written_contents s @ map event_content (in_order (the_todo s) (map snd (td_deferred s))) = map event_content (td_arrived s)"

fun other :: "thread \<Rightarrow> thread" where
  "other Connection_thread = Main_thread"
| "other Main_thread = Connection_thread"

lemma queued_up_step:
  assumes "thread_step s s'" "td_sequential s \<longrightarrow> td_lost s \<noteq> [] \<or> queued_up s" "td_sequential s'" "td_lost s' = []"
  shows "queued_up s'"
  using assms(1)
proof (cases rule: thread_step_cases)
  case (begins f)
  then have i: "td_sequential s" "idle s" "queued_up s" using assms(2-4) by (auto simp: begin_call_def)
  then show ?thesis
    by (cases f) (auto simp: queued_up_def begin_call_def the_todo_def idle_def written_contents_def Let_def begins)
next
  case (acts t a rest later)
  then have "td_sequential s" "td_lost s = []"
    using assms(3,4) by (cases a; simp add: Let_def split: if_splits)+
  then have q: "queued_up s" using assms(2) by simp
  have other: "td_todo s (other t) = []" using q acts(1) by (cases t) (simp_all add: queued_up_def)
  then have "the_todo s = a # rest" using acts(1) by (cases t) (simp_all add: the_todo_def)
  moreover have "the_todo s' = td_todo s' t" using other acts(2) by (cases t; cases a) (simp_all add: the_todo_def Let_def)
  moreover have "td_todo s' (other t) = []" using other acts(2) by (cases t; cases a) (simp_all add: Let_def)
  ultimately show ?thesis using q acts
    by (cases a; cases t)
      (auto simp: queued_up_def written_contents_def Let_def map_filter_append List.map_filter_simps in_order_writes
        shape_writes)
next
  case (fails t a rest)
  then show ?thesis using assms(4) by (cases a) (simp_all add: fail_call_def)
qed

subsection \<open>A call that nothing interrupts\<close>

text \<open>
  What the sequential definitions make of an event, the thread's own actions make of it when the other
  thread does nothing meanwhile and every write succeeds.
\<close>

fun on_its_own :: "nat \<Rightarrow> pytime \<Rightarrow> thread \<Rightarrow> threads \<Rightarrow> threads" where
  "on_its_own 0 later t s = s"
| "on_its_own (Suc n) later t s =
     (case td_todo s t of [] \<Rightarrow> s | a # rest \<Rightarrow> on_its_own n later t (act later a t rest s))"

lemma writes_on_their_own:
  "td_todo s t = map (Show reason later) batch @ acts \<Longrightarrow>
   on_its_own (length batch + n) later t s
     = on_its_own n later t (s\<lparr>td_written := td_written s @ map (deferred_message later reason) batch, td_todo := (td_todo s)(t := acts)\<rparr>)"
proof (induction batch arbitrary: s)
  case Nil
  then show ?case by (simp add: fun_upd_idem)
next
  case (Cons entry batch)
  then show ?case by (simp add: fun_upd_def cong: if_cong)
qed

lemma event_on_its_own:
  fixes event now later
  assumes "td_todo s Connection_thread = []" and "td_deferred s = a_deferred a"
  defines "a' \<equiv> snd (emit_wake_event (\<lambda>_. True) now later event a)"
  shows "\<exists>n. let s' = on_its_own n later Connection_thread (begin_call (Daemon_event now later event) s) in
     td_todo s' Connection_thread = [] \<and> td_deferred s' = a_deferred a'
     \<and> (\<exists>new. a_sent a' = a_sent a @ new \<and> td_written s' = td_written s @ new)"
proof (cases "wants_wake event")
  case True
  then show ?thesis
    using assms(2) writes_on_their_own [where t = Connection_thread and reason = "''preceding_wake''" and n = "Suc 0" and acts = "[Notify event]" and later = later]
    by (intro exI [of _ "Suc (length (a_deferred a) + Suc 0)"])
      (simp add: a'_def begin_call_def Let_def emit_wake_event_def and_then_def flush_all adapter_simps)
next
  case False
  show ?thesis
  proof (cases "MAX_DEFERRED \<le> Suc (length (a_deferred a))")
    case True
    then show ?thesis
      using False assms(2) writes_on_their_own [where t = Connection_thread and reason = "''overflow''" and n = 0 and acts = "[]"
          and later = later and batch = "a_deferred a @ [(now, event)]"]
      by (intro exI [of _ "Suc (length (a_deferred a @ [(now, event)]) + 0)"])
        (simp add: a'_def begin_call_def Let_def emit_wake_event_def defer_silent_event_def emit_deferred_all)
  next
    case small: False
    then show ?thesis using False assms(2)
      by (intro exI [of _ "Suc 0"]) (simp add: a'_def begin_call_def Let_def emit_wake_event_def defer_silent_event_def)
  qed
qed

subsection \<open>How an event is shown\<close>

text \<open>As what it is: a silent one with the mark of its delay, a waking one without.\<close>

definition shown_rightly :: "dict \<Rightarrow> bool" where
  "shown_rightly msg \<longleftrightarrow> (\<exists>event. wants_wake event \<and> msg = event_message event [])
     \<or> (\<exists>now reason entry. \<not> wants_wake (snd entry) \<and> msg = deferred_message now reason entry)"

fun sorted_out :: "channel_action \<Rightarrow> bool" where
  "sorted_out (Buffer now event) = (\<not> wants_wake event)"
| "sorted_out (Swap reason) = True"
| "sorted_out (Show reason later entry) = (\<not> wants_wake (snd entry))"
| "sorted_out (Notify event) = wants_wake event"

definition marked :: "threads \<Rightarrow> bool" where
  "marked s \<longleftrightarrow> (\<forall>msg \<in> set (td_written s). shown_rightly msg) \<and> (\<forall>t. \<forall>a \<in> set (td_todo s t). sorted_out a)
     \<and> (\<forall>entry \<in> set (td_deferred s). \<not> wants_wake (snd entry))"

lemma shown_rightlyI [intro]:
  "wants_wake event \<Longrightarrow> shown_rightly (event_message event [])"
  "\<not> wants_wake (snd entry) \<Longrightarrow> shown_rightly (deferred_message now reason entry)"
  unfolding shown_rightly_def by blast+

lemma marked_step:
  assumes "thread_step s s'" and "marked s"
  shows "marked s'"
  using assms(1)
proof (cases rule: thread_step_cases)
  case (begins f)
  then show ?thesis using assms(2) by (cases f) (auto simp: marked_def begin_call_def Let_def)
next
  case (acts t a rest later)
  from assms(2) acts(1) have now: "sorted_out a" "\<forall>b \<in> set rest. sorted_out b"
    by (auto simp: marked_def dest: spec [of _ t])
  then show ?thesis using assms(2) acts(2)
    by (cases a) (auto simp: marked_def Let_def)
next
  case (fails t a rest)
  then show ?thesis using assms(2) by (auto simp: marked_def fail_call_def)
qed

subsection \<open>The invariant\<close>

lemma reachable_threads:
  "threads_reachable s \<Longrightarrow>
     accounted s \<and> length (td_deferred s) < MAX_DEFERRED \<and> marked s \<and> (td_sequential s \<longrightarrow> td_lost s \<noteq> [] \<or> queued_up s)"
proof (induction rule: threads_reachable.induct)
  case new
  show ?case
    by (simp add: new_threads_def accounted_def unwritten_def written_contents_def marked_def queued_up_def the_todo_def
        MAX_DEFERRED_def List.map_filter_simps)
next
  case (step s s')
  then show ?case using accounted_step [of s s'] bounded_step [of s s'] marked_step [of s s'] queued_up_step [of s s'] by blast
qed


subsection \<open>Schedules\<close>

fun take_moves :: "move list \<Rightarrow> threads \<Rightarrow> threads option" where
  "take_moves [] s = Some s"
| "take_moves (m # ms) s = (case take_move m s of None \<Rightarrow> None | Some s' \<Rightarrow> take_moves ms s')"

lemma take_moves_reachable: "threads_reachable s \<Longrightarrow> take_moves ms s = Some s' \<Longrightarrow> threads_reachable s'"
proof (induction ms arbitrary: s)
  case (Cons m ms)
  then obtain s1 where "take_move m s = Some s1" "take_moves ms s1 = Some s'" by (auto split: option.splits)
  with Cons.IH threads_reachable.step [OF Cons.prems(1) thread_step.moves] show ?case by blast
qed simp

definition fed :: "string \<Rightarrow> bool \<Rightarrow> feed" where
  "fed content wake = Daemon_event 1 1 [(''content'', VStr content), (''wake'', VBool wake)]"

definition one_by_one :: "move list" where
  "one_by_one = [Begins (fed ''note'' False), Acts Connection_thread 2,
     Begins (fed ''alarm'' True), Acts Connection_thread 3, Acts Connection_thread 3, Acts Connection_thread 3,
     Begins (fed ''later'' False), Acts Connection_thread 4]"


text \<open>
  A harness request between a silent event and a wake: the main thread has taken the buffer but not
  written it when the wake comes, finds the buffer empty and is written.  The wake is ahead of the
  event it should have followed.
\<close>

definition overtaken :: "move list" where
  "overtaken = [Begins (fed ''note'' False), Acts Connection_thread 2,
     Begins (Harness_request \<lparr>rl_sha = (\<lambda>_. []), rl_hmac = (\<lambda>_ _. []), rl_url_ok = (\<lambda>_. False), rl_config = Inr [], rl_env = None, rl_time = 0\<rparr>
       2 [(''method'', VStr ''tools/call'')]), Acts Main_thread 3,
     Begins (fed ''alarm'' True), Acts Connection_thread 3, Acts Connection_thread 3, Acts Main_thread 3]"

lemma wake_overtakes:
  "\<exists>s. threads_reachable s \<and> idle s \<and> td_lost s = [] \<and> written_contents s = [''alarm'', ''note'']
     \<and> map event_content (td_arrived s) = [''note'', ''alarm'']"
proof -
  have "case take_moves overtaken new_threads of None \<Rightarrow> False
    | Some s \<Rightarrow> idle s \<and> td_lost s = [] \<and> written_contents s = [''alarm'', ''note''] \<and> map event_content (td_arrived s) = [''note'', ''alarm'']"
    by code_simp
  then show ?thesis using take_moves_reachable [OF threads_reachable.new, of overtaken] by (auto split: option.splits)
qed

end
