(* ===== verification/Spec2Isabelle.thy ===== *)
theory Spec2Isabelle
  imports Proto Drain_Props Socket_Props Delivery_Props Ingest_Props Webhook_Props Config_Errors Migrate Shutdown_Props
    Queue_Cli_Props Email Secrets_Cli_Props Claude_Props Hermes Doctor_Props Harness_Props
    Config_Cli Identifiers_Props Plumbing_Props Instance_Lock Drain_Window Plugin_Paths Sessions
    Replay_Props Claude_Threads
begin

text \<open>
  \<^bold>\<open>agent-wake: the daemon, its tools and its adapters.\<close>

  The program under \<open>src/daemon/src/agent_waked\<close> is a daemon that wakes coding agents.  A sender
  posts a signed event over HTTP (\<open>ingest.py\<close>); the event is authenticated (\<open>gating.py\<close>, with
  secrets from \<open>secrets/\<close>), deduplicated (\<open>store.py\<close>), possibly sent to a human out of band
  (\<open>delivery.py\<close>), and routed (\<open>router.py\<close> over the tables of \<open>addressing.py\<close>) to the adapters
  connected to a unix socket (\<open>socket_server.py\<close>, with the frames of \<open>proto.py\<close>).  Events for which
  nobody is connected wait in the store's next-session queue; replies of agents are posted to
  callback URLs (\<open>outbox.py\<close>, signed by \<open>wake_hmac.py\<close>); what cannot be delivered becomes a dead
  letter in the store.  The operator works on the dead letters, the queue and the secrets with a
  command line (\<open>cli/\<close>), and adapters (\<open>src/adapters\<close>) connect the harnesses of the agents to
  the socket.

  \<^bold>\<open>Theories.\<close>
  \<^item> \<open>Prelude\<close>: Python values (\<open>pyval\<close>), dictionaries in insertion order, truthiness, \<open>str\<close> and
    \<open>repr\<close>, and the list lemmas the components share.  \<open>Pytext\<close>: the string functions the code
    uses.  \<open>Url\<close>: \<open>urllib.parse\<close>.  \<open>Ipaddr\<close>: \<open>ipaddress\<close> on words of 32 and 128 bits, with the
    network tables of CPython 3.11.10.
  \<^item> \<open>Interfaces\<close>: the contracts between components, as locales.  \<open>id_queue\<close> (a queue whose
    entries leave only when deleted) is interpreted on the next-session queue in \<open>Store_Props\<close>;
    \<open>replay_window\<close> is interpreted on the durable dedupe table in \<open>Store_Props\<close> and on the
    in-memory window in \<open>Ingest_Props\<close>.
  \<^item> \<open>Addressing\<close> (\<open>addressing.py\<close>): destinations, routes, the translation of legacy files,
    narrowing, out-of-band authority.
  \<^item> \<open>Gating\<close> (\<open>gating.py\<close>): the signature header and the trigger-identity allowlist.
  \<^item> \<open>Proto\<close> (\<open>proto.py\<close>): frame encoding and validation.
  \<^item> \<open>Store\<close>, \<open>Store_Props\<close> (\<open>store.py\<close>): the three tables as lists of rows, every operation on
    them, opening and migration.
  \<^item> \<open>Router\<close>, \<open>Router_Invariant\<close>, \<open>Router_Props\<close>, \<open>Drain_Props\<close> (\<open>router.py\<close>): the router's
    state with subscribers, ack futures and waiters; delivery, draining, acks; the step relation
    \<open>router_step\<close> with its invariant.
  \<^item> \<open>Wake_Hmac\<close> (\<open>wake_hmac.py\<close>), \<open>Outbox\<close>, \<open>Outbox_Props\<close> (\<open>outbox.py\<close>): signatures of
    callback bodies and the retry loop.
  \<^item> \<open>Socket_Server\<close>, \<open>Socket_Props\<close> (\<open>socket_server.py\<close>): handshake, frame loop, heartbeat;
    the step relation \<open>server_step\<close>.
  \<^item> \<open>Delivery\<close>, \<open>Delivery_Props\<close> (\<open>delivery.py\<close>): dispatch to the channels of a principal.
  \<^item> \<open>Secrets\<close> (\<open>secrets/resolver.py\<close>, \<open>secrets/env.py\<close>): URI dispatch and the cache.
  \<^item> \<open>Ingest\<close>, \<open>Ingest_Props\<close> (\<open>ingest.py\<close>): the POST handler stage by stage, the rate
    limiter, the replay windows, and the forced end of the deliveries at a shutdown, whose
    survivors are those that take longer to end than the code waits.  \<open>Replay_Props\<close>: a second request
    with an id that was accepted, after any others the window has room for.

  \<^item> \<open>Netguard\<close> (\<open>netguard.py\<close>): the addresses the daemon refuses to connect to.
  \<^item> \<open>Webhook\<close>, \<open>Webhook_Props\<close> (\<open>channels/webhook.py\<close>): a webhook delivery as the trace of its
    checks, posts and pauses.
  \<^item> \<open>Config\<close>, \<open>Config_Props\<close>, \<open>Config_Errors\<close> (\<open>config.py\<close>): from a JSON value to the normalised
    configuration, every validator; a failure is a \<open>Config_error\<close> (its text is left out) or the
    \<open>Crash\<close> of another exception.
  \<^item> \<open>Migrate\<close> (\<open>cli/config_cmd.py\<close>): the v2 form of a v1 file.
  \<^item> \<open>Lifecycle\<close>, \<open>Lifecycle_Props\<close>, \<open>Shutdown_Props\<close> (\<open>main.py\<close>, \<open>secrets/visibility.py\<close>): start,
    reload and shutdown, and the whole daemon as the step relation \<open>daemon_step\<close>.
  \<^item> \<open>Email\<close> (\<open>channels/email.py\<close>): rendering and the SMTP dialogue as the list of commands the
    server accepted; the channels the daemon registers, against the contract of a channel.
  \<^item> \<open>Vault\<close> (\<open>secrets/vault.py\<close>): login, KV reference and the second attempt.
  \<^item> \<open>Lines\<close>: lines of a text and padded columns.  \<open>Queue_Cli\<close>, \<open>Queue_Cli_Props\<close>
    (\<open>cli/queue.py\<close>, \<open>cli/__init__.py\<close>): the commands on dead letters and the queue as functions of
    the databases on disk, and the error boundary around them.
  \<^item> \<open>Env_File\<close>, \<open>Secrets_Cli\<close>, \<open>Secrets_Cli_Props\<close> (\<open>cli/secrets.py\<close>): the file of secrets, and
    the commands that change it together with the configuration.
  \<^item> \<open>Claude_Channel\<close>, \<open>Claude_Client\<close>, \<open>Claude_Props\<close> (\<open>src/adapters/claude\<close>): the channel with
    its buffer of silent events, the permission relay and the tool server; the session with the
    daemon, the reconnection and the reply tool.  A call of the tool is cut where the client's
    thread can run.  \<open>Claude_Threads\<close>: the calls that use the buffer as lists of actions (an append or a
    swap under the lock, one write), taken by two threads in any order, as the step relation
    \<open>thread_step\<close>; run alone, a call comes to what \<open>Claude_Channel\<close> says.
  \<^item> \<open>Hermes\<close> (\<open>src/adapters/hermes\<close>): the queues of the plugin.
  \<^item> \<open>Health\<close> (\<open>router.py\<close>, \<open>delivery.py\<close>, \<open>ingest.py\<close>): the health document.  \<open>Suite\<close>
    (\<open>suite_config.py\<close>): the layers of the suite's variables.  \<open>Doctor\<close>, \<open>Doctor_Props\<close>
    (\<open>doctor.py\<close>): the ten checks and the report, and what the checks say of a daemon whose
    health document they read.
  \<^item> \<open>Harness\<close>, \<open>Harness_Props\<close> (\<open>cli/install_harness.py\<close>): wiring the adapters into the
    harnesses, as functions of the files they edit and of the manifest.
  \<^item> \<open>Plugin_Paths\<close> (\<open>cli/install_harness.py\<close>): where the plugins of the harnesses are found.
  \<^item> \<open>Instance_Lock\<close> (\<open>socket_server.py\<close>): the lock beside the socket, as the step relation
    \<open>host_step\<close> of the processes of a host.  \<open>Drain_Window\<close> (\<open>ingest.py\<close>, \<open>main.py\<close>): the cleanup hook
    in time, its wait for the deliveries in flight and the wait after their cancellation; it ends because
    every wait either reaches the deadline or sees a task done.  When \<open>aiohttp\<close> starts the hook is a
    hypothesis of its theorem.  \<open>Sessions\<close> (\<open>outbox.py\<close>, \<open>delivery.py\<close>, \<open>channels/webhook.py\<close>): which
    HTTP sessions are open, as the step relation \<open>session_step\<close>.
  \<^item> \<open>Config_Cli\<close> (\<open>cli/config_cmd.py\<close>): showing the addressing model and writing the migrated file.
  \<^item> \<open>Identifiers\<close>, \<open>Identifiers_Props\<close>, \<open>Plumbing\<close>, \<open>Plumbing_Props\<close> (\<open>src/scripts\<close>): the gate that looks
    for forbidden identifiers in the tree and in messages, with the denylist's parser and the
    search for phrases; the guard that compares a push with what the repository declares.

  \<^bold>\<open>State and time.\<close>  A handler is a function of the state that returns its result and the state
  it leaves; an exception is a value of \<open>exn\<close>.  Handlers run to their end one at a time, and what
  happens between them (acks, timeouts, other requests) are steps of their own; only the two threads of
  the Claude adapter are interleaved within a call.  Clock readings,
  identifiers, digests, HTTP responses and whether a write to a socket succeeds are arguments;
  clocks are exact rationals.  Characters are code points below 256.  Loops are structural
  recursion over the rows, names or attempts they run over, or have a measure, so every function
  is total and no fuel is chosen, except for splitting a query string, whose fuel is its length.

  \<^bold>\<open>What is shown.\<close>  Safety of the path from a request to a frame: nothing happens before the
  signature verifies, a sender reaches only destinations routed for it and principals it is
  declared for, a replay within the window has no effect.  Durability: a queued event stays queued until it is
  acknowledged or dead-lettered, an expired one becomes a dead letter, a reply and an alert
  leave a trace when there is a store.  Invariants of the store, the router and the socket server over all
  their operations.  Invariants of the whole daemon across reloads, a shutdown that leaves nothing
  behind but deliveries that outlive their cancellation, and a loader whose results have the shape everything else relies on.  Equivalences with
  reference definitions for the retry loop, the routed destinations, legacy translation, the
  migration of rows and of files, and the spellings of an address.  The commands of the
  operator keep the databases and the configuration sound and say truthfully what a redrive did;
  the Claude adapter accounts for every event whatever its threads do, and keeps their order when no
  call interrupts another; it answers each wake so that the daemon settles it, and reconnects until it is cancelled;
  the doctor's verdicts are true of the daemon it asked; what the installer did, an uninstall
  undoes; the identifier gate passes a tree or a message exactly when nothing on its list is spelt
  there, and the push guard a push exactly when it matches the declaration.  Where the code does not do what it
  says, a theorem states what it does.

  \<^bold>\<open>Not modelled.\<close>  asyncio's scheduling within a handler, SQLite's transactions, file and socket
  handling, logging, \<open>json.loads\<close> (a parameter; NaN and the infinities are no values), name
  servers, the digests, \<open>hvac\<close>, \<open>aiohttp\<close> and the mail server; signal handlers and the TCP site;
  argument parsing, the Windows service, and the smoke tests under \<open>src/tools\<close>.
\<close>

end
